(* ===== verification/JsCore.thy ===== *)
theory JsCore
  imports Main "HOL-Library.Char_ord" "HOL-Library.List_Lexorder"
begin

section \<open>JavaScript values, results and validators shared by every component\<close>

text \<open>
  The prelude of the development. It holds
  \<^item> the result type of a fallible call (\<open>'e + 'a\<close>, \<open>Inl\<close> the thrown error) with the two
    combinators \<open>ensure\<close> (a guard that throws) and \<open>bindR\<close> (a call whose exception
    propagates), and the rules that take a successful run apart;
  \<^item> JavaScript values as the code receives them in request bodies (\<open>jsval\<close>), with the
    conversions \<open>String(v)\<close>, \<open>Number(v)\<close>, \<open>Boolean(v)\<close>, \<open>v ?? d\<close> and \<open>trim\<close>;
  \<^item> the validators every component repeats: safe identifiers, bounded integers, bounded
    texts, and \<open>new Date(v)\<close>.

  Conventions. A string is a list of code units, and the model covers code units below 256.
  A number is an integer (\<open>JInt\<close>) or any other number primitive given by its \<open>String()\<close> text
  (\<open>JFrac\<close>, so \<open>NaN\<close>, \<open>Infinity\<close> and \<open>2.5\<close> are \<open>JFrac\<close> values). An ISO timestamp is
  represented by its instant, the number of milliseconds since the epoch, as \<open>int\<close>.
  \<open>Date.parse\<close> of a general string is implementation-defined in ECMAScript, so it is the
  argument \<open>dp\<close> of the definitions that parse dates.
\<close>

subsection \<open>Results\<close>

definition ensure :: "bool \<Rightarrow> 'e \<Rightarrow> 'e + 'a \<Rightarrow> 'e + 'a" where
  "ensure b e k = (if b then k else Inl e)"

definition bindR :: "'e + 'a \<Rightarrow> ('a \<Rightarrow> 'e + 'b) \<Rightarrow> 'e + 'b" where
  "bindR m f = (case m of Inl e \<Rightarrow> Inl e | Inr x \<Rightarrow> f x)"

definition from_option :: "'e \<Rightarrow> 'a option \<Rightarrow> 'e + 'a" where
  "from_option e m = (case m of None \<Rightarrow> Inl e | Some x \<Rightarrow> Inr x)"

definition ok :: "'e + 'a \<Rightarrow> bool" where
  "ok r = (case r of Inl _ \<Rightarrow> False | Inr _ \<Rightarrow> True)"

lemma ensure_simps [simp]:
  "ensure True e k = k"
  "ensure False e k = Inl e"
  by (simp_all add: ensure_def)

lemma ensure_Inr [simp]: "ensure b e k = Inr y \<longleftrightarrow> b \<and> k = Inr y"
  by (simp add: ensure_def)

lemma ensure_Inl [simp]: "ensure b e k = Inl x \<longleftrightarrow> (if b then k = Inl x else x = e)"
  by (auto simp: ensure_def)

lemma ensure_cong [cong]:
  "b = b' \<Longrightarrow> (b' \<Longrightarrow> k = k') \<Longrightarrow> ensure b e k = ensure b' e k'"
  by (simp add: ensure_def)

lemma bindR_simps [simp]:
  "bindR (Inl e) f = Inl e"
  "bindR (Inr x) f = f x"
  by (simp_all add: bindR_def)

lemma bindR_Inr [simp]: "bindR m f = Inr y \<longleftrightarrow> (\<exists>x. m = Inr x \<and> f x = Inr y)"
  by (auto simp: bindR_def split: sum.splits)

lemma bindR_Inl: "bindR m f = Inl e \<longleftrightarrow> m = Inl e \<or> (\<exists>x. m = Inr x \<and> f x = Inl e)"
  by (auto simp: bindR_def split: sum.splits)

lemma from_option_simps [simp]:
  "from_option e None = Inl e"
  "from_option e (Some x) = Inr x"
  by (simp_all add: from_option_def)

lemma from_option_Inr [simp]: "from_option e m = Inr x \<longleftrightarrow> m = Some x"
  by (auto simp: from_option_def split: option.splits)

lemma from_option_Inl [simp]: "from_option e m = Inl x \<longleftrightarrow> m = None \<and> x = e"
  by (auto simp: from_option_def split: option.splits)

lemma ok_simps [simp]: "\<not> ok (Inl e)" "ok (Inr x)"
  by (simp_all add: ok_def)

lemma ok_iff: "ok r \<longleftrightarrow> (\<exists>x. r = Inr x)"
  by (cases r) simp_all

subsection \<open>Values\<close>

datatype jsval =
    JUndef
  | JNull
  | JBool bool
  | JInt int
  | JFrac string
  | JStr string
  | JArr "jsval list"
  | JObj "(string \<times> jsval) list"

text \<open>\<open>v ?? d\<close> and \<open>o?.k\<close> (a missing key or a non-object reads as \<open>undefined\<close>).\<close>

fun nullish :: "jsval \<Rightarrow> bool" where
  "nullish JUndef = True"
| "nullish JNull = True"
| "nullish _ = False"

definition js_or_nullish :: "jsval \<Rightarrow> jsval \<Rightarrow> jsval" where
  "js_or_nullish v d = (if nullish v then d else v)"

fun js_get :: "jsval \<Rightarrow> string \<Rightarrow> jsval" where
  "js_get (JObj kvs) k = (case map_of kvs k of None \<Rightarrow> JUndef | Some v \<Rightarrow> v)"
| "js_get _ k = JUndef"

fun truthy :: "jsval \<Rightarrow> bool" where
  "truthy JUndef = False"
| "truthy JNull = False"
| "truthy (JBool b) = b"
| "truthy (JInt n) = (n \<noteq> 0)"
| "truthy (JFrac t) = (t \<noteq> ''NaN'')"
| "truthy (JStr s) = (s \<noteq> [])"
| "truthy (JArr _) = True"
| "truthy (JObj _) = True"

text \<open>\<open>value && typeof value === 'object' && !Array.isArray(value)\<close>.\<close>

fun is_plain_object :: "jsval \<Rightarrow> bool" where
  "is_plain_object (JObj _) = True"
| "is_plain_object _ = False"

fun is_array :: "jsval \<Rightarrow> bool" where
  "is_array (JArr _) = True"
| "is_array _ = False"

fun elements :: "jsval \<Rightarrow> jsval list" where
  "elements (JArr vs) = vs"
| "elements _ = []"

lemma js_or_nullish_simps [simp]:
  "js_or_nullish JUndef d = d" "js_or_nullish JNull d = d"
  "js_or_nullish (JStr s) d = JStr s" "js_or_nullish (JInt n) d = JInt n"
  "js_or_nullish (JArr vs) d = JArr vs" "js_or_nullish (JBool b) d = JBool b"
  by (simp_all add: js_or_nullish_def)

subsection \<open>Text of numbers\<close>

definition digit_char :: "nat \<Rightarrow> char" where
  "digit_char n = char_of (48 + n)"

fun dec :: "nat \<Rightarrow> string" where
  "dec n = (if n < 10 then [digit_char n] else dec (n div 10) @ [digit_char (n mod 10)])"

declare dec.simps [simp del]

definition is_digit :: "char \<Rightarrow> bool" where
  "is_digit c = (48 \<le> (of_char c :: nat) \<and> (of_char c :: nat) \<le> 57)"

definition undec :: "string \<Rightarrow> nat" where
  "undec s = foldl (\<lambda>a c. 10 * a + ((of_char c :: nat) - 48)) 0 s"

definition int_text :: "int \<Rightarrow> string" where
  "int_text n = (if n < 0 then CHR ''-'' # dec (nat (- n)) else dec (nat n))"

definition pad_start :: "nat \<Rightarrow> char \<Rightarrow> string \<Rightarrow> string" where
  "pad_start n c s = replicate (n - length s) c @ s"

lemma of_char_digit [simp]: "n < 10 \<Longrightarrow> (of_char (digit_char n) :: nat) = 48 + n"
  by (simp add: digit_char_def)

lemma undec_dec [simp]: "undec (dec n) = n"
proof (induction n rule: dec.induct)
  case (1 n)
  show ?case
  proof (cases "n < 10")
    case True
    then show ?thesis by (simp add: dec.simps [of n] undec_def)
  next
    case False
    then have "undec (dec (n div 10)) = n div 10" by (rule 1)
    moreover have "undec (dec n) = 10 * undec (dec (n div 10)) + n mod 10"
      using False by (simp add: dec.simps [of n] undec_def)
    ultimately show ?thesis by simp
  qed
qed

lemma dec_inj [simp]: "dec m = dec n \<longleftrightarrow> m = n"
  by (metis undec_dec)

lemma dec_digits: "c \<in> set (dec n) \<Longrightarrow> is_digit c"
proof (induction n rule: dec.induct)
  case (1 n)
  then show ?case
    by (cases "n < 10") (auto simp: dec.simps [of n] is_digit_def)
qed

lemma dec_nonempty [simp]: "dec n \<noteq> []"
  by (simp add: dec.simps [of n])

lemma undec_replicate_zero [simp]: "undec (replicate k (CHR ''0'') @ s) = undec s"
  by (induction k) (simp_all add: undec_def)

lemma undec_pad_start [simp]: "undec (pad_start k (CHR ''0'') (dec n)) = n"
  by (simp add: pad_start_def)

lemma pad_dec_inj: "pad_start k (CHR ''0'') (dec m) = pad_start k (CHR ''0'') (dec n) \<longleftrightarrow> m = n"
  by (metis undec_pad_start)

subsection \<open>String, Number and trim\<close>

definition is_ws :: "char \<Rightarrow> bool" where
  "is_ws c = ((of_char c :: nat) \<in> {9, 10, 11, 12, 13, 32, 160})"

definition js_trim :: "string \<Rightarrow> string" where
  "js_trim s = rev (dropWhile is_ws (rev (dropWhile is_ws s)))"

fun join_with :: "string \<Rightarrow> string list \<Rightarrow> string" where
  "join_with sep [] = []"
| "join_with sep [x] = x"
| "join_with sep (x # y # ys) = x @ sep @ join_with sep (y # ys)"

fun js_String :: "jsval \<Rightarrow> string" where
  "js_String JUndef = ''undefined''"
| "js_String JNull = ''null''"
| "js_String (JBool b) = (if b then ''true'' else ''false'')"
| "js_String (JInt n) = int_text n"
| "js_String (JFrac t) = t"
| "js_String (JStr s) = s"
| "js_String (JArr vs) = join_with '','' (map (\<lambda>v. if nullish v then [] else js_String v) vs)"
| "js_String (JObj _) = ''[object Object]''"

text \<open>
  \<open>Number(s)\<close> of a string: blank is 0; otherwise an optional sign, digits with an optional
  fraction and an optional exponent. \<open>m \<cdot> 10\<^sup>k\<close> that is integral is a \<open>JInt\<close>. The prefixes
  \<open>0x\<close>, \<open>0o\<close>, \<open>0b\<close> are read as well; anything else is \<open>NaN\<close>.
\<close>

definition nan :: jsval where
  "nan = JFrac ''NaN''"

definition digit_value :: "char \<Rightarrow> nat option" where
  "digit_value c = (let n = (of_char c :: nat) in
     if 48 \<le> n \<and> n \<le> 57 then Some (n - 48)
     else if 97 \<le> n \<and> n \<le> 122 then Some (n - 87)
     else if 65 \<le> n \<and> n \<le> 90 then Some (n - 55) else None)"

fun radix_value :: "nat \<Rightarrow> nat \<Rightarrow> string \<Rightarrow> nat option" where
  "radix_value b acc [] = Some acc"
| "radix_value b acc (c # cs) = (case digit_value c of
     None \<Rightarrow> None
   | Some d \<Rightarrow> if d < b then radix_value b (b * acc + d) cs else None)"

definition scaled :: "string \<Rightarrow> int \<Rightarrow> int \<Rightarrow> jsval" where
  "scaled t m k = (if 0 \<le> k then JInt (m * 10 ^ nat k)
     else if 10 ^ nat (- k) dvd m then JInt (m div 10 ^ nat (- k)) else JFrac t)"

definition exponent_of :: "string \<Rightarrow> int option" where
  "exponent_of s = (case s of
     [] \<Rightarrow> Some 0
   | e # r \<Rightarrow> if e \<noteq> CHR ''e'' \<and> e \<noteq> CHR ''E'' then None else
       (let (sg, ds) = (case r of (CHR ''-'') # d \<Rightarrow> (- 1, d) | (CHR ''+'') # d \<Rightarrow> (1, d) | _ \<Rightarrow> (1, r))
        in if ds \<noteq> [] \<and> list_all is_digit ds then Some (sg * int (undec ds)) else None))"

definition unsigned_number :: "string \<Rightarrow> int \<Rightarrow> string \<Rightarrow> jsval" where
  "unsigned_number t sg s = (let ip = takeWhile is_digit s; r = dropWhile is_digit s;
       (fp, r') = (case r of (CHR ''.'') # q \<Rightarrow> (takeWhile is_digit q, dropWhile is_digit q) | _ \<Rightarrow> ([], r))
     in if s = ''Infinity'' then JFrac (if sg < 0 then ''-Infinity'' else s)
        else if ip = [] \<and> fp = [] then nan
        else (case exponent_of r' of None \<Rightarrow> nan
          | Some k \<Rightarrow> scaled t (sg * int (undec (ip @ fp))) (k - int (length fp))))"

definition string_to_number :: "string \<Rightarrow> jsval" where
  "string_to_number s0 = (let s = js_trim s0 in case s of
     [] \<Rightarrow> JInt 0
   | c # r \<Rightarrow>
     if c = CHR ''0'' \<and> length r \<ge> 2 \<and> hd r \<in> set ''xX'' then
       (case radix_value 16 0 (tl r) of Some n \<Rightarrow> JInt (int n) | None \<Rightarrow> nan)
     else if c = CHR ''0'' \<and> length r \<ge> 2 \<and> hd r \<in> set ''oO'' then
       (case radix_value 8 0 (tl r) of Some n \<Rightarrow> JInt (int n) | None \<Rightarrow> nan)
     else if c = CHR ''0'' \<and> length r \<ge> 2 \<and> hd r \<in> set ''bB'' then
       (case radix_value 2 0 (tl r) of Some n \<Rightarrow> JInt (int n) | None \<Rightarrow> nan)
     else if c = CHR ''-'' then unsigned_number s (- 1) r
     else if c = CHR ''+'' then unsigned_number s 1 r
     else unsigned_number s 1 s)"

fun js_Number :: "jsval \<Rightarrow> jsval" where
  "js_Number JUndef = nan"
| "js_Number JNull = JInt 0"
| "js_Number (JBool b) = JInt (if b then 1 else 0)"
| "js_Number (JInt n) = JInt n"
| "js_Number (JFrac t) = JFrac t"
| "js_Number (JStr s) = string_to_number s"
| "js_Number (JArr vs) = string_to_number (js_String (JArr vs))"
| "js_Number (JObj _) = nan"

subsection \<open>Validators\<close>

text \<open>\<open>Number.isInteger(Number(v))\<close> and \<open>lo \<le> n \<le> hi\<close>.\<close>

definition int_in :: "int \<Rightarrow> int \<Rightarrow> jsval \<Rightarrow> int option" where
  "int_in lo hi v = (case js_Number v of
     JInt n \<Rightarrow> if lo \<le> n \<and> n \<le> hi then Some n else None
   | _ \<Rightarrow> None)"

lemma int_in_Some: "int_in lo hi v = Some n \<Longrightarrow> lo \<le> n \<and> n \<le> hi"
  by (auto simp: int_in_def split: jsval.splits if_splits)

lemma int_in_JInt [simp]: "int_in lo hi (JInt n) = (if lo \<le> n \<and> n \<le> hi then Some n else None)"
  by (simp add: int_in_def)

definition is_alnum :: "char \<Rightarrow> bool" where
  "is_alnum c = (let n = (of_char c :: nat) in
     48 \<le> n \<and> n \<le> 57 \<or> 65 \<le> n \<and> n \<le> 90 \<or> 97 \<le> n \<and> n \<le> 122)"

text \<open>The regular expressions \<open>/^[a-zA-Z0-9][a-zA-Z0-9<extra>]{lo,hi}$/\<close>.\<close>

definition safe_ident :: "string \<Rightarrow> nat \<Rightarrow> nat \<Rightarrow> string \<Rightarrow> bool" where
  "safe_ident extra lo hi s = (case s of
     [] \<Rightarrow> False
   | c # cs \<Rightarrow> is_alnum c \<and> lo \<le> length cs \<and> length cs \<le> hi
       \<and> list_all (\<lambda>d. is_alnum d \<or> d \<in> set extra) cs)"

lemma safe_ident_length: "safe_ident extra lo hi s \<Longrightarrow> Suc lo \<le> length s \<and> length s \<le> Suc hi"
  by (auto simp: safe_ident_def split: list.splits)

lemma safe_ident_nonempty: "safe_ident extra lo hi s \<Longrightarrow> s \<noteq> []"
  by (auto simp: safe_ident_def)

definition is_hex :: "char \<Rightarrow> bool" where
  "is_hex c = (let n = (of_char c :: nat) in 48 \<le> n \<and> n \<le> 57 \<or> 97 \<le> n \<and> n \<le> 102)"

definition is_hex_text :: "nat \<Rightarrow> string \<Rightarrow> bool" where
  "is_hex_text k s = (length s = k \<and> list_all is_hex s)"

definition starts_with :: "string \<Rightarrow> string \<Rightarrow> bool" where
  "starts_with p s = (take (length p) s = p)"

text \<open>\<open>String(v ?? '').trim()\<close> of bounded length, and the same with \<open>replace(/[<>]/g, '')\<close>.\<close>

definition trimmed :: "jsval \<Rightarrow> string" where
  "trimmed v = js_trim (js_String (js_or_nullish v (JStr [])))"

definition strip_angle :: "string \<Rightarrow> string" where
  "strip_angle s = filter (\<lambda>c. c \<noteq> CHR ''<'' \<and> c \<noteq> CHR ''>'') s"

definition text_in :: "nat \<Rightarrow> nat \<Rightarrow> jsval \<Rightarrow> string option" where
  "text_in lo hi v = (let r = trimmed v in if lo \<le> length r \<and> length r \<le> hi then Some r else None)"

definition clean_text_in :: "nat \<Rightarrow> nat \<Rightarrow> jsval \<Rightarrow> string option" where
  "clean_text_in lo hi v =
     (let r = strip_angle (trimmed v) in if lo \<le> length r \<and> length r \<le> hi then Some r else None)"

lemma text_in_Some: "text_in lo hi v = Some r \<Longrightarrow> lo \<le> length r \<and> length r \<le> hi"
  by (auto simp: text_in_def Let_def split: if_splits)

lemma clean_text_in_Some:
  "clean_text_in lo hi v = Some r \<Longrightarrow>
     lo \<le> length r \<and> length r \<le> hi \<and> CHR ''<'' \<notin> set r \<and> CHR ''>'' \<notin> set r"
  by (auto simp: clean_text_in_def Let_def strip_angle_def split: if_splits)

text \<open>
  \<open>new Date(v).getTime()\<close>, \<open>None\<close> for an invalid date. A fractional number of milliseconds
  is truncated. JavaScript prints a number with an exponent when it is below \<open>1e-6\<close>, so that nothing is
  left of it, or from \<open>1e21\<close> on, where the exponent exceeds the digits after the point.
\<close>

definition whole_part :: "string \<Rightarrow> nat" where
  "whole_part t = (let m = takeWhile (\<lambda>c. c \<noteq> CHR ''e'') t; whole = takeWhile is_digit m; frac = drop 1 (dropWhile is_digit m) in
     case dropWhile (\<lambda>c. c \<noteq> CHR ''e'') t of
       _ # CHR ''-'' # _ \<Rightarrow> 0
     | _ # CHR ''+'' # ds \<Rightarrow> undec (whole @ frac) * 10 ^ (undec ds - length frac)
     | _ \<Rightarrow> undec whole)"

definition frac_trunc :: "string \<Rightarrow> int option" where
  "frac_trunc t = (if t \<in> {''NaN'', ''Infinity'', ''-Infinity''} then None
     else case t of (CHR ''-'') # r \<Rightarrow> Some (- int (whole_part r)) | _ \<Rightarrow> Some (int (whole_part t)))"

fun new_date :: "(string \<Rightarrow> int option) \<Rightarrow> jsval \<Rightarrow> int option" where
  "new_date dp JUndef = None"
| "new_date dp JNull = Some 0"
| "new_date dp (JBool b) = Some (if b then 1 else 0)"
| "new_date dp (JInt n) = (if \<bar>n\<bar> \<le> 8640000000000000 then Some n else None)"
| "new_date dp (JFrac t) = (case frac_trunc t of None \<Rightarrow> None | Some n \<Rightarrow> if \<bar>n\<bar> \<le> 8640000000000000 then Some n else None)"
| "new_date dp (JStr s) = dp s"
| "new_date dp (JArr vs) = dp (js_String (JArr vs))"
| "new_date dp (JObj kvs) = dp (js_String (JObj kvs))"

subsection \<open>Lists and association lists\<close>

text \<open>\<open>[...new Set(xs)]\<close>: the first occurrence of every element, in order.\<close>

fun uniq :: "'a list \<Rightarrow> 'a list" where
  "uniq [] = []"
| "uniq (x # xs) = x # filter (\<lambda>y. y \<noteq> x) (uniq xs)"

lemma set_uniq [simp]: "set (uniq xs) = set xs"
  by (induction xs) auto

lemma distinct_uniq [simp]: "distinct (uniq xs)"
  by (induction xs) auto

text \<open>\<open>xs.slice(-n)\<close> for \<open>n \<ge> 1\<close>.\<close>

definition last_n :: "nat \<Rightarrow> 'a list \<Rightarrow> 'a list" where
  "last_n n xs = drop (length xs - n) xs"

lemma length_last_n [simp]: "length (last_n n xs) = min n (length xs)"
  by (simp add: last_n_def)

lemma set_last_n: "set (last_n n xs) \<subseteq> set xs"
  by (simp add: last_n_def set_drop_subset)

text \<open>\<open>obj[k] = v\<close>: in place when the key exists, appended otherwise.\<close>

fun put_assoc :: "'k \<Rightarrow> 'v \<Rightarrow> ('k \<times> 'v) list \<Rightarrow> ('k \<times> 'v) list" where
  "put_assoc k v [] = [(k, v)]"
| "put_assoc k v ((k', v') # r) = (if k = k' then (k, v) # r else (k', v') # put_assoc k v r)"

lemma map_of_put_assoc [simp]: "map_of (put_assoc k v m) = (map_of m)(k \<mapsto> v)"
  by (induction m) (auto simp: fun_eq_iff)

lemma map_fst_put_assoc:
  "map fst (put_assoc k v m) = (if k \<in> set (map fst m) then map fst m else map fst m @ [k])"
  by (induction m) (auto simp: rev_image_eqI)

lemma keys_put_assoc: "set (map fst (put_assoc k v m)) = insert k (set (map fst m))"
  by (subst map_fst_put_assoc) auto

lemma distinct_put_assoc: "distinct (map fst m) \<Longrightarrow> distinct (map fst (put_assoc k v m))"
  by (subst map_fst_put_assoc) auto

lemma set_put_assoc:
  "distinct (map fst m) \<Longrightarrow> set (put_assoc k v m) = insert (k, v) {p \<in> set m. fst p \<noteq> k}"
  by (induction m) (force split: if_splits)+

text \<open>\<open>s.split(c)\<close> at a single character.\<close>

fun split_at :: "char \<Rightarrow> string \<Rightarrow> string list" where
  "split_at c [] = [[]]"
| "split_at c (d # ds) = (if d = c then [] # split_at c ds
     else (case split_at c ds of [] \<Rightarrow> [[d]] | w # ws \<Rightarrow> (d # w) # ws))"

text \<open>
  \<open>[...new Set((Array.isArray(v) ? v : String(v ?? '').split(',')).map(x => String(x).trim()).filter(Boolean))]\<close>.
\<close>

definition string_list :: "jsval \<Rightarrow> string list" where
  "string_list v = uniq (filter (\<lambda>s. s \<noteq> [])
     (map js_trim (if is_array v then map js_String (elements v)
        else split_at (CHR '','') (js_String (js_or_nullish v (JStr []))))))"

definition string_list_in :: "nat \<Rightarrow> nat \<Rightarrow> jsval \<Rightarrow> string list option" where
  "string_list_in lo hi v = (let r = string_list v in if lo \<le> length r \<and> length r \<le> hi then Some r else None)"

lemma string_list_in_Some: "string_list_in lo hi v = Some r \<Longrightarrow> lo \<le> length r \<and> length r \<le> hi \<and> distinct r"
  by (auto simp: string_list_in_def Let_def string_list_def split: if_splits)

lemma set_put_assoc_subset: "set (put_assoc k v m) \<subseteq> insert (k, v) (set m)"
  by (induction m) (auto split: if_splits)

lemma put_assoc_in: "p \<in> set (put_assoc k v m) \<Longrightarrow> p = (k, v) \<or> p \<in> set m"
  using set_put_assoc_subset [of k v m] by auto

text \<open>\<open>map\<close> with a function that may throw.\<close>

fun mapR :: "('a \<Rightarrow> 'e + 'b) \<Rightarrow> 'a list \<Rightarrow> 'e + 'b list" where
  "mapR f [] = Inr []"
| "mapR f (x # xs) = bindR (f x) (\<lambda>y. bindR (mapR f xs) (\<lambda>ys. Inr (y # ys)))"

lemma mapR_ok: "(\<And>x. x \<in> set xs \<Longrightarrow> ok (f x)) \<Longrightarrow> \<exists>ys. mapR f xs = Inr ys \<and> length ys = length xs"
proof (induction xs)
  case (Cons x xs)
  then obtain y ys where "f x = Inr y" "mapR f xs = Inr ys \<and> length ys = length xs"
    using Cons.prems [of x] by (cases "f x") (auto simp: ok_def)
  then show ?case by simp
qed simp

lemma mapR_mem: "mapR f xs = Inr ys \<Longrightarrow> x \<in> set xs \<Longrightarrow> \<exists>y. f x = Inr y"
  by (induction xs arbitrary: ys) auto

end
