(* ===== verification/JsonText.thy ===== *)
theory JsonText
  imports JsCore
begin

section \<open>JSON texts: JSON.stringify, the canonical form, and unique decoding\<close>

text \<open>
  \<open>JSON.stringify\<close> (\<open>json_stringify\<close>, keys in insertion order) and the code's own
  \<open>stableStringify\<close> (\<open>src/services/governanceLedger.js\<close>, keys sorted). Both texts are what
  the hash chains of the program digest. The main fact is that a JSON text determines its
  value (\<open>json_stringify_inj\<close>), hence the stable text determines the value up to the order
  of object keys (\<open>stable_stringify_canon\<close>).
\<close>

subsection \<open>Printing\<close>

definition hex_char :: "nat \<Rightarrow> char" where
  "hex_char n = char_of (if n < 10 then 48 + n else 87 + n)"

definition escape_char :: "char \<Rightarrow> string" where
  "escape_char c = (let n = (of_char c :: nat) in
     if n = 34 then [CHR 0x5C, c]
     else if n = 92 then [c, c]
     else if n = 8 then [CHR 0x5C, CHR ''b'']
     else if n = 9 then [CHR 0x5C, CHR ''t'']
     else if n = 10 then [CHR 0x5C, CHR ''n'']
     else if n = 12 then [CHR 0x5C, CHR ''f'']
     else if n = 13 then [CHR 0x5C, CHR ''r'']
     else if n < 32 then
       [CHR 0x5C, CHR ''u'', CHR ''0'', CHR ''0'', hex_char (n div 16), hex_char (n mod 16)]
     else [c])"

definition quote :: char where
  "quote = CHR 0x22"

definition json_quote :: "string \<Rightarrow> string" where
  "json_quote s = quote # concat (map escape_char s) @ [quote]"

fun json_atom :: "jsval \<Rightarrow> string" where
  "json_atom JNull = ''null''"
| "json_atom (JBool b) = (if b then ''true'' else ''false'')"
| "json_atom (JInt n) = int_text n"
| "json_atom (JFrac t) = (if t \<in> {''NaN'', ''Infinity'', ''-Infinity''} then ''null'' else t)"
| "json_atom (JStr s) = json_quote s"
| "json_atom _ = ''undefined''"

text \<open>\<open>JSON.stringify\<close> of a value without \<open>undefined\<close> members.\<close>

fun json_stringify :: "jsval \<Rightarrow> string" where
  "json_stringify (JArr vs) = CHR ''['' # join_with '','' (map json_stringify vs) @ '']''"
| "json_stringify (JObj kvs) =
     CHR ''{'' # join_with '','' (map (\<lambda>p. json_quote (fst p) @ '':'' @ json_stringify (snd p)) kvs) @ ''}''"
| "json_stringify v = json_atom v"

text \<open>\<open>stableStringify\<close>; an \<open>undefined\<close> element joins as the empty text.\<close>

fun stable_stringify :: "jsval \<Rightarrow> string" where
  "stable_stringify (JArr vs) =
     CHR ''['' # join_with '','' (map (\<lambda>v. if v = JUndef then [] else stable_stringify v) vs) @ '']''"
| "stable_stringify (JObj kvs) =
     CHR ''{'' # join_with '','' (map snd (sort_key fst
       (map (\<lambda>p. (fst p, json_quote (fst p) @ '':'' @ stable_stringify (snd p))) kvs))) @ ''}''"
| "stable_stringify v = json_atom v"

text \<open>The canonical value: object keys sorted at every level.\<close>

fun canon :: "jsval \<Rightarrow> jsval" where
  "canon (JArr vs) = JArr (map canon vs)"
| "canon (JObj kvs) = JObj (sort_key fst (map (\<lambda>p. (fst p, canon (snd p))) kvs))"
| "canon v = v"

text \<open>
  A JSON value: no \<open>undefined\<close>, and a number that is not an integer has a text with a
  fraction or an exponent (\<open>NaN\<close> and the infinities are not JSON).
\<close>

definition num_char :: "char \<Rightarrow> bool" where
  "num_char c = (is_digit c \<or> c \<in> set ''-+.eE'')"

definition frac_text :: "string \<Rightarrow> bool" where
  "frac_text t = (t \<noteq> [] \<and> (is_digit (hd t) \<or> hd t = CHR ''-'') \<and> list_all num_char t
     \<and> \<not> list_all (\<lambda>c. is_digit c \<or> c = CHR ''-'') t)"

fun json_value :: "jsval \<Rightarrow> bool" where
  "json_value JUndef = False"
| "json_value (JFrac t) = frac_text t"
| "json_value (JArr vs) = list_all json_value vs"
| "json_value (JObj kvs) = list_all (\<lambda>p. json_value (snd p)) kvs"
| "json_value _ = True"

subsection \<open>Strings decode uniquely\<close>

lemma of_char_hex: "n < 16 \<Longrightarrow> (of_char (hex_char n) :: nat) = (if n < 10 then 48 + n else 87 + n)"
  by (simp add: hex_char_def)

lemma of_char_quote [simp]: "(of_char quote :: nat) = 34"
  by (simp add: quote_def)

text \<open>Reading one escaped character back.\<close>

definition hex_value :: "char \<Rightarrow> nat" where
  "hex_value c = (let n = (of_char c :: nat) in if n < 58 then n - 48 else n - 87)"

definition unescape :: "string \<Rightarrow> char \<times> string" where
  "unescape s = (if (of_char (hd s) :: nat) \<noteq> 92 then (hd s, tl s)
     else let m = (of_char (s ! 1) :: nat) in
       if m = 98 then (char_of (8::nat), drop 2 s)
       else if m = 116 then (char_of (9::nat), drop 2 s)
       else if m = 110 then (char_of (10::nat), drop 2 s)
       else if m = 102 then (char_of (12::nat), drop 2 s)
       else if m = 114 then (char_of (13::nat), drop 2 s)
       else if m = 117 then (char_of (16 * hex_value (s ! 4) + hex_value (s ! 5)), drop 6 s)
       else (s ! 1, drop 2 s))"

lemma hex_value_char [simp]: "n < 16 \<Longrightarrow> hex_value (hex_char n) = n"
  by (simp add: hex_value_def of_char_hex)

lemma char_of_eq: "(of_char c :: nat) = n \<Longrightarrow> char_of n = c"
  by (metis char_of_char)

lemma unescape_escape [simp]: "unescape (escape_char c @ r) = (c, r)"
proof -
  have hex: "char_of (16 * hex_value (hex_char (of_char c div 16)) + hex_value (hex_char (of_char c mod 16))) = c"
    if "(of_char c :: nat) < 32" using that by simp
  show ?thesis
  proof (cases "(of_char c :: nat) < 32")
    case True
    with hex show ?thesis
      by (simp add: unescape_def escape_char_def Let_def) (auto dest: char_of_eq)
  next
    case False
    then show ?thesis by (simp add: unescape_def escape_char_def Let_def)
  qed
qed

lemma escape_hd: "escape_char c \<noteq> [] \<and> hd (escape_char c) \<noteq> quote"
proof -
  have "\<And>d. (of_char d :: nat) \<noteq> 34 \<Longrightarrow> d \<noteq> quote" by auto
  then show ?thesis by (auto simp: escape_char_def Let_def)
qed

lemma escapes_decode:
  "concat (map escape_char s) @ quote # r = concat (map escape_char t) @ quote # r' \<Longrightarrow> s = t \<and> r = r'"
proof (induction s arbitrary: t)
  case Nil
  show ?case
  proof (cases t)
    case (Cons d t')
    with Nil escape_hd [of d] show ?thesis by (cases "escape_char d") auto
  qed (use Nil in simp)
next
  case (Cons c s)
  show ?case
  proof (cases t)
    case Nil
    with Cons.prems show ?thesis
      using escape_hd [of c] by (cases "escape_char c") auto
  next
    case (Cons d t')
    have "escape_char c @ (concat (map escape_char s) @ quote # r)
        = escape_char d @ (concat (map escape_char t') @ quote # r')"
      using Cons.prems Cons by simp
    then have "(c, concat (map escape_char s) @ quote # r) = (d, concat (map escape_char t') @ quote # r')"
      by (metis unescape_escape)
    then show ?thesis using Cons.IH [of t'] Cons by simp
  qed
qed

lemma json_quote_decode: "json_quote s @ r = json_quote t @ r' \<longleftrightarrow> s = t \<and> r = r'"
  by (auto simp: json_quote_def dest: escapes_decode)

subsection \<open>Values decode uniquely\<close>

definition delimited :: "string \<Rightarrow> bool" where
  "delimited r = (r = [] \<or> hd r \<in> set '',]}'')"

lemma num_text_decode:
  assumes "list_all num_char t" "list_all num_char u" "delimited r" "delimited s" "t @ r = u @ s"
  shows "t = u \<and> r = s"
proof -
  have stop: "takeWhile num_char (x @ y) = x" if "list_all num_char x" "delimited y" for x y
    using that by (cases y) (auto simp: list_all_iff delimited_def num_char_def is_digit_def)
  have "t = u" using stop [of t r] stop [of u s] assms by simp
  with assms show ?thesis by simp
qed

lemma int_text_chars: "list_all num_char (int_text n)"
  using dec_digits by (auto simp: int_text_def list_all_iff num_char_def)

lemma int_text_not_frac: "\<not> frac_text (int_text n)"
  using dec_digits by (auto simp: int_text_def frac_text_def list_all_iff)

lemma dec_hd: "is_digit (hd (dec n))"
  using dec_digits [of "hd (dec n)" n] by simp

lemma int_text_hd: "int_text n \<noteq> [] \<and> (is_digit (hd (int_text n)) \<or> hd (int_text n) = CHR ''-'')"
  by (simp add: int_text_def dec_hd)

lemma minus_not_digit: "\<not> is_digit (CHR ''-'')"
  by (simp add: is_digit_def)

lemma int_text_inj: "int_text m = int_text n \<longleftrightarrow> m = n"
proof -
  have no: "dec i \<noteq> CHR ''-'' # s" for i s
    using dec_hd [of i] minus_not_digit by auto
  show ?thesis using no no [symmetric] by (auto simp: int_text_def)
qed

text \<open>The kind of a value shows in the first character of its text.\<close>

definition text_kind :: "string \<Rightarrow> nat" where
  "text_kind s = (case s of [] \<Rightarrow> 9 | c # _ \<Rightarrow>
     if c = CHR ''n'' then 0 else if c = CHR ''t'' then 1 else if c = CHR ''f'' then 2
     else if is_digit c \<or> c = CHR ''-'' then 3 else if c = quote then 4
     else if c = CHR ''['' then 5 else if c = CHR ''{'' then 6 else 9)"

fun value_kind :: "jsval \<Rightarrow> nat" where
  "value_kind JUndef = 8"
| "value_kind JNull = 0"
| "value_kind (JBool b) = (if b then 1 else 2)"
| "value_kind (JInt n) = 3"
| "value_kind (JFrac t) = 3"
| "value_kind (JStr s) = 4"
| "value_kind (JArr vs) = 5"
| "value_kind (JObj kvs) = 6"

lemma quote_facts:
  "\<not> is_digit quote" "quote \<noteq> CHR ''-''" "quote \<noteq> CHR ''n''" "quote \<noteq> CHR ''t''"
  "quote \<noteq> CHR ''f''" "quote \<noteq> CHR ''[''" "quote \<noteq> CHR ''{''"
  by (simp_all add: quote_def is_digit_def)

lemma digit_facts:
  "is_digit c \<Longrightarrow> c \<noteq> CHR ''n'' \<and> c \<noteq> CHR ''t'' \<and> c \<noteq> CHR ''f'' \<and> c \<noteq> CHR '']'' \<and> c \<noteq> CHR '',''"
  by (auto simp: is_digit_def)

lemma text_kind_number:
  "t \<noteq> [] \<Longrightarrow> is_digit (hd t) \<or> hd t = CHR ''-'' \<Longrightarrow> text_kind (t @ r) = 3"
  by (cases t) (auto simp: text_kind_def dest: digit_facts)

lemma frac_text_atom: "frac_text t \<Longrightarrow> json_atom (JFrac t) = t"
  by (auto simp: frac_text_def is_digit_def list_all_iff num_char_def)

lemma text_kind_value: "json_value v \<Longrightarrow> text_kind (json_stringify v @ r) = value_kind v"
proof (cases v)
  case (JInt n)
  then show ?thesis using text_kind_number [of "int_text n" r] int_text_hd [of n] by simp
next
  case (JFrac t)
  moreover assume "json_value v"
  ultimately show ?thesis
    using text_kind_number [of t r] frac_text_atom [of t] by (simp add: frac_text_def)
qed (auto simp: text_kind_def json_quote_def quote_facts quote_facts(2-) [symmetric] is_digit_def)

text \<open>
  \<open>decodes f v\<close>: a text \<open>f v\<close> followed by a delimiter or nothing determines \<open>v\<close> among the
  values of \<open>A\<close>, and the rest. Sequences of decodable texts decode.
\<close>

definition decodes :: "('a \<Rightarrow> bool) \<Rightarrow> ('a \<Rightarrow> string) \<Rightarrow> 'a \<Rightarrow> bool" where
  "decodes A f v = (\<forall>w r s. A w \<longrightarrow> delimited r \<longrightarrow> delimited s \<longrightarrow> f v @ r = f w @ s \<longrightarrow> v = w \<and> r = s)"

lemma join_Cons: "join_with sep (x # xs) = x @ (if xs = [] then [] else sep @ join_with sep xs)"
  by (cases xs) simp_all

lemma join_decode:
  assumes "\<And>v. v \<in> set vs \<Longrightarrow> decodes A f v" "list_all A ws"
    and "\<And>v. v \<in> set vs \<union> set ws \<Longrightarrow> f v \<noteq> [] \<and> hd (f v) \<noteq> c \<and> hd (f v) \<noteq> CHR '',''"
    and "c \<in> set '']}''"
    and "join_with '','' (map f vs) @ c # r = join_with '','' (map f ws) @ c # s"
  shows "vs = ws \<and> r = s"
  using assms
proof (induction vs arbitrary: ws)
  case Nil
  show ?case
  proof (cases ws)
    case (Cons w ws')
    with Nil.prems(3) [of w] Nil.prems(5) show ?thesis
      by (cases "f w") (auto simp: join_Cons)
  qed (use Nil in simp)
next
  case (Cons v vs)
  show ?case
  proof (cases ws)
    case Nil
    with Cons.prems(3) [of v] Cons.prems(5) show ?thesis
      by (cases "f v") (auto simp: join_Cons)
  next
    case (Cons w ws')
    let ?a = "(if vs = [] then [] else '','' @ join_with '','' (map f vs)) @ c # r"
    let ?b = "(if ws' = [] then [] else '','' @ join_with '','' (map f ws')) @ c # s"
    have "f v @ ?a = f w @ ?b"
      using Cons.prems(5) Cons by (simp add: join_Cons)
    moreover have "delimited ?a" "delimited ?b"
      using Cons.prems(4) by (auto simp: delimited_def)
    moreover have "decodes A f v" "A w" using Cons.prems(1,2) Cons by simp_all
    ultimately have vw: "v = w" and ab: "?a = ?b" unfolding decodes_def by blast+
    have "(vs = []) = (ws' = [])" using ab Cons.prems(4) by (auto split: if_splits)
    then have "join_with '','' (map f vs) @ c # r = join_with '','' (map f ws') @ c # s"
      using ab by (auto split: if_splits)
    then have "vs = ws' \<and> r = s"
      using Cons.IH [of ws'] Cons.prems(1-4) Cons by auto
    then show ?thesis using vw Cons by simp
  qed
qed

abbreviation member_text :: "(jsval \<Rightarrow> string) \<Rightarrow> string \<times> jsval \<Rightarrow> string" where
  "member_text f p \<equiv> json_quote (fst p) @ '':'' @ f (snd p)"

lemma member_decode:
  assumes "decodes json_value f (snd p)"
  shows "decodes (\<lambda>q. json_value (snd q)) (member_text f) p"
  unfolding decodes_def
proof (intro allI impI)
  fix w :: "string \<times> jsval" and r s :: string
  assume w: "json_value (snd w)" and ds: "delimited r" "delimited s"
    and eq: "member_text f p @ r = member_text f w @ s"
  then have "json_quote (fst p) @ ('':'' @ f (snd p) @ r) = json_quote (fst w) @ ('':'' @ f (snd w) @ s)"
    by simp
  then have "fst p = fst w" "f (snd p) @ r = f (snd w) @ s"
    by (simp_all only: json_quote_decode) simp_all
  then show "p = w \<and> r = s"
    using assms w ds unfolding decodes_def by (metis prod.collapse)
qed

lemma json_stringify_hd:
  "json_value v \<Longrightarrow> json_stringify v \<noteq> [] \<and> hd (json_stringify v) \<notin> set '',]}''"
proof -
  assume "json_value v"
  then have "text_kind (json_stringify v) = value_kind v" "value_kind v < 7"
    using text_kind_value [of v "[]"] by simp (cases v; use \<open>json_value v\<close> in simp)
  then show ?thesis
    by (cases "json_stringify v") (auto simp: text_kind_def is_digit_def quote_def split: if_splits)
qed

lemma atom_decodes:
  assumes v: "json_value v" and atom: "value_kind v < 5"
  shows "decodes json_value json_stringify v"
  unfolding decodes_def
proof (intro allI impI)
  fix w r s assume w: "json_value w" and d: "delimited r" "delimited s"
    and eq: "json_stringify v @ r = json_stringify w @ s"
  have kinds: "value_kind w = value_kind v"
    using text_kind_value [OF v, of r] text_kind_value [OF w, of s] eq by simp
  have num: "x = y \<and> r = s" if "json_stringify v = x" "json_stringify w = y"
    "list_all num_char x" "list_all num_char y" for x y
    using num_text_decode [of x y r s] that d eq by simp
  show "v = w \<and> r = s"
  proof (cases "value_kind v = 3")
    case True
    have chars: "list_all num_char (json_stringify u)"
      if "json_value u" "value_kind u = 3" for u
      using that frac_text_atom
      by (cases u) (auto simp: int_text_chars frac_text_def split: if_splits)
    show ?thesis
      using num [OF refl refl chars chars] v w True kinds
      by (cases v; cases w)
        (auto simp del: json_atom.simps(4) simp: frac_text_atom int_text_inj int_text_not_frac
          split: if_splits dest: sym)
  next
    case False
    then show ?thesis
      using eq kinds atom by (cases v; cases w) (auto simp: json_quote_decode split: if_splits)
  qed
qed

lemma json_decodes: "json_value v \<Longrightarrow> decodes json_value json_stringify v"
proof (induction v rule: json_stringify.induct)
  case (1 vs)
  show ?case unfolding decodes_def
  proof (intro allI impI)
    fix w r s assume A: "json_value w" "delimited r" "delimited s"
      "json_stringify (JArr vs) @ r = json_stringify w @ s"
    then have "value_kind w = 5"
      using text_kind_value [OF "1.prems", of r] text_kind_value [of w s] by simp
    then obtain ws where w: "w = JArr ws" by (cases w) (auto split: if_splits)
    have "vs = ws \<and> r = s"
      by (rule join_decode [where f = json_stringify and A = json_value and c = "CHR '']''"])
        (use 1 A w json_stringify_hd in \<open>auto simp: list_all_iff\<close>)
    then show "JArr vs = w \<and> r = s" using w by simp
  qed
next
  case (2 kvs)
  show ?case unfolding decodes_def
  proof (intro allI impI)
    fix w r s assume A: "json_value w" "delimited r" "delimited s"
      "json_stringify (JObj kvs) @ r = json_stringify w @ s"
    then have "value_kind w = 6"
      using text_kind_value [OF "2.prems", of r] text_kind_value [of w s] by simp
    then obtain ws where w: "w = JObj ws" by (cases w) (auto split: if_splits)
    have dec: "decodes (\<lambda>q. json_value (snd q)) (member_text json_stringify) p" if "p \<in> set kvs" for p
      using member_decode "2.IH" [OF that] "2.prems" that by (simp add: list_all_iff)
    have "kvs = ws \<and> r = s"
      by (rule join_decode [where f = "member_text json_stringify"
            and A = "\<lambda>q. json_value (snd q)" and c = "CHR ''}''"])
        (use dec A w in \<open>auto simp: json_quote_def quote_def\<close>)
    then show "JObj kvs = w \<and> r = s" using w by simp
  qed
qed (auto intro!: atom_decodes)

lemma json_stringify_inj:
  "json_value v \<Longrightarrow> json_value w \<Longrightarrow> json_stringify v = json_stringify w \<Longrightarrow> v = w"
  using json_decodes [of v] unfolding decodes_def
  by (metis append_Nil2 delimited_def)

subsection \<open>The stable text is the text of the canonical value\<close>

lemma insort_key_map:
  "(\<And>x. g (f x) = k x) \<Longrightarrow> insort_key g (f x) (map f xs) = map f (insort_key k x xs)"
  by (induction xs) simp_all

lemma sort_key_map: "(\<And>x. g (f x) = k x) \<Longrightarrow> sort_key g (map f xs) = map f (sort_key k xs)"
  by (induction xs) (simp_all add: insort_key_map)

lemma sort_members: "sort_key fst (map (\<lambda>p. (fst p, f p)) kvs) = map (\<lambda>p. (fst p, f p)) (sort_key fst kvs)"
  by (rule sort_key_map) simp

lemma json_value_canon [simp]: "json_value (canon v) = json_value v"
proof (induction v rule: canon.induct)
  case (2 kvs)
  then show ?case by (auto simp: sort_members list_all_iff)
qed (auto simp: list_all_iff)

lemma stable_stringify_json: "json_value v \<Longrightarrow> stable_stringify v = json_stringify (canon v)"
proof (induction v rule: stable_stringify.induct)
  case (1 vs)
  have nu: "u \<noteq> JUndef" if "u \<in> set vs" for u
    using 1 that by (auto simp: list_all_iff)
  have "map (\<lambda>v. if v = JUndef then [] else stable_stringify v) vs = map (\<lambda>v. json_stringify (canon v)) vs"
    using 1 nu by (auto simp: list_all_iff)
  then show ?case by (simp only: stable_stringify.simps canon.simps json_stringify.simps map_map comp_def)
next
  case (2 kvs)
  then have "\<forall>p \<in> set kvs. stable_stringify (snd p) = json_stringify (canon (snd p))"
    by (auto simp: list_all_iff)
  then have "map (member_text stable_stringify) (sort_key fst kvs)
      = map (member_text (\<lambda>v. json_stringify (canon v))) (sort_key fst kvs)"
    by auto
  then show ?case
    by (simp only: stable_stringify.simps canon.simps json_stringify.simps sort_members map_map comp_def
      fst_conv snd_conv)
qed simp_all

lemma stable_stringify_canon:
  "json_value v \<Longrightarrow> json_value w \<Longrightarrow> stable_stringify v = stable_stringify w \<longleftrightarrow> canon v = canon w"
  using json_stringify_inj [of "canon v" "canon w"] by (auto simp: stable_stringify_json)

text \<open>Reading a key commutes with sorting the keys.\<close>

lemma js_get_canon:
  assumes "distinct (map fst kvs)"
  shows "js_get (canon (JObj kvs)) k = canon (js_get (JObj kvs) k)"
proof -
  let ?m = "map (\<lambda>p. (fst p, canon (snd p))) kvs"
  have keys: "map fst ?m = map fst kvs" by simp
  have "distinct (map fst (sort_key fst ?m))"
    using assms by (simp add: sort_members comp_def distinct_map)
  then have "map_of (sort_key fst ?m) = map_of ?m"
    using assms by (intro map_of_inject_set [THEN iffD2]) (simp_all only: keys set_sort)
  moreover have "map_of ?m k = map_option canon (map_of kvs k)"
    by (induction kvs) auto
  ultimately show ?thesis by (simp split: option.split)
qed

subsection \<open>A text or \<open>null\<close>\<close>

definition opt_str :: "string option \<Rightarrow> jsval" where
  "opt_str x = (case x of None \<Rightarrow> JNull | Some s \<Rightarrow> JStr s)"

lemma json_opt_str [simp]: "json_value (opt_str x)"
  by (simp add: opt_str_def split: option.splits)

lemma opt_str_inj [simp]: "opt_str x = opt_str y \<longleftrightarrow> x = y"
  by (auto simp: opt_str_def split: option.splits)

lemma canon_opt_str [simp]: "canon (opt_str x) = opt_str x"
  by (simp add: opt_str_def split: option.splits)

end
