(* ===== verification/HashChain.thy ===== *)
theory HashChain
  imports JsonText
begin

section \<open>Hash-linked event histories\<close>

text \<open>
  The contract that the governance ledger, the evidence custody index and the
  privileged-access event log share: every event carries the hash of its predecessor and a
  hash of its own body, and a history starts at an anchor (the hash of the last pruned event,
  or nothing). \<open>body\<close> is the text the code digests and \<open>H\<close> the digest; nothing is assumed of
  \<open>H\<close>, so the tamper-evidence facts end in "or the two histories hold different texts with
  one digest", a collision found among the texts at hand. \<open>view\<close> is what the digested text
  determines of an event (for the ledger, the event up to the order of metadata keys), on
  the events that are \<open>good\<close> (have JSON data).
  \<open>sequenced_chain\<close> adds the sequence numbers of the two registries that keep them.
\<close>

subsection \<open>Linked lists of events\<close>

fun linked :: "('e \<Rightarrow> 'h option) \<Rightarrow> ('e \<Rightarrow> 'h) \<Rightarrow> ('e \<Rightarrow> 'h) \<Rightarrow> 'h option \<Rightarrow> 'e list \<Rightarrow> bool" where
  "linked prev hash dig p [] = True"
| "linked prev hash dig p (e # es) =
     (prev e = p \<and> hash e = dig e \<and> linked prev hash dig (Some (hash e)) es)"

text \<open>\<open>events.at(-1)?.hash ?? anchor\<close>.\<close>

definition head_hash :: "('e \<Rightarrow> 'h) \<Rightarrow> 'h option \<Rightarrow> 'e list \<Rightarrow> 'h option" where
  "head_hash hash p es = (if es = [] then p else Some (hash (last es)))"

text \<open>The sequence numbers \<open>n + 1, n + 2, \<dots>\<close>.\<close>

fun numbered :: "('e \<Rightarrow> nat) \<Rightarrow> nat \<Rightarrow> 'e list \<Rightarrow> bool" where
  "numbered seq n [] = True"
| "numbered seq n (e # es) = (seq e = Suc n \<and> numbered seq (Suc n) es)"

lemma head_hash_simps [simp]:
  "head_hash hash p [] = p"
  "head_hash hash p (es @ [e]) = Some (hash e)"
  by (simp_all add: head_hash_def)

lemma head_hash_append: "head_hash hash p (xs @ ys) = head_hash hash (head_hash hash p xs) ys"
  by (simp add: head_hash_def)

lemma linked_append [simp]:
  "linked prev hash dig p (xs @ ys) \<longleftrightarrow>
     linked prev hash dig p xs \<and> linked prev hash dig (head_hash hash p xs) ys"
  by (induction xs arbitrary: p) (auto simp: head_hash_def)

lemma numbered_append [simp]:
  "numbered seq n (xs @ ys) \<longleftrightarrow> numbered seq n xs \<and> numbered seq (n + length xs) ys"
  by (induction xs arbitrary: n) auto

lemma linked_drop:
  "linked prev hash dig p es \<Longrightarrow> linked prev hash dig (head_hash hash p (take k es)) (drop k es)"
  by (metis append_take_drop_id linked_append)

lemma numbered_drop:
  "numbered seq n es \<Longrightarrow> k \<le> length es \<Longrightarrow> numbered seq (n + k) (drop k es)"
  by (metis append_take_drop_id length_take min.absorb2 numbered_append)

lemma numbered_last: "numbered seq n es \<Longrightarrow> es \<noteq> [] \<Longrightarrow> seq (last es) = n + length es"
  by (induction es arbitrary: n) auto

lemma numbered_distinct: "numbered seq n es \<Longrightarrow> distinct (map seq es) \<and> (\<forall>e \<in> set es. n < seq e)"
proof (induction es arbitrary: n)
  case (Cons e es)
  then have "seq e = Suc n" "distinct (map seq es)" "\<forall>x \<in> set es. Suc n < seq x" by auto
  then show ?case by fastforce
qed simp

lemma linked_trim:
  "linked prev hash dig p es \<Longrightarrow> k \<le> length es \<Longrightarrow> 0 < k \<Longrightarrow>
     linked prev hash dig (Some (hash (es ! (k - 1)))) (drop k es)"
  using linked_drop [of prev hash dig p es k]
  by (simp add: head_hash_def last_conv_nth split: if_splits)

lemma numbered_nth: "numbered seq n es \<Longrightarrow> i < length es \<Longrightarrow> seq (es ! i) = Suc (n + i)"
  by (induction es arbitrary: n i) (auto simp: nth_Cons split: nat.splits)

lemma linked_hash: "linked prev hash dig p es \<Longrightarrow> e \<in> set es \<Longrightarrow> hash e = dig e"
  by (induction es arbitrary: p) auto

subsection \<open>The contract\<close>

definition collides :: "('b \<Rightarrow> 'h) \<Rightarrow> 'b set \<Rightarrow> 'b set \<Rightarrow> bool" where
  "collides H A B = (\<exists>x \<in> A. \<exists>y \<in> B. x \<noteq> y \<and> H x = H y)"

lemma collides_mono: "collides H A B \<Longrightarrow> A \<subseteq> A' \<Longrightarrow> B \<subseteq> B' \<Longrightarrow> collides H A' B'"
  unfolding collides_def by blast

locale hash_chain =
  fixes prev :: "'e \<Rightarrow> 'h option"
    and hash :: "'e \<Rightarrow> 'h"
    and body :: "'e \<Rightarrow> 'b"
    and good :: "'e \<Rightarrow> bool"
    and view :: "'e \<Rightarrow> 'v"
  assumes body_prev: "good x \<Longrightarrow> good y \<Longrightarrow> body x = body y \<Longrightarrow> prev x = prev y"
    and body_view: "good x \<Longrightarrow> good y \<Longrightarrow> body x = body y \<Longrightarrow> hash x = hash y \<Longrightarrow> view x = view y"
begin

lemma same_hash:
  "hash x = H (body x) \<Longrightarrow> hash y = H (body y) \<Longrightarrow> hash x = hash y \<Longrightarrow> body x \<in> A \<Longrightarrow> body y \<in> B \<Longrightarrow>
    body x = body y \<or> collides H A B"
  unfolding collides_def by metis

text \<open>Two histories with one head and one length are one history, unless texts collide.\<close>

lemma tamper_evident:
  assumes "linked prev hash (H \<circ> body) p xs" "linked prev hash (H \<circ> body) q ys"
    and "head_hash hash p xs = head_hash hash q ys" "length xs = length ys"
    and "list_all good xs" "list_all good ys"
  shows "map view xs = map view ys \<and> p = q \<or> collides H (body ` set xs) (body ` set ys)"
  using assms
proof (induction xs arbitrary: ys rule: rev_induct)
  case (snoc x xs)
  then obtain y zs where ys: "ys = zs @ [y]"
    by (cases ys rule: rev_cases) auto
  let ?C = "collides H (body ` set (xs @ [x])) (body ` set ys)"
  have "body x = body y \<or> ?C"
    using snoc.prems ys by (intro same_hash) auto
  moreover have "(map view xs = map view zs \<and> p = q \<or> ?C) \<and> view x = view y" if "body x = body y"
  proof -
    have "prev x = prev y" "view x = view y"
      using that body_prev [of x y] body_view [of x y] snoc.prems ys by auto
    moreover have "map view xs = map view zs \<and> p = q \<or> collides H (body ` set xs) (body ` set zs)"
      using snoc.prems ys \<open>prev x = prev y\<close> by (intro snoc.IH) auto
    ultimately show ?thesis using ys by (auto intro: collides_mono)
  qed
  ultimately show ?case using ys by auto
qed simp

text \<open>From the genesis (no anchor) the length need not be known.\<close>

lemma tamper_evident_genesis:
  assumes "linked prev hash (H \<circ> body) None xs" "linked prev hash (H \<circ> body) None ys"
    and "head_hash hash None xs = head_hash hash None ys"
    and "list_all good xs" "list_all good ys"
  shows "map view xs = map view ys \<or> collides H (body ` set xs) (body ` set ys)"
  using assms
proof (induction xs arbitrary: ys rule: rev_induct)
  case Nil
  then show ?case by (cases ys rule: rev_cases) auto
next
  case (snoc x xs)
  then obtain y zs where ys: "ys = zs @ [y]"
    by (cases ys rule: rev_cases) auto
  let ?C = "collides H (body ` set (xs @ [x])) (body ` set ys)"
  have "body x = body y \<or> ?C"
    using snoc.prems ys by (intro same_hash) auto
  moreover have "(map view xs = map view zs \<or> ?C) \<and> view x = view y" if "body x = body y"
  proof -
    have "prev x = prev y" "view x = view y"
      using that body_prev [of x y] body_view [of x y] snoc.prems ys by auto
    moreover have "map view xs = map view zs \<or> collides H (body ` set xs) (body ` set zs)"
      using snoc.prems ys \<open>prev x = prev y\<close> by (intro snoc.IH) auto
    ultimately show ?thesis using ys by (auto intro: collides_mono)
  qed
  ultimately show ?case using ys by auto
qed

end

locale sequenced_chain = hash_chain prev hash body good view
  for prev :: "'e \<Rightarrow> 'h option" and hash :: "'e \<Rightarrow> 'h" and body :: "'e \<Rightarrow> 'b"
    and good :: "'e \<Rightarrow> bool" and view :: "'e \<Rightarrow> 'v" +
  fixes seq :: "'e \<Rightarrow> nat"
  assumes body_seq: "good x \<Longrightarrow> good y \<Longrightarrow> body x = body y \<Longrightarrow> seq x = seq y"
begin

text \<open>With sequence numbers, one retained head pins the history down to the anchor.\<close>

lemma tamper_evident_numbered:
  assumes "linked prev hash (H \<circ> body) p xs" "numbered seq n xs"
    and "linked prev hash (H \<circ> body) q ys" "numbered seq n ys"
    and "xs \<noteq> []" "ys \<noteq> []" "hash (last xs) = hash (last ys)"
    and "list_all good xs" "list_all good ys"
  shows "map view xs = map view ys \<and> p = q \<or> collides H (body ` set xs) (body ` set ys)"
proof (cases "collides H (body ` set xs) (body ` set ys)")
  case False
  have "body (last xs) = body (last ys)"
    using same_hash [of "last xs" H "last ys" "body ` set xs" "body ` set ys"] linked_hash [OF assms(1)] linked_hash [OF assms(3)]
      assms(5-7) False by auto
  then have "seq (last xs) = seq (last ys)"
    using body_seq [of "last xs" "last ys"] assms(5-9) by (auto simp: list_all_iff)
  then have "length xs = length ys"
    using numbered_last [OF assms(2,5)] numbered_last [OF assms(4,6)] by simp
  then show ?thesis
    using tamper_evident [OF assms(1,3)] assms(5-9) False by (simp add: head_hash_def)
qed simp

end

end
