(* ===== verification/GovernanceLedger.thy ===== *)
theory GovernanceLedger
  imports HashChain
begin

section \<open>The governance ledger (src/services/governanceLedger.js)\<close>

text \<open>
  One ledger holds the events of every tenant in one array. Each tenant's events form a
  hash chain from the genesis. \<open>H\<close> stands for \<open>createHash('sha256')...digest('hex')\<close>, a
  function from texts to texts; \<open>now\<close> is the reading of the ledger's clock.
\<close>

subsection \<open>Data\<close>

record gov_event =
  gv_id :: string
  gv_sequence :: nat
  gv_tenant :: string
  gv_actor :: string
  gv_action :: string
  gv_entityType :: string
  gv_entityId :: string
  gv_occurredAt :: int
  gv_metadata :: jsval
  gv_previousHash :: "string option"
  gv_hash :: string

record gov_input =
  gi_tenant :: string
  gi_actor :: string
  gi_action :: string
  gi_entityType :: string
  gi_entityId :: string
  gi_metadata :: jsval

record ledger =
  lg_events :: "gov_event list"
  lg_imported :: "string list"

datatype ledger_error =
    UnsafeIdentifier string
  | MetadataTooDeep
  | ForeignEvent
  | InvalidChain "string option"

definition new_ledger :: ledger where
  "new_ledger = \<lparr>lg_events = [], lg_imported = []\<rparr>"

subsection \<open>Validation and metadata\<close>

definition safe_governance_identifier :: "string \<Rightarrow> bool" where
  "safe_governance_identifier s = safe_ident ''._:-'' 0 191 (js_trim s)"

definition assert_identifier :: "string \<Rightarrow> string \<Rightarrow> ledger_error + 'a \<Rightarrow> ledger_error + 'a" where
  "assert_identifier v field k = ensure (safe_governance_identifier v) (UnsafeIdentifier field) k"

definition assert_event_input :: "gov_input \<Rightarrow> ledger_error + 'a \<Rightarrow> ledger_error + 'a" where
  "assert_event_input i k =
     assert_identifier (gi_tenant i) ''tenantId''
    (assert_identifier (gi_actor i) ''actor''
    (assert_identifier (gi_action i) ''action''
    (assert_identifier (gi_entityType i) ''entityType''
    (assert_identifier (gi_entityId i) ''entityId'' k))))"

function sanitise_metadata :: "jsval \<Rightarrow> nat \<Rightarrow> jsval option" where
  "sanitise_metadata v depth = (if depth > 5 then None else case v of
       JArr vs \<Rightarrow> map_option JArr (those (map (\<lambda>u. sanitise_metadata u (Suc depth)) (take 100 vs)))
     | JObj kvs \<Rightarrow> map_option JObj (those
         (map (\<lambda>p. map_option (Pair (fst p)) (sanitise_metadata (snd p) (Suc depth)))
           (filter (\<lambda>p. snd p \<noteq> JUndef) (take 100 kvs))))
     | JUndef \<Rightarrow> Some (JStr (js_String JUndef))
     | _ \<Rightarrow> Some v)"
  by pat_completeness auto
termination
  by (relation "measure (\<lambda>(v, d). 6 - d)") auto

declare sanitise_metadata.simps [simp del]

subsection \<open>Hashing and verification\<close>

text \<open>The event without its hash, as the object that is hashed.\<close>

definition gov_unsigned :: "gov_event \<Rightarrow> jsval" where
  "gov_unsigned e = JObj
     [(''id'', JStr (gv_id e)), (''sequence'', JInt (int (gv_sequence e))),
      (''tenantId'', JStr (gv_tenant e)), (''actor'', JStr (gv_actor e)),
      (''action'', JStr (gv_action e)), (''entityType'', JStr (gv_entityType e)),
      (''entityId'', JStr (gv_entityId e)), (''occurredAt'', JInt (gv_occurredAt e)),
      (''metadata'', gv_metadata e), (''previousHash'', opt_str (gv_previousHash e))]"

definition hash_event :: "(string \<Rightarrow> string) \<Rightarrow> jsval \<Rightarrow> string" where
  "hash_event H v = H (stable_stringify v)"

record verification =
  vf_valid :: bool
  vf_checkedEvents :: nat
  vf_failedEventId :: "string option"
  vf_headHash :: "string option"

fun first_broken :: "(string \<Rightarrow> string) \<Rightarrow> string option \<Rightarrow> gov_event list \<Rightarrow> string option" where
  "first_broken H expected [] = None"
| "first_broken H expected (e # es) =
     (if gv_previousHash e \<noteq> expected \<or> hash_event H (gov_unsigned e) \<noteq> gv_hash e then Some (gv_id e)
      else first_broken H (Some (gv_hash e)) es)"

definition verify_events :: "(string \<Rightarrow> string) \<Rightarrow> gov_event list \<Rightarrow> verification" where
  "verify_events H es =
     (let head = (if es = [] then None else Some (gv_hash (last es))) in
      case first_broken H None es of
        Some i \<Rightarrow> \<lparr>vf_valid = False, vf_checkedEvents = length es, vf_failedEventId = Some i, vf_headHash = head\<rparr>
      | None \<Rightarrow> \<lparr>vf_valid = True, vf_checkedEvents = length es, vf_failedEventId = None, vf_headHash = head\<rparr>)"

subsection \<open>Operations\<close>

definition tenant_events :: "string \<Rightarrow> ledger \<Rightarrow> gov_event list" where
  "tenant_events t l = filter (\<lambda>e. gv_tenant e = t) (lg_events l)"

definition ledger_append :: "(string \<Rightarrow> string) \<Rightarrow> int \<Rightarrow> gov_input \<Rightarrow> ledger \<Rightarrow> ledger_error + (ledger \<times> gov_event)" where
  "ledger_append H now i l = assert_event_input i
     (bindR (from_option MetadataTooDeep
         (sanitise_metadata (js_or_nullish (gi_metadata i) (JObj [])) 0)) (\<lambda>metadata.
      let es = tenant_events (gi_tenant i) l;
          previous = (if es = [] then None else Some (gv_hash (last es)));
          event = \<lparr>gv_id = ''GEV-'' @ gi_tenant i @ ''-'' @ pad_start 8 (CHR ''0'') (dec (length es + 1)),
            gv_sequence = length es + 1, gv_tenant = gi_tenant i, gv_actor = gi_actor i,
            gv_action = gi_action i, gv_entityType = gi_entityType i, gv_entityId = gi_entityId i,
            gv_occurredAt = now, gv_metadata = metadata, gv_previousHash = previous, gv_hash = []\<rparr>;
          stored = event\<lparr>gv_hash := hash_event H (gov_unsigned event)\<rparr>
      in Inr (l\<lparr>lg_events := lg_events l @ [stored]\<rparr>, stored)))"

definition replace_tenant :: "(string \<Rightarrow> string) \<Rightarrow> string \<Rightarrow> gov_event list \<Rightarrow> ledger \<Rightarrow> ledger_error + (ledger \<times> nat)" where
  "replace_tenant H t es l = assert_identifier t ''tenantId''
     (ensure (list_all (\<lambda>e. gv_tenant e = t) es) ForeignEvent
     (let verification = verify_events H es in
      ensure (vf_valid verification) (InvalidChain (vf_failedEventId verification))
        (Inr (l\<lparr>lg_events := filter (\<lambda>e. gv_tenant e \<noteq> t) (lg_events l) @ es,
          lg_imported := (if t \<in> set (lg_imported l) then lg_imported l else lg_imported l @ [t])\<rparr>, length es))))"

definition import_tenant :: "(string \<Rightarrow> string) \<Rightarrow> string \<Rightarrow> gov_event list \<Rightarrow> ledger \<Rightarrow> ledger_error + ledger" where
  "import_tenant H t es l = assert_identifier t ''tenantId''
     (if t \<in> set (lg_imported l) then Inr l
      else bindR (replace_tenant H t es l) (\<lambda>r. Inr (fst r)))"

definition export_tenant :: "string \<Rightarrow> ledger \<Rightarrow> ledger_error + gov_event list" where
  "export_tenant t l = assert_identifier t ''tenantId'' (Inr (tenant_events t l))"

text \<open>\<open>Math.max(1, Math.min(500, Number(limit) || 100))\<close>, then \<open>slice(-safeLimit)\<close>, which truncates.\<close>

definition safe_limit :: "jsval \<Rightarrow> nat" where
  "safe_limit limit = (case js_Number limit of
       JInt n \<Rightarrow> nat (max 1 (min 500 (if n = 0 then 100 else n)))
     | JFrac t \<Rightarrow> (if t = ''NaN'' then 100 else if t = ''Infinity'' then 500 else if t = ''-Infinity'' then 1
         else (case frac_trunc t of None \<Rightarrow> 100 | Some n \<Rightarrow> nat (max 1 (min 500 n))))
     | _ \<Rightarrow> 100)"

definition list_events :: "string \<Rightarrow> jsval \<Rightarrow> ledger \<Rightarrow> ledger_error + gov_event list" where
  "list_events t limit l = assert_identifier t ''tenantId''
     (bindR (export_tenant t l) (\<lambda>es. Inr (last_n (safe_limit limit) es)))"

definition ledger_verify :: "(string \<Rightarrow> string) \<Rightarrow> string \<Rightarrow> ledger \<Rightarrow> verification" where
  "ledger_verify H t l = verify_events H (tenant_events t l)"

definition checkpoint :: "string \<Rightarrow> ledger \<Rightarrow> nat" where
  "checkpoint t l = length (tenant_events t l)"

fun rollback_scan :: "string \<Rightarrow> nat \<Rightarrow> nat \<Rightarrow> gov_event list \<Rightarrow> gov_event list" where
  "rollback_scan t n seen [] = []"
| "rollback_scan t n seen (e # es) =
     (if gv_tenant e \<noteq> t then e # rollback_scan t n seen es
      else if seen + 1 > n then rollback_scan t n (seen + 1) es
      else e # rollback_scan t n (seen + 1) es)"

definition rollback_to :: "string \<Rightarrow> nat \<Rightarrow> ledger \<Rightarrow> ledger" where
  "rollback_to t n l = l\<lparr>lg_events := rollback_scan t n 0 (lg_events l)\<rparr>"

subsection \<open>Verification is the chain contract\<close>

definition gov_text :: "gov_event \<Rightarrow> string" where
  "gov_text e = stable_stringify (gov_unsigned e)"

definition gov_json :: "gov_event \<Rightarrow> bool" where
  "gov_json e = json_value (gv_metadata e)"

definition gov_view :: "gov_event \<Rightarrow> gov_event" where
  "gov_view e = e\<lparr>gv_metadata := canon (gv_metadata e)\<rparr>"

abbreviation gov_linked :: "(string \<Rightarrow> string) \<Rightarrow> string option \<Rightarrow> gov_event list \<Rightarrow> bool" where
  "gov_linked H \<equiv> linked gv_previousHash gv_hash (H \<circ> gov_text)"

lemma hash_event_text: "hash_event H (gov_unsigned e) = (H \<circ> gov_text) e"
  by (simp add: hash_event_def gov_text_def)

lemma first_broken_linked: "first_broken H p es = None \<longleftrightarrow> gov_linked H p es"
  by (induction es arbitrary: p) (auto simp: hash_event_text)

lemma verify_events_valid: "vf_valid (verify_events H es) \<longleftrightarrow> gov_linked H None es"
  using first_broken_linked [of H None es] by (auto simp: verify_events_def Let_def split: option.splits)

lemma verify_events_head: "vf_headHash (verify_events H es) = head_hash gv_hash None es"
  by (auto simp: verify_events_def Let_def head_hash_def split: option.splits)

lemma verify_events_checked: "vf_checkedEvents (verify_events H es) = length es"
  by (auto simp: verify_events_def Let_def split: option.splits)

lemma gov_unsigned_json: "json_value (gov_unsigned e) = gov_json e"
  by (auto simp: gov_unsigned_def gov_json_def opt_str_def split: option.splits)

text \<open>The hashed text determines every field, the metadata up to the order of its keys.\<close>

lemma gov_text_fields:
  assumes "gov_json x" "gov_json y" "gov_text x = gov_text y"
  shows "gov_view x = gov_view y \<lparr>gv_hash := gv_hash x\<rparr>"
proof -
  have c: "canon (gov_unsigned x) = canon (gov_unsigned y)"
    using assms stable_stringify_canon by (simp add: gov_text_def gov_unsigned_json)
  have "canon (js_get (gov_unsigned x) k) = canon (js_get (gov_unsigned y) k)" for k
    using arg_cong [OF c, of "\<lambda>v. js_get v k"] unfolding gov_unsigned_def
    by (subst (asm) (1 2) js_get_canon) simp_all
  from this [of "''id''"] this [of "''sequence''"] this [of "''tenantId''"] this [of "''actor''"]
    this [of "''action''"] this [of "''entityType''"] this [of "''entityId''"]
    this [of "''occurredAt''"] this [of "''metadata''"] this [of "''previousHash''"]
  show ?thesis by (simp add: gov_unsigned_def gov_view_def)
qed

interpretation gov: hash_chain gv_previousHash gv_hash gov_text gov_json gov_view
proof unfold_locales
  fix x y assume A: "gov_json x" "gov_json y" "gov_text x = gov_text y"
  have "gv_previousHash (gov_view x) = gv_previousHash (gov_view y)"
    using gov_text_fields [OF A] by simp
  then show "gv_previousHash x = gv_previousHash y" by (simp add: gov_view_def)
  assume "gv_hash x = gv_hash y"
  then show "gov_view x = gov_view y"
    using gov_text_fields [OF A] by (simp add: gov_view_def)
qed

subsection \<open>The invariant\<close>

text \<open>Every tenant's history verifies, and holds JSON metadata.\<close>

definition ledger_inv :: "(string \<Rightarrow> string) \<Rightarrow> ledger \<Rightarrow> bool" where
  "ledger_inv H l = (\<forall>t. vf_valid (ledger_verify H t l))"

lemma ledger_inv_linked: "ledger_inv H l \<longleftrightarrow> (\<forall>t. gov_linked H None (tenant_events t l))"
  by (simp add: ledger_inv_def ledger_verify_def verify_events_valid)

lemma tenant_events_add [simp]:
  "tenant_events t (l\<lparr>lg_events := lg_events l @ es\<rparr>) = tenant_events t l @ filter (\<lambda>e. gv_tenant e = t) es"
  by (simp add: tenant_events_def)

lemma ledger_append_event:
  assumes "ledger_append H now i l = Inr (l', e)"
  shows "l' = l\<lparr>lg_events := lg_events l @ [e]\<rparr>" and "gv_tenant e = gi_tenant i"
    and "gv_previousHash e = head_hash gv_hash None (tenant_events (gi_tenant i) l)"
    and "gv_hash e = (H \<circ> gov_text) e"
    and "gv_sequence e = Suc (checkpoint (gi_tenant i) l)" and "gv_occurredAt e = now"
    and "sanitise_metadata (js_or_nullish (gi_metadata i) (JObj [])) 0 = Some (gv_metadata e)"
  using assms
  by (auto simp: ledger_append_def assert_event_input_def assert_identifier_def Let_def head_hash_def
      hash_event_def gov_text_def gov_unsigned_def checkpoint_def)

lemma ledger_append_inv:
  "ledger_append H now i l = Inr (l', e) \<Longrightarrow> ledger_inv H l \<Longrightarrow> ledger_inv H l'"
  using ledger_append_event [of H now i l l' e]
  by (auto simp: ledger_inv_linked)

lemma filter_replaced:
  "list_all (\<lambda>e. gv_tenant e = t) es \<Longrightarrow>
   filter (\<lambda>e. gv_tenant e = t') (filter (\<lambda>e. gv_tenant e \<noteq> t) xs @ es)
     = (if t' = t then es else filter (\<lambda>e. gv_tenant e = t') xs)"
  by (auto simp: list_all_iff filter_empty_conv intro: filter_cong)

lemma replace_tenant_events:
  assumes "replace_tenant H t es l = Inr (l', n)"
  shows "tenant_events t' l' = (if t' = t then es else tenant_events t' l)"
    and "gov_linked H None es" and "list_all (\<lambda>e. gv_tenant e = t) es" and "n = length es"
  using assms filter_replaced [of t es t' "lg_events l"]
  by (auto simp: replace_tenant_def assert_identifier_def Let_def tenant_events_def verify_events_valid)

lemma replace_tenant_inv:
  "replace_tenant H t es l = Inr (l', n) \<Longrightarrow> ledger_inv H l \<Longrightarrow> ledger_inv H l'"
  using replace_tenant_events [of H t es l l' n] by (simp add: ledger_inv_linked)

lemma import_tenant_inv: "import_tenant H t es l = Inr l' \<Longrightarrow> ledger_inv H l \<Longrightarrow> ledger_inv H l'"
  by (auto simp: import_tenant_def assert_identifier_def replace_tenant_inv split: if_splits)

lemma rollback_scan_tenant:
  "filter (\<lambda>e. gv_tenant e = t) (rollback_scan t n k es)
     = take (n - k) (filter (\<lambda>e. gv_tenant e = t) es)"
proof (induction t n k es rule: rollback_scan.induct)
  case (2 t n k e es)
  then show ?case by (cases "n - k") (auto simp: diff_Suc)
qed simp

lemma rollback_scan_other:
  "t' \<noteq> t \<Longrightarrow> filter (\<lambda>e. gv_tenant e = t') (rollback_scan t n k es) = filter (\<lambda>e. gv_tenant e = t') es"
  by (induction t n k es rule: rollback_scan.induct) auto

lemma rollback_events:
  "tenant_events t' (rollback_to t n l) = (if t' = t then take n (tenant_events t l) else tenant_events t' l)"
  by (simp add: rollback_to_def tenant_events_def rollback_scan_tenant rollback_scan_other)

lemma rollback_inv: "ledger_inv H l \<Longrightarrow> ledger_inv H (rollback_to t n l)"
proof -
  assume "ledger_inv H l"
  then have "gov_linked H None (take n (tenant_events t l))"
    by (metis append_take_drop_id ledger_inv_linked linked_append)
  with \<open>ledger_inv H l\<close> show ?thesis by (simp add: ledger_inv_linked rollback_events)
qed

lemma rollback_scan_keep:
  "k + length (filter (\<lambda>e. gv_tenant e = t) es) \<le> n \<Longrightarrow>
     rollback_scan t n k (es @ xs) = es @ rollback_scan t n (k + length (filter (\<lambda>e. gv_tenant e = t) es)) xs"
  by (induction es arbitrary: k) auto

lemma rollback_scan_drop: "n \<le> k \<Longrightarrow> list_all (\<lambda>e. gv_tenant e = t) xs \<Longrightarrow> rollback_scan t n k xs = []"
  by (induction xs arbitrary: k) auto

text \<open>Rolling back to a checkpoint takes back exactly what was appended after it.\<close>

lemma rollback_undoes:
  assumes "list_all (\<lambda>e. gv_tenant e = t) xs"
  shows "rollback_to t (checkpoint t l) (l\<lparr>lg_events := lg_events l @ xs\<rparr>) = l"
  using rollback_scan_keep [of 0 t "lg_events l" "checkpoint t l" xs]
    rollback_scan_drop [of "checkpoint t l" "checkpoint t l" t xs] assms
  by (simp add: rollback_to_def checkpoint_def tenant_events_def)

subsection \<open>Sanitised metadata\<close>

text \<open>Nesting at most six levels below depth \<open>d\<close>, at most 100 members each, no \<open>undefined\<close>.\<close>

function fits :: "jsval \<Rightarrow> nat \<Rightarrow> bool" where
  "fits v d = (d \<le> 5 \<and> (case v of
       JUndef \<Rightarrow> False
     | JArr vs \<Rightarrow> length vs \<le> 100 \<and> (\<forall>u \<in> set vs. d \<le> 5 \<longrightarrow> fits u (Suc d))
     | JObj kvs \<Rightarrow> length kvs \<le> 100 \<and> (\<forall>p \<in> set kvs. d \<le> 5 \<longrightarrow> fits (snd p) (Suc d))
     | _ \<Rightarrow> True))"
  by pat_completeness auto
termination
  by (relation "measure (\<lambda>(v, d). 6 - d)") auto

declare fits.simps [simp del]

lemma those_map_Some: "those (map f xs) = Some ys \<longleftrightarrow> list_all2 (\<lambda>x y. f x = Some y) xs ys"
proof (induction xs arbitrary: ys)
  case (Cons x xs)
  then show ?case by (cases ys) (auto split: option.splits)
qed auto

lemma those_map_id: "(\<And>x. x \<in> set xs \<Longrightarrow> f x = Some x) \<Longrightarrow> those (map f xs) = Some xs"
  by (induction xs) auto

lemma list_all2_set2: "list_all2 P xs ys \<Longrightarrow> y \<in> set ys \<Longrightarrow> \<exists>x \<in> set xs. P x y"
  by (metis in_set_conv_nth list_all2_conv_all_nth)

lemma sanitise_fits: "sanitise_metadata v d = Some w \<Longrightarrow> fits w d"
proof (induction v d arbitrary: w rule: sanitise_metadata.induct)
  case (1 v d)
  note eq = "1.prems" [unfolded sanitise_metadata.simps [of v d]]
  then have d: "\<not> d > 5" by (auto split: if_splits)
  show ?case
  proof (cases v)
    case (JArr vs)
    with eq d obtain ws where w: "w = JArr ws"
      and all: "list_all2 (\<lambda>x y. sanitise_metadata x (Suc d) = Some y) (take 100 vs) ws"
      by (auto simp: those_map_Some)
    have "fits u (Suc d)" if "u \<in> set ws" for u
      using list_all2_set2 [OF all that] "1.IH"(1) [OF d JArr] by blast
    moreover have "length ws \<le> 100" using list_all2_lengthD [OF all] by simp
    ultimately show ?thesis using d w by (simp add: fits.simps [of "JArr ws" d])
  next
    case (JObj kvs)
    with eq d obtain ws where w: "w = JObj ws"
      and all: "list_all2 (\<lambda>x y. map_option (Pair (fst x)) (sanitise_metadata (snd x) (Suc d)) = Some y)
        (filter (\<lambda>p. snd p \<noteq> JUndef) (take 100 kvs)) ws"
      by (auto simp: those_map_Some)
    have "fits (snd u) (Suc d)" if "u \<in> set ws" for u
      using list_all2_set2 [OF all that] "1.IH"(2) [OF d JObj] by auto
    moreover have "length ws \<le> 100"
      using list_all2_lengthD [OF all] length_filter_le [of "\<lambda>p. snd p \<noteq> JUndef" "take 100 kvs"] by simp
    ultimately show ?thesis using d w by (simp add: fits.simps [of "JObj ws" d])
  qed (use eq d in \<open>auto simp: fits.simps\<close>)
qed

lemma fits_sanitise: "fits w d \<Longrightarrow> sanitise_metadata w d = Some w"
proof (induction w d rule: fits.induct)
  case (1 w d)
  then have d: "d \<le> 5" by (simp add: fits.simps [of w d])
  show ?case
  proof (cases w)
    case (JArr ws)
    then have "those (map (\<lambda>u. sanitise_metadata u (Suc d)) ws) = Some ws"
      using 1 d by (intro those_map_id) (auto simp: fits.simps [of "JArr ws" d])
    then show ?thesis
      using 1 d JArr by (simp add: sanitise_metadata.simps [of "JArr ws" d] fits.simps [of "JArr ws" d])
  next
    case (JObj ws)
    have u: "fits (snd p) (Suc d)" if "p \<in> set ws" for p
      using "1.prems" JObj that by (simp add: fits.simps [of "JObj ws" d])
    then have "snd p \<noteq> JUndef" if "p \<in> set ws" for p
      using that by (fastforce simp: fits.simps)
    then have "filter (\<lambda>p. snd p \<noteq> JUndef) ws = ws" by (simp add: filter_id_conv)
    moreover have "those (map (\<lambda>p. map_option (Pair (fst p)) (sanitise_metadata (snd p) (Suc d))) ws) = Some ws"
      using "1.IH" u JObj d by (intro those_map_id) auto
    ultimately show ?thesis
      using "1.prems" d JObj by (simp add: sanitise_metadata.simps [of "JObj ws" d] fits.simps [of "JObj ws" d])
  qed (use 1 d in \<open>auto simp: sanitise_metadata.simps fits.simps\<close>)
qed

subsection \<open>Reachable ledgers\<close>

inductive ledger_step :: "(string \<Rightarrow> string) \<Rightarrow> ledger \<Rightarrow> ledger \<Rightarrow> bool" for H where
  st_append: "ledger_append H now i l = Inr (l', e) \<Longrightarrow> ledger_step H l l'"
| st_import: "import_tenant H t es l = Inr l' \<Longrightarrow> ledger_step H l l'"
| st_replace: "replace_tenant H t es l = Inr (l', n) \<Longrightarrow> ledger_step H l l'"
| st_rollback: "ledger_step H l (rollback_to t n l)"

inductive ledger_reachable :: "(string \<Rightarrow> string) \<Rightarrow> ledger \<Rightarrow> bool" for H where
  lr_new: "ledger_reachable H new_ledger"
| lr_step: "ledger_reachable H l \<Longrightarrow> ledger_step H l l' \<Longrightarrow> ledger_reachable H l'"

lemma ledger_step_inv: "ledger_step H l l' \<Longrightarrow> ledger_inv H l \<Longrightarrow> ledger_inv H l'"
  by (induction rule: ledger_step.induct)
    (simp_all add: ledger_append_inv import_tenant_inv replace_tenant_inv rollback_inv)

lemma ledger_reachable_inv: "ledger_reachable H l \<Longrightarrow> ledger_inv H l"
proof (induction rule: ledger_reachable.induct)
  case lr_new
  show ?case by (simp add: ledger_inv_linked new_ledger_def tenant_events_def)
qed (rule ledger_step_inv)

subsection \<open>Properties\<close>

definition sample_input :: gov_input where
  "sample_input = \<lparr>gi_tenant = ''acme'', gi_actor = ''ann'', gi_action = ''finding.created'',
     gi_entityType = ''finding'', gi_entityId = ''F-1'',
     gi_metadata = JObj [(''b'', JInt 1), (''a'', JArr [JNull, JStr ''x''])]\<rparr>"

definition sample_ledger :: ledger where
  "sample_ledger = (case ledger_append (\<lambda>s. take 3 s) 5 sample_input new_ledger of Inr (l, _) \<Rightarrow> l | Inl _ \<Rightarrow> new_ledger)"

lemma sample_append: "\<exists>e. ledger_append (\<lambda>s. take 3 s) 5 sample_input new_ledger = Inr (sample_ledger, e)"
proof -
  have "ok (ledger_append (\<lambda>s. take 3 s) 5 sample_input new_ledger)" by code_simp
  then show ?thesis by (auto simp: ok_iff sample_ledger_def)
qed

lemma sample_events: "length (lg_events sample_ledger) = 1"
  by code_simp

lemma sample_reachable: "ledger_reachable (\<lambda>s. take 3 s) sample_ledger"
  using sample_append by (blast intro: lr_step [OF lr_new] st_append)

text \<open>
  C33. Whatever sequence of appends, imports, replacements and rollbacks produced a ledger,
  the history of every tenant verifies.
\<close>
theorem reachable_ledger_verifies:
  "ledger_reachable H l \<Longrightarrow> vf_valid (ledger_verify H t l)"
  using ledger_reachable_inv by (simp add: ledger_inv_def)

theorem reachable_ledger_verifies_witness:
  "lg_events sample_ledger \<noteq> [] \<and> vf_valid (ledger_verify (\<lambda>s. take 3 s) ''acme'' sample_ledger)"
  using reachable_ledger_verifies [OF sample_reachable] sample_events by auto

text \<open>
  Two ledgers whose histories of a tenant both verify and end in the same head hash hold
  the same events (metadata up to the order of object keys), unless the histories contain two
  different hashed texts with one digest. So an exported head hash commits to the whole
  history.
\<close>
theorem ledger_tamper_evident:
  assumes "vf_valid (ledger_verify H t l1)" and "vf_valid (ledger_verify H t l2)"
    and "vf_headHash (ledger_verify H t l1) = vf_headHash (ledger_verify H t l2)"
    and "list_all gov_json (tenant_events t l1)" and "list_all gov_json (tenant_events t l2)"
  shows "map gov_view (tenant_events t l1) = map gov_view (tenant_events t l2)
    \<or> collides H (gov_text ` set (tenant_events t l1)) (gov_text ` set (tenant_events t l2))"
  using assms gov.tamper_evident_genesis [of H "tenant_events t l1" "tenant_events t l2"]
  by (simp add: ledger_verify_def verify_events_valid verify_events_head)

theorem ledger_tamper_evident_witness:
  "map gov_view (tenant_events ''acme'' sample_ledger) = map gov_view (tenant_events ''acme'' sample_ledger)
    \<or> collides (\<lambda>s. take 3 s) (gov_text ` set (tenant_events ''acme'' sample_ledger))
        (gov_text ` set (tenant_events ''acme'' sample_ledger))"
proof (rule ledger_tamper_evident)
  show "vf_valid (ledger_verify (\<lambda>s. take 3 s) ''acme'' sample_ledger)"
    using ledger_reachable_inv [OF sample_reachable] by (simp add: ledger_inv_def)
  then show "vf_valid (ledger_verify (\<lambda>s. take 3 s) ''acme'' sample_ledger)" .
  show "list_all gov_json (tenant_events ''acme'' sample_ledger)" by code_simp
  then show "list_all gov_json (tenant_events ''acme'' sample_ledger)" .
qed simp

text \<open>
  Rolling a ledger back to the checkpoint taken before an append restores it exactly,
  the events of all tenants and their order included.
\<close>
theorem ledger_rollback_restores:
  "ledger_append H now i l = Inr (l', e) \<Longrightarrow>
     rollback_to (gi_tenant i) (checkpoint (gi_tenant i) l) l' = l"
  using rollback_undoes [of "gi_tenant i" "[e]" l] ledger_append_event(1,2) [of H now i l l' e]
  by simp

theorem ledger_rollback_restores_witness:
  "rollback_to ''acme'' 0 sample_ledger = new_ledger"
proof -
  obtain e where "ledger_append (\<lambda>s. take 3 s) 5 sample_input new_ledger = Inr (sample_ledger, e)"
    using sample_append by blast
  from ledger_rollback_restores [OF this] show ?thesis
    by (simp add: sample_input_def checkpoint_def tenant_events_def new_ledger_def)
qed

text \<open>
  Metadata that passes \<open>sanitiseMetadata\<close> nests at most six levels with at most 100
  members each and holds no \<open>undefined\<close>; sanitising it again changes nothing.
\<close>
theorem sanitised_metadata_bounded:
  "sanitise_metadata v 0 = Some w \<Longrightarrow> fits w 0 \<and> sanitise_metadata w 0 = Some w"
  using sanitise_fits fits_sanitise by blast

theorem sanitised_metadata_bounded_witness:
  "fits (JObj [(''a'', JInt 1)]) 0
     \<and> sanitise_metadata (JObj [(''a'', JInt 1)]) 0 = Some (JObj [(''a'', JInt 1)])"
proof -
  have "sanitise_metadata (JObj [(''u'', JUndef), (''a'', JInt 1)]) 0 = Some (JObj [(''a'', JInt 1)])"
    by (simp add: sanitise_metadata.simps)
  then show ?thesis by (rule sanitised_metadata_bounded)
qed

end
