(* ===== verification/AuditService.thy ===== *)
theory AuditService
  imports GovernanceLedger
begin

section \<open>The workforce-audit service (src/services/workforceAuditService.js)\<close>

text \<open>
  The tenant's audit universe, engagements and findings, with the commit discipline that
  keeps state, ledger and durable snapshot together: a mutation that fails anywhere, the
  durable write included, is taken back. The seed data is
  \<open>src/data/workforceAuditFixtures.js\<close>.

  \<open>dp\<close> parses date strings, \<open>H\<close> is the ledger's hash, and \<open>persist\<close> is the store's save:
  given the exported state and the ledger it answers \<open>None\<close>, or the error it throws.
\<close>

subsection \<open>Data\<close>

record universe_item =
  ui_id :: string
  ui_lastReviewedAt :: string
  ui_evidenceCoverage :: int
  ui_controlCoverage :: int
  ui_openFindings :: int

record placeholder =
  pl_id :: string
  pl_title :: string
  pl_reason :: string
  pl_owner :: string
  pl_expiresAt :: jsval
  pl_replacementRequired :: bool
  pl_status :: string

record engagement =
  en_id :: string
  en_universeItemId :: string
  en_objective :: string
  en_scope :: "string list"
  en_exclusions :: "string list"
  en_leadAuditor :: string
  en_startDate :: jsval
  en_endDate :: jsval
  en_managementApproved :: bool
  en_status :: string
  en_placeholders :: "placeholder list"

record finding =
  fd_id :: string
  fd_engagementId :: string
  fd_title :: string
  fd_severity :: string
  fd_owner :: string
  fd_dueDate :: jsval
  fd_evidenceRefs :: "string list"
  fd_responseRequired :: bool
  fd_status :: jsval

record provider =
  pv_id :: string
  pv_independenceConfirmed :: bool
  pv_securityReviewStatus :: string
  pv_dataProcessingAgreement :: bool
  pv_capacityStatus :: string
  pv_lastDueDiligenceAt :: string

record audit_state =
  au_engagements :: "engagement list"
  au_findings :: "finding list"
  au_ledger :: "ledger option"

datatype audit_error =
    Validation string
  | NotFound
  | LedgerFailure ledger_error
  | PersistFailure string

record audit_env =
  ae_H :: "string \<Rightarrow> string"
  ae_dp :: "string \<Rightarrow> int option"
  ae_now :: int
  ae_tenant :: string
  ae_persist :: "audit_state \<Rightarrow> string option"

subsection \<open>Seed data\<close>

definition audit_universe :: "universe_item list" where
  "audit_universe =
    [\<lparr>ui_id = ''PAYROLL-01'', ui_lastReviewedAt = ''2026-02-10'', ui_evidenceCoverage = 92,
       ui_controlCoverage = 88, ui_openFindings = 1\<rparr>,
     \<lparr>ui_id = ''HIRING-02'', ui_lastReviewedAt = ''2025-07-18'', ui_evidenceCoverage = 61,
       ui_controlCoverage = 70, ui_openFindings = 3\<rparr>,
     \<lparr>ui_id = ''ACCESS-03'', ui_lastReviewedAt = ''2026-04-05'', ui_evidenceCoverage = 77,
       ui_controlCoverage = 81, ui_openFindings = 2\<rparr>]"

definition seeded_engagements :: "engagement list" where
  "seeded_engagements =
    [\<lparr>en_id = ''ENG-2026-004'', en_universeItemId = ''PAYROLL-01'',
       en_objective = ''Validate payroll change controls and statutory deduction accuracy.'',
       en_scope = [''employee-master changes'', ''pay-run approvals'', ''statutory remittances''],
       en_exclusions = [], en_leadAuditor = ''Internal Audit'', en_startDate = JStr ''2026-08-03'',
       en_endDate = JStr ''2026-08-28'', en_managementApproved = True, en_status = ''planned'',
       en_placeholders = []\<rparr>]"

definition seeded_findings :: "finding list" where
  "seeded_findings =
    [\<lparr>fd_id = ''FND-2026-011'', fd_engagementId = ''ENG-2026-004'',
       fd_title = ''Late independent review of payroll master changes'', fd_severity = ''high'',
       fd_owner = ''Payroll Controls Manager'', fd_dueDate = JStr ''2026-09-15'',
       fd_evidenceRefs = [''EV-PR-104'', ''EV-PR-107''], fd_responseRequired = True,
       fd_status = JStr ''draft''\<rparr>]"

definition audit_providers :: "provider list" where
  "audit_providers =
    [\<lparr>pv_id = ''PROV-001'', pv_independenceConfirmed = True, pv_securityReviewStatus = ''approved'',
       pv_dataProcessingAgreement = True, pv_capacityStatus = ''available'',
       pv_lastDueDiligenceAt = ''2026-01-15''\<rparr>,
     \<lparr>pv_id = ''PROV-002'', pv_independenceConfirmed = False, pv_securityReviewStatus = ''pending'',
       pv_dataProcessingAgreement = False, pv_capacityStatus = ''limited'',
       pv_lastDueDiligenceAt = ''2024-11-20''\<rparr>]"

subsection \<open>Helpers\<close>

definition day_ms :: int where
  "day_ms = 86400000"

text \<open>\<open>Math.floor((now - t) / day)\<close> and \<open>Math.ceil((t - now) / day)\<close>; \<open>None\<close> is \<open>NaN\<close>.\<close>

definition days_since :: "int option \<Rightarrow> int \<Rightarrow> int option" where
  "days_since t now = map_option (\<lambda>t. (now - t) div day_ms) t"

definition days_until :: "int option \<Rightarrow> int \<Rightarrow> int option" where
  "days_until t now = map_option (\<lambda>t. - ((now - t) div day_ms)) t"

definition exceeds :: "int option \<Rightarrow> int \<Rightarrow> bool" where
  "exceeds x n = (case x of None \<Rightarrow> False | Some d \<Rightarrow> d > n)"

definition at_most :: "int option \<Rightarrow> int \<Rightarrow> bool" where
  "at_most x n = (case x of None \<Rightarrow> False | Some d \<Rightarrow> d \<le> n)"

definition clamp :: "int \<Rightarrow> int" where
  "clamp v = max 0 (min 100 v)"

text \<open>\<open>date.getUTCFullYear()\<close>: the civil year of an instant (proleptic Gregorian calendar).\<close>

definition utc_year :: "int \<Rightarrow> int" where
  "utc_year t = (let z = t div day_ms + 719468; era = z div 146097; doe = z - era * 146097;
       yoe = (doe - doe div 1460 + doe div 36524 - doe div 146096) div 365;
       doy = doe - (365 * yoe + yoe div 4 - yoe div 100);
       mp = (5 * doy + 2) div 153
     in yoe + era * 400 + (if mp < 10 then 0 else 1))"

definition clean_text :: "jsval \<Rightarrow> string" where
  "clean_text v = strip_angle (js_trim (js_String v))"

definition safe_actor :: "jsval \<Rightarrow> string" where
  "safe_actor v = (let actor = js_trim (js_String (js_or_nullish v (JStr ''system'')))
     in if safe_ident ''._:-'' 0 191 actor then actor else ''system'')"

definition valid_tenant_id :: "string \<Rightarrow> bool" where
  "valid_tenant_id t = safe_ident ''._-'' 1 127 t"

definition missing_fields :: "jsval \<Rightarrow> string list \<Rightarrow> string list" where
  "missing_fields input fs = filter (\<lambda>f. js_get input f \<in> {JUndef, JNull, JStr []}) fs"

definition assert_object :: "jsval \<Rightarrow> string \<Rightarrow> audit_error + 'a \<Rightarrow> audit_error + 'a" where
  "assert_object v label k = ensure (is_plain_object v) (Validation label) k"

definition assert_required :: "jsval \<Rightarrow> string list \<Rightarrow> audit_error + 'a \<Rightarrow> audit_error + 'a" where
  "assert_required input fs k = ensure (missing_fields input fs = []) (Validation ''missing'') k"

definition parse_date :: "(string \<Rightarrow> int option) \<Rightarrow> jsval \<Rightarrow> string \<Rightarrow> audit_error + int" where
  "parse_date dp v field = from_option (Validation field) (new_date dp v)"

subsection \<open>Readiness\<close>

text \<open>
  \<open>Math.round(evidence * 0.45 + controls * 0.55 - penalty)\<close>, computed in hundredths and
  rounded half up.
\<close>

definition calculate_universe_readiness :: "universe_item \<Rightarrow> int" where
  "calculate_universe_readiness item =
     (let evidence = clamp (ui_evidenceCoverage item); controls = clamp (ui_controlCoverage item);
          penalty = min (ui_openFindings item * 4) 20
      in max 0 ((45 * evidence + 55 * controls - 100 * penalty + 50) div 100))"

definition provider_blockers :: "(string \<Rightarrow> int option) \<Rightarrow> int \<Rightarrow> provider \<Rightarrow> string list" where
  "provider_blockers dp now p =
     (if pv_independenceConfirmed p then [] else [''independence_not_confirmed'']) @
     (if pv_securityReviewStatus p = ''approved'' then [] else [''security_review_not_approved'']) @
     (if pv_dataProcessingAgreement p then [] else [''data_processing_agreement_missing'']) @
     (if pv_capacityStatus p = ''available'' then [] else [''delivery_capacity_not_available'']) @
     (if exceeds (days_since (dp (pv_lastDueDiligenceAt p)) now) 365 then [''due_diligence_expired''] else [])"

definition provider_ready :: "(string \<Rightarrow> int option) \<Rightarrow> int \<Rightarrow> provider \<Rightarrow> bool" where
  "provider_ready dp now p = (provider_blockers dp now p = [])"

definition get_universe :: "audit_env \<Rightarrow> (universe_item \<times> int \<times> bool) list" where
  "get_universe env = map (\<lambda>i. (i, calculate_universe_readiness i,
     exceeds (days_since (ae_dp env (ui_lastReviewedAt i)) (ae_now env)) 365)) audit_universe"

definition get_providers :: "audit_env \<Rightarrow> (provider \<times> bool \<times> string list) list" where
  "get_providers env = map (\<lambda>p. (p, provider_ready (ae_dp env) (ae_now env) p,
     provider_blockers (ae_dp env) (ae_now env) p)) audit_providers"

record overview =
  ov_universeTotal :: nat
  ov_universeReady :: nat
  ov_universeAttention :: nat
  ov_engagements :: nat
  ov_activeEngagements :: nat
  ov_findings :: nat
  ov_criticalOrHigh :: nat
  ov_awaitingResponse :: nat
  ov_providers :: nat
  ov_readyProviders :: nat
  ov_blockedProviders :: nat
  ov_expiringPlaceholders :: nat

definition closed_statuses :: "jsval list" where
  "closed_statuses = [JStr ''closed'', JStr ''verified'']"

definition get_overview :: "audit_env \<Rightarrow> audit_state \<Rightarrow> overview" where
  "get_overview env s =
     (let universe = get_universe env; providers = get_providers env;
          ready = length (filter (\<lambda>(_, score, _). score \<ge> 80) universe);
          ready_providers = length (filter (\<lambda>(_, r, _). r) providers);
          placeholders = concat (map en_placeholders (au_engagements s))
      in \<lparr>ov_universeTotal = length universe, ov_universeReady = ready,
          ov_universeAttention = length universe - ready,
          ov_engagements = length (au_engagements s),
          ov_activeEngagements = length (filter
            (\<lambda>e. en_status e \<in> {''planned'', ''fieldwork'', ''reporting''}) (au_engagements s)),
          ov_findings = length (au_findings s),
          ov_criticalOrHigh = length (filter (\<lambda>f. fd_severity f \<in> {''critical'', ''high''}
            \<and> fd_status f \<notin> set closed_statuses) (au_findings s)),
          ov_awaitingResponse = length (filter (\<lambda>f. fd_responseRequired f
            \<and> fd_status f \<noteq> JStr ''closed'') (au_findings s)),
          ov_providers = length providers, ov_readyProviders = ready_providers,
          ov_blockedProviders = length providers - ready_providers,
          ov_expiringPlaceholders = length (filter (\<lambda>p.
            at_most (days_until (new_date (ae_dp env) (pl_expiresAt p)) (ae_now env)) 14) placeholders)\<rparr>)"

subsection \<open>Commit\<close>

text \<open>
  \<open>commitMutation\<close>: the mutator works on the state and the ledger and may throw half way;
  then the durable write may throw. Either way the engagements and findings exported before
  are put back and the ledger is rolled back to its checkpoint.
\<close>

definition commit_mutation ::
  "audit_env \<Rightarrow> (audit_state \<Rightarrow> audit_state \<times> (audit_error + 'a)) \<Rightarrow> audit_state \<Rightarrow> audit_state \<times> (audit_error + 'a)" where
  "commit_mutation env mutator s =
     (let cp = (case au_ledger s of None \<Rightarrow> 0 | Some l \<Rightarrow> checkpoint (ae_tenant env) l);
          (s1, r) = mutator s;
          r1 = bindR r (\<lambda>a. case ae_persist env s1 of None \<Rightarrow> Inr a | Some e \<Rightarrow> Inl (PersistFailure e))
      in case r1 of
           Inr a \<Rightarrow> (s1, Inr a)
         | Inl e \<Rightarrow> (\<lparr>au_engagements = au_engagements s, au_findings = au_findings s,
             au_ledger = map_option (rollback_to (ae_tenant env) cp) (au_ledger s1)\<rparr>, Inl e))"

definition record_governance ::
  "audit_env \<Rightarrow> string \<Rightarrow> string \<Rightarrow> string \<Rightarrow> jsval \<Rightarrow> jsval \<Rightarrow> audit_state \<Rightarrow> audit_state \<times> (audit_error + unit)" where
  "record_governance env action entityType entityId actor metadata s =
     (case au_ledger s of
        None \<Rightarrow> (s, Inr ())
      | Some l \<Rightarrow> (case ledger_append (ae_H env) (ae_now env)
            \<lparr>gi_tenant = ae_tenant env, gi_actor = safe_actor actor, gi_action = action,
             gi_entityType = entityType, gi_entityId = entityId, gi_metadata = metadata\<rparr> l of
          Inl e \<Rightarrow> (s, Inl (LedgerFailure e))
        | Inr (l', _) \<Rightarrow> (s\<lparr>au_ledger := Some l'\<rparr>, Inr ())))"

text \<open>A validated request either throws before the commit or commits its mutator.\<close>

definition run_validated ::
  "audit_env \<Rightarrow> audit_error + 'a \<Rightarrow> ('a \<Rightarrow> audit_state \<Rightarrow> audit_state \<times> (audit_error + 'b)) \<Rightarrow> audit_state
    \<Rightarrow> audit_state \<times> (audit_error + 'b)" where
  "run_validated env v mutator s =
     (case v of Inl e \<Rightarrow> (s, Inl e) | Inr x \<Rightarrow> commit_mutation env (mutator x) s)"

definition then_return :: "audit_state \<times> (audit_error + unit) \<Rightarrow> 'a \<Rightarrow> audit_state \<times> (audit_error + 'a)" where
  "then_return r x = (fst r, bindR (snd r) (\<lambda>_. Inr x))"

subsection \<open>createEngagement\<close>

definition overlaps :: "(string \<Rightarrow> int option) \<Rightarrow> string \<Rightarrow> int \<Rightarrow> int \<Rightarrow> engagement \<Rightarrow> bool" where
  "overlaps dp universeItemId startDate endDate item =
     (en_universeItemId item = universeItemId
      \<and> (case new_date dp (en_startDate item) of None \<Rightarrow> False | Some d \<Rightarrow> d \<le> endDate)
      \<and> (case new_date dp (en_endDate item) of None \<Rightarrow> False | Some d \<Rightarrow> d \<ge> startDate)
      \<and> en_status item \<noteq> ''cancelled'')"

fun nonblank_string :: "jsval \<Rightarrow> bool" where
  "nonblank_string (JStr s) = (js_trim s \<noteq> [])"
| "nonblank_string _ = False"

definition validate_engagement :: "audit_env \<Rightarrow> audit_state \<Rightarrow> jsval \<Rightarrow> audit_error + engagement" where
  "validate_engagement env s input =
     assert_object input ''engagement''
    (assert_required input [''universeItemId'', ''objective'', ''scope'', ''leadAuditor'', ''startDate'', ''endDate'']
    (ensure (list_ex (\<lambda>item. JStr (ui_id item) = js_get input ''universeItemId'') audit_universe)
        (Validation ''universeItemId'')
    (let scope = js_get input ''scope'' in
     ensure (is_array scope \<and> elements scope \<noteq> [] \<and> list_all nonblank_string (elements scope)) (Validation ''scope'')
    (bindR (parse_date (ae_dp env) (js_get input ''startDate'') ''startDate'') (\<lambda>startDate.
     bindR (parse_date (ae_dp env) (js_get input ''endDate'') ''endDate'') (\<lambda>endDate.
     ensure (\<not> endDate \<le> startDate) (Validation ''endDate'')
    (ensure (js_get input ''managementApproved'' = JBool True) (Validation ''managementApproved'')
    (let universeItemId = js_String (js_get input ''universeItemId'') in
     ensure (\<not> list_ex (overlaps (ae_dp env) universeItemId startDate endDate) (au_engagements s))
        (Validation ''conflictingEngagementId'')
    (Inr \<lparr>en_id = ''ENG-'' @ int_text (utc_year (ae_now env)) @ ''-''
            @ pad_start 3 (CHR ''0'') (dec (length (au_engagements s) + 5)),
          en_universeItemId = universeItemId,
          en_objective = clean_text (js_get input ''objective''),
          en_scope = map clean_text (elements scope),
          en_exclusions = filter (\<lambda>x. x \<noteq> []) (map clean_text (elements (js_get input ''exclusions''))),
          en_leadAuditor = clean_text (js_get input ''leadAuditor''),
          en_startDate = js_get input ''startDate'', en_endDate = js_get input ''endDate'',
          en_managementApproved = True, en_status = ''planned'', en_placeholders = []\<rparr>)))))))))"

definition push_engagement :: "audit_env \<Rightarrow> jsval \<Rightarrow> engagement \<Rightarrow> audit_state \<Rightarrow> audit_state \<times> (audit_error + engagement)" where
  "push_engagement env context e s =
     then_return (record_governance env ''engagement.created'' ''engagement'' (en_id e) (js_get context ''actor'')
       (JObj [(''universeItemId'', JStr (en_universeItemId e)), (''startDate'', en_startDate e),
              (''endDate'', en_endDate e)])
       (s\<lparr>au_engagements := au_engagements s @ [e]\<rparr>)) e"

definition create_engagement ::
  "audit_env \<Rightarrow> jsval \<Rightarrow> jsval \<Rightarrow> audit_state \<Rightarrow> audit_state \<times> (audit_error + engagement)" where
  "create_engagement env input context s =
     run_validated env (validate_engagement env s input) (push_engagement env context) s"

subsection \<open>addFieldworkPlaceholder\<close>

definition validate_placeholder ::
  "audit_env \<Rightarrow> audit_state \<Rightarrow> string \<Rightarrow> jsval \<Rightarrow> audit_error + placeholder" where
  "validate_placeholder env s engagementId input =
     (case find (\<lambda>e. en_id e = engagementId) (au_engagements s) of
        None \<Rightarrow> Inl NotFound
      | Some e \<Rightarrow>
     assert_object input ''fieldwork placeholder''
    (assert_required input [''title'', ''reason'', ''owner'', ''expiresAt'']
    (bindR (parse_date (ae_dp env) (js_get input ''expiresAt'') ''expiresAt'') (\<lambda>expiresAt.
     ensure (\<not> expiresAt \<le> ae_now env) (Validation ''expiresAt'')
    (ensure (\<not> exceeds (days_until (new_date (ae_dp env) (js_get input ''expiresAt'')) (ae_now env)) 60)
        (Validation ''expiresAt'')
    (Inr \<lparr>pl_id = ''PLH-'' @ engagementId @ ''-'' @ pad_start 2 (CHR ''0'') (dec (length (en_placeholders e) + 1)),
          pl_title = clean_text (js_get input ''title''), pl_reason = clean_text (js_get input ''reason''),
          pl_owner = clean_text (js_get input ''owner''), pl_expiresAt = js_get input ''expiresAt'',
          pl_replacementRequired = True, pl_status = ''open''\<rparr>))))))"

fun update_first :: "('a \<Rightarrow> bool) \<Rightarrow> ('a \<Rightarrow> 'a) \<Rightarrow> 'a list \<Rightarrow> 'a list" where
  "update_first P f [] = []"
| "update_first P f (x # xs) = (if P x then f x # xs else x # update_first P f xs)"

definition push_placeholder ::
  "audit_env \<Rightarrow> string \<Rightarrow> jsval \<Rightarrow> placeholder \<Rightarrow> audit_state \<Rightarrow> audit_state \<times> (audit_error + placeholder)" where
  "push_placeholder env engagementId context p s =
     then_return (record_governance env ''fieldwork.placeholder.created'' ''fieldwork_placeholder'' (pl_id p)
       (js_get context ''actor'')
       (JObj [(''engagementId'', JStr engagementId), (''expiresAt'', pl_expiresAt p),
              (''replacementEvidenceRequired'', JBool True)])
       (s\<lparr>au_engagements := update_first (\<lambda>e. en_id e = engagementId)
            (\<lambda>e. e\<lparr>en_placeholders := en_placeholders e @ [p]\<rparr>) (au_engagements s)\<rparr>)) p"

definition add_fieldwork_placeholder ::
  "audit_env \<Rightarrow> string \<Rightarrow> jsval \<Rightarrow> jsval \<Rightarrow> audit_state \<Rightarrow> audit_state \<times> (audit_error + placeholder)" where
  "add_fieldwork_placeholder env engagementId input context s =
     run_validated env (validate_placeholder env s engagementId input) (push_placeholder env engagementId context) s"

subsection \<open>createFinding\<close>

definition allowed_severities :: "jsval list" where
  "allowed_severities = [JStr ''low'', JStr ''medium'', JStr ''high'', JStr ''critical'']"

definition validate_finding :: "audit_env \<Rightarrow> audit_state \<Rightarrow> jsval \<Rightarrow> audit_error + finding" where
  "validate_finding env s input =
     assert_object input ''finding''
    (assert_required input [''engagementId'', ''title'', ''severity'', ''owner'', ''dueDate'', ''evidenceRefs'']
    (ensure (list_ex (\<lambda>e. JStr (en_id e) = js_get input ''engagementId'') (au_engagements s))
        (Validation ''engagementId'')
    (ensure (js_get input ''severity'' \<in> set allowed_severities) (Validation ''severity'')
    (let refs = js_get input ''evidenceRefs'' in
     ensure (is_array refs \<and> elements refs \<noteq> []) (Validation ''evidenceRefs'')
    (ensure (\<not> (js_get input ''status'' \<in> set closed_statuses
               \<and> list_ex (\<lambda>ref. starts_with ''PLH-'' (js_String ref)) (elements refs)))
        (Validation ''evidenceRefs'')
    (bindR (parse_date (ae_dp env) (js_get input ''dueDate'') ''dueDate'') (\<lambda>_.
     Inr \<lparr>fd_id = ''FND-'' @ int_text (utc_year (ae_now env)) @ ''-''
            @ pad_start 3 (CHR ''0'') (dec (length (au_findings s) + 12)),
          fd_engagementId = js_String (js_get input ''engagementId''),
          fd_title = clean_text (js_get input ''title''),
          fd_severity = js_String (js_get input ''severity''),
          fd_owner = clean_text (js_get input ''owner''), fd_dueDate = js_get input ''dueDate'',
          fd_evidenceRefs = map clean_text (elements refs),
          fd_responseRequired = (js_get input ''managementResponseRequired'' \<noteq> JBool False),
          fd_status = js_or_nullish (js_get input ''status'') (JStr ''draft'')\<rparr>)))))))"

definition push_finding :: "audit_env \<Rightarrow> jsval \<Rightarrow> finding \<Rightarrow> audit_state \<Rightarrow> audit_state \<times> (audit_error + finding)" where
  "push_finding env context f s =
     then_return (record_governance env ''finding.created'' ''finding'' (fd_id f) (js_get context ''actor'')
       (JObj [(''engagementId'', JStr (fd_engagementId f)), (''severity'', JStr (fd_severity f)),
              (''dueDate'', fd_dueDate f), (''evidenceCount'', JInt (int (length (fd_evidenceRefs f))))])
       (s\<lparr>au_findings := au_findings s @ [f]\<rparr>)) f"

definition create_finding ::
  "audit_env \<Rightarrow> jsval \<Rightarrow> jsval \<Rightarrow> audit_state \<Rightarrow> audit_state \<times> (audit_error + finding)" where
  "create_finding env input context s =
     run_validated env (validate_finding env s input) (push_finding env context) s"

text \<open>\<open>createWorkforceAuditService\<close>: the seed state, or the state of a snapshot.\<close>

definition initial_state :: "(engagement list \<times> finding list) option \<Rightarrow> ledger option \<Rightarrow> audit_state" where
  "initial_state init l = (case init of
     None \<Rightarrow> \<lparr>au_engagements = seeded_engagements, au_findings = seeded_findings, au_ledger = l\<rparr>
   | Some (es, fs) \<Rightarrow> \<lparr>au_engagements = es, au_findings = fs, au_ledger = l\<rparr>)"

subsection \<open>Commit and rollback\<close>

text \<open>\<open>s1\<close> has the ledger of \<open>s\<close> with events of tenant \<open>t\<close> appended, if there is a ledger.\<close>

definition extends_ledger :: "string \<Rightarrow> audit_state \<Rightarrow> audit_state \<Rightarrow> bool" where
  "extends_ledger t s s1 = (case au_ledger s of
       None \<Rightarrow> au_ledger s1 = None
     | Some l \<Rightarrow> \<exists>xs. list_all (\<lambda>e. gv_tenant e = t) xs \<and> au_ledger s1 = Some (l\<lparr>lg_events := lg_events l @ xs\<rparr>))"

lemma extends_refl [simp]: "au_ledger s1 = au_ledger s \<Longrightarrow> extends_ledger t s s1"
proof (cases "au_ledger s")
  case (Some l)
  moreover assume "au_ledger s1 = au_ledger s"
  ultimately show ?thesis by (auto simp: extends_ledger_def intro!: exI [of _ "[]"])
qed (simp add: extends_ledger_def)

lemma record_governance_extends:
  "extends_ledger (ae_tenant env) s (fst (record_governance env a ty i ac m s))"
proof (cases "au_ledger s")
  case (Some l)
  let ?i = "\<lparr>gi_tenant = ae_tenant env, gi_actor = safe_actor ac, gi_action = a,
             gi_entityType = ty, gi_entityId = i, gi_metadata = m\<rparr>"
  show ?thesis
  proof (cases "ledger_append (ae_H env) (ae_now env) ?i l")
    case (Inr r)
    then show ?thesis
      using Some ledger_append_event [of "ae_H env" "ae_now env" ?i l "fst r" "snd r"]
      by (cases r) (auto simp: record_governance_def extends_ledger_def intro!: exI [of _ "[snd r]"])
  qed (simp add: record_governance_def Some)
qed (simp add: record_governance_def)

lemma record_governance_state:
  "record_governance env a ty i ac m s = (s', r) \<Longrightarrow>
     au_engagements s' = au_engagements s \<and> au_findings s' = au_findings s"
  by (auto simp: record_governance_def split: option.splits sum.splits prod.splits)

lemma commit_rolls_back:
  assumes "extends_ledger (ae_tenant env) s (fst (mutator s))"
    and "commit_mutation env mutator s = (s', Inl e)"
  shows "s' = s"
proof -
  have "map_option (rollback_to (ae_tenant env)
      (case au_ledger s of None \<Rightarrow> 0 | Some l \<Rightarrow> checkpoint (ae_tenant env) l)) (au_ledger (fst (mutator s)))
    = au_ledger s"
    using assms(1) by (auto simp: extends_ledger_def rollback_undoes split: option.splits)
  then show ?thesis
    using assms(2) by (auto simp: commit_mutation_def Let_def split: prod.splits sum.splits)
qed

lemma commit_success:
  "commit_mutation env mutator s = (s', Inr x) \<Longrightarrow> mutator s = (s', Inr x) \<and> ae_persist env s' = None"
  by (auto simp: commit_mutation_def Let_def split: prod.splits sum.splits option.splits)

lemma run_validated_atomic:
  assumes "\<And>x. extends_ledger (ae_tenant env) s (fst (mutator x s))"
    and "run_validated env v mutator s = (s', Inl e)"
  shows "s' = s"
proof (cases v)
  case (Inr x)
  then show ?thesis
    using commit_rolls_back [of env s "mutator x" s' e] assms by (simp add: run_validated_def)
qed (use assms in \<open>simp add: run_validated_def\<close>)

lemma run_validated_success:
  "run_validated env v mutator s = (s', Inr y) \<Longrightarrow>
     \<exists>x. v = Inr x \<and> mutator x s = (s', Inr y) \<and> ae_persist env s' = None"
  by (auto simp: run_validated_def split: sum.splits dest: commit_success)

lemma then_return_fst [simp]: "fst (then_return r x) = fst r"
  by (simp add: then_return_def)

lemma then_return_success: "then_return r x = (s', Inr y) \<longleftrightarrow> y = x \<and> r = (s', Inr ())"
  by (cases r) (auto simp: then_return_def)

lemma push_extends:
  "extends_ledger (ae_tenant env) s (fst (push_engagement env c e s))"
  "extends_ledger (ae_tenant env) s (fst (push_placeholder env i c p s))"
  "extends_ledger (ae_tenant env) s (fst (push_finding env c f s))"
  using record_governance_extends [of env "s\<lparr>au_engagements := _\<rparr>"]
    record_governance_extends [of env "s\<lparr>au_findings := _\<rparr>"]
  by (simp_all add: push_engagement_def push_placeholder_def push_finding_def extends_ledger_def)

lemma create_engagement_success:
  assumes "create_engagement env input ctx s = (s', Inr e)"
  shows "validate_engagement env s input = Inr e"
    and "au_engagements s' = au_engagements s @ [e]" and "au_findings s' = au_findings s"
    and "ae_persist env s' = None"
  using run_validated_success [OF assms [unfolded create_engagement_def]]
  by (auto simp: push_engagement_def then_return_success dest!: record_governance_state)

lemma create_finding_success:
  assumes "create_finding env input ctx s = (s', Inr f)"
  shows "validate_finding env s input = Inr f"
    and "au_findings s' = au_findings s @ [f]" and "au_engagements s' = au_engagements s"
    and "ae_persist env s' = None"
  using run_validated_success [OF assms [unfolded create_finding_def]]
  by (auto simp: push_finding_def then_return_success dest!: record_governance_state)

lemma add_placeholder_success:
  assumes "add_fieldwork_placeholder env i input ctx s = (s', Inr p)"
  shows "validate_placeholder env s i input = Inr p"
    and "au_engagements s' = update_first (\<lambda>e. en_id e = i)
            (\<lambda>e. e\<lparr>en_placeholders := en_placeholders e @ [p]\<rparr>) (au_engagements s)"
    and "au_findings s' = au_findings s" and "ae_persist env s' = None"
  using run_validated_success [OF assms [unfolded add_fieldwork_placeholder_def]]
  by (auto simp: push_placeholder_def then_return_success dest!: record_governance_state)

lemma operations_atomic:
  "create_engagement env input ctx s = (s', Inl e) \<Longrightarrow> s' = s"
  "add_fieldwork_placeholder env i input ctx s = (s', Inl e) \<Longrightarrow> s' = s"
  "create_finding env input ctx s = (s', Inl e) \<Longrightarrow> s' = s"
  unfolding create_engagement_def add_fieldwork_placeholder_def create_finding_def
  by (rule run_validated_atomic, rule push_extends, assumption)+

subsection \<open>The plan: no double booking, unique identifiers\<close>

text \<open>Two engagements clash when both stand, audit one item, and their closed intervals meet.\<close>

definition clash :: "(string \<Rightarrow> int option) \<Rightarrow> engagement \<Rightarrow> engagement \<Rightarrow> bool" where
  "clash dp a b = (en_universeItemId a = en_universeItemId b
     \<and> en_status a \<noteq> ''cancelled'' \<and> en_status b \<noteq> ''cancelled''
     \<and> (case (new_date dp (en_startDate a), new_date dp (en_endDate a),
              new_date dp (en_startDate b), new_date dp (en_endDate b)) of
          (Some sa, Some ea, Some sb, Some eb) \<Rightarrow> sa \<le> eb \<and> sb \<le> ea
        | _ \<Rightarrow> False))"

definition plan_inv :: "(string \<Rightarrow> int option) \<Rightarrow> engagement list \<Rightarrow> bool" where
  "plan_inv dp es = sorted_wrt (\<lambda>a b. \<not> clash dp a b) es"

lemma clash_sym: "clash dp a b = clash dp b a"
  by (auto simp: clash_def split: option.splits)

lemma plan_inv_nth:
  assumes "plan_inv dp es" "i < length es" "j < length es" "i \<noteq> j"
  shows "\<not> clash dp (es ! i) (es ! j)"
proof (cases "i < j")
  case True
  then show ?thesis using sorted_wrt_nth_less [OF assms(1) [unfolded plan_inv_def]] assms by blast
next
  case False
  then have "j < i" using assms by simp
  then show ?thesis
    using sorted_wrt_nth_less [OF assms(1) [unfolded plan_inv_def]] assms clash_sym by blast
qed

lemma validate_engagement_no_clash:
  assumes "validate_engagement env s input = Inr e" and "x \<in> set (au_engagements s)"
  shows "\<not> clash (ae_dp env) x e"
  using assms
  by (auto simp: validate_engagement_def assert_object_def assert_required_def parse_date_def Let_def
      list_ex_iff overlaps_def clash_def split: option.splits)

lemma validate_engagement_dates:
  assumes "validate_engagement env s input = Inr e"
  shows "\<exists>a b. new_date (ae_dp env) (en_startDate e) = Some a
    \<and> new_date (ae_dp env) (en_endDate e) = Some b \<and> a < b"
  using assms
  by (auto simp: validate_engagement_def assert_object_def assert_required_def parse_date_def Let_def)

lemma plan_inv_snoc: "plan_inv dp (es @ [e]) \<longleftrightarrow> plan_inv dp es \<and> (\<forall>x \<in> set es. \<not> clash dp x e)"
  by (auto simp: plan_inv_def sorted_wrt_append)

lemma update_first_map:
  "(\<And>x. g (f x) = g x) \<Longrightarrow> map g (update_first P f xs) = map g xs"
  by (induction xs) auto

lemma plan_inv_placeholders:
  "plan_inv dp (update_first P (\<lambda>e. e\<lparr>en_placeholders := h e\<rparr>) es) = plan_inv dp es"
proof -
  let ?key = "\<lambda>e. e\<lparr>en_placeholders := []\<rparr>"
  have c: "clash dp a b = clash dp (?key a) (?key b)" for a b by (simp add: clash_def)
  have k: "plan_inv dp xs = plan_inv dp (map ?key xs)" for xs
    unfolding plan_inv_def sorted_wrt_map by (simp add: c [symmetric])
  show ?thesis by (subst (1 2) k) (simp add: update_first_map)
qed

text \<open>Identifiers carry a number that grows with the position in the list.\<close>

definition tagged_id :: "string \<Rightarrow> nat \<Rightarrow> string \<Rightarrow> bool" where
  "tagged_id prefix n s = (\<exists>y. s = prefix @ int_text y @ ''-'' @ pad_start 3 (CHR ''0'') (dec n))"

definition id_number :: "string \<Rightarrow> nat" where
  "id_number s = undec (rev (takeWhile is_digit (rev s)))"

lemma pad_digits: "list_all is_digit (pad_start k (CHR ''0'') (dec n))"
  using dec_digits by (auto simp: pad_start_def list_all_iff is_digit_def)

lemma id_number_tagged: "tagged_id prefix n s \<Longrightarrow> id_number s = n"
proof -
  assume "tagged_id prefix n s"
  then obtain y where s: "s = (prefix @ int_text y) @ CHR ''-'' # pad_start 3 (CHR ''0'') (dec n)"
    by (auto simp: tagged_id_def)
  have "takeWhile is_digit (rev s) = rev (pad_start 3 (CHR ''0'') (dec n))"
    using pad_digits [of 3 n] by (simp add: s list_all_iff takeWhile_append minus_not_digit)
  then show ?thesis by (simp add: id_number_def)
qed

definition ids_inv :: "string \<Rightarrow> nat \<Rightarrow> nat \<Rightarrow> string list \<Rightarrow> bool" where
  "ids_inv prefix first base ids = (ids \<noteq> [] \<and>
     (\<forall>i < length ids. tagged_id prefix (if i = 0 then first else i + base) (ids ! i)))"

lemma ids_inv_distinct: "ids_inv prefix first base ids \<Longrightarrow> first \<le> base \<Longrightarrow> distinct ids"
proof -
  assume A: "ids_inv prefix first base ids" "first \<le> base"
  have num: "id_number (ids ! i) = (if i = 0 then first else i + base)" if "i < length ids" for i
    using A that by (intro id_number_tagged) (auto simp: ids_inv_def)
  show ?thesis
  proof (intro distinct_conv_nth [THEN iffD2] allI impI)
    fix i j assume ij: "i < length ids" "j < length ids" "i \<noteq> j"
    then have "id_number (ids ! i) \<noteq> id_number (ids ! j)"
      using num [of i] num [of j] A(2) by (auto split: if_splits)
    then show "ids ! i \<noteq> ids ! j" by auto
  qed
qed

lemma ids_inv_snoc:
  "ids_inv prefix first base ids \<Longrightarrow> tagged_id prefix (length ids + base) x \<Longrightarrow> ids_inv prefix first base (ids @ [x])"
  by (auto simp: ids_inv_def nth_append less_Suc_eq)

subsection \<open>The ledger follows the state\<close>

definition ledger_ok :: "(string \<Rightarrow> string) \<Rightarrow> audit_state \<Rightarrow> bool" where
  "ledger_ok H s = (case au_ledger s of None \<Rightarrow> True | Some l \<Rightarrow> ledger_inv H l)"

lemma record_governance_ledger_ok:
  "ledger_ok (ae_H env) s \<Longrightarrow> ledger_ok (ae_H env) (fst (record_governance env a ty i ac m s))"
  by (auto simp: record_governance_def ledger_ok_def split: option.splits sum.splits dest: ledger_append_inv)

lemma record_governance_event:
  assumes "record_governance env a ty i ac m s = (s', Inr ())" and "au_ledger s = Some l"
  shows "\<exists>e. au_ledger s' = Some (l\<lparr>lg_events := lg_events l @ [e]\<rparr>) \<and> gv_action e = a
    \<and> gv_entityId e = i \<and> gv_tenant e = ae_tenant env \<and> gv_actor e = safe_actor ac"
proof -
  from assms obtain l' e where A: "ledger_append (ae_H env) (ae_now env)
      \<lparr>gi_tenant = ae_tenant env, gi_actor = safe_actor ac, gi_action = a,
       gi_entityType = ty, gi_entityId = i, gi_metadata = m\<rparr> l = Inr (l', e)" and "au_ledger s' = Some l'"
    by (auto simp: record_governance_def split: sum.splits prod.splits)
  moreover have "gv_action e = a \<and> gv_entityId e = i \<and> gv_actor e = safe_actor ac"
    using A by (auto simp: ledger_append_def assert_event_input_def assert_identifier_def Let_def)
  ultimately show ?thesis using ledger_append_event(1,2) [OF A] by auto
qed

lemma push_ledger_ok:
  "ledger_ok (ae_H env) s \<Longrightarrow> ledger_ok (ae_H env) (fst (push_engagement env c e s))"
  "ledger_ok (ae_H env) s \<Longrightarrow> ledger_ok (ae_H env) (fst (push_placeholder env i c p s))"
  "ledger_ok (ae_H env) s \<Longrightarrow> ledger_ok (ae_H env) (fst (push_finding env c f s))"
  unfolding push_engagement_def push_placeholder_def push_finding_def then_return_fst
  by (rule record_governance_ledger_ok, simp add: ledger_ok_def)+

lemma run_validated_ledger_ok:
  assumes "\<And>x. extends_ledger (ae_tenant env) s (fst (mutator x s))"
    and "\<And>x. ledger_ok (ae_H env) (fst (mutator x s))" and "ledger_ok (ae_H env) s"
    and "run_validated env v mutator s = (s', r)"
  shows "ledger_ok (ae_H env) s'"
proof (cases r)
  case (Inl e)
  then show ?thesis using run_validated_atomic [of env s mutator v s' e] assms by auto
next
  case (Inr y)
  then obtain x where "mutator x s = (s', Inr y)"
    using run_validated_success [of env v mutator s s' y] assms(4) by blast
  then show ?thesis using assms(2) [of x] by simp
qed

lemma operations_ledger_ok:
  "create_engagement env input ctx s = (s', r1) \<Longrightarrow> ledger_ok (ae_H env) s \<Longrightarrow> ledger_ok (ae_H env) s'"
  "add_fieldwork_placeholder env i input ctx s = (s', r2) \<Longrightarrow> ledger_ok (ae_H env) s \<Longrightarrow> ledger_ok (ae_H env) s'"
  "create_finding env input ctx s = (s', r3) \<Longrightarrow> ledger_ok (ae_H env) s \<Longrightarrow> ledger_ok (ae_H env) s'"
  unfolding create_engagement_def add_fieldwork_placeholder_def create_finding_def
  by (erule run_validated_ledger_ok [rotated 3]; simp add: push_extends push_ledger_ok)+

subsection \<open>Reachable service states\<close>

inductive audit_step :: "(string \<Rightarrow> string) \<Rightarrow> (string \<Rightarrow> int option) \<Rightarrow> audit_state \<Rightarrow> audit_state \<Rightarrow> bool"
  for H dp where
  as_engagement: "ae_H env = H \<Longrightarrow> ae_dp env = dp \<Longrightarrow>
    create_engagement env input ctx s = (s', r) \<Longrightarrow> audit_step H dp s s'"
| as_placeholder: "ae_H env = H \<Longrightarrow> ae_dp env = dp \<Longrightarrow>
    add_fieldwork_placeholder env i input ctx s = (s', r2) \<Longrightarrow> audit_step H dp s s'"
| as_finding: "ae_H env = H \<Longrightarrow> ae_dp env = dp \<Longrightarrow>
    create_finding env input ctx s = (s', r3) \<Longrightarrow> audit_step H dp s s'"

inductive audit_reachable :: "(string \<Rightarrow> string) \<Rightarrow> (string \<Rightarrow> int option) \<Rightarrow> audit_state \<Rightarrow> bool"
  for H dp where
  ar_seed: "audit_reachable H dp (initial_state None (Some new_ledger))"
| ar_step: "audit_reachable H dp s \<Longrightarrow> audit_step H dp s s' \<Longrightarrow> audit_reachable H dp s'"

definition audit_inv :: "(string \<Rightarrow> string) \<Rightarrow> (string \<Rightarrow> int option) \<Rightarrow> audit_state \<Rightarrow> bool" where
  "audit_inv H dp s = (plan_inv dp (au_engagements s)
     \<and> ids_inv ''ENG-'' 4 5 (map en_id (au_engagements s))
     \<and> ids_inv ''FND-'' 11 12 (map fd_id (au_findings s)) \<and> ledger_ok H s)"

lemma validate_engagement_id:
  "validate_engagement env s input = Inr e \<Longrightarrow> tagged_id ''ENG-'' (length (au_engagements s) + 5) (en_id e)"
  by (auto simp: validate_engagement_def assert_object_def assert_required_def parse_date_def Let_def
      tagged_id_def)

lemma validate_finding_id:
  "validate_finding env s input = Inr f \<Longrightarrow> tagged_id ''FND-'' (length (au_findings s) + 12) (fd_id f)"
  by (auto simp: validate_finding_def assert_object_def assert_required_def parse_date_def Let_def
      tagged_id_def)

lemma audit_step_inv: "audit_step H dp s s' \<Longrightarrow> audit_inv H dp s \<Longrightarrow> audit_inv H dp s'"
proof (induction rule: audit_step.induct)
  case (as_engagement env input ctx s s' r)
  show ?case
  proof (cases r)
    case (Inl e)
    then show ?thesis using as_engagement operations_atomic(1) by fastforce
  next
    case (Inr e)
    note ok = create_engagement_success [OF as_engagement(3) [unfolded Inr]]
    show ?thesis
      using as_engagement(4) ok validate_engagement_no_clash [OF ok(1)] validate_engagement_id [OF ok(1)]
        operations_ledger_ok(1) [OF as_engagement(3)] as_engagement(1,2)
      by (auto simp: audit_inv_def plan_inv_snoc intro!: ids_inv_snoc)
  qed
next
  case (as_placeholder env i input ctx s s' r2)
  show ?case
  proof (cases r2)
    case (Inl e)
    then show ?thesis using as_placeholder operations_atomic(2) by fastforce
  next
    case (Inr p)
    note ok = add_placeholder_success [OF as_placeholder(3) [unfolded Inr]]
    show ?thesis
      using as_placeholder(4) ok operations_ledger_ok(2) [OF as_placeholder(3)] as_placeholder(1,2)
      by (simp add: audit_inv_def plan_inv_placeholders update_first_map)
  qed
next
  case (as_finding env input ctx s s' r3)
  show ?case
  proof (cases r3)
    case (Inl e)
    then show ?thesis using as_finding operations_atomic(3) by fastforce
  next
    case (Inr f)
    note ok = create_finding_success [OF as_finding(3) [unfolded Inr]]
    show ?thesis
      using as_finding(4) ok validate_finding_id [OF ok(1)]
        operations_ledger_ok(3) [OF as_finding(3)] as_finding(1,2)
      by (auto simp: audit_inv_def intro!: ids_inv_snoc)
  qed
qed

lemma seed_ids:
  "tagged_id ''ENG-'' 4 ''ENG-2026-004''" "tagged_id ''FND-'' 11 ''FND-2026-011''"
  unfolding tagged_id_def
  by (rule exI [of _ 2026], code_simp)+

lemma audit_reachable_inv: "audit_reachable H dp s \<Longrightarrow> audit_inv H dp s"
proof (induction rule: audit_reachable.induct)
  case ar_seed
  show ?case
    using seed_ids ledger_reachable_inv [OF lr_new]
    by (simp add: audit_inv_def initial_state_def seeded_engagements_def seeded_findings_def
        plan_inv_def ids_inv_def ledger_ok_def)
qed (rule audit_step_inv)

subsection \<open>Properties\<close>

text \<open>Sample inputs: a date parser that reads the digits of a date as a number of days.\<close>

definition sample_dates :: "string \<Rightarrow> int option" where
  "sample_dates s = (if list_ex is_digit s
     then Some (foldl (\<lambda>a c. 10 * a + (of_char c - 48)) 0 (filter is_digit s) * day_ms) else None)"

definition sample_env :: "(audit_state \<Rightarrow> string option) \<Rightarrow> audit_env" where
  "sample_env persist = \<lparr>ae_H = (\<lambda>s. take 3 s), ae_dp = sample_dates, ae_now = 1000,
     ae_tenant = ''acme'', ae_persist = persist\<rparr>"

definition sample_engagement_input :: jsval where
  "sample_engagement_input = JObj [(''universeItemId'', JStr ''HIRING-02''), (''objective'', JStr ''Review <b>''),
     (''scope'', JArr [JStr ''offers'']), (''leadAuditor'', JStr ''Ann''), (''startDate'', JStr ''2026-09-01''),
     (''endDate'', JStr ''2026-09-20''), (''managementApproved'', JBool True)]"

definition seed_state :: audit_state where
  "seed_state = initial_state None (Some new_ledger)"

definition sample_state :: audit_state where
  "sample_state = fst (create_engagement (sample_env (\<lambda>_. None)) sample_engagement_input (JObj []) seed_state)"

lemma sample_created:
  "\<exists>e. create_engagement (sample_env (\<lambda>_. None)) sample_engagement_input (JObj []) seed_state
     = (sample_state, Inr e)"
proof -
  have "ok (snd (create_engagement (sample_env (\<lambda>_. None)) sample_engagement_input (JObj []) seed_state))"
    by code_simp
  then show ?thesis by (metis ok_iff prod.collapse sample_state_def)
qed

lemma sample_state_reachable: "audit_reachable (\<lambda>s. take 3 s) sample_dates sample_state"
proof -
  obtain e where "create_engagement (sample_env (\<lambda>_. None)) sample_engagement_input (JObj []) seed_state
     = (sample_state, Inr e)" using sample_created by blast
  then have "audit_step (\<lambda>s. take 3 s) sample_dates seed_state sample_state"
    by (rule as_engagement [rotated 2]) (simp_all add: sample_env_def)
  then show ?thesis using ar_step [OF ar_seed] by (simp add: seed_state_def)
qed

lemma sample_state_size: "length (au_engagements sample_state) = 2"
  by code_simp

text \<open>
  C25. In every state the service reaches from its seed, no two engagements that stand audit
  the same universe item over intervals that meet.
\<close>
theorem plan_never_double_books:
  assumes "audit_reachable H dp s"
    and "i < length (au_engagements s)" and "j < length (au_engagements s)" and "i \<noteq> j"
  shows "\<not> clash dp (au_engagements s ! i) (au_engagements s ! j)"
  using plan_inv_nth audit_reachable_inv [OF assms(1)] assms by (simp add: audit_inv_def)

theorem plan_never_double_books_witness:
  "\<not> clash sample_dates (au_engagements sample_state ! 0) (au_engagements sample_state ! 1)"
  by (rule plan_never_double_books [OF sample_state_reachable]) (simp_all add: sample_state_size)

text \<open>
  Identifiers of engagements, and of findings, are pairwise distinct in every reachable
  state, also across a change of year.
\<close>
theorem audit_identifiers_distinct:
  "audit_reachable H dp s \<Longrightarrow>
     distinct (map en_id (au_engagements s)) \<and> distinct (map fd_id (au_findings s))"
proof -
  assume "audit_reachable H dp s"
  then have "ids_inv ''ENG-'' 4 5 (map en_id (au_engagements s))"
    "ids_inv ''FND-'' 11 12 (map fd_id (au_findings s))"
    using audit_reachable_inv by (simp_all add: audit_inv_def)
  then show ?thesis by (auto dest: ids_inv_distinct)
qed

theorem audit_identifiers_distinct_witness:
  "distinct (map en_id (au_engagements sample_state)) \<and> distinct (map fd_id (au_findings sample_state))"
  using audit_identifiers_distinct [OF sample_state_reachable] .

text \<open>
  C34. A mutation that fails, in validation, in the ledger or in the durable write, leaves
  engagements, findings and ledger exactly as they were.
\<close>
theorem failed_mutation_changes_nothing:
  "(create_engagement env input ctx s = (s1, Inl e1) \<longrightarrow> s1 = s)
   \<and> (add_fieldwork_placeholder env i input ctx s = (s2, Inl e2) \<longrightarrow> s2 = s)
   \<and> (create_finding env input ctx s = (s3, Inl e3) \<longrightarrow> s3 = s)"
  using operations_atomic by blast

theorem failed_mutation_changes_nothing_witness:
  "fst (create_engagement (sample_env (\<lambda>_. Some ''disk full'')) sample_engagement_input (JObj []) seed_state)
     = seed_state"
proof -
  let ?r = "create_engagement (sample_env (\<lambda>_. Some ''disk full'')) sample_engagement_input (JObj []) seed_state"
  have "\<not> ok (snd ?r)" by code_simp
  then obtain e where "?r = (fst ?r, Inl e)" by (metis ok_simps(2) prod.collapse sum.exhaust)
  then show ?thesis using failed_mutation_changes_nothing by blast
qed

text \<open>
  A created engagement is the last of the plan, starts before it ends, has been accepted
  by the durable store in that state, and is the subject of exactly one new ledger event.
\<close>
theorem created_engagement_committed:
  assumes "create_engagement env input ctx s = (s', Inr e)" and "au_ledger s = Some l"
  shows "au_engagements s' = au_engagements s @ [e] \<and> au_findings s' = au_findings s
    \<and> ae_persist env s' = None
    \<and> (\<exists>a b. new_date (ae_dp env) (en_startDate e) = Some a
          \<and> new_date (ae_dp env) (en_endDate e) = Some b \<and> a < b)
    \<and> (\<exists>g. au_ledger s' = Some (l\<lparr>lg_events := lg_events l @ [g]\<rparr>)
          \<and> gv_action g = ''engagement.created'' \<and> gv_entityId g = en_id e \<and> gv_tenant g = ae_tenant env)"
proof -
  note ok = create_engagement_success [OF assms(1)]
  from run_validated_success [OF assms(1) [unfolded create_engagement_def]] ok(1)
  have "record_governance env ''engagement.created'' ''engagement'' (en_id e) (js_get ctx ''actor'')
       (JObj [(''universeItemId'', JStr (en_universeItemId e)), (''startDate'', en_startDate e),
              (''endDate'', en_endDate e)]) (s\<lparr>au_engagements := au_engagements s @ [e]\<rparr>) = (s', Inr ())"
    by (auto simp: push_engagement_def then_return_success)
  from record_governance_event [OF this, of l] assms(2) ok validate_engagement_dates [OF ok(1)]
  show ?thesis by auto
qed

theorem created_engagement_committed_witness:
  "\<exists>g. au_ledger sample_state = Some (new_ledger\<lparr>lg_events := [g]\<rparr>) \<and> gv_action g = ''engagement.created''"
proof -
  obtain e where c: "create_engagement (sample_env (\<lambda>_. None)) sample_engagement_input (JObj []) seed_state
     = (sample_state, Inr e)" using sample_created by blast
  have "au_ledger seed_state = Some new_ledger" by (simp add: seed_state_def initial_state_def)
  from created_engagement_committed [OF c this] show ?thesis by (auto simp: new_ledger_def)
qed

text \<open>
  A fieldwork placeholder is open for a time that starts after now and ends at most 60
  days later.
\<close>
theorem placeholder_window:
  assumes "add_fieldwork_placeholder env i input ctx s = (s', Inr p)"
  shows "\<exists>t. new_date (ae_dp env) (pl_expiresAt p) = Some t
    \<and> ae_now env < t \<and> t \<le> ae_now env + 60 * day_ms \<and> pl_status p = ''open''"
proof -
  have "validate_placeholder env s i input = Inr p" by (rule add_placeholder_success(1) [OF assms])
  then obtain t where t: "new_date (ae_dp env) (pl_expiresAt p) = Some t" "ae_now env < t"
      "- ((ae_now env - t) div day_ms) \<le> 60" "pl_status p = ''open''"
    by (auto simp: validate_placeholder_def assert_object_def assert_required_def parse_date_def
        exceeds_def days_until_def split: option.splits)
  have "t - ae_now env \<le> 60 * day_ms" using t(3) by (simp add: day_ms_def)
  with t show ?thesis by auto
qed

theorem placeholder_window_witness:
  "\<exists>t. sample_dates ''45'' = Some t \<and> 1000 < t \<and> t \<le> 1000 + 60 * day_ms"
proof -
  let ?in = "JObj [(''title'', JStr ''t''), (''reason'', JStr ''r''), (''owner'', JStr ''o''),
    (''expiresAt'', JStr ''45'')]"
  let ?r = "add_fieldwork_placeholder (sample_env (\<lambda>_. None)) ''ENG-2026-004'' ?in (JObj []) seed_state"
  have "ok (snd ?r)" by code_simp
  moreover have "(case snd ?r of Inr p \<Rightarrow> pl_expiresAt p = JStr ''45'' | Inl _ \<Rightarrow> False)" by code_simp
  ultimately obtain p where r: "?r = (fst ?r, Inr p)" and p: "pl_expiresAt p = JStr ''45''"
    by (cases "snd ?r") (auto simp: ok_iff, metis prod.collapse)
  show ?thesis using placeholder_window [OF r] by (auto simp: p sample_env_def)
qed

text \<open>
  The closure guard and its limit. A finding stored as closed or verified never had an
  evidence reference that, as sent, starts with \<open>PLH-\<close>; but the guard looks at the text before
  it is trimmed and stripped, so a reference sent with a leading blank is stored as a
  placeholder reference of a closed finding.
\<close>
theorem closure_guard_checks_raw_references:
  "(create_finding env input ctx s = (s', Inr f) \<and> fd_status f \<in> set closed_statuses \<longrightarrow>
      \<not> list_ex (\<lambda>ref. starts_with ''PLH-'' (js_String ref)) (elements (js_get input ''evidenceRefs'')))
   \<and> (\<exists>env0 input0 s0 s1 f1. create_finding env0 input0 (JObj []) s0 = (s1, Inr f1)
        \<and> fd_status f1 = JStr ''closed'' \<and> list_ex (starts_with ''PLH-'') (fd_evidenceRefs f1))"
proof (intro conjI impI)
  assume A: "create_finding env input ctx s = (s', Inr f) \<and> fd_status f \<in> set closed_statuses"
  then have "validate_finding env s input = Inr f" using create_finding_success(1) by blast
  with A show "\<not> list_ex (\<lambda>ref. starts_with ''PLH-'' (js_String ref)) (elements (js_get input ''evidenceRefs''))"
    by (auto simp: validate_finding_def assert_object_def assert_required_def Let_def
        js_or_nullish_def closed_statuses_def split: if_splits)
next
  let ?in = "JObj [(''engagementId'', JStr ''ENG-2026-004''), (''title'', JStr ''t''),
    (''severity'', JStr ''high''), (''owner'', JStr ''o''), (''dueDate'', JStr ''2026-09-15''),
    (''evidenceRefs'', JArr [JStr '' PLH-ENG-2026-004-01'']), (''status'', JStr ''closed'')]"
  let ?r = "create_finding (sample_env (\<lambda>_. None)) ?in (JObj []) seed_state"
  have "(case snd ?r of Inr f \<Rightarrow> fd_status f = JStr ''closed'' \<and> list_ex (starts_with ''PLH-'') (fd_evidenceRefs f)
      | Inl _ \<Rightarrow> False)"
    by code_simp
  then obtain f1 where f1: "snd ?r = Inr f1" "fd_status f1 = JStr ''closed''"
      "list_ex (starts_with ''PLH-'') (fd_evidenceRefs f1)"
    by (cases "snd ?r") auto
  then have "?r = (fst ?r, Inr f1)" by (metis prod.collapse)
  with f1(2,3) show "\<exists>env0 input0 s0 s1 f1. create_finding env0 input0 (JObj []) s0 = (s1, Inr f1)
      \<and> fd_status f1 = JStr ''closed'' \<and> list_ex (starts_with ''PLH-'') (fd_evidenceRefs f1)"
    by blast
qed

theorem closure_guard_checks_raw_references_witness:
  "\<not> list_ex (\<lambda>ref. starts_with ''PLH-'' (js_String ref)) [JStr ''EVD-1'']"
proof -
  let ?in = "JObj [(''engagementId'', JStr ''ENG-2026-004''), (''title'', JStr ''t''),
    (''severity'', JStr ''high''), (''owner'', JStr ''o''), (''dueDate'', JStr ''2026-09-15''),
    (''evidenceRefs'', JArr [JStr ''EVD-1'']), (''status'', JStr ''verified'')]"
  let ?r = "create_finding (sample_env (\<lambda>_. None)) ?in (JObj []) seed_state"
  have "(case snd ?r of Inr f \<Rightarrow> fd_status f \<in> set closed_statuses | Inl _ \<Rightarrow> False)" by code_simp
  then obtain f where "?r = (fst ?r, Inr f) \<and> fd_status f \<in> set closed_statuses"
    by (cases "snd ?r") (auto, metis prod.collapse)
  then show ?thesis using closure_guard_checks_raw_references by fastforce
qed

end
