(* ===== verification/Base64.thy ===== *)
theory Base64
  imports JsCore
begin

section \<open>Canonical base64\<close>

text \<open>
  \<open>Buffer.from(s, 'base64')\<close>, \<open>buffer.toString('base64')\<close> and the check every component
  makes on configured secrets and keys: a text is accepted when encoding its decoding gives
  the text back. A buffer is a list of characters, one per byte. \<open>b64_decode_iff\<close> says the
  accepted texts are exactly the encodings, so the check loses nothing and admits one text
  per buffer.
\<close>

definition sextet_char :: "nat \<Rightarrow> char" where
  "sextet_char n = char_of (if n < 26 then 65 + n else if n < 52 then 71 + n
     else if n < 62 then n - 4 else if n = 62 then 43 else 47)"

definition sextet_value :: "char \<Rightarrow> nat option" where
  "sextet_value c = (let n = (of_char c :: nat) in
     if 65 \<le> n \<and> n \<le> 90 then Some (n - 65)
     else if 97 \<le> n \<and> n \<le> 122 then Some (n - 71)
     else if 48 \<le> n \<and> n \<le> 57 then Some (n + 4)
     else if n = 43 \<or> n = 45 then Some 62
     else if n = 47 \<or> n = 95 then Some 63 else None)"

definition pad :: char where
  "pad = CHR ''=''"

fun b64_encode :: "string \<Rightarrow> string" where
  "b64_encode [] = []"
| "b64_encode [a] = (let x = (of_char a :: nat) in
     [sextet_char (x div 4), sextet_char (x mod 4 * 16), pad, pad])"
| "b64_encode [a, b] = (let x = (of_char a :: nat); y = (of_char b :: nat) in
     [sextet_char (x div 4), sextet_char (x mod 4 * 16 + y div 16), sextet_char (y mod 16 * 4), pad])"
| "b64_encode (a # b # c # r) =
     (let x = (of_char a :: nat); y = (of_char b :: nat); z = (of_char c :: nat) in
     [sextet_char (x div 4), sextet_char (x mod 4 * 16 + y div 16),
      sextet_char (y mod 16 * 4 + z div 64), sextet_char (z mod 64)] @ b64_encode r)"

text \<open>Decoding stops at the padding and skips characters outside the alphabet.\<close>

fun sextets_bytes :: "nat list \<Rightarrow> string" where
  "sextets_bytes (a # b # c # d # r) =
     [char_of (a * 4 + b div 16), char_of (b mod 16 * 16 + c div 4), char_of (c mod 4 * 64 + d)] @ sextets_bytes r"
| "sextets_bytes [a, b, c] = [char_of (a * 4 + b div 16), char_of (b mod 16 * 16 + c div 4)]"
| "sextets_bytes [a, b] = [char_of (a * 4 + b div 16)]"
| "sextets_bytes _ = []"

definition buffer_from :: "string \<Rightarrow> string" where
  "buffer_from s = sextets_bytes (List.map_filter sextet_value (takeWhile (\<lambda>c. c \<noteq> pad) s))"

definition b64_decode :: "string \<Rightarrow> string option" where
  "b64_decode s = (let bs = buffer_from s in if b64_encode bs = s then Some bs else None)"

lemma sextet_char_value [simp]: "n < 64 \<Longrightarrow> sextet_value (sextet_char n) = Some n"
  by (auto simp: sextet_value_def sextet_char_def Let_def)

lemma sextet_char_pad [simp]: "n < 64 \<Longrightarrow> sextet_char n \<noteq> pad"
proof
  assume "n < 64" "sextet_char n = pad"
  then have "sextet_value pad = Some n" by (metis sextet_char_value)
  then show False by (simp add: sextet_value_def pad_def)
qed

lemma of_char_less: "(of_char c :: nat) < 256"
  by (metis char_of_char nat_of_char_less_256 of_char_of)

lemma div4_less: "(of_char c :: nat) div 4 < 64"
  by (rule less_mult_imp_div_less) (simp add: of_char_less)

lemma div16_less: "(of_char c :: nat) div 16 < 16"
  by (rule less_mult_imp_div_less) (simp add: of_char_less)

lemma div64_less: "(of_char c :: nat) div 64 < 4"
  by (rule less_mult_imp_div_less) (simp add: of_char_less)

lemma glue:
  fixes m n k j :: nat
  assumes "n < k"
  shows "m mod j * k + n < j * k \<or> j = 0" and "(m mod j * k + n) div k = m mod j" and "(m mod j * k + n) mod k = n"
proof -
  have "m mod j * k + n < (m mod j + 1) * k" using assms by simp
  also have "\<dots> \<le> j * k" if "j \<noteq> 0" using that by (intro mult_right_mono) (simp_all add: Suc_leI)
  finally show "m mod j * k + n < j * k \<or> j = 0" by blast
qed (use assms in simp_all)

lemma char_split [simp]: "char_of ((of_char c :: nat) div 4 * 4 + of_char c mod 4) = c"
  "char_of ((of_char c :: nat) div 16 * 16 + of_char c mod 16) = c"
  "char_of ((of_char c :: nat) div 64 * 64 + of_char c mod 64) = c"
  by simp_all

lemma buffer_from_encode [simp]: "buffer_from (b64_encode bs) = bs"
proof (induction bs rule: b64_encode.induct)
  case 1
  show ?case by (simp add: buffer_from_def)
next
  case (2 a)
  then show ?case
    using div4_less [of a] by (simp add: buffer_from_def Let_def map_filter_simps pad_def [symmetric])
next
  case (3 a b)
  have "(of_char a :: nat) mod 4 * 16 + of_char b div 16 < 64"
    "(of_char b :: nat) mod 16 * 4 < 64"
    using glue(1) [OF div16_less [of b], of "of_char a" 4] mod_less_divisor [of 16 "of_char b :: nat"] by linarith+
  then show ?case
    using div4_less [of a] div16_less [of b]
    by (simp add: buffer_from_def Let_def map_filter_simps glue(2,3))
next
  case (4 a b c r)
  have "(of_char a :: nat) mod 4 * 16 + of_char b div 16 < 64"
    "(of_char b :: nat) mod 16 * 4 + of_char c div 64 < 64" "(of_char c :: nat) mod 64 < 64"
    using glue(1) [OF div16_less [of b], of "of_char a" 4] glue(1) [OF div64_less [of c], of "of_char b" 16] by auto
  then show ?case
    using 4 div4_less [of a] div16_less [of b] div64_less [of c]
    by (simp add: buffer_from_def Let_def map_filter_simps glue(2,3))
qed

lemma b64_decode_encode [simp]: "b64_decode (b64_encode bs) = Some bs"
  by (simp add: b64_decode_def)

lemma b64_decode_iff: "b64_decode s = Some bs \<longleftrightarrow> s = b64_encode bs"
  by (auto simp: b64_decode_def Let_def split: if_splits)

lemma b64_encode_inj: "b64_encode a = b64_encode b \<Longrightarrow> a = b"
  by (metis buffer_from_encode)

end
