(* ===== verification/Effects.thy ===== *)
theory Effects
  imports JsCore
begin

section \<open>Durable writes and file locks as effects\<close>

text \<open>
  How the file operations shared by the stores can end. \<open>atomic_write\<close> is the write to a
  temporary file, sync, rename and directory sync of \<open>atomicWriteEvidenceJson\<close>
  (src/evidence/evidenceCrypto.js) and its copies: it throws before the rename and the file
  is unchanged, or after it, when the directory cannot be opened or synced, and the file is
  replaced all the same. \<open>with_lock\<close> is \<open>withLock\<close> of src/security/fileMutex.js seen by its
  caller: the lock is not obtained; or the operation runs; or it runs and the check of the
  ownership at the end throws. The last section has the calls that change a state and may throw.
\<close>

datatype write_outcome = Committed | NotWritten | Unsynced

definition atomic_write :: "write_outcome \<Rightarrow> 'f \<Rightarrow> 'f \<Rightarrow> 'f \<times> bool" where
  "atomic_write w new old = (case w of
     Committed \<Rightarrow> (new, True) | NotWritten \<Rightarrow> (old, False) | Unsynced \<Rightarrow> (new, False))"

lemma atomic_write_simps [simp]:
  "atomic_write Committed new old = (new, True)"
  "atomic_write NotWritten new old = (old, False)"
  "atomic_write Unsynced new old = (new, False)"
  by (simp_all add: atomic_write_def)

datatype lock_outcome = Acquired | LockFailed | LockLost

definition with_lock :: "lock_outcome \<Rightarrow> 'e \<Rightarrow> ('s \<Rightarrow> 's \<times> ('e + 'a)) \<Rightarrow> 's \<Rightarrow> 's \<times> ('e + 'a)" where
  "with_lock l e operation s = (case l of
     LockFailed \<Rightarrow> (s, Inl e)
   | Acquired \<Rightarrow> operation s
   | LockLost \<Rightarrow> (case operation s of (s', Inl e') \<Rightarrow> (s', Inl e') | (s', Inr _) \<Rightarrow> (s', Inl e)))"

lemma with_lock_simps [simp]:
  "with_lock Acquired e f s = f s"
  "with_lock LockFailed e f s = (s, Inl e)"
  by (simp_all add: with_lock_def)

lemma with_lock_state: "fst (with_lock l e f s) = (if l = LockFailed then s else fst (f s))"
  by (cases l) (auto simp: with_lock_def split: prod.split sum.split)

lemma with_lock_Inr: "snd (with_lock l e f s) = Inr x \<longleftrightarrow> l = Acquired \<and> snd (f s) = Inr x"
  by (cases l) (auto simp: with_lock_def split: prod.split sum.split)

subsection \<open>Stateful calls\<close>

text \<open>
  A call that changes the state and returns or throws: the change stays when it throws. \<open>bindS\<close>
  is one call after the other, \<open>catchS\<close> is \<open>try ... catch\<close>, \<open>ignoreS\<close> is \<open>try { ... } catch {}\<close>.
\<close>

type_synonym ('s, 'e, 'a) call = "'s \<Rightarrow> 's \<times> ('e + 'a)"

definition returnS :: "'a \<Rightarrow> ('s, 'e, 'a) call" where "returnS x s = (s, Inr x)"

definition throwS :: "'e \<Rightarrow> ('s, 'e, 'a) call" where "throwS e s = (s, Inl e)"

definition liftS :: "'e + 'a \<Rightarrow> ('s, 'e, 'a) call" where "liftS r s = (s, r)"

definition bindS :: "('s, 'e, 'a) call \<Rightarrow> ('a \<Rightarrow> ('s, 'e, 'b) call) \<Rightarrow> ('s, 'e, 'b) call" where
  "bindS m f s = (case m s of (s', Inl e) \<Rightarrow> (s', Inl e) | (s', Inr x) \<Rightarrow> f x s')"

definition catchS :: "('s, 'e, 'a) call \<Rightarrow> ('e \<Rightarrow> ('s, 'e, 'a) call) \<Rightarrow> ('s, 'e, 'a) call" where
  "catchS m h s = (case m s of (s', Inl e) \<Rightarrow> h e s' | (s', Inr x) \<Rightarrow> (s', Inr x))"

definition ignoreS :: "('s, 'e, 'a) call \<Rightarrow> ('s, 'e, unit) call" where
  "ignoreS m s = (fst (m s), Inr ())"

definition getS :: "('s \<Rightarrow> 'a) \<Rightarrow> ('s, 'e, 'a) call" where "getS f s = (s, Inr (f s))"

definition modifyS :: "('s \<Rightarrow> 's) \<Rightarrow> ('s, 'e, unit) call" where "modifyS f s = (f s, Inr ())"

definition ensureS :: "bool \<Rightarrow> 'e \<Rightarrow> ('s, 'e, 'a) call \<Rightarrow> ('s, 'e, 'a) call" where
  "ensureS b e m s = (if b then m s else (s, Inl e))"

text \<open>A predicate on states that a call preserves, whatever it returns.\<close>

definition keeps :: "('s \<Rightarrow> bool) \<Rightarrow> ('s, 'e, 'a) call \<Rightarrow> bool" where
  "keeps P m = (\<forall>s. P s \<longrightarrow> P (fst (m s)))"

named_theorems keeps_intros

lemma keeps_basic [keeps_intros]:
  "keeps P (returnS x)" "keeps P (throwS e)" "keeps P (liftS r)" "keeps P (getS f)"
  by (simp_all add: keeps_def returnS_def throwS_def liftS_def getS_def)

lemma keeps_bindS [keeps_intros]: "keeps P m \<Longrightarrow> (\<And>x. keeps P (f x)) \<Longrightarrow> keeps P (bindS m f)"
  unfolding keeps_def bindS_def by (auto split: prod.split sum.split)

lemma keeps_catchS [keeps_intros]: "keeps P m \<Longrightarrow> (\<And>e. keeps P (h e)) \<Longrightarrow> keeps P (catchS m h)"
  unfolding keeps_def catchS_def by (auto split: prod.split sum.split)

lemma keeps_ignoreS [keeps_intros]: "keeps P m \<Longrightarrow> keeps P (ignoreS m)"
  by (simp add: keeps_def ignoreS_def)

lemma keeps_ensureS [keeps_intros]: "(b \<Longrightarrow> keeps P m) \<Longrightarrow> keeps P (ensureS b e m)"
  by (simp add: keeps_def ensureS_def)

lemma keeps_if [keeps_intros]: "(b \<Longrightarrow> keeps P m) \<Longrightarrow> (\<not> b \<Longrightarrow> keeps P n) \<Longrightarrow> keeps P (if b then m else n)"
  by simp

lemma keeps_case_option [keeps_intros]:
  "keeps P m \<Longrightarrow> (\<And>x. keeps P (f x)) \<Longrightarrow> keeps P (case r of None \<Rightarrow> m | Some x \<Rightarrow> f x)"
  by (cases r) simp_all

lemma keeps_case_prod [keeps_intros]: "(\<And>x y. keeps P (f x y)) \<Longrightarrow> keeps P (case r of (x, y) \<Rightarrow> f x y)"
  by (cases r) simp

lemma keepsD: "keeps P m \<Longrightarrow> P s \<Longrightarrow> P (fst (m s))"
  by (simp add: keeps_def)

lemma bindS_Inr: "bindS m f s = (s', Inr y) \<longleftrightarrow> (\<exists>s1 x. m s = (s1, Inr x) \<and> f x s1 = (s', Inr y))"
  by (auto simp: bindS_def split: prod.splits sum.splits)

lemma ensureS_Inr [simp]: "ensureS b e m s = (s', Inr y) \<longleftrightarrow> b \<and> m s = (s', Inr y)"
  by (auto simp: ensureS_def)

lemma liftS_Inr [simp]: "liftS r s = (s', Inr y) \<longleftrightarrow> s' = s \<and> r = Inr y"
  by (auto simp: liftS_def)

lemma getS_Inr [simp]: "getS f s = (s', Inr y) \<longleftrightarrow> s' = s \<and> y = f s"
  by (auto simp: getS_def)

lemma modifyS_Inr [simp]: "modifyS f s = (s', Inr y) \<longleftrightarrow> s' = f s"
  by (auto simp: modifyS_def)

lemma returnS_Inr [simp]: "returnS x s = (s', Inr y) \<longleftrightarrow> s' = s \<and> y = x"
  by (auto simp: returnS_def)

end
