(* ===== verification/EvidenceRegistry.thy ===== *)
theory EvidenceRegistry
  imports Base64 HashChain Effects
begin

section \<open>Encrypted evidence with a chain of custody (src/evidence/evidenceRegistry.js)\<close>

text \<open>
  One directory per tenant holds an encrypted index (items, their versions, the custody
  events) and one encrypted file per content version. An encrypted file is the plaintext
  together with the additional authenticated data it was sealed with: decryption succeeds
  exactly with the same additional data (src/evidence/evidenceCrypto.js); \<open>Damaged\<close> is a file
  that does not parse or authenticate. \<open>H\<close> is the hexadecimal sha256 digest. The environment
  of an operation holds the clock, the outcome of the lock and of each write, whether each
  removal succeeds, and the identifiers drawn.
\<close>

subsection \<open>Data\<close>

datatype ev_error =
    Validation string
  | NotFound string
  | EvConflict string
  | Integrity string
  | StoreFailed string
  | LockError
  | RawFailure

datatype 'a envelope = Envelope string 'a | Damaged

record ev_version =
  vn_version :: nat
  vn_objectName :: string
  vn_sha256 :: string
  vn_sizeBytes :: nat
  vn_createdAt :: int
  vn_createdBy :: string
  vn_keyId :: string
  vn_filename :: string
  vn_mediaType :: string

record legal_hold =
  lh_active :: bool
  lh_matterId :: string
  lh_reason :: string
  lh_placedAt :: int
  lh_placedBy :: string
  lh_reviewAt :: "int option"
  lh_releasedAt :: "int option"
  lh_releasedBy :: "string option"
  lh_releaseReason :: "string option"

record ev_item =
  ei_evidenceId :: string
  ei_tenantId :: string
  ei_filename :: string
  ei_mediaType :: string
  ei_description :: string
  ei_sourceType :: string
  ei_sourceSystem :: "string option"
  ei_collectedAt :: int
  ei_ingestedAt :: int
  ei_ingestedBy :: string
  ei_retentionUntil :: int
  ei_status :: string
  ei_currentVersion :: nat
  ei_versions :: "ev_version list"
  ei_legalHold :: "legal_hold option"
  ei_disposedAt :: "int option"
  ei_disposedBy :: "string option"
  ei_dispositionReason :: "string option"
  ei_purgePending :: bool

record ev_event =
  ce_eventId :: string
  ce_sequence :: nat
  ce_occurredAt :: int
  ce_actor :: string
  ce_action :: string
  ce_evidenceId :: string
  ce_metadata :: "(string \<times> jsval) list"
  ce_previousHash :: "string option"
  ce_hash :: string

record ev_anchor =
  ea_sequence :: nat
  ea_hash :: string
  ea_createdAt :: int

record ev_index =
  ix_tenantId :: string
  ix_createdAt :: int
  ix_updatedAt :: int
  ix_sequence :: nat
  ix_headHash :: "string option"
  ix_anchor :: "ev_anchor option"
  ix_items :: "ev_item list"
  ix_events :: "ev_event list"

record ev_payload =
  pl_version :: nat
  pl_tenantId :: string
  pl_evidenceId :: string
  pl_filename :: string
  pl_mediaType :: string
  pl_sha256 :: string
  pl_sizeBytes :: nat
  pl_contentBase64 :: string

record ev_store =
  es_index :: "ev_index envelope option"
  es_content :: "string \<times> nat \<Rightarrow> ev_payload envelope option"

record ev_config =
  ec_maxBytes :: nat
  ec_defaultDays :: int
  ec_eventRetention :: nat
  ec_keyId :: string

record ev_env =
  ee_now :: int
  ee_lock :: lock_outcome
  ee_contentWrite :: write_outcome
  ee_indexWrite :: write_outcome
  ee_secondWrite :: write_outcome
  ee_cleanup :: bool
  ee_purge :: "nat \<Rightarrow> bool"
  ee_uuid :: string
  ee_eventUuid :: "nat \<Rightarrow> string"

subsection \<open>Validators\<close>

text \<open>\<open>/^EVD-[a-f0-9]{32}$/\<close> and \<open>/^PLH-ENG-\d{4}-\d{3}-\d{2}$/\<close>.\<close>

definition is_evidence_id :: "string \<Rightarrow> bool" where
  "is_evidence_id s = (starts_with ''EVD-'' s \<and> is_hex_text 32 (drop 4 s))"

definition is_placeholder_id :: "string \<Rightarrow> bool" where
  "is_placeholder_id s = (starts_with ''PLH-ENG-'' s \<and>
     (case split_at (CHR ''-'') (drop 8 s) of
        [a, b, c] \<Rightarrow> length a = 4 \<and> length b = 3 \<and> length c = 2 \<and> list_all is_digit (a @ b @ c)
      | _ \<Rightarrow> False))"

definition ev_text :: "jsval \<Rightarrow> string" where
  "ev_text v = js_String (js_or_nullish v (JStr []))"

definition evidence_identifier :: "jsval \<Rightarrow> ev_error + string" where
  "evidence_identifier v = (let i = ev_text v in ensure (is_evidence_id i) (Validation ''evidenceId'') (Inr i))"

definition tenant_identifier :: "jsval \<Rightarrow> ev_error + string" where
  "tenant_identifier v = (let i = ev_text v in ensure (safe_ident ''._-'' 1 127 i) (Validation ''tenantId'') (Inr i))"

definition actor_identifier :: "jsval \<Rightarrow> ev_error + string" where
  "actor_identifier v = (let a = trimmed v in ensure (safe_ident ''._:@-'' 0 191 a) (Validation ''actor'') (Inr a))"

definition ev_safe_identifier :: "jsval \<Rightarrow> string \<Rightarrow> ev_error + string" where
  "ev_safe_identifier v field = (let i = trimmed v in ensure (safe_ident ''._:-'' 1 191 i) (Validation field) (Inr i))"

definition forbidden_in_filename :: "char \<Rightarrow> bool" where
  "forbidden_in_filename c = ((of_char c :: nat) < 32 \<or> c \<in> set ''<>:/|?*'' \<or> c = CHR 0x22 \<or> c = CHR 0x5C)"

text \<open>\<open>basename(filename) !== filename\<close> holds exactly of names with a slash, which is forbidden anyway.\<close>

definition safe_filename :: "jsval \<Rightarrow> ev_error + string" where
  "safe_filename v = (let f = trimmed v in
     ensure (f \<noteq> [] \<and> length f \<le> 255 \<and> \<not> list_ex forbidden_in_filename f) (Validation ''filename'') (Inr f))"

definition to_lower :: "char \<Rightarrow> char" where
  "to_lower c = (let n = (of_char c :: nat) in if 65 \<le> n \<and> n \<le> 90 then char_of (n + 32) else c)"

definition mime_char :: "char \<Rightarrow> bool" where
  "mime_char c = (let n = (of_char c :: nat) in
     97 \<le> n \<and> n \<le> 122 \<or> 48 \<le> n \<and> n \<le> 57 \<or> c \<in> set ''!#$&^_.+-'')"

definition safe_media_type :: "jsval \<Rightarrow> ev_error + string" where
  "safe_media_type v =
     (let m = map to_lower (js_trim (js_String (js_or_nullish v (JStr ''application/octet-stream'')))) in
      ensure ((case split_at (CHR ''/'') m of
            [a, b] \<Rightarrow> a \<noteq> [] \<and> b \<noteq> [] \<and> list_all mime_char (a @ b) | _ \<Rightarrow> False) \<and> length m \<le> 127)
        (Validation ''mediaType'') (Inr m))"

definition ev_clean_text :: "jsval \<Rightarrow> string \<Rightarrow> nat \<Rightarrow> nat \<Rightarrow> ev_error + string" where
  "ev_clean_text v field lo hi = from_option (Validation field) (clean_text_in lo hi v)"

definition allowed_value :: "jsval \<Rightarrow> string \<Rightarrow> string list \<Rightarrow> ev_error + string" where
  "allowed_value v field allowed = (let c = ev_text v in ensure (c \<in> set allowed) (Validation field) (Inr c))"

definition valid_date :: "(string \<Rightarrow> int option) \<Rightarrow> jsval \<Rightarrow> string \<Rightarrow> ev_error + int" where
  "valid_date dp v field = from_option (Validation field) (new_date dp v)"

definition future_date :: "(string \<Rightarrow> int option) \<Rightarrow> jsval \<Rightarrow> string \<Rightarrow> int \<Rightarrow> ev_error + int option" where
  "future_date dp v field now = (if \<not> truthy v then Inr None
     else bindR (valid_date dp v field) (\<lambda>d. ensure (\<not> d \<le> now) (Validation field) (Inr (Some d))))"

definition ev_integer :: "jsval \<Rightarrow> string \<Rightarrow> int \<Rightarrow> int \<Rightarrow> ev_error + int" where
  "ev_integer v field lo hi = from_option (Validation field) (int_in lo hi v)"

text \<open>\<open>strictBase64\<close> of evidenceCrypto.js.\<close>

definition b64_shape :: "string \<Rightarrow> bool" where
  "b64_shape s = (let body = takeWhile (\<lambda>c. c \<noteq> pad) s; rest = dropWhile (\<lambda>c. c \<noteq> pad) s in
     list_all (\<lambda>c. is_alnum c \<or> c \<in> set ''+/'') body \<and> rest \<in> {[], [pad], [pad, pad]})"

definition strict_base64 :: "jsval \<Rightarrow> string option" where
  "strict_base64 v = (let t = ev_text v in
     if t = [] \<or> \<not> b64_shape t \<or> length t mod 4 \<noteq> 0 then None
     else let decoded = buffer_from t in if b64_encode decoded \<noteq> t then None else Some decoded)"

subsection \<open>Uploads\<close>

record ev_upload =
  up_content :: string
  up_sha256 :: string
  up_filename :: string
  up_mediaType :: string
  up_description :: string
  up_sourceType :: string
  up_sourceSystem :: "string option"
  up_collectedAt :: int
  up_retentionUntil :: "int option"

definition source_types :: "string list" where
  "source_types = [''uploaded'', ''system_export'', ''email'', ''interview'', ''observation'', ''external_provider'']"

definition ev_day_ms :: int where
  "ev_day_ms = 86400000"

definition upload_retention ::
  "(string \<Rightarrow> int option) \<Rightarrow> ev_config \<Rightarrow> int \<Rightarrow> bool \<Rightarrow> jsval \<Rightarrow> ev_error + int option" where
  "upload_retention dp cfg now retentionOptional v =
     bindR (if \<not> truthy v \<and> retentionOptional then Inr None
            else if truthy v then bindR (valid_date dp v ''retentionUntil'') (\<lambda>d. Inr (Some d))
            else Inr (Some (now + ec_defaultDays cfg * ev_day_ms))) (\<lambda>retention.
     ensure (case retention of None \<Rightarrow> True | Some r \<Rightarrow> \<not> r \<le> now) (Validation ''retentionUntil'') (Inr retention))"

definition normalise_upload ::
  "(string \<Rightarrow> string) \<Rightarrow> (string \<Rightarrow> int option) \<Rightarrow> ev_config \<Rightarrow> int \<Rightarrow> bool \<Rightarrow> jsval \<Rightarrow> ev_error + ev_upload" where
  "normalise_upload H dp cfg now retentionOptional input =
     ensure (is_plain_object input) (Validation ''upload'')
    (bindR (from_option (Validation ''contentBase64'') (strict_base64 (js_get input ''contentBase64''))) (\<lambda>content.
     ensure (content \<noteq> [] \<and> length content \<le> ec_maxBytes cfg) (Validation ''contentBase64'')
    (bindR (safe_filename (js_get input ''filename'')) (\<lambda>filename.
     bindR (safe_media_type (js_get input ''mediaType'')) (\<lambda>mediaType.
     bindR (if truthy (js_get input ''description'')
            then ev_clean_text (js_get input ''description'') ''description'' 1 1000 else Inr []) (\<lambda>description.
     bindR (allowed_value (js_or_nullish (js_get input ''sourceType'') (JStr ''uploaded'')) ''sourceType'' source_types) (\<lambda>sourceType.
     bindR (if truthy (js_get input ''sourceSystem'')
            then bindR (ev_clean_text (js_get input ''sourceSystem'') ''sourceSystem'' 1 200) (\<lambda>s. Inr (Some s))
            else Inr None) (\<lambda>sourceSystem.
     bindR (if truthy (js_get input ''collectedAt'')
            then valid_date dp (js_get input ''collectedAt'') ''collectedAt'' else Inr now) (\<lambda>collected.
     ensure (\<not> collected > now + 300000) (Validation ''collectedAt'')
    (bindR (upload_retention dp cfg now retentionOptional (js_get input ''retentionUntil'')) (\<lambda>retention.
     Inr \<lparr>up_content = content, up_sha256 = H content, up_filename = filename, up_mediaType = mediaType,
          up_description = description, up_sourceType = sourceType, up_sourceSystem = sourceSystem,
          up_collectedAt = collected, up_retentionUntil = retention\<rparr>)))))))))))"

definition object_name :: "nat \<Rightarrow> string" where
  "object_name n = ''v'' @ pad_start 6 (CHR ''0'') (dec n) @ ''.evidence''"

definition create_version :: "nat \<Rightarrow> ev_upload \<Rightarrow> string \<Rightarrow> int \<Rightarrow> string \<Rightarrow> ev_version" where
  "create_version n upload actor now keyId =
     \<lparr>vn_version = n, vn_objectName = object_name n, vn_sha256 = up_sha256 upload,
      vn_sizeBytes = length (up_content upload), vn_createdAt = now, vn_createdBy = actor, vn_keyId = keyId,
      vn_filename = up_filename upload, vn_mediaType = up_mediaType upload\<rparr>"

definition content_payload :: "string \<Rightarrow> string \<Rightarrow> nat \<Rightarrow> ev_upload \<Rightarrow> ev_payload" where
  "content_payload tenant evidenceId n upload =
     \<lparr>pl_version = n, pl_tenantId = tenant, pl_evidenceId = evidenceId, pl_filename = up_filename upload,
      pl_mediaType = up_mediaType upload, pl_sha256 = up_sha256 upload, pl_sizeBytes = length (up_content upload),
      pl_contentBase64 = b64_encode (up_content upload)\<rparr>"

definition index_aad :: "string \<Rightarrow> string" where
  "index_aad tenant = ''basitclaw-workforce-audit-evidence-index:1:'' @ tenant"

definition content_aad :: "string \<Rightarrow> string \<Rightarrow> nat \<Rightarrow> string" where
  "content_aad tenant evidenceId n = ''basitclaw-workforce-audit-evidence:1:'' @ tenant @ '':'' @ evidenceId @ '':'' @ dec n"

subsection \<open>The custody chain\<close>

definition custody_value :: "ev_event \<Rightarrow> jsval" where
  "custody_value e = JObj
     [(''eventId'', JStr (ce_eventId e)), (''sequence'', JInt (int (ce_sequence e))),
      (''occurredAt'', JInt (ce_occurredAt e)), (''actor'', JStr (ce_actor e)), (''action'', JStr (ce_action e)),
      (''evidenceId'', JStr (ce_evidenceId e)), (''metadata'', JObj (ce_metadata e)),
      (''previousHash'', opt_str (ce_previousHash e))]"

definition custody_event_hash :: "(string \<Rightarrow> string) \<Rightarrow> ev_event \<Rightarrow> string" where
  "custody_event_hash H e = H (json_stringify (custody_value e))"

definition anchor_sequence :: "ev_index \<Rightarrow> nat" where
  "anchor_sequence ix = (case ix_anchor ix of None \<Rightarrow> 0 | Some a \<Rightarrow> ea_sequence a)"

definition anchor_hash :: "ev_index \<Rightarrow> string option" where
  "anchor_hash ix = map_option ea_hash (ix_anchor ix)"

definition custody_event :: "(string \<Rightarrow> string) \<Rightarrow> ev_env \<Rightarrow> string \<Rightarrow> string \<Rightarrow> string \<Rightarrow> (string \<times> jsval) list \<Rightarrow> ev_index \<Rightarrow> ev_event" where
  "custody_event H env actor action evidenceId metadata ix =
     (let e = \<lparr>ce_eventId = ''EVT-'' @ ee_eventUuid env (ix_sequence ix + 1), ce_sequence = ix_sequence ix + 1,
        ce_occurredAt = ee_now env, ce_actor = actor, ce_action = action, ce_evidenceId = evidenceId,
        ce_metadata = metadata, ce_previousHash = ix_headHash ix, ce_hash = []\<rparr>
      in e\<lparr>ce_hash := custody_event_hash H e\<rparr>)"

definition trim_custody :: "nat \<Rightarrow> int \<Rightarrow> ev_index \<Rightarrow> ev_index" where
  "trim_custody retained occurredAt ix =
     (if length (ix_events ix) > retained then
        let n = length (ix_events ix) - retained; tail = ix_events ix ! (n - 1)
        in ix\<lparr>ix_events := drop n (ix_events ix),
              ix_anchor := Some \<lparr>ea_sequence = ce_sequence tail, ea_hash = ce_hash tail, ea_createdAt = occurredAt\<rparr>\<rparr>
      else ix)"

definition append_event ::
  "(string \<Rightarrow> string) \<Rightarrow> ev_config \<Rightarrow> ev_env \<Rightarrow> string \<Rightarrow> string \<Rightarrow> string \<Rightarrow> (string \<times> jsval) list \<Rightarrow> ev_index \<Rightarrow> ev_index" where
  "append_event H cfg env actor action evidenceId metadata ix =
     (let e = custody_event H env actor action evidenceId metadata ix;
          ix1 = ix\<lparr>ix_createdAt := (if ix_sequence ix = 0 then ce_occurredAt e else ix_createdAt ix),
            ix_events := ix_events ix @ [e], ix_sequence := ce_sequence e, ix_headHash := Some (ce_hash e),
            ix_updatedAt := ce_occurredAt e\<rparr>
      in trim_custody (ec_eventRetention cfg) (ce_occurredAt e) ix1)"

fun check_custody :: "(string \<Rightarrow> string) \<Rightarrow> nat \<Rightarrow> string option \<Rightarrow> ev_event list \<Rightarrow> bool" where
  "check_custody H expectedSequence previousHash [] = True"
| "check_custody H expectedSequence previousHash (e # es) =
     (if ce_sequence e \<noteq> expectedSequence \<or> ce_previousHash e \<noteq> previousHash \<or> ce_hash e \<noteq> custody_event_hash H e
      then False else check_custody H (expectedSequence + 1) (Some (ce_hash e)) es)"

definition verify_chain :: "(string \<Rightarrow> string) \<Rightarrow> ev_index \<Rightarrow> ev_error + unit" where
  "verify_chain H ix =
     ensure (check_custody H (anchor_sequence ix + 1) (anchor_hash ix) (ix_events ix)) (Integrity ''chain'')
    (ensure (ix_sequence ix = anchor_sequence ix + length (ix_events ix)
        \<and> ix_headHash ix = head_hash ce_hash (anchor_hash ix) (ix_events ix)) (Integrity ''head'') (Inr ()))"

subsection \<open>Reading and writing the files\<close>

definition empty_index :: "string \<Rightarrow> ev_index" where
  "empty_index tenant = \<lparr>ix_tenantId = tenant, ix_createdAt = 0, ix_updatedAt = 0, ix_sequence = 0,
     ix_headHash = None, ix_anchor = None, ix_items = [], ix_events = []\<rparr>"

definition decrypt_envelope :: "string \<Rightarrow> 'a envelope \<Rightarrow> ev_error + 'a" where
  "decrypt_envelope aad f = (case f of
     Envelope sealed x \<Rightarrow> ensure (sealed = aad) (Integrity ''authentication'') (Inr x)
   | Damaged \<Rightarrow> Inl (Integrity ''authentication''))"

definition load_index :: "(string \<Rightarrow> string) \<Rightarrow> string \<Rightarrow> ev_store \<Rightarrow> ev_error + ev_index" where
  "load_index H tenant st = (case es_index st of
     None \<Rightarrow> Inr (empty_index tenant)
   | Some f \<Rightarrow> bindR (decrypt_envelope (index_aad tenant) f) (\<lambda>ix.
       ensure (ix_tenantId ix = tenant) (Integrity ''identity'')
      (bindR (verify_chain H ix) (\<lambda>_. Inr ix))))"

definition save_index :: "write_outcome \<Rightarrow> string \<Rightarrow> ev_index \<Rightarrow> ev_store \<Rightarrow> ev_store \<times> bool" where
  "save_index w tenant ix st =
     (case atomic_write w (Some (Envelope (index_aad tenant) ix)) (es_index st) of
        (f, written) \<Rightarrow> (st\<lparr>es_index := f\<rparr>, written))"

definition write_content :: "write_outcome \<Rightarrow> string \<Rightarrow> string \<Rightarrow> nat \<Rightarrow> ev_upload \<Rightarrow> ev_store \<Rightarrow> ev_store \<times> bool" where
  "write_content w tenant evidenceId n upload st =
     (case atomic_write w (Some (Envelope (content_aad tenant evidenceId n) (content_payload tenant evidenceId n upload)))
         (es_content st (evidenceId, n)) of
        (f, written) \<Rightarrow> (st\<lparr>es_content := (es_content st)((evidenceId, n) := f)\<rparr>, written))"

definition remove_content :: "bool \<Rightarrow> string \<Rightarrow> nat \<Rightarrow> ev_store \<Rightarrow> ev_store" where
  "remove_content removed evidenceId n st =
     (if removed then st\<lparr>es_content := (es_content st)((evidenceId, n) := None)\<rparr> else st)"

definition decrypt_content :: "(string \<Rightarrow> string) \<Rightarrow> string \<Rightarrow> ev_store \<Rightarrow> ev_item \<Rightarrow> ev_version \<Rightarrow> ev_error + string" where
  "decrypt_content H tenant st item v =
     bindR (from_option (Integrity ''missing'') (es_content st (ei_evidenceId item, vn_version v))) (\<lambda>f.
     bindR (decrypt_envelope (content_aad tenant (ei_evidenceId item) (vn_version v)) f) (\<lambda>payload.
     ensure (pl_tenantId payload = tenant \<and> pl_evidenceId payload = ei_evidenceId item \<and> pl_version payload = vn_version v)
       (Integrity ''content identity'')
    (bindR (from_option (Integrity ''stored content'') (strict_base64 (JStr (pl_contentBase64 payload)))) (\<lambda>content.
     let digest = H content in
     ensure (digest = vn_sha256 v \<and> digest = pl_sha256 payload \<and> length content = vn_sizeBytes v
        \<and> length content = pl_sizeBytes payload) (Integrity ''checksum'') (Inr content)))))"

subsection \<open>Items\<close>

record public_hold =
  ph_active :: bool
  ph_placedAt :: int
  ph_reviewAt :: "int option"
  ph_releasedAt :: "int option"

record public_item =
  pi_evidenceId :: string
  pi_filename :: string
  pi_mediaType :: string
  pi_description :: string
  pi_sourceType :: string
  pi_sourceSystem :: "string option"
  pi_collectedAt :: int
  pi_ingestedAt :: int
  pi_ingestedBy :: string
  pi_retentionUntil :: int
  pi_status :: string
  pi_currentVersion :: nat
  pi_versions :: "(nat \<times> string \<times> nat \<times> int \<times> string \<times> string) list"
  pi_legalHold :: "public_hold option"
  pi_disposedAt :: "int option"
  pi_disposedBy :: "string option"
  pi_purgePending :: bool

definition public_of :: "ev_item \<Rightarrow> public_item" where
  "public_of i = \<lparr>pi_evidenceId = ei_evidenceId i, pi_filename = ei_filename i, pi_mediaType = ei_mediaType i,
     pi_description = ei_description i, pi_sourceType = ei_sourceType i, pi_sourceSystem = ei_sourceSystem i,
     pi_collectedAt = ei_collectedAt i, pi_ingestedAt = ei_ingestedAt i, pi_ingestedBy = ei_ingestedBy i,
     pi_retentionUntil = ei_retentionUntil i, pi_status = ei_status i, pi_currentVersion = ei_currentVersion i,
     pi_versions = map (\<lambda>v. (vn_version v, vn_sha256 v, vn_sizeBytes v, vn_createdAt v, vn_filename v, vn_mediaType v))
       (ei_versions i),
     pi_legalHold = map_option (\<lambda>h. \<lparr>ph_active = lh_active h, ph_placedAt = lh_placedAt h,
       ph_reviewAt = lh_reviewAt h, ph_releasedAt = lh_releasedAt h\<rparr>) (ei_legalHold i),
     pi_disposedAt = ei_disposedAt i, pi_disposedBy = ei_disposedBy i, pi_purgePending = ei_purgePending i\<rparr>"

definition find_item :: "ev_index \<Rightarrow> string \<Rightarrow> ev_error + ev_item" where
  "find_item ix i = from_option (NotFound i) (List.find (\<lambda>x. ei_evidenceId x = i) (ix_items ix))"

definition assert_active :: "ev_item \<Rightarrow> ev_error + 'a \<Rightarrow> ev_error + 'a" where
  "assert_active i k = ensure (ei_status i = ''active'') (EvConflict ''disposed'') k"

definition held :: "ev_item \<Rightarrow> bool" where
  "held i = (case ei_legalHold i of None \<Rightarrow> False | Some h \<Rightarrow> lh_active h)"

text \<open>An item object is changed in place: the first item with its identifier.\<close>

fun replace_item :: "ev_item \<Rightarrow> ev_item list \<Rightarrow> ev_item list" where
  "replace_item i [] = []"
| "replace_item i (x # xs) = (if ei_evidenceId x = ei_evidenceId i then i # xs else x # replace_item i xs)"

definition put_item :: "ev_item \<Rightarrow> ev_index \<Rightarrow> ev_index" where
  "put_item i ix = ix\<lparr>ix_items := replace_item i (ix_items ix)\<rparr>"

definition store_failure :: "string \<Rightarrow> ev_error \<Rightarrow> ev_error" where
  "store_failure operation e = (case e of RawFailure \<Rightarrow> StoreFailed operation | LockError \<Rightarrow> StoreFailed operation | _ \<Rightarrow> e)"

subsection \<open>Operations\<close>

text \<open>
  The file part shared by \<open>ingest\<close> and \<open>addVersion\<close>: write the content, then the index;
  on any failure remove the content (best effort) and report a store failure.
\<close>

definition commit_content ::
  "ev_env \<Rightarrow> string \<Rightarrow> string \<Rightarrow> string \<Rightarrow> nat \<Rightarrow> ev_upload \<Rightarrow> ev_index \<Rightarrow> ev_item \<Rightarrow> ev_store \<Rightarrow> ev_store \<times> (ev_error + public_item)" where
  "commit_content env operation tenant evidenceId n upload ix item st =
     (case write_content (ee_contentWrite env) tenant evidenceId n upload st of
        (st1, False) \<Rightarrow> (remove_content (ee_cleanup env) evidenceId n st1, Inl (store_failure operation RawFailure))
      | (st1, True) \<Rightarrow>
         (case save_index (ee_indexWrite env) tenant ix st1 of
            (st2, False) \<Rightarrow> (remove_content (ee_cleanup env) evidenceId n st2, Inl (store_failure operation RawFailure))
          | (st2, True) \<Rightarrow> (st2, Inr (public_of item))))"

definition new_item :: "string \<Rightarrow> string \<Rightarrow> ev_upload \<Rightarrow> ev_version \<Rightarrow> string \<Rightarrow> ev_item" where
  "new_item tenant evidenceId upload version actor =
     \<lparr>ei_evidenceId = evidenceId, ei_tenantId = tenant, ei_filename = up_filename upload,
      ei_mediaType = up_mediaType upload, ei_description = up_description upload,
      ei_sourceType = up_sourceType upload, ei_sourceSystem = up_sourceSystem upload,
      ei_collectedAt = up_collectedAt upload, ei_ingestedAt = vn_createdAt version, ei_ingestedBy = actor,
      ei_retentionUntil = the (up_retentionUntil upload), ei_status = ''active'', ei_currentVersion = 1,
      ei_versions = [version], ei_legalHold = None, ei_disposedAt = None, ei_disposedBy = None,
      ei_dispositionReason = None, ei_purgePending = False\<rparr>"

definition ingest_locked ::
  "(string \<Rightarrow> string) \<Rightarrow> ev_config \<Rightarrow> ev_env \<Rightarrow> string \<Rightarrow> string \<Rightarrow> ev_upload \<Rightarrow> ev_store \<Rightarrow> ev_store \<times> (ev_error + public_item)" where
  "ingest_locked H cfg env tenant who upload st = (case load_index H tenant st of
       Inl e \<Rightarrow> (st, Inl e)
     | Inr ix \<Rightarrow>
        (let evidenceId = ''EVD-'' @ ee_uuid env;
             version = create_version 1 upload who (ee_now env) (ec_keyId cfg);
             item = new_item tenant evidenceId upload version who;
             ix' = append_event H cfg env who ''evidence.ingested'' evidenceId
               [(''version'', JInt 1), (''sha256'', JStr (vn_sha256 version)), (''sizeBytes'', JInt (int (vn_sizeBytes version))),
                (''retentionUntil'', JInt (ei_retentionUntil item)), (''sourceType'', JStr (ei_sourceType item))]
               (ix\<lparr>ix_items := ix_items ix @ [item]\<rparr>)
         in commit_content env ''ingest'' tenant evidenceId 1 upload ix' item st))"

definition ev_ingest ::
  "(string \<Rightarrow> string) \<Rightarrow> (string \<Rightarrow> int option) \<Rightarrow> ev_config \<Rightarrow> ev_env \<Rightarrow> jsval \<Rightarrow> jsval \<Rightarrow> jsval \<Rightarrow> ev_store \<Rightarrow> ev_store \<times> (ev_error + public_item)" where
  "ev_ingest H dp cfg env tenantId input actor st =
     (case bindR (tenant_identifier tenantId) (\<lambda>tenant.
           bindR (actor_identifier actor) (\<lambda>who.
           bindR (normalise_upload H dp cfg (ee_now env) False input) (\<lambda>upload.
           Inr (tenant, who, upload))))
      of Inl e \<Rightarrow> (st, Inl e)
       | Inr (tenant, who, upload) \<Rightarrow> with_lock (ee_lock env) LockError (ingest_locked H cfg env tenant who upload) st)"

definition next_version :: "jsval \<Rightarrow> ev_upload \<Rightarrow> ev_version \<Rightarrow> ev_item \<Rightarrow> ev_item" where
  "next_version input upload version item = item\<lparr>ei_filename := up_filename upload, ei_mediaType := up_mediaType upload,
     ei_description := (if js_get input ''description'' = JUndef then ei_description item else up_description upload),
     ei_sourceType := (if js_get input ''sourceType'' = JUndef then ei_sourceType item else up_sourceType upload),
     ei_sourceSystem := (if js_get input ''sourceSystem'' = JUndef then ei_sourceSystem item else up_sourceSystem upload),
     ei_collectedAt := (if js_get input ''collectedAt'' = JUndef then ei_collectedAt item else up_collectedAt upload),
     ei_retentionUntil := (if truthy (js_get input ''retentionUntil'') then the (up_retentionUntil upload) else ei_retentionUntil item),
     ei_currentVersion := vn_version version, ei_versions := ei_versions item @ [version]\<rparr>"

text \<open>\<open>item.legalHold?.active && input.retentionUntil && new Date(input.retentionUntil) < new Date(item.retentionUntil)\<close>.\<close>

definition shortens_held :: "jsval \<Rightarrow> ev_upload \<Rightarrow> ev_item \<Rightarrow> bool" where
  "shortens_held input upload item =
     (held item \<and> truthy (js_get input ''retentionUntil'') \<and> the (up_retentionUntil upload) < ei_retentionUntil item)"

definition add_version_locked ::
  "(string \<Rightarrow> string) \<Rightarrow> ev_config \<Rightarrow> ev_env \<Rightarrow> string \<Rightarrow> string \<Rightarrow> string \<Rightarrow> jsval \<Rightarrow> ev_upload \<Rightarrow> ev_store \<Rightarrow> ev_store \<times> (ev_error + public_item)" where
  "add_version_locked H cfg env tenant i who input upload st =
     (case bindR (load_index H tenant st) (\<lambda>ix.
           bindR (find_item ix i) (\<lambda>item.
           assert_active item
          (ensure (\<not> shortens_held input upload item) (EvConflict ''hold'') (Inr (ix, item)))))
      of Inl e \<Rightarrow> (st, Inl e)
       | Inr (ix, item) \<Rightarrow>
          (let n = ei_currentVersion item + 1;
               version = create_version n upload who (ee_now env) (ec_keyId cfg);
               item' = next_version input upload version item;
               ix' = append_event H cfg env who ''evidence.version_added'' i
                 [(''version'', JInt (int n)), (''sha256'', JStr (vn_sha256 version)), (''sizeBytes'', JInt (int (vn_sizeBytes version)))]
                 (put_item item' ix)
           in commit_content env ''add_version'' tenant i n upload ix' item' st))"

definition ev_add_version ::
  "(string \<Rightarrow> string) \<Rightarrow> (string \<Rightarrow> int option) \<Rightarrow> ev_config \<Rightarrow> ev_env \<Rightarrow> jsval \<Rightarrow> jsval \<Rightarrow> jsval \<Rightarrow> jsval \<Rightarrow> ev_store \<Rightarrow> ev_store \<times> (ev_error + public_item)" where
  "ev_add_version H dp cfg env tenantId evidenceId input actor st =
     (case bindR (tenant_identifier tenantId) (\<lambda>tenant.
           bindR (evidence_identifier evidenceId) (\<lambda>i.
           bindR (actor_identifier actor) (\<lambda>who.
           bindR (normalise_upload H dp cfg (ee_now env) True input) (\<lambda>upload.
           Inr (tenant, i, who, upload)))))
      of Inl e \<Rightarrow> (st, Inl e)
       | Inr (tenant, i, who, upload) \<Rightarrow> with_lock (ee_lock env) LockError (add_version_locked H cfg env tenant i who input upload) st)"

text \<open>\<open>mutate\<close>: change one item, record the event, save the index; a failed save escapes as it is.\<close>

definition ev_mutate ::
  "(string \<Rightarrow> string) \<Rightarrow> ev_config \<Rightarrow> ev_env \<Rightarrow> string \<Rightarrow> string \<Rightarrow> string \<Rightarrow> string
     \<Rightarrow> (ev_item \<Rightarrow> ev_error + ev_item \<times> (string \<times> jsval) list) \<Rightarrow> ev_store \<Rightarrow> ev_store \<times> (ev_error + public_item)" where
  "ev_mutate H cfg env tenant i actor action operation = with_lock (ee_lock env) LockError (\<lambda>st.
     case bindR (load_index H tenant st) (\<lambda>ix.
          bindR (find_item ix i) (\<lambda>item.
          bindR (operation item) (\<lambda>(item', metadata). Inr (ix, item', metadata))))
     of Inl e \<Rightarrow> (st, Inl e)
      | Inr (ix, item', metadata) \<Rightarrow>
         (case save_index (ee_indexWrite env) tenant (append_event H cfg env actor action i metadata (put_item item' ix)) st of
            (st', True) \<Rightarrow> (st', Inr (public_of item'))
          | (st', False) \<Rightarrow> (st', Inl RawFailure)))"

definition place_hold_op ::
  "(string \<Rightarrow> string) \<Rightarrow> ev_env \<Rightarrow> string \<Rightarrow> string \<Rightarrow> string \<Rightarrow> int option \<Rightarrow> ev_item \<Rightarrow> ev_error + ev_item \<times> (string \<times> jsval) list" where
  "place_hold_op H env who reason matterId reviewAt item = assert_active item
    (ensure (\<not> held item) (EvConflict ''hold'')
      (Inr (item\<lparr>ei_legalHold := Some \<lparr>lh_active = True, lh_matterId = matterId, lh_reason = reason,
              lh_placedAt = ee_now env, lh_placedBy = who, lh_reviewAt = reviewAt, lh_releasedAt = None,
              lh_releasedBy = None, lh_releaseReason = None\<rparr>\<rparr>,
            [(''matterFingerprint'', JStr (H matterId)),
             (''reviewAt'', (case reviewAt of None \<Rightarrow> JNull | Some t \<Rightarrow> JInt t))])))"

definition ev_place_hold ::
  "(string \<Rightarrow> string) \<Rightarrow> (string \<Rightarrow> int option) \<Rightarrow> ev_config \<Rightarrow> ev_env \<Rightarrow> jsval \<Rightarrow> jsval \<Rightarrow> jsval \<Rightarrow> jsval \<Rightarrow> ev_store \<Rightarrow> ev_store \<times> (ev_error + public_item)" where
  "ev_place_hold H dp cfg env tenantId evidenceId input actor st =
     (case bindR (tenant_identifier tenantId) (\<lambda>tenant.
           bindR (evidence_identifier evidenceId) (\<lambda>i.
           bindR (actor_identifier actor) (\<lambda>who.
           bindR (ev_clean_text (js_get input ''reason'') ''reason'' 10 1000) (\<lambda>reason.
           bindR (ev_safe_identifier (js_get input ''matterId'') ''matterId'') (\<lambda>matterId.
           bindR (future_date dp (js_get input ''reviewAt'') ''reviewAt'' (ee_now env)) (\<lambda>reviewAt.
           Inr (tenant, i, who, reason, matterId, reviewAt)))))))
      of Inl e \<Rightarrow> (st, Inl e)
       | Inr (tenant, i, who, reason, matterId, reviewAt) \<Rightarrow>
           ev_mutate H cfg env tenant i who ''evidence.legal_hold_placed'' (place_hold_op H env who reason matterId reviewAt) st)"

definition release_hold_op ::
  "(string \<Rightarrow> string) \<Rightarrow> ev_env \<Rightarrow> string \<Rightarrow> string \<Rightarrow> ev_item \<Rightarrow> ev_error + ev_item \<times> (string \<times> jsval) list" where
  "release_hold_op H env who reason item = assert_active item
    (case ei_legalHold item of
       None \<Rightarrow> Inl (EvConflict ''no hold'')
     | Some h \<Rightarrow> ensure (lh_active h) (EvConflict ''no hold'')
         (Inr (item\<lparr>ei_legalHold := Some (h\<lparr>lh_active := False, lh_releasedAt := Some (ee_now env),
                 lh_releasedBy := Some who, lh_releaseReason := Some reason\<rparr>)\<rparr>,
               [(''matterFingerprint'', JStr (H (lh_matterId h)))])))"

definition ev_release_hold ::
  "(string \<Rightarrow> string) \<Rightarrow> ev_config \<Rightarrow> ev_env \<Rightarrow> jsval \<Rightarrow> jsval \<Rightarrow> jsval \<Rightarrow> jsval \<Rightarrow> ev_store \<Rightarrow> ev_store \<times> (ev_error + public_item)" where
  "ev_release_hold H cfg env tenantId evidenceId input actor st =
     (case bindR (tenant_identifier tenantId) (\<lambda>tenant.
           bindR (evidence_identifier evidenceId) (\<lambda>i.
           bindR (actor_identifier actor) (\<lambda>who.
           ensure (js_get input ''confirmation'' = JStr (''RELEASE HOLD '' @ i)) (Validation ''confirmation'')
          (bindR (ev_clean_text (js_get input ''reason'') ''reason'' 10 1000) (\<lambda>reason.
           Inr (tenant, i, who, reason))))))
      of Inl e \<Rightarrow> (st, Inl e)
       | Inr (tenant, i, who, reason) \<Rightarrow>
           ev_mutate H cfg env tenant i who ''evidence.legal_hold_released'' (release_hold_op H env who reason) st)"

definition disposed :: "ev_env \<Rightarrow> string \<Rightarrow> string \<Rightarrow> ev_item \<Rightarrow> ev_item" where
  "disposed env who reason item = item\<lparr>ei_status := ''disposed'', ei_disposedAt := Some (ee_now env),
     ei_disposedBy := Some who, ei_dispositionReason := Some reason, ei_purgePending := True\<rparr>"

text \<open>The removal of the versions' files, and whether all of them succeeded.\<close>

definition purge_versions :: "(nat \<Rightarrow> bool) \<Rightarrow> string \<Rightarrow> ev_version list \<Rightarrow> ev_store \<Rightarrow> ev_store" where
  "purge_versions removed i vs st = fold (\<lambda>v. remove_content (removed (vn_version v)) i (vn_version v)) vs st"

definition dispose_locked ::
  "(string \<Rightarrow> string) \<Rightarrow> ev_config \<Rightarrow> ev_env \<Rightarrow> string \<Rightarrow> string \<Rightarrow> string \<Rightarrow> string \<Rightarrow> ev_store \<Rightarrow> ev_store \<times> (ev_error + public_item)" where
  "dispose_locked H cfg env tenant i who reason st =
     (case bindR (load_index H tenant st) (\<lambda>ix.
           bindR (find_item ix i) (\<lambda>item.
           assert_active item
          (ensure (\<not> held item) (EvConflict ''hold'')
          (ensure (\<not> ei_retentionUntil item > ee_now env) (EvConflict ''retention'') (Inr (ix, item))))))
      of Inl e \<Rightarrow> (st, Inl e)
       | Inr (ix, item) \<Rightarrow>
          (let item1 = disposed env who reason item;
               ix1 = append_event H cfg env who ''evidence.disposition_committed'' i
                 [(''versionCount'', JInt (int (length (ei_versions item1)))), (''retentionUntil'', JInt (ei_retentionUntil item1))]
                 (put_item item1 ix)
           in case save_index (ee_indexWrite env) tenant ix1 st of
                (st1, False) \<Rightarrow> (st1, Inl RawFailure)
              | (st1, True) \<Rightarrow>
                 (let st2 = purge_versions (ee_purge env) i (ei_versions item1) st1 in
                  if list_all (\<lambda>v. ee_purge env (vn_version v)) (ei_versions item1) then
                    let item2 = item1\<lparr>ei_purgePending := False\<rparr>;
                        ix2 = append_event H cfg env who ''evidence.content_purged'' i
                          [(''versionCount'', JInt (int (length (ei_versions item2))))] (put_item item2 ix1)
                    in case save_index (ee_secondWrite env) tenant ix2 st2 of
                         (st3, True) \<Rightarrow> (st3, Inr (public_of item2))
                       | (st3, False) \<Rightarrow> (st3, Inl RawFailure)
                  else (st2, Inr (public_of item1)))))"

definition ev_dispose ::
  "(string \<Rightarrow> string) \<Rightarrow> ev_config \<Rightarrow> ev_env \<Rightarrow> jsval \<Rightarrow> jsval \<Rightarrow> jsval \<Rightarrow> jsval \<Rightarrow> string list \<Rightarrow> ev_store \<Rightarrow> ev_store \<times> (ev_error + public_item)" where
  "ev_dispose H cfg env tenantId evidenceId input actor referencedBy st =
     (case bindR (tenant_identifier tenantId) (\<lambda>tenant.
           bindR (evidence_identifier evidenceId) (\<lambda>i.
           bindR (actor_identifier actor) (\<lambda>who.
           ensure (js_get input ''confirmation'' = JStr (''DISPOSE '' @ i)) (Validation ''confirmation'')
          (bindR (ev_clean_text (js_get input ''reason'') ''reason'' 10 1000) (\<lambda>reason.
           ensure (referencedBy = []) (EvConflict ''referenced'') (Inr (tenant, i, who, reason)))))))
      of Inl e \<Rightarrow> (st, Inl e)
       | Inr (tenant, i, who, reason) \<Rightarrow> with_lock (ee_lock env) LockError (dispose_locked H cfg env tenant i who reason) st)"

subsection \<open>Queries\<close>

definition ev_list :: "(string \<Rightarrow> string) \<Rightarrow> jsval \<Rightarrow> jsval \<Rightarrow> bool option \<Rightarrow> jsval \<Rightarrow> ev_store \<Rightarrow> ev_error + public_item list" where
  "ev_list H tenantId status legalHold limit st =
     bindR (tenant_identifier tenantId) (\<lambda>tenant.
     bindR (load_index H tenant st) (\<lambda>ix.
     let items1 = (if truthy status then filter (\<lambda>i. JStr (ei_status i) = status) (ix_items ix) else ix_items ix);
         items2 = (case legalHold of None \<Rightarrow> items1 | Some b \<Rightarrow> filter (\<lambda>i. held i = b) items1)
     in bindR (ev_integer limit ''limit'' 1 5000) (\<lambda>n. Inr (map public_of (rev (last_n (nat n) items2))))))"

definition ev_get :: "(string \<Rightarrow> string) \<Rightarrow> jsval \<Rightarrow> jsval \<Rightarrow> ev_store \<Rightarrow> ev_error + public_item" where
  "ev_get H tenantId evidenceId st =
     bindR (tenant_identifier tenantId) (\<lambda>tenant.
     bindR (load_index H tenant st) (\<lambda>ix.
     bindR (evidence_identifier evidenceId) (\<lambda>i.
     bindR (find_item ix i) (\<lambda>item. Inr (public_of item)))))"

definition find_version :: "ev_item \<Rightarrow> nat \<Rightarrow> ev_version option" where
  "find_version item n = List.find (\<lambda>v. vn_version v = n) (ei_versions item)"

record ev_content =
  ct_evidenceId :: string
  ct_version :: nat
  ct_filename :: string
  ct_mediaType :: string
  ct_sha256 :: string
  ct_sizeBytes :: nat
  ct_content :: string

definition ev_read_content :: "(string \<Rightarrow> string) \<Rightarrow> jsval \<Rightarrow> jsval \<Rightarrow> jsval \<Rightarrow> ev_store \<Rightarrow> ev_error + ev_content" where
  "ev_read_content H tenantId evidenceId version st =
     bindR (tenant_identifier tenantId) (\<lambda>tenant.
     bindR (evidence_identifier evidenceId) (\<lambda>i.
     bindR (load_index H tenant st) (\<lambda>ix.
     bindR (find_item ix i) (\<lambda>item.
     assert_active item
    (bindR (if version = JNull then Inr (ei_currentVersion item)
            else bindR (ev_integer version ''version'' 1 (int (ei_currentVersion item))) (\<lambda>n. Inr (nat n))) (\<lambda>n.
     bindR (from_option (NotFound (i @ '':v'' @ dec n)) (find_version item n)) (\<lambda>v.
     bindR (decrypt_content H tenant st item v) (\<lambda>content.
     Inr \<lparr>ct_evidenceId = i, ct_version = n, ct_filename = vn_filename v, ct_mediaType = vn_mediaType v,
          ct_sha256 = vn_sha256 v, ct_sizeBytes = vn_sizeBytes v, ct_content = content\<rparr>))))))))"

definition usable_reference :: "(string \<Rightarrow> string) \<Rightarrow> string \<Rightarrow> ev_index \<Rightarrow> ev_store \<Rightarrow> string \<Rightarrow> ev_error + public_item" where
  "usable_reference H tenant ix st i =
     bindR (find_item ix i) (\<lambda>item.
     assert_active item
    (bindR (from_option (Integrity ''metadata'') (find_version item (ei_currentVersion item))) (\<lambda>v.
     bindR (decrypt_content H tenant st item v) (\<lambda>_. Inr (public_of item)))))"

definition assert_usable_references :: "(string \<Rightarrow> string) \<Rightarrow> jsval \<Rightarrow> jsval \<Rightarrow> ev_store \<Rightarrow> ev_error + public_item list" where
  "assert_usable_references H tenantId references st =
     ensure (is_array references) (Validation ''evidenceRefs'')
    (let all = string_list references in
     ensure (list_all (\<lambda>r. is_evidence_id r \<or> is_placeholder_id r) all) (Validation ''evidenceRefs'')
    (bindR (tenant_identifier tenantId) (\<lambda>tenant.
     bindR (load_index H tenant st) (\<lambda>ix.
     mapR (usable_reference H tenant ix st) (filter is_evidence_id all)))))"

record ev_verification =
  ev_checkedItems :: nat
  ev_checkedVersions :: nat
  ev_eventCount :: nat
  ev_headSequence :: nat
  ev_headHash :: "string option"
  ev_anchorSequence :: nat

definition ev_verify :: "(string \<Rightarrow> string) \<Rightarrow> jsval \<Rightarrow> jsval \<Rightarrow> ev_store \<Rightarrow> ev_error + ev_verification" where
  "ev_verify H tenantId evidenceId st =
     bindR (tenant_identifier tenantId) (\<lambda>tenant.
     bindR (load_index H tenant st) (\<lambda>ix.
     bindR (verify_chain H ix) (\<lambda>_.
     bindR (if truthy evidenceId then bindR (evidence_identifier evidenceId) (\<lambda>i. bindR (find_item ix i) (\<lambda>x. Inr [x]))
            else Inr (ix_items ix)) (\<lambda>items.
     bindR (mapR (\<lambda>(item, v). decrypt_content H tenant st item v)
         (concat (map (\<lambda>item. map (Pair item) (ei_versions item)) (filter (\<lambda>i. ei_status i = ''active'') items)))) (\<lambda>contents.
     Inr \<lparr>ev_checkedItems = length items, ev_checkedVersions = length contents, ev_eventCount = length (ix_events ix),
          ev_headSequence = ix_sequence ix, ev_headHash = ix_headHash ix, ev_anchorSequence = anchor_sequence ix\<rparr>)))))"

definition ev_events :: "(string \<Rightarrow> string) \<Rightarrow> jsval \<Rightarrow> jsval \<Rightarrow> jsval \<Rightarrow> ev_store \<Rightarrow> ev_error + ev_event list" where
  "ev_events H tenantId evidenceId limit st =
     bindR (tenant_identifier tenantId) (\<lambda>tenant.
     bindR (load_index H tenant st) (\<lambda>ix.
     bindR (if truthy evidenceId \<and> ix_events ix \<noteq> [] then
              bindR (evidence_identifier evidenceId) (\<lambda>i. Inr (filter (\<lambda>e. ce_evidenceId e = i) (ix_events ix)))
            else Inr (ix_events ix)) (\<lambda>rows.
     bindR (ev_integer limit ''limit'' 1 5000) (\<lambda>n. Inr (rev (last_n (nat n) rows))))))"

record ev_tenant_status =
  tn_status :: string
  tn_total :: nat
  tn_active :: nat
  tn_disposed :: nat
  tn_legalHolds :: nat
  tn_retentionDue :: nat
  tn_holdReviewsOverdue :: nat
  tn_purgePending :: nat

definition review_overdue :: "int \<Rightarrow> ev_item \<Rightarrow> bool" where
  "review_overdue current i = (case ei_legalHold i of None \<Rightarrow> False
     | Some h \<Rightarrow> lh_active h \<and> (case lh_reviewAt h of None \<Rightarrow> False | Some t \<Rightarrow> t \<le> current))"

definition ev_tenant_status :: "(string \<Rightarrow> string) \<Rightarrow> ev_env \<Rightarrow> jsval \<Rightarrow> ev_store \<Rightarrow> ev_error + ev_tenant_status" where
  "ev_tenant_status H env tenantId st =
     bindR (tenant_identifier tenantId) (\<lambda>tenant.
     bindR (load_index H tenant st) (\<lambda>ix.
     let active = filter (\<lambda>i. ei_status i = ''active'') (ix_items ix);
         late = length (filter (review_overdue (ee_now env)) active);
         pending = length (filter ei_purgePending (ix_items ix))
     in Inr \<lparr>tn_status = (if late \<noteq> 0 \<or> pending \<noteq> 0 then ''attention'' else ''ready''), tn_total = length (ix_items ix),
          tn_active = length active, tn_disposed = length (ix_items ix) - length active,
          tn_legalHolds = length (filter held active),
          tn_retentionDue = length (filter (\<lambda>i. ei_retentionUntil i \<le> ee_now env \<and> \<not> held i) active),
          tn_holdReviewsOverdue = late, tn_purgePending = pending\<rparr>))"

subsection \<open>The custody chain is a sequenced chain\<close>

definition custody_body :: "ev_event \<Rightarrow> string" where
  "custody_body e = json_stringify (custody_value e)"

definition custody_json :: "ev_event \<Rightarrow> bool" where
  "custody_json e = list_all (\<lambda>p. json_value (snd p)) (ce_metadata e)"

abbreviation custody_linked :: "(string \<Rightarrow> string) \<Rightarrow> string option \<Rightarrow> ev_event list \<Rightarrow> bool" where
  "custody_linked H \<equiv> linked ce_previousHash ce_hash (H \<circ> custody_body)"

lemma custody_value_eq:
  assumes "custody_json x" "custody_json y" "custody_body x = custody_body y"
  shows "x\<lparr>ce_hash := h\<rparr> = y\<lparr>ce_hash := h\<rparr>"
proof -
  have "json_value (custody_value x)" "json_value (custody_value y)"
    using assms(1,2) by (simp_all add: custody_json_def custody_value_def)
  then have "custody_value x = custody_value y"
    using assms(3) json_stringify_inj by (simp add: custody_body_def)
  then show ?thesis by (simp add: custody_value_def)
qed

interpretation custody: sequenced_chain ce_previousHash ce_hash custody_body custody_json "\<lambda>e. e" ce_sequence
proof unfold_locales
  fix x y assume A: "custody_json x" "custody_json y" "custody_body x = custody_body y"
  note eq = custody_value_eq [OF A]
  have "ce_previousHash (x\<lparr>ce_hash := []\<rparr>) = ce_previousHash (y\<lparr>ce_hash := []\<rparr>)"
    "ce_sequence (x\<lparr>ce_hash := []\<rparr>) = ce_sequence (y\<lparr>ce_hash := []\<rparr>)"
    using eq [of "[]"] by simp_all
  then show "ce_previousHash x = ce_previousHash y" "ce_sequence x = ce_sequence y" by simp_all
  assume "ce_hash x = ce_hash y"
  then show "x = y" using eq [of "ce_hash y"] by (cases x; cases y) simp
qed

lemma check_custody_iff:
  "check_custody H (Suc n) p es \<longleftrightarrow> custody_linked H p es \<and> numbered ce_sequence n es"
  by (induction es arbitrary: n p) (auto simp: custody_event_hash_def custody_body_def)

definition ix_chain :: "(string \<Rightarrow> string) \<Rightarrow> ev_index \<Rightarrow> bool" where
  "ix_chain H ix = (custody_linked H (anchor_hash ix) (ix_events ix)
     \<and> numbered ce_sequence (anchor_sequence ix) (ix_events ix)
     \<and> ix_sequence ix = anchor_sequence ix + length (ix_events ix)
     \<and> ix_headHash ix = head_hash ce_hash (anchor_hash ix) (ix_events ix))"

lemma verify_chain_iff [simp]: "verify_chain H ix = Inr () \<longleftrightarrow> ix_chain H ix"
  by (auto simp: verify_chain_def ix_chain_def check_custody_iff)

lemma trim_custody_chain:
  assumes "ix_chain H ix"
  shows "ix_chain H (trim_custody k t ix)"
proof (cases "length (ix_events ix) > k")
  case True
  let ?n = "length (ix_events ix) - k"
  have n: "0 < ?n" "?n \<le> length (ix_events ix)" using True by simp_all
  have "custody_linked H (Some (ce_hash (ix_events ix ! (?n - 1)))) (drop ?n (ix_events ix))"
    using assms n by (intro linked_trim) (auto simp: ix_chain_def)
  moreover have "numbered ce_sequence (anchor_sequence ix + ?n) (drop ?n (ix_events ix))"
    using assms n by (intro numbered_drop) (auto simp: ix_chain_def)
  moreover have "ce_sequence (ix_events ix ! (?n - 1)) = anchor_sequence ix + ?n"
  proof -
    have "?n - 1 < length (ix_events ix)" "Suc (anchor_sequence ix + (?n - 1)) = anchor_sequence ix + ?n"
      using n by simp_all
    then show ?thesis
      using numbered_nth [of ce_sequence "anchor_sequence ix" "ix_events ix" "?n - 1"] assms
      unfolding ix_chain_def by metis
  qed
  moreover have "head_hash ce_hash (anchor_hash ix) (ix_events ix)
      = head_hash ce_hash (Some (ce_hash (ix_events ix ! (?n - 1)))) (drop ?n (ix_events ix))"
  proof -
    have "ix_events ix \<noteq> []" using n by auto
    then have "head_hash ce_hash (anchor_hash ix) (take ?n (ix_events ix)) = Some (ce_hash (ix_events ix ! (?n - 1)))"
      using n by (simp add: head_hash_def last_conv_nth)
    then show ?thesis
      using head_hash_append [of ce_hash "anchor_hash ix" "take ?n (ix_events ix)" "drop ?n (ix_events ix)"] by simp
  qed
  ultimately show ?thesis
    using assms True n by (simp add: trim_custody_def Let_def ix_chain_def anchor_hash_def anchor_sequence_def)
qed (use assms in \<open>simp add: trim_custody_def\<close>)

lemma trim_custody_simps [simp]:
  "ix_items (trim_custody k t ix) = ix_items ix" "ix_tenantId (trim_custody k t ix) = ix_tenantId ix"
  by (simp_all add: trim_custody_def Let_def)

lemma append_event_simps [simp]:
  "ix_items (append_event H cfg env a act i m ix) = ix_items ix"
  "ix_tenantId (append_event H cfg env a act i m ix) = ix_tenantId ix"
  by (simp_all add: append_event_def Let_def)

lemma append_event_chain:
  assumes "ix_chain H ix"
  shows "ix_chain H (append_event H cfg env a act i m ix)"
proof -
  let ?e = "custody_event H env a act i m ix"
  have "ce_sequence ?e = Suc (ix_sequence ix)" "ce_previousHash ?e = ix_headHash ix"
    "ce_hash ?e = (H \<circ> custody_body) ?e"
    by (simp_all add: custody_event_def Let_def custody_event_hash_def custody_body_def custody_value_def)
  then have "ix_chain H (ix\<lparr>ix_createdAt := c, ix_events := ix_events ix @ [?e], ix_sequence := ce_sequence ?e,
      ix_headHash := Some (ce_hash ?e), ix_updatedAt := u\<rparr>)" for c u
    using assms by (auto simp: ix_chain_def anchor_hash_def anchor_sequence_def)
  then show ?thesis unfolding append_event_def Let_def by (rule trim_custody_chain)
qed

lemma ix_chain_items [simp]:
  "ix_chain H (ix\<lparr>ix_items := xs\<rparr>) = ix_chain H ix" "ix_chain H (put_item i ix) = ix_chain H ix"
  by (simp_all add: ix_chain_def anchor_hash_def anchor_sequence_def put_item_def)

lemma empty_index_chain [simp]: "ix_chain H (empty_index tenant)"
  by (simp add: ix_chain_def empty_index_def anchor_hash_def anchor_sequence_def)

lemma load_index_chain: "load_index H tenant st = Inr ix \<Longrightarrow> ix_chain H ix \<and> ix_tenantId ix = tenant"
  by (auto simp: load_index_def empty_index_def split: option.splits)
    (use empty_index_chain in \<open>simp add: empty_index_def\<close>)

lemma load_saved:
  "es_index st = Some (Envelope (index_aad tenant) ix) \<Longrightarrow> ix_chain H ix \<Longrightarrow> ix_tenantId ix = tenant \<Longrightarrow>
     load_index H tenant st = Inr ix"
  by (simp add: load_index_def decrypt_envelope_def)

subsection \<open>Items of an index\<close>

definition lookup :: "ev_index \<Rightarrow> string \<Rightarrow> ev_item option" where
  "lookup ix i = List.find (\<lambda>x. ei_evidenceId x = i) (ix_items ix)"

lemma find_item_lookup: "find_item ix i = Inr x \<longleftrightarrow> lookup ix i = Some x"
  by (simp add: find_item_def lookup_def)

lemma lookup_id: "lookup ix i = Some x \<Longrightarrow> ei_evidenceId x = i \<and> x \<in> set (ix_items ix)"
  by (auto simp: lookup_def find_Some_iff)

lemma find_replace: "List.find (\<lambda>x. ei_evidenceId x = i) (replace_item j xs) =
    (if i = ei_evidenceId j \<and> List.find (\<lambda>x. ei_evidenceId x = i) xs \<noteq> None then Some j
     else List.find (\<lambda>x. ei_evidenceId x = i) xs)"
  by (induction xs) auto

lemma lookup_put: "lookup (put_item j ix) i = (if i = ei_evidenceId j \<and> lookup ix i \<noteq> None then Some j else lookup ix i)"
  by (auto simp: lookup_def put_item_def find_replace)

lemma find_append: "List.find P (xs @ ys) = (case List.find P xs of None \<Rightarrow> List.find P ys | Some x \<Rightarrow> Some x)"
  by (induction xs) auto

lemma lookup_event [simp]: "lookup (append_event H cfg env a act i m ix) k = lookup ix k"
  by (simp add: lookup_def)

lemma ids_replace [simp]: "map ei_evidenceId (replace_item j xs) = map ei_evidenceId xs"
  by (induction xs) auto

lemma set_replace: "x \<in> set (replace_item j xs) \<Longrightarrow> x = j \<or> x \<in> set xs"
  by (induction xs) (auto split: if_splits)

text \<open>
  A stored item: its versions are numbered from 1 to the current one; it is active and has
  nothing to purge, or was disposed without a hold and not before its retention date.
\<close>

definition item_ok :: "ev_item \<Rightarrow> bool" where
  "item_ok i = (map vn_version (ei_versions i) = [1..<Suc (ei_currentVersion i)] \<and> 1 \<le> ei_currentVersion i
     \<and> (ei_status i = ''active'' \<and> \<not> ei_purgePending i
        \<or> ei_status i = ''disposed'' \<and> \<not> held i \<and> (\<exists>t. ei_disposedAt i = Some t \<and> ei_retentionUntil i \<le> t)))"

definition items_ok :: "ev_item list \<Rightarrow> bool" where
  "items_ok xs = (distinct (map ei_evidenceId xs) \<and> list_all item_ok xs)"

lemma items_ok_replace: "items_ok xs \<Longrightarrow> item_ok j \<Longrightarrow> items_ok (replace_item j xs)"
  by (auto simp: items_ok_def list_all_iff dest: set_replace)

lemma items_ok_lookup: "items_ok (ix_items ix) \<Longrightarrow> lookup ix i = Some x \<Longrightarrow> item_ok x"
  by (auto simp: items_ok_def list_all_iff dest: lookup_id)

lemma find_distinct:
  "distinct (map f xs) \<Longrightarrow> List.find (\<lambda>x. f x = i) xs = Some x \<longleftrightarrow> x \<in> set xs \<and> f x = i"
  by (induction xs) auto

lemma lookup_iff:
  "items_ok (ix_items ix) \<Longrightarrow> lookup ix i = Some x \<longleftrightarrow> x \<in> set (ix_items ix) \<and> ei_evidenceId x = i"
  unfolding lookup_def items_ok_def by (simp add: find_distinct)

subsection \<open>What a successful or failed command does to the files\<close>

text \<open>Nothing was committed; or the new index is in place (and the new content, unless torn).\<close>

definition same_index :: "ev_store \<Rightarrow> ev_store \<Rightarrow> string \<times> nat \<Rightarrow> bool" where
  "same_index st st' k = (es_index st' = es_index st \<and> (\<forall>k'. k' \<noteq> k \<longrightarrow> es_content st' k' = es_content st k'))"

definition new_index :: "string \<Rightarrow> ev_index \<Rightarrow> ev_store \<Rightarrow> ev_store \<Rightarrow> string \<times> nat \<Rightarrow> bool" where
  "new_index tenant ix st st' k = (es_index st' = Some (Envelope (index_aad tenant) ix)
     \<and> (\<forall>k'. k' \<noteq> k \<longrightarrow> es_content st' k' = es_content st k'))"

text \<open>A commit is torn when the index is replaced, its write throws, and the content is then removed.\<close>

definition torn :: "ev_env \<Rightarrow> bool" where
  "torn env = (ee_contentWrite env = Committed \<and> ee_indexWrite env = Unsynced \<and> ee_cleanup env)"

lemma commit_content_cases:
  assumes "commit_content env opn tenant i n upload ix item st = (st', res)"
  shows "(\<exists>e. res = Inl e) \<and> same_index st st' (i, n)
    \<or> new_index tenant ix st st' (i, n) \<and> (\<not> torn env \<longrightarrow>
        es_content st' (i, n) = Some (Envelope (content_aad tenant i n) (content_payload tenant i n upload)))"
  using assms
  by (cases "ee_contentWrite env"; cases "ee_indexWrite env")
    (auto simp: commit_content_def write_content_def save_index_def remove_content_def same_index_def
      new_index_def torn_def split: if_splits)

lemma commit_content_Inr:
  assumes "commit_content env opn tenant i n upload ix item st = (st', Inr p)"
  shows "p = public_of item \<and> new_index tenant ix st st' (i, n)
    \<and> es_content st' (i, n) = Some (Envelope (content_aad tenant i n) (content_payload tenant i n upload))"
  using assms
  by (cases "ee_contentWrite env"; cases "ee_indexWrite env")
    (auto simp: commit_content_def write_content_def save_index_def remove_content_def new_index_def)

lemma strict_base64_encode: "strict_base64 (JStr (b64_encode bs)) = (if bs = [] then None else Some bs)"
proof -
  have alpha: "n < 64 \<Longrightarrow> is_alnum (sextet_char n) \<or> sextet_char n \<in> set ''+/''" for n
  proof -
    assume "n < 64"
    then have "(of_char (sextet_char n) :: nat) = (if n < 26 then 65 + n else if n < 52 then 71 + n
       else if n < 62 then n - 4 else if n = 62 then 43 else 47)"
      by (simp add: sextet_char_def)
    moreover have "char_of (43 :: nat) = CHR ''+''" "char_of (47 :: nat) = CHR ''/''" by code_simp+
    ultimately show ?thesis
      using \<open>n < 64\<close> by (cases "n < 62") (auto simp: is_alnum_def Let_def sextet_char_def split: if_splits)
  qed
  have shape: "b64_shape (b64_encode bs) \<and> length (b64_encode bs) mod 4 = 0"
  proof (induction bs rule: b64_encode.induct)
    case 1
    show ?case by (simp add: b64_shape_def)
  next
    case (2 a)
    then show ?case using alpha div4_less [of a]
      by (simp add: b64_shape_def Let_def)
  next
    case (3 a b)
    have "(of_char a :: nat) mod 4 * 16 + of_char b div 16 < 64" "(of_char b :: nat) mod 16 * 4 < 64"
      using glue(1) [OF div16_less [of b], of "of_char a" 4] mod_less_divisor [of 16 "of_char b :: nat"] by linarith+
    then show ?case using alpha div4_less [of a] by (simp add: b64_shape_def Let_def)
  next
    case (4 a b c r)
    have "(of_char a :: nat) mod 4 * 16 + of_char b div 16 < 64"
      "(of_char b :: nat) mod 16 * 4 + of_char c div 64 < 64" "(of_char c :: nat) mod 64 < 64"
      using glue(1) [OF div16_less [of b], of "of_char a" 4] glue(1) [OF div64_less [of c], of "of_char b" 16] by auto
    then show ?case using 4 alpha div4_less [of a] by (simp add: b64_shape_def Let_def)
  qed
  have ne: "b64_encode bs = [] \<longleftrightarrow> bs = []" by (cases bs rule: b64_encode.cases) (simp_all add: Let_def)
  show ?thesis using shape ne by (simp add: strict_base64_def ev_text_def)
qed

lemma strict_base64_Some: "strict_base64 v = Some bs \<Longrightarrow> ev_text v = b64_encode bs \<and> bs \<noteq> []"
  by (auto simp: strict_base64_def Let_def split: if_splits)

lemma decrypt_written:
  assumes "es_content st (i, n) = Some (Envelope (content_aad tenant i n) (content_payload tenant i n upload))"
    and "up_content upload \<noteq> []" and "up_sha256 upload = H (up_content upload)"
    and "vn_version v = n" and "vn_sha256 v = up_sha256 upload" and "vn_sizeBytes v = length (up_content upload)"
    and "ei_evidenceId item = i"
  shows "decrypt_content H tenant st item v = Inr (up_content upload)"
  using assms by (simp add: decrypt_content_def decrypt_envelope_def content_payload_def strict_base64_encode Let_def)

lemma decrypt_cong:
  "es_content st' (ei_evidenceId item', vn_version v) = es_content st (ei_evidenceId item, vn_version v) \<Longrightarrow>
     ei_evidenceId item' = ei_evidenceId item \<Longrightarrow>
     decrypt_content H tenant st' item' v = decrypt_content H tenant st item v"
  by (simp add: decrypt_content_def)

subsection \<open>Commands and the abstract steps they implement\<close>

datatype ev_command =
    Ingest jsval
  | AddVersion jsval jsval
  | PlaceHold jsval jsval
  | ReleaseHold jsval jsval
  | Dispose jsval jsval "string list"

fun run_ev ::
  "(string \<Rightarrow> string) \<Rightarrow> (string \<Rightarrow> int option) \<Rightarrow> ev_config \<Rightarrow> ev_env \<Rightarrow> ev_command \<Rightarrow> jsval \<Rightarrow> jsval \<Rightarrow> ev_store \<Rightarrow> ev_store \<times> (ev_error + public_item)" where
  "run_ev H dp cfg env (Ingest input) tenantId actor st = ev_ingest H dp cfg env tenantId input actor st"
| "run_ev H dp cfg env (AddVersion eid input) tenantId actor st = ev_add_version H dp cfg env tenantId eid input actor st"
| "run_ev H dp cfg env (PlaceHold eid input) tenantId actor st = ev_place_hold H dp cfg env tenantId eid input actor st"
| "run_ev H dp cfg env (ReleaseHold eid input) tenantId actor st = ev_release_hold H cfg env tenantId eid input actor st"
| "run_ev H dp cfg env (Dispose eid input refs) tenantId actor st = ev_dispose H cfg env tenantId eid input actor refs st"

definition stored_keys :: "ev_index \<Rightarrow> (string \<times> nat) set" where
  "stored_keys ix = {(ei_evidenceId i, vn_version v) | i v. i \<in> set (ix_items ix) \<and> v \<in> set (ei_versions i)}"

text \<open>How one command may change one item.\<close>

inductive item_step :: "ev_env \<Rightarrow> ev_command \<Rightarrow> string \<Rightarrow> ev_item \<Rightarrow> ev_item \<Rightarrow> bool" for env where
  st_version: "\<not> shortens_held input upload i \<Longrightarrow>
     (truthy (js_get input ''retentionUntil'') \<Longrightarrow> \<exists>r. up_retentionUntil upload = Some r) \<Longrightarrow>
     vn_version v = ei_currentVersion i + 1 \<Longrightarrow>
     item_step env (AddVersion eid input) who i (next_version input upload v i)"
| st_place: "\<not> held i \<Longrightarrow> lh_active h \<Longrightarrow> item_step env (PlaceHold eid input) who i (i\<lparr>ei_legalHold := Some h\<rparr>)"
| st_release: "held i \<Longrightarrow> \<not> lh_active h \<Longrightarrow> item_step env (ReleaseHold eid input) who i (i\<lparr>ei_legalHold := Some h\<rparr>)"
| st_dispose: "\<not> held i \<Longrightarrow> ei_retentionUntil i \<le> ee_now env \<Longrightarrow>
     js_get input ''confirmation'' = JStr (''DISPOSE '' @ ei_evidenceId i) \<Longrightarrow>
     item_step env (Dispose eid input []) who i ((disposed env who reason i)\<lparr>ei_purgePending := b\<rparr>)"

inductive_cases item_step_versionE: "item_step env (AddVersion eid input) who i j"
inductive_cases item_step_placeE: "item_step env (PlaceHold eid input) who i j"
inductive_cases item_step_releaseE: "item_step env (ReleaseHold eid input) who i j"
inductive_cases item_step_disposeE: "item_step env (Dispose eid input refs) who i j"

text \<open>
  The steps of a tenant's store: nothing but an unreferenced content file changes; an item is
  added with its content; or one active item takes a step, and only its own content files
  change (by an added version, or by the purge after a disposal).
\<close>

inductive ev_step ::
  "(string \<Rightarrow> string) \<Rightarrow> ev_env \<Rightarrow> string \<Rightarrow> ev_command \<Rightarrow> ev_store \<Rightarrow> ev_store \<Rightarrow> bool" for H env tenant where
  ev_none: "es_index st' = es_index st \<Longrightarrow> (\<And>k'. k' \<noteq> k \<Longrightarrow> es_content st' k' = es_content st k') \<Longrightarrow>
     (\<And>ix. load_index H tenant st = Inr ix \<Longrightarrow> k \<notin> stored_keys ix) \<Longrightarrow> ev_step H env tenant cmd st st'"
| ev_new: "load_index H tenant st = Inr ix \<Longrightarrow> new_index tenant ix' st st' (eid, 1) \<Longrightarrow> ix_chain H ix' \<Longrightarrow>
     ix_tenantId ix' = tenant \<Longrightarrow> ix_items ix' = ix_items ix @ [item] \<Longrightarrow> ei_evidenceId item = eid \<Longrightarrow>
     eid = ''EVD-'' @ ee_uuid env \<Longrightarrow> item_ok item \<Longrightarrow> ei_status item = ''active'' \<Longrightarrow>
     (\<not> torn env \<Longrightarrow> \<exists>v. ei_versions item = [v] \<and> vn_version v = 1 \<and> ok (decrypt_content H tenant st' item v)) \<Longrightarrow>
     ev_step H env tenant (Ingest input) st st'"
| ev_version: "load_index H tenant st = Inr ix \<Longrightarrow> lookup ix eid = Some i \<Longrightarrow> ei_status i = ''active'' \<Longrightarrow>
     item_step env (AddVersion rid input) who i j \<Longrightarrow> new_index tenant ix' st st' (eid, ei_currentVersion j) \<Longrightarrow>
     ix_chain H ix' \<Longrightarrow> ix_tenantId ix' = tenant \<Longrightarrow> ix_items ix' = replace_item j (ix_items ix) \<Longrightarrow>
     (\<not> torn env \<Longrightarrow> ok (decrypt_content H tenant st' j (last (ei_versions j)))) \<Longrightarrow>
     ev_step H env tenant (AddVersion rid input) st st'"
| ev_hold: "load_index H tenant st = Inr ix \<Longrightarrow> lookup ix eid = Some i \<Longrightarrow> ei_status i = ''active'' \<Longrightarrow>
     item_step env cmd who i j \<Longrightarrow> cmd = PlaceHold rid input \<or> cmd = ReleaseHold rid input \<Longrightarrow>
     es_index st' = Some (Envelope (index_aad tenant) ix') \<Longrightarrow> es_content st' = es_content st \<Longrightarrow>
     ix_chain H ix' \<Longrightarrow> ix_tenantId ix' = tenant \<Longrightarrow> ix_items ix' = replace_item j (ix_items ix) \<Longrightarrow>
     ev_step H env tenant cmd st st'"
| ev_gone: "load_index H tenant st = Inr ix \<Longrightarrow> lookup ix eid = Some i \<Longrightarrow> ei_status i = ''active'' \<Longrightarrow>
     item_step env (Dispose rid input refs) who i j \<Longrightarrow>
     es_index st' = Some (Envelope (index_aad tenant) ix') \<Longrightarrow>
     (\<And>k. fst k \<noteq> eid \<Longrightarrow> es_content st' k = es_content st k) \<Longrightarrow>
     ix_chain H ix' \<Longrightarrow> ix_tenantId ix' = tenant \<Longrightarrow> ix_items ix' = replace_item j (ix_items ix) \<Longrightarrow>
     ev_step H env tenant (Dispose rid input refs) st st'"

lemma normalise_upload_Inr:
  assumes "normalise_upload H dp cfg now opt input = Inr u"
  shows "up_content u \<noteq> []" "up_sha256 u = H (up_content u)" "length (up_content u) \<le> ec_maxBytes cfg"
    and "strict_base64 (js_get input ''contentBase64'') = Some (up_content u)"
    and "\<not> opt \<or> truthy (js_get input ''retentionUntil'') \<Longrightarrow> \<exists>r. up_retentionUntil u = Some r \<and> now < r"
  using assms by (auto simp: normalise_upload_def upload_retention_def split: if_splits)

lemma create_version_simps [simp]:
  "vn_version (create_version n u a t k) = n" "vn_sha256 (create_version n u a t k) = up_sha256 u"
  "vn_sizeBytes (create_version n u a t k) = length (up_content u)" "vn_createdAt (create_version n u a t k) = t"
  by (simp_all add: create_version_def)

lemma new_item_simps [simp]:
  "ei_evidenceId (new_item t i u v a) = i" "ei_versions (new_item t i u v a) = [v]" "ei_status (new_item t i u v a) = ''active''"
  "ei_currentVersion (new_item t i u v a) = 1"
  by (simp_all add: new_item_def)

lemma new_item_ok: "vn_version v = 1 \<Longrightarrow> item_ok (new_item t i u v a)"
  by (simp add: item_ok_def new_item_def)

lemma next_version_simps [simp]:
  "ei_evidenceId (next_version inp u v i) = ei_evidenceId i" "ei_versions (next_version inp u v i) = ei_versions i @ [v]"
  "ei_status (next_version inp u v i) = ei_status i" "ei_legalHold (next_version inp u v i) = ei_legalHold i"
  "ei_currentVersion (next_version inp u v i) = vn_version v" "held (next_version inp u v i) = held i"
  "ei_purgePending (next_version inp u v i) = ei_purgePending i"
  by (simp_all add: next_version_def held_def)

lemma key_unused:
  "items_ok (ix_items ix) \<Longrightarrow> lookup ix i = Some item \<Longrightarrow> ei_currentVersion item < n \<Longrightarrow> (i, n) \<notin> stored_keys ix"
proof
  assume A: "items_ok (ix_items ix)" "lookup ix i = Some item" "ei_currentVersion item < n" "(i, n) \<in> stored_keys ix"
  then obtain x v where x: "x \<in> set (ix_items ix)" "ei_evidenceId x = i" "v \<in> set (ei_versions x)" "vn_version v = n"
    by (auto simp: stored_keys_def)
  then have "lookup ix i = Some x" using lookup_iff [OF A(1), of i x] by blast
  then have "x = item" using A(2) by simp
  then have "n \<in> set (map vn_version (ei_versions item))" using x by auto
  moreover have "map vn_version (ei_versions item) = [1..<Suc (ei_currentVersion item)]"
    using items_ok_lookup [OF A(1,2)] by (simp only: item_ok_def)
  ultimately have "n \<in> set [1..<Suc (ei_currentVersion item)]" by simp
  then show False using A(3) by auto
qed

lemma step_unchanged: "ev_step H env tenant cmd st st"
proof -
  have "infinite (UNIV :: (string \<times> nat) set)" by (simp add: finite_prod)
  show ?thesis
  proof (cases "load_index H tenant st")
    case (Inr ix)
    have "finite (stored_keys ix)"
    proof -
      have "stored_keys ix = (\<Union>i \<in> set (ix_items ix). (\<lambda>v. (ei_evidenceId i, vn_version v)) ` set (ei_versions i))"
        by (auto simp: stored_keys_def)
      then show ?thesis by simp
    qed
    then obtain k where "k \<notin> stored_keys ix"
      using \<open>infinite UNIV\<close> by (meson ex_new_if_finite)
    with Inr show ?thesis by (intro ev_none [where k = k]) auto
  qed (auto intro: ev_none)
qed

subsection \<open>Every command implements a step\<close>

text \<open>The identifier drawn by an upload is fresh in the tenant's index.\<close>

definition fresh_for :: "(string \<Rightarrow> string) \<Rightarrow> ev_env \<Rightarrow> string \<Rightarrow> ev_command \<Rightarrow> ev_store \<Rightarrow> bool" where
  "fresh_for H env tenant cmd st = (case cmd of
     Ingest _ \<Rightarrow> (case load_index H tenant st of Inl _ \<Rightarrow> True
       | Inr ix \<Rightarrow> ''EVD-'' @ ee_uuid env \<notin> ei_evidenceId ` set (ix_items ix))
   | _ \<Rightarrow> True)"

definition well_stored :: "(string \<Rightarrow> string) \<Rightarrow> string \<Rightarrow> ev_store \<Rightarrow> bool" where
  "well_stored H tenant st = (case load_index H tenant st of Inl _ \<Rightarrow> True | Inr ix \<Rightarrow> items_ok (ix_items ix))"

lemma with_lock_step:
  "(ev_step H env tenant cmd st (fst (f st))) \<Longrightarrow> ev_step H env tenant cmd st (fst (with_lock l e f st))"
  by (simp add: with_lock_state step_unchanged)

lemma ingest_step:
  assumes "normalise_upload H dp cfg (ee_now env) False input = Inr upload"
    and "fresh_for H env tenant (Ingest input) st"
  shows "ev_step H env tenant (Ingest input) st (fst (ingest_locked H cfg env tenant who upload st))"
proof (cases "load_index H tenant st")
  case (Inl e)
  then show ?thesis by (simp add: ingest_locked_def step_unchanged)
next
  case (Inr ix)
  let ?eid = "''EVD-'' @ ee_uuid env" and ?v = "create_version 1 upload who (ee_now env) (ec_keyId cfg)"
  define item where "item = new_item tenant ?eid upload ?v who"
  define ix' where "ix' = append_event H cfg env who ''evidence.ingested'' ?eid
     [(''version'', JInt 1), (''sha256'', JStr (vn_sha256 ?v)), (''sizeBytes'', JInt (int (vn_sizeBytes ?v))),
      (''retentionUntil'', JInt (ei_retentionUntil item)), (''sourceType'', JStr (ei_sourceType item))]
     (ix\<lparr>ix_items := ix_items ix @ [item]\<rparr>)"
  have ix': "ix_chain H ix'" "ix_tenantId ix' = tenant" "ix_items ix' = ix_items ix @ [item]"
    using load_index_chain [OF Inr] by (simp_all add: ix'_def append_event_chain)
  obtain st' res where c: "commit_content env ''ingest'' tenant ?eid 1 upload ix' item st = (st', res)" by fastforce
  have st': "fst (ingest_locked H cfg env tenant who upload st) = st'"
    using Inr c by (simp add: ingest_locked_def Let_def item_def ix'_def)
  from commit_content_cases [OF c] show ?thesis
  proof
    assume "(\<exists>e. res = Inl e) \<and> same_index st st' (?eid, 1)"
    moreover have "(?eid, 1) \<notin> stored_keys ix"
      using assms(2) Inr by (auto simp: fresh_for_def stored_keys_def)
    ultimately show ?thesis unfolding st' using Inr by (intro ev_none [where k = "(?eid, 1)"]) (auto simp: same_index_def)
  next
    assume A: "new_index tenant ix' st st' (?eid, 1) \<and> (\<not> torn env \<longrightarrow> es_content st' (?eid, 1)
       = Some (Envelope (content_aad tenant ?eid 1) (content_payload tenant ?eid 1 upload)))"
    show ?thesis unfolding st'
    proof (rule ev_new [OF Inr _ ix' _ refl])
      show "new_index tenant ix' st st' (?eid, 1)" using A by blast
      show "item_ok item" "ei_evidenceId item = ?eid" "ei_status item = ''active''" by (simp_all add: item_def new_item_ok)
      assume "\<not> torn env"
      then have "decrypt_content H tenant st' item ?v = Inr (up_content upload)"
        using A normalise_upload_Inr(1,2) [OF assms(1)] by (intro decrypt_written) (auto simp: item_def)
      then show "\<exists>v. ei_versions item = [v] \<and> vn_version v = 1 \<and> ok (decrypt_content H tenant st' item v)"
        by (simp add: item_def)
    qed
  qed
qed

lemma add_version_step:
  assumes "normalise_upload H dp cfg (ee_now env) True input = Inr upload" and "well_stored H tenant st"
  shows "ev_step H env tenant (AddVersion rid input) st (fst (add_version_locked H cfg env tenant i who input upload st))"
proof (cases "bindR (load_index H tenant st) (\<lambda>ix. bindR (find_item ix i) (\<lambda>item.
    assert_active item (ensure (\<not> shortens_held input upload item) (EvConflict ''hold'') (Inr (ix, item)))))")
  case (Inl e)
  then show ?thesis by (simp add: add_version_locked_def step_unchanged)
next
  case (Inr r)
  then obtain ix item where r: "r = (ix, item)" and ld: "load_index H tenant st = Inr ix" and lk: "lookup ix i = Some item"
    and active: "ei_status item = ''active''" and sh: "\<not> shortens_held input upload item"
    by (auto simp: find_item_lookup assert_active_def)
  let ?n = "ei_currentVersion item + 1"
  let ?v = "create_version ?n upload who (ee_now env) (ec_keyId cfg)"
  define item' where "item' = next_version input upload ?v item"
  define ix' where "ix' = append_event H cfg env who ''evidence.version_added'' i
     [(''version'', JInt (int ?n)), (''sha256'', JStr (vn_sha256 ?v)), (''sizeBytes'', JInt (int (vn_sizeBytes ?v)))]
     (put_item item' ix)"
  have ix': "ix_chain H ix'" "ix_tenantId ix' = tenant" "ix_items ix' = replace_item item' (ix_items ix)"
    using load_index_chain [OF ld] by (simp_all add: ix'_def append_event_chain) (simp_all add: put_item_def)
  have ids: "ei_evidenceId item = i" using lookup_id [OF lk] by simp
  obtain st' res where c: "commit_content env ''add_version'' tenant i ?n upload ix' item' st = (st', res)" by fastforce
  have st': "fst (add_version_locked H cfg env tenant i who input upload st) = st'"
    using c unfolding add_version_locked_def Inr r by (simp add: Let_def item'_def ix'_def)
  have cur: "ei_currentVersion item' = ?n" by (simp add: item'_def)
  from commit_content_cases [OF c] show ?thesis
  proof
    assume "(\<exists>e. res = Inl e) \<and> same_index st st' (i, ?n)"
    moreover have "(i, ?n) \<notin> stored_keys ix"
      using assms(2) ld lk by (intro key_unused) (auto simp: well_stored_def)
    ultimately show ?thesis unfolding st' using ld by (intro ev_none [where k = "(i, ?n)"]) (auto simp: same_index_def)
  next
    assume A: "new_index tenant ix' st st' (i, ?n) \<and> (\<not> torn env \<longrightarrow> es_content st' (i, ?n)
       = Some (Envelope (content_aad tenant i ?n) (content_payload tenant i ?n upload)))"
    show ?thesis unfolding st'
    proof (rule ev_version [OF ld lk active _ _ ix'])
      show "item_step env (AddVersion rid input) who item item'"
        unfolding item'_def using sh normalise_upload_Inr(5) [OF assms(1)] by (intro st_version) auto
      show "new_index tenant ix' st st' (i, ei_currentVersion item')" using A cur by simp
      assume "\<not> torn env"
      then have "decrypt_content H tenant st' item' ?v = Inr (up_content upload)"
        using A normalise_upload_Inr(1,2) [OF assms(1)] ids by (intro decrypt_written) (auto simp: item'_def)
      then show "ok (decrypt_content H tenant st' item' (last (ei_versions item')))" by (simp add: item'_def)
    qed
  qed
qed

lemma ev_mutate_step:
  assumes "\<And>item item' m. operation item = Inr (item', m) \<Longrightarrow>
      ei_status item = ''active'' \<and> item_step env cmd who item item' \<and> ei_evidenceId item' = ei_evidenceId item"
    and "cmd = PlaceHold rid input \<or> cmd = ReleaseHold rid input"
  shows "ev_step H env tenant cmd st (fst (ev_mutate H cfg env tenant i who action operation st))"
  unfolding ev_mutate_def
proof (rule with_lock_step)
  let ?g = "bindR (load_index H tenant st) (\<lambda>ix. bindR (find_item ix i) (\<lambda>item.
      bindR (operation item) (\<lambda>(item', metadata). Inr (ix, item', metadata))))"
  show "ev_step H env tenant cmd st (fst (case ?g of Inl e \<Rightarrow> (st, Inl e)
      | Inr (ix, item', metadata) \<Rightarrow>
         (case save_index (ee_indexWrite env) tenant (append_event H cfg env who action i metadata (put_item item' ix)) st of
            (st', True) \<Rightarrow> (st', Inr (public_of item')) | (st', False) \<Rightarrow> (st', Inl RawFailure))))"
  proof (cases ?g)
    case (Inl e)
    then show ?thesis by (simp add: step_unchanged)
  next
    case (Inr r)
    then obtain ix item item' m where r: "r = (ix, item', m)" and ld: "load_index H tenant st = Inr ix"
      and lk: "lookup ix i = Some item" and op: "operation item = Inr (item', m)"
      by (auto simp: find_item_lookup split: prod.splits)
    let ?ix = "append_event H cfg env who action i m (put_item item' ix)"
    note a = assms(1) [OF op]
    have ix': "ix_chain H ?ix" "ix_tenantId ?ix = tenant" "ix_items ?ix = replace_item item' (ix_items ix)"
      using load_index_chain [OF ld] by (simp_all add: append_event_chain) (simp_all add: put_item_def)
    have "ev_step H env tenant cmd st (st\<lparr>es_index := Some (Envelope (index_aad tenant) ?ix)\<rparr>)"
      by (rule ev_hold [OF ld lk _ _ assms(2) _ _ ix', of _ who]) (use a in simp_all)
    then show ?thesis
      unfolding Inr r by (cases "ee_indexWrite env") (simp_all add: save_index_def step_unchanged)
  qed
qed

lemma purge_other: "fst k \<noteq> i \<Longrightarrow> es_content (purge_versions rm i vs st) k = es_content st k"
  unfolding purge_versions_def
  by (induction vs arbitrary: st) (auto simp: remove_content_def)

lemma purge_index [simp]: "es_index (purge_versions rm i vs st) = es_index st"
  unfolding purge_versions_def
  by (induction vs arbitrary: st) (auto simp: remove_content_def)

lemma dispose_step:
  assumes "js_get input ''confirmation'' = JStr (''DISPOSE '' @ i)"
  shows "ev_step H env tenant (Dispose rid input []) st (fst (dispose_locked H cfg env tenant i who reason st))"
proof (cases "bindR (load_index H tenant st) (\<lambda>ix. bindR (find_item ix i) (\<lambda>item. assert_active item
    (ensure (\<not> held item) (EvConflict ''hold'')
    (ensure (\<not> ei_retentionUntil item > ee_now env) (EvConflict ''retention'') (Inr (ix, item))))))")
  case (Inl e)
  then show ?thesis by (simp add: dispose_locked_def step_unchanged)
next
  case (Inr r)
  then obtain ix item where r: "r = (ix, item)" and ld: "load_index H tenant st = Inr ix" and lk: "lookup ix i = Some item"
    and active: "ei_status item = ''active''" and g: "\<not> held item" "ei_retentionUntil item \<le> ee_now env"
    by (auto simp: find_item_lookup assert_active_def)
  define item1 where "item1 = disposed env who reason item"
  define ix1 where "ix1 = append_event H cfg env who ''evidence.disposition_committed'' i
      [(''versionCount'', JInt (int (length (ei_versions item1)))), (''retentionUntil'', JInt (ei_retentionUntil item1))]
      (put_item item1 ix)"
  define item2 where "item2 = item1\<lparr>ei_purgePending := False\<rparr>"
  define ix2 where "ix2 = append_event H cfg env who ''evidence.content_purged'' i
      [(''versionCount'', JInt (int (length (ei_versions item2))))] (put_item item2 ix1)"
  have ids: "ei_evidenceId item = i" using lookup_id [OF lk] by simp
  have st1: "item_step env (Dispose rid input []) who item item1" "item_step env (Dispose rid input []) who item item2"
    using g assms ids st_dispose [where i = item and b = True] st_dispose [where i = item and b = False]
    by (simp_all add: item1_def item2_def disposed_def)
  have ix1: "ix_chain H ix1" "ix_tenantId ix1 = tenant" "ix_items ix1 = replace_item item1 (ix_items ix)"
    using load_index_chain [OF ld] by (simp_all add: ix1_def append_event_chain) (simp_all add: put_item_def)
  have "replace_item item2 (replace_item item1 xs) = replace_item item2 xs" for xs
    by (induction xs) (auto simp: item2_def)
  then have ix2: "ix_chain H ix2" "ix_tenantId ix2 = tenant" "ix_items ix2 = replace_item item2 (ix_items ix)"
    using ix1 by (simp_all add: ix2_def append_event_chain) (simp_all add: put_item_def)
  note gone1 = ev_gone [OF ld lk active st1(1) _ _ ix1]
  note gone2 = ev_gone [OF ld lk active st1(2) _ _ ix2]
  let ?st1 = "st\<lparr>es_index := Some (Envelope (index_aad tenant) ix1)\<rparr>"
  let ?st2 = "purge_versions (ee_purge env) i (ei_versions item1) ?st1"
  have "ev_step H env tenant (Dispose rid input []) st ?st1"
    "ev_step H env tenant (Dispose rid input []) st ?st2"
    "ev_step H env tenant (Dispose rid input []) st (?st2\<lparr>es_index := Some (Envelope (index_aad tenant) ix2)\<rparr>)"
    by (rule gone1 gone2; simp add: purge_other)+
  moreover have same: "?st2\<lparr>es_index := Some (Envelope (index_aad tenant) ix1)\<rparr> = ?st2"
    by (rule ev_store.equality) simp_all
  ultimately show ?thesis
    unfolding dispose_locked_def Inr r
    by (cases "ee_indexWrite env"; cases "ee_secondWrite env")
      (simp_all add: save_index_def Let_def step_unchanged same flip: item1_def item2_def ix1_def ix2_def)
qed

theorem run_ev_refines:
  assumes "tenant_identifier tenantId = Inr tenant" and "fresh_for H env tenant cmd st" and "well_stored H tenant st"
  shows "ev_step H env tenant cmd st (fst (run_ev H dp cfg env cmd tenantId actor st))"
proof (cases cmd)
  case (Ingest input)
  then show ?thesis
    using assms by (auto simp: ev_ingest_def split: sum.split intro!: with_lock_step ingest_step step_unchanged)
next
  case (AddVersion eid input)
  then show ?thesis
    using assms by (auto simp: ev_add_version_def split: sum.split intro!: with_lock_step add_version_step step_unchanged)
next
  case (PlaceHold eid input)
  have "place_hold_op H env who reason matterId reviewAt item = Inr (item', m) \<Longrightarrow>
      ei_status item = ''active'' \<and> item_step env (PlaceHold eid input) who item item' \<and> ei_evidenceId item' = ei_evidenceId item"
    for item item' m reason matterId reviewAt who
    by (auto simp: place_hold_op_def assert_active_def intro!: st_place)
  then show ?thesis
    using assms PlaceHold by (auto simp: ev_place_hold_def split: sum.split intro!: ev_mutate_step step_unchanged)
next
  case (ReleaseHold eid input)
  have "release_hold_op H env who reason item = Inr (item', m) \<Longrightarrow>
      ei_status item = ''active'' \<and> item_step env (ReleaseHold eid input) who item item' \<and> ei_evidenceId item' = ei_evidenceId item"
    for item item' m reason who
    by (auto simp: release_hold_op_def assert_active_def held_def split: option.splits intro!: st_release)
  then show ?thesis
    using assms ReleaseHold by (auto simp: ev_release_hold_def split: sum.split intro!: ev_mutate_step step_unchanged)
next
  case (Dispose eid input refs)
  then show ?thesis
    using assms by (auto simp: ev_dispose_def split: sum.split intro!: with_lock_step dispose_step step_unchanged)
qed

end
