(* ===== verification/CallLogic.thy ===== *)
theory CallLogic
  imports Effects
begin

section \<open>Preconditions of calls that may throw\<close>

text \<open>
  \<open>after m Q E s\<close>: the call \<open>m\<close> in the state \<open>s\<close> ends in a result and a state with \<open>Q\<close>, or throws an
  error in a state with \<open>E\<close>. The rules compute the condition of a composed call; what a
  called operation ensures is a lemma on \<open>after\<close> that \<open>after_weaken\<close> fits to the goal.
\<close>

definition after :: "('s, 'e, 'a) call \<Rightarrow> ('a \<Rightarrow> 's \<Rightarrow> bool) \<Rightarrow> ('e \<Rightarrow> 's \<Rightarrow> bool) \<Rightarrow> 's \<Rightarrow> bool" where
  "after m Q E s = (case m s of (s', Inl e) \<Rightarrow> E e s' | (s', Inr x) \<Rightarrow> Q x s')"

lemma after_returnS [simp]: "after (returnS x) Q E = Q x"
  by (simp add: after_def returnS_def fun_eq_iff)

lemma after_throwS [simp]: "after (throwS e) Q E = E e"
  by (simp add: after_def throwS_def fun_eq_iff)

lemma after_getS [simp]: "after (getS f) Q E s = Q (f s) s"
  by (simp add: after_def getS_def)

lemma after_modifyS [simp]: "after (modifyS f) Q E s = Q () (f s)"
  by (simp add: after_def modifyS_def)

lemma after_ensureS [simp]: "after (ensureS b e m) Q E s = (if b then after m Q E s else E e s)"
  by (simp add: after_def ensureS_def)

lemma after_bindS [simp]: "after (bindS m f) Q E = after m (\<lambda>x. after (f x) Q E) E"
  by (auto simp: after_def bindS_def fun_eq_iff split: prod.split sum.split)

lemma after_catchS [simp]: "after (catchS m h) Q E = after m Q (\<lambda>e. after (h e) Q E)"
  by (auto simp: after_def catchS_def fun_eq_iff split: prod.split sum.split)

lemma after_liftS: "after (liftS r) Q E s = (case r of Inl e \<Rightarrow> E e s | Inr x \<Rightarrow> Q x s)"
  by (simp add: after_def liftS_def)

lemma after_liftS_I: "(\<And>e. r = Inl e \<Longrightarrow> E e s) \<Longrightarrow> (\<And>x. r = Inr x \<Longrightarrow> Q x s) \<Longrightarrow> after (liftS r) Q E s"
  by (cases r) (simp_all add: after_liftS)

lemma after_with_lock:
  assumes "E e s" and "after m Q E s" and "\<And>x s'. Q x s' \<Longrightarrow> E e s'"
  shows "after (with_lock l e m) Q E s"
  using assms by (cases l) (auto simp: after_def with_lock_def split: prod.splits sum.splits)

lemma after_weaken:
  "after m Q E s \<Longrightarrow> (\<And>x s'. Q x s' \<Longrightarrow> Q' x s') \<Longrightarrow> (\<And>e s'. E e s' \<Longrightarrow> E' e s') \<Longrightarrow> after m Q' E' s"
  by (auto simp: after_def split: prod.splits sum.splits)

lemma after_state: "after m (\<lambda>_. P) (\<lambda>_. P) s = P (fst (m s))"
  by (auto simp: after_def split: prod.split sum.split)

lemma after_Inr: "after m Q E s \<Longrightarrow> m s = (s', Inr x) \<Longrightarrow> Q x s'"
  by (simp add: after_def)

lemma after_returns: "after m Q (\<lambda>_ _. False) s \<Longrightarrow> \<exists>s' x. m s = (s', Inr x) \<and> Q x s'"
  by (cases "m s", cases "snd (m s)") (auto simp: after_def)

lemma after_answer: "after m Q E s \<Longrightarrow> snd (m s) = Inr x \<Longrightarrow> Q x (fst (m s))"
  by (cases "m s") (simp add: after_def)

lemma after_Inl: "after m Q E s \<Longrightarrow> m s = (s', Inl e) \<Longrightarrow> E e s'"
  by (simp add: after_def)

lemma after_conj: "after m Q E s \<Longrightarrow> after m Q' E' s \<Longrightarrow> after m (\<lambda>x s'. Q x s' \<and> Q' x s') (\<lambda>e s'. E e s' \<and> E' e s') s"
  by (auto simp: after_def split: prod.splits sum.splits)

lemma keeps_after: "keeps P m \<longleftrightarrow> (\<forall>s. P s \<longrightarrow> after m (\<lambda>_. P) (\<lambda>_. P) s)"
  by (simp add: keeps_def after_state)

lemma keepsI: "(\<And>s. P s \<Longrightarrow> after m (\<lambda>_. P) (\<lambda>_. P) s) \<Longrightarrow> keeps P m"
  by (simp add: keeps_after)

lemma keeps_afterD: "keeps P m \<Longrightarrow> P s \<Longrightarrow> after m (\<lambda>_. P) (\<lambda>_. P) s"
  by (simp add: keeps_after)

lemma keeps_modifyS: "(\<And>s. P s \<Longrightarrow> P (f s)) \<Longrightarrow> keeps P (modifyS f)"
  by (simp add: keeps_def modifyS_def)

lemma keeps_with_lock [keeps_intros]: "keeps P m \<Longrightarrow> keeps P (with_lock l e m)"
  by (simp add: keeps_def with_lock_state)

subsection \<open>Loops\<close>

text \<open>The loops over a list that the stores share, with the rule of their invariant.\<close>

fun for_each :: "('a \<Rightarrow> ('s, 'e, unit) call) \<Rightarrow> 'a list \<Rightarrow> ('s, 'e, unit) call" where
  "for_each f [] = returnS ()"
| "for_each f (x # xs) = bindS (f x) (\<lambda>_. for_each f xs)"

fun map_each :: "('a \<Rightarrow> ('s, 'e, 'b) call) \<Rightarrow> 'a list \<Rightarrow> ('s, 'e, 'b list) call" where
  "map_each f [] = returnS []"
| "map_each f (x # xs) = bindS (f x) (\<lambda>y. bindS (map_each f xs) (\<lambda>ys. returnS (y # ys)))"

lemma keeps_for_each [keeps_intros]: "(\<And>x. keeps P (f x)) \<Longrightarrow> keeps P (for_each f xs)"
  by (induction xs) (simp_all add: keeps_intros)

lemma keeps_for_each_in: "(\<And>x. x \<in> set xs \<Longrightarrow> keeps P (f x)) \<Longrightarrow> keeps P (for_each f xs)"
  by (induction xs) (simp_all add: keeps_intros)

lemma keeps_map_each [keeps_intros]: "(\<And>x. keeps P (f x)) \<Longrightarrow> keeps P (map_each f xs)"
  by (induction xs) (simp_all add: keeps_intros)

lemma after_for_each:
  assumes "\<And>x s. x \<in> set xs \<Longrightarrow> I s \<Longrightarrow> after (f x) (\<lambda>_. I) E s" and "I s"
  shows "after (for_each f xs) (\<lambda>_. I) E s"
  using assms
proof (induction xs arbitrary: s)
  case (Cons x xs)
  have "after (f x) (\<lambda>_. I) E s" by (rule Cons.prems) (simp_all add: Cons.prems)
  then show ?case by (auto intro!: Cons.IH Cons.prems elim!: after_weaken)
qed simp

lemma after_map_each:
  assumes "\<And>x s. x \<in> set xs \<Longrightarrow> I s \<Longrightarrow> after (f x) (\<lambda>y s. I s \<and> R x y) E s" and "I s"
  shows "after (map_each f xs) (\<lambda>ys s. I s \<and> list_all2 R xs ys) E s"
  using assms
proof (induction xs arbitrary: s)
  case (Cons x xs)
  have "after (f x) (\<lambda>y s. I s \<and> R x y) E s" by (rule Cons.prems) (simp_all add: Cons.prems)
  then show ?case by (auto intro!: Cons.IH [THEN after_weaken] Cons.prems elim!: after_weaken)
qed simp

lemma after_map_each_done:
  assumes "\<And>xs x zs s. ys = xs @ x # zs \<Longrightarrow> I xs s \<Longrightarrow> after (f x) (\<lambda>_. I (xs @ [x])) E s" and "I [] s"
  shows "after (map_each f ys) (\<lambda>_. I ys) E s"
proof -
  have "ys = xs @ zs \<Longrightarrow> I xs s \<Longrightarrow> after (map_each f zs) (\<lambda>_. I ys) E s" for xs zs s
  proof (induction zs arbitrary: xs s)
    case (Cons z zs)
    have "after (f z) (\<lambda>_. I (xs @ [z])) E s" by (rule assms(1) [OF Cons.prems])
    then show ?case using Cons.IH [of "xs @ [z]"] Cons.prems
      by (auto elim!: after_weaken)
  qed simp
  from this [of "[]" ys s] assms(2) show ?thesis by simp
qed

text \<open>A loop whose invariant grows with the elements that are done.\<close>

lemma after_for_each_done:
  assumes "\<And>xs x zs s. ys = xs @ x # zs \<Longrightarrow> I xs s \<Longrightarrow> after (f x) (\<lambda>_. I (xs @ [x])) E s" and "I [] s"
  shows "after (for_each f ys) (\<lambda>_. I ys) E s"
proof -
  have "ys = xs @ zs \<Longrightarrow> I xs s \<Longrightarrow> after (for_each f zs) (\<lambda>_. I ys) E s" for xs zs s
  proof (induction zs arbitrary: xs s)
    case (Cons z zs)
    have "after (f z) (\<lambda>_. I (xs @ [z])) E s" by (rule assms(1) [OF Cons.prems])
    then show ?case using Cons.IH [of "xs @ [z]"] Cons.prems
      by (auto elim!: after_weaken)
  qed simp
  from this [of "[]" ys s] assms(2) show ?thesis by simp
qed

end
