(* ===== verification/ScanOutbox.thy ===== *)
theory ScanOutbox
  imports EvidenceRegistry CallLogic
begin

section \<open>The outbox of external scan jobs (src/evidence/externalScanJobOutbox.js)\<close>

text \<open>
  Evidence content waits in a job until a scanner claims it, acknowledges the delivery and sends an
  attestation. A job is one encrypted file, and the directory it is in is its state: a transition
  writes the new record over the file and then renames the file into the directory of the new state,
  so a crash between the two leaves a record in the directory of its former state, which the next
  operations put right. Every write, rename and removal may fail (\<open>jf_writes\<close>, \<open>jf_moves\<close> are drawn from in
  the order of the calls; a list that has run out gives success); a process that dies is one whose
  next call fails. Reading a file does not fail, and the clock stands still during an operation.

  A sealed record is its plaintext with the additional data it was sealed with; the package for the
  scanner is its payload with the public key it was sealed for. \<open>jc_parse\<close> is \<open>JSON.parse\<close>, \<open>jc_iso\<close>
  \<open>toISOString\<close>, \<open>jc_hmac\<close> the hexadecimal HMAC-SHA256 and \<open>jc_packageHash\<close> the digest of a package.
\<close>

subsection \<open>Data\<close>

datatype job_state = Pending | Inflight | Delivered | Completed | DeadLetter

definition job_states :: "job_state list" where
  "job_states = [Pending, Inflight, Delivered, Completed, DeadLetter]"

datatype job_error =
    JobValidation string
  | JobConflict string
  | JobIntegrity string
  | JobStore string
  | ScanAuth string
  | JobType string
  | JobLock
  | JobFile

datatype 'a job_file = SealedFile string 'a | Unauthentic | Unparsable

record sealed_payload =
  sp_jobId :: string
  sp_tenantId :: string
  sp_evidenceId :: string
  sp_evidenceVersion :: int
  sp_contentSha256 :: string
  sp_filename :: jsval
  sp_mediaType :: jsval
  sp_sizeBytes :: nat
  sp_createdAt :: int
  sp_expiresAt :: int
  sp_contentBase64 :: string

record job_package =
  pk_jobId :: string
  pk_providerId :: jsval
  pk_deliveryKeyId :: string
  pk_createdAt :: int
  pk_expiresAt :: int
  pk_aad :: string
  pk_sealedFor :: string
  pk_payload :: sealed_payload

record job_management =
  jm_tenantId :: string
  jm_evidenceId :: string
  jm_evidenceVersion :: int
  jm_contentSha256 :: string
  jm_sizeBytes :: nat
  jm_filename :: jsval
  jm_mediaType :: jsval
  jm_queuedBy :: string

datatype job_result =
    Acknowledged
  | RetryResult string
  | ClaimRecovered
  | DeadResult string
  | Attested string string string int

record job_record =
  jr_jobId :: string
  jr_providerId :: jsval
  jr_deliveryKeyId :: string
  jr_state :: job_state
  jr_createdAt :: int
  jr_updatedAt :: int
  jr_expiresAt :: int
  jr_attempts :: nat
  jr_nextAttemptAt :: int
  jr_claimToken :: "string option"
  jr_claimedAt :: "int option"
  jr_claimExpiresAt :: "int option"
  jr_deliveredAt :: "int option"
  jr_completedAt :: "int option"
  jr_deadLetteredAt :: "int option"
  jr_result :: "job_result option"
  jr_packageSha256 :: string
  jr_package :: "job_package option"
  jr_management :: "job_management job_file"

record replay_marker =
  rm_replayId :: string
  rm_acceptedAt :: int
  rm_expiresAt :: int

record scan_provider =
  pv_hmacKeys :: "(string \<times> string) list"
  pv_deliveryKeys :: "(string \<times> string) list"

record job_config =
  jc_ttlMinutes :: int
  jc_leaseMs :: int
  jc_attempts :: nat
  jc_completedLimit :: nat
  jc_deadLimit :: nat
  jc_skewSeconds :: int
  jc_required :: bool
  jc_providers :: "(string \<times> scan_provider) list"
  jc_sha :: "string \<Rightarrow> string"
  jc_hmac :: "string \<Rightarrow> string \<Rightarrow> string"
  jc_packageHash :: "job_package \<Rightarrow> string"
  jc_parse :: "string \<Rightarrow> jsval option"
  jc_date :: "string \<Rightarrow> int option"
  jc_iso :: "int \<Rightarrow> string"

record job_env =
  je_now :: int
  je_lock :: lock_outcome
  je_claimToken :: "string \<Rightarrow> string"

record job_files =
  jf_dirs :: "job_state \<Rightarrow> (string \<times> job_record job_file) list"
  jf_replays :: "(string \<times> replay_marker job_file) list"
  jf_writes :: "write_outcome list"
  jf_moves :: "bool list"

type_synonym 'a job_call = "(job_files, job_error, 'a) call"

subsection \<open>Validators\<close>

definition is_job_id :: "string \<Rightarrow> bool" where
  "is_job_id s = (starts_with ''SCNJOB-'' s \<and> is_hex_text 32 (drop 7 s))"

definition safe_job_id :: "jsval \<Rightarrow> job_error + string" where
  "safe_job_id v = (let i = ev_text v in ensure (is_job_id i) (JobValidation ''jobId'') (Inr i))"

definition job_evidence_id :: "jsval \<Rightarrow> job_error + string" where
  "job_evidence_id v = (let i = ev_text v in ensure (is_evidence_id i) (JobValidation ''evidenceId'') (Inr i))"

definition job_hash :: "jsval \<Rightarrow> string \<Rightarrow> job_error + string" where
  "job_hash v field = (let c = map to_lower (ev_text v) in ensure (is_hex_text 64 c) (JobValidation field) (Inr c))"

definition job_identifier :: "jsval \<Rightarrow> string \<Rightarrow> job_error + string" where
  "job_identifier v field = (let c = trimmed v in ensure (safe_ident ''._:@-'' 1 191 c) (JobValidation field) (Inr c))"

definition job_integer :: "jsval \<Rightarrow> string \<Rightarrow> int \<Rightarrow> int \<Rightarrow> job_error + int" where
  "job_integer v field lo hi = from_option (JobValidation field) (int_in lo hi v)"

definition job_boolean :: "jsval \<Rightarrow> string \<Rightarrow> job_error + bool" where
  "job_boolean v field = (case v of JBool b \<Rightarrow> Inr b | _ \<Rightarrow> Inl (JobValidation field))"

text \<open>\<open>/^[a-z0-9][a-z0-9._-]{1,63}$/\<close> and \<open>/^[a-zA-Z0-9][a-zA-Z0-9._:-]{15,127}$/\<close>.\<close>

definition is_reason_code :: "string \<Rightarrow> bool" where
  "is_reason_code s = (safe_ident ''._-'' 1 63 s \<and> map to_lower s = s)"

definition safe_reason_code :: "jsval \<Rightarrow> job_error + string" where
  "safe_reason_code v = (let c = trimmed v in ensure (is_reason_code c) (JobValidation ''reasonCode'') (Inr c))"

definition is_nonce :: "string \<Rightarrow> bool" where
  "is_nonce s = safe_ident ''._:-'' 15 127 s"

definition strict_json :: "(string \<Rightarrow> jsval option) \<Rightarrow> string \<Rightarrow> string list \<Rightarrow> job_error + jsval" where
  "strict_json parse body allowed =
     bindR (from_option (JobValidation ''body'') (parse (if body = [] then ''{}'' else body))) (\<lambda>v.
       case v of
         JObj kvs \<Rightarrow> (case find (\<lambda>kv. fst kv \<notin> set allowed) kvs of
             None \<Rightarrow> Inr v | Some kv \<Rightarrow> Inl (JobValidation (fst kv)))
       | _ \<Rightarrow> Inl (JobValidation ''body''))"

text \<open>A header is a text, an array of texts, of which the first counts untrimmed, or missing.\<close>

definition scan_header :: "(string \<Rightarrow> jsval) \<Rightarrow> string \<Rightarrow> job_error + string" where
  "scan_header headers name =
     (let clean = (case headers name of JArr vs \<Rightarrow> (case vs of [] \<Rightarrow> [] | v # _ \<Rightarrow> js_String v) | v \<Rightarrow> trimmed v)
      in ensure (clean \<noteq> []) (ScanAuth ''authentication'') (Inr clean))"

subsection \<open>Providers\<close>

definition provider_for :: "job_config \<Rightarrow> jsval \<Rightarrow> job_error + scan_provider" where
  "provider_for cfg v = bindR (job_identifier v ''providerId'') (\<lambda>i.
     from_option (JobValidation ''providerId'') (map_of (jc_providers cfg) i))"

definition latest_delivery_key :: "scan_provider \<Rightarrow> job_error + string \<times> string" where
  "latest_delivery_key p = (if pv_deliveryKeys p = [] then Inl (JobConflict ''delivery key'')
     else Inr (last (pv_deliveryKeys p)))"

text \<open>
  The configured providers: base64 secrets of 32 to 128 bytes and RSA keys of 2048 bits or more.
  \<open>rsa\<close> is \<open>createPublicKey\<close> followed by the type and the length of the key.
\<close>

definition parse_hmac_key :: "string \<times> jsval \<Rightarrow> job_error + string \<times> string" where
  "parse_hmac_key kv = bindR (job_identifier (JStr (fst kv)) ''keyId'') (\<lambda>_.
     bindR (from_option (JobType ''secret'') (strict_base64 (snd kv))) (\<lambda>secret.
     ensure (\<not> (length secret < 32 \<or> length secret > 128)) (JobType ''secret'') (Inr (fst kv, secret))))"

definition parse_delivery_key :: "(string \<Rightarrow> (string \<times> nat) option) \<Rightarrow> string \<times> jsval \<Rightarrow> job_error + string \<times> string" where
  "parse_delivery_key rsa kv = bindR (job_identifier (JStr (fst kv)) ''deliveryKeyId'') (\<lambda>_.
     bindR (from_option (JobType ''publicKey'') (rsa (js_String (snd kv)))) (\<lambda>(kind, bits).
     ensure (kind = ''rsa'') (JobType ''publicKey'')
    (ensure (\<not> bits < 2048) (JobType ''publicKey'') (Inr (fst kv, js_String (snd kv))))))"

fun object_entries :: "jsval \<Rightarrow> (string \<times> jsval) list" where
  "object_entries (JObj kvs) = kvs"
| "object_entries (JArr vs) = zip (map dec [0..<length vs]) vs"
| "object_entries (JStr s) = zip (map dec [0..<length s]) (map (\<lambda>c. JStr [c]) s)"
| "object_entries _ = []"

definition parse_provider ::
  "(string \<Rightarrow> (string \<times> nat) option) \<Rightarrow> string \<times> jsval \<Rightarrow> job_error + string \<times> scan_provider" where
  "parse_provider rsa entry = bindR (job_identifier (JStr (fst entry)) ''providerId'') (\<lambda>_.
     ensure (is_plain_object (snd entry)) (JobType ''provider'')
    (bindR (mapR parse_hmac_key (object_entries (js_get (snd entry) ''keys''))) (\<lambda>hmacKeys.
     bindR (mapR (parse_delivery_key rsa) (object_entries (js_get (snd entry) ''publicKeys''))) (\<lambda>deliveryKeys.
     Inr (fst entry, \<lparr>pv_hmacKeys = hmacKeys, pv_deliveryKeys = deliveryKeys\<rparr>)))))"

definition parse_providers ::
  "(string \<Rightarrow> (string \<times> nat) option) \<Rightarrow> jsval \<Rightarrow> job_error + (string \<times> scan_provider) list" where
  "parse_providers rsa input = ensure (is_plain_object input) (JobType ''providers'')
     (mapR (parse_provider rsa) (object_entries input))"

subsection \<open>Jobs\<close>

record content_record =
  cr_content :: string
  cr_tenantId :: string
  cr_evidenceId :: string
  cr_version :: int
  cr_contentSha256 :: string
  cr_filename :: jsval
  cr_mediaType :: jsval

text \<open>\<open>input\<close> without its bytes, which are an argument of their own (\<open>None\<close> when they are no buffer).\<close>

definition validate_content_record :: "(string \<Rightarrow> string) \<Rightarrow> string option \<Rightarrow> jsval \<Rightarrow> job_error + content_record" where
  "validate_content_record sha content input =
     bindR (from_option (JobValidation ''content'') content) (\<lambda>bytes.
     bindR (job_identifier (js_get input ''tenantId'') ''tenantId'') (\<lambda>tenantId.
     bindR (job_evidence_id (js_get input ''evidenceId'')) (\<lambda>evidenceId.
     bindR (job_integer (js_get input ''version'') ''version'' 1 1000000) (\<lambda>version.
     bindR (job_hash (js_get input ''contentSha256'') ''contentSha256'') (\<lambda>contentSha256.
     ensure (sha bytes = contentSha256 \<and> js_Number (js_get input ''sizeBytes'') = JInt (int (length bytes)))
       (JobIntegrity ''content'')
     (Inr \<lparr>cr_content = bytes, cr_tenantId = tenantId, cr_evidenceId = evidenceId, cr_version = version,
        cr_contentSha256 = contentSha256, cr_filename = js_get input ''filename'',
        cr_mediaType = js_get input ''mediaType''\<rparr>))))))"

definition nul_sep :: string where
  "nul_sep = [CHR 0x00]"

definition job_id_for :: "(string \<Rightarrow> string) \<Rightarrow> string \<Rightarrow> string \<Rightarrow> int \<Rightarrow> string \<Rightarrow> jsval \<Rightarrow> string" where
  "job_id_for sha tenantId evidenceId version contentSha256 providerId =
     ''SCNJOB-'' @ take 32 (sha (join_with nul_sep
        [tenantId, evidenceId, int_text version, js_String providerId, contentSha256]))"

definition record_aad :: "string \<Rightarrow> string" where
  "record_aad jobId = ''basitclaw:external-scan-job-record:'' @ jobId"

definition management_aad :: "string \<Rightarrow> string" where
  "management_aad jobId = ''basitclaw:external-scan-job-management:'' @ jobId"

definition replay_aad :: "string \<Rightarrow> string" where
  "replay_aad replayId = ''basitclaw:external-scan-job-replay:'' @ replayId"

definition package_aad :: "string \<Rightarrow> jsval \<Rightarrow> string \<Rightarrow> string" where
  "package_aad jobId providerId keyId =
     ''basitclaw:external-scan-job:'' @ jobId @ '':'' @ js_String providerId @ '':'' @ keyId"

definition seal_package :: "content_record \<Rightarrow> jsval \<Rightarrow> string \<times> string \<Rightarrow> string \<Rightarrow> int \<Rightarrow> int \<Rightarrow> job_package" where
  "seal_package content providerId delivery jobId createdAt expiresAt =
     \<lparr>pk_jobId = jobId, pk_providerId = providerId, pk_deliveryKeyId = fst delivery, pk_createdAt = createdAt,
      pk_expiresAt = expiresAt, pk_aad = package_aad jobId providerId (fst delivery), pk_sealedFor = snd delivery,
      pk_payload = \<lparr>sp_jobId = jobId, sp_tenantId = cr_tenantId content, sp_evidenceId = cr_evidenceId content,
        sp_evidenceVersion = cr_version content, sp_contentSha256 = cr_contentSha256 content,
        sp_filename = cr_filename content, sp_mediaType = cr_mediaType content,
        sp_sizeBytes = length (cr_content content), sp_createdAt = createdAt, sp_expiresAt = expiresAt,
        sp_contentBase64 = b64_encode (cr_content content)\<rparr>\<rparr>"

definition new_record ::
  "job_config \<Rightarrow> int \<Rightarrow> content_record \<Rightarrow> jsval \<Rightarrow> string \<times> string \<Rightarrow> string \<Rightarrow> string \<Rightarrow> job_record" where
  "new_record cfg now content providerId delivery queuedBy jobId =
     (let expiresAt = now + jc_ttlMinutes cfg * 60000;
          sealed = seal_package content providerId delivery jobId now expiresAt
      in \<lparr>jr_jobId = jobId, jr_providerId = providerId, jr_deliveryKeyId = fst delivery, jr_state = Pending,
          jr_createdAt = now, jr_updatedAt = now, jr_expiresAt = expiresAt, jr_attempts = 0, jr_nextAttemptAt = now,
          jr_claimToken = None, jr_claimedAt = None, jr_claimExpiresAt = None, jr_deliveredAt = None,
          jr_completedAt = None, jr_deadLetteredAt = None, jr_result = None,
          jr_packageSha256 = jc_packageHash cfg sealed, jr_package = Some sealed,
          jr_management = SealedFile (management_aad jobId)
            \<lparr>jm_tenantId = cr_tenantId content, jm_evidenceId = cr_evidenceId content,
             jm_evidenceVersion = cr_version content, jm_contentSha256 = cr_contentSha256 content,
             jm_sizeBytes = length (cr_content content), jm_filename = cr_filename content,
             jm_mediaType = cr_mediaType content, jm_queuedBy = queuedBy\<rparr>\<rparr>)"

fun decrypt_job :: "string \<Rightarrow> 'a job_file \<Rightarrow> job_error + 'a" where
  "decrypt_job aad (SealedFile sealed x) = ensure (sealed = aad) (JobIntegrity ''authentication'') (Inr x)"
| "decrypt_job aad _ = Inl (JobIntegrity ''authentication'')"

definition decrypt_management :: "job_record \<Rightarrow> job_error + job_management" where
  "decrypt_management r = decrypt_job (management_aad (jr_jobId r)) (jr_management r)"

definition valid_record :: "job_record \<Rightarrow> bool" where
  "valid_record r = (is_job_id (jr_jobId r) \<and> is_hex_text 64 (jr_packageSha256 r))"

record public_job =
  pj_jobId :: string
  pj_providerId :: jsval
  pj_deliveryKeyId :: string
  pj_state :: job_state
  pj_evidenceId :: string
  pj_evidenceVersion :: int
  pj_contentSha256 :: string
  pj_sizeBytes :: nat
  pj_createdAt :: int
  pj_updatedAt :: int
  pj_expiresAt :: int
  pj_attempts :: nat
  pj_deliveredAt :: "int option"
  pj_completedAt :: "int option"
  pj_deadLetteredAt :: "int option"
  pj_result :: "job_result option"

definition public_job_of :: "job_record \<Rightarrow> job_management \<Rightarrow> public_job" where
  "public_job_of r m =
     \<lparr>pj_jobId = jr_jobId r, pj_providerId = jr_providerId r, pj_deliveryKeyId = jr_deliveryKeyId r,
      pj_state = jr_state r, pj_evidenceId = jm_evidenceId m, pj_evidenceVersion = jm_evidenceVersion m,
      pj_contentSha256 = jm_contentSha256 m, pj_sizeBytes = jm_sizeBytes m, pj_createdAt = jr_createdAt r,
      pj_updatedAt = jr_updatedAt r, pj_expiresAt = jr_expiresAt r, pj_attempts = jr_attempts r,
      pj_deliveredAt = jr_deliveredAt r, pj_completedAt = jr_completedAt r, pj_deadLetteredAt = jr_deadLetteredAt r,
      pj_result = jr_result r\<rparr>"

subsection \<open>Files\<close>

definition draw_write :: "write_outcome job_call" where
  "draw_write s = (case jf_writes s of [] \<Rightarrow> (s, Inr Committed) | w # ws \<Rightarrow> (s\<lparr>jf_writes := ws\<rparr>, Inr w))"

definition draw_move :: "bool job_call" where
  "draw_move s = (case jf_moves s of [] \<Rightarrow> (s, Inr True) | m # ms \<Rightarrow> (s\<lparr>jf_moves := ms\<rparr>, Inr m))"

definition set_dir :: "job_state \<Rightarrow> (string \<times> job_record job_file) list \<Rightarrow> job_files \<Rightarrow> job_files" where
  "set_dir st d s = s\<lparr>jf_dirs := (jf_dirs s)(st := d)\<rparr>"

definition file_at :: "job_files \<Rightarrow> job_state \<Rightarrow> string \<Rightarrow> job_record job_file option" where
  "file_at s st i = map_of (jf_dirs s st) i"

definition job_names :: "job_files \<Rightarrow> job_state \<Rightarrow> string list" where
  "job_names s st = sort (filter is_job_id (map fst (jf_dirs s st)))"

definition put_file :: "job_state \<Rightarrow> string \<Rightarrow> job_record job_file \<Rightarrow> unit job_call" where
  "put_file st i f = bindS draw_write (\<lambda>w. bindS (getS (\<lambda>s. jf_dirs s st)) (\<lambda>d.
     case atomic_write w (put_assoc i f d) d of
       (d', written) \<Rightarrow> bindS (modifyS (set_dir st d')) (\<lambda>_. ensureS written JobFile (returnS ()))))"

definition without :: "string \<Rightarrow> (string \<times> 'a) list \<Rightarrow> (string \<times> 'a) list" where
  "without i d = filter (\<lambda>e. fst e \<noteq> i) d"

definition remove_file :: "job_state \<Rightarrow> string \<Rightarrow> unit job_call" where
  "remove_file st i = bindS draw_move (\<lambda>done. ensureS done JobFile
     (modifyS (\<lambda>s. set_dir st (without i (jf_dirs s st)) s)))"

definition rename_file :: "job_state \<Rightarrow> job_state \<Rightarrow> string \<Rightarrow> unit job_call" where
  "rename_file a b i = bindS draw_move (\<lambda>done. ensureS done JobFile
     (modifyS (\<lambda>s. case file_at s a i of
        None \<Rightarrow> s
      | Some f \<Rightarrow> (let s' = set_dir a (without i (jf_dirs s a)) s in set_dir b (put_assoc i f (jf_dirs s' b)) s'))))"

definition parse_file :: "string \<Rightarrow> job_record job_file \<Rightarrow> job_error + job_record" where
  "parse_file i f = (if f = Unparsable then Inl (JobStore ''unreadable'') else
     bindR (decrypt_job (record_aad i) f) (\<lambda>r.
     ensure (valid_record r) (JobIntegrity ''record'') (ensure (jr_jobId r = i) (JobIntegrity ''identity'') (Inr r))))"

definition read_record :: "job_state \<Rightarrow> string \<Rightarrow> job_record job_call" where
  "read_record st i s = (s, ensure (is_job_id i) (JobValidation ''jobId'')
     (bindR (from_option (JobConflict ''not found'') (file_at s st i)) (parse_file i)))"

definition write_record :: "job_state \<Rightarrow> job_record \<Rightarrow> unit job_call" where
  "write_record st r = ensureS (valid_record r) (JobIntegrity ''record'')
     (put_file st (jr_jobId r) (SealedFile (record_aad (jr_jobId r)) r))"

definition write_and_move :: "job_state \<Rightarrow> job_state \<Rightarrow> job_record \<Rightarrow> unit job_call" where
  "write_and_move a b r = (if a = b then write_record a r else
     bindS (getS (\<lambda>s. (file_at s a (jr_jobId r), file_at s b (jr_jobId r)))) (\<lambda>(source, target).
     ensureS (source \<noteq> None) (JobConflict ''source'')
    (ensureS (target = None) (JobIntegrity ''target'')
    (bindS (write_record a r) (\<lambda>_. rename_file a b (jr_jobId r))))))"

definition locate :: "string \<Rightarrow> job_state option job_call" where
  "locate i s = (s, case filter (\<lambda>st. file_at s st i \<noteq> None) job_states of
     [] \<Rightarrow> Inr None | [st] \<Rightarrow> Inr (Some st) | _ \<Rightarrow> Inl (JobIntegrity ''multiple''))"

text \<open>The number of renamed files, which the maintenance reports, is the sum over the directories.\<close>

definition reconcile_one :: "job_state \<Rightarrow> string \<Rightarrow> nat job_call" where
  "reconcile_one st i = bindS (read_record st i) (\<lambda>r.
     if jr_state r = st then returnS 0
     else bindS (getS (\<lambda>s. file_at s (jr_state r) i)) (\<lambda>target.
       ensureS (target = None) (JobIntegrity ''multiple'')
         (bindS (rename_file st (jr_state r) i) (\<lambda>_. returnS 1))))"

definition reconcile_dir :: "job_state \<Rightarrow> nat job_call" where
  "reconcile_dir st = bindS (getS (\<lambda>s. job_names s st)) (\<lambda>names.
     bindS (map_each (reconcile_one st) names) (\<lambda>ns. returnS (sum_list ns)))"

definition reconcile_locations :: "job_state list \<Rightarrow> nat job_call" where
  "reconcile_locations sts = bindS (map_each reconcile_dir sts) (\<lambda>ns. returnS (sum_list ns))"

definition dead_record :: "int \<Rightarrow> string \<Rightarrow> job_record \<Rightarrow> job_record" where
  "dead_record now reason r = r\<lparr>jr_state := DeadLetter, jr_updatedAt := now, jr_deadLetteredAt := Some now,
     jr_claimToken := None, jr_claimedAt := None, jr_claimExpiresAt := None, jr_package := None,
     jr_result := Some (DeadResult reason)\<rparr>"

text \<open>\<open>timestampField\<close> is the selector of the field; equal times are ordered by the identifier.\<close>

definition terminal_time :: "(job_record \<Rightarrow> int option) \<Rightarrow> job_record \<Rightarrow> int" where
  "terminal_time field r = (case field r of Some t \<Rightarrow> t | None \<Rightarrow> jr_updatedAt r)"

definition prune_terminal :: "job_state \<Rightarrow> nat \<Rightarrow> (job_record \<Rightarrow> int option) \<Rightarrow> unit job_call" where
  "prune_terminal st limit field = bindS (getS (\<lambda>s. job_names s st)) (\<lambda>names.
     bindS (map_each (read_record st) names) (\<lambda>rs.
       for_each (remove_file st)
         (map jr_jobId (take (length rs - limit) (sort_key (terminal_time field) rs)))))"

definition move_to_dead :: "job_config \<Rightarrow> job_env \<Rightarrow> job_state \<Rightarrow> string \<Rightarrow> job_record \<Rightarrow> job_record job_call" where
  "move_to_dead cfg env st reason r =
     bindS (liftS (safe_reason_code (JStr reason))) (\<lambda>code. let dead = dead_record (je_now env) code r in
     bindS (write_and_move st DeadLetter dead) (\<lambda>_.
     bindS (prune_terminal DeadLetter (jc_deadLimit cfg) jr_deadLetteredAt) (\<lambda>_. returnS dead)))"

definition back_to_pending :: "int \<Rightarrow> job_result \<Rightarrow> job_record \<Rightarrow> job_record" where
  "back_to_pending now result r = r\<lparr>jr_state := Pending, jr_updatedAt := now, jr_nextAttemptAt := now,
     jr_claimToken := None, jr_claimedAt := None, jr_claimExpiresAt := None, jr_result := Some result\<rparr>"

definition claim_deadline :: "job_record \<Rightarrow> int" where
  "claim_deadline r = (case jr_claimExpiresAt r of None \<Rightarrow> 0 | Some t \<Rightarrow> t)"

definition recover_one :: "job_config \<Rightarrow> job_env \<Rightarrow> string \<Rightarrow> unit job_call" where
  "recover_one cfg env i = bindS (read_record Inflight i) (\<lambda>r.
     ensureS (jr_state r = Inflight) (JobIntegrity ''state'')
    (if claim_deadline r > je_now env then returnS ()
     else if jr_package r \<noteq> None \<and> jr_attempts r < jc_attempts cfg \<and> jr_expiresAt r > je_now env then
       write_and_move Inflight Pending (back_to_pending (je_now env) ClaimRecovered r)
     else bindS (move_to_dead cfg env Inflight ''claim_expired'' r) (\<lambda>_. returnS ())))"

definition recover_inflight :: "job_config \<Rightarrow> job_env \<Rightarrow> unit job_call" where
  "recover_inflight cfg env = bindS (getS (\<lambda>s. job_names s Inflight)) (for_each (recover_one cfg env))"

definition read_owned_claim :: "job_env \<Rightarrow> string \<Rightarrow> string \<Rightarrow> string \<Rightarrow> job_record job_call" where
  "read_owned_claim env i providerId claimToken = bindS (read_record Inflight i) (\<lambda>r.
     ensureS (\<not> (jr_state r \<noteq> Inflight \<or> jr_providerId r \<noteq> JStr providerId \<or> jr_claimToken r \<noteq> Some claimToken
        \<or> claim_deadline r \<le> je_now env)) (JobConflict ''claim'') (returnS r))"

subsection \<open>Signed requests\<close>

record scan_auth =
  sa_providerId :: string
  sa_keyId :: string
  sa_signedAt :: int
  sa_replayId :: string

definition canonical_request :: "job_config \<Rightarrow> string \<Rightarrow> string \<Rightarrow> int \<Rightarrow> string \<Rightarrow> string \<Rightarrow> string" where
  "canonical_request cfg providerId keyId signedAt nonce body =
     join_with [CHR 0x0A] [providerId, keyId, jc_iso cfg signedAt, nonce, jc_sha cfg body]"

definition authenticate_scan :: "job_config \<Rightarrow> int \<Rightarrow> string \<Rightarrow> (string \<Rightarrow> jsval) \<Rightarrow> job_error + scan_auth" where
  "authenticate_scan cfg now body headers =
     bindR (scan_header headers ''x-basitclaw-scan-provider'') (\<lambda>providerId.
     bindR (scan_header headers ''x-basitclaw-scan-key-id'') (\<lambda>keyId.
     bindR (scan_header headers ''x-basitclaw-scan-timestamp'') (\<lambda>timestamp.
     bindR (scan_header headers ''x-basitclaw-scan-nonce'') (\<lambda>nonce.
     bindR (scan_header headers ''x-basitclaw-scan-signature'') (\<lambda>sig. let signature = map to_lower sig in
     bindR (from_option (ScanAuth ''authentication'') (map_of (jc_providers cfg) providerId)) (\<lambda>provider.
     bindR (from_option (ScanAuth ''authentication'') (map_of (pv_hmacKeys provider) keyId)) (\<lambda>secret.
     ensure (is_nonce nonce \<and> is_hex_text 64 signature) (ScanAuth ''authentication'')
    (bindR (from_option (ScanAuth ''timestamp'') (jc_date cfg timestamp)) (\<lambda>signedAt.
     ensure (\<not> \<bar>now - signedAt\<bar> > jc_skewSeconds cfg * 1000) (ScanAuth ''timestamp_out_of_window'')
    (let canonical = canonical_request cfg providerId keyId signedAt nonce body in
     ensure (jc_hmac cfg secret canonical = signature) (ScanAuth ''authentication'')
       (Inr \<lparr>sa_providerId = providerId, sa_keyId = keyId, sa_signedAt = signedAt,
             sa_replayId = jc_sha cfg canonical\<rparr>)))))))))))"

definition marker_stale :: "int \<Rightarrow> string \<times> replay_marker job_file \<Rightarrow> bool" where
  "marker_stale now entry = (case decrypt_job (replay_aad (fst entry)) (snd entry) of
     Inl _ \<Rightarrow> True | Inr m \<Rightarrow> rm_replayId m \<noteq> fst entry \<or> rm_expiresAt m \<le> now)"

text \<open>
  A stale marker is removed. When the removal of a readable one fails, the \<open>catch\<close> tries again; an
  unreadable one is removed in the \<open>catch\<close>, so once. Then the error is thrown.
\<close>

definition remove_marker :: "string \<Rightarrow> unit job_call" where
  "remove_marker i = bindS draw_move (\<lambda>done. ensureS done JobFile
     (modifyS (\<lambda>s. s\<lparr>jf_replays := without i (jf_replays s)\<rparr>)))"

definition prune_marker :: "int \<Rightarrow> string \<times> replay_marker job_file \<Rightarrow> unit job_call" where
  "prune_marker now entry = (if \<not> marker_stale now entry then returnS ()
     else case decrypt_job (replay_aad (fst entry)) (snd entry) of
         Inl _ \<Rightarrow> remove_marker (fst entry)
       | Inr _ \<Rightarrow> catchS (remove_marker (fst entry)) (\<lambda>_. remove_marker (fst entry)))"

lemma keeps_prune_marker: "keeps P (remove_marker (fst e)) \<Longrightarrow> keeps P (prune_marker now e)"
  unfolding prune_marker_def
  by (cases "decrypt_job (replay_aad (fst e)) (snd e)"; cases "marker_stale now e") (simp_all add: keeps_intros)

definition prune_replays :: "int \<Rightarrow> unit job_call" where
  "prune_replays now = bindS (getS jf_replays) (\<lambda>entries.
     for_each (prune_marker now) (filter (\<lambda>e. is_hex_text 64 (fst e)) entries))"

definition replay_marker_for :: "job_config \<Rightarrow> int \<Rightarrow> string \<Rightarrow> replay_marker" where
  "replay_marker_for cfg now replayId = \<lparr>rm_replayId = replayId, rm_acceptedAt = now,
     rm_expiresAt = now + jc_skewSeconds cfg * 2000\<rparr>"

definition put_marker :: "string \<Rightarrow> replay_marker job_file \<Rightarrow> unit job_call" where
  "put_marker i f = bindS draw_write (\<lambda>w. bindS (getS jf_replays) (\<lambda>d.
     case atomic_write w (put_assoc i f d) d of
       (d', written) \<Rightarrow> bindS (modifyS (\<lambda>s. s\<lparr>jf_replays := d'\<rparr>)) (\<lambda>_. ensureS written JobFile (returnS ()))))"

definition consume_replay :: "job_config \<Rightarrow> int \<Rightarrow> scan_auth \<Rightarrow> unit job_call" where
  "consume_replay cfg now auth = bindS (prune_replays now) (\<lambda>_.
     bindS (getS (\<lambda>s. map_of (jf_replays s) (sa_replayId auth))) (\<lambda>seen.
     ensureS (seen = None) (ScanAuth ''replay_detected'')
       (put_marker (sa_replayId auth)
         (SealedFile (replay_aad (sa_replayId auth)) (replay_marker_for cfg now (sa_replayId auth))))))"

subsection \<open>Operations\<close>

definition active_states :: "job_state list" where
  "active_states = [Pending, Inflight, Delivered]"

definition repair :: "job_config \<Rightarrow> job_env \<Rightarrow> job_state list \<Rightarrow> unit job_call" where
  "repair cfg env sts = bindS (reconcile_locations sts) (\<lambda>_. recover_inflight cfg env)"

definition locked :: "job_env \<Rightarrow> 'a job_call \<Rightarrow> 'a job_call" where
  "locked env = with_lock (je_lock env) JobLock"

text \<open>The end of the constructor.\<close>

definition start_outbox :: "job_config \<Rightarrow> job_env \<Rightarrow> unit job_call" where
  "start_outbox cfg env = locked env (repair cfg env job_states)"

record queue_result =
  qr_queued :: bool
  qr_duplicate :: bool
  qr_requeued :: bool
  qr_job :: public_job

definition public_of_record :: "job_record \<Rightarrow> public_job job_call" where
  "public_of_record r = bindS (liftS (decrypt_management r)) (\<lambda>m. returnS (public_job_of r m))"

definition queued_result :: "bool \<Rightarrow> job_record \<Rightarrow> queue_result job_call" where
  "queued_result requeued r = bindS (public_of_record r) (\<lambda>j.
     returnS \<lparr>qr_queued = True, qr_duplicate = False, qr_requeued = requeued, qr_job = j\<rparr>)"

definition queue_locked :: "job_config \<Rightarrow> job_env \<Rightarrow> string \<Rightarrow> job_record \<Rightarrow> queue_result job_call" where
  "queue_locked cfg env jobId fresh = bindS (repair cfg env (active_states @ [DeadLetter])) (\<lambda>_.
     bindS (locate jobId) (\<lambda>existing. case existing of
       Some st \<Rightarrow> bindS (read_record st jobId) (\<lambda>r.
         bindS (liftS (decrypt_management r)) (\<lambda>m.
         if jr_state r \<noteq> DeadLetter then
           returnS \<lparr>qr_queued = False, qr_duplicate = True, qr_requeued = False, qr_job = public_job_of r m\<rparr>
         else bindS (write_and_move st Pending fresh) (\<lambda>_. queued_result True fresh)))
     | None \<Rightarrow> bindS (write_record Pending fresh) (\<lambda>_. queued_result False fresh)))"

definition queue_job ::
  "job_config \<Rightarrow> job_env \<Rightarrow> string option \<Rightarrow> jsval \<Rightarrow> jsval \<Rightarrow> jsval \<Rightarrow> queue_result job_call" where
  "queue_job cfg env bytes input providerId actor =
     bindS (liftS (validate_content_record (jc_sha cfg) bytes input)) (\<lambda>content.
     bindS (liftS (provider_for cfg providerId)) (\<lambda>provider.
     ensureS (pv_hmacKeys provider \<noteq> []) (JobConflict ''request keys'')
    (bindS (liftS (latest_delivery_key provider)) (\<lambda>delivery.
     bindS (liftS (job_identifier actor ''actor'')) (\<lambda>queuedBy.
     let jobId = job_id_for (jc_sha cfg) (cr_tenantId content) (cr_evidenceId content) (cr_version content)
                   (cr_contentSha256 content) providerId
     in locked env (queue_locked cfg env jobId
          (new_record cfg (je_now env) content providerId delivery queuedBy jobId)))))))"

record claimed_job =
  cl_jobId :: string
  cl_claimToken :: string
  cl_claimExpiresAt :: int
  cl_package :: job_package

definition claimed_record :: "job_config \<Rightarrow> job_env \<Rightarrow> job_record \<Rightarrow> job_record" where
  "claimed_record cfg env r = r\<lparr>jr_state := Inflight, jr_updatedAt := je_now env, jr_attempts := jr_attempts r + 1,
     jr_claimToken := Some (je_claimToken env (jr_jobId r)), jr_claimedAt := Some (je_now env),
     jr_claimExpiresAt := Some (je_now env + jc_leaseMs cfg)\<rparr>"

definition package_intact :: "job_config \<Rightarrow> job_record \<Rightarrow> bool" where
  "package_intact cfg r = (case jr_package r of None \<Rightarrow> False | Some p \<Rightarrow> jc_packageHash cfg p = jr_packageSha256 r)"

text \<open>One round of the loop: the job that it hands out, if any.\<close>

definition claim_one :: "job_config \<Rightarrow> job_env \<Rightarrow> string \<Rightarrow> string \<Rightarrow> claimed_job option job_call" where
  "claim_one cfg env providerId i = bindS (read_record Pending i) (\<lambda>r.
     ensureS (jr_state r = Pending) (JobIntegrity ''state'')
    (if jr_providerId r \<noteq> JStr providerId then returnS None
     else if jr_nextAttemptAt r > je_now env then returnS None
     else if jr_expiresAt r \<le> je_now env then bindS (move_to_dead cfg env Pending ''job_expired'' r) (\<lambda>_. returnS None)
     else if \<not> package_intact cfg r then
       bindS (move_to_dead cfg env Pending ''sealed_package_invalid'' r) (\<lambda>_. returnS None)
     else bindS (write_and_move Pending Inflight (claimed_record cfg env r)) (\<lambda>_.
       returnS (Some \<lparr>cl_jobId = jr_jobId r, cl_claimToken = je_claimToken env (jr_jobId r),
         cl_claimExpiresAt = je_now env + jc_leaseMs cfg, cl_package = the (jr_package r)\<rparr>))))"

fun claim_loop :: "job_config \<Rightarrow> job_env \<Rightarrow> string \<Rightarrow> nat \<Rightarrow> string list \<Rightarrow> claimed_job list job_call" where
  "claim_loop cfg env providerId limit [] = returnS []"
| "claim_loop cfg env providerId limit (i # names) = (if limit = 0 then returnS [] else
     bindS (claim_one cfg env providerId i) (\<lambda>c. case c of
       None \<Rightarrow> claim_loop cfg env providerId limit names
     | Some j \<Rightarrow> bindS (claim_loop cfg env providerId (limit - 1) names) (\<lambda>js. returnS (j # js))))"

definition signed_section :: "job_config \<Rightarrow> job_env \<Rightarrow> scan_auth \<Rightarrow> 'a job_call \<Rightarrow> 'a job_call" where
  "signed_section cfg env auth m = locked env (bindS (consume_replay cfg (je_now env) auth) (\<lambda>_.
     bindS (repair cfg env [Pending, Inflight]) (\<lambda>_. m)))"

definition claim_signed ::
  "job_config \<Rightarrow> job_env \<Rightarrow> string \<Rightarrow> (string \<Rightarrow> jsval) \<Rightarrow> (string \<times> claimed_job list) job_call" where
  "claim_signed cfg env body headers =
     bindS (liftS (authenticate_scan cfg (je_now env) body headers)) (\<lambda>auth.
     bindS (liftS (strict_json (jc_parse cfg) body [''limit''])) (\<lambda>input.
     bindS (liftS (job_integer (js_or_nullish (js_get input ''limit'') (JInt 1)) ''limit'' 1 25)) (\<lambda>limit.
     signed_section cfg env auth
       (bindS (getS (\<lambda>s. job_names s Pending)) (\<lambda>names.
        bindS (claim_loop cfg env (sa_providerId auth) (nat limit) names) (\<lambda>claimed.
        returnS (sa_providerId auth, claimed)))))))"

definition delivered_record :: "int \<Rightarrow> job_record \<Rightarrow> job_record" where
  "delivered_record now r = r\<lparr>jr_state := Delivered, jr_updatedAt := now, jr_deliveredAt := Some now,
     jr_claimToken := None, jr_claimedAt := None, jr_claimExpiresAt := None, jr_package := None,
     jr_result := Some Acknowledged\<rparr>"

definition acknowledge_signed ::
  "job_config \<Rightarrow> job_env \<Rightarrow> jsval \<Rightarrow> string \<Rightarrow> (string \<Rightarrow> jsval) \<Rightarrow> public_job job_call" where
  "acknowledge_signed cfg env jobId body headers =
     bindS (liftS (authenticate_scan cfg (je_now env) body headers)) (\<lambda>auth.
     bindS (liftS (strict_json (jc_parse cfg) body [''claimToken''])) (\<lambda>input.
     bindS (liftS (job_identifier (js_get input ''claimToken'') ''claimToken'')) (\<lambda>claimToken.
     signed_section cfg env auth
       (bindS (liftS (safe_job_id jobId)) (\<lambda>i.
        bindS (read_owned_claim env i (sa_providerId auth) claimToken) (\<lambda>r.
        bindS (write_and_move Inflight Delivered (delivered_record (je_now env) r)) (\<lambda>_.
        public_of_record (delivered_record (je_now env) r))))))))"

definition fail_claimed :: "job_config \<Rightarrow> job_env \<Rightarrow> bool \<Rightarrow> string \<Rightarrow> job_record \<Rightarrow> public_job job_call" where
  "fail_claimed cfg env retryable reasonCode r =
     (if retryable \<and> jr_attempts r < jc_attempts cfg \<and> jr_package r \<noteq> None then
        bindS (write_and_move Inflight Pending (back_to_pending (je_now env) (RetryResult reasonCode) r)) (\<lambda>_.
        public_of_record (back_to_pending (je_now env) (RetryResult reasonCode) r))
      else bindS (move_to_dead cfg env Inflight reasonCode r) public_of_record)"

definition fail_signed ::
  "job_config \<Rightarrow> job_env \<Rightarrow> jsval \<Rightarrow> string \<Rightarrow> (string \<Rightarrow> jsval) \<Rightarrow> public_job job_call" where
  "fail_signed cfg env jobId body headers =
     bindS (liftS (authenticate_scan cfg (je_now env) body headers)) (\<lambda>auth.
     bindS (liftS (strict_json (jc_parse cfg) body [''claimToken'', ''retryable'', ''reasonCode''])) (\<lambda>input.
     bindS (liftS (job_identifier (js_get input ''claimToken'') ''claimToken'')) (\<lambda>claimToken.
     bindS (liftS (job_boolean (js_get input ''retryable'') ''retryable'')) (\<lambda>retryable.
     bindS (liftS (safe_reason_code (js_get input ''reasonCode''))) (\<lambda>reasonCode.
     signed_section cfg env auth
       (bindS (liftS (safe_job_id jobId)) (\<lambda>i.
        bindS (read_owned_claim env i (sa_providerId auth) claimToken) (fail_claimed cfg env retryable reasonCode))))))))"

record scan_attestation =
  sc_tenantId :: string
  sc_evidenceId :: string
  sc_version :: int
  sc_contentSha256 :: string
  sc_providerId :: string
  sc_attestationId :: string
  sc_receiptId :: string
  sc_verdict :: string
  sc_scannedAt :: int

datatype completion = Unmatched | Matched bool public_job

definition completed_record :: "int \<Rightarrow> scan_attestation \<Rightarrow> job_record \<Rightarrow> job_record" where
  "completed_record now a r = r\<lparr>jr_state := Completed, jr_updatedAt := now, jr_completedAt := Some now,
     jr_claimToken := None, jr_claimedAt := None, jr_claimExpiresAt := None, jr_package := None,
     jr_result := Some (Attested (sc_attestationId a) (sc_receiptId a) (sc_verdict a) (sc_scannedAt a))\<rparr>"

definition attested_job :: "job_config \<Rightarrow> scan_attestation \<Rightarrow> string" where
  "attested_job cfg a = job_id_for (jc_sha cfg) (sc_tenantId a) (sc_evidenceId a) (sc_version a)
     (sc_contentSha256 a) (JStr (sc_providerId a))"

definition attestation_matches :: "scan_attestation \<Rightarrow> job_record \<Rightarrow> job_management \<Rightarrow> bool" where
  "attestation_matches a r m = (\<not> (jm_tenantId m \<noteq> sc_tenantId a \<or> jm_evidenceId m \<noteq> sc_evidenceId a
     \<or> jm_evidenceVersion m \<noteq> sc_version a \<or> jm_contentSha256 m \<noteq> sc_contentSha256 a
     \<or> jr_providerId r \<noteq> JStr (sc_providerId a)))"

definition complete_located :: "job_config \<Rightarrow> job_env \<Rightarrow> scan_attestation \<Rightarrow> string \<Rightarrow> job_state \<Rightarrow> completion job_call" where
  "complete_located cfg env a jobId st = bindS (read_record st jobId) (\<lambda>r.
     bindS (liftS (decrypt_management r)) (\<lambda>m.
     ensureS (attestation_matches a r m) (JobIntegrity ''attestation'')
    (if jr_state r = Completed then returnS (Matched True (public_job_of r m))
     else let r' = completed_record (je_now env) a r in
       bindS (write_and_move st Completed r') (\<lambda>_.
       bindS (prune_terminal Completed (jc_completedLimit cfg) jr_completedAt) (\<lambda>_.
       returnS (Matched False (public_job_of r' m)))))))"

definition complete_from_attestation :: "job_config \<Rightarrow> job_env \<Rightarrow> scan_attestation option \<Rightarrow> completion job_call" where
  "complete_from_attestation cfg env attestation = (case attestation of
     None \<Rightarrow> returnS Unmatched
   | Some a \<Rightarrow> if sc_tenantId a = [] \<or> sc_evidenceId a = [] \<or> sc_providerId a = [] then returnS Unmatched
       else locked env (bindS (repair cfg env (active_states @ [DeadLetter])) (\<lambda>_.
         bindS (locate (attested_job cfg a)) (\<lambda>located. case located of
           None \<Rightarrow> returnS Unmatched
         | Some st \<Rightarrow> complete_located cfg env a (attested_job cfg a) st))))"

text \<open>The rows of all directories, in the order of the states and of the file names.\<close>

definition read_row :: "job_state \<Rightarrow> string \<Rightarrow> (job_record \<times> job_management) job_call" where
  "read_row st i = bindS (read_record st i) (\<lambda>r. ensureS (jr_state r = st) (JobIntegrity ''state'')
     (bindS (liftS (decrypt_management r)) (\<lambda>m. returnS (r, m))))"

definition read_rows :: "(job_record \<times> job_management) list job_call" where
  "read_rows = bindS (map_each (\<lambda>st. bindS (getS (\<lambda>s. job_names s st)) (map_each (read_row st))) job_states)
     (\<lambda>rows. returnS (concat rows))"

definition select_rows :: "string \<Rightarrow> string option \<Rightarrow> (job_record \<times> job_management) list \<Rightarrow> public_job list" where
  "select_rows tenant evidence rows = map (\<lambda>(r, m). public_job_of r m)
     (filter (\<lambda>(r, m). jm_tenantId m = tenant \<and> (case evidence of None \<Rightarrow> True | Some e \<Rightarrow> jm_evidenceId m = e)) rows)"

definition list_jobs :: "job_config \<Rightarrow> job_env \<Rightarrow> jsval \<Rightarrow> jsval \<Rightarrow> jsval \<Rightarrow> public_job list job_call" where
  "list_jobs cfg env tenantId evidenceId limit =
     bindS (liftS (job_identifier tenantId ''tenantId'')) (\<lambda>tenant.
     bindS (liftS (if nullish evidenceId then Inr None else bindR (job_evidence_id evidenceId) (\<lambda>e. Inr (Some e)))) (\<lambda>evidence.
     locked env (bindS (repair cfg env active_states) (\<lambda>_.
       bindS read_rows (\<lambda>rows.
       bindS (liftS (job_integer (if limit = JUndef then JInt 100 else limit) ''limit'' 1 5000)) (\<lambda>n.
       returnS (take (nat n) (sort_key (\<lambda>j. - pj_createdAt j) (select_rows tenant evidence rows)))))))))"

definition latest_job :: "job_config \<Rightarrow> job_env \<Rightarrow> jsval \<Rightarrow> jsval \<Rightarrow> int option \<Rightarrow> public_job option job_call" where
  "latest_job cfg env tenantId evidenceId version = bindS (list_jobs cfg env tenantId evidenceId (JInt 5000)) (\<lambda>rows.
     returnS (find (\<lambda>j. version = None \<or> version = Some (pj_evidenceVersion j)) rows))"

record tenant_scan_status =
  ts_status :: string
  ts_total :: nat
  ts_counts :: "job_state \<Rightarrow> nat"

definition tenant_scan_status_of :: "public_job list \<Rightarrow> tenant_scan_status" where
  "tenant_scan_status_of js = (let count = (\<lambda>st. length (filter (\<lambda>j. pj_state j = st) js)) in
     \<lparr>ts_status = (if count DeadLetter > 0 \<or> count Pending > 0 \<or> count Inflight > 0 \<or> count Delivered > 0
        then ''attention'' else ''ready''), ts_total = length js, ts_counts = count\<rparr>)"

definition outbox_tenant_status :: "job_config \<Rightarrow> job_env \<Rightarrow> jsval \<Rightarrow> tenant_scan_status job_call" where
  "outbox_tenant_status cfg env tenantId = bindS (list_jobs cfg env tenantId JNull (JInt 5000)) (\<lambda>js.
     returnS (tenant_scan_status_of js))"

definition verify_row :: "job_config \<Rightarrow> string \<Rightarrow> job_record \<times> job_management \<Rightarrow> nat job_call" where
  "verify_row cfg tenant row = (case row of (r, m) \<Rightarrow>
     if jm_tenantId m \<noteq> tenant then returnS 0
     else ensureS (jr_package r = None \<or> package_intact cfg r) (JobIntegrity ''checksum'') (returnS 1))"

definition verify_outbox :: "job_config \<Rightarrow> job_env \<Rightarrow> jsval \<Rightarrow> nat job_call" where
  "verify_outbox cfg env tenantId = bindS (liftS (job_identifier tenantId ''tenantId'')) (\<lambda>tenant.
     locked env (bindS (repair cfg env active_states) (\<lambda>_.
       bindS (map_each (\<lambda>st. bindS (getS (\<lambda>s. job_names s st))
           (map_each (\<lambda>i. bindS (read_row st i) (verify_row cfg tenant)))) job_states) (\<lambda>ns.
       returnS (sum_list (map sum_list ns))))))"

record outbox_health =
  oh_status :: string
  oh_counts :: "(job_state \<times> nat) list"

definition outbox_health_of :: "job_config \<Rightarrow> job_env \<Rightarrow> outbox_health job_call" where
  "outbox_health_of cfg env = catchS
     (locked env (bindS (repair cfg env active_states) (\<lambda>_.
        bindS (getS (\<lambda>s. map (\<lambda>st. (st, length (job_names s st))) job_states)) (\<lambda>counts.
        returnS \<lparr>oh_status = (if map_of counts DeadLetter = Some 0 then ''ready'' else ''degraded''), oh_counts = counts\<rparr>))))
     (\<lambda>_. returnS \<lparr>oh_status = ''unavailable'', oh_counts = []\<rparr>)"

end
