(* ===== verification/RecordFiles.thy ===== *)
theory RecordFiles
  imports ScanOutbox
begin

section \<open>Directories of sealed records\<close>

text \<open>
  What src/evidence/evidenceAssuranceExportApprovalStore.js and
  src/evidence/evidenceAssuranceBundleStore.js have in common: one encrypted file per record in a
  directory per tenant or recipient. A new record is written with exclusive creation to its final
  path, a changed one to a temporary file that is then renamed. \<open>rd_writes\<close> says how the next writes
  end: \<open>Stored\<close>; \<open>NotStored\<close>, an error that leaves no file; \<open>StoredUnsynced\<close>, an error of the
  directory sync, after which the file is there; and \<open>TornFile\<close>, an error whose clean-up fails too, or
  a crash: an exclusive write leaves a part of the file, a temporary file is not looked at again.
  \<open>rd_removals\<close> says whether the next removals succeed. Lists that have run out give success.
\<close>

datatype export_error =
    XValidation string
  | XConflict string
  | XRequired string
  | XIntegrity string
  | XStore
  | XAuth string
  | XLock
  | XFile
  | XType string

datatype put_outcome = Stored | NotStored | StoredUnsynced | TornFile

record 'r record_store =
  rd_dirs :: "string \<Rightarrow> (string \<times> 'r job_file) list"
  rd_writes :: "put_outcome list"
  rd_removals :: "bool list"

type_synonym ('r, 'a) store_call = "('r record_store, export_error, 'a) call"

subsection \<open>Files\<close>

definition draw_put :: "('r, put_outcome) store_call" where
  "draw_put s = (case rd_writes s of [] \<Rightarrow> (s, Inr Stored) | w # ws \<Rightarrow> (s\<lparr>rd_writes := ws\<rparr>, Inr w))"

definition draw_removal :: "('r, bool) store_call" where
  "draw_removal s = (case rd_removals s of [] \<Rightarrow> (s, Inr True) | m # ms \<Rightarrow> (s\<lparr>rd_removals := ms\<rparr>, Inr m))"

definition record_file :: "'r record_store \<Rightarrow> string \<Rightarrow> string \<Rightarrow> 'r job_file option" where
  "record_file s d i = map_of (rd_dirs s d) i"

definition put_record :: "string \<Rightarrow> string \<Rightarrow> 'r job_file \<Rightarrow> 'r record_store \<Rightarrow> 'r record_store" where
  "put_record d i f s = s\<lparr>rd_dirs := (rd_dirs s)(d := put_assoc i f (rd_dirs s d))\<rparr>"

definition drop_record :: "string \<Rightarrow> string \<Rightarrow> 'r record_store \<Rightarrow> 'r record_store" where
  "drop_record d i s = s\<lparr>rd_dirs := (rd_dirs s)(d := without i (rd_dirs s d))\<rparr>"

text \<open>\<open>readdirSync(...).filter(...).sort()\<close>.\<close>

definition record_names :: "(string \<Rightarrow> bool) \<Rightarrow> string \<Rightarrow> 'r record_store \<Rightarrow> string list" where
  "record_names named d s = sort (filter named (map fst (rd_dirs s d)))"

definition write_exclusive :: "string \<Rightarrow> string \<Rightarrow> string \<Rightarrow> 'r \<Rightarrow> ('r, unit) store_call" where
  "write_exclusive d i aad r = bindS (getS (\<lambda>s. record_file s d i)) (\<lambda>f.
     ensureS (f = None) (XIntegrity ''conflicting record'')
    (bindS draw_put (\<lambda>w.
     bindS (modifyS (case w of NotStored \<Rightarrow> (\<lambda>s. s) | TornFile \<Rightarrow> put_record d i Unparsable
        | _ \<Rightarrow> put_record d i (SealedFile aad r))) (\<lambda>_.
     ensureS (w = Stored) XStore (returnS ())))))"

definition replace_file :: "string \<Rightarrow> string \<Rightarrow> string \<Rightarrow> 'r \<Rightarrow> ('r, unit) store_call" where
  "replace_file d i aad r = bindS draw_put (\<lambda>w.
     bindS (modifyS (if w \<in> {Stored, StoredUnsynced} then put_record d i (SealedFile aad r) else (\<lambda>s. s))) (\<lambda>_.
     ensureS (w = Stored) XStore (returnS ())))"

definition remove_record :: "string \<Rightarrow> string \<Rightarrow> ('r, unit) store_call" where
  "remove_record d i = bindS draw_removal (\<lambda>done. ensureS done XFile (modifyS (drop_record d i)))"

definition read_file :: "string \<Rightarrow> ('r \<Rightarrow> bool) \<Rightarrow> string \<Rightarrow> string \<Rightarrow> ('r, 'r) store_call" where
  "read_file aad genuine d i s = (s, case record_file s d i of
       Some (SealedFile sealed r) \<Rightarrow> ensure (sealed = aad \<and> genuine r) (XIntegrity ''record'') (Inr r)
     | Some Unauthentic \<Rightarrow> Inl (XIntegrity ''record'')
     | _ \<Rightarrow> Inl XStore)"

subsection \<open>Validators\<close>

definition x_identifier :: "jsval \<Rightarrow> string \<Rightarrow> export_error + string" where
  "x_identifier v field = (let i = trimmed v in ensure (safe_ident ''._:@/-'' 1 191 i) (XValidation field) (Inr i))"

definition x_evidence_id :: "jsval \<Rightarrow> export_error + string" where
  "x_evidence_id v = (let i = ev_text v in ensure (is_evidence_id i) (XValidation ''evidenceId'') (Inr i))"

definition x_hash :: "jsval \<Rightarrow> string \<Rightarrow> export_error + string" where
  "x_hash v field = (let h = map to_lower (ev_text v) in ensure (is_hex_text 64 h) (XValidation field) (Inr h))"

definition x_text :: "jsval \<Rightarrow> string \<Rightarrow> nat \<Rightarrow> nat \<Rightarrow> export_error + string" where
  "x_text v field lo hi = from_option (XValidation field) (text_in lo hi v)"

definition x_integer :: "jsval \<Rightarrow> string \<Rightarrow> int \<Rightarrow> int \<Rightarrow> export_error + int" where
  "x_integer v field lo hi = from_option (XValidation field) (int_in lo hi v)"

text \<open>\<open>{ field = null }\<close> of a parameter pattern: a missing field is null.\<close>

definition null_default :: "jsval \<Rightarrow> jsval" where
  "null_default v = (if v = JUndef then JNull else v)"

definition int_default :: "jsval \<Rightarrow> int \<Rightarrow> jsval" where
  "int_default v n = (if v = JUndef then JInt n else v)"

text \<open>\<open>parseEvidenceKeyring\<close> (src/evidence/evidenceCrypto.js): the keys and the identifier of the primary one.\<close>

definition evidence_key :: "string \<times> jsval \<Rightarrow> export_error + string \<times> string" where
  "evidence_key entry = ensure (safe_ident ''._:-'' 1 191 (fst entry)) (XType ''keyId'')
     (bindR (from_option (XType ''base64'') (strict_base64 (snd entry))) (\<lambda>key.
      ensure (length key = 32) (XType ''key length'') (Inr (fst entry, key))))"

definition evidence_keyring :: "jsval \<Rightarrow> jsval \<Rightarrow> export_error + (string \<times> string) list \<times> string" where
  "evidence_keyring rawKeys primaryKeyId = (case rawKeys of
     JObj entries \<Rightarrow> ensure (entries \<noteq> [] \<and> length entries \<le> 100) (XType ''keys'')
       (bindR (mapR evidence_key entries) (\<lambda>keys.
        let primary = (if nullish primaryKeyId then fst (hd entries) else js_String primaryKeyId) in
        ensure (primary \<in> fst ` set keys) (XType ''primary key'') (Inr (keys, primary))))
   | _ \<Rightarrow> Inl (XType ''keys''))"

subsection \<open>What the file operations do to the files\<close>

type_synonym 'r view = "string \<Rightarrow> string \<Rightarrow> 'r job_file option"

definition set_view :: "'r view \<Rightarrow> string \<Rightarrow> string \<Rightarrow> 'r job_file option \<Rightarrow> 'r view" where
  "set_view v d i f = v(d := (v d)(i := f))"

lemma set_view_at [simp]: "set_view v d i f d' i' = (if d' = d \<and> i' = i then f else v d' i')"
  by (simp add: set_view_def)

lemma record_file_writes [simp]:
  "record_file (s\<lparr>rd_writes := ws\<rparr>) = record_file s" "record_file (s\<lparr>rd_removals := ms\<rparr>) = record_file s"
  by (simp_all add: record_file_def fun_eq_iff)

lemma record_file_put [simp]: "record_file (put_record d i f s) = set_view (record_file s) d i (Some f)"
  by (auto simp: record_file_def put_record_def set_view_def fun_eq_iff)

lemma map_of_without_upd: "map_of (without i es) = (map_of es)(i := None)"
  by (induction es) (auto simp: without_def fun_eq_iff)

lemma record_file_drop [simp]: "record_file (drop_record d i s) = set_view (record_file s) d i None"
  by (auto simp: record_file_def drop_record_def set_view_def map_of_without_upd fun_eq_iff)

lemma record_names_set: "set (record_names named d s) = {i. named i \<and> record_file s d i \<noteq> None}"
  by (auto simp: record_names_def record_file_def map_of_eq_None_iff)

lemma after_draw_put:
  assumes "\<And>w ws. Q w (s\<lparr>rd_writes := ws\<rparr>)" "Q Stored s"
  shows "after draw_put Q E s"
  using assms by (auto simp: after_def draw_put_def split: list.split)

lemma after_read_file:
  assumes "\<And>e. E e s" and "\<And>r. record_file s d i = Some (SealedFile aad r) \<Longrightarrow> genuine r \<Longrightarrow> Q r s"
  shows "after (read_file aad genuine d i) Q E s"
  using assms
  by (cases "record_file s d i") (auto simp: after_def read_file_def ensure_def split: job_file.split)

lemma after_write_exclusive:
  "after (write_exclusive d i aad r)
     (\<lambda>_ s'. record_file s d i = None \<and> record_file s' = set_view (record_file s) d i (Some (SealedFile aad r)))
     (\<lambda>_ s'. record_file s' = record_file s \<or> record_file s d i = None \<and>
        (\<exists>f \<in> {SealedFile aad r, Unparsable}. record_file s' = set_view (record_file s) d i (Some f))) s"
  unfolding write_exclusive_def
  by (auto intro!: after_draw_put split: put_outcome.split)

lemma after_replace_file:
  "after (replace_file d i aad r)
     (\<lambda>_ s'. record_file s' = set_view (record_file s) d i (Some (SealedFile aad r)))
     (\<lambda>_ s'. record_file s' = record_file s \<or> record_file s' = set_view (record_file s) d i (Some (SealedFile aad r))) s"
  unfolding replace_file_def
  by (auto intro!: after_draw_put)

lemma after_remove_record:
  "after (remove_record d i) (\<lambda>_ s'. record_file s' = set_view (record_file s) d i None) (\<lambda>_ s'. record_file s' = record_file s) s"
  by (auto simp: after_def remove_record_def draw_removal_def bindS_def ensureS_def modifyS_def split: list.split)

text \<open>How the files of a state relate to those of an earlier one.\<close>

definition tracks :: "('r job_file option \<Rightarrow> 'r job_file option \<Rightarrow> bool) \<Rightarrow> 'r view \<Rightarrow> 'r record_store \<Rightarrow> bool" where
  "tracks R v s = (\<forall>d i. R (v d i) (record_file s d i))"

lemma tracks_cong: "record_file s' = record_file s \<Longrightarrow> tracks R v s \<Longrightarrow> tracks R v s'"
  by (simp add: tracks_def)

lemma tracks_set:
  "tracks R v s \<Longrightarrow> record_file s' = set_view (record_file s) d i f \<Longrightarrow> (R (v d i) (record_file s d i) \<Longrightarrow> R (v d i) f) \<Longrightarrow> tracks R v s'"
  by (auto simp: tracks_def)

lemma tracks_refl: "reflp R \<Longrightarrow> tracks R (record_file s) s"
  by (simp add: tracks_def reflpD)

lemma keeps_read_file [keeps_intros]: "keeps P (read_file aad genuine d i)"
  by (simp add: keeps_def read_file_def)

lemma keeps_replace_file:
  assumes "\<And>s s'. P s \<Longrightarrow> record_file s' \<in> {record_file s, set_view (record_file s) d i (Some (SealedFile aad r))} \<Longrightarrow> P s'"
  shows "keeps P (replace_file d i aad r)"
  using assms by (intro keepsI after_weaken [OF after_replace_file]) auto

subsection \<open>A store and a world next to it\<close>

text \<open>Calls on one half of a state of two parts.\<close>

definition on_store :: "('s, 'e, 'a) call \<Rightarrow> ('s \<times> 'x, 'e, 'a) call" where
  "on_store m = (\<lambda>(s, x). case m s of (s', r) \<Rightarrow> ((s', x), r))"

definition on_world :: "('x, 'e, 'a) call \<Rightarrow> ('s \<times> 'x, 'e, 'a) call" where
  "on_world m = (\<lambda>(s, x). case m x of (x', r) \<Rightarrow> ((s, x'), r))"

lemma after_on_store: "after (on_store m) Q E (s, x) = after m (\<lambda>y s'. Q y (s', x)) (\<lambda>e s'. E e (s', x)) s"
  by (auto simp: after_def on_store_def split: prod.split sum.split)

lemma after_on_world: "after (on_world m) Q E (s, x) = after m (\<lambda>y x'. Q y (s, x')) (\<lambda>e x'. E e (s, x')) x"
  by (auto simp: after_def on_world_def split: prod.split sum.split)

lemma on_store_bindS: "bindS (on_store m) (\<lambda>x. on_store (f x)) = on_store (bindS m f)"
  by (auto simp: on_store_def bindS_def fun_eq_iff split: prod.split sum.split)

lemma map_each_on_store: "map_each (\<lambda>i. on_store (m i)) xs = on_store (map_each m xs)"
  by (induction xs) (auto simp: on_store_def bindS_def returnS_def fun_eq_iff split: prod.split sum.split)

lemma for_each_on_store: "for_each (\<lambda>i. on_store (m i)) xs = on_store (for_each m xs)"
  by (induction xs) (auto simp: on_store_def bindS_def returnS_def fun_eq_iff split: prod.split sum.split)

lemma keeps_on_store [keeps_intros]: "keeps (\<lambda>st. P (snd st)) (on_store m)"
  by (auto simp: keeps_def on_store_def split: prod.split)

lemma keeps_on_world: "keeps P m \<Longrightarrow> keeps (\<lambda>st. P (snd st)) (on_world m)"
  by (auto simp: keeps_def on_world_def split: prod.split)

text \<open>A call of which only the effect counts.\<close>

definition forget :: "('s, 'e, 'a) call \<Rightarrow> ('s, 'e, unit) call" where
  "forget m = bindS m (\<lambda>_. returnS ())"

lemma after_forget: "after (forget m) (\<lambda>_. P) E = after m (\<lambda>_. P) E"
  by (simp add: forget_def)

lemma forget_Inr: "snd (forget m s) = Inr () \<longleftrightarrow> (\<exists>x. snd (m s) = Inr x)"
  by (cases "m s"; cases "snd (m s)") (simp_all add: forget_def bindS_def returnS_def)

lemma fst_forget [simp]: "fst (forget m s) = fst (m s)"
  by (cases "m s"; cases "snd (m s)") (simp_all add: forget_def bindS_def returnS_def)

subsection \<open>Retention\<close>

text \<open>The records of a directory are read, and some of the finished ones removed.\<close>

definition removed_by :: "('r \<Rightarrow> bool) \<Rightarrow> 'r job_file option \<Rightarrow> 'r job_file option \<Rightarrow> bool" where
  "removed_by over f f' \<longleftrightarrow> f' = f \<or> f' = None \<and> (\<exists>aad r. f = Some (SealedFile aad r) \<and> over r)"

lemma removed_by_refl [simp]: "removed_by over f f"
  by (simp add: removed_by_def)

lemma after_remove_over:
  assumes "\<And>i r. genuine i r \<Longrightarrow> name r = i"
  shows "after (bindS (map_each (\<lambda>i. read_file (aad i) (genuine i) d i) names)
       (\<lambda>rs. for_each (remove_record d) (map name (take (n rs) (sort_key key (filter over rs))))))
     (\<lambda>_. tracks (removed_by over) (record_file s)) (\<lambda>_. tracks (removed_by over) (record_file s)) s"
proof -
  let ?R = "\<lambda>i r. record_file s d i = Some (SealedFile (aad i) r) \<and> name r = i"
  have read: "after (map_each (\<lambda>i. read_file (aad i) (genuine i) d i) names) (\<lambda>rs s'. s' = s \<and> list_all2 ?R names rs) (\<lambda>_ s'. s' = s) s"
    by (rule after_map_each) (auto intro!: after_read_file simp: assms)
  have remove: "after (for_each (remove_record d) ids) (\<lambda>_. tracks (removed_by over) (record_file s)) (\<lambda>_. tracks (removed_by over) (record_file s)) s"
    if ids: "\<forall>i \<in> set ids. \<exists>aad r. record_file s d i = Some (SealedFile aad r) \<and> over r" for ids
  proof (rule after_for_each)
    fix i s' assume i: "i \<in> set ids" and s': "tracks (removed_by over) (record_file s) s'"
    have gone: "tracks (removed_by over) (record_file s) s2" if "record_file s2 = set_view (record_file s') d i None" for s2
      using that s' bspec [OF ids i] by (auto simp: tracks_def removed_by_def)
    show "after (remove_record d i) (\<lambda>_. tracks (removed_by over) (record_file s)) (\<lambda>_. tracks (removed_by over) (record_file s)) s'"
      by (rule after_weaken [OF after_remove_record]) (auto intro: gone tracks_cong [OF _ s'])
  qed (simp add: tracks_def)
  have "\<exists>aad r. record_file s d i = Some (SealedFile aad r) \<and> over r"
    if rs: "list_all2 ?R names rs" and i: "i \<in> name ` set (take (n rs) (sort_key key (filter over rs)))" for rs i
  proof -
    obtain r where r: "r \<in> set rs" "over r" "name r = i"
      using i by (auto dest!: in_set_takeD)
    then show ?thesis using rs by (force simp: list_all2_conv_all_nth in_set_conv_nth)
  qed
  then show ?thesis
    by (auto simp: tracks_def [of _ _ s] intro!: after_weaken [OF read] remove)
qed

lemma tracks_compose:
  "tracks R v s \<Longrightarrow> tracks S (record_file s) s' \<Longrightarrow> (\<And>a b c. R a b \<Longrightarrow> S b c \<Longrightarrow> T a c) \<Longrightarrow> tracks T v s'"
  unfolding tracks_def by blast

lemma x_identifier_Inr: "x_identifier v field = Inr t \<longleftrightarrow> t = trimmed v \<and> safe_ident ''._:@/-'' 1 191 t"
  by (auto simp: x_identifier_def Let_def)

end
