(* ===== verification/ExportApproval.thy ===== *)
theory ExportApproval
  imports RecordFiles
begin

section \<open>Approvals of assurance exports (src/evidence/evidenceAssuranceExportApprovalStore.js)\<close>

text \<open>
  Nobody discloses evidence alone: an export is a request, one encrypted record per request in the
  directory of its tenant, that a quorum of others approves before \<open>execute_approved\<close> runs the export
  once and marks the request consumed. The identifier of a request is a digest of what it asks for.
  \<open>ac_sha\<close> is sha256. The clock stands still during an operation, and every operation of a
  tenant runs under one lock. \<open>publicRecord\<close> is the record without its tenant and format; the
  operations here return the record. Not modelled: \<open>health()\<close> and the loader from environment variables.
\<close>

subsection \<open>Data\<close>

datatype ap_state = ApPending | ApApproved | ApRejected | ApCancelled | ApExpired | ApConsumed

record ap_source =
  so_tenantId :: string
  so_evidenceId :: string
  so_evidenceVersion :: int
  so_contentSha256 :: string
  so_recipientId :: string
  so_purpose :: string
  so_requestedBy :: string

record approval = ap_source +
  ar_requestId :: string
  ar_state :: ap_state
  ar_requiredApprovals :: int
  ar_approvals :: "(string \<times> int) list"
  ar_createdAt :: int
  ar_expiresAt :: int
  ar_rejectedAt :: "int option"
  ar_rejectedBy :: "string option"
  ar_rejectionReason :: "string option"
  ar_cancelledAt :: "int option"
  ar_cancelledBy :: "string option"
  ar_consumedAt :: "int option"
  ar_consumedBy :: "string option"
  ar_bundleId :: "string option"

record ap_config =
  ac_required :: bool
  ac_quorum :: int
  ac_ttlMs :: int
  ac_retained :: nat
  ac_sha :: "string \<Rightarrow> string"

record ap_env =
  ae_now :: int
  ae_lock :: lock_outcome

type_synonym 'a ap_call = "(approval, 'a) store_call"

subsection \<open>Construction\<close>

text \<open>\<open>None\<close> is the disabled store.\<close>

definition make_approval_store :: "(string \<Rightarrow> string) \<Rightarrow> jsval \<Rightarrow> export_error + ap_config option" where
  "make_approval_store sha options =
     (let opt = (\<lambda>field d. let v = js_get options field in if v = JUndef then d else v);
          mode = ev_text (opt ''mode'' (JStr ''disabled'')) in
      ensure (mode \<in> {''disabled'', ''shared-file''}) (XType ''mode'')
     (bindR (case opt ''required'' (JBool False) of JBool b \<Rightarrow> Inr b | _ \<Rightarrow> Inl (XType ''required'')) (\<lambda>required.
      if mode = ''disabled'' then ensure (\<not> required) (XType ''required'') (Inr None)
      else ensure (trimmed (opt ''directory'' JUndef) \<noteq> []) (XType ''directory'')
     (bindR (evidence_keyring (opt ''encryptionKeys'' JUndef) (opt ''encryptionPrimaryKeyId'' JUndef)) (\<lambda>_.
      bindR (x_integer (opt ''requiredApprovals'' (JInt 2)) ''requiredApprovals'' 1 5) (\<lambda>quorum.
      bindR (x_integer (opt ''requestTtlMinutes'' (JInt 1440)) ''requestTtlMinutes'' 5 43200) (\<lambda>ttl.
      bindR (x_integer (opt ''retention'' (JInt 10000)) ''retention'' 100 100000) (\<lambda>retained.
      Inr (Some \<lparr>ac_required = required, ac_quorum = quorum, ac_ttlMs = ttl * 60000, ac_retained = nat retained, ac_sha = sha\<rparr>)))))))))"

subsection \<open>Validation\<close>

text \<open>\<open>/^AER-[a-f0-9]{32}$/\<close>.\<close>

definition is_request_id :: "string \<Rightarrow> bool" where
  "is_request_id s = (starts_with ''AER-'' s \<and> is_hex_text 32 (drop 4 s))"

definition ap_request_id :: "jsval \<Rightarrow> export_error + string" where
  "ap_request_id v = (let i = ev_text v in ensure (is_request_id i) (XValidation ''requestId'') (Inr i))"

definition state_name :: "ap_state \<Rightarrow> string" where
  "state_name st = (case st of ApPending \<Rightarrow> ''pending'' | ApApproved \<Rightarrow> ''approved'' | ApRejected \<Rightarrow> ''rejected''
     | ApCancelled \<Rightarrow> ''cancelled'' | ApExpired \<Rightarrow> ''expired'' | ApConsumed \<Rightarrow> ''consumed'')"

definition ap_states :: "ap_state list" where
  "ap_states = [ApPending, ApApproved, ApRejected, ApCancelled, ApExpired, ApConsumed]"

definition state_value :: "jsval \<Rightarrow> export_error + ap_state" where
  "state_value v = from_option (XValidation ''state'') (List.find (\<lambda>st. state_name st = ev_text v) ap_states)"

definition validate_request :: "jsval \<Rightarrow> jsval \<Rightarrow> export_error + ap_source" where
  "validate_request input ctxActor =
     ensure (is_plain_object input) (XValidation ''request'')
    (bindR (x_identifier (js_get input ''tenantId'') ''tenantId'') (\<lambda>tenantId.
     bindR (x_evidence_id (js_get input ''evidenceId'')) (\<lambda>evidenceId.
     bindR (x_integer (js_get input ''evidenceVersion'') ''evidenceVersion'' 1 1000000) (\<lambda>evidenceVersion.
     bindR (x_hash (js_get input ''contentSha256'') ''contentSha256'') (\<lambda>contentSha256.
     bindR (x_identifier (js_get input ''recipientId'') ''recipientId'') (\<lambda>recipientId.
     bindR (x_text (js_get input ''purpose'') ''purpose'' 10 500) (\<lambda>purpose.
     bindR (x_identifier ctxActor ''actor'') (\<lambda>requestedBy.
     Inr \<lparr>so_tenantId = tenantId, so_evidenceId = evidenceId, so_evidenceVersion = evidenceVersion,
          so_contentSha256 = contentSha256, so_recipientId = recipientId, so_purpose = purpose, so_requestedBy = requestedBy\<rparr>))))))))"

definition request_text :: "'a ap_source_scheme \<Rightarrow> string" where
  "request_text s = join_with ''|'' [so_tenantId s, so_evidenceId s, int_text (so_evidenceVersion s), so_contentSha256 s,
     so_recipientId s, so_purpose s, so_requestedBy s]"

definition request_id_for :: "ap_config \<Rightarrow> 'a ap_source_scheme \<Rightarrow> string" where
  "request_id_for cfg s = ''AER-'' @ take 32 (ac_sha cfg (request_text s))"

definition assert_request_matches :: "approval \<Rightarrow> ap_source \<Rightarrow> export_error + unit" where
  "assert_request_matches r s = ensure (ap_source.truncate r = s) (XIntegrity ''conflicting request'') (Inr ())"

text \<open>The fields an export may be held against; a field that is not given is not compared.\<close>

definition expected_fields :: "approval \<Rightarrow> (string \<times> jsval) list" where
  "expected_fields r = [(''evidenceId'', JStr (so_evidenceId r)), (''evidenceVersion'', JInt (so_evidenceVersion r)),
     (''contentSha256'', JStr (so_contentSha256 r)), (''recipientId'', JStr (so_recipientId r)), (''purpose'', JStr (so_purpose r))]"

definition assert_expected :: "approval \<Rightarrow> jsval \<Rightarrow> export_error + unit" where
  "assert_expected r expected = ensure
     (list_all (\<lambda>(field, v). js_get expected field = JUndef \<or> js_get expected field = v) (expected_fields r))
     (XRequired ''mismatch'') (Inr ())"

definition assert_pending :: "approval \<Rightarrow> export_error + 'a \<Rightarrow> export_error + 'a" where
  "assert_pending r k = ensure (ar_state r = ApPending \<or> ar_state r = ApApproved) (XConflict ''not actionable'')
     (ensure (ar_state r \<noteq> ApApproved) (XConflict ''quorum complete'') k)"

subsection \<open>Records and directories\<close>

definition approval_aad :: "string \<Rightarrow> string \<Rightarrow> string" where
  "approval_aad tenant i = ''basitclaw:assurance-export-approval:'' @ tenant @ '':'' @ i"

definition tenant_root :: "ap_config \<Rightarrow> string \<Rightarrow> string" where
  "tenant_root cfg tenant = ac_sha cfg (''tenant:'' @ tenant)"

definition read_approval :: "ap_config \<Rightarrow> string \<Rightarrow> string \<Rightarrow> approval ap_call" where
  "read_approval cfg tenant i =
     read_file (approval_aad tenant i) (\<lambda>r. ar_requestId r = i \<and> so_tenantId r = tenant) (tenant_root cfg tenant) i"

definition replace_approval :: "ap_config \<Rightarrow> string \<Rightarrow> string \<Rightarrow> approval \<Rightarrow> unit ap_call" where
  "replace_approval cfg tenant i r = replace_file (tenant_root cfg tenant) i (approval_aad tenant i) r"

definition approval_names :: "ap_config \<Rightarrow> string \<Rightarrow> approval record_store \<Rightarrow> string list" where
  "approval_names cfg tenant = record_names is_request_id (tenant_root cfg tenant)"

definition approval_file :: "ap_config \<Rightarrow> string \<Rightarrow> string \<Rightarrow> approval record_store \<Rightarrow> approval job_file option" where
  "approval_file cfg tenant i s = record_file s (tenant_root cfg tenant) i"

definition expire_approval :: "ap_config \<Rightarrow> int \<Rightarrow> string \<Rightarrow> string \<Rightarrow> unit ap_call" where
  "expire_approval cfg now tenant i = bindS (read_approval cfg tenant i) (\<lambda>r.
     if ar_state r = ApPending \<and> ar_expiresAt r \<le> now then replace_approval cfg tenant i (r\<lparr>ar_state := ApExpired\<rparr>)
     else returnS ())"

definition expire_locked :: "ap_config \<Rightarrow> int \<Rightarrow> string \<Rightarrow> unit ap_call" where
  "expire_locked cfg now tenant = bindS (getS (approval_names cfg tenant)) (for_each (expire_approval cfg now tenant))"

definition terminal_state :: "ap_state \<Rightarrow> bool" where
  "terminal_state st = (st \<in> {ApRejected, ApCancelled, ApExpired, ApConsumed})"

definition approval_end :: "approval \<Rightarrow> int" where
  "approval_end r = (case ar_consumedAt r of Some t \<Rightarrow> t | None \<Rightarrow> (case ar_rejectedAt r of Some t \<Rightarrow> t
     | None \<Rightarrow> (case ar_cancelledAt r of Some t \<Rightarrow> t | None \<Rightarrow> ar_expiresAt r)))"

definition prune_approvals :: "ap_config \<Rightarrow> string \<Rightarrow> unit ap_call" where
  "prune_approvals cfg tenant = bindS (getS (approval_names cfg tenant)) (\<lambda>names.
     bindS (map_each (read_approval cfg tenant) names) (\<lambda>rs.
       let over = filter (\<lambda>r. terminal_state (ar_state r)) rs in
       for_each (remove_record (tenant_root cfg tenant))
         (map ar_requestId (take (length over - ac_retained cfg) (sort_key approval_end over)))))"

subsection \<open>Requests\<close>

definition new_approval :: "ap_config \<Rightarrow> int \<Rightarrow> ap_source \<Rightarrow> approval" where
  "new_approval cfg now s = ap_source.extend s
     \<lparr>ar_requestId = request_id_for cfg s, ar_state = ApPending, ar_requiredApprovals = ac_quorum cfg, ar_approvals = [],
      ar_createdAt = now, ar_expiresAt = now + ac_ttlMs cfg, ar_rejectedAt = None, ar_rejectedBy = None,
      ar_rejectionReason = None, ar_cancelledAt = None, ar_cancelledBy = None, ar_consumedAt = None,
      ar_consumedBy = None, ar_bundleId = None\<rparr>"

text \<open>The answer is whether the request existed, and its record.\<close>

definition request_export :: "ap_config \<Rightarrow> ap_env \<Rightarrow> jsval \<Rightarrow> jsval \<Rightarrow> (bool \<times> approval) ap_call" where
  "request_export cfg env input ctxActor =
     bindS (liftS (validate_request input ctxActor)) (\<lambda>s.
     let tenant = so_tenantId s; i = request_id_for cfg s in
     with_lock (ae_lock env) XLock
      (bindS (expire_locked cfg (ae_now env) tenant) (\<lambda>_.
       bindS (getS (approval_file cfg tenant i)) (\<lambda>f.
       if f \<noteq> None then
         bindS (read_approval cfg tenant i) (\<lambda>existing.
         bindS (liftS (assert_request_matches existing s)) (\<lambda>_. returnS (True, existing)))
       else let r = new_approval cfg (ae_now env) s in
         bindS (write_exclusive (tenant_root cfg tenant) i (approval_aad tenant i) r) (\<lambda>_.
         bindS (prune_approvals cfg tenant) (\<lambda>_. returnS (False, r)))))))"

subsection \<open>Decisions\<close>

definition mutate_approval ::
  "ap_config \<Rightarrow> ap_env \<Rightarrow> string \<Rightarrow> string \<Rightarrow> (approval \<Rightarrow> export_error + approval) \<Rightarrow> approval ap_call" where
  "mutate_approval cfg env tenant i operation = with_lock (ae_lock env) XLock
     (bindS (expire_locked cfg (ae_now env) tenant) (\<lambda>_.
      bindS (getS (approval_file cfg tenant i)) (\<lambda>f.
      ensureS (f \<noteq> None) (XValidation ''not found'')
     (bindS (read_approval cfg tenant i) (\<lambda>r.
      bindS (liftS (operation r)) (\<lambda>r'.
      bindS (replace_approval cfg tenant i r') (\<lambda>_. returnS r')))))))"

definition approve_record :: "int \<Rightarrow> string \<Rightarrow> approval \<Rightarrow> export_error + approval" where
  "approve_record now approver r = assert_pending r
     (ensure (approver \<noteq> so_requestedBy r) (XConflict ''self_approval'')
       (if approver \<in> set (map fst (ar_approvals r)) then Inr r
        else let approvals = ar_approvals r @ [(approver, now)] in
          Inr (r\<lparr>ar_approvals := approvals,
                 ar_state := (if int (length approvals) \<ge> ar_requiredApprovals r then ApApproved else ar_state r)\<rparr>)))"

definition approve_export :: "ap_config \<Rightarrow> ap_env \<Rightarrow> jsval \<Rightarrow> jsval \<Rightarrow> jsval \<Rightarrow> approval ap_call" where
  "approve_export cfg env tenantId requestId ctxActor =
     bindS (liftS (x_identifier tenantId ''tenantId'')) (\<lambda>tenant.
     bindS (liftS (ap_request_id requestId)) (\<lambda>i.
     bindS (liftS (x_identifier ctxActor ''actor'')) (\<lambda>approver.
     mutate_approval cfg env tenant i (approve_record (ae_now env) approver))))"

definition reject_record :: "int \<Rightarrow> string \<Rightarrow> string \<Rightarrow> approval \<Rightarrow> export_error + approval" where
  "reject_record now rejecter reason r = assert_pending r
     (Inr (r\<lparr>ar_state := ApRejected, ar_rejectedAt := Some now, ar_rejectedBy := Some rejecter, ar_rejectionReason := Some reason\<rparr>))"

definition reject_export :: "ap_config \<Rightarrow> ap_env \<Rightarrow> jsval \<Rightarrow> jsval \<Rightarrow> jsval \<Rightarrow> jsval \<Rightarrow> approval ap_call" where
  "reject_export cfg env tenantId requestId reason ctxActor =
     bindS (liftS (x_identifier tenantId ''tenantId'')) (\<lambda>tenant.
     bindS (liftS (ap_request_id requestId)) (\<lambda>i.
     bindS (liftS (x_identifier ctxActor ''actor'')) (\<lambda>rejecter.
     bindS (liftS (x_text reason ''reason'' 10 500)) (\<lambda>rejectionReason.
     mutate_approval cfg env tenant i (reject_record (ae_now env) rejecter rejectionReason)))))"

definition cancel_record :: "int \<Rightarrow> string \<Rightarrow> approval \<Rightarrow> export_error + approval" where
  "cancel_record now canceller r = assert_pending r
     (ensure (canceller = so_requestedBy r) (XConflict ''requester only'')
       (Inr (r\<lparr>ar_state := ApCancelled, ar_cancelledAt := Some now, ar_cancelledBy := Some canceller\<rparr>)))"

definition cancel_export :: "ap_config \<Rightarrow> ap_env \<Rightarrow> jsval \<Rightarrow> jsval \<Rightarrow> jsval \<Rightarrow> approval ap_call" where
  "cancel_export cfg env tenantId requestId ctxActor =
     bindS (liftS (x_identifier tenantId ''tenantId'')) (\<lambda>tenant.
     bindS (liftS (ap_request_id requestId)) (\<lambda>i.
     bindS (liftS (x_identifier ctxActor ''actor'')) (\<lambda>canceller.
     mutate_approval cfg env tenant i (cancel_record (ae_now env) canceller))))"

subsection \<open>Execution\<close>

text \<open>
  \<open>executeApproved\<close> gets the export as a function. It changes a world of its own next to the store,
  and may throw; of its result only the identifier of the bundle is looked at.
\<close>

definition consumed_record :: "int \<Rightarrow> string \<Rightarrow> string option \<Rightarrow> approval \<Rightarrow> approval" where
  "consumed_record now consumer bundle r =
     r\<lparr>ar_state := ApConsumed, ar_consumedAt := Some now, ar_consumedBy := Some consumer, ar_bundleId := bundle\<rparr>"

definition execute_locked ::
  "ap_config \<Rightarrow> int \<Rightarrow> string \<Rightarrow> string \<Rightarrow> string \<Rightarrow> jsval \<Rightarrow> (approval \<Rightarrow> ('x, export_error, 'r) call) \<Rightarrow> ('r \<Rightarrow> string option)
    \<Rightarrow> (approval record_store \<times> 'x, export_error, approval \<times> 'r) call" where
  "execute_locked cfg now tenant i consumer expected operation bundle_of =
     bindS (on_store (expire_locked cfg now tenant)) (\<lambda>_.
     bindS (on_store (getS (approval_file cfg tenant i))) (\<lambda>f.
     ensureS (f \<noteq> None) (XRequired ''not_found'')
    (bindS (on_store (read_approval cfg tenant i)) (\<lambda>r.
     ensureS (ar_state r = ApApproved) (XRequired (state_name (ar_state r)))
    (bindS (liftS (assert_expected r expected)) (\<lambda>_.
     bindS (on_world (operation r)) (\<lambda>result.
     let r' = consumed_record now consumer (bundle_of result) r in
     bindS (on_store (replace_approval cfg tenant i r')) (\<lambda>_. returnS (r', result)))))))))"

definition execute_approved ::
  "ap_config \<Rightarrow> ap_env \<Rightarrow> jsval \<Rightarrow> jsval \<Rightarrow> jsval \<Rightarrow> jsval \<Rightarrow> (approval \<Rightarrow> ('x, export_error, 'r) call) \<Rightarrow> ('r \<Rightarrow> string option)
    \<Rightarrow> (approval record_store \<times> 'x, export_error, approval \<times> 'r) call" where
  "execute_approved cfg env tenantId requestId expected ctxActor operation bundle_of =
     bindS (liftS (x_identifier tenantId ''tenantId'')) (\<lambda>tenant.
     bindS (liftS (ap_request_id requestId)) (\<lambda>i.
     bindS (liftS (x_identifier ctxActor ''actor'')) (\<lambda>consumer.
     with_lock (ae_lock env) XLock (execute_locked cfg (ae_now env) tenant i consumer expected operation bundle_of))))"

subsection \<open>Queries\<close>

definition get_approval :: "ap_config \<Rightarrow> ap_env \<Rightarrow> jsval \<Rightarrow> jsval \<Rightarrow> approval ap_call" where
  "get_approval cfg env tenantId requestId =
     bindS (liftS (x_identifier tenantId ''tenantId'')) (\<lambda>tenant.
     bindS (liftS (ap_request_id requestId)) (\<lambda>i.
     with_lock (ae_lock env) XLock
      (bindS (expire_locked cfg (ae_now env) tenant) (\<lambda>_.
       bindS (getS (approval_file cfg tenant i)) (\<lambda>f.
       ensureS (f \<noteq> None) (XValidation ''not found'') (read_approval cfg tenant i))))))"

definition optional_field :: "jsval \<Rightarrow> (jsval \<Rightarrow> export_error + 'a) \<Rightarrow> export_error + 'a option" where
  "optional_field v check = (if null_default v = JNull then Inr None else bindR (check v) (\<lambda>x. Inr (Some x)))"

definition matches_filter :: "'a option \<Rightarrow> 'a \<Rightarrow> bool" where
  "matches_filter wanted x = (case wanted of None \<Rightarrow> True | Some w \<Rightarrow> x = w)"

definition list_approvals :: "ap_config \<Rightarrow> ap_env \<Rightarrow> jsval \<Rightarrow> jsval \<Rightarrow> approval list ap_call" where
  "list_approvals cfg env tenantId options =
     bindS (liftS (x_identifier tenantId ''tenantId'')) (\<lambda>tenant.
     bindS (liftS (optional_field (js_get options ''evidenceId'') x_evidence_id)) (\<lambda>evidence.
     bindS (liftS (optional_field (js_get options ''state'') state_value)) (\<lambda>selected.
     bindS (liftS (x_integer (int_default (js_get options ''limit'') 500) ''limit'' 1 5000)) (\<lambda>maximum.
     with_lock (ae_lock env) XLock
      (bindS (expire_locked cfg (ae_now env) tenant) (\<lambda>_.
       bindS (getS (approval_names cfg tenant)) (\<lambda>names.
       bindS (map_each (read_approval cfg tenant) names) (\<lambda>rs.
       returnS (take (nat maximum) (sort_key (\<lambda>r. - ar_createdAt r)
         (filter (\<lambda>r. matches_filter evidence (so_evidenceId r) \<and> matches_filter selected (ar_state r)) rs)))))))))))"

record ap_report =
  rp_required :: bool
  rp_requiredApprovals :: int
  rp_total :: nat
  rp_counts :: "ap_state \<Rightarrow> nat"

definition approval_status :: "ap_config \<Rightarrow> ap_env \<Rightarrow> jsval \<Rightarrow> ap_report ap_call" where
  "approval_status cfg env tenantId =
     bindS (list_approvals cfg env tenantId (JObj [(''limit'', JInt 5000)])) (\<lambda>rows.
     returnS \<lparr>rp_required = ac_required cfg, rp_requiredApprovals = ac_quorum cfg, rp_total = length rows,
       rp_counts = (\<lambda>st. length (filter (\<lambda>r. ar_state r = st) rows))\<rparr>)"

end
