(* ===== verification/ExportLife.thy ===== *)
theory ExportLife
  imports ExportApproval
begin

section \<open>The life of an export approval\<close>

text \<open>
  The machine \<open>ap_run\<close> of all commands of the approval store by any number of processes, each with its
  own clock and with any outcome of its lock, writes and removals. A command takes each file along
  the steps of \<open>approval_step\<close>, and then the oldest finished requests may be removed; from this
  follow the theorems on the quorum, on the single use of an approval, and on the two ways in which
  the store fails: an export that is not recorded runs again, and a torn request blocks its tenant.
\<close>

subsection \<open>The machine\<close>

datatype ('x, 'r) ap_command =
    RequestExport jsval jsval
  | ApproveExport jsval jsval jsval
  | RejectExport jsval jsval jsval jsval
  | CancelExport jsval jsval jsval
  | ExecuteExport jsval jsval jsval jsval "approval \<Rightarrow> ('x, export_error, 'r) call" "'r \<Rightarrow> string option"
  | GetApproval jsval jsval
  | ListApprovals jsval jsval
  | ApprovalStatus jsval

fun ap_exec :: "ap_config \<Rightarrow> ap_env \<Rightarrow> ('x, 'r) ap_command \<Rightarrow> (approval record_store \<times> 'x, export_error, unit) call" where
  "ap_exec cfg env (RequestExport input a) = forget (on_store (request_export cfg env input a))"
| "ap_exec cfg env (ApproveExport t i a) = forget (on_store (approve_export cfg env t i a))"
| "ap_exec cfg env (RejectExport t i reason a) = forget (on_store (reject_export cfg env t i reason a))"
| "ap_exec cfg env (CancelExport t i a) = forget (on_store (cancel_export cfg env t i a))"
| "ap_exec cfg env (ExecuteExport t i expected a operation bundle_of) = forget (execute_approved cfg env t i expected a operation bundle_of)"
| "ap_exec cfg env (GetApproval t i) = forget (on_store (get_approval cfg env t i))"
| "ap_exec cfg env (ListApprovals t options) = forget (on_store (list_approvals cfg env t options))"
| "ap_exec cfg env (ApprovalStatus t) = forget (on_store (approval_status cfg env t))"

record ('x, 'r) ap_input =
  ai_env :: ap_env
  ai_writes :: "put_outcome list"
  ai_removals :: "bool list"
  ai_command :: "('x, 'r) ap_command"

definition ap_step :: "ap_config \<Rightarrow> ('x, 'r) ap_input \<Rightarrow> approval record_store \<times> 'x \<Rightarrow> approval record_store \<times> 'x" where
  "ap_step cfg c st = fst (ap_exec cfg (ai_env c) (ai_command c)
     ((fst st)\<lparr>rd_writes := ai_writes c, rd_removals := ai_removals c\<rparr>, snd st))"

definition ap_run :: "ap_config \<Rightarrow> ('x, 'r) ap_input list \<Rightarrow> approval record_store \<times> 'x \<Rightarrow> approval record_store \<times> 'x" where
  "ap_run cfg = fold (ap_step cfg)"

definition no_approvals :: "approval record_store" where
  "no_approvals = \<lparr>rd_dirs = (\<lambda>_. []), rd_writes = [], rd_removals = []\<rparr>"

lemma ap_run_simps [simp]:
  "ap_run cfg [] st = st" "ap_run cfg (c # cs) st = ap_run cfg cs (ap_step cfg c st)"
  "ap_run cfg (cs @ ds) st = ap_run cfg ds (ap_run cfg cs st)"
  by (simp_all add: ap_run_def)

lemma record_file_start [simp]: "record_file no_approvals d i = None"
  by (simp add: record_file_def no_approvals_def)

subsection \<open>The steps of a file\<close>

text \<open>\<open>A\<close> holds the approvals given: tenant, request and approver.\<close>

inductive approval_step ::
  "ap_config \<Rightarrow> (string \<times> string \<times> string) set \<Rightarrow> approval job_file option \<Rightarrow> approval job_file option \<Rightarrow> bool"
  for cfg A where
  opened: "r = new_approval cfg now s \<Longrightarrow> approval_step cfg A None (Some (SealedFile aad r))"
| torn: "approval_step cfg A None (Some Unparsable)"
| approved: "approve_record now a r = Inr r' \<Longrightarrow> (so_tenantId r, ar_requestId r, a) \<in> A \<Longrightarrow>
    approval_step cfg A (Some (SealedFile aad r)) (Some (SealedFile aad r'))"
| rejected: "reject_record now a reason r = Inr r' \<Longrightarrow> approval_step cfg A (Some (SealedFile aad r)) (Some (SealedFile aad r'))"
| cancelled: "cancel_record now a r = Inr r' \<Longrightarrow> approval_step cfg A (Some (SealedFile aad r)) (Some (SealedFile aad r'))"
| expired: "ar_state r = ApPending \<Longrightarrow> ar_expiresAt r \<le> now \<Longrightarrow>
    approval_step cfg A (Some (SealedFile aad r)) (Some (SealedFile aad (r\<lparr>ar_state := ApExpired\<rparr>)))"
| consumed: "ar_state r = ApApproved \<Longrightarrow>
    approval_step cfg A (Some (SealedFile aad r)) (Some (SealedFile aad (consumed_record now a b r)))"

inductive_cases approval_step_sealedE: "approval_step cfg A (Some (SealedFile aad r)) f"

definition pruned :: "approval job_file option \<Rightarrow> approval job_file option \<Rightarrow> bool" where
  "pruned f f' \<longleftrightarrow> f' = f \<or> f' = None \<and> (\<exists>aad r. f = Some (SealedFile aad r) \<and> terminal_state (ar_state r))"

definition lapsed :: "int \<Rightarrow> approval job_file option \<Rightarrow> approval job_file option \<Rightarrow> bool" where
  "lapsed now f f' \<longleftrightarrow> f' = f \<or> (\<exists>aad r. f = Some (SealedFile aad r) \<and> ar_state r = ApPending \<and> ar_expiresAt r \<le> now
     \<and> f' = Some (SealedFile aad (r\<lparr>ar_state := ApExpired\<rparr>)))"

lemma lapsed_refl [simp]: "lapsed now f f"
  by (simp add: lapsed_def)

lemma pruned_refl [simp]: "pruned f f"
  by (simp add: pruned_def)

lemma lapsed_step: "lapsed now f f' \<Longrightarrow> (approval_step cfg A)\<^sup>*\<^sup>* f f'"
  by (auto simp: lapsed_def intro: approval_step.expired)

lemma lapsed_expired:
  "lapsed now f (Some (SealedFile aad r)) \<Longrightarrow> ar_state r = ApPending \<Longrightarrow> ar_expiresAt r \<le> now
    \<Longrightarrow> lapsed now f (Some (SealedFile aad (r\<lparr>ar_state := ApExpired\<rparr>)))"
  by (auto simp: lapsed_def)

lemma tracks_lapsed: "tracks (lapsed now) v s \<Longrightarrow> tracks (approval_step cfg A)\<^sup>*\<^sup>* v s"
  by (auto simp: tracks_def intro: lapsed_step)

lemma keeps_expire_locked: "keeps (tracks (lapsed now) v) (expire_locked cfg now tenant)"
proof -
  have "keeps (tracks (lapsed now) v) (expire_approval cfg now tenant i)" for i
  proof (rule keepsI)
    fix s assume s: "tracks (lapsed now) v s"
    show "after (expire_approval cfg now tenant i) (\<lambda>_. tracks (lapsed now) v) (\<lambda>_. tracks (lapsed now) v) s"
      unfolding expire_approval_def after_bindS read_approval_def
    proof (rule after_read_file)
      fix r assume r: "record_file s (tenant_root cfg tenant) i = Some (SealedFile (approval_aad tenant i) r)"
      show "after (if ar_state r = ApPending \<and> ar_expiresAt r \<le> now then replace_approval cfg tenant i (r\<lparr>ar_state := ApExpired\<rparr>)
          else returnS ()) (\<lambda>_. tracks (lapsed now) v) (\<lambda>_. tracks (lapsed now) v) s"
      proof (cases "ar_state r = ApPending \<and> ar_expiresAt r \<le> now")
        case True
        then have "lapsed now (v (tenant_root cfg tenant) i) (Some (SealedFile (approval_aad tenant i) (r\<lparr>ar_state := ApExpired\<rparr>)))"
          using lapsed_expired s r unfolding tracks_def by metis
        then show ?thesis
          using True s unfolding replace_approval_def
          by (auto intro!: after_weaken [OF after_replace_file] elim: tracks_set tracks_cong)
      qed (use s in auto)
    qed (use s in simp)
  qed
  then show ?thesis unfolding expire_locked_def by (intro keeps_intros)
qed

lemma after_expire: "after (expire_locked cfg now tenant) (\<lambda>_. tracks (lapsed now) (record_file s)) (\<lambda>_. tracks (lapsed now) (record_file s)) s"
  by (rule keeps_afterD [OF keeps_expire_locked]) (simp add: tracks_def)

subsection \<open>What a command does to a file\<close>

definition command_effect ::
  "ap_config \<Rightarrow> (string \<times> string \<times> string) set \<Rightarrow> approval job_file option \<Rightarrow> approval job_file option \<Rightarrow> bool" where
  "command_effect cfg A f f' \<longleftrightarrow> (\<exists>g. (approval_step cfg A)\<^sup>*\<^sup>* f g \<and> pruned g f')"

lemma command_effect_steps: "(approval_step cfg A)\<^sup>*\<^sup>* f f' \<Longrightarrow> command_effect cfg A f f'"
  by (auto simp: command_effect_def)

lemma tracks_steps_refl: "tracks (approval_step cfg A)\<^sup>*\<^sup>* (record_file s) s"
  by (simp add: tracks_def)

lemma tracks_effect: "tracks (approval_step cfg A)\<^sup>*\<^sup>* v s \<Longrightarrow> tracks (command_effect cfg A) v s"
  by (auto simp: tracks_def intro: command_effect_steps)

text \<open>Replacing a record that was read by one that a step leads to.\<close>

lemma after_step_record:
  assumes "tracks (approval_step cfg A)\<^sup>*\<^sup>* v s" and "record_file s (tenant_root cfg tenant) i = Some (SealedFile (approval_aad tenant i) r)"
    and "(approval_step cfg A)\<^sup>*\<^sup>* (Some (SealedFile (approval_aad tenant i) r)) (Some (SealedFile (approval_aad tenant i) r'))"
  shows "after (replace_approval cfg tenant i r') (\<lambda>_. tracks (approval_step cfg A)\<^sup>*\<^sup>* v) (\<lambda>_. tracks (approval_step cfg A)\<^sup>*\<^sup>* v) s"
proof -
  have "tracks (approval_step cfg A)\<^sup>*\<^sup>* v s'"
    if "record_file s' = set_view (record_file s) (tenant_root cfg tenant) i (Some (SealedFile (approval_aad tenant i) r'))" for s'
    by (rule tracks_set [OF assms(1) that]) (use assms(2,3) in \<open>metis rtranclp_trans\<close>)
  then show ?thesis
    unfolding replace_approval_def
    by (auto intro!: after_weaken [OF after_replace_file] intro: tracks_cong [OF _ assms(1)])
qed

lemma after_mutate:
  assumes "\<And>r r' aad. operation r = Inr r' \<Longrightarrow> so_tenantId r = tenant \<Longrightarrow> ar_requestId r = i \<Longrightarrow>
      (approval_step cfg A)\<^sup>*\<^sup>* (Some (SealedFile aad r)) (Some (SealedFile aad r'))"
  shows "after (mutate_approval cfg env tenant i operation)
     (\<lambda>_. tracks (approval_step cfg A)\<^sup>*\<^sup>* (record_file s)) (\<lambda>_. tracks (approval_step cfg A)\<^sup>*\<^sup>* (record_file s)) s"
proof -
  let ?P = "tracks (approval_step cfg A)\<^sup>*\<^sup>* (record_file s)"
  have found: "after (bindS (read_approval cfg tenant i) (\<lambda>r. bindS (liftS (operation r)) (\<lambda>r'.
      bindS (replace_approval cfg tenant i r') (\<lambda>_. returnS r')))) (\<lambda>_. ?P) (\<lambda>_. ?P) s'"
    if "tracks (lapsed (ae_now env)) (record_file s) s'" for s'
  proof -
    have s': "?P s'" using that by (rule tracks_lapsed)
    show ?thesis
      unfolding after_bindS read_approval_def
      by (rule after_read_file) (auto intro!: after_liftS_I after_step_record s' simp: assms)
  qed
  show ?thesis
    unfolding mutate_approval_def
    by (rule after_with_lock)
      (auto intro!: after_weaken [OF after_expire] found [simplified] tracks_lapsed simp: tracks_def [of _ "record_file s" s])
qed

lemma operation_steps:
  "approve_record now a r = Inr r' \<Longrightarrow> (so_tenantId r, ar_requestId r, a) \<in> A \<Longrightarrow>
    (approval_step cfg A)\<^sup>*\<^sup>* (Some (SealedFile aad r)) (Some (SealedFile aad r'))"
  "reject_record now a reason r = Inr r' \<Longrightarrow> (approval_step cfg A)\<^sup>*\<^sup>* (Some (SealedFile aad r)) (Some (SealedFile aad r'))"
  "cancel_record now a r = Inr r' \<Longrightarrow> (approval_step cfg A)\<^sup>*\<^sup>* (Some (SealedFile aad r)) (Some (SealedFile aad r'))"
  by (auto intro: approval_step.intros)

text \<open>The approvals a command gives.\<close>

fun approval_given :: "('x, 'r) ap_command \<Rightarrow> (string \<times> string \<times> string) set" where
  "approval_given (ApproveExport t i a) = {(trimmed t, ev_text i, trimmed a)}"
| "approval_given _ = {}"

lemma ap_request_id_Inr: "ap_request_id v = Inr t \<longleftrightarrow> t = ev_text v \<and> is_request_id t"
  by (auto simp: ap_request_id_def Let_def)

lemma pruned_removed: "pruned = removed_by (\<lambda>r. terminal_state (ar_state r))"
  by (auto simp: pruned_def removed_by_def fun_eq_iff)

lemma after_prune:
  "after (prune_approvals cfg tenant) (\<lambda>_. tracks pruned (record_file s)) (\<lambda>_. tracks pruned (record_file s)) s"
  unfolding prune_approvals_def pruned_removed after_bindS [of "getS _"] after_getS read_approval_def Let_def
  by (rule after_remove_over [where name = ar_requestId]) simp

lemma after_request:
  "after (request_export cfg env input a) (\<lambda>_. tracks (command_effect cfg A) (record_file s)) (\<lambda>_. tracks (command_effect cfg A) (record_file s)) s"
proof -
  let ?P = "tracks (command_effect cfg A) (record_file s)" and ?S = "tracks (approval_step cfg A)\<^sup>*\<^sup>* (record_file s)"
  have start: "?P s" by (simp add: tracks_def command_effect_steps)
  have create: "after (write_exclusive (tenant_root cfg (so_tenantId src)) (request_id_for cfg src)
        (approval_aad (so_tenantId src) (request_id_for cfg src)) (new_approval cfg (ae_now env) src)) (\<lambda>_. ?S) (\<lambda>_. ?P) s1"
    if "?S s1" for s1 src
  proof -
    have written: "?S s2"
      if "record_file s1 (tenant_root cfg (so_tenantId src)) (request_id_for cfg src) = None"
        and "f \<in> {SealedFile aad (new_approval cfg (ae_now env) src), Unparsable}"
        and "record_file s2 = set_view (record_file s1) (tenant_root cfg (so_tenantId src)) (request_id_for cfg src) (Some f)" for s2 f aad
    proof (rule tracks_set [OF \<open>?S s1\<close> that(3)])
      have "approval_step cfg A None (Some f)" using that(2) by (auto intro: approval_step.intros)
      then show "(approval_step cfg A)\<^sup>*\<^sup>* g (Some f)"
        if "(approval_step cfg A)\<^sup>*\<^sup>* g (record_file s1 (tenant_root cfg (so_tenantId src)) (request_id_for cfg src))" for g
        using that \<open>record_file s1 _ _ = None\<close> by (metis rtranclp.rtrancl_into_rtrancl)
    qed
    show ?thesis
      by (rule after_weaken [OF after_write_exclusive]) (auto intro: written tracks_cong [OF _ \<open>?S s1\<close>] tracks_effect)
  qed
  have prune: "after (prune_approvals cfg tenant) (\<lambda>_. ?P) (\<lambda>_. ?P) s1" if "?S s1" for s1 tenant
    by (rule after_weaken [OF after_prune]) (auto elim!: tracks_compose [OF that] simp: command_effect_def)
  show ?thesis
    unfolding request_export_def Let_def after_bindS
    by (auto intro!: after_liftS_I after_with_lock start after_weaken [OF after_expire] after_weaken [OF create] prune
        simp: tracks_lapsed tracks_effect read_approval_def intro!: after_read_file)
qed

lemma after_execute:
  "after (execute_locked cfg now tenant i consumer expected operation bundle_of)
     (\<lambda>_ st. tracks (approval_step cfg A)\<^sup>*\<^sup>* (record_file s) (fst st)) (\<lambda>_ st. tracks (approval_step cfg A)\<^sup>*\<^sup>* (record_file s) (fst st)) (s, x)"
proof -
  let ?S = "tracks (approval_step cfg A)\<^sup>*\<^sup>* (record_file s)"
  have rest: "after (on_world (operation r)) (\<lambda>result. after (let r' = consumed_record now consumer (bundle_of result) r in
       bindS (on_store (replace_approval cfg tenant i r')) (\<lambda>_. returnS (r', result))) (\<lambda>_ st. ?S (fst st)) (\<lambda>_ st. ?S (fst st)))
       (\<lambda>_ st. ?S (fst st)) (s1, x)"
    if "?S s1" "record_file s1 (tenant_root cfg tenant) i = Some (SealedFile (approval_aad tenant i) r)" "ar_state r = ApApproved" for s1 r tenant i
  proof -
    have commit: "after (replace_approval cfg tenant i (consumed_record now consumer b r)) (\<lambda>_. ?S) (\<lambda>_. ?S) s1" for b
      using that by (intro after_step_record) (auto intro: approval_step.consumed)
    have "after (operation r) (\<lambda>_ _. True) (\<lambda>_ _. True) x" by (simp add: after_def split: prod.split sum.split)
    then show ?thesis
      using commit that(1) by (auto simp: Let_def after_on_store after_on_world intro!: after_weaken [where m = "operation r"])
  qed
  show ?thesis
    unfolding execute_locked_def
    by (auto simp: after_on_store read_approval_def intro!: after_weaken [OF after_expire] after_read_file after_liftS_I rest
        tracks_lapsed)
qed

lemma keeps_queries:
  "keeps (tracks (lapsed (ae_now env)) v) (get_approval cfg env t i)"
  "keeps (tracks (lapsed (ae_now env)) v) (list_approvals cfg env t options)"
  "keeps (tracks (lapsed (ae_now env)) v) (approval_status cfg env t)"
  unfolding get_approval_def list_approvals_def approval_status_def read_approval_def
  by (intro keeps_intros keeps_expire_locked)+

lemma ap_exec_effect:
  "tracks (command_effect cfg (approval_given c)) (record_file s) (fst (fst (ap_exec cfg env c (s, x))))"
proof -
  let ?A = "approval_given c" and ?P = "tracks (command_effect cfg (approval_given c)) (record_file s)"
  have start: "tracks (command_effect cfg B) (record_file s) s" for B by (simp add: tracks_def command_effect_steps)
  have queried: "tracks (command_effect cfg B) (record_file s) s'" if "tracks (lapsed (ae_now env)) (record_file s) s'" for s' B
    using that by (intro tracks_effect tracks_lapsed)
  have query: "after m (\<lambda>_. tracks (lapsed (ae_now env)) (record_file s)) (\<lambda>_. tracks (lapsed (ae_now env)) (record_file s)) s"
    if "keeps (tracks (lapsed (ae_now env)) (record_file s)) m" for m :: "'z ap_call"
    by (rule keeps_afterD [OF that]) (simp add: tracks_def)
  have mutated: "after (mutate_approval cfg env tenant i operation)
      (\<lambda>_. tracks (command_effect cfg B) (record_file s)) (\<lambda>_. tracks (command_effect cfg B) (record_file s)) s"
    if "\<And>r r' aad. operation r = Inr r' \<Longrightarrow> so_tenantId r = tenant \<Longrightarrow> ar_requestId r = i \<Longrightarrow>
      (approval_step cfg B)\<^sup>*\<^sup>* (Some (SealedFile aad r)) (Some (SealedFile aad r'))" for tenant i operation B
    using that by (rule after_weaken [OF after_mutate tracks_effect tracks_effect])
  have "after (ap_exec cfg env c) (\<lambda>_ st. ?P (fst st)) (\<lambda>_ st. ?P (fst st)) (s, x)"
  proof (cases c)
    case (RequestExport input a)
    then show ?thesis by (simp add: after_forget after_on_store after_request)
  next
    case (ApproveExport t i a)
    then show ?thesis
      by (auto simp: after_forget after_on_store approve_export_def x_identifier_Inr ap_request_id_Inr start
          intro!: after_liftS_I mutated operation_steps(1))
  next
    case (RejectExport t i reason a)
    then show ?thesis
      by (auto simp: after_forget after_on_store reject_export_def start intro!: after_liftS_I mutated operation_steps(2))
  next
    case (CancelExport t i a)
    then show ?thesis
      by (auto simp: after_forget after_on_store cancel_export_def start intro!: after_liftS_I mutated operation_steps(3))
  next
    case (ExecuteExport t i expected a operation bundle_of)
    then show ?thesis
      by (auto simp: after_forget execute_approved_def start intro!: after_liftS_I after_with_lock after_weaken [OF after_execute [where A = ?A]] tracks_effect tracks_steps_refl)
  next
    case (GetApproval t i)
    then show ?thesis by (auto simp: after_forget after_on_store intro: after_weaken [OF query] queried keeps_queries)
  next
    case (ListApprovals t options)
    then show ?thesis by (auto simp: after_forget after_on_store intro: after_weaken [OF query] queried keeps_queries)
  next
    case (ApprovalStatus t)
    then show ?thesis by (auto simp: after_forget after_on_store intro: after_weaken [OF query] queried keeps_queries)
  qed
  then show ?thesis by (simp add: after_state)
qed

subsection \<open>The invariant of a record\<close>

definition approval_ok ::
  "ap_config \<Rightarrow> (string \<times> string \<times> string) set \<Rightarrow> approval job_file option \<Rightarrow> bool" where
  "approval_ok cfg A f \<longleftrightarrow> (\<forall>aad r. f = Some (SealedFile aad r) \<longrightarrow>
     ar_requestId r = request_id_for cfg r \<and> ar_requiredApprovals r = ac_quorum cfg
     \<and> distinct (map fst (ar_approvals r)) \<and> so_requestedBy r \<notin> set (map fst (ar_approvals r))
     \<and> (\<forall>p \<in> set (map fst (ar_approvals r)). (so_tenantId r, ar_requestId r, p) \<in> A)
     \<and> (ar_state r \<in> {ApApproved, ApConsumed} \<longrightarrow> ac_quorum cfg \<le> int (length (ar_approvals r))))"

lemma approval_ok_None [simp]: "approval_ok cfg A None" "approval_ok cfg A (Some Unparsable)"
  by (simp_all add: approval_ok_def)

lemma request_id_update [simp]:
  "request_id_for cfg (r\<lparr>ar_state := st\<rparr>) = request_id_for cfg r"
  "request_id_for cfg (r\<lparr>ar_approvals := ps\<rparr>) = request_id_for cfg r"
  "request_id_for cfg (r\<lparr>ar_state := st, ar_rejectedAt := at, ar_rejectedBy := who, ar_rejectionReason := why\<rparr>) = request_id_for cfg r"
  "request_id_for cfg (r\<lparr>ar_state := st, ar_cancelledAt := at, ar_cancelledBy := who\<rparr>) = request_id_for cfg r"
  "request_id_for cfg (r\<lparr>ar_state := st, ar_consumedAt := at, ar_consumedBy := who, ar_bundleId := b\<rparr>) = request_id_for cfg r"
  "request_id_for cfg (ap_source.extend s x) = request_id_for cfg s"
  by (simp_all add: request_id_for_def request_text_def ap_source.defs)

lemma assert_pending_Inr [simp]: "assert_pending r k = Inr r' \<longleftrightarrow> ar_state r = ApPending \<and> k = Inr r'"
  by (auto simp: assert_pending_def)

lemma approve_record_Inr:
  assumes "approve_record now a r = Inr r'"
  shows "ar_state r = ApPending \<and> (r' = r \<or> a \<noteq> so_requestedBy r \<and> a \<notin> set (map fst (ar_approvals r))
    \<and> r' = r\<lparr>ar_approvals := ar_approvals r @ [(a, now)],
         ar_state := (if int (length (ar_approvals r @ [(a, now)])) \<ge> ar_requiredApprovals r then ApApproved else ar_state r)\<rparr>)"
  using assms by (cases r) (auto simp: approve_record_def Let_def split: if_splits)

lemma approval_ok_step:
  assumes "approval_step cfg A f f'" and "approval_ok cfg B f" and "A \<subseteq> B"
  shows "approval_ok cfg B f'"
  using assms
proof cases
  case (opened r now s aad)
  then show ?thesis by (simp add: approval_ok_def new_approval_def ap_source.defs request_id_for_def request_text_def)
next
  case (approved now a r r' aad)
  let ?as = "ar_approvals r @ [(a, now)]"
  from approve_record_Inr [OF approved(3)] consider "r' = r" | (new) "a \<noteq> so_requestedBy r" "a \<notin> set (map fst (ar_approvals r))"
    "r' = r\<lparr>ar_approvals := ?as, ar_state := (if int (length ?as) \<ge> ar_requiredApprovals r then ApApproved else ar_state r)\<rparr>"
    by blast
  then show ?thesis
  proof cases
    case new
    have "(so_tenantId r, ar_requestId r, a) \<in> B" using approved(4) assms(3) by blast
    then show ?thesis using assms(2) new unfolding approved(1,2) approval_ok_def by auto
  qed (use approved assms(2) in simp)
next
  case (consumed r aad now a b)
  then show ?thesis using assms(2) by (auto simp: approval_ok_def consumed_record_def)
next
  case (expired r now aad)
  then show ?thesis using assms(2) by (auto simp: approval_ok_def)
qed (use assms(2) in \<open>auto simp: approval_ok_def reject_record_def cancel_record_def\<close>)

lemma approval_ok_effect:
  assumes "command_effect cfg A f f'" and "approval_ok cfg B f" and "A \<subseteq> B"
  shows "approval_ok cfg B f'"
proof -
  obtain g where g: "(approval_step cfg A)\<^sup>*\<^sup>* f g" "pruned g f'"
    using assms(1) by (auto simp: command_effect_def)
  from g(1) have "approval_ok cfg B g"
    by induction (use assms(2,3) in \<open>auto intro: approval_ok_step\<close>)
  then show ?thesis using g(2) by (auto simp: pruned_def)
qed

definition approvals_given :: "('x, 'r) ap_input list \<Rightarrow> (string \<times> string \<times> string) set" where
  "approvals_given cs = (\<Union>c \<in> set cs. approval_given (ai_command c))"

lemma ap_step_effect:
  "command_effect cfg (approval_given (ai_command c)) (record_file (fst st) d i) (record_file (fst (ap_step cfg c st)) d i)"
  using ap_exec_effect [of cfg "ai_command c" "(fst st)\<lparr>rd_writes := ai_writes c, rd_removals := ai_removals c\<rparr>" "ai_env c" "snd st"]
  by (simp add: tracks_def ap_step_def)

lemma ap_run_ok:
  assumes "\<And>d i. approval_ok cfg B (record_file (fst st) d i)" and "approvals_given cs \<subseteq> B"
  shows "approval_ok cfg B (record_file (fst (ap_run cfg cs st)) d i)"
  using assms
proof (induction cs arbitrary: st)
  case (Cons c cs)
  have "approval_given (ai_command c) \<subseteq> B" "approvals_given cs \<subseteq> B"
    using Cons.prems(2) by (auto simp: approvals_given_def)
  then show ?case
    unfolding ap_run_simps(2) by (intro Cons.IH approval_ok_effect [OF ap_step_effect Cons.prems(1)])
qed simp

lemma given_by_command:
  assumes "(t, i, p) \<in> approvals_given cs"
  shows "\<exists>c \<in> set cs. \<exists>t' i' p'. ai_command c = ApproveExport t' i' p' \<and> trimmed t' = t \<and> ev_text i' = i \<and> trimmed p' = p"
proof -
  obtain c where "c \<in> set cs" "(t, i, p) \<in> approval_given (ai_command c)"
    using assms by (auto simp: approvals_given_def)
  then show ?thesis by (cases "ai_command c") auto
qed

subsection \<open>When the export runs\<close>

definition runs_export ::
  "ap_config \<Rightarrow> string \<Rightarrow> string \<Rightarrow> jsval \<Rightarrow> (approval \<Rightarrow> ('x, export_error, 'r) call) \<Rightarrow> approval record_store \<Rightarrow> 'x \<Rightarrow> 'x \<Rightarrow> bool" where
  "runs_export cfg tenant i expected operation s x x' \<longleftrightarrow> (\<exists>a. approval_file cfg tenant i s = Some (SealedFile (approval_aad tenant i) a)
     \<and> ar_state a = ApApproved \<and> so_tenantId a = tenant \<and> ar_requestId a = i \<and> assert_expected a expected = Inr ()
     \<and> x' = fst (operation a x))"

lemma lapsed_approved: "lapsed now f (Some (SealedFile aad r)) \<Longrightarrow> ar_state r = ApApproved \<Longrightarrow> f = Some (SealedFile aad r)"
  by (auto simp: lapsed_def)

lemma after_execute_runs:
  "after (execute_locked cfg now tenant i consumer expected operation bundle_of)
     (\<lambda>_ st. runs_export cfg tenant i expected operation s x (snd st)
        \<and> (\<exists>r. approval_file cfg tenant i (fst st) = Some (SealedFile (approval_aad tenant i) r) \<and> ar_state r = ApConsumed))
     (\<lambda>_ st. snd st = x \<or> runs_export cfg tenant i expected operation s x (snd st)) (s, x)"
proof -
  have ran: "runs_export cfg tenant i expected operation s x (fst (operation r x))"
    if "tracks (lapsed now) (record_file s) s1" "record_file s1 (tenant_root cfg tenant) i = Some (SealedFile (approval_aad tenant i) r)"
      "ar_state r = ApApproved" "so_tenantId r = tenant" "ar_requestId r = i" "assert_expected r expected = Inr ()" for s1 r tenant i
    using that lapsed_approved unfolding runs_export_def approval_file_def tracks_def by metis
  have commit: "after (replace_approval cfg tenant i (consumed_record now consumer b r))
      (\<lambda>_ s'. \<exists>r. approval_file cfg tenant i s' = Some (SealedFile (approval_aad tenant i) r) \<and> ar_state r = ApConsumed) (\<lambda>_ _. True) s1" for b r s1 tenant i
    unfolding replace_approval_def
    by (rule after_weaken [OF after_replace_file]) (simp_all add: approval_file_def consumed_record_def)
  have world: "after (operation r) (\<lambda>_ x'. x' = fst (operation r x)) (\<lambda>_ x'. x' = fst (operation r x)) x" for r
    by (simp add: after_state)
  have go: "after (on_world (operation r)) (\<lambda>result. after (let r' = consumed_record now consumer (bundle_of result) r in
       bindS (on_store (replace_approval cfg tenant i r')) (\<lambda>_. returnS (r', result)))
         (\<lambda>_ st. runs_export cfg tenant i expected operation s x (snd st)
           \<and> (\<exists>r. approval_file cfg tenant i (fst st) = Some (SealedFile (approval_aad tenant i) r) \<and> ar_state r = ApConsumed))
         (\<lambda>_ st. snd st = x \<or> runs_export cfg tenant i expected operation s x (snd st)))
       (\<lambda>_ st. snd st = x \<or> runs_export cfg tenant i expected operation s x (snd st)) (s1, x)"
    if "runs_export cfg tenant i expected operation s x (fst (operation r x))" for s1 r tenant i
    using that
    by (auto simp: Let_def after_on_world after_on_store intro!: after_weaken [OF world] after_weaken [OF commit])
  then show ?thesis
    unfolding execute_locked_def
    by (auto simp: after_on_store read_approval_def intro!: after_weaken [OF after_expire] after_read_file after_liftS_I go ran)
qed

lemma after_execute_approved:
  "after (execute_approved cfg env tenantId requestId expected actor operation bundle_of)
     (\<lambda>_ st. runs_export cfg (trimmed tenantId) (ev_text requestId) expected operation s x (snd st)
        \<and> (\<exists>r. approval_file cfg (trimmed tenantId) (ev_text requestId) (fst st)
              = Some (SealedFile (approval_aad (trimmed tenantId) (ev_text requestId)) r) \<and> ar_state r = ApConsumed))
     (\<lambda>_ st. snd st = x \<or> runs_export cfg (trimmed tenantId) (ev_text requestId) expected operation s x (snd st)) (s, x)"
  unfolding execute_approved_def
  by (auto simp: x_identifier_Inr ap_request_id_Inr intro!: after_liftS_I after_with_lock after_weaken [OF after_execute_runs])

end
