(* ===== verification/ExportGuarantees.thy ===== *)
theory ExportGuarantees
  imports ExportLife
begin

section \<open>What the approval store guarantees, and what it does not\<close>

text \<open>
  The theorems over all runs of \<open>ap_run\<close>: an export runs only under the approvals of a quorum of
  others, each given by a command of theirs; a command takes a request along its life; a consumed
  request stays consumed. The last part has two defects: the export runs before its consumption
  is recorded, so it runs again when that write fails, and a new request is written in place, so a
  torn write blocks every operation of the tenant for ever.
\<close>

subsection \<open>A sample store\<close>

definition sample_ap_config :: ap_config where
  "sample_ap_config = \<lparr>ac_required = True, ac_quorum = 2, ac_ttlMs = 60000, ac_retained = 100, ac_sha = (\<lambda>_. replicate 64 (CHR ''a''))\<rparr>"

definition sample_request_id :: string where
  "sample_request_id = ''AER-'' @ replicate 32 (CHR ''a'')"

definition sample_request :: jsval where
  "sample_request = JObj [(''tenantId'', JStr ''acme''), (''evidenceId'', JStr (''EVD-'' @ replicate 32 (CHR ''0''))),
     (''evidenceVersion'', JInt 1), (''contentSha256'', JStr (replicate 64 (CHR ''c''))), (''recipientId'', JStr ''regulator''),
     (''purpose'', JStr ''statutory audit'')]"

definition ap_at :: "int \<Rightarrow> ap_env" where
  "ap_at t = \<lparr>ae_now = t, ae_lock = Acquired\<rparr>"

definition sample_input :: "int \<Rightarrow> ('x, 'r) ap_command \<Rightarrow> ('x, 'r) ap_input" where
  "sample_input t c = \<lparr>ai_env = ap_at t, ai_writes = [], ai_removals = [], ai_command = c\<rparr>"

definition sample_approvals :: "(nat, string option) ap_input list" where
  "sample_approvals = [sample_input 1 (RequestExport sample_request (JStr ''alice'')),
     sample_input 2 (ApproveExport (JStr ''acme'') (JStr sample_request_id) (JStr ''bob'')),
     sample_input 3 (ApproveExport (JStr ''acme'') (JStr sample_request_id) (JStr ''carol''))]"

definition count_export :: "approval \<Rightarrow> (nat, export_error, string option) call" where
  "count_export r n = (n + 1, Inr (Some ''ASB-1''))"

definition sample_execute :: "int \<Rightarrow> (approval record_store \<times> nat, export_error, approval \<times> string option) call" where
  "sample_execute t = execute_approved sample_ap_config (ap_at t) (JStr ''acme'') (JStr sample_request_id) (JObj []) (JStr ''alice'')
     count_export (\<lambda>b. b)"

definition approved_store :: "approval record_store \<times> nat" where
  "approved_store = ap_run sample_ap_config sample_approvals (no_approvals, 0)"

lemma sample_runs: "snd (fst (sample_execute 4 approved_store)) = 1"
  by code_simp

lemma sample_returns: "case snd (sample_execute 4 approved_store) of Inr _ \<Rightarrow> True | Inl _ \<Rightarrow> False"
  by code_simp

lemma approved_store_refilled:
  "sample_execute t ((fst approved_store)\<lparr>rd_writes := [], rd_removals := []\<rparr>, snd approved_store) = sample_execute t approved_store"
proof -
  have "rd_writes (fst approved_store) = []" "rd_removals (fst approved_store) = []" by code_simp+
  then have "(fst approved_store)\<lparr>rd_writes := [], rd_removals := []\<rparr> = fst approved_store" by simp
  then show ?thesis by simp
qed

subsection \<open>Guarantees\<close>

text \<open>
  C1. Evidence leaves only with the approval of a quorum. After any run of commands, with any writes
  failing, if executing a request changes the world outside the store, then the export was run on a
  record that the store held as approved for that tenant and request; the record is what the request's
  digest names and agrees with what the caller expected; at least the configured number of subjects
  approved it, the requester not among them, and each of them did so by a command of its own.
\<close>

theorem export_runs_only_with_quorum:
  assumes "st = ap_run cfg cs (no_approvals, x0)"
    and "execute_approved cfg env tenantId requestId expected actor operation bundle_of
      ((fst st)\<lparr>rd_writes := ws, rd_removals := ms\<rparr>, snd st) = (st', result)"
    and "snd st' \<noteq> snd st"
  shows "\<exists>a. approval_file cfg (trimmed tenantId) (ev_text requestId) (fst st)
        = Some (SealedFile (approval_aad (trimmed tenantId) (ev_text requestId)) a)
    \<and> ar_state a = ApApproved \<and> so_tenantId a = trimmed tenantId \<and> ar_requestId a = request_id_for cfg a
    \<and> assert_expected a expected = Inr () \<and> snd st' = fst (operation a (snd st))
    \<and> ac_quorum cfg \<le> int (card (set (map fst (ar_approvals a)))) \<and> so_requestedBy a \<notin> set (map fst (ar_approvals a))
    \<and> (\<forall>p \<in> set (map fst (ar_approvals a)). \<exists>c \<in> set cs. \<exists>t i p'. ai_command c = ApproveExport t i p'
        \<and> trimmed t = so_tenantId a \<and> ev_text i = ar_requestId a \<and> trimmed p' = p)"
proof -
  let ?s = "(fst st)\<lparr>rd_writes := ws, rd_removals := ms\<rparr>"
  have "runs_export cfg (trimmed tenantId) (ev_text requestId) expected operation ?s (snd st) (snd st')"
    using after_execute_approved [of cfg env tenantId requestId expected actor operation bundle_of ?s "snd st"] assms(2,3)
    by (auto simp: after_def split: sum.splits)
  then obtain a where a: "approval_file cfg (trimmed tenantId) (ev_text requestId) (fst st)
      = Some (SealedFile (approval_aad (trimmed tenantId) (ev_text requestId)) a)" "ar_state a = ApApproved"
    "so_tenantId a = trimmed tenantId" "assert_expected a expected = Inr ()" "snd st' = fst (operation a (snd st))"
    by (auto simp: runs_export_def approval_file_def)
  have "approval_ok cfg (approvals_given cs) (approval_file cfg (trimmed tenantId) (ev_text requestId) (fst st))"
    unfolding assms(1) approval_file_def by (intro ap_run_ok) simp_all
  then have ok: "ar_requestId a = request_id_for cfg a" "distinct (map fst (ar_approvals a))"
    "so_requestedBy a \<notin> set (map fst (ar_approvals a))" "ac_quorum cfg \<le> int (length (ar_approvals a))"
    "\<forall>p \<in> set (map fst (ar_approvals a)). (so_tenantId a, ar_requestId a, p) \<in> approvals_given cs"
    using a(1,2) by (auto simp: approval_ok_def)
  have "ac_quorum cfg \<le> int (card (set (map fst (ar_approvals a))))"
    using ok(4) distinct_card [OF ok(2)] by simp
  then show ?thesis using a ok(1,3,5) given_by_command by metis
qed

theorem export_runs_only_with_quorum_witness:
  "\<exists>a. approval_file sample_ap_config ''acme'' sample_request_id (fst approved_store)
      = Some (SealedFile (approval_aad ''acme'' sample_request_id) a) \<and> 2 \<le> card (set (map fst (ar_approvals a)))"
proof -
  have texts: "trimmed (JStr ''acme'') = ''acme''" "ev_text (JStr sample_request_id) = sample_request_id" by code_simp+
  have "snd (fst (sample_execute 4 approved_store)) \<noteq> snd approved_store"
    unfolding sample_runs by code_simp
  then have "snd (fst (sample_execute 4 ((fst approved_store)\<lparr>rd_writes := [], rd_removals := []\<rparr>, snd approved_store))) \<noteq> snd approved_store"
    unfolding approved_store_refilled .
  from export_runs_only_with_quorum [OF approved_store_def surjective_pairing this [unfolded sample_execute_def]]
  show ?thesis by (auto simp: texts sample_ap_config_def)
qed

text \<open>
  A command moves a request only along its life. Whatever command runs, however its writes
  end, each file of the store goes through steps of \<open>approval_step\<close> - a new request opens without approvals
  or is torn; an approval by another subject is appended, and completes the quorum or not; a pending
  request is rejected, cancelled by its requester or expires after its time; an approved one is
  consumed - and then at most is removed, when it is finished.
\<close>

theorem approvals_follow_their_life:
  "\<exists>g. (approval_step cfg (approval_given (ai_command c)))\<^sup>*\<^sup>* (record_file (fst st) d i) g
    \<and> pruned g (record_file (fst (ap_step cfg c st)) d i)"
  using ap_step_effect by (simp add: command_effect_def)

subsection \<open>One approval, one export\<close>

lemma consumed_is_final:
  assumes "command_effect cfg A (Some (SealedFile aad r)) f" and "ar_state r = ApConsumed"
  shows "f = Some (SealedFile aad r) \<or> f = None"
proof -
  obtain g where g: "(approval_step cfg A)\<^sup>*\<^sup>* (Some (SealedFile aad r)) g" "pruned g f"
    using assms(1) by (auto simp: command_effect_def)
  from g(1) have "g = Some (SealedFile aad r)"
  proof induction
    case (step f1 f2)
    then show ?case using assms(2) approve_record_Inr
      by (auto elim!: approval_step_sealedE simp: reject_record_def cancel_record_def dest: approve_record_Inr)
  qed simp
  then show ?thesis using g(2) by (auto simp: pruned_def)
qed

lemma consumed_run:
  assumes "record_file (fst st) d i = Some (SealedFile aad r)" and "ar_state r = ApConsumed"
    and "\<forall>pre post. cs = pre @ post \<longrightarrow> record_file (fst (ap_run cfg pre st)) d i \<noteq> None"
  shows "record_file (fst (ap_run cfg cs st)) d i = Some (SealedFile aad r)"
  using assms
proof (induction cs arbitrary: st)
  case (Cons c cs)
  have "record_file (fst (ap_step cfg c st)) d i \<noteq> None"
    using Cons.prems(3) by (metis append_Cons append_Nil ap_run_simps(1,2))
  then have kept: "record_file (fst (ap_step cfg c st)) d i = Some (SealedFile aad r)"
    using consumed_is_final [OF ap_step_effect [of cfg c st d i, unfolded Cons.prems(1)] Cons.prems(2)] by auto
  have "\<forall>pre post. cs = pre @ post \<longrightarrow> record_file (fst (ap_run cfg pre (ap_step cfg c st))) d i \<noteq> None"
    using Cons.prems(3) by (metis append_Cons ap_run_simps(2))
  then show ?case using Cons.IH [OF kept Cons.prems(2)] by simp
qed simp

text \<open>
  C15. A consumed approval is not used again. When an execution has returned, then as long as the
  finished request is not removed by the retention, no later execution of it runs an export, whatever
  commands came in between: the world stays as it is and the caller gets an error.
\<close>

theorem approval_is_used_once:
  assumes "execute_approved cfg env tenantId requestId expected actor operation bundle_of st = (st1, Inr answer)"
    and "\<forall>pre post. cs = pre @ post \<longrightarrow> approval_file cfg (trimmed tenantId) (ev_text requestId) (fst (ap_run cfg pre st1)) \<noteq> None"
    and "trimmed tenantId' = trimmed tenantId" and "ev_text requestId' = ev_text requestId"
    and "st2 = ap_run cfg cs st1"
    and "execute_approved cfg env' tenantId' requestId' expected' actor' operation' bundle_of'
      ((fst st2)\<lparr>rd_writes := ws, rd_removals := ms\<rparr>, snd st2) = (st3, result)"
  shows "snd st3 = snd st2 \<and> (\<exists>e. result = Inl e)"
proof -
  let ?d = "tenant_root cfg (trimmed tenantId)" and ?i = "ev_text requestId"
  let ?s = "(fst st2)\<lparr>rd_writes := ws, rd_removals := ms\<rparr>"
  obtain r where r: "record_file (fst st1) ?d ?i = Some (SealedFile (approval_aad (trimmed tenantId) ?i) r)" "ar_state r = ApConsumed"
    using after_execute_approved [of cfg env tenantId requestId expected actor operation bundle_of "fst st" "snd st"] assms(1)
    by (auto simp: after_def approval_file_def)
  have "record_file (fst st2) ?d ?i = Some (SealedFile (approval_aad (trimmed tenantId) ?i) r)"
    unfolding assms(5) using assms(2) by (intro consumed_run r) (simp add: approval_file_def)
  then have "\<not> runs_export cfg (trimmed tenantId') (ev_text requestId') expected' operation' ?s (snd st2) x" for x
    using r(2) assms(3,4) by (auto simp: runs_export_def approval_file_def)
  then show ?thesis
    using after_execute_approved [of cfg env' tenantId' requestId' expected' actor' operation' bundle_of' ?s "snd st2"] assms(6)
    by (auto simp: after_def split: sum.splits)
qed

theorem approval_is_used_once_witness:
  "snd (fst (sample_execute 9 ((fst (fst (sample_execute 4 approved_store)))\<lparr>rd_writes := [], rd_removals := []\<rparr>,
     snd (fst (sample_execute 4 approved_store))))) = snd (fst (sample_execute 4 approved_store))"
proof -
  obtain st1 answer where executed: "sample_execute 4 approved_store = (st1, Inr answer)"
    using sample_returns by (cases "sample_execute 4 approved_store") (auto split: sum.splits)
  have "approval_file sample_ap_config (trimmed (JStr ''acme'')) (ev_text (JStr sample_request_id)) (fst st1) \<noteq> None"
    using after_execute_approved [of sample_ap_config "ap_at 4" "JStr ''acme''" "JStr sample_request_id" "JObj []" "JStr ''alice''" count_export
        "\<lambda>b. b" "fst approved_store" "snd approved_store"] executed
    by (auto simp: after_def sample_execute_def)
  then have "\<forall>pre post. ([] :: (nat, string option) ap_input list) = pre @ post \<longrightarrow>
      approval_file sample_ap_config (trimmed (JStr ''acme'')) (ev_text (JStr sample_request_id)) (fst (ap_run sample_ap_config pre st1)) \<noteq> None"
    by simp
  from approval_is_used_once [OF executed [unfolded sample_execute_def] this refl refl refl surjective_pairing, unfolded ap_run_simps]
  have "snd (fst (sample_execute 9 ((fst st1)\<lparr>rd_writes := [], rd_removals := []\<rparr>, snd st1))) = snd st1"
    unfolding sample_execute_def by blast
  then show ?thesis using executed by simp
qed

subsection \<open>Defects\<close>

lemma after_for_each_blocked:
  assumes "\<And>x s. I s \<Longrightarrow> after (f x) (\<lambda>_. I) (\<lambda>_ _. True) s" and "\<And>s. I s \<Longrightarrow> after (f y) (\<lambda>_ _. False) (\<lambda>_ _. True) s"
    and "y \<in> set xs" and "I s"
  shows "after (for_each f xs) (\<lambda>_ _. False) (\<lambda>_ _. True) s"
  using assms(3,4)
proof (induction xs arbitrary: s)
  case (Cons x xs)
  show ?case
  proof (cases "x = y")
    case True
    then show ?thesis using after_weaken [OF assms(2) [OF Cons.prems(2)]] by simp
  next
    case False
    then show ?thesis using Cons.IH Cons.prems by (auto intro: after_weaken [OF assms(1) [OF Cons.prems(2)]])
  qed
qed simp

lemma torn_expire:
  assumes "record_file s (tenant_root cfg tenant) i = Some Unparsable" and "is_request_id i"
  shows "after (expire_locked cfg now tenant) (\<lambda>_ _. False) (\<lambda>_ _. True) s"
proof -
  let ?I = "\<lambda>s. record_file s (tenant_root cfg tenant) i = Some Unparsable"
  have other: "after (expire_approval cfg now tenant j) (\<lambda>_. ?I) (\<lambda>_ _. True) s" if "?I s" for j s
    using that unfolding expire_approval_def read_approval_def replace_approval_def
    by (auto intro!: after_read_file after_weaken [OF after_replace_file])
  have torn: "after (expire_approval cfg now tenant i) (\<lambda>_ _. False) (\<lambda>_ _. True) s" if "?I s" for s
    using that unfolding expire_approval_def read_approval_def by (auto intro!: after_read_file)
  have listed: "i \<in> set (approval_names cfg tenant s)"
    using assms by (simp add: approval_names_def record_names_set)
  show ?thesis
    unfolding expire_locked_def after_bindS after_getS
    by (rule after_for_each_blocked [where I = ?I and y = i]) (use other torn assms(1) listed in simp_all)
qed

fun command_tenant :: "('x, 'r) ap_command \<Rightarrow> string" where
  "command_tenant (RequestExport input a) = trimmed (js_get input ''tenantId'')"
| "command_tenant (ApproveExport t i a) = trimmed t"
| "command_tenant (RejectExport t i reason a) = trimmed t"
| "command_tenant (CancelExport t i a) = trimmed t"
| "command_tenant (ExecuteExport t i expected a operation bundle_of) = trimmed t"
| "command_tenant (GetApproval t i) = trimmed t"
| "command_tenant (ListApprovals t options) = trimmed t"
| "command_tenant (ApprovalStatus t) = trimmed t"

lemma validate_request_tenant: "validate_request input a = Inr s \<Longrightarrow> so_tenantId s = trimmed (js_get input ''tenantId'')"
  by (auto simp: validate_request_def x_identifier_Inr)

lemma torn_blocks:
  assumes "record_file s (tenant_root cfg (command_tenant c)) i = Some Unparsable" and "is_request_id i"
  shows "after (ap_exec cfg env c) (\<lambda>_ _. False) (\<lambda>_ _. True) (s, x)"
proof -
  note blocked = after_weaken [OF torn_expire [OF _ assms(2)]]
  note queries = approve_export_def reject_export_def cancel_export_def mutate_approval_def get_approval_def list_approvals_def
    approval_status_def request_export_def execute_approved_def execute_locked_def Let_def
  show ?thesis
    using assms(1)
    by (cases c) (auto simp: after_forget after_on_store queries x_identifier_Inr validate_request_tenant
        intro!: after_liftS_I after_with_lock blocked)
qed

text \<open>
  C37. A torn request shuts out its tenant for good. When the creation of a request leaves a part of its
  file - it is written in place, not renamed into place - then after any further commands the part
  is still there, and every operation of that tenant fails: new requests, approvals, exports, listing
  and status.
\<close>

theorem torn_request_blocks_tenant:
  assumes "record_file (fst st) (tenant_root cfg (command_tenant c)) i = Some Unparsable" and "is_request_id i"
  shows "record_file (fst (ap_run cfg cs st)) (tenant_root cfg (command_tenant c)) i = Some Unparsable
    \<and> (\<exists>e. snd (ap_exec cfg env c ((fst (ap_run cfg cs st))\<lparr>rd_writes := ws, rd_removals := ms\<rparr>, x)) = Inl e)"
proof -
  let ?d = "tenant_root cfg (command_tenant c)"
  have stays: "f = Some Unparsable" if "command_effect cfg A (Some Unparsable) f" for A f
  proof -
    obtain g where g: "(approval_step cfg A)\<^sup>*\<^sup>* (Some Unparsable) g" "pruned g f"
      using \<open>command_effect cfg A (Some Unparsable) f\<close> by (auto simp: command_effect_def)
    from g(1) have "g = Some Unparsable" by induction (auto elim: approval_step.cases)
    then show ?thesis using g(2) by (simp add: pruned_def)
  qed
  have "record_file (fst (ap_run cfg cs st)) ?d i = Some Unparsable"
    using assms(1)
  proof (induction cs arbitrary: st)
    case (Cons c' cs)
    then show ?case using stays [OF ap_step_effect [of cfg c' st ?d i, unfolded Cons.prems]] by simp
  qed simp
  then show ?thesis
    using torn_blocks [of "(fst (ap_run cfg cs st))\<lparr>rd_writes := ws, rd_removals := ms\<rparr>" cfg c i env x] assms(2)
    by (auto simp: after_def split: sum.splits)
qed

definition torn_input :: "(nat, string option) ap_input" where
  "torn_input = (sample_input 1 (RequestExport sample_request (JStr ''alice'')))\<lparr>ai_writes := [TornFile]\<rparr>"

theorem torn_request_blocks_tenant_witness:
  "\<exists>e. snd (ap_exec sample_ap_config (ap_at 5) (ApprovalStatus (JStr ''acme'') :: (nat, string option) ap_command)
     ((fst (ap_run sample_ap_config sample_approvals (ap_step sample_ap_config torn_input (no_approvals, 0))))
        \<lparr>rd_writes := [], rd_removals := []\<rparr>, 0)) = Inl e"
proof -
  have "record_file (fst (ap_step sample_ap_config torn_input (no_approvals, 0)))
      (tenant_root sample_ap_config (command_tenant (ApprovalStatus (JStr ''acme'') :: (nat, string option) ap_command))) sample_request_id
      = Some Unparsable" "is_request_id sample_request_id"
    by code_simp+
  from torn_request_blocks_tenant [OF this] show ?thesis by blast
qed

lemma nothing_due:
  assumes "\<forall>j \<in> set (approval_names cfg tenant s). \<exists>r. approval_file cfg tenant j s = Some (SealedFile (approval_aad tenant j) r)
      \<and> ar_requestId r = j \<and> so_tenantId r = tenant \<and> \<not> (ar_state r = ApPending \<and> ar_expiresAt r \<le> now)"
  shows "expire_locked cfg now tenant s = (s, Inr ())"
proof -
  have "for_each (expire_approval cfg now tenant) js s = (s, Inr ())" if "set js \<subseteq> set (approval_names cfg tenant s)" for js
    using that
  proof (induction js)
    case (Cons j js)
    then obtain r where "approval_file cfg tenant j s = Some (SealedFile (approval_aad tenant j) r)"
      "ar_requestId r = j" "so_tenantId r = tenant" "\<not> (ar_state r = ApPending \<and> ar_expiresAt r \<le> now)"
      using assms by auto
    then have "expire_approval cfg now tenant j s = (s, Inr ())"
      by (auto simp: expire_approval_def bindS_def read_approval_def read_file_def approval_file_def returnS_def)
    then show ?case using Cons by (simp add: bindS_def)
  qed (simp add: returnS_def)
  then show ?thesis by (simp add: expire_locked_def bindS_def getS_def)
qed

text \<open>
  C38. An export that cannot be recorded runs again. The export runs before its request is marked
  consumed: when the write of the mark fails, the caller gets an error, the request is approved as
  before, and executing it once more runs the export a second time under the same approvals.
\<close>

theorem unrecorded_export_runs_again:
  assumes "approval_file cfg tenant i s = Some (SealedFile (approval_aad tenant i) a)" and "ar_state a = ApApproved"
    and "so_tenantId a = tenant" and "ar_requestId a = i" and "assert_expected a expected = Inr ()"
    and "\<forall>j \<in> set (approval_names cfg tenant s). \<exists>r. approval_file cfg tenant j s = Some (SealedFile (approval_aad tenant j) r)
      \<and> ar_requestId r = j \<and> so_tenantId r = tenant \<and> \<not> (ar_state r = ApPending \<and> ar_expiresAt r \<le> ae_now env)"
    and "x_identifier tenantId ''tenantId'' = Inr tenant" and "ap_request_id requestId = Inr i"
    and "x_identifier actor ''actor'' = Inr consumer" and "ae_lock env = Acquired"
    and "operation a x = (x1, Inr r1)" and "operation a x1 = (x2, Inr r2)"
    and "execute = execute_approved cfg env tenantId requestId expected actor operation bundle_of"
  shows "execute (s\<lparr>rd_writes := [NotStored]\<rparr>, x) = ((s\<lparr>rd_writes := []\<rparr>, x1), Inl XStore)
    \<and> snd (fst (execute (s\<lparr>rd_writes := []\<rparr>, x1))) = x2"
proof -
  have found: "approval_file cfg tenant i (s\<lparr>rd_writes := ws\<rparr>) = Some (SealedFile (approval_aad tenant i) a)" for ws
    using assms(1) by (simp add: approval_file_def)
  have names: "set (approval_names cfg tenant (s\<lparr>rd_writes := ws\<rparr>)) = set (approval_names cfg tenant s)" for ws
    by (simp add: approval_names_def record_names_set)
  have "expire_locked cfg (ae_now env) tenant (s\<lparr>rd_writes := ws\<rparr>) = (s\<lparr>rd_writes := ws\<rparr>, Inr ())" for ws
    using assms(6) by (intro nothing_due) (simp add: names approval_file_def)
  moreover have "read_approval cfg tenant i (s\<lparr>rd_writes := ws\<rparr>) = (s\<lparr>rd_writes := ws\<rparr>, Inr a)" for ws
    using found [of ws] assms(3,4) by (simp add: read_approval_def read_file_def approval_file_def)
  ultimately have before: "execute (s\<lparr>rd_writes := ws\<rparr>, y) =
      bindS (on_world (operation a)) (\<lambda>result. let r' = consumed_record (ae_now env) consumer (bundle_of result) a in
        bindS (on_store (replace_approval cfg tenant i r')) (\<lambda>_. returnS (r', result))) (s\<lparr>rd_writes := ws\<rparr>, y)" for ws y
    using assms(2,5,7-10,13) found [of ws]
    by (simp add: execute_approved_def execute_locked_def bindS_def liftS_def on_store_def getS_def ensureS_def)
  show ?thesis
    unfolding before using assms(11,12)
    by (simp add: bindS_def on_world_def on_store_def Let_def replace_approval_def replace_file_def draw_put_def modifyS_def
        ensureS_def returnS_def)
qed

theorem unrecorded_export_runs_again_witness:
  "snd (fst (sample_execute 5 ((fst approved_store)\<lparr>rd_writes := []\<rparr>, 1))) = 2"
proof -
  obtain a where a: "approval_file sample_ap_config ''acme'' sample_request_id (fst approved_store)
      = Some (SealedFile (approval_aad ''acme'' sample_request_id) a)" "ar_state a = ApApproved" "so_tenantId a = ''acme''"
    "ar_requestId a = sample_request_id"
  proof -
    have "case approval_file sample_ap_config ''acme'' sample_request_id (fst approved_store) of
        Some (SealedFile aad a) \<Rightarrow> aad = approval_aad ''acme'' sample_request_id \<and> ar_state a = ApApproved
          \<and> so_tenantId a = ''acme'' \<and> ar_requestId a = sample_request_id | _ \<Rightarrow> False"
      by code_simp
    then show thesis using that by (auto split: option.splits job_file.splits)
  qed
  have names: "approval_names sample_ap_config ''acme'' (fst approved_store) = [sample_request_id]" by code_simp
  have given: "x_identifier (JStr ''acme'') ''tenantId'' = Inr ''acme''" "ap_request_id (JStr sample_request_id) = Inr sample_request_id"
    "x_identifier (JStr ''alice'') ''actor'' = Inr ''alice''"
    by code_simp+
  have "snd (fst (execute_approved sample_ap_config (ap_at 5) (JStr ''acme'') (JStr sample_request_id) (JObj []) (JStr ''alice'')
      count_export (\<lambda>b. b) ((fst approved_store)\<lparr>rd_writes := []\<rparr>, 1))) = 2"
    using unrecorded_export_runs_again [OF a _ _ given, of "JObj []" "ap_at 5" count_export 0 1 "Some ''ASB-1''" 2 "Some ''ASB-1''",
        OF _ _ _ _ _ refl] a names
    by (simp add: assert_expected_def expected_fields_def ap_at_def count_export_def)
  then show ?thesis by (simp add: sample_execute_def)
qed

end
