(* ===== verification/BundleStore.thy ===== *)
theory BundleStore
  imports RecordFiles
begin

section \<open>Assurance bundles (src/evidence/evidenceAssuranceBundleStore.js)\<close>

text \<open>
  Evidence leaves as a bundle that an external recipient pulls: the package is sealed for the public
  key of the recipient, lies encrypted in the directory of the recipient, and is handed out against
  signed requests; a claim lasts for a lease, an acknowledgement erases the package, and so does the
  end of the bundle's time. The state is the records with, per recipient directory, the replay
  markers and the times they were written. \<open>bc_hmac\<close> gives the bytes of an HMAC-SHA256, \<open>bc_packageHash\<close> the
  digest of the canonical text of a sealed package and \<open>bc_packageSize\<close> the bytes of its JSON. Sealing
  is ideal: a sealed package is its payload with the key it was sealed for. The clock stands still
  during an operation and is the clock of the file system too. Not modelled: \<open>health()\<close> and the
  loader from environment variables.
\<close>

subsection \<open>Data\<close>

datatype bundle_state = BundlePending | BundleClaimed | BundleDelivered | BundleExpired

record sealed_bundle =
  se_publicKeyId :: string
  se_sealedFor :: string
  se_aad :: string
  se_payload :: jsval

record assurance_bundle =
  bd_bundleId :: string
  bd_tenantId :: string
  bd_evidenceId :: string
  bd_evidenceVersion :: int
  bd_contentSha256 :: string
  bd_recipientId :: string
  bd_recipientPublicKeyId :: string
  bd_purpose :: string
  bd_requestedBy :: string
  bd_createdAt :: int
  bd_expiresAt :: int
  bd_state :: bundle_state
  bd_claimTokenHash :: "string option"
  bd_claimedAt :: "int option"
  bd_claimExpiresAt :: "int option"
  bd_deliveredAt :: "int option"
  bd_packageSha256 :: string
  bd_sealedPackage :: "sealed_bundle option"

record recipient =
  rc_hmacKeys :: "(string \<times> string) list"
  rc_publicKeys :: "(string \<times> string) list"
  rc_primaryPublicKeyId :: string

record bundle_config =
  bc_required :: bool
  bc_ttlMs :: int
  bc_leaseMs :: int
  bc_claimBytes :: int
  bc_retained :: nat
  bc_skewMs :: int
  bc_recipients :: "(string \<times> recipient) list"
  bc_sha :: "string \<Rightarrow> string"
  bc_hmac :: "string \<Rightarrow> string \<Rightarrow> string"
  bc_packageHash :: "sealed_bundle \<Rightarrow> string"
  bc_packageSize :: "sealed_bundle option \<Rightarrow> nat"
  bc_parse :: "string \<Rightarrow> jsval option"
  bc_date :: "string \<Rightarrow> int option"
  bc_iso :: "int \<Rightarrow> string"

record bundle_env =
  be_now :: int
  be_lock :: "string \<Rightarrow> lock_outcome"
  be_claimToken :: "string \<Rightarrow> string"

type_synonym replays = "string \<Rightarrow> (string \<times> int) list"
type_synonym bundle_files = "assurance_bundle record_store \<times> replays"
type_synonym 'a bundle_call = "(bundle_files, export_error, 'a) call"

subsection \<open>Recipients\<close>

definition key_identifier :: "jsval \<Rightarrow> export_error + string" where
  "key_identifier v = (let i = ev_text v in ensure (safe_ident ''._:-'' 1 191 i) (XValidation ''keyId'') (Inr i))"

definition recipient_secret :: "string \<times> jsval \<Rightarrow> export_error + string \<times> string" where
  "recipient_secret entry = bindR (key_identifier (JStr (fst entry))) (\<lambda>keyId.
     bindR (from_option (XType ''secret'') (strict_base64 (snd entry))) (\<lambda>secret.
     ensure (\<not> (length secret < 32 \<or> length secret > 128)) (XType ''secret'') (Inr (keyId, secret))))"

definition recipient_key :: "(string \<Rightarrow> (string \<times> nat) option) \<Rightarrow> string \<times> jsval \<Rightarrow> export_error + string \<times> string" where
  "recipient_key rsa entry = bindR (key_identifier (JStr (fst entry))) (\<lambda>keyId.
     bindR (from_option (XType ''publicKey'') (rsa (js_String (snd entry)))) (\<lambda>(kind, bits).
     ensure (kind = ''rsa'') (XType ''publicKey'')
    (ensure (\<not> bits < 2048) (XType ''publicKey'') (Inr (keyId, js_String (snd entry))))))"

definition parse_recipient :: "(string \<Rightarrow> (string \<times> nat) option) \<Rightarrow> string \<times> jsval \<Rightarrow> export_error + string \<times> recipient" where
  "parse_recipient rsa entry = (let value = snd entry;
       hmacEntries = object_entries (js_get value ''keys''); publicEntries = object_entries (js_get value ''publicKeys'') in
     bindR (x_identifier (JStr (fst entry)) ''recipientId'') (\<lambda>_.
     ensure (is_plain_object value) (XType ''recipient'')
    (ensure (hmacEntries \<noteq> []) (XType ''keys'')
    (bindR (mapR recipient_secret hmacEntries) (\<lambda>hmacKeys.
     ensure (publicEntries \<noteq> []) (XType ''publicKeys'')
    (bindR (mapR (recipient_key rsa) publicEntries) (\<lambda>publicKeys.
     bindR (key_identifier (js_or_nullish (js_get value ''primaryPublicKeyId'') (JStr (fst (hd publicEntries))))) (\<lambda>primary.
     ensure (primary \<in> fst ` set publicKeys) (XType ''primaryPublicKeyId'')
       (Inr (fst entry, \<lparr>rc_hmacKeys = hmacKeys, rc_publicKeys = publicKeys, rc_primaryPublicKeyId = primary\<rparr>))))))))))"

definition parse_recipients :: "(string \<Rightarrow> (string \<times> nat) option) \<Rightarrow> jsval \<Rightarrow> export_error + (string \<times> recipient) list" where
  "parse_recipients rsa raw = ensure (is_plain_object raw) (XType ''recipients'')
     (ensure (length (object_entries raw) \<le> 100) (XType ''recipients'') (mapR (parse_recipient rsa) (object_entries raw)))"

text \<open>The store, from its options and the functions of its engine; \<open>None\<close> is the disabled store.\<close>

definition make_bundle_store ::
  "(string \<Rightarrow> (string \<times> nat) option) \<Rightarrow> bundle_config \<Rightarrow> jsval \<Rightarrow> export_error + bundle_config option" where
  "make_bundle_store rsa engine options =
     (let opt = (\<lambda>field d. let v = js_get options field in if v = JUndef then d else v);
          mode = ev_text (opt ''mode'' (JStr ''disabled'')) in
      ensure (mode \<in> {''disabled'', ''pull''}) (XType ''mode'')
     (bindR (case opt ''required'' (JBool False) of JBool b \<Rightarrow> Inr b | _ \<Rightarrow> Inl (XType ''required'')) (\<lambda>required.
      if mode = ''disabled'' then ensure (\<not> required) (XType ''required'') (Inr None)
      else ensure (trimmed (opt ''directory'' JUndef) \<noteq> []) (XType ''directory'')
     (bindR (evidence_keyring (opt ''encryptionKeys'' JUndef) (opt ''encryptionPrimaryKeyId'' JUndef)) (\<lambda>_.
      bindR (parse_recipients rsa (opt ''recipients'' (JObj []))) (\<lambda>recipients.
      ensure (recipients \<noteq> []) (XType ''recipients'')
     (bindR (x_integer (opt ''bundleTtlMinutes'' (JInt 1440)) ''bundleTtlMinutes'' 5 43200) (\<lambda>ttl.
      bindR (x_integer (opt ''claimLeaseMs'' (JInt 300000)) ''claimLeaseMs'' 5000 3600000) (\<lambda>lease.
      bindR (x_integer (opt ''maximumClaimBytes'' (JInt 25000000)) ''maximumClaimBytes'' 1024 100000000) (\<lambda>claimBytes.
      bindR (x_integer (opt ''retention'' (JInt 10000)) ''retention'' 100 100000) (\<lambda>retained.
      bindR (x_integer (opt ''clockSkewSeconds'' (JInt 300)) ''clockSkewSeconds'' 10 3600) (\<lambda>skew.
      Inr (Some (engine\<lparr>bc_required := required, bc_ttlMs := ttl * 60000, bc_leaseMs := lease, bc_claimBytes := claimBytes,
        bc_retained := nat retained, bc_skewMs := skew * 1000, bc_recipients := recipients\<rparr>))))))))))))))"

subsection \<open>What is queued\<close>

record bundle_source =
  bs_tenantId :: string
  bs_evidenceId :: string
  bs_evidenceVersion :: int
  bs_contentSha256 :: string
  bs_recipientId :: string
  bs_requestedBy :: string
  bs_purpose :: string
  bs_manifest :: jsval
  bs_evidence :: jsval
  bs_createdAt :: int
  bs_expiresAt :: int

definition validate_queue_input :: "bundle_config \<Rightarrow> int \<Rightarrow> jsval \<Rightarrow> export_error + bundle_source" where
  "validate_queue_input cfg now input =
     ensure (is_plain_object input) (XValidation ''bundle'')
    (bindR (x_identifier (js_get input ''tenantId'') ''tenantId'') (\<lambda>tenantId.
     bindR (x_evidence_id (js_get input ''evidenceId'')) (\<lambda>evidenceId.
     bindR (x_integer (js_get input ''evidenceVersion'') ''evidenceVersion'' 1 1000000) (\<lambda>evidenceVersion.
     bindR (x_hash (js_get input ''contentSha256'') ''contentSha256'') (\<lambda>contentSha256.
     bindR (x_identifier (js_get input ''recipientId'') ''recipientId'') (\<lambda>recipientId.
     ensure (recipientId \<in> fst ` set (bc_recipients cfg)) (XValidation ''recipientId'')
    (bindR (x_identifier (js_get input ''requestedBy'') ''requestedBy'') (\<lambda>requestedBy.
     bindR (x_text (js_get input ''purpose'') ''purpose'' 10 500) (\<lambda>purpose.
     ensure (is_plain_object (js_get input ''manifest'')) (XValidation ''manifest'')
    (ensure (is_plain_object (js_get input ''evidence'')) (XValidation ''evidence'')
       (Inr \<lparr>bs_tenantId = tenantId, bs_evidenceId = evidenceId, bs_evidenceVersion = evidenceVersion,
          bs_contentSha256 = contentSha256, bs_recipientId = recipientId, bs_requestedBy = requestedBy, bs_purpose = purpose,
          bs_manifest = js_get input ''manifest'', bs_evidence = js_get input ''evidence'',
          bs_createdAt = now, bs_expiresAt = now + bc_ttlMs cfg\<rparr>)))))))))))"

text \<open>\<open>/^ASB-[a-f0-9]{32}$/\<close>, and the identifier of a bundle; \<open>join\<close> writes nothing for a missing digest.\<close>

definition is_bundle_id :: "string \<Rightarrow> bool" where
  "is_bundle_id s = (starts_with ''ASB-'' s \<and> is_hex_text 32 (drop 4 s))"

definition bundle_identifier :: "jsval \<Rightarrow> export_error + string" where
  "bundle_identifier v = (let i = ev_text v in ensure (is_bundle_id i) (XValidation ''bundleId'') (Inr i))"

definition bundle_text :: "bundle_source \<Rightarrow> string" where
  "bundle_text s = join_with ''|'' [bs_tenantId s, bs_evidenceId s, int_text (bs_evidenceVersion s), bs_contentSha256 s,
     bs_recipientId s, ev_text (js_get (bs_manifest s) ''bundleDigest'')]"

definition bundle_id_for :: "bundle_config \<Rightarrow> bundle_source \<Rightarrow> string" where
  "bundle_id_for cfg s = ''ASB-'' @ take 32 (bc_sha cfg (bundle_text s))"

definition package_payload :: "bundle_config \<Rightarrow> bundle_source \<Rightarrow> string \<Rightarrow> jsval" where
  "package_payload cfg s i = JObj
     [(''format'', JStr ''basitclaw-assurance-bundle-package''), (''version'', JInt 1), (''bundleId'', JStr i),
      (''tenantId'', JStr (bs_tenantId s)), (''evidenceId'', JStr (bs_evidenceId s)), (''evidenceVersion'', JInt (bs_evidenceVersion s)),
      (''recipientId'', JStr (bs_recipientId s)), (''createdAt'', JStr (bc_iso cfg (bs_createdAt s))),
      (''expiresAt'', JStr (bc_iso cfg (bs_expiresAt s))), (''purpose'', JStr (bs_purpose s)), (''requestedBy'', JStr (bs_requestedBy s)),
      (''manifest'', bs_manifest s), (''evidence'', bs_evidence s)]"

definition seal_for_recipient :: "jsval \<Rightarrow> recipient \<Rightarrow> string \<Rightarrow> sealed_bundle" where
  "seal_for_recipient payload rcp i = (let keyId = rc_primaryPublicKeyId rcp in
     \<lparr>se_publicKeyId = keyId, se_sealedFor = the (map_of (rc_publicKeys rcp) keyId),
      se_aad = ''basitclaw:assurance-bundle:'' @ i @ '':'' @ keyId, se_payload = payload\<rparr>)"

definition make_bundle :: "bundle_config \<Rightarrow> bundle_source \<Rightarrow> string \<Rightarrow> recipient \<Rightarrow> assurance_bundle" where
  "make_bundle cfg s i rcp = (let package = seal_for_recipient (package_payload cfg s i) rcp i in
     \<lparr>bd_bundleId = i, bd_tenantId = bs_tenantId s, bd_evidenceId = bs_evidenceId s, bd_evidenceVersion = bs_evidenceVersion s,
      bd_contentSha256 = bs_contentSha256 s, bd_recipientId = bs_recipientId s, bd_recipientPublicKeyId = se_publicKeyId package,
      bd_purpose = bs_purpose s, bd_requestedBy = bs_requestedBy s, bd_createdAt = bs_createdAt s, bd_expiresAt = bs_expiresAt s,
      bd_state = BundlePending, bd_claimTokenHash = None, bd_claimedAt = None, bd_claimExpiresAt = None, bd_deliveredAt = None,
      bd_packageSha256 = bc_packageHash cfg package, bd_sealedPackage = Some package\<rparr>)"

definition assert_same_bundle :: "assurance_bundle \<Rightarrow> bundle_source \<Rightarrow> export_error + unit" where
  "assert_same_bundle r s = ensure (bd_tenantId r = bs_tenantId s \<and> bd_evidenceId r = bs_evidenceId s
     \<and> bd_evidenceVersion r = bs_evidenceVersion s \<and> bd_contentSha256 r = bs_contentSha256 s \<and> bd_recipientId r = bs_recipientId s)
     (XIntegrity ''conflicting bundle'') (Inr ())"

subsection \<open>Records and replay markers\<close>

definition bundle_aad :: "string \<Rightarrow> string \<Rightarrow> string" where
  "bundle_aad rid i = ''basitclaw:assurance-bundle-record:'' @ rid @ '':'' @ i"

definition recipient_root :: "bundle_config \<Rightarrow> string \<Rightarrow> string" where
  "recipient_root cfg rid = bc_sha cfg (''recipient:'' @ rid)"

definition genuine_bundle :: "bundle_config \<Rightarrow> string \<Rightarrow> string \<Rightarrow> assurance_bundle \<Rightarrow> bool" where
  "genuine_bundle cfg rid i r = (bd_bundleId r = i \<and> bd_recipientId r = rid
     \<and> (case bd_sealedPackage r of None \<Rightarrow> True | Some p \<Rightarrow> bc_packageHash cfg p = bd_packageSha256 r))"

definition read_bundle :: "bundle_config \<Rightarrow> string \<Rightarrow> string \<Rightarrow> assurance_bundle bundle_call" where
  "read_bundle cfg rid i = on_store (read_file (bundle_aad rid i) (genuine_bundle cfg rid i) (recipient_root cfg rid) i)"

definition replace_bundle :: "bundle_config \<Rightarrow> string \<Rightarrow> string \<Rightarrow> assurance_bundle \<Rightarrow> unit bundle_call" where
  "replace_bundle cfg rid i r = on_store (replace_file (recipient_root cfg rid) i (bundle_aad rid i) r)"

definition bundle_names :: "bundle_config \<Rightarrow> string \<Rightarrow> bundle_files \<Rightarrow> string list" where
  "bundle_names cfg rid st = record_names is_bundle_id (recipient_root cfg rid) (fst st)"

definition bundle_file :: "bundle_config \<Rightarrow> string \<Rightarrow> string \<Rightarrow> bundle_files \<Rightarrow> assurance_bundle job_file option" where
  "bundle_file cfg rid i st = record_file (fst st) (recipient_root cfg rid) i"

definition release_claim :: "int \<Rightarrow> assurance_bundle \<Rightarrow> assurance_bundle" where
  "release_claim now r = (if bd_state r = BundleClaimed \<and> (case bd_claimExpiresAt r of None \<Rightarrow> False | Some t \<Rightarrow> t \<le> now)
     then r\<lparr>bd_state := BundlePending, bd_claimTokenHash := None, bd_claimedAt := None, bd_claimExpiresAt := None\<rparr> else r)"

definition expire_bundle :: "int \<Rightarrow> assurance_bundle \<Rightarrow> assurance_bundle" where
  "expire_bundle now r = (if (bd_state r = BundlePending \<or> bd_state r = BundleClaimed) \<and> bd_expiresAt r \<le> now
     then r\<lparr>bd_state := BundleExpired, bd_claimTokenHash := None, bd_claimExpiresAt := None, bd_sealedPackage := None\<rparr> else r)"

text \<open>\<open>changed\<close> is set exactly when one of the two changes the state of the record.\<close>

definition maintain_bundle :: "bundle_config \<Rightarrow> int \<Rightarrow> string \<Rightarrow> string \<Rightarrow> unit bundle_call" where
  "maintain_bundle cfg now rid i = bindS (read_bundle cfg rid i) (\<lambda>r.
     let r' = expire_bundle now (release_claim now r) in
     if bd_state r' \<noteq> bd_state r then replace_bundle cfg rid i r' else returnS ())"

definition drop_replay :: "string \<Rightarrow> string \<Rightarrow> replays \<Rightarrow> replays" where
  "drop_replay d i m = m(d := without i (m d))"

text \<open>A marker older than a day is removed; an error of the removal is ignored.\<close>

definition prune_replay :: "string \<Rightarrow> string \<Rightarrow> unit bundle_call" where
  "prune_replay d i = bindS (on_store draw_removal) (\<lambda>removed.
     if removed then on_world (modifyS (drop_replay d i)) else returnS ())"

definition prune_replay_markers :: "bundle_config \<Rightarrow> int \<Rightarrow> string \<Rightarrow> unit bundle_call" where
  "prune_replay_markers cfg now rid = bindS (on_world (getS (\<lambda>m. m (recipient_root cfg rid)))) (\<lambda>markers.
     for_each (prune_replay (recipient_root cfg rid)) (map fst (filter (\<lambda>e. now - snd e > 86400000) markers)))"

definition maintenance_locked :: "bundle_config \<Rightarrow> int \<Rightarrow> string \<Rightarrow> unit bundle_call" where
  "maintenance_locked cfg now rid = bindS (getS (bundle_names cfg rid)) (\<lambda>names.
     bindS (for_each (maintain_bundle cfg now rid) names) (\<lambda>_. prune_replay_markers cfg now rid))"

definition bundle_end :: "assurance_bundle \<Rightarrow> int" where
  "bundle_end r = (case bd_deliveredAt r of Some t \<Rightarrow> t | None \<Rightarrow> bd_expiresAt r)"

definition prune_bundles :: "bundle_config \<Rightarrow> string \<Rightarrow> unit bundle_call" where
  "prune_bundles cfg rid = bindS (getS (bundle_names cfg rid)) (\<lambda>names.
     bindS (map_each (read_bundle cfg rid) names) (\<lambda>rs.
       let over = filter (\<lambda>r. bd_state r \<in> {BundleDelivered, BundleExpired}) rs in
       for_each (\<lambda>i. on_store (remove_record (recipient_root cfg rid) i))
         (map bd_bundleId (take (length over - bc_retained cfg) (sort_key bundle_end over)))))"

subsection \<open>Signed requests\<close>

record bundle_auth =
  ba_recipientId :: string
  ba_keyId :: string
  ba_timestamp :: int
  ba_nonce :: string
  ba_replayId :: string

text \<open>A header that is an array counts with its first value as it is.\<close>

definition bundle_header :: "(string \<Rightarrow> jsval) \<Rightarrow> string \<Rightarrow> jsval" where
  "bundle_header headers name = (case headers name of JArr [] \<Rightarrow> JUndef | JArr (v # _) \<Rightarrow> v | v \<Rightarrow> JStr (ev_text v))"

text \<open>\<open>/^[a-zA-Z0-9._:-]{16,191}$/\<close>.\<close>

definition nonce_value :: "jsval \<Rightarrow> export_error + string" where
  "nonce_value v = (let t = ev_text v in
     ensure (16 \<le> length t \<and> length t \<le> 191 \<and> list_all (\<lambda>c. is_alnum c \<or> c \<in> set ''._:-'') t) (XAuth ''authentication'') (Inr t))"

definition signed_text :: "bundle_config \<Rightarrow> string \<Rightarrow> string \<Rightarrow> string \<Rightarrow> int \<Rightarrow> string \<Rightarrow> string \<Rightarrow> string" where
  "signed_text cfg rid keyId operation timestamp nonce body =
     join_with [CHR 0x0A] [rid, keyId, operation, bc_iso cfg timestamp, nonce, bc_sha cfg body]"

definition authenticate_signed :: "bundle_config \<Rightarrow> int \<Rightarrow> string \<Rightarrow> (string \<Rightarrow> jsval) \<Rightarrow> string \<Rightarrow> export_error + bundle_auth" where
  "authenticate_signed cfg now body headers operation =
     bindR (x_identifier (bundle_header headers ''x-basitclaw-recipient-id'') ''recipientId'') (\<lambda>rid.
     bindR (key_identifier (bundle_header headers ''x-basitclaw-recipient-key-id'')) (\<lambda>keyId.
     bindR (from_option (XValidation ''timestamp'') (bc_date cfg (ev_text (bundle_header headers ''x-basitclaw-recipient-timestamp'')))) (\<lambda>timestamp.
     bindR (nonce_value (bundle_header headers ''x-basitclaw-recipient-nonce'')) (\<lambda>nonce.
     bindR (from_option (XAuth ''authentication'') (map_of (bc_recipients cfg) rid)) (\<lambda>rcp.
     bindR (from_option (XAuth ''authentication'') (map_of (rc_hmacKeys rcp) keyId)) (\<lambda>secret.
     ensure (\<not> \<bar>now - timestamp\<bar> > bc_skewMs cfg) (XAuth ''timestamp_window'')
    (let canonical = signed_text cfg rid keyId operation timestamp nonce body in
     bindR (from_option (XAuth ''authentication'') (strict_base64 (bundle_header headers ''x-basitclaw-recipient-signature''))) (\<lambda>supplied.
     ensure (supplied = bc_hmac cfg secret canonical) (XAuth ''authentication'')
       (Inr \<lparr>ba_recipientId = rid, ba_keyId = keyId, ba_timestamp = timestamp, ba_nonce = nonce,
             ba_replayId = bc_sha cfg canonical\<rparr>)))))))))"

text \<open>
  The replay marker is created exclusively, and stays when its content cannot be written.
\<close>

definition add_replay :: "string \<Rightarrow> string \<Rightarrow> int \<Rightarrow> replays \<Rightarrow> replays" where
  "add_replay d i now m = m(d := (i, now) # m d)"

definition register_replay :: "bundle_config \<Rightarrow> int \<Rightarrow> bundle_auth \<Rightarrow> unit bundle_call" where
  "register_replay cfg now auth = (let d = recipient_root cfg (ba_recipientId auth) in
     bindS (on_world (getS (\<lambda>m. map_of (m d) (ba_replayId auth)))) (\<lambda>seen.
     ensureS (seen = None) (XAuth ''replay'')
    (bindS (on_store draw_put) (\<lambda>w.
     bindS (on_world (modifyS (if w = NotStored then (\<lambda>m. m) else add_replay d (ba_replayId auth) now))) (\<lambda>_.
     ensureS (w = Stored) XStore (returnS ()))))))"

definition bundle_json :: "(string \<Rightarrow> jsval option) \<Rightarrow> string \<Rightarrow> string list \<Rightarrow> export_error + jsval" where
  "bundle_json parse body allowed =
     bindR (from_option (XValidation ''body'') (parse (if body = [] then ''{}'' else body))) (\<lambda>v.
       case v of
         JObj kvs \<Rightarrow> (case find (\<lambda>kv. fst kv \<notin> set allowed) kvs of
             None \<Rightarrow> Inr v | Some kv \<Rightarrow> Inl (XValidation (fst kv)))
       | _ \<Rightarrow> Inl (XValidation ''body''))"

subsection \<open>Operations\<close>

definition bundle_section :: "bundle_env \<Rightarrow> string \<Rightarrow> 'a bundle_call \<Rightarrow> 'a bundle_call" where
  "bundle_section env rid = with_lock (be_lock env rid) XLock"

text \<open>The answer of \<open>queue\<close>: whether the bundle existed, whether it was sealed again, and its record.\<close>

definition queue_bundle_locked :: "bundle_config \<Rightarrow> int \<Rightarrow> bundle_source \<Rightarrow> (bool \<times> bool \<times> assurance_bundle) bundle_call" where
  "queue_bundle_locked cfg now s = (let rid = bs_recipientId s; i = bundle_id_for cfg s;
       fresh = make_bundle cfg s i (the (map_of (bc_recipients cfg) rid)) in
     bindS (maintenance_locked cfg now rid) (\<lambda>_.
     bindS (getS (bundle_file cfg rid i)) (\<lambda>f.
     if f \<noteq> None then
       bindS (read_bundle cfg rid i) (\<lambda>existing.
       bindS (liftS (assert_same_bundle existing s)) (\<lambda>_.
       if bd_state existing \<noteq> BundleExpired then returnS (True, False, existing)
       else bindS (replace_bundle cfg rid i fresh) (\<lambda>_. returnS (False, True, fresh))))
     else bindS (on_store (write_exclusive (recipient_root cfg rid) i (bundle_aad rid i) fresh)) (\<lambda>_.
       bindS (prune_bundles cfg rid) (\<lambda>_. returnS (False, False, fresh))))))"

definition queue_bundle :: "bundle_config \<Rightarrow> bundle_env \<Rightarrow> jsval \<Rightarrow> (bool \<times> bool \<times> assurance_bundle) bundle_call" where
  "queue_bundle cfg env input = bindS (liftS (validate_queue_input cfg (be_now env) input)) (\<lambda>s.
     bundle_section env (bs_recipientId s) (queue_bundle_locked cfg (be_now env) s))"

definition recipient_ids :: "bundle_config \<Rightarrow> string list" where
  "recipient_ids cfg = map fst (bc_recipients cfg)"

definition listed_bundles :: "bundle_config \<Rightarrow> bundle_env \<Rightarrow> string \<Rightarrow> assurance_bundle list bundle_call" where
  "listed_bundles cfg env rid = bundle_section env rid
     (bindS (maintenance_locked cfg (be_now env) rid) (\<lambda>_.
      bindS (getS (bundle_names cfg rid)) (map_each (read_bundle cfg rid))))"

definition list_bundles :: "bundle_config \<Rightarrow> bundle_env \<Rightarrow> jsval \<Rightarrow> jsval \<Rightarrow> assurance_bundle list bundle_call" where
  "list_bundles cfg env tenantId options =
     bindS (liftS (x_identifier tenantId ''tenantId'')) (\<lambda>tenant.
     bindS (liftS (if null_default (js_get options ''evidenceId'') = JNull then Inr None
        else bindR (x_evidence_id (js_get options ''evidenceId'')) (\<lambda>e. Inr (Some e)))) (\<lambda>evidence.
     bindS (liftS (x_integer (int_default (js_get options ''limit'') 500) ''limit'' 1 5000)) (\<lambda>maximum.
     bindS (map_each (listed_bundles cfg env) (recipient_ids cfg)) (\<lambda>rows.
     returnS (take (nat maximum) (sort_key (\<lambda>r. - bd_createdAt r)
       (filter (\<lambda>r. bd_tenantId r = tenant \<and> (evidence = None \<or> evidence = Some (bd_evidenceId r))) (concat rows))))))))"

record claimed_bundle =
  cb_bundleId :: string
  cb_claimToken :: string
  cb_expiresAt :: int
  cb_packageSha256 :: string
  cb_sealedPackage :: "sealed_bundle option"

definition claimed_bundle_record :: "bundle_config \<Rightarrow> bundle_env \<Rightarrow> assurance_bundle \<Rightarrow> assurance_bundle" where
  "claimed_bundle_record cfg env r = r\<lparr>bd_state := BundleClaimed, bd_claimTokenHash := Some (bc_sha cfg (be_claimToken env (bd_bundleId r))),
     bd_claimedAt := Some (be_now env), bd_claimExpiresAt := Some (be_now env + bc_leaseMs cfg)\<rparr>"

definition handed_out :: "bundle_env \<Rightarrow> string \<Rightarrow> assurance_bundle \<Rightarrow> claimed_bundle" where
  "handed_out env i r = \<lparr>cb_bundleId = i, cb_claimToken = be_claimToken env i, cb_expiresAt = bd_expiresAt r,
     cb_packageSha256 = bd_packageSha256 r, cb_sealedPackage = bd_sealedPackage r\<rparr>"

text \<open>The loop: how many more bundles fit the limit, whether none was selected so far, and the bytes used.\<close>

fun claim_bundles :: "bundle_config \<Rightarrow> bundle_env \<Rightarrow> string \<Rightarrow> nat \<Rightarrow> bool \<Rightarrow> int \<Rightarrow> string list \<Rightarrow> claimed_bundle list bundle_call" where
  "claim_bundles cfg env rid left none used [] = returnS []"
| "claim_bundles cfg env rid left none used (i # names) = (if left = 0 then returnS [] else
     bindS (read_bundle cfg rid i) (\<lambda>r.
     let estimate = int (bc_packageSize cfg (bd_sealedPackage r)) + 1024 in
     if bd_state r \<noteq> BundlePending then claim_bundles cfg env rid left none used names
     else ensureS (\<not> (none \<and> estimate > bc_claimBytes cfg)) (XValidation ''maximumClaimBytes'')
      (if used + estimate > bc_claimBytes cfg then returnS []
       else bindS (replace_bundle cfg rid i (claimed_bundle_record cfg env r)) (\<lambda>_.
            bindS (claim_bundles cfg env rid (left - 1) False (used + estimate) names) (\<lambda>selected.
            returnS (handed_out env i r # selected))))))"

definition bundle_signed_section :: "bundle_config \<Rightarrow> bundle_env \<Rightarrow> bundle_auth \<Rightarrow> 'a bundle_call \<Rightarrow> 'a bundle_call" where
  "bundle_signed_section cfg env auth m = bundle_section env (ba_recipientId auth)
     (bindS (register_replay cfg (be_now env) auth) (\<lambda>_.
      bindS (maintenance_locked cfg (be_now env) (ba_recipientId auth)) (\<lambda>_. m)))"

definition claim_bundles_signed ::
  "bundle_config \<Rightarrow> bundle_env \<Rightarrow> string \<Rightarrow> (string \<Rightarrow> jsval) \<Rightarrow> (string \<times> claimed_bundle list) bundle_call" where
  "claim_bundles_signed cfg env body headers =
     bindS (liftS (authenticate_signed cfg (be_now env) body headers ''claim'')) (\<lambda>auth.
     bundle_signed_section cfg env auth
       (bindS (liftS (bundle_json (bc_parse cfg) body [''limit''])) (\<lambda>input.
        bindS (liftS (x_integer (js_or_nullish (js_get input ''limit'') (JInt 1)) ''limit'' 1 100)) (\<lambda>limit.
        bindS (getS (bundle_names cfg (ba_recipientId auth))) (\<lambda>names.
        bindS (claim_bundles cfg env (ba_recipientId auth) (nat limit) True 0 names) (\<lambda>selected.
        returnS (ba_recipientId auth, selected)))))))"

definition delivered_bundle_record :: "int \<Rightarrow> assurance_bundle \<Rightarrow> assurance_bundle" where
  "delivered_bundle_record now r = r\<lparr>bd_state := BundleDelivered, bd_deliveredAt := Some now, bd_claimTokenHash := None,
     bd_claimExpiresAt := None, bd_sealedPackage := None\<rparr>"

definition safe_equal :: "string \<Rightarrow> string option \<Rightarrow> bool" where
  "safe_equal a b = (a \<noteq> [] \<and> b \<noteq> Some [] \<and> b = Some a)"

definition live_claim :: "int \<Rightarrow> assurance_bundle \<Rightarrow> bool" where
  "live_claim now r = (bd_state r = BundleClaimed \<and> (case bd_claimExpiresAt r of None \<Rightarrow> False | Some t \<Rightarrow> t > now))"

definition acknowledge_record :: "bundle_config \<Rightarrow> int \<Rightarrow> jsval \<Rightarrow> assurance_bundle \<Rightarrow> export_error + assurance_bundle" where
  "acknowledge_record cfg now input r = ensure (live_claim now r) (XConflict ''claim'')
     (ensure (safe_equal (bc_sha cfg (ev_text (js_get input ''claimToken''))) (bd_claimTokenHash r)
         \<and> ev_text (js_get input ''packageSha256'') = bd_packageSha256 r) (XAuth ''claim proof'')
       (Inr (delivered_bundle_record now r)))"

definition acknowledge_bundle_signed ::
  "bundle_config \<Rightarrow> bundle_env \<Rightarrow> jsval \<Rightarrow> string \<Rightarrow> (string \<Rightarrow> jsval) \<Rightarrow> assurance_bundle bundle_call" where
  "acknowledge_bundle_signed cfg env bundleId body headers =
     bindS (liftS (bundle_identifier bundleId)) (\<lambda>i.
     bindS (liftS (authenticate_signed cfg (be_now env) body headers (''acknowledge:'' @ i))) (\<lambda>auth.
     let rid = ba_recipientId auth in
     bundle_signed_section cfg env auth
       (bindS (liftS (bundle_json (bc_parse cfg) body [''claimToken'', ''packageSha256''])) (\<lambda>input.
        bindS (getS (bundle_file cfg rid i)) (\<lambda>f.
        ensureS (f \<noteq> None) (XValidation ''not found'')
       (bindS (read_bundle cfg rid i) (\<lambda>r.
        if bd_state r = BundleDelivered then returnS r
        else bindS (liftS (acknowledge_record cfg (be_now env) input r)) (\<lambda>r'.
          bindS (replace_bundle cfg rid i r') (\<lambda>_.
          bindS (prune_bundles cfg rid) (\<lambda>_. returnS r'))))))))))"

record bundle_report =
  br_attention :: bool
  br_required :: bool
  br_total :: nat
  br_counts :: "bundle_state \<Rightarrow> nat"

definition tenant_status :: "bundle_config \<Rightarrow> bundle_env \<Rightarrow> jsval \<Rightarrow> bundle_report bundle_call" where
  "tenant_status cfg env tenantId =
     bindS (list_bundles cfg env tenantId (JObj [(''limit'', JInt 5000)])) (\<lambda>rows.
     let counts = (\<lambda>st. length (filter (\<lambda>r. bd_state r = st) rows)) in
     returnS \<lparr>br_attention = (counts BundleExpired \<noteq> 0), br_required = bc_required cfg, br_total = length rows, br_counts = counts\<rparr>)"

end
