(* ===== verification/BundleLife.thy ===== *)
theory BundleLife
  imports BundleStore
begin

section \<open>The life of an assurance bundle\<close>

text \<open>
  The machine \<open>bd_run\<close> of all commands of the bundle store by any number of processes, each with its
  own clock, locks and outcomes of writes and removals; the steps of \<open>bundle_step\<close> along which a
  command takes each file, after which finished bundles may be removed; what a claim hands out; and
  what happens to the replay markers.
\<close>

subsection \<open>The machine\<close>

datatype bd_command =
    QueueBundle jsval
  | ListBundles jsval jsval
  | ClaimBundles string "string \<Rightarrow> jsval"
  | AcknowledgeBundle jsval string "string \<Rightarrow> jsval"
  | BundleStatus jsval

fun bd_exec :: "bundle_config \<Rightarrow> bundle_env \<Rightarrow> bd_command \<Rightarrow> unit bundle_call" where
  "bd_exec cfg env (QueueBundle input) = forget (queue_bundle cfg env input)"
| "bd_exec cfg env (ListBundles t options) = forget (list_bundles cfg env t options)"
| "bd_exec cfg env (ClaimBundles body headers) = forget (claim_bundles_signed cfg env body headers)"
| "bd_exec cfg env (AcknowledgeBundle i body headers) = forget (acknowledge_bundle_signed cfg env i body headers)"
| "bd_exec cfg env (BundleStatus t) = forget (tenant_status cfg env t)"

record bd_input =
  bi_env :: bundle_env
  bi_writes :: "put_outcome list"
  bi_removals :: "bool list"
  bi_command :: bd_command

definition refill :: "put_outcome list \<Rightarrow> bool list \<Rightarrow> bundle_files \<Rightarrow> bundle_files" where
  "refill ws ms st = ((fst st)\<lparr>rd_writes := ws, rd_removals := ms\<rparr>, snd st)"

definition bd_step :: "bundle_config \<Rightarrow> bd_input \<Rightarrow> bundle_files \<Rightarrow> bundle_files" where
  "bd_step cfg c st = fst (bd_exec cfg (bi_env c) (bi_command c) (refill (bi_writes c) (bi_removals c) st))"

definition bd_run :: "bundle_config \<Rightarrow> bd_input list \<Rightarrow> bundle_files \<Rightarrow> bundle_files" where
  "bd_run cfg = fold (bd_step cfg)"

definition no_bundles :: bundle_files where
  "no_bundles = (\<lparr>rd_dirs = (\<lambda>_. []), rd_writes = [], rd_removals = []\<rparr>, \<lambda>_. [])"

lemma bd_run_simps [simp]:
  "bd_run cfg [] st = st" "bd_run cfg (c # cs) st = bd_run cfg cs (bd_step cfg c st)"
  by (simp_all add: bd_run_def)

lemma no_bundles_file [simp]: "record_file (fst no_bundles) d i = None"
  by (simp add: record_file_def no_bundles_def)

lemma refill_file [simp]: "record_file (fst (refill ws ms st)) = record_file (fst st)" "snd (refill ws ms st) = snd st"
  by (simp_all add: refill_def)

subsection \<open>The steps of a file\<close>

definition maintained_record :: "int \<Rightarrow> assurance_bundle \<Rightarrow> assurance_bundle" where
  "maintained_record now r = expire_bundle now (release_claim now r)"

definition fits_claim :: "bundle_config \<Rightarrow> assurance_bundle \<Rightarrow> bool" where
  "fits_claim cfg r \<longleftrightarrow> int (bc_packageSize cfg (bd_sealedPackage r)) + 1024 \<le> bc_claimBytes cfg"

text \<open>What a command queues and what it acknowledges, as far as its input says.\<close>

fun queued_by :: "bundle_config \<Rightarrow> bundle_env \<Rightarrow> bd_command \<Rightarrow> bundle_source set" where
  "queued_by cfg env (QueueBundle input) = {s. validate_queue_input cfg (be_now env) input = Inr s}"
| "queued_by cfg env _ = {}"

fun acknowledged_by :: "bd_command \<Rightarrow> string set" where
  "acknowledged_by (AcknowledgeBundle i body headers) = {ev_text i}"
| "acknowledged_by _ = {}"

inductive bundle_step ::
  "bundle_config \<Rightarrow> bundle_env \<Rightarrow> bd_command \<Rightarrow> assurance_bundle job_file option \<Rightarrow> assurance_bundle job_file option \<Rightarrow> bool"
  for cfg env c where
  queued: "s \<in> queued_by cfg env c \<Longrightarrow> map_of (bc_recipients cfg) (bs_recipientId s) = Some rcp \<Longrightarrow> r = make_bundle cfg s (bundle_id_for cfg s) rcp \<Longrightarrow>
    bundle_step cfg env c None (Some (SealedFile aad r))"
| torn: "s \<in> queued_by cfg env c \<Longrightarrow> bundle_step cfg env c None (Some Unparsable)"
| resealed: "s \<in> queued_by cfg env c \<Longrightarrow> bd_state r0 = BundleExpired \<Longrightarrow> map_of (bc_recipients cfg) (bs_recipientId s) = Some rcp \<Longrightarrow>
    r = make_bundle cfg s (bundle_id_for cfg s) rcp \<Longrightarrow> bundle_step cfg env c (Some (SealedFile aad r0)) (Some (SealedFile aad r))"
| claimed: "bd_state r = BundlePending \<Longrightarrow> fits_claim cfg r \<Longrightarrow>
    bundle_step cfg env c (Some (SealedFile aad r)) (Some (SealedFile aad (claimed_bundle_record cfg env r)))"
| acknowledged: "acknowledge_record cfg (be_now env) input r = Inr r' \<Longrightarrow> bd_bundleId r \<in> acknowledged_by c \<Longrightarrow>
    bundle_step cfg env c (Some (SealedFile aad r)) (Some (SealedFile aad r'))"
| maintained: "bundle_step cfg env c (Some (SealedFile aad r)) (Some (SealedFile aad (maintained_record (be_now env) r)))"

definition bundle_over :: "assurance_bundle \<Rightarrow> bool" where
  "bundle_over r = (bd_state r \<in> {BundleDelivered, BundleExpired})"

definition bundle_effect ::
  "bundle_config \<Rightarrow> bundle_env \<Rightarrow> bd_command \<Rightarrow> assurance_bundle job_file option \<Rightarrow> assurance_bundle job_file option \<Rightarrow> bool" where
  "bundle_effect cfg env c f f' \<longleftrightarrow> (\<exists>g. (bundle_step cfg env c)\<^sup>*\<^sup>* f g \<and> removed_by bundle_over g f')"

lemma tracks_steps: "tracks (bundle_step cfg env c)\<^sup>*\<^sup>* v s \<Longrightarrow> tracks (bundle_effect cfg env c) v s"
  unfolding tracks_def bundle_effect_def by (meson removed_by_refl)

lemma tracks_rtranclp:
  "tracks R\<^sup>*\<^sup>* v s \<Longrightarrow> tracks R\<^sup>*\<^sup>* (record_file s) s' \<Longrightarrow> tracks R\<^sup>*\<^sup>* v s'"
  by (rule tracks_compose [where S = "R\<^sup>*\<^sup>*"]) (assumption, assumption, rule rtranclp_trans)

subsection \<open>Maintenance\<close>

definition maintains :: "int \<Rightarrow> assurance_bundle job_file option \<Rightarrow> assurance_bundle job_file option \<Rightarrow> bool" where
  "maintains now f f' \<longleftrightarrow> f' = f \<or> (\<exists>aad r. f = Some (SealedFile aad r) \<and> f' = Some (SealedFile aad (maintained_record now r)))"

lemma maintained_twice [simp]: "maintained_record now (maintained_record now r) = maintained_record now r"
  by (auto simp: maintained_record_def expire_bundle_def release_claim_def split: option.splits)

lemma maintains_refl [simp]: "maintains now f f"
  by (simp add: maintains_def)

lemma maintains_steps: "maintains (be_now env) f f' \<Longrightarrow> (bundle_step cfg env c)\<^sup>*\<^sup>* f f'"
  by (auto simp: maintains_def intro: bundle_step.maintained)

lemma tracks_maintains: "tracks (maintains (be_now env)) v s \<Longrightarrow> tracks (bundle_step cfg env c)\<^sup>*\<^sup>* v s"
  by (auto simp: tracks_def intro: maintains_steps)

lemma maintains_again:
  "maintains now f (Some (SealedFile aad r)) \<Longrightarrow> maintains now f (Some (SealedFile aad (maintained_record now r)))"
  by (auto simp: maintains_def)

text \<open>The replay markers do not touch the files of the bundles.\<close>

lemma keeps_files [keeps_intros]:
  "keeps (\<lambda>st. P (record_file (fst st))) (on_world m)"
  "keeps (\<lambda>st. P (record_file (fst st))) (on_store draw_removal)"
  "keeps (\<lambda>st. P (record_file (fst st))) (on_store draw_put)"
  by (auto simp: keeps_def on_world_def on_store_def draw_removal_def draw_put_def split: prod.split list.split)

lemma keeps_prune_replays: "keeps (\<lambda>st. P (record_file (fst st))) (prune_replay_markers cfg now rid)"
  unfolding prune_replay_markers_def prune_replay_def by (intro keeps_intros)

lemma keeps_register: "keeps (\<lambda>st. P (record_file (fst st))) (register_replay cfg now auth)"
  unfolding register_replay_def Let_def by (intro keeps_intros)

lemma after_maintain_bundle:
  assumes "tracks (maintains now) v s"
  shows "after (maintain_bundle cfg now rid i) (\<lambda>_ st. tracks (maintains now) v (fst st)) (\<lambda>_ st. tracks (maintains now) v (fst st)) (s, x)"
proof -
  have written: "after (replace_file d i aad (maintained_record now r)) (\<lambda>_. tracks (maintains now) v) (\<lambda>_. tracks (maintains now) v) s"
    if "record_file s d i = Some (SealedFile aad r)" for d aad r
  proof -
    have "maintains now (v d i) (Some (SealedFile aad (maintained_record now r)))"
      using assms that maintains_again unfolding tracks_def by metis
    then show ?thesis
      by (auto intro!: after_weaken [OF after_replace_file] intro: tracks_set [OF assms] tracks_cong [OF _ assms])
  qed
  show ?thesis
    unfolding maintain_bundle_def read_bundle_def replace_bundle_def after_bindS after_on_store
    by (rule after_read_file)
      (use assms in \<open>auto simp: Let_def after_on_store maintained_record_def [symmetric] intro!: written\<close>)
qed

lemma after_maintenance:
  assumes "tracks (maintains now) v s"
  shows "after (maintenance_locked cfg now rid) (\<lambda>_ st. tracks (maintains now) v (fst st)) (\<lambda>_ st. tracks (maintains now) v (fst st)) (s, x)"
proof -
  have loop: "after (for_each (maintain_bundle cfg now rid) names) (\<lambda>_ st. tracks (maintains now) v (fst st))
      (\<lambda>_ st. tracks (maintains now) v (fst st)) (s, x)" for names
    by (rule after_for_each) (use assms in \<open>auto intro: after_maintain_bundle\<close>)
  have prune: "after (prune_replay_markers cfg now rid) (\<lambda>_ st. tracks (maintains now) v (fst st)) (\<lambda>_ st. tracks (maintains now) v (fst st)) st"
    if "tracks (maintains now) v (fst st)" for st
    using keeps_afterD [OF keeps_prune_replays [of "\<lambda>w. \<forall>d i. maintains now (v d i) (w d i)"]] that by (simp add: tracks_def)
  show ?thesis
    unfolding maintenance_locked_def after_bindS after_getS
    by (rule after_weaken [OF loop]) (use prune in auto)
qed

subsection \<open>What a command does to a file\<close>

lemma after_prune_bundles:
  "after (prune_bundles cfg rid) (\<lambda>_ st. tracks (removed_by bundle_over) (record_file s) (fst st))
     (\<lambda>_ st. tracks (removed_by bundle_over) (record_file s) (fst st)) (s, x)"
proof -
  have same: "prune_bundles cfg rid = bindS (getS (bundle_names cfg rid)) (\<lambda>names. on_store (bindS
      (map_each (\<lambda>i. read_file (bundle_aad rid i) (genuine_bundle cfg rid i) (recipient_root cfg rid) i) names)
      (\<lambda>rs. for_each (remove_record (recipient_root cfg rid)) (map bd_bundleId (take (length (filter bundle_over rs) - bc_retained cfg)
         (sort_key bundle_end (filter bundle_over rs)))))))"
    unfolding prune_bundles_def read_bundle_def map_each_on_store for_each_on_store Let_def bundle_over_def [abs_def] on_store_bindS ..
  show ?thesis
    unfolding same after_bindS after_getS after_on_store
    by (simp add: after_on_store, rule after_remove_over [unfolded after_bindS]) (simp add: genuine_bundle_def)
qed

lemma steps_compose:
  assumes "tracks (bundle_step cfg env c)\<^sup>*\<^sup>* v s" and "record_file s d i = Some (SealedFile aad r)"
    and "bundle_step cfg env c (Some (SealedFile aad r)) (Some (SealedFile aad r'))"
  shows "after (replace_file d i aad r') (\<lambda>_. tracks (bundle_step cfg env c)\<^sup>*\<^sup>* v) (\<lambda>_. tracks (bundle_step cfg env c)\<^sup>*\<^sup>* v) s"
proof -
  have "(bundle_step cfg env c)\<^sup>*\<^sup>* (v d i) (Some (SealedFile aad r'))"
    using assms unfolding tracks_def by (metis rtranclp.rtrancl_into_rtrancl)
  then show ?thesis
    by (auto intro!: after_weaken [OF after_replace_file] intro: tracks_set [OF assms(1)] tracks_cong [OF _ assms(1)])
qed

text \<open>Queueing.\<close>

lemma after_create:
  assumes "map_of (bc_recipients cfg) (bs_recipientId src) = Some rcp" and "tracks (bundle_step cfg env c)\<^sup>*\<^sup>* v s"
    and "src \<in> queued_by cfg env c"
  shows "after (write_exclusive d (bundle_id_for cfg src) aad (make_bundle cfg src (bundle_id_for cfg src) rcp))
     (\<lambda>_. tracks (bundle_step cfg env c)\<^sup>*\<^sup>* v) (\<lambda>_. tracks (bundle_step cfg env c)\<^sup>*\<^sup>* v) s"
proof -
  have "tracks (bundle_step cfg env c)\<^sup>*\<^sup>* v s'"
    if "record_file s d i = None" "record_file s' = set_view (record_file s) d i (Some f)"
      "f \<in> {SealedFile aad (make_bundle cfg src (bundle_id_for cfg src) rcp), Unparsable}" for s' f i
    by (rule tracks_set [OF assms(2) that(2)])
      (use that assms(1,3) in \<open>auto intro: rtranclp.rtrancl_into_rtrancl bundle_step.queued bundle_step.torn\<close>)
  then show ?thesis
    by (auto intro!: after_weaken [OF after_write_exclusive] intro: tracks_cong [OF _ assms(2)])
qed

lemma after_queue:
  assumes "src \<in> queued_by cfg env c" and "bs_recipientId src \<in> fst ` set (bc_recipients cfg)"
  shows "after (queue_bundle_locked cfg (be_now env) src) (\<lambda>_ st. tracks (bundle_effect cfg env c) (record_file s) (fst st))
     (\<lambda>_ st. tracks (bundle_effect cfg env c) (record_file s) (fst st)) (s, x)"
proof -
  let ?S = "tracks (bundle_step cfg env c)\<^sup>*\<^sup>* (record_file s)" and ?P = "tracks (bundle_effect cfg env c) (record_file s)"
  let ?d = "recipient_root cfg (bs_recipientId src)" and ?i = "bundle_id_for cfg src" and ?aad = "bundle_aad (bs_recipientId src) (bundle_id_for cfg src)"
  obtain rcp where rcp: "map_of (bc_recipients cfg) (bs_recipientId src) = Some rcp"
    using assms(2) by (auto simp: image_iff dest!: weak_map_of_SomeI)
  have prune: "after (prune_bundles cfg rid) (\<lambda>_ st. ?P (fst st)) (\<lambda>_ st. ?P (fst st)) (s1, x1)" if "?S s1" for s1 x1 rid
    by (rule after_weaken [OF after_prune_bundles]) (auto elim!: tracks_compose [OF that] simp: bundle_effect_def)
  have reseal: "after (replace_file ?d ?i ?aad (make_bundle cfg src ?i rcp)) (\<lambda>_. ?P) (\<lambda>_. ?P) s1"
    if "?S s1" "record_file s1 ?d ?i = Some (SealedFile ?aad r)" "bd_state r = BundleExpired" for s1 r
    by (rule after_weaken [OF steps_compose [OF that(1,2)]]) (use that(3) rcp assms(1) in \<open>auto intro: bundle_step.resealed tracks_steps\<close>)
  have create: "after (write_exclusive ?d ?i ?aad (make_bundle cfg src ?i rcp)) (\<lambda>_. ?S) (\<lambda>_. ?P) s1" if "?S s1" for s1
    by (rule after_weaken [OF after_create [OF rcp that assms(1)]]) (auto intro: tracks_steps)
  have body: "after (bindS (getS (bundle_file cfg (bs_recipientId src) ?i)) (\<lambda>f. if f \<noteq> None then
       bindS (read_bundle cfg (bs_recipientId src) ?i) (\<lambda>existing. bindS (liftS (assert_same_bundle existing src)) (\<lambda>_.
       if bd_state existing \<noteq> BundleExpired then returnS (True, False, existing)
       else bindS (replace_bundle cfg (bs_recipientId src) ?i (make_bundle cfg src ?i rcp)) (\<lambda>_. returnS (False, True, make_bundle cfg src ?i rcp))))
     else bindS (on_store (write_exclusive ?d ?i ?aad (make_bundle cfg src ?i rcp))) (\<lambda>_.
       bindS (prune_bundles cfg (bs_recipientId src)) (\<lambda>_. returnS (False, False, make_bundle cfg src ?i rcp)))))
     (\<lambda>_ st. ?P (fst st)) (\<lambda>_ st. ?P (fst st)) (s1, x1)" if "?S s1" for s1 x1
  proof -
    have "?P s1" using that by (rule tracks_steps)
    then show ?thesis
      by (auto simp: read_bundle_def replace_bundle_def after_on_store
          intro!: after_read_file after_liftS_I reseal [OF that] after_weaken [OF create [OF that]] prune)
  qed
  have start: "tracks (maintains (be_now env)) (record_file s) s" by (simp add: tracks_def)
  have steps: "?S s1" "?P s1" if "tracks (maintains (be_now env)) (record_file s) s1" for s1
    using tracks_maintains [OF that] tracks_steps by blast+
  show ?thesis
    unfolding queue_bundle_locked_def Let_def after_bindS [of "maintenance_locked _ _ _"] rcp option.sel
    by (rule after_weaken [OF after_maintenance [OF start]]) (use body steps in \<open>auto simp del: after_bindS\<close>)
qed

text \<open>Claiming, and what is handed out.\<close>

definition claims :: "bundle_config \<Rightarrow> bundle_env \<Rightarrow> assurance_bundle job_file option \<Rightarrow> assurance_bundle job_file option \<Rightarrow> bool" where
  "claims cfg env f f' \<longleftrightarrow> f' = f \<or> (\<exists>aad r. f = Some (SealedFile aad r) \<and> bd_state r = BundlePending \<and> fits_claim cfg r
     \<and> f' = Some (SealedFile aad (claimed_bundle_record cfg env r)))"

definition hands_out ::
  "bundle_config \<Rightarrow> bundle_env \<Rightarrow> string \<Rightarrow> assurance_bundle view \<Rightarrow> assurance_bundle view \<Rightarrow> claimed_bundle \<Rightarrow> bool" where
  "hands_out cfg env rid v w b \<longleftrightarrow> (\<exists>r. v (recipient_root cfg rid) (cb_bundleId b) = Some (SealedFile (bundle_aad rid (cb_bundleId b)) r)
     \<and> genuine_bundle cfg rid (cb_bundleId b) r \<and> bd_state r = BundlePending \<and> b = handed_out env (cb_bundleId b) r
     \<and> w (recipient_root cfg rid) (cb_bundleId b) = Some (SealedFile (bundle_aad rid (cb_bundleId b)) (claimed_bundle_record cfg env r)))"

lemma claimed_state [simp]: "bd_state (claimed_bundle_record cfg env r) = BundleClaimed"
  by (simp add: claimed_bundle_record_def)

lemma claims_trans: "claims cfg env f g \<Longrightarrow> claims cfg env g h \<Longrightarrow> claims cfg env f h"
  by (auto simp: claims_def)

lemma claims_refl [simp]: "claims cfg env f f"
  by (simp add: claims_def)

lemma claims_steps: "claims cfg env f f' \<Longrightarrow> (bundle_step cfg env c)\<^sup>*\<^sup>* f f'"
  by (auto simp: claims_def intro: bundle_step.claimed)

lemma claims_fixed: "claims cfg env (Some (SealedFile aad r)) f \<Longrightarrow> bd_state r \<noteq> BundlePending \<Longrightarrow> f = Some (SealedFile aad r)"
  by (auto simp: claims_def)

text \<open>A claim of the file of \<open>i\<close> first, then what the rest of the loop claims.\<close>

lemma hands_out_later:
  assumes "hands_out cfg env rid (set_view v (recipient_root cfg rid) i (Some (SealedFile aad (claimed_bundle_record cfg env r)))) w b"
  shows "hands_out cfg env rid v w b"
  using assms by (auto simp: hands_out_def split: if_splits)

lemma after_claim_bundles:
  "0 \<le> used \<Longrightarrow> after (claim_bundles cfg env rid left none used names)
     (\<lambda>selected st. tracks (claims cfg env) (record_file s) (fst st)
        \<and> (\<forall>b \<in> set selected. hands_out cfg env rid (record_file s) (record_file (fst st)) b))
     (\<lambda>_ st. tracks (claims cfg env) (record_file s) (fst st)) (s, x)"
proof (induction names arbitrary: left none used s x)
  case (Cons i names)
  let ?d = "recipient_root cfg rid" and ?aad = "bundle_aad rid i"
  have start: "tracks (claims cfg env) (record_file s) s" by (simp add: tracks_def)
  have rest: "after (claim_bundles cfg env rid left' False used' names)
      (\<lambda>selected st. tracks (claims cfg env) (record_file s) (fst st)
         \<and> hands_out cfg env rid (record_file s) (record_file (fst st)) (handed_out env i r)
         \<and> (\<forall>b \<in> set selected. hands_out cfg env rid (record_file s) (record_file (fst st)) b))
      (\<lambda>_ st. tracks (claims cfg env) (record_file s) (fst st)) (s1, x1)"
    if r: "record_file s ?d i = Some (SealedFile ?aad r)" "genuine_bundle cfg rid i r" "bd_state r = BundlePending"
      and fits: "fits_claim cfg r" and used': "0 \<le> used'"
      and s1: "record_file s1 = set_view (record_file s) ?d i (Some (SealedFile ?aad (claimed_bundle_record cfg env r)))" for r used' left' s1 x1
  proof -
    have now_claimed: "tracks (claims cfg env) (record_file s) s1"
      by (rule tracks_set [OF start s1]) (use r fits in \<open>auto simp: claims_def\<close>)
    have later: "tracks (claims cfg env) (record_file s) s2" if "tracks (claims cfg env) (record_file s1) s2" for s2
      by (rule tracks_compose [OF now_claimed that]) (rule claims_trans)
    have this_one: "hands_out cfg env rid (record_file s) (record_file s2) (handed_out env i r)"
      if "tracks (claims cfg env) (record_file s1) s2" for s2
    proof -
      have "record_file s2 ?d i = Some (SealedFile ?aad (claimed_bundle_record cfg env r))"
        using spec [OF spec [OF that [unfolded tracks_def], of ?d], of i] by (simp add: s1 claims_fixed)
      then show ?thesis using r by (simp add: hands_out_def handed_out_def)
    qed
    have others: "hands_out cfg env rid (record_file s) w b" if "hands_out cfg env rid (record_file s1) w b" for w b
      using that unfolding s1 by (rule hands_out_later)
    show ?thesis
      by (rule after_weaken [OF Cons.IH [OF used']]) (auto intro: later this_one others)
  qed
  have claim: "after (replace_file ?d i ?aad (claimed_bundle_record cfg env r))
      (\<lambda>_ s1. record_file s1 = set_view (record_file s) ?d i (Some (SealedFile ?aad (claimed_bundle_record cfg env r))))
      (\<lambda>_. tracks (claims cfg env) (record_file s)) s"
    if "record_file s ?d i = Some (SealedFile ?aad r)" "bd_state r = BundlePending" "fits_claim cfg r" for r
    by (rule after_weaken [OF after_replace_file])
      (use that in \<open>auto simp: claims_def intro: tracks_set [OF start] tracks_cong [OF _ start]\<close>)
  show ?case
    unfolding claim_bundles.simps read_bundle_def replace_bundle_def Let_def
    using Cons.prems by (auto simp: after_on_store start fits_claim_def intro!: after_read_file Cons.IH after_weaken [OF claim] after_weaken [OF rest])
qed (simp add: tracks_def)

text \<open>Signed requests: the replay marker, maintenance, and then the operation.\<close>

lemma after_section:
  assumes "\<And>s1 x1. tracks (maintains (be_now env)) (record_file s) s1 \<Longrightarrow> after m Q (\<lambda>_ st. P (fst st)) (s1, x1)"
    and "\<And>s1. tracks (maintains (be_now env)) (record_file s) s1 \<Longrightarrow> P s1" and "\<And>y st. Q y st \<Longrightarrow> P (fst st)"
  shows "after (bundle_signed_section cfg env auth m) Q (\<lambda>_ st. P (fst st)) (s, x)"
proof -
  let ?M = "tracks (maintains (be_now env)) (record_file s)"
  have "after (register_replay cfg (be_now env) auth) (\<lambda>_ st. ?M (fst st)) (\<lambda>_ st. ?M (fst st)) (s, x)"
    using keeps_afterD [OF keeps_register [of "\<lambda>w. \<forall>d i. maintains (be_now env) (record_file s d i) (w d i)"]] by (simp add: tracks_def)
  then have registered: "after (register_replay cfg (be_now env) auth) (\<lambda>_ st. ?M (fst st)) (\<lambda>_ st. P (fst st)) (s, x)"
    by (rule after_weaken) (simp_all add: assms(2))
  have upkeep: "after (maintenance_locked cfg (be_now env) rid) (\<lambda>_ st. ?M (fst st)) (\<lambda>_ st. P (fst st)) (s1, x1)" if "?M s1" for s1 x1 rid
    by (rule after_weaken [OF after_maintenance [OF that]]) (simp_all add: assms(2))
  have "P s" by (rule assms(2)) (simp add: tracks_def)
  then show ?thesis
    unfolding bundle_signed_section_def bundle_section_def after_bindS
    by (intro after_with_lock) (auto intro!: after_weaken [OF registered] after_weaken [OF upkeep] assms(1,3))
qed

lemma after_claim_signed:
  "after (claim_bundles_signed cfg env body headers)
     (\<lambda>(rid, selected) st. tracks (bundle_step cfg env c)\<^sup>*\<^sup>* (record_file s) (fst st)
        \<and> (\<exists>auth s1. authenticate_signed cfg (be_now env) body headers ''claim'' = Inr auth \<and> ba_recipientId auth = rid
             \<and> tracks (maintains (be_now env)) (record_file s) s1
             \<and> (\<forall>b \<in> set selected. hands_out cfg env rid (record_file s1) (record_file (fst st)) b)))
     (\<lambda>_ st. tracks (bundle_step cfg env c)\<^sup>*\<^sup>* (record_file s) (fst st)) (s, x)"
proof -
  let ?S = "tracks (bundle_step cfg env c)\<^sup>*\<^sup>* (record_file s)"
  have start: "?S s" by (simp add: tracks_def)
  have claimed: "?S s2" if "tracks (maintains (be_now env)) (record_file s) s1" "tracks (claims cfg env) (record_file s1) s2" for s1 s2
    by (rule tracks_rtranclp [OF tracks_maintains [OF that(1)]]) (use that(2) in \<open>auto simp: tracks_def intro: claims_steps\<close>)
  have go: "after (bindS (liftS (bundle_json (bc_parse cfg) body [''limit''])) (\<lambda>input.
        bindS (liftS (x_integer (js_or_nullish (js_get input ''limit'') (JInt 1)) ''limit'' 1 100)) (\<lambda>limit.
        bindS (getS (bundle_names cfg (ba_recipientId auth))) (\<lambda>names.
        bindS (claim_bundles cfg env (ba_recipientId auth) (nat limit) True 0 names) (\<lambda>selected.
        returnS (ba_recipientId auth, selected))))))
      (\<lambda>(rid, selected) st. ?S (fst st) \<and> (\<exists>auth s1. authenticate_signed cfg (be_now env) body headers ''claim'' = Inr auth
           \<and> ba_recipientId auth = rid \<and> tracks (maintains (be_now env)) (record_file s) s1
           \<and> (\<forall>b \<in> set selected. hands_out cfg env rid (record_file s1) (record_file (fst st)) b)))
      (\<lambda>_ st. ?S (fst st)) (s1, x1)"
    if "authenticate_signed cfg (be_now env) body headers ''claim'' = Inr auth" "tracks (maintains (be_now env)) (record_file s) s1" for auth s1 x1
    using that tracks_maintains [OF that(2)]
    by (auto intro!: after_liftS_I after_weaken [OF after_claim_bundles] intro: claimed [OF that(2)])
  show ?thesis
    unfolding claim_bundles_signed_def after_bindS [of "liftS _"]
  proof (rule after_liftS_I)
    fix auth assume auth: "authenticate_signed cfg (be_now env) body headers ''claim'' = Inr auth"
    show "after (bundle_signed_section cfg env auth (bindS (liftS (bundle_json (bc_parse cfg) body [''limit''])) (\<lambda>input.
        bindS (liftS (x_integer (js_or_nullish (js_get input ''limit'') (JInt 1)) ''limit'' 1 100)) (\<lambda>limit.
        bindS (getS (bundle_names cfg (ba_recipientId auth))) (\<lambda>names.
        bindS (claim_bundles cfg env (ba_recipientId auth) (nat limit) True 0 names) (\<lambda>selected.
        returnS (ba_recipientId auth, selected)))))))
      (\<lambda>(rid, selected) st. ?S (fst st) \<and> (\<exists>auth s1. authenticate_signed cfg (be_now env) body headers ''claim'' = Inr auth
           \<and> ba_recipientId auth = rid \<and> tracks (maintains (be_now env)) (record_file s) s1
           \<and> (\<forall>b \<in> set selected. hands_out cfg env rid (record_file s1) (record_file (fst st)) b)))
      (\<lambda>_ st. ?S (fst st)) (s, x)"
      by (rule after_section) (rule go [OF auth], assumption, erule tracks_maintains, auto)
  qed (simp add: start)
qed

lemma acknowledge_step:
  "acknowledge_record cfg (be_now env) input r = Inr r' \<Longrightarrow> bd_bundleId r \<in> acknowledged_by c \<Longrightarrow>
    bundle_step cfg env c (Some (SealedFile aad r)) (Some (SealedFile aad r'))"
  by (rule bundle_step.acknowledged)

lemma after_acknowledge:
  assumes "ev_text bundleId \<in> acknowledged_by c"
  shows "after (acknowledge_bundle_signed cfg env bundleId body headers) (\<lambda>_ st. tracks (bundle_effect cfg env c) (record_file s) (fst st))
     (\<lambda>_ st. tracks (bundle_effect cfg env c) (record_file s) (fst st)) (s, x)"
proof -
  let ?S = "tracks (bundle_step cfg env c)\<^sup>*\<^sup>* (record_file s)" and ?P = "tracks (bundle_effect cfg env c) (record_file s)"
  have start: "?P s" by (rule tracks_steps) (simp add: tracks_def)
  have prune: "after (prune_bundles cfg rid) (\<lambda>_ st. ?P (fst st)) (\<lambda>_ st. ?P (fst st)) (s1, x1)" if "?S s1" for s1 x1 rid
    by (rule after_weaken [OF after_prune_bundles]) (auto elim!: tracks_compose [OF that] simp: bundle_effect_def)
  have commit: "after (replace_file d i aad r') (\<lambda>_. ?S) (\<lambda>_. ?P) s1"
    if "?S s1" "record_file s1 d i = Some (SealedFile aad r)" "acknowledge_record cfg (be_now env) input r = Inr r'" "bd_bundleId r \<in> acknowledged_by c"
    for s1 d i aad r r' input
    by (rule after_weaken [OF steps_compose [OF that(1,2) acknowledge_step [OF that(3,4)]]]) (auto intro: tracks_steps)
  have go: "after (bindS (liftS (bundle_json (bc_parse cfg) body [''claimToken'', ''packageSha256''])) (\<lambda>input.
        bindS (getS (bundle_file cfg rid (ev_text bundleId))) (\<lambda>f.
        ensureS (f \<noteq> None) (XValidation ''not found'')
       (bindS (read_bundle cfg rid (ev_text bundleId)) (\<lambda>r.
        if bd_state r = BundleDelivered then returnS r
        else bindS (liftS (acknowledge_record cfg (be_now env) input r)) (\<lambda>r'.
          bindS (replace_bundle cfg rid (ev_text bundleId) r') (\<lambda>_.
          bindS (prune_bundles cfg rid) (\<lambda>_. returnS r'))))))))
      (\<lambda>_ st. ?P (fst st)) (\<lambda>_ st. ?P (fst st)) (s1, x1)" if "?S s1" for rid s1 x1
  proof -
    have kept: "?P s1" using that by (rule tracks_steps)
    have "after (replace_file (recipient_root cfg rid) (ev_text bundleId) (bundle_aad rid (ev_text bundleId)) r')
        (\<lambda>_. ?S) (\<lambda>_. ?P) s1"
      if "\<exists>r input. record_file s1 (recipient_root cfg rid) (ev_text bundleId) = Some (SealedFile (bundle_aad rid (ev_text bundleId)) r)
        \<and> genuine_bundle cfg rid (ev_text bundleId) r \<and> acknowledge_record cfg (be_now env) input r = Inr r'" for r'
      using that commit [OF \<open>?S s1\<close>] assms by (auto simp: genuine_bundle_def)
    note acknowledged = after_weaken [OF this]
    show ?thesis
      by (auto simp: read_bundle_def replace_bundle_def after_on_store kept intro!: after_liftS_I after_read_file acknowledged prune) blast
  qed
  have steps: "?S s1" "?P s1" if "tracks (maintains (be_now env)) (record_file s) s1" for s1
    using tracks_maintains [OF that] tracks_steps by blast+
  show ?thesis
    unfolding acknowledge_bundle_signed_def Let_def after_bindS [of "liftS _"]
  proof (rule after_liftS_I)
    fix i assume "bundle_identifier bundleId = Inr i"
    then have i: "i = ev_text bundleId" by (auto simp: bundle_identifier_def Let_def)
    show "after (liftS (authenticate_signed cfg (be_now env) body headers (''acknowledge:'' @ i))) (\<lambda>auth.
      after (bundle_signed_section cfg env auth (bindS (liftS (bundle_json (bc_parse cfg) body [''claimToken'', ''packageSha256''])) (\<lambda>input.
        bindS (getS (bundle_file cfg (ba_recipientId auth) i)) (\<lambda>f.
        ensureS (f \<noteq> None) (XValidation ''not found'')
       (bindS (read_bundle cfg (ba_recipientId auth) i) (\<lambda>r.
        if bd_state r = BundleDelivered then returnS r
        else bindS (liftS (acknowledge_record cfg (be_now env) input r)) (\<lambda>r'.
          bindS (replace_bundle cfg (ba_recipientId auth) i r') (\<lambda>_.
          bindS (prune_bundles cfg (ba_recipientId auth)) (\<lambda>_. returnS r')))))))))
      (\<lambda>_ st. ?P (fst st)) (\<lambda>_ st. ?P (fst st))) (\<lambda>_ st. ?P (fst st)) (s, x)"
      unfolding i by (rule after_liftS_I, simp add: start, rule after_section [OF go [OF steps(1)] steps(2)])
  qed (simp add: start)
qed

lemma after_list_bundles:
  "after (list_bundles cfg env t options) (\<lambda>_ st. tracks (maintains (be_now env)) (record_file s) (fst st))
     (\<lambda>_ st. tracks (maintains (be_now env)) (record_file s) (fst st)) (s, x)"
proof -
  let ?M = "tracks (maintains (be_now env)) (record_file s)"
  have read: "after (map_each (read_bundle cfg rid) names) (\<lambda>_ st. ?M (fst st)) (\<lambda>_ st. ?M (fst st)) (s1, x1)" if "?M s1" for rid names s1 x1
    by (rule after_weaken [OF after_map_each [where I = "\<lambda>st. ?M (fst st)" and R = "\<lambda>_ _. True"]])
      (use that in \<open>auto simp: read_bundle_def after_on_store intro!: after_read_file\<close>)
  have one: "after (listed_bundles cfg env rid) (\<lambda>_ st. ?M (fst st)) (\<lambda>_ st. ?M (fst st)) (s1, x1)" if "?M s1" for rid s1 x1
    unfolding listed_bundles_def bundle_section_def
    by (rule after_with_lock) (use that in \<open>auto intro!: after_weaken [OF after_maintenance [OF that]] read\<close>)
  have all: "after (map_each (listed_bundles cfg env) rids) (\<lambda>_ st. ?M (fst st)) (\<lambda>_ st. ?M (fst st)) (s, x)" for rids
    by (rule after_weaken [OF after_map_each [where I = "\<lambda>st. ?M (fst st)" and R = "\<lambda>_ _. True"]])
      (auto intro: after_weaken [OF one] simp: tracks_def [of _ _ s])
  have "?M s" by (simp add: tracks_def)
  then show ?thesis
    unfolding list_bundles_def after_bindS after_returnS by (auto intro!: after_liftS_I all)
qed

lemma validate_recipient: "validate_queue_input cfg now input = Inr src \<Longrightarrow> bs_recipientId src \<in> fst ` set (bc_recipients cfg)"
  by (force simp: validate_queue_input_def)

lemma bd_exec_effect:
  "tracks (bundle_effect cfg env c) (record_file s) (fst (fst (bd_exec cfg env c (s, x))))"
proof -
  let ?P = "tracks (bundle_effect cfg env c) (record_file s)"
  have start: "?P s" by (rule tracks_steps) (simp add: tracks_def)
  have listed: "?P s1" if "tracks (maintains (be_now env)) (record_file s) s1" for s1
    using that by (intro tracks_steps tracks_maintains)
  have queue: "after (queue_bundle_locked cfg (be_now env) src) (\<lambda>_ st. ?P (fst st)) (\<lambda>_ st. ?P (fst st)) (s, x)"
    if "validate_queue_input cfg (be_now env) input = Inr src" "c = QueueBundle input" for input src
    by (rule after_queue [OF _ validate_recipient [OF that(1)]]) (simp add: that)
  have "after (bd_exec cfg env c) (\<lambda>_ st. ?P (fst st)) (\<lambda>_ st. ?P (fst st)) (s, x)"
  proof (cases c)
    case (QueueBundle input)
    then show ?thesis
      using queue [OF _ QueueBundle] start
      by (auto simp: after_forget queue_bundle_def bundle_section_def intro!: after_liftS_I after_with_lock)
  next
    case (ClaimBundles body headers)
    then show ?thesis
      by (auto simp: after_forget intro!: after_weaken [OF after_claim_signed] tracks_steps)
  next
    case (AcknowledgeBundle i body headers)
    then show ?thesis by (simp add: after_forget after_acknowledge)
  next
    case (ListBundles t options)
    then show ?thesis using listed by (auto simp: after_forget intro!: after_weaken [OF after_list_bundles])
  next
    case (BundleStatus t)
    then show ?thesis using listed by (auto simp: after_forget tenant_status_def Let_def intro!: after_weaken [OF after_list_bundles])
  qed
  then show ?thesis by (simp add: after_state)
qed

lemma bd_step_effect:
  "bundle_effect cfg (bi_env c) (bi_command c) (record_file (fst st) d i) (record_file (fst (bd_step cfg c st)) d i)"
  using bd_exec_effect [of cfg "bi_env c" "bi_command c" "(fst st)\<lparr>rd_writes := bi_writes c, rd_removals := bi_removals c\<rparr>" "snd st"]
  by (simp add: tracks_def bd_step_def refill_def)

end
