(* ===== verification/BundleDelivery.thy ===== *)
theory BundleDelivery
  imports BundleLife
begin

section \<open>What the bundle store guarantees, and what it does not\<close>

text \<open>
  The theorems over all runs of \<open>bd_run\<close>: a claim hands out packages that were queued for the claiming
  recipient and sealed for its key; while a claim lasts nobody gets its bundle and its token stays
  good; a signed request is accepted once; delivered and expired bundles keep no package. The last
  part is a defect: a bundle too large for a claim blocks those behind it.
\<close>

subsection \<open>The invariant of a record\<close>

definition queued_package :: "bundle_config \<Rightarrow> bundle_source set \<Rightarrow> string \<Rightarrow> string \<Rightarrow> sealed_bundle \<Rightarrow> bool" where
  "queued_package cfg Q rid i p \<longleftrightarrow> (\<exists>src \<in> Q. \<exists>rcp. map_of (bc_recipients cfg) rid = Some rcp \<and> bs_recipientId src = rid
     \<and> i = bundle_id_for cfg src \<and> p = seal_for_recipient (package_payload cfg src i) rcp i)"

definition bundle_ok :: "bundle_config \<Rightarrow> bundle_source set \<Rightarrow> assurance_bundle job_file option \<Rightarrow> bool" where
  "bundle_ok cfg Q f \<longleftrightarrow> (\<forall>aad r. f = Some (SealedFile aad r) \<longrightarrow>
     (bundle_over r \<longrightarrow> bd_sealedPackage r = None \<and> bd_claimTokenHash r = None)
     \<and> (\<not> bundle_over r \<longrightarrow> (\<exists>p. bd_sealedPackage r = Some p \<and> queued_package cfg Q (bd_recipientId r) (bd_bundleId r) p
          \<and> bd_packageSha256 r = bc_packageHash cfg p))
     \<and> (bd_state r = BundleClaimed \<longleftrightarrow> bd_claimExpiresAt r \<noteq> None))"

lemma bundle_ok_None [simp]: "bundle_ok cfg Q None" "bundle_ok cfg Q (Some Unparsable)"
  by (simp_all add: bundle_ok_def)

lemma acknowledge_record_Inr:
  "acknowledge_record cfg now input r = Inr r' \<longleftrightarrow> r' = delivered_bundle_record now r \<and> live_claim now r
    \<and> safe_equal (bc_sha cfg (ev_text (js_get input ''claimToken''))) (bd_claimTokenHash r)
    \<and> ev_text (js_get input ''packageSha256'') = bd_packageSha256 r"
  by (auto simp: acknowledge_record_def)

lemma bundle_ok_made:
  assumes "map_of (bc_recipients cfg) (bs_recipientId src) = Some rcp" and "src \<in> Q"
  shows "bundle_ok cfg Q (Some (SealedFile aad (make_bundle cfg src (bundle_id_for cfg src) rcp)))"
  using assms by (auto simp: bundle_ok_def make_bundle_def Let_def bundle_over_def queued_package_def)

lemma bundle_ok_step:
  assumes "bundle_step cfg env c f f'" and "bundle_ok cfg Q f" and "queued_by cfg env c \<subseteq> Q"
  shows "bundle_ok cfg Q f'"
  using assms
proof cases
  case (maintained aad r)
  then show ?thesis using assms(2)
    by (cases "bd_state r")
      (auto simp: bundle_ok_def maintained_record_def expire_bundle_def release_claim_def bundle_over_def split: option.split)
qed (use assms(2) in \<open>auto simp: bundle_ok_made subset_iff acknowledge_record_Inr,
    auto simp: bundle_ok_def claimed_bundle_record_def delivered_bundle_record_def bundle_over_def live_claim_def\<close>)

lemma bundle_ok_steps:
  "(bundle_step cfg env c)\<^sup>*\<^sup>* f f' \<Longrightarrow> bundle_ok cfg Q f \<Longrightarrow> queued_by cfg env c \<subseteq> Q \<Longrightarrow> bundle_ok cfg Q f'"
  by (induction rule: rtranclp_induct) (auto intro: bundle_ok_step)

lemma bundle_ok_effect:
  assumes "bundle_effect cfg env c f f'" and "bundle_ok cfg Q f" and "queued_by cfg env c \<subseteq> Q"
  shows "bundle_ok cfg Q f'"
proof -
  obtain g where g: "(bundle_step cfg env c)\<^sup>*\<^sup>* f g" "removed_by bundle_over g f'"
    using assms(1) by (auto simp: bundle_effect_def)
  from bundle_ok_steps [OF g(1) assms(2,3)] g(2) show ?thesis by (auto simp: removed_by_def)
qed

definition queued_in :: "bundle_config \<Rightarrow> bd_input list \<Rightarrow> bundle_source set" where
  "queued_in cfg cs = (\<Union>c \<in> set cs. queued_by cfg (bi_env c) (bi_command c))"

lemma bd_run_ok:
  assumes "\<And>d i. bundle_ok cfg Q (record_file (fst st) d i)" and "queued_in cfg cs \<subseteq> Q"
  shows "bundle_ok cfg Q (record_file (fst (bd_run cfg cs st)) d i)"
  using assms
proof (induction cs arbitrary: st)
  case (Cons c cs)
  have "queued_by cfg (bi_env c) (bi_command c) \<subseteq> Q" "queued_in cfg cs \<subseteq> Q"
    using Cons.prems(2) by (auto simp: queued_in_def)
  then show ?case
    unfolding bd_run_simps(2) by (intro Cons.IH bundle_ok_effect [OF bd_step_effect Cons.prems(1)])
qed simp

lemma queued_by_command:
  "s \<in> queued_in cfg cs \<Longrightarrow>
    \<exists>c \<in> set cs. \<exists>input. bi_command c = QueueBundle input \<and> validate_queue_input cfg (be_now (bi_env c)) input = Inr s"
proof -
  assume "s \<in> queued_in cfg cs"
  then obtain c where "c \<in> set cs" "s \<in> queued_by cfg (bi_env c) (bi_command c)" by (auto simp: queued_in_def)
  then show ?thesis by (cases "bi_command c") auto
qed

subsection \<open>A sample store\<close>

definition sample_secret :: string where
  "sample_secret = replicate 32 (CHR ''k'')"

definition sample_recipients :: "(string \<times> recipient) list" where
  "sample_recipients = [(''regulator'', \<lparr>rc_hmacKeys = [(''k1'', sample_secret)], rc_publicKeys = [(''p1'', ''PEM'')], rc_primaryPublicKeyId = ''p1''\<rparr>)]"

definition sample_bd_config :: bundle_config where
  "sample_bd_config = \<lparr>bc_required = True, bc_ttlMs = 300000, bc_leaseMs = 5000, bc_claimBytes = 2048, bc_retained = 100,
     bc_skewMs = 10000, bc_recipients = sample_recipients,
     bc_sha = (\<lambda>t. if starts_with ''acme'' t then replicate 64 (CHR ''a'') else t), bc_hmac = (\<lambda>_ _. ''mac''),
     bc_packageHash = (\<lambda>_. ''digest''), bc_packageSize = (\<lambda>_. 100),
     bc_parse = (\<lambda>t. if t = ''ack'' then Some (JObj [(''claimToken'', JStr ''token''), (''packageSha256'', JStr ''digest'')]) else Some (JObj [])),
     bc_date = (\<lambda>_. Some 2), bc_iso = (\<lambda>_. ''T'')\<rparr>"

definition sample_bd_options :: jsval where
  "sample_bd_options = JObj [(''mode'', JStr ''pull''), (''required'', JBool True), (''directory'', JStr ''/bundles''),
     (''encryptionKeys'', JObj [(''e1'', JStr (b64_encode sample_secret))]),
     (''recipients'', JObj [(''regulator'', JObj [(''keys'', JObj [(''k1'', JStr (b64_encode sample_secret))]),
        (''publicKeys'', JObj [(''p1'', JStr ''PEM'')])])]),
     (''bundleTtlMinutes'', JInt 5), (''claimLeaseMs'', JInt 5000), (''maximumClaimBytes'', JInt 2048), (''retention'', JInt 100),
     (''clockSkewSeconds'', JInt 10)]"

definition sample_rsa :: "string \<Rightarrow> (string \<times> nat) option" where
  "sample_rsa _ = Some (''rsa'', 2048)"

lemma sample_store_made: "make_bundle_store sample_rsa sample_bd_config sample_bd_options = Inr (Some sample_bd_config)"
proof -
  have secret: "strict_base64 (JStr (b64_encode sample_secret)) = Some sample_secret" "length sample_secret = 32"
    by (simp_all add: strict_base64_encode sample_secret_def)
  have texts: "safe_ident ''._:-'' 1 191 ''e1''" "safe_ident ''._:-'' 1 191 ''k1''" "safe_ident ''._:-'' 1 191 ''p1''"
    "safe_ident ''._:@/-'' 1 191 (trimmed (JStr ''regulator''))" "js_String (JStr ''PEM'') = ''PEM''" "js_trim ''/bundles'' \<noteq> []"
    by code_simp+
  have "evidence_keyring (js_get sample_bd_options ''encryptionKeys'') JUndef = Inr ([(''e1'', sample_secret)], ''e1'')"
    by (simp add: evidence_keyring_def evidence_key_def sample_bd_options_def secret texts del: One_nat_def)
  moreover have "parse_recipients sample_rsa (js_get sample_bd_options ''recipients'') = Inr sample_recipients"
    by (simp add: parse_recipients_def parse_recipient_def recipient_secret_def recipient_key_def key_identifier_def x_identifier_def
        sample_bd_options_def sample_recipients_def sample_rsa_def secret texts Let_def ev_text_def js_or_nullish_def del: One_nat_def)
  moreover note texts(6)
  ultimately show ?thesis
    by (simp add: make_bundle_store_def sample_bd_options_def sample_bd_config_def ev_text_def trimmed_def x_integer_def) (simp add: sample_recipients_def)
qed

definition sample_bundle_id :: string where
  "sample_bundle_id = ''ASB-'' @ replicate 32 (CHR ''a'')"

definition sample_bundle :: jsval where
  "sample_bundle = JObj [(''tenantId'', JStr ''acme''), (''evidenceId'', JStr (''EVD-'' @ replicate 32 (CHR ''0''))),
     (''evidenceVersion'', JInt 1), (''contentSha256'', JStr (replicate 64 (CHR ''c''))), (''recipientId'', JStr ''regulator''),
     (''requestedBy'', JStr ''alice''), (''purpose'', JStr ''statutory audit''),
     (''manifest'', JObj [(''bundleDigest'', JStr ''d'')]), (''evidence'', JObj [])]"

definition sample_bd_headers :: "string \<Rightarrow> jsval" where
  "sample_bd_headers name = (if name = ''x-basitclaw-recipient-id'' then JStr ''regulator''
     else if name = ''x-basitclaw-recipient-key-id'' then JStr ''k1''
     else if name = ''x-basitclaw-recipient-timestamp'' then JStr ''T''
     else if name = ''x-basitclaw-recipient-nonce'' then JStr (replicate 16 (CHR ''n''))
     else if name = ''x-basitclaw-recipient-signature'' then JStr (b64_encode ''mac'') else JUndef)"

definition bd_at :: "int \<Rightarrow> bundle_env" where
  "bd_at t = \<lparr>be_now = t, be_lock = (\<lambda>_. Acquired), be_claimToken = (\<lambda>_. ''token'')\<rparr>"

definition sample_bd_input :: "int \<Rightarrow> bd_command \<Rightarrow> bd_input" where
  "sample_bd_input t c = \<lparr>bi_env = bd_at t, bi_writes = [], bi_removals = [], bi_command = c\<rparr>"

definition queue_sample :: bd_input where
  "queue_sample = sample_bd_input 1 (QueueBundle sample_bundle)"

definition sample_claim :: "int \<Rightarrow> bundle_files \<Rightarrow> bundle_files \<times> (export_error + string \<times> claimed_bundle list)" where
  "sample_claim t = claim_bundles_signed sample_bd_config (bd_at t) ''{}'' sample_bd_headers"

definition deliver_sample :: "bd_input list" where
  "deliver_sample = [queue_sample, sample_bd_input 2 (ClaimBundles ''{}'' sample_bd_headers),
     sample_bd_input 3 (AcknowledgeBundle (JStr sample_bundle_id) ''ack'' sample_bd_headers)]"

lemma sample_fields [simp]:
  "be_now (bd_at t) = t" "bi_env (sample_bd_input t c) = bd_at t" "bi_command (sample_bd_input t c) = c"
  "bc_leaseMs sample_bd_config = 5000"
  by (simp_all add: bd_at_def sample_bd_input_def sample_bd_config_def)

lemma sample_claim_returns:
  "case snd (sample_claim 2 (refill [] [] (bd_run sample_bd_config [queue_sample] no_bundles))) of
     Inr (rid, selected) \<Rightarrow> rid = ''regulator'' \<and> map cb_bundleId selected = [sample_bundle_id] \<and> map cb_expiresAt selected = [300001]
   | Inl _ \<Rightarrow> False"
  by code_simp

lemma sample_claimed:
  obtains st1 b where "sample_claim 2 (refill [] [] (bd_run sample_bd_config [queue_sample] no_bundles)) = (st1, Inr (''regulator'', [b]))"
    "cb_bundleId b = sample_bundle_id" "cb_expiresAt b = 300001"
proof -
  obtain st1 y where y: "sample_claim 2 (refill [] [] (bd_run sample_bd_config [queue_sample] no_bundles)) = (st1, y)" by fastforce
  then show thesis using sample_claim_returns that by (auto split: sum.splits prod.splits)
qed

subsection \<open>Packages\<close>

text \<open>
  C30. Bundles that are over keep no package. After any run of commands, with any writes and removals
  failing, the record of a delivered or expired bundle holds neither the sealed package nor the hash of a
  claim token, and every other bundle holds a package that some queue command of the run asked for,
  sealed for the primary key of the recipient of the record, with the digest of the record.
\<close>

theorem finished_bundles_keep_no_package:
  assumes "record_file (fst (bd_run cfg cs no_bundles)) d i = Some (SealedFile aad r)"
  shows "(bd_state r \<in> {BundleDelivered, BundleExpired} \<longrightarrow> bd_sealedPackage r = None \<and> bd_claimTokenHash r = None)
    \<and> (bd_state r \<in> {BundlePending, BundleClaimed} \<longrightarrow> (\<exists>p. bd_sealedPackage r = Some p
         \<and> queued_package cfg (queued_in cfg cs) (bd_recipientId r) (bd_bundleId r) p \<and> bd_packageSha256 r = bc_packageHash cfg p))"
proof -
  have "bundle_ok cfg (queued_in cfg cs) (Some (SealedFile aad r))"
    unfolding assms [symmetric] by (rule bd_run_ok) simp_all
  then show ?thesis by (auto simp: bundle_ok_def bundle_over_def)
qed

theorem finished_bundles_keep_no_package_witness:
  "\<exists>aad r. record_file (fst (bd_run sample_bd_config deliver_sample no_bundles)) ''recipient:regulator'' sample_bundle_id = Some (SealedFile aad r)
    \<and> bd_state r = BundleDelivered \<and> bd_sealedPackage r = None"
proof -
  have "case record_file (fst (bd_run sample_bd_config deliver_sample no_bundles)) ''recipient:regulator'' sample_bundle_id of
      Some (SealedFile aad r) \<Rightarrow> bd_state r = BundleDelivered | _ \<Rightarrow> False"
    by code_simp
  then obtain aad r where r: "record_file (fst (bd_run sample_bd_config deliver_sample no_bundles)) ''recipient:regulator'' sample_bundle_id
      = Some (SealedFile aad r)" "bd_state r = BundleDelivered"
    by (auto split: option.splits job_file.splits)
  from finished_bundles_keep_no_package [OF r(1)] r show ?thesis by auto
qed

lemma claim_after:
  assumes "claim_bundles_signed cfg env body headers st = (st1, Inr (rid, selected))"
  shows "(\<exists>auth. authenticate_signed cfg (be_now env) body headers ''claim'' = Inr auth \<and> ba_recipientId auth = rid)
    \<and> (\<exists>s1. tracks (bundle_step cfg env c)\<^sup>*\<^sup>* (record_file (fst st)) s1
         \<and> (\<forall>b \<in> set selected. hands_out cfg env rid (record_file s1) (record_file (fst st1)) b))"
proof -
  have "after (claim_bundles_signed cfg env body headers)
     (\<lambda>(rid, selected) st'. tracks (bundle_step cfg env c)\<^sup>*\<^sup>* (record_file (fst st)) (fst st')
        \<and> (\<exists>auth s1. authenticate_signed cfg (be_now env) body headers ''claim'' = Inr auth \<and> ba_recipientId auth = rid
             \<and> tracks (maintains (be_now env)) (record_file (fst st)) s1
             \<and> (\<forall>b \<in> set selected. hands_out cfg env rid (record_file s1) (record_file (fst st')) b)))
     (\<lambda>_ st'. tracks (bundle_step cfg env c)\<^sup>*\<^sup>* (record_file (fst st)) (fst st')) (fst st, snd st)"
    by (rule after_claim_signed)
  then show ?thesis using assms tracks_maintains by (auto simp: after_def) blast
qed

text \<open>
  C16. A recipient gets its own packages only. When a claim after any run of commands answers with
  bundles, the request was authenticated as that of the recipient, and each package is one that
  some queue command of the run asked for, for this recipient, with exactly the payload of that command,
  sealed for the recipient's configured primary key; the digest handed out with it is that of the
  package.
\<close>

theorem claim_hands_out_own_packages:
  assumes "claim_bundles_signed cfg env body headers (refill ws ms (bd_run cfg cs no_bundles)) = (st1, Inr (rid, selected))"
    and "b \<in> set selected"
  shows "(\<exists>auth. authenticate_signed cfg (be_now env) body headers ''claim'' = Inr auth \<and> ba_recipientId auth = rid)
    \<and> (\<exists>c \<in> set cs. \<exists>input src rcp. bi_command c = QueueBundle input
         \<and> validate_queue_input cfg (be_now (bi_env c)) input = Inr src \<and> bs_recipientId src = rid
         \<and> map_of (bc_recipients cfg) rid = Some rcp \<and> cb_bundleId b = bundle_id_for cfg src
         \<and> cb_sealedPackage b = Some (seal_for_recipient (package_payload cfg src (cb_bundleId b)) rcp (cb_bundleId b))
         \<and> cb_packageSha256 b = bc_packageHash cfg (the (cb_sealedPackage b)))"
proof -
  let ?Q = "queued_in cfg cs" and ?d = "recipient_root cfg rid" and ?i = "cb_bundleId b"
  obtain s1 where s1: "tracks (bundle_step cfg env (ClaimBundles body headers))\<^sup>*\<^sup>* (record_file (fst (bd_run cfg cs no_bundles))) s1"
    "hands_out cfg env rid (record_file s1) (record_file (fst st1)) b"
    using claim_after [OF assms(1), of "ClaimBundles body headers"] assms(2) by auto
  obtain r where r: "record_file s1 ?d ?i = Some (SealedFile (bundle_aad rid ?i) r)" "genuine_bundle cfg rid ?i r"
    "bd_state r = BundlePending" "b = handed_out env ?i r"
    using s1(2) by (auto simp: hands_out_def)
  have "bundle_ok cfg ?Q (record_file s1 ?d ?i)"
    by (rule bundle_ok_steps [OF s1(1) [unfolded tracks_def, rule_format] bd_run_ok]) simp_all
  then obtain p src rcp where p: "bd_sealedPackage r = Some p" "src \<in> ?Q" "map_of (bc_recipients cfg) rid = Some rcp"
    "bs_recipientId src = rid" "?i = bundle_id_for cfg src" "p = seal_for_recipient (package_payload cfg src ?i) rcp ?i"
    "bd_packageSha256 r = bc_packageHash cfg p"
    using r(1,2,3) by (auto simp: bundle_ok_def bundle_over_def queued_package_def genuine_bundle_def)
  have out: "cb_sealedPackage b = Some p" "cb_packageSha256 b = bc_packageHash cfg p"
    using p(1,7) by (subst r(4), simp add: handed_out_def)+
  show ?thesis
    using claim_after [OF assms(1)] queued_by_command [OF p(2)] p out by fastforce
qed

theorem claim_hands_out_own_packages_witness:
  "\<exists>selected b src. snd (sample_claim 2 (refill [] [] (bd_run sample_bd_config [queue_sample] no_bundles))) = Inr (''regulator'', selected)
    \<and> b \<in> set selected \<and> validate_queue_input sample_bd_config 1 sample_bundle = Inr src
    \<and> cb_bundleId b = bundle_id_for sample_bd_config src"
proof -
  obtain st1 b where claimed: "sample_claim 2 (refill [] [] (bd_run sample_bd_config [queue_sample] no_bundles)) = (st1, Inr (''regulator'', [b]))"
    using sample_claimed .
  from claim_hands_out_own_packages [OF claimed [unfolded sample_claim_def], of b]
  obtain src where "validate_queue_input sample_bd_config 1 sample_bundle = Inr src" "cb_bundleId b = bundle_id_for sample_bd_config src"
    by (auto simp: queue_sample_def)
  then show ?thesis using claimed by auto
qed

subsection \<open>Claims\<close>

lemma held_step:
  assumes "bundle_step cfg env c (Some (SealedFile aad r)) f" and "bd_state r = BundleClaimed" and "bd_claimExpiresAt r = Some t"
    and "be_now env < t" and "be_now env < bd_expiresAt r" and "bd_bundleId r \<notin> acknowledged_by c"
  shows "f = Some (SealedFile aad r)"
  using assms by cases (auto simp: maintained_record_def expire_bundle_def release_claim_def)

lemma held_effect:
  assumes "bundle_effect cfg env c (Some (SealedFile aad r)) f" and "bd_state r = BundleClaimed" and "bd_claimExpiresAt r = Some t"
    and "be_now env < t" and "be_now env < bd_expiresAt r" and "bd_bundleId r \<notin> acknowledged_by c"
  shows "f = Some (SealedFile aad r)"
proof -
  obtain g where g: "(bundle_step cfg env c)\<^sup>*\<^sup>* (Some (SealedFile aad r)) g" "removed_by bundle_over g f"
    using assms(1) by (auto simp: bundle_effect_def)
  from g(1) have "g = Some (SealedFile aad r)"
    by induction (use assms(2-) in \<open>auto dest: held_step\<close>)
  then show ?thesis using g(2) assms(2) by (auto simp: removed_by_def bundle_over_def)
qed

lemma held_run:
  assumes "record_file (fst st) d i = Some (SealedFile aad r)" and "bd_state r = BundleClaimed" and "bd_claimExpiresAt r = Some t"
    and "\<forall>c \<in> set cs. be_now (bi_env c) < t \<and> be_now (bi_env c) < bd_expiresAt r \<and> bd_bundleId r \<notin> acknowledged_by (bi_command c)"
  shows "record_file (fst (bd_run cfg cs st)) d i = Some (SealedFile aad r)"
  using assms
proof (induction cs arbitrary: st)
  case (Cons c cs)
  have "record_file (fst (bd_step cfg c st)) d i = Some (SealedFile aad r)"
    by (rule held_effect [OF _ Cons.prems(2,3)]) (use bd_step_effect [of cfg c st d i] Cons.prems(1,4) in auto)
  then show ?case unfolding bd_run_simps(2) by (rule Cons.IH) (use Cons.prems in auto)
qed simp

lemma hands_out_claimed:
  assumes "hands_out cfg env rid v w b"
  obtains r where "w (recipient_root cfg rid) (cb_bundleId b) = Some (SealedFile (bundle_aad rid (cb_bundleId b)) r)"
    "bd_state r = BundleClaimed" "bd_claimExpiresAt r = Some (be_now env + bc_leaseMs cfg)" "bd_expiresAt r = cb_expiresAt b"
    "bd_bundleId r = cb_bundleId b" "bd_claimTokenHash r = Some (bc_sha cfg (cb_claimToken b))"
proof -
  from assms obtain r0 where "genuine_bundle cfg rid (cb_bundleId b) r0" "b = handed_out env (cb_bundleId b) r0"
    "w (recipient_root cfg rid) (cb_bundleId b) = Some (SealedFile (bundle_aad rid (cb_bundleId b)) (claimed_bundle_record cfg env r0))"
    by (auto simp: hands_out_def)
  moreover from this(2) have "cb_expiresAt b = bd_expiresAt r0" "cb_claimToken b = be_claimToken env (cb_bundleId b)"
    by (metis claimed_bundle.select_convs handed_out_def)+
  ultimately show thesis
    by (intro that [of "claimed_bundle_record cfg env r0"]) (auto simp: claimed_bundle_record_def genuine_bundle_def)
qed

text \<open>
  C2. A claim is exclusive while it lasts. After a claim has answered with a bundle, any commands may follow -
  claims with other keys, listings, queueing the same evidence again - with any writes failing: as
  long as the clocks are before the end of the lease and of the bundle, and the bundle is not
  acknowledged, its record still holds the hash of the claim's token, and no claim of the recipient
  answers with it again.
\<close>

theorem claim_is_exclusive:
  assumes "claim_bundles_signed cfg env body headers st = (st1, Inr (rid, selected))" and "b \<in> set selected"
    and "\<forall>c \<in> set cs. be_now (bi_env c) < be_now env + bc_leaseMs cfg \<and> be_now (bi_env c) < cb_expiresAt b
      \<and> cb_bundleId b \<notin> acknowledged_by (bi_command c)"
    and "be_now env' < be_now env + bc_leaseMs cfg" and "be_now env' < cb_expiresAt b"
    and "st2 = bd_run cfg cs st1"
  shows "(\<exists>r. bundle_file cfg rid (cb_bundleId b) st2 = Some (SealedFile (bundle_aad rid (cb_bundleId b)) r)
        \<and> bd_state r = BundleClaimed \<and> bd_claimTokenHash r = Some (bc_sha cfg (cb_claimToken b)))
    \<and> (\<forall>st3 selected'. claim_bundles_signed cfg env' body' headers' (refill ws ms st2) = (st3, Inr (rid, selected'))
        \<longrightarrow> cb_bundleId b \<notin> cb_bundleId ` set selected')"
proof -
  let ?d = "recipient_root cfg rid" and ?i = "cb_bundleId b"
  obtain s1 where "hands_out cfg env rid (record_file s1) (record_file (fst st1)) b"
    using claim_after [OF assms(1)] assms(2) by blast
  then obtain r where r: "record_file (fst st1) ?d ?i = Some (SealedFile (bundle_aad rid ?i) r)" "bd_state r = BundleClaimed"
    "bd_claimExpiresAt r = Some (be_now env + bc_leaseMs cfg)" "bd_expiresAt r = cb_expiresAt b"
    "bd_bundleId r = ?i" "bd_claimTokenHash r = Some (bc_sha cfg (cb_claimToken b))"
    by (rule hands_out_claimed)
  have held: "record_file (fst st2) ?d ?i = Some (SealedFile (bundle_aad rid ?i) r)"
    unfolding assms(6) by (rule held_run [OF r(1-3)]) (use assms(3) r(4,5) in simp)
  have "?i \<notin> cb_bundleId ` set selected'"
    if again: "claim_bundles_signed cfg env' body' headers' (refill ws ms st2) = (st3, Inr (rid, selected'))" for st3 selected'
  proof
    assume "?i \<in> cb_bundleId ` set selected'"
    then obtain b' where b': "b' \<in> set selected'" "cb_bundleId b' = ?i" by auto
    obtain s2 where s2: "tracks (bundle_step cfg env' (ClaimBundles body' headers'))\<^sup>*\<^sup>* (record_file (fst st2)) s2"
      "hands_out cfg env' rid (record_file s2) (record_file (fst st3)) b'"
      using claim_after [OF again, of "ClaimBundles body' headers'"] b'(1) by auto
    have "bundle_effect cfg env' (ClaimBundles body' headers') (record_file (fst st2) ?d ?i) (record_file s2 ?d ?i)"
      using tracks_steps [OF s2(1)] by (simp add: tracks_def)
    then have "record_file s2 ?d ?i = Some (SealedFile (bundle_aad rid ?i) r)"
      unfolding held by (rule held_effect [OF _ r(2,3)]) (use assms(4,5) r(4) in simp_all)
    then show False using s2(2) r(2) b'(2) by (auto simp: hands_out_def)
  qed
  then show ?thesis using held r(2,6) by (auto simp: bundle_file_def)
qed

theorem claim_is_exclusive_witness:
  "\<exists>st1. \<forall>st3 selected. sample_claim 4 (refill [] [] (bd_run sample_bd_config [sample_bd_input 3 (QueueBundle sample_bundle)] st1))
      = (st3, Inr (''regulator'', selected)) \<longrightarrow> sample_bundle_id \<notin> cb_bundleId ` set selected"
proof -
  obtain st1 b where claimed: "sample_claim 2 (refill [] [] (bd_run sample_bd_config [queue_sample] no_bundles)) = (st1, Inr (''regulator'', [b]))"
    and b: "cb_bundleId b = sample_bundle_id" "cb_expiresAt b = 300001"
    using sample_claimed .
  from claim_is_exclusive [OF claimed [unfolded sample_claim_def], of b "[sample_bd_input 3 (QueueBundle sample_bundle)]" "bd_at 4", OF _ _ _ _ refl] b
  show ?thesis unfolding sample_claim_def by (intro exI [of _ st1]) auto
qed

text \<open>
  A command moves a bundle only along its life. Whatever command runs, however its writes end,
  each file of the store goes through steps of \<open>bundle_step\<close> - the bundle of a queue command opens or
  is torn, or replaces an expired one; a pending bundle that fits is claimed; a live claim with the right
  proof is acknowledged; an ended claim is released and a bundle whose time is over expires - and then
  at most is removed, when it is over.
\<close>

theorem bundles_follow_their_life:
  "\<exists>g. (bundle_step cfg (bi_env c) (bi_command c))\<^sup>*\<^sup>* (record_file (fst st) d i) g
    \<and> removed_by bundle_over g (record_file (fst (bd_step cfg c st)) d i)"
  using bd_step_effect by (simp add: bundle_effect_def)

subsection \<open>Replays\<close>

definition marked :: "string \<Rightarrow> string \<Rightarrow> int \<Rightarrow> replays \<Rightarrow> bool" where
  "marked d i at m \<longleftrightarrow> (i, at) \<in> set (m d) \<and> (\<forall>e \<in> set (m d). fst e = i \<longrightarrow> snd e = at)"

lemma marked_seen: "marked d i at m \<Longrightarrow> map_of (m d) i \<noteq> None"
  by (metis marked_def weak_map_of_SomeI option.discI)

lemma marked_add: "marked d i at m \<Longrightarrow> map_of (m d') j = None \<Longrightarrow> marked d i at (add_replay d' j now m)"
  using marked_seen [of d i at m] by (auto simp: marked_def add_replay_def)

lemma marked_drop: "marked d i at m \<Longrightarrow> \<not> (d' = d \<and> j = i) \<Longrightarrow> marked d i at (drop_replay d' j m)"
  by (auto simp: marked_def drop_replay_def without_def)

lemma after_draw_removal_any: "(\<And>y s'. Q y s') \<Longrightarrow> after draw_removal Q E s"
  by (simp add: after_def draw_removal_def split: list.split)

lemma keeps_prune_marked:
  assumes "now - at \<le> 86400000"
  shows "keeps (\<lambda>st. marked d i at (snd st)) (prune_replay_markers cfg now rid)"
proof (rule keepsI)
  fix st :: bundle_files assume st: "marked d i at (snd st)"
  let ?d = "recipient_root cfg rid" and ?I = "\<lambda>st :: bundle_files. marked d i at (snd st)"
  have one: "after (prune_replay ?d j) (\<lambda>_. ?I) (\<lambda>_. ?I) st'" if "?I st'" "\<not> (?d = d \<and> j = i)" for j st'
    using that by (cases st') (auto simp: prune_replay_def after_on_store after_on_world intro!: after_draw_removal_any marked_drop)
  have "after (for_each (prune_replay ?d) js) (\<lambda>_. ?I) (\<lambda>_. ?I) st" if "\<forall>j \<in> set js. \<not> (?d = d \<and> j = i)" for js
    by (rule after_for_each) (use st one that in auto)
  moreover have "\<not> (?d = d \<and> j = i)" if "j \<in> fst ` {e \<in> set (snd st ?d). 86400000 < now - snd e}" for j
    using that st assms by (auto simp: marked_def)
  ultimately show "after (prune_replay_markers cfg now rid) (\<lambda>_. ?I) (\<lambda>_. ?I) st"
    unfolding prune_replay_markers_def by (cases st) (auto simp: after_on_world)
qed

lemma keeps_register_marked: "keeps (\<lambda>st. marked d i at (snd st)) (register_replay cfg now auth)"
  by (rule keepsI) (auto simp: register_replay_def Let_def after_on_store after_on_world intro!: after_draw_put marked_add)

lemma keeps_bundle_files [keeps_intros]:
  "keeps (\<lambda>st. P (snd st)) (read_bundle cfg rid i)" "keeps (\<lambda>st. P (snd st)) (replace_bundle cfg rid i r)"
  unfolding read_bundle_def replace_bundle_def by (intro keeps_intros)+

lemma keeps_maintenance_marked:
  assumes "now - at \<le> 86400000"
  shows "keeps (\<lambda>st. marked d i at (snd st)) (maintenance_locked cfg now rid)"
  unfolding maintenance_locked_def maintain_bundle_def Let_def
  by (intro keeps_intros keeps_prune_marked assms)

lemma keeps_claim_bundles: "keeps (\<lambda>st. P (snd st)) (claim_bundles cfg env rid left none used names)"
proof (induction names arbitrary: left none used)
  case (Cons i names)
  then show ?case by (auto simp: Let_def intro!: keeps_intros)
qed (simp add: keeps_intros)

lemma keeps_prune_bundles: "keeps (\<lambda>st. P (snd st)) (prune_bundles cfg rid)"
  unfolding prune_bundles_def Let_def by (intro keeps_intros)

lemma keeps_marked:
  assumes "be_now env - at \<le> 86400000"
  shows "keeps (\<lambda>st. marked d i at (snd st)) (bd_exec cfg env c)"
proof -
  have listed: "keeps (\<lambda>st. marked d i at (snd st)) (listed_bundles cfg env rid)" for rid
    unfolding listed_bundles_def bundle_section_def by (intro keeps_intros keeps_maintenance_marked assms)
  note parts = queue_bundle_def queue_bundle_locked_def list_bundles_def claim_bundles_signed_def acknowledge_bundle_signed_def
    bundle_signed_section_def tenant_status_def bundle_section_def Let_def forget_def
  show ?thesis
    by (cases c) (simp_all only: bd_exec.simps parts, (intro keeps_intros keeps_maintenance_marked keeps_register_marked
        keeps_claim_bundles keeps_prune_bundles listed assms)+)
qed

lemma marked_run:
  assumes "marked d i at (snd st)" and "\<forall>c \<in> set cs. be_now (bi_env c) - at \<le> 86400000"
  shows "marked d i at (snd (bd_run cfg cs st))"
  using assms
proof (induction cs arbitrary: st)
  case (Cons c cs)
  have "marked d i at (snd (bd_step cfg c st))"
    unfolding bd_step_def by (rule keepsD [OF keeps_marked]) (use Cons.prems in simp_all)
  then show ?case using Cons by simp
qed simp

text \<open>The authentication of a signed command, and what it leads to.\<close>

fun signed_as :: "bundle_config \<Rightarrow> int \<Rightarrow> bd_command \<Rightarrow> export_error + bundle_auth" where
  "signed_as cfg now (ClaimBundles body headers) = authenticate_signed cfg now body headers ''claim''"
| "signed_as cfg now (AcknowledgeBundle i body headers) =
     bindR (bundle_identifier i) (\<lambda>i. authenticate_signed cfg now body headers (''acknowledge:'' @ i))"
| "signed_as cfg now _ = Inl (XType ''unsigned'')"

fun is_signed :: "bd_command \<Rightarrow> bool" where
  "is_signed (ClaimBundles body headers) = True"
| "is_signed (AcknowledgeBundle i body headers) = True"
| "is_signed _ = False"

lemma authenticate_again:
  assumes "authenticate_signed cfg now body headers op = Inr auth" and "authenticate_signed cfg now' body headers op = Inr auth'"
  shows "auth' = auth \<and> \<bar>now - ba_timestamp auth\<bar> \<le> bc_skewMs cfg \<and> \<bar>now' - ba_timestamp auth\<bar> \<le> bc_skewMs cfg"
  using assms by (auto simp: authenticate_signed_def Let_def)

lemma signed_again:
  assumes "signed_as cfg now c = Inr auth" and "signed_as cfg now' c = Inr auth'"
  shows "auth' = auth \<and> \<bar>now - ba_timestamp auth\<bar> \<le> bc_skewMs cfg \<and> \<bar>now' - ba_timestamp auth\<bar> \<le> bc_skewMs cfg"
  using assms by (cases c) (auto dest: authenticate_again)

lemma after_register_marks:
  "after (register_replay cfg now auth)
     (\<lambda>_ st. marked (recipient_root cfg (ba_recipientId auth)) (ba_replayId auth) now (snd st)) (\<lambda>_ _. True) st"
proof -
  have "marked d i now (add_replay d i now m)" if "map_of (m d) i = None" for d i and m :: replays
    using that by (auto simp: marked_def add_replay_def map_of_eq_None_iff)
  then show ?thesis
    by (cases st) (auto simp: register_replay_def Let_def after_on_store after_on_world intro!: after_draw_put)
qed

lemma after_section_marks:
  assumes "\<And>P. keeps (\<lambda>st. P (snd st)) m"
  shows "after (bundle_signed_section cfg env auth m)
     (\<lambda>_ st. marked (recipient_root cfg (ba_recipientId auth)) (ba_replayId auth) (be_now env) (snd st)) (\<lambda>_ _. True) st"
proof -
  let ?P = "\<lambda>st :: bundle_files. marked (recipient_root cfg (ba_recipientId auth)) (ba_replayId auth) (be_now env) (snd st)"
  have kept: "after k (\<lambda>_. ?P) (\<lambda>_ _. True) st" if "keeps ?P k" "?P st" for k :: "'z bundle_call" and st
    by (rule after_weaken [OF keeps_afterD [OF that]]) simp_all
  have "keeps ?P (maintenance_locked cfg (be_now env) rid)" for rid
    by (rule keeps_maintenance_marked) simp
  then have upkeep: "after (maintenance_locked cfg (be_now env) rid) (\<lambda>_. ?P) (\<lambda>_ _. True) st" if "?P st" for rid st
    by (rule after_weaken [OF keeps_afterD]) (use that in simp_all)
  show ?thesis
    unfolding bundle_signed_section_def bundle_section_def after_bindS
    by (rule after_with_lock)
      (auto intro!: after_weaken [OF after_register_marks] after_weaken [OF upkeep] kept assms)
qed

lemma after_signed_marks:
  assumes "is_signed c"
  shows "after (bd_exec cfg env c) (\<lambda>_ st. \<exists>auth. signed_as cfg (be_now env) c = Inr auth
     \<and> marked (recipient_root cfg (ba_recipientId auth)) (ba_replayId auth) (be_now env) (snd st)) (\<lambda>_ _. True) st"
proof -
  have claim: "keeps (\<lambda>st. P (snd st)) (bindS (liftS (bundle_json (bc_parse cfg) body [''limit''])) (\<lambda>input.
      bindS (liftS (x_integer (js_or_nullish (js_get input ''limit'') (JInt 1)) ''limit'' 1 100)) (\<lambda>limit.
      bindS (getS (bundle_names cfg rid)) (\<lambda>names. bindS (claim_bundles cfg env rid (nat limit) True 0 names) (\<lambda>selected.
      returnS (rid, selected))))))" for P body rid
    by (intro keeps_intros keeps_claim_bundles)
  have acknowledge: "keeps (\<lambda>st. P (snd st)) (bindS (liftS (bundle_json (bc_parse cfg) body [''claimToken'', ''packageSha256''])) (\<lambda>input.
      bindS (getS (bundle_file cfg rid i)) (\<lambda>f. ensureS (f \<noteq> None) (XValidation ''not found'') (bindS (read_bundle cfg rid i) (\<lambda>r.
      if bd_state r = BundleDelivered then returnS r
      else bindS (liftS (acknowledge_record cfg (be_now env) input r)) (\<lambda>r'. bindS (replace_bundle cfg rid i r') (\<lambda>_.
        bindS (prune_bundles cfg rid) (\<lambda>_. returnS r'))))))))" for P body rid i
    by (intro keeps_intros keeps_prune_bundles)
  show ?thesis
  proof (cases c)
    case (ClaimBundles body headers)
    then show ?thesis
      by (auto simp: after_forget claim_bundles_signed_def
          intro!: after_liftS_I after_weaken [OF after_section_marks [OF claim]])
  next
    case (AcknowledgeBundle i body headers)
    then show ?thesis
      by (auto simp: after_forget acknowledge_bundle_signed_def Let_def simp del: not_None_eq
          intro!: after_liftS_I after_weaken [OF after_section_marks [OF acknowledge]])
  qed (use assms in simp_all)
qed

lemma replay_refused:
  assumes "marked (recipient_root cfg (ba_recipientId auth)) (ba_replayId auth) at (snd st)"
  shows "after (bundle_signed_section cfg env auth m) (\<lambda>_ _. False) (\<lambda>_ _. True) st"
proof -
  have "after (register_replay cfg (be_now env) auth) (\<lambda>_ _. False) (\<lambda>_ _. True) st"
    using marked_seen [OF assms] by (cases st) (auto simp: register_replay_def Let_def after_on_world)
  then show ?thesis
    unfolding bundle_signed_section_def bundle_section_def after_bindS
    by (intro after_with_lock) (auto elim: after_weaken)
qed

lemma signed_refused:
  assumes "is_signed c" and "\<And>auth. signed_as cfg (be_now env) c = Inr auth \<Longrightarrow>
      \<exists>at. marked (recipient_root cfg (ba_recipientId auth)) (ba_replayId auth) at (snd st)"
  shows "after (bd_exec cfg env c) (\<lambda>_ _. False) (\<lambda>_ _. True) st"
proof (cases c)
  case (ClaimBundles body headers)
  then show ?thesis
    using assms(2) by (auto simp: after_forget claim_bundles_signed_def intro!: after_liftS_I dest: replay_refused)
next
  case (AcknowledgeBundle i body headers)
  then show ?thesis
    using assms(2) by (auto simp: after_forget acknowledge_bundle_signed_def Let_def intro!: after_liftS_I dest: replay_refused)
qed (use assms(1) in simp_all)

lemma make_bundle_store_skew:
  assumes "make_bundle_store rsa engine options = Inr (Some cfg)"
  shows "bc_skewMs cfg \<le> 3600000 \<and> 0 < bc_leaseMs cfg"
proof -
  have bounds: "x_integer v field lo hi = Inr n \<Longrightarrow> lo \<le> n \<and> n \<le> hi" for v field lo hi n
    using int_in_Some by (fastforce simp: x_integer_def)
  have enabled: "(if b then ensure a e (Inr None) else m) = Inr (Some x) \<longleftrightarrow> \<not> b \<and> m = Inr (Some x)"
    for a b e and m :: "export_error + bundle_config option" and x
    by simp
  show ?thesis
    using assms unfolding make_bundle_store_def Let_def
    by (simp only: ensure_Inr bindR_Inr enabled) (auto dest!: bounds)
qed

text \<open>
  C17. A signed request works once. When a store that was built accepts a signed claim or
  acknowledgement, the same request - same body and headers - is refused from then on: after any
  commands of any processes whose clocks are not ahead of the second attempt, with any writes and
  removals failing, either its timestamp is outside the window or its replay marker, which is kept for
  a day, is still there.
\<close>

theorem signed_request_works_once:
  assumes "make_bundle_store rsa engine options = Inr (Some cfg)" and "is_signed c"
    and "bd_exec cfg env c st = (st1, Inr ())" and "\<forall>d \<in> set ds. be_now (bi_env d) \<le> be_now env'"
  shows "\<exists>e. snd (bd_exec cfg env' c (refill ws ms (bd_run cfg ds st1))) = Inl e"
proof -
  obtain auth where auth: "signed_as cfg (be_now env) c = Inr auth"
    "marked (recipient_root cfg (ba_recipientId auth)) (ba_replayId auth) (be_now env) (snd st1)"
    using after_signed_marks [OF assms(2), of cfg env st] assms(3) by (auto simp: after_def)
  have "after (bd_exec cfg env' c) (\<lambda>_ _. False) (\<lambda>_ _. True) (refill ws ms (bd_run cfg ds st1))"
  proof (rule signed_refused [OF assms(2)])
    fix auth' assume "signed_as cfg (be_now env') c = Inr auth'"
    then have same: "auth' = auth" and "\<bar>be_now env - ba_timestamp auth\<bar> \<le> bc_skewMs cfg"
      and "\<bar>be_now env' - ba_timestamp auth\<bar> \<le> bc_skewMs cfg"
      using signed_again [OF auth(1)] by auto
    then have "be_now env' - be_now env \<le> 86400000"
      using make_bundle_store_skew [OF assms(1)] by linarith
    then have "marked (recipient_root cfg (ba_recipientId auth)) (ba_replayId auth) (be_now env) (snd (bd_run cfg ds st1))"
      using assms(4) by (intro marked_run auth(2)) (auto dest!: bspec)
    then show "\<exists>at. marked (recipient_root cfg (ba_recipientId auth')) (ba_replayId auth') at (snd (refill ws ms (bd_run cfg ds st1)))"
      unfolding same by auto
  qed
  then show ?thesis by (auto simp: after_def split: sum.splits prod.splits) (metis old.sum.exhaust old.unit.exhaust)
qed

theorem signed_request_works_once_witness:
  "\<exists>st1. bd_exec sample_bd_config (bd_at 2) (ClaimBundles ''{}'' sample_bd_headers)
       (refill [] [] (bd_run sample_bd_config [queue_sample] no_bundles)) = (st1, Inr ())
    \<and> (\<exists>e. snd (bd_exec sample_bd_config (bd_at 9) (ClaimBundles ''{}'' sample_bd_headers) (refill [] [] (bd_run sample_bd_config [] st1))) = Inl e)"
proof -
  let ?st = "refill [] [] (bd_run sample_bd_config [queue_sample] no_bundles)"
  obtain st1 b where "sample_claim 2 ?st = (st1, Inr (''regulator'', [b]))" using sample_claimed .
  then have "bd_exec sample_bd_config (bd_at 2) (ClaimBundles ''{}'' sample_bd_headers) ?st = (st1, Inr ())"
    by (simp add: sample_claim_def forget_def bindS_def returnS_def)
  from signed_request_works_once [OF sample_store_made _ this, of "[]" "bd_at 9" "[]" "[]"] this
  show ?thesis by (intro exI [of _ st1]) simp
qed

subsection \<open>A bundle that is too large\<close>

definition blocks_claims :: "bundle_config \<Rightarrow> string \<Rightarrow> string \<Rightarrow> int \<Rightarrow> assurance_bundle view \<Rightarrow> bool" where
  "blocks_claims cfg rid i t w \<longleftrightarrow> is_bundle_id i
     \<and> (\<exists>r. w (recipient_root cfg rid) i = Some (SealedFile (bundle_aad rid i) r) \<and> bd_state r = BundlePending \<and> \<not> fits_claim cfg r
          \<and> bd_expiresAt r = t)
     \<and> (\<forall>j. is_bundle_id j \<longrightarrow> w (recipient_root cfg rid) j \<noteq> None \<longrightarrow> i \<le> j)"

lemma stuck_effect:
  assumes "bundle_effect cfg env c (Some (SealedFile aad r)) f" and "bd_state r = BundlePending" and "\<not> fits_claim cfg r"
    and "be_now env < bd_expiresAt r"
  shows "f = Some (SealedFile aad r)"
proof -
  have one: "g = Some (SealedFile aad r)" if "bundle_step cfg env c (Some (SealedFile aad r)) g" for g
    using that by cases (use assms(2-) in \<open>auto simp: maintained_record_def expire_bundle_def release_claim_def
      acknowledge_record_Inr live_claim_def\<close>)
  obtain g where g: "(bundle_step cfg env c)\<^sup>*\<^sup>* (Some (SealedFile aad r)) g" "removed_by bundle_over g f"
    using assms(1) by (auto simp: bundle_effect_def)
  from g(1) have "g = Some (SealedFile aad r)" by induction (auto dest: one)
  then show ?thesis using g(2) assms(2) by (auto simp: removed_by_def bundle_over_def)
qed

lemma nothing_queued_effect:
  assumes "bundle_effect cfg env c None f" and "queued_by cfg env c = {}"
  shows "f = None"
proof -
  obtain g where g: "(bundle_step cfg env c)\<^sup>*\<^sup>* None g" "removed_by bundle_over g f"
    using assms(1) by (auto simp: bundle_effect_def)
  from g(1) have "g = None" by induction (auto elim: bundle_step.cases simp: assms(2))
  then show ?thesis using g(2) by (simp add: removed_by_def)
qed

lemma blocks_effect:
  assumes "blocks_claims cfg rid i t v" and "tracks (bundle_effect cfg env c) v s" and "queued_by cfg env c = {}" and "be_now env < t"
  shows "blocks_claims cfg rid i t (record_file s)"
proof -
  let ?d = "recipient_root cfg rid"
  obtain r where r: "v ?d i = Some (SealedFile (bundle_aad rid i) r)" "bd_state r = BundlePending" "\<not> fits_claim cfg r" "bd_expiresAt r = t"
    using assms(1) by (auto simp: blocks_claims_def)
  have "bundle_effect cfg env c (v d j) (record_file s d j)" for d j using assms(2) by (simp add: tracks_def)
  moreover from this [of ?d i] have "record_file s ?d i = v ?d i"
    unfolding r(1) by (rule stuck_effect) (use r assms(4) in simp_all)
  moreover have "v d j \<noteq> None" if "record_file s d j \<noteq> None" for d j
    using calculation(1) [of d j] nothing_queued_effect [OF _ assms(3)] that by metis
  ultimately show ?thesis using assms(1) r by (auto simp: blocks_claims_def)
qed

lemma blocks_run:
  assumes "blocks_claims cfg rid i t (record_file (fst st))"
    and "\<forall>c \<in> set cs. queued_by cfg (bi_env c) (bi_command c) = {} \<and> be_now (bi_env c) < t"
  shows "blocks_claims cfg rid i t (record_file (fst (bd_run cfg cs st)))"
  using assms
proof (induction cs arbitrary: st)
  case (Cons c cs)
  have "tracks (bundle_effect cfg (bi_env c) (bi_command c)) (record_file (fst st)) (fst (bd_step cfg c st))"
    using bd_step_effect by (simp add: tracks_def)
  then have "blocks_claims cfg rid i t (record_file (fst (bd_step cfg c st)))"
    using Cons.prems by (intro blocks_effect) auto
  then show ?case unfolding bd_run_simps(2) using Cons by auto
qed simp

lemma first_name:
  assumes "is_bundle_id i" and "record_file s d i \<noteq> None" and "\<forall>j. is_bundle_id j \<longrightarrow> record_file s d j \<noteq> None \<longrightarrow> i \<le> j"
  shows "\<exists>names. record_names is_bundle_id d s = i # names"
proof -
  let ?ns = "record_names is_bundle_id d s"
  have ns: "sorted ?ns" "i \<in> set ?ns" "\<forall>j \<in> set ?ns. i \<le> j"
    using assms by (auto simp: record_names_set) (simp add: record_names_def)
  then obtain n rest where "?ns = n # rest" by (cases ?ns) auto
  then show ?thesis using ns by (auto intro: antisym)
qed

lemma blocked_claim:
  assumes "blocks_claims cfg rid i t (record_file s)" and "be_now env < t"
  shows "after (claim_bundles_signed cfg env body headers) (\<lambda>(rid', _) _. rid' \<noteq> rid) (\<lambda>_ _. True) (s, x)"
proof -
  have anyway: "after m (\<lambda>_ _. True) (\<lambda>_ _. True) st" for m :: "'z bundle_call" and st
    by (simp add: after_state)
  have stuck: "after (claim_bundles cfg env rid (nat limit) True 0 (bundle_names cfg rid (s1, x1))) (\<lambda>_ _. False) (\<lambda>_ _. True) (s1, x1)"
    if "tracks (maintains (be_now env)) (record_file s) s1" "1 \<le> limit" for s1 x1 limit
  proof -
    have "blocks_claims cfg rid i t (record_file s1)"
      by (rule blocks_effect [OF assms(1) tracks_steps [OF tracks_maintains [OF that(1), where c = "BundleStatus JNull"]] _ assms(2)]) simp
    then obtain r names where "record_file s1 (recipient_root cfg rid) i = Some (SealedFile (bundle_aad rid i) r)"
      "bd_state r = BundlePending" "\<not> fits_claim cfg r" "bundle_names cfg rid (s1, x1) = i # names"
      using first_name [of i s1 "recipient_root cfg rid"] by (auto simp: blocks_claims_def bundle_names_def)
    then show ?thesis
      using that(2) by (auto simp: read_bundle_def after_on_store fits_claim_def Let_def intro!: after_read_file)
  qed
  have go: "after (bindS (liftS (bundle_json (bc_parse cfg) body [''limit''])) (\<lambda>input.
        bindS (liftS (x_integer (js_or_nullish (js_get input ''limit'') (JInt 1)) ''limit'' 1 100)) (\<lambda>limit.
        bindS (getS (bundle_names cfg rid')) (\<lambda>names.
        bindS (claim_bundles cfg env rid' (nat limit) True 0 names) (\<lambda>selected. returnS (rid', selected))))))
      (\<lambda>(rid', _) _. rid' \<noteq> rid) (\<lambda>_ _. True) (s1, x1)" if "tracks (maintains (be_now env)) (record_file s) s1" for rid' s1 x1
  proof (cases "rid' = rid")
    case True
    have limits: "1 \<le> n" if "x_integer v field 1 100 = Inr n" for v field n
      using that int_in_Some by (fastforce simp: x_integer_def)
    show ?thesis
      unfolding True using that by (auto intro!: after_liftS_I after_weaken [OF stuck] dest: limits)
  next
    case False
    then show ?thesis by (auto intro!: after_liftS_I after_weaken [OF anyway])
  qed
  show ?thesis
    unfolding claim_bundles_signed_def after_bindS [of "liftS _"]
    by (rule after_liftS_I, simp) (rule after_section [where P = "\<lambda>_. True", simplified], rule go)
qed

text \<open>
  C39. An oversized bundle blocks its recipient. When the first bundle of a recipient's directory - in the
  order of the names, which are digests - is pending and larger than a claim may be, no claim of the
  recipient succeeds before that bundle expires, whatever smaller bundles lie behind it and whatever
  claims, acknowledgements and listings run in between.
\<close>

theorem oversized_bundle_blocks_recipient:
  assumes "blocks_claims cfg rid i t (record_file (fst st))"
    and "\<forall>c \<in> set cs. (\<forall>input. bi_command c \<noteq> QueueBundle input) \<and> be_now (bi_env c) < t" and "be_now env < t"
  shows "claim_bundles_signed cfg env body headers (refill ws ms (bd_run cfg cs st)) \<noteq> (st', Inr (rid, selected))"
proof -
  have "queued_by cfg (bi_env c) (bi_command c) = {}" if "c \<in> set cs" for c
    using assms(2) that by (cases "bi_command c") auto
  then have "blocks_claims cfg rid i t (record_file (fst (refill ws ms (bd_run cfg cs st))))"
    using assms(1,2) by (simp add: blocks_run)
  from blocked_claim [OF this assms(3), of body headers "snd (refill ws ms (bd_run cfg cs st))", unfolded prod.collapse]
  show ?thesis by (auto simp: after_def)
qed

definition small_bd_config :: bundle_config where
  "small_bd_config = sample_bd_config\<lparr>bc_claimBytes := 1024\<rparr>"

theorem oversized_bundle_blocks_recipient_witness:
  "\<not> (\<exists>st' selected. claim_bundles_signed small_bd_config (bd_at 5) ''{}'' sample_bd_headers
     (refill [] [] (bd_run small_bd_config [sample_bd_input 3 (BundleStatus (JStr ''acme''))] (bd_run small_bd_config [queue_sample] no_bundles)))
       = (st', Inr (''regulator'', selected)))"
proof -
  let ?st = "bd_run small_bd_config [queue_sample] no_bundles"
  have "case record_file (fst ?st) ''recipient:regulator'' sample_bundle_id of
      Some (SealedFile aad r) \<Rightarrow> aad = bundle_aad ''regulator'' sample_bundle_id \<and> bd_state r = BundlePending \<and> bd_expiresAt r = 300001
    | _ \<Rightarrow> False" "map fst (rd_dirs (fst ?st) ''recipient:regulator'') = [sample_bundle_id]"
    and here: "recipient_root small_bd_config ''regulator'' = ''recipient:regulator''" "is_bundle_id sample_bundle_id"
    by code_simp+
  moreover have "\<not> fits_claim small_bd_config r" for r
    by (simp add: fits_claim_def small_bd_config_def sample_bd_config_def)
  moreover have "j = sample_bundle_id" if "record_file (fst ?st) ''recipient:regulator'' j \<noteq> None" for j
    using that calculation(2) by (auto simp: record_file_def dest!: map_of_SomeD)
  ultimately have "blocks_claims small_bd_config ''regulator'' sample_bundle_id 300001 (record_file (fst ?st))"
    by (auto simp: blocks_claims_def split: option.splits job_file.splits)
  from oversized_bundle_blocks_recipient [OF this, of "[sample_bd_input 3 (BundleStatus (JStr ''acme''))]" "bd_at 5"]
  show ?thesis by auto
qed

end
