(* ===== verification/EvidenceCustody.thy ===== *)
theory EvidenceCustody
  imports EvidenceRegistry "HOL-Library.Sublist"
begin

section \<open>What the evidence registry keeps\<close>

text \<open>
  Consequences of the refinement of EvidenceRegistry.thy: the invariants of the index and of
  the content files over all histories of commands, the life of one item (versions, hold,
  disposal), the round trip of an upload, and what an interrupted commit leaves behind.
\<close>

subsection \<open>Histories\<close>

definition no_evidence :: ev_store where
  "no_evidence = \<lparr>es_index = None, es_content = (\<lambda>_. None)\<rparr>"

inductive ev_reach ::
  "(string \<Rightarrow> string) \<Rightarrow> (string \<Rightarrow> int option) \<Rightarrow> ev_config \<Rightarrow> string \<Rightarrow> (ev_env \<Rightarrow> bool) \<Rightarrow> ev_store \<Rightarrow> bool"
  for H dp cfg tenant P where
  er_start: "ev_reach H dp cfg tenant P no_evidence"
| er_run: "ev_reach H dp cfg tenant P st \<Longrightarrow> P env \<Longrightarrow> tenant_identifier tenantId = Inr tenant \<Longrightarrow>
     fresh_for H env tenant cmd st \<Longrightarrow> ev_reach H dp cfg tenant P (fst (run_ev H dp cfg env cmd tenantId actor st))"

subsection \<open>The index\<close>

definition ev_inv :: "(string \<Rightarrow> string) \<Rightarrow> string \<Rightarrow> ev_store \<Rightarrow> bool" where
  "ev_inv H tenant st = (\<exists>ix. load_index H tenant st = Inr ix \<and> items_ok (ix_items ix))"

lemma ev_inv_well_stored: "ev_inv H tenant st \<Longrightarrow> well_stored H tenant st"
  by (auto simp: ev_inv_def well_stored_def)

lemma item_step_ok:
  "item_step env cmd who i j \<Longrightarrow> item_ok i \<Longrightarrow> ei_status i = ''active'' \<Longrightarrow>
     item_ok j \<and> ei_evidenceId j = ei_evidenceId i"
  by (induction rule: item_step.induct) (auto simp: item_ok_def held_def disposed_def)

lemma load_index_eq: "es_index st' = es_index st \<Longrightarrow> load_index H tenant st' = load_index H tenant st"
  by (simp add: load_index_def)

lemma find_fresh: "i \<notin> f ` set xs \<Longrightarrow> List.find (\<lambda>x. f x = i) xs = None"
  by (induction xs) auto

lemma replaced_inv:
  assumes "load_index H tenant st = Inr ix" "items_ok (ix_items ix)" "lookup ix eid = Some i"
    and "ei_status i = ''active''" "item_step env cmd who i j"
    and "es_index st' = Some (Envelope (index_aad tenant) ix')" "ix_chain H ix'" "ix_tenantId ix' = tenant"
    and "ix_items ix' = replace_item j (ix_items ix)"
  shows "load_index H tenant st' = Inr ix' \<and> items_ok (ix_items ix') \<and> ei_evidenceId j = eid
    \<and> lookup ix' k = (if k = eid then Some j else lookup ix k)"
proof -
  have "item_ok i" "ei_evidenceId i = eid"
    using items_ok_lookup [OF assms(2,3)] lookup_id [OF assms(3)] by auto
  then have j: "item_ok j" "ei_evidenceId j = eid" using item_step_ok assms(4,5) by metis+
  have "items_ok (ix_items ix')"
    unfolding assms(9) using items_ok_replace [OF assms(2) j(1)] .
  moreover have "load_index H tenant st' = Inr ix'" by (rule load_saved [OF assms(6-8)])
  moreover have "lookup ix' k = (if k = eid then Some j else lookup ix k)"
    using assms(3) j(2) unfolding lookup_def assms(9) by (simp add: find_replace)
  ultimately show ?thesis using j(2) by blast
qed

text \<open>One step and one item: it is still there, unchanged or moved by one item step.\<close>

lemma ev_step_item:
  assumes "ev_step H env tenant cmd st st'" and "load_index H tenant st = Inr ix" and "items_ok (ix_items ix)"
    and "fresh_for H env tenant cmd st"
  shows "\<exists>ix'. load_index H tenant st' = Inr ix' \<and> items_ok (ix_items ix') \<and>
    (\<forall>i x. lookup ix i = Some x \<longrightarrow> (\<exists>x'. lookup ix' i = Some x' \<and>
        (x' = x \<or> ei_status x = ''active'' \<and> (\<exists>who. item_step env cmd who x x'))))"
  using assms
proof (induction rule: ev_step.induct)
  case (ev_none st' st k cmd)
  have "load_index H tenant st' = Inr ix" using load_index_eq [OF ev_none(1)] ev_none(4) by simp
  then show ?case using ev_none(5) by blast
next
  case (ev_new st ix0 ix' st' eid item input)
  then have ld: "load_index H tenant st' = Inr ix'" by (simp add: new_index_def load_saved)
  have eq: "ix0 = ix" using ev_new by simp
  show ?case
  proof (intro exI [of _ ix'] conjI allI impI)
    show "load_index H tenant st' = Inr ix'" by (rule ld)
    show "\<exists>x'. lookup ix' i = Some x' \<and>
        (x' = x \<or> ei_status x = ''active'' \<and> (\<exists>who. item_step env (Ingest input) who x x'))"
      if "lookup ix i = Some x" for i x
      using that ev_new eq by (auto simp: lookup_def find_append)
    show "items_ok (ix_items ix')"
      using ev_new eq by (auto simp: items_ok_def fresh_for_def)
  qed
next
  case (ev_version st ix0 eid i rid input who j ix' st')
  then have eq: "ix0 = ix" by simp
  have "es_index st' = Some (Envelope (index_aad tenant) ix')" using ev_version by (simp add: new_index_def)
  from replaced_inv [OF ev_version(1) _ ev_version(2,3,4) this ev_version(6,7,8)]
  show ?case using ev_version eq by (intro exI [of _ ix']) auto
next
  case (ev_hold st ix0 eid i cmd who j rid input st' ix')
  then have eq: "ix0 = ix" by simp
  from replaced_inv [OF ev_hold(1) _ ev_hold(2,3,4,6,8,9,10)]
  show ?case using ev_hold eq by (intro exI [of _ ix']) auto
next
  case (ev_gone st ix0 eid i rid input refs who j st' ix')
  then have eq: "ix0 = ix" by simp
  from replaced_inv [OF ev_gone(1) _ ev_gone(2,3,4,5,7,8,9)]
  show ?case using ev_gone eq by (intro exI [of _ ix']) auto
qed


lemma run_ev_item:
  assumes "tenant_identifier tenantId = Inr tenant" and "fresh_for H env tenant cmd st"
    and "load_index H tenant st = Inr ix" and "items_ok (ix_items ix)" and "lookup ix i = Some x"
  obtains ix' x' where "load_index H tenant (fst (run_ev H dp cfg env cmd tenantId actor st)) = Inr ix'"
    and "lookup ix' i = Some x'" and "x' = x \<or> ei_status x = ''active'' \<and> (\<exists>who. item_step env cmd who x x')"
proof -
  have "well_stored H tenant st" using assms(3,4) by (simp add: well_stored_def)
  from ev_step_item [OF run_ev_refines [OF assms(1,2) this] assms(3,4,2)] assms(5) that
  show ?thesis by metis
qed

lemma ev_inv_step:
  assumes "ev_inv H tenant st" and "tenant_identifier tenantId = Inr tenant" and "fresh_for H env tenant cmd st"
  shows "ev_inv H tenant (fst (run_ev H dp cfg env cmd tenantId actor st))"
proof -
  obtain ix where "load_index H tenant st = Inr ix" "items_ok (ix_items ix)" using assms(1) by (auto simp: ev_inv_def)
  from ev_step_item [OF run_ev_refines [OF assms(2,3) ev_inv_well_stored [OF assms(1)]] this assms(3)]
  show ?thesis unfolding ev_inv_def by metis
qed

lemma ev_inv_start: "ev_inv H tenant no_evidence"
  by (simp add: ev_inv_def load_index_def no_evidence_def empty_index_def items_ok_def)

subsection \<open>The content files\<close>

definition contents_ok :: "(string \<Rightarrow> string) \<Rightarrow> string \<Rightarrow> ev_store \<Rightarrow> ev_index \<Rightarrow> bool" where
  "contents_ok H tenant st ix = list_all (\<lambda>i. ei_status i = ''active'' \<longrightarrow>
     list_all (\<lambda>v. ok (decrypt_content H tenant st i v)) (ei_versions i)) (ix_items ix)"

lemma contents_okI:
  "(\<And>i v. i \<in> set (ix_items ix) \<Longrightarrow> ei_status i = ''active'' \<Longrightarrow> v \<in> set (ei_versions i) \<Longrightarrow>
      ok (decrypt_content H tenant st i v)) \<Longrightarrow> contents_ok H tenant st ix"
  by (auto simp: contents_ok_def list_all_iff)

lemma contents_okD:
  "contents_ok H tenant st ix \<Longrightarrow> i \<in> set (ix_items ix) \<Longrightarrow> ei_status i = ''active'' \<Longrightarrow> v \<in> set (ei_versions i) \<Longrightarrow>
      ok (decrypt_content H tenant st i v)"
  by (auto simp: contents_ok_def list_all_iff)

lemma decrypt_other:
  "(\<And>k'. k' \<noteq> k \<Longrightarrow> es_content st' k' = es_content st k') \<Longrightarrow> (ei_evidenceId i, vn_version v) \<noteq> k \<Longrightarrow>
     decrypt_content H tenant st' i v = decrypt_content H tenant st i v"
  by (rule decrypt_cong) auto

lemma contents_other:
  assumes "contents_ok H tenant st ix" and "\<And>k'. k' \<noteq> k \<Longrightarrow> es_content st' k' = es_content st k'"
    and "k \<notin> stored_keys ix"
  shows "contents_ok H tenant st' ix"
proof (rule contents_okI)
  fix i v
  assume A: "i \<in> set (ix_items ix)" "ei_status i = ''active''" "v \<in> set (ei_versions i)"
  then have "(ei_evidenceId i, vn_version v) \<noteq> k" using assms(3) by (auto simp: stored_keys_def)
  then have "decrypt_content H tenant st' i v = decrypt_content H tenant st i v"
    using assms(2) by (intro decrypt_other)
  then show "ok (decrypt_content H tenant st' i v)" using contents_okD [OF assms(1) A] by simp
qed

lemma in_replaced:
  assumes "items_ok (ix_items ix)" "lookup ix eid = Some i" "ei_evidenceId j = eid" "x \<in> set (replace_item j (ix_items ix))"
  shows "x = j \<or> x \<in> set (ix_items ix) \<and> ei_evidenceId x \<noteq> eid"
proof -
  have "distinct (map ei_evidenceId (ix_items ix))" using assms(1) by (simp add: items_ok_def)
  moreover have "distinct (map ei_evidenceId xs) \<Longrightarrow> x \<in> set (replace_item j xs) \<Longrightarrow>
      x = j \<or> x \<in> set xs \<and> ei_evidenceId x \<noteq> ei_evidenceId j" for xs
    by (induction xs) (auto split: if_splits simp: image_iff)
  ultimately show ?thesis using assms(3,4) by metis
qed

text \<open>
  The index changed one item: the contents still decrypt when those of the other items are
  untouched and the changed item, if it is active, has its own contents.
\<close>

lemma contents_replaced:
  assumes "contents_ok H tenant st ix" "items_ok (ix_items ix)" "lookup ix eid = Some i" "ei_evidenceId j = eid"
    and "ix_items ix' = replace_item j (ix_items ix)"
    and "\<And>k. fst k \<noteq> eid \<Longrightarrow> es_content st' k = es_content st k"
    and "\<And>v. ei_status j = ''active'' \<Longrightarrow> v \<in> set (ei_versions j) \<Longrightarrow> ok (decrypt_content H tenant st' j v)"
  shows "contents_ok H tenant st' ix'"
proof (rule contents_okI)
  fix x v
  assume A: "x \<in> set (ix_items ix')" "ei_status x = ''active''" "v \<in> set (ei_versions x)"
  from in_replaced [OF assms(2-4)] A(1) assms(5)
  consider "x = j" | "x \<in> set (ix_items ix)" "ei_evidenceId x \<noteq> eid" by auto
  then show "ok (decrypt_content H tenant st' x v)"
  proof cases
    case 1
    then show ?thesis using A assms(7) by simp
  next
    case 2
    then have "decrypt_content H tenant st' x v = decrypt_content H tenant st x v"
      using assms(6) by (intro decrypt_cong) auto
    then show ?thesis using contents_okD [OF assms(1) 2(1) A(2,3)] by simp
  qed
qed

lemma version_step_versions:
  assumes "item_step env (AddVersion rid input) who i j"
  shows "\<exists>v. ei_versions j = ei_versions i @ [v] \<and> vn_version v = ei_currentVersion j
    \<and> ei_currentVersion j = ei_currentVersion i + 1 \<and> ei_evidenceId j = ei_evidenceId i"
  using assms by (rule item_step_versionE) auto

lemma contents_version:
  assumes "contents_ok H tenant st ix" "items_ok (ix_items ix)" "lookup ix eid = Some i" "ei_status i = ''active''"
    and "item_step env (AddVersion rid input) who i j" "ix_items ix' = replace_item j (ix_items ix)"
    and "new_index tenant ix' st st' (eid, ei_currentVersion j)"
    and "ok (decrypt_content H tenant st' j (last (ei_versions j)))"
  shows "contents_ok H tenant st' ix'"
proof -
  obtain v where v: "ei_versions j = ei_versions i @ [v]" "vn_version v = ei_currentVersion j"
    "ei_currentVersion j = ei_currentVersion i + 1" "ei_evidenceId j = ei_evidenceId i"
    using version_step_versions [OF assms(5)] by blast
  have i: "ei_evidenceId i = eid" "i \<in> set (ix_items ix)" using lookup_id [OF assms(3)] by auto
  have other: "k \<noteq> (eid, ei_currentVersion j) \<Longrightarrow> es_content st' k = es_content st k" for k
    using assms(7) unfolding new_index_def by blast
  show ?thesis
  proof (rule contents_replaced [OF assms(1-3) _ assms(6)])
    show "ei_evidenceId j = eid" using v i by simp
    show "es_content st' k = es_content st k" if "fst k \<noteq> eid" for k using that other by (cases k) auto
    show "ok (decrypt_content H tenant st' j w)" if "w \<in> set (ei_versions j)" for w
    proof (cases "w = v")
      case True
      then show ?thesis using v assms(8) by simp
    next
      case False
      then have w: "w \<in> set (ei_versions i)" using that v by simp
      then have "vn_version w \<in> set (map vn_version (ei_versions i))" by simp
      then have "vn_version w \<in> set [1..<Suc (ei_currentVersion i)]"
        using items_ok_lookup [OF assms(2,3)] by (simp only: item_ok_def)
      then have "(eid, vn_version w) \<noteq> (eid, ei_currentVersion j)" using v(3) by auto
      then have "decrypt_content H tenant st' j w = decrypt_content H tenant st i w"
        using other v i by (intro decrypt_cong) auto
      then show ?thesis using contents_okD [OF assms(1) i(2) assms(4) w] by simp
    qed
  qed
qed

lemma hold_step_same:
  assumes "item_step env cmd who i j" "cmd = PlaceHold rid input \<or> cmd = ReleaseHold rid input"
  shows "ei_versions j = ei_versions i \<and> ei_evidenceId j = ei_evidenceId i \<and> ei_status j = ei_status i"
  using assms by (cases rule: item_step.cases) auto

lemma dispose_step_status:
  assumes "item_step env (Dispose rid input refs) who i j"
  shows "ei_status j = ''disposed'' \<and> ei_evidenceId j = ei_evidenceId i"
  using assms by (rule item_step_disposeE) (auto simp: disposed_def)

lemma ev_step_contents:
  assumes "ev_step H env tenant cmd st st'" and "load_index H tenant st = Inr ix" and "items_ok (ix_items ix)"
    and "contents_ok H tenant st ix" and "\<not> torn env" and "fresh_for H env tenant cmd st"
  shows "\<exists>ix'. load_index H tenant st' = Inr ix' \<and> contents_ok H tenant st' ix'"
  using assms
proof (induction rule: ev_step.induct)
  case (ev_none st' st k cmd)
  have "load_index H tenant st' = Inr ix" using load_index_eq [OF ev_none(1)] ev_none(4) by simp
  moreover have "contents_ok H tenant st' ix"
    using contents_other [OF ev_none(6) ev_none(2)] ev_none(3,4) by blast
  ultimately show ?case by blast
next
  case (ev_new st ix0 ix' st' eid item input)
  have eq: "ix0 = ix" using ev_new(1,11) by simp
  have other: "\<And>k'. k' \<noteq> (eid, 1) \<Longrightarrow> es_content st' k' = es_content st k'" using ev_new(2) unfolding new_index_def by blast
  have fresh: "(eid, 1) \<notin> stored_keys ix"
    using ev_new(7,11,15) by (auto simp: fresh_for_def stored_keys_def)
  have "contents_ok H tenant st' ix" using contents_other [OF ev_new(13) other fresh] .
  moreover obtain v where "ei_versions item = [v]" "ok (decrypt_content H tenant st' item v)"
    using ev_new(10,14) by blast
  ultimately have "contents_ok H tenant st' ix'"
    using ev_new(5) eq by (simp add: contents_ok_def)
  moreover have "load_index H tenant st' = Inr ix'" using ev_new(2,3,4) by (simp add: new_index_def load_saved)
  ultimately show ?case by blast
next
  case (ev_version st ix0 eid i rid input who j ix' st')
  then have "ix0 = ix" by simp
  note c = contents_version [OF ev_version(12,11) ev_version(2)[unfolded this] ev_version(3,4) ev_version(8)[unfolded this]
      ev_version(5) ev_version(9)[OF ev_version(13)]]
  have "es_index st' = Some (Envelope (index_aad tenant) ix')" using ev_version(5) by (simp add: new_index_def)
  from load_saved [OF this ev_version(6,7)] c show ?case by blast
next
  case (ev_hold st ix0 eid i cmd who j rid input st' ix')
  then have eq: "ix0 = ix" by simp
  note same = hold_step_same [OF ev_hold(4,5)] and i = lookup_id [OF ev_hold(2)]
  have "contents_ok H tenant st' ix'"
  proof (rule contents_replaced [OF ev_hold(13,12) ev_hold(2)[unfolded eq] _ ev_hold(10)[unfolded eq]])
    show "ei_evidenceId j = eid" using same i by simp
    show "ok (decrypt_content H tenant st' j v)" if "v \<in> set (ei_versions j)" for v
    proof -
      have "decrypt_content H tenant st' j v = decrypt_content H tenant st i v"
        using ev_hold(7) same by (intro decrypt_cong) auto
      then show ?thesis using that same i eq contents_okD [OF ev_hold(13) _ ev_hold(3)] by metis
    qed
  qed (use ev_hold(7) in simp)
  with load_saved [OF ev_hold(6,8,9)] show ?case by blast
next
  case (ev_gone st ix0 eid i rid input refs who j st' ix')
  then have eq: "ix0 = ix" by simp
  note same = dispose_step_status [OF ev_gone(4)] and i = lookup_id [OF ev_gone(2)]
  have "contents_ok H tenant st' ix'"
    by (rule contents_replaced [OF ev_gone(12,11) ev_gone(2)[unfolded eq] _ ev_gone(9)[unfolded eq] ev_gone(6)])
      (use same i in auto)
  with load_saved [OF ev_gone(5,7,8)] show ?case by blast
qed

subsection \<open>Properties\<close>

lemma ev_reach_inv: "ev_reach H dp cfg tenant P st \<Longrightarrow> ev_inv H tenant st"
  by (induction rule: ev_reach.induct) (auto intro: ev_inv_start ev_inv_step)

lemma ev_reach_contents:
  assumes "ev_reach H dp cfg tenant P st" and "\<And>env. P env \<Longrightarrow> \<not> torn env"
  shows "\<exists>ix. load_index H tenant st = Inr ix \<and> contents_ok H tenant st ix"
  using assms(1)
proof (induction rule: ev_reach.induct)
  case er_start
  show ?case by (simp add: load_index_def no_evidence_def empty_index_def contents_ok_def)
next
  case (er_run st env tenantId cmd actor)
  have inv: "ev_inv H tenant st" by (rule ev_reach_inv) (rule er_run(1))
  then obtain ix where ix: "load_index H tenant st = Inr ix" "items_ok (ix_items ix)" by (auto simp: ev_inv_def)
  then have "contents_ok H tenant st ix" using er_run by simp
  from ev_step_contents [OF run_ev_refines [OF er_run(3,4) ev_inv_well_stored [OF inv]] ix this assms(2) [OF er_run(2)] er_run(4)]
  show ?case .
qed

text \<open>A small history: one upload of the two bytes \<open>hi\<close>.\<close>

definition demo_env :: ev_env where
  "demo_env = \<lparr>ee_now = 5, ee_lock = Acquired, ee_contentWrite = Committed, ee_indexWrite = Committed,
     ee_secondWrite = Committed, ee_cleanup = True, ee_purge = (\<lambda>_. True), ee_uuid = replicate 32 (CHR ''a''),
     ee_eventUuid = (\<lambda>_. ''e'')\<rparr>"

definition demo_cfg :: ev_config where
  "demo_cfg = \<lparr>ec_maxBytes = 10, ec_defaultDays = 1, ec_eventRetention = 5, ec_keyId = ''k''\<rparr>"

definition demo_upload :: jsval where
  "demo_upload = JObj [(''contentBase64'', JStr ''aGk=''), (''filename'', JStr ''a.txt'')]"

definition demo_store :: ev_store where
  "demo_store = fst (run_ev (\<lambda>s. ''h'') (\<lambda>_. None) demo_cfg demo_env (Ingest demo_upload) (JStr ''acme'') (JStr ''ann'') no_evidence)"

lemma demo_checks:
  "tenant_identifier (JStr ''acme'') = Inr ''acme''"
  "fresh_for (\<lambda>s. ''h'') demo_env ''acme'' (Ingest demo_upload) no_evidence"
  by code_simp+

lemma demo_reach: "(\<And>env. env = demo_env \<Longrightarrow> P env) \<Longrightarrow> ev_reach (\<lambda>s. ''h'') (\<lambda>_. None) demo_cfg ''acme'' P demo_store"
  unfolding demo_store_def by (rule er_run [OF er_start _ demo_checks]) simp

abbreviation demo_id :: string where
  "demo_id \<equiv> ''EVD-aaaaaaaaaaaaaaaaaaaaaaaaaaaaaaaa''"

lemma demo_item_checks:
  "case load_index (\<lambda>s. ''h'') ''acme'' demo_store of Inl _ \<Rightarrow> False
     | Inr ix \<Rightarrow> (case lookup ix demo_id of None \<Rightarrow> False
        | Some x \<Rightarrow> ei_status x = ''active'' \<and> \<not> held x \<and> ei_retentionUntil x = 86400005 \<and> length (ei_versions x) = 1)"
  by code_simp

lemma demo_item:
  obtains ix x where "load_index (\<lambda>s. ''h'') ''acme'' demo_store = Inr ix" "lookup ix demo_id = Some x"
    "ei_status x = ''active''" "\<not> held x" "length (ei_versions x) = 1"
  using demo_item_checks by (auto split: sum.splits option.splits)

text \<open>
  C9. Refinement: in every reachable store of a tenant, every command (upload, added version,
  placed or released hold, disposal) with any outcome of its lock, its file writes, its cleanup
  and its purges takes one of the abstract steps \<open>ev_step\<close>: the index is as before and at most an
  unreferenced content file changed; or one item was added, or one active item took an item step
  that its command allows, with the custody chain extended and no other item's files touched.
\<close>

theorem evidence_commands_refine:
  assumes "ev_reach H dp cfg tenant P st" and "tenant_identifier tenantId = Inr tenant"
    and "fresh_for H env tenant cmd st"
  shows "ev_step H env tenant cmd st (fst (run_ev H dp cfg env cmd tenantId actor st))"
  using assms(1) by (intro run_ev_refines assms(2,3) ev_inv_well_stored ev_reach_inv)

theorem evidence_commands_refine_witness:
  "ev_step (\<lambda>s. ''h'') demo_env ''acme'' (Ingest demo_upload) no_evidence demo_store"
  unfolding demo_store_def by (rule evidence_commands_refine [OF er_start demo_checks])

text \<open>
  Evidence stays verifiable: if no commit of the history was torn (the index replaced, its
  write reported as failed, the content then removed), \<open>verify\<close> of the whole tenant succeeds in
  every reachable store: the index decrypts, its custody chain is intact, and every version of
  every active item decrypts to the recorded digest and size.
\<close>

theorem untorn_evidence_verifies:
  assumes "ev_reach H dp cfg tenant (\<lambda>env. \<not> torn env) st" and "tenant_identifier tenantId = Inr tenant"
  shows "ok (ev_verify H tenantId JUndef st)"
proof -
  obtain ix where ix: "load_index H tenant st = Inr ix" "contents_ok H tenant st ix"
    using ev_reach_contents [OF assms(1)] by auto
  have "verify_chain H ix = Inr ()" using load_index_chain [OF ix(1)] by simp
  moreover have "\<exists>ys. mapR (\<lambda>(item, v). decrypt_content H tenant st item v)
      (concat (map (\<lambda>item. map (Pair item) (ei_versions item)) (filter (\<lambda>i. ei_status i = ''active'') (ix_items ix)))) = Inr ys"
    by (rule exE [OF mapR_ok]) (use contents_okD [OF ix(2)] in auto)
  ultimately show ?thesis using assms(2) ix(1) by (auto simp: ev_verify_def ok_def simp del: verify_chain_iff)
qed

theorem untorn_evidence_verifies_witness:
  "ok (ev_verify (\<lambda>s. ''h'') (JStr ''acme'') JUndef demo_store)"
  by (rule untorn_evidence_verifies [OF demo_reach demo_checks(1)]) (simp add: torn_def demo_env_def)

lemma item_step_life:
  assumes "item_step env cmd who x x'"
  shows "prefix (ei_versions x) (ei_versions x')
    \<and> (held x \<longrightarrow> (\<forall>eid input. cmd \<noteq> ReleaseHold eid input) \<longrightarrow>
        held x' \<and> ei_status x' = ei_status x \<and> ei_retentionUntil x \<le> ei_retentionUntil x')"
  using assms
proof (induction rule: item_step.induct)
  case (st_version input upload i v eid who)
  then show ?case by (auto simp: next_version_def held_def shortens_held_def)
qed (auto simp: held_def disposed_def)

text \<open>
  C23. The life of an evidence item: whatever command is run in a reachable store, an item found
  before is found after with its versions unchanged or extended; once disposed it never changes
  again (so a purge that failed stays pending for ever); and while a legal hold is active the
  item is not disposed and its retention date never moves back, unless the command releases a hold.
\<close>

theorem evidence_item_life:
  assumes "ev_reach H dp cfg tenant P st" and "tenant_identifier tenantId = Inr tenant"
    and "fresh_for H env tenant cmd st" and "load_index H tenant st = Inr ix" and "lookup ix i = Some x"
  shows "\<exists>ix' x'. load_index H tenant (fst (run_ev H dp cfg env cmd tenantId actor st)) = Inr ix' \<and> lookup ix' i = Some x'
    \<and> prefix (ei_versions x) (ei_versions x') \<and> (ei_status x = ''disposed'' \<longrightarrow> x' = x)
    \<and> (held x \<longrightarrow> (\<forall>eid input. cmd \<noteq> ReleaseHold eid input) \<longrightarrow>
        held x' \<and> ei_status x' = ei_status x \<and> ei_retentionUntil x \<le> ei_retentionUntil x')"
proof -
  have "items_ok (ix_items ix)" using ev_reach_inv [OF assms(1)] assms(4) by (auto simp: ev_inv_def)
  then obtain ix' x' where A: "load_index H tenant (fst (run_ev H dp cfg env cmd tenantId actor st)) = Inr ix'"
      "lookup ix' i = Some x'" and B: "x' = x \<or> ei_status x = ''active'' \<and> (\<exists>who. item_step env cmd who x x')"
    by (rule run_ev_item [OF assms(2,3,4) _ assms(5)])
  have "prefix (ei_versions x) (ei_versions x') \<and> (ei_status x = ''disposed'' \<longrightarrow> x' = x)
    \<and> (held x \<longrightarrow> (\<forall>eid input. cmd \<noteq> ReleaseHold eid input) \<longrightarrow>
        held x' \<and> ei_status x' = ei_status x \<and> ei_retentionUntil x \<le> ei_retentionUntil x')"
    using B by (auto dest: item_step_life)
  with A show ?thesis by blast
qed

theorem evidence_item_life_witness:
  "\<exists>ix x. load_index (\<lambda>s. ''h'') ''acme'' demo_store = Inr ix \<and> lookup ix demo_id = Some x \<and>
     (\<exists>ix' x'. load_index (\<lambda>s. ''h'') ''acme''
        (fst (run_ev (\<lambda>s. ''h'') (\<lambda>_. None) demo_cfg demo_env (AddVersion (JStr demo_id) demo_upload) (JStr ''acme'') (JStr ''bob'') demo_store))
        = Inr ix' \<and> lookup ix' demo_id = Some x' \<and> prefix (ei_versions x) (ei_versions x'))"
proof (rule demo_item)
  fix ix x
  assume A: "load_index (\<lambda>s. ''h'') ''acme'' demo_store = Inr ix" "lookup ix demo_id = Some x"
  have f: "fresh_for (\<lambda>s. ''h'') demo_env ''acme'' (AddVersion (JStr demo_id) demo_upload) demo_store"
    by (simp add: fresh_for_def)
  show ?thesis
    using evidence_item_life [OF demo_reach [of "\<lambda>_. True"] demo_checks(1) f A, of "JStr ''bob''"] A by blast
qed

lemma item_step_disposed:
  assumes "item_step env cmd who x x'" and "ei_status x = ''active''" and "ei_status x' = ''disposed''"
  shows "\<exists>eid input. cmd = Dispose eid input [] \<and> js_get input ''confirmation'' = JStr (''DISPOSE '' @ ei_evidenceId x)
    \<and> \<not> held x \<and> ei_retentionUntil x \<le> ee_now env \<and> ei_disposedAt x' = Some (ee_now env)"
  using assms by (cases rule: item_step.cases) (auto simp: disposed_def)

text \<open>
  C29. Disposal is authorised: when a command leaves an active item disposed, the command is a
  disposal, sent with the exact confirmation text for this item and no open references; the item
  was under no active legal hold, its retention date had passed, and the time and the state of
  the purge are recorded.
\<close>

theorem disposal_is_authorised:
  assumes "ev_reach H dp cfg tenant P st" and "tenant_identifier tenantId = Inr tenant"
    and "fresh_for H env tenant cmd st" and "load_index H tenant st = Inr ix" and "lookup ix i = Some x"
    and "ei_status x = ''active''"
    and "load_index H tenant (fst (run_ev H dp cfg env cmd tenantId actor st)) = Inr ix'" and "lookup ix' i = Some x'"
    and "ei_status x' = ''disposed''"
  shows "\<exists>eid input. cmd = Dispose eid input [] \<and> js_get input ''confirmation'' = JStr (''DISPOSE '' @ i)
    \<and> \<not> held x \<and> ei_retentionUntil x \<le> ee_now env \<and> ei_disposedAt x' = Some (ee_now env)"
proof -
  have "items_ok (ix_items ix)" using ev_reach_inv [OF assms(1)] assms(4) by (auto simp: ev_inv_def)
  then obtain who where "item_step env cmd who x x'"
    by (rule run_ev_item [OF assms(2,3,4) _ assms(5), where dp = dp and cfg = cfg and actor = actor]) (use assms in auto)
  from item_step_disposed [OF this assms(6,9)] lookup_id [OF assms(5)] show ?thesis by blast
qed

definition demo_disposal :: ev_command where
  "demo_disposal = Dispose (JStr demo_id)
     (JObj [(''confirmation'', JStr (''DISPOSE '' @ demo_id)), (''reason'', JStr ''no longer needed'')]) []"

lemma demo_disposal_checks:
  "case load_index (\<lambda>s. ''h'') ''acme'' (fst (run_ev (\<lambda>s. ''h'') (\<lambda>_. None) demo_cfg (demo_env\<lparr>ee_now := 86400005\<rparr>)
       demo_disposal (JStr ''acme'') (JStr ''bob'') demo_store)) of Inl _ \<Rightarrow> False
     | Inr ix \<Rightarrow> (case lookup ix demo_id of None \<Rightarrow> False | Some x \<Rightarrow> ei_status x = ''disposed'')"
  by code_simp

theorem disposal_is_authorised_witness:
  "\<exists>ix x ix' x'. load_index (\<lambda>s. ''h'') ''acme'' demo_store = Inr ix \<and> lookup ix demo_id = Some x
    \<and> load_index (\<lambda>s. ''h'') ''acme'' (fst (run_ev (\<lambda>s. ''h'') (\<lambda>_. None) demo_cfg (demo_env\<lparr>ee_now := 86400005\<rparr>)
         demo_disposal (JStr ''acme'') (JStr ''bob'') demo_store)) = Inr ix' \<and> lookup ix' demo_id = Some x'
    \<and> ei_retentionUntil x \<le> 86400005 \<and> \<not> held x \<and> ei_disposedAt x' = Some 86400005"
proof (rule demo_item)
  fix ix x
  assume A: "load_index (\<lambda>s. ''h'') ''acme'' demo_store = Inr ix" "lookup ix demo_id = Some x" "ei_status x = ''active''"
  obtain ix' x' where B: "load_index (\<lambda>s. ''h'') ''acme'' (fst (run_ev (\<lambda>s. ''h'') (\<lambda>_. None) demo_cfg
        (demo_env\<lparr>ee_now := 86400005\<rparr>) demo_disposal (JStr ''acme'') (JStr ''bob'') demo_store)) = Inr ix'"
      "lookup ix' demo_id = Some x'" "ei_status x' = ''disposed''"
    using demo_disposal_checks by (auto split: sum.splits option.splits)
  have f: "fresh_for (\<lambda>s. ''h'') (demo_env\<lparr>ee_now := 86400005\<rparr>) ''acme'' demo_disposal demo_store"
    by (simp add: fresh_for_def demo_disposal_def)
  show ?thesis
    using disposal_is_authorised [OF demo_reach [of "\<lambda>_. True"] demo_checks(1) f A(1,2,3) B] A B by auto
qed

text \<open>
  Round trip: the content that a successful upload stored is what \<open>readContent\<close> returns for
  the new item's current version: the very bytes whose base64 was sent, with their digest and size.
\<close>

theorem upload_read_back:
  assumes "ev_reach H dp cfg tenant P st" and "tenant_identifier tenantId = Inr tenant"
    and "fresh_for H env tenant (Ingest input) st" and "is_hex_text 32 (ee_uuid env)"
    and "run_ev H dp cfg env (Ingest input) tenantId actor st = (st', Inr p)"
    and "js_get input ''contentBase64'' = JStr (b64_encode bytes)"
  shows "\<exists>c. ev_read_content H tenantId (JStr (pi_evidenceId p)) JNull st' = Inr c \<and> ct_content c = bytes
    \<and> ct_sha256 c = H bytes \<and> ct_sizeBytes c = length bytes \<and> ct_version c = 1"
proof -
  obtain who upload where u: "normalise_upload H dp cfg (ee_now env) False input = Inr upload"
    and run: "ingest_locked H cfg env tenant who upload st = (st', Inr p)"
    using assms(2,5) by (auto simp: ev_ingest_def with_lock_def split: sum.splits lock_outcome.splits prod.splits)
  obtain ix where ix: "load_index H tenant st = Inr ix"
    using ev_reach_inv [OF assms(1)] by (auto simp: ev_inv_def)
  let ?eid = "''EVD-'' @ ee_uuid env" and ?v = "create_version 1 upload who (ee_now env) (ec_keyId cfg)"
  define item where "item = new_item tenant ?eid upload ?v who"
  obtain ix' where c: "commit_content env ''ingest'' tenant ?eid 1 upload ix' item st = (st', Inr p)"
    and ix': "ix_chain H ix'" "ix_tenantId ix' = tenant" "ix_items ix' = ix_items ix @ [item]"
    using run ix load_index_chain [OF ix] unfolding ingest_locked_def by (auto simp: Let_def item_def append_event_chain)
  note r = commit_content_Inr [OF c]
  have bytes: "up_content upload = bytes"
    using normalise_upload_Inr(4) [OF u] assms(6) by (simp add: strict_base64_encode split: if_splits)
  have "load_index H tenant st' = Inr ix'" using r ix' by (simp add: new_index_def load_saved)
  moreover have "?eid \<notin> ei_evidenceId ` set (ix_items ix)" using assms(3) ix by (simp add: fresh_for_def)
  then have "List.find (\<lambda>x. ei_evidenceId x = ?eid) (ix_items ix) = None" by (rule find_fresh)
  then have "find_item ix' ?eid = Inr item"
    using ix'(3) by (simp add: find_item_lookup lookup_def find_append item_def)
  moreover have "evidence_identifier (JStr ?eid) = Inr ?eid"
    using assms(4) by (simp add: evidence_identifier_def ev_text_def is_evidence_id_def starts_with_def)
  moreover have "decrypt_content H tenant st' item ?v = Inr (up_content upload)"
    using r normalise_upload_Inr(1,2) [OF u] by (intro decrypt_written) (auto simp: item_def)
  ultimately show ?thesis
    using assms(2) r bytes normalise_upload_Inr(2) [OF u]
    by (simp add: ev_read_content_def public_of_def item_def find_version_def create_version_def assert_active_def)
qed

lemma demo_run_result:
  "ok (snd (run_ev (\<lambda>s. ''h'') (\<lambda>_. None) demo_cfg demo_env (Ingest demo_upload) (JStr ''acme'') (JStr ''ann'') no_evidence))"
  "is_hex_text 32 (ee_uuid demo_env)" "js_get demo_upload ''contentBase64'' = JStr (b64_encode ''hi'')"
  by code_simp+

theorem upload_read_back_witness:
  "\<exists>p st' c. run_ev (\<lambda>s. ''h'') (\<lambda>_. None) demo_cfg demo_env (Ingest demo_upload) (JStr ''acme'') (JStr ''ann'') no_evidence = (st', Inr p)
     \<and> ev_read_content (\<lambda>s. ''h'') (JStr ''acme'') (JStr (pi_evidenceId p)) JNull st' = Inr c \<and> ct_content c = ''hi''"
proof -
  obtain st' p where r: "run_ev (\<lambda>s. ''h'') (\<lambda>_. None) demo_cfg demo_env (Ingest demo_upload) (JStr ''acme'') (JStr ''ann'') no_evidence = (st', Inr p)"
    using demo_run_result(1) by (cases "run_ev (\<lambda>s. ''h'') (\<lambda>_. None) demo_cfg demo_env (Ingest demo_upload) (JStr ''acme'') (JStr ''ann'') no_evidence")
      (auto simp: ok_def split: sum.splits)
  show ?thesis
    using upload_read_back [OF er_start [of "\<lambda>s. ''h''" "\<lambda>_. None" demo_cfg "''acme''" "\<lambda>_. True"] demo_checks(1,2) demo_run_result(2) r demo_run_result(3)] r by blast
qed

text \<open>
  A torn commit loses evidence: when the write of the index replaces the file and then throws
  (the directory sync after the rename fails), the upload is reported as a store failure and its
  content file is removed, but the index already lists the item: it is active, its custody event
  is recorded, and every read of it fails as missing content.
\<close>

theorem torn_commit_loses_content:
  assumes "ev_reach H dp cfg tenant P st" and "tenant_identifier tenantId = Inr tenant"
    and "fresh_for H env tenant (Ingest input) st" and "actor_identifier actor = Inr who"
    and "normalise_upload H dp cfg (ee_now env) False input = Inr upload"
    and "ee_lock env = Acquired" and "torn env"
    and "run_ev H dp cfg env (Ingest input) tenantId actor st = (st', res)"
  shows "res = Inl (StoreFailed ''ingest'') \<and> (\<exists>ix x v. load_index H tenant st' = Inr ix
    \<and> lookup ix (''EVD-'' @ ee_uuid env) = Some x \<and> ei_status x = ''active'' \<and> ei_versions x = [v]
    \<and> decrypt_content H tenant st' x v = Inl (Integrity ''missing''))"
proof -
  have run: "ingest_locked H cfg env tenant who upload st = (st', res)"
    using assms(2,4-6,8) by (simp add: ev_ingest_def)
  obtain ix where ix: "load_index H tenant st = Inr ix"
    using ev_reach_inv [OF assms(1)] by (auto simp: ev_inv_def)
  let ?eid = "''EVD-'' @ ee_uuid env" and ?v = "create_version 1 upload who (ee_now env) (ec_keyId cfg)"
  define item where "item = new_item tenant ?eid upload ?v who"
  obtain ix' where c: "commit_content env ''ingest'' tenant ?eid 1 upload ix' item st = (st', res)"
    and ix': "ix_chain H ix'" "ix_tenantId ix' = tenant" "ix_items ix' = ix_items ix @ [item]"
    using run ix load_index_chain [OF ix] unfolding ingest_locked_def by (auto simp: Let_def item_def append_event_chain)
  have st': "res = Inl (StoreFailed ''ingest'')" "es_index st' = Some (Envelope (index_aad tenant) ix')"
    "es_content st' (?eid, 1) = None"
    using c assms(7) by (auto simp: commit_content_def write_content_def save_index_def remove_content_def torn_def store_failure_def)
  have "?eid \<notin> ei_evidenceId ` set (ix_items ix)" using assms(3) ix by (simp add: fresh_for_def)
  then have "List.find (\<lambda>x. ei_evidenceId x = ?eid) (ix_items ix) = None" by (rule find_fresh)
  then have "lookup ix' ?eid = Some item" using ix'(3) by (simp add: lookup_def find_append item_def)
  moreover have "load_index H tenant st' = Inr ix'" using st' ix' by (simp add: load_saved)
  ultimately show ?thesis
    using st' by (intro conjI exI [of _ ix'] exI [of _ item] exI [of _ ?v]) (simp_all add: item_def decrypt_content_def)
qed

definition torn_env :: ev_env where
  "torn_env = demo_env\<lparr>ee_indexWrite := Unsynced\<rparr>"

lemma torn_checks:
  "fresh_for (\<lambda>s. ''h'') torn_env ''acme'' (Ingest demo_upload) no_evidence" "actor_identifier (JStr ''ann'') = Inr ''ann''"
  "ee_lock torn_env = Acquired" "torn torn_env"
  "ok (normalise_upload (\<lambda>s. ''h'') (\<lambda>_. None) demo_cfg (ee_now torn_env) False demo_upload)"
  by code_simp+

theorem torn_commit_loses_content_witness:
  "\<exists>st' ix x v. run_ev (\<lambda>s. ''h'') (\<lambda>_. None) demo_cfg torn_env (Ingest demo_upload) (JStr ''acme'') (JStr ''ann'') no_evidence
       = (st', Inl (StoreFailed ''ingest'')) \<and> load_index (\<lambda>s. ''h'') ''acme'' st' = Inr ix
     \<and> lookup ix (''EVD-'' @ ee_uuid torn_env) = Some x \<and> decrypt_content (\<lambda>s. ''h'') ''acme'' st' x v = Inl (Integrity ''missing'')"
proof -
  obtain upload where u: "normalise_upload (\<lambda>s. ''h'') (\<lambda>_. None) demo_cfg (ee_now torn_env) False demo_upload = Inr upload"
    using torn_checks(5) by (auto simp: ok_def split: sum.splits)
  obtain st' res where r: "run_ev (\<lambda>s. ''h'') (\<lambda>_. None) demo_cfg torn_env (Ingest demo_upload) (JStr ''acme'') (JStr ''ann'') no_evidence = (st', res)"
    by (rule prod.exhaust)
  show ?thesis
    using torn_commit_loses_content [OF er_start [of "\<lambda>s. ''h''" "\<lambda>_. None" demo_cfg "''acme''" "\<lambda>_. True"] demo_checks(1) torn_checks(1,2) u torn_checks(3,4) r] r by blast
qed

lemma decrypt_content_Inr:
  "decrypt_content H tenant st x v = Inr c \<Longrightarrow> H c = vn_sha256 v \<and> length c = vn_sizeBytes v"
  by (auto simp: decrypt_content_def Let_def)

text \<open>
  Only live evidence supports a finding: when \<open>assertUsableReferences\<close> accepts a list of
  references, each of them has the form of an evidence or placeholder identifier, and each
  evidence identifier among them names an active item of the tenant's index whose current
  version decrypts now to content with the recorded digest and size.
\<close>

theorem usable_references_are_live:
  assumes "assert_usable_references H tenantId references st = Inr ps" and "tenant_identifier tenantId = Inr tenant"
    and "r \<in> set (string_list references)"
  shows "is_placeholder_id r \<or> (\<exists>ix x v c. load_index H tenant st = Inr ix \<and> find_item ix r = Inr x \<and> ei_status x = ''active''
    \<and> find_version x (ei_currentVersion x) = Some v \<and> decrypt_content H tenant st x v = Inr c
    \<and> H c = vn_sha256 v \<and> length c = vn_sizeBytes v)"
proof (cases "is_evidence_id r")
  case False
  then show ?thesis using assms(1,3) by (auto simp: assert_usable_references_def Let_def list_all_iff)
next
  case True
  obtain ix where ix: "load_index H tenant st = Inr ix"
    and m: "mapR (usable_reference H tenant ix st) (filter is_evidence_id (string_list references)) = Inr ps"
    using assms(1,2) by (auto simp: assert_usable_references_def Let_def)
  obtain p where "usable_reference H tenant ix st r = Inr p" using mapR_mem [OF m, of r] True assms(3) by auto
  then obtain x v c where "find_item ix r = Inr x" "ei_status x = ''active''"
    "find_version x (ei_currentVersion x) = Some v" "decrypt_content H tenant st x v = Inr c"
    by (auto simp: usable_reference_def assert_active_def)
  then show ?thesis using ix decrypt_content_Inr by blast
qed

lemma demo_references:
  "ok (assert_usable_references (\<lambda>s. ''h'') (JStr ''acme'') (JArr [JStr demo_id]) demo_store)"
  "demo_id \<in> set (string_list (JArr [JStr demo_id]))" "\<not> is_placeholder_id demo_id"
  by code_simp+

theorem usable_references_are_live_witness:
  "\<exists>ix x v c. load_index (\<lambda>s. ''h'') ''acme'' demo_store = Inr ix \<and> find_item ix demo_id = Inr x \<and> ei_status x = ''active''
     \<and> decrypt_content (\<lambda>s. ''h'') ''acme'' demo_store x v = Inr c"
proof -
  obtain ps where "assert_usable_references (\<lambda>s. ''h'') (JStr ''acme'') (JArr [JStr demo_id]) demo_store = Inr ps"
    using demo_references(1) by (auto simp: ok_def split: sum.splits)
  from usable_references_are_live [OF this demo_checks(1) demo_references(2)] demo_references(3) show ?thesis by blast
qed

end
