(* ===== verification/FileMutex.thy ===== *)
theory FileMutex
  imports JsCore
begin

section \<open>The lock directory shared by processes (src/security/fileMutex.js)\<close>

text \<open>
  \<open>acquire\<close>, \<open>withLock\<close> and the handle, for one resource, as the interleaving of the processes'
  file-system calls: every step of a process is one call (with the computation up to the next
  one). The lock is a directory at one path, holding at most the file \<open>owner.json\<close>. Clocks and
  the directory's time stamp are one clock in milliseconds; the token drawn by an attempt is
  new. A step may instead fail with an error other than \<open>EEXIST\<close> and \<open>ENOENT\<close>, and a process may
  stop for ever. One process number stands for one call of \<open>withLock\<close>.
\<close>

subsection \<open>State\<close>

record mutex_owner =
  mo_token :: nat
  mo_expiresAt :: int

record lock_dir =
  ld_owner :: "mutex_owner option"
  ld_mtime :: int

datatype lock_result = Finished | Threw | Busy | Unavailable | Lost

datatype mutex_pc =
    Idle
  | Trying int
  | Made nat int int
  | Inspecting int
  | Statting int
  | Quarantining int
  | Holding mutex_owner
  | Critical mutex_owner
  | Releasing mutex_owner lock_result
  | Removing mutex_owner lock_result
  | Returned lock_result
  | Dead

record mutex_config =
  mc_leaseMs :: int
  mc_timeoutMs :: int

datatype mutex_event = Entered nat | Left nat

record mutex_state =
  ms_dir :: "lock_dir option"
  ms_clock :: int
  ms_next :: nat
  ms_pc :: "nat \<Rightarrow> mutex_pc"
  ms_log :: "mutex_event list"

definition fresh_mutex :: mutex_state where
  "fresh_mutex = \<lparr>ms_dir = None, ms_clock = 0, ms_next = 0, ms_pc = (\<lambda>_. Idle), ms_log = []\<rparr>"

datatype mutex_action = Tick nat | Go nat | Fault nat | Crash nat | Abort nat

subsection \<open>The calls of one process\<close>

definition goto :: "nat \<Rightarrow> mutex_pc \<Rightarrow> mutex_state \<Rightarrow> mutex_state" where
  "goto p pc s = s\<lparr>ms_pc := (ms_pc s)(p := pc)\<rparr>"

text \<open>\<open>assertOwned\<close>: the owner file carries the handle's token and has not expired.\<close>

definition owned :: "mutex_owner \<Rightarrow> mutex_state \<Rightarrow> bool" where
  "owned me s = (case ms_dir s of None \<Rightarrow> False
     | Some d \<Rightarrow> (case ld_owner d of None \<Rightarrow> False
        | Some other \<Rightarrow> mo_token other = mo_token me \<and> \<not> mo_expiresAt other \<le> ms_clock s))"

definition has_token :: "mutex_owner \<Rightarrow> mutex_state \<Rightarrow> bool" where
  "has_token me s = (case ms_dir s of None \<Rightarrow> False
     | Some d \<Rightarrow> (case ld_owner d of None \<Rightarrow> False | Some other \<Rightarrow> mo_token other = mo_token me))"

text \<open>What the loop does with the observation \<open>stale\<close>: quarantine and retry, give up, or sleep and retry.\<close>

definition observed :: "bool \<Rightarrow> int \<Rightarrow> mutex_state \<Rightarrow> mutex_pc" where
  "observed stale deadline s = (if stale then Quarantining deadline
     else if deadline \<le> ms_clock s then Returned Busy else Trying deadline)"

definition make_directory :: "nat \<Rightarrow> int \<Rightarrow> mutex_state \<Rightarrow> mutex_state" where
  "make_directory p deadline s = (case ms_dir s of
     None \<Rightarrow> goto p (Made (ms_next s) (ms_clock s) deadline)
       (s\<lparr>ms_dir := Some \<lparr>ld_owner = None, ld_mtime = ms_clock s\<rparr>, ms_next := Suc (ms_next s)\<rparr>)
   | Some _ \<Rightarrow> goto p (Inspecting deadline) (s\<lparr>ms_next := Suc (ms_next s)\<rparr>))"

text \<open>
  Writing \<open>owner.json\<close> with the flag \<open>wx\<close>: without the directory it fails, and the attempt with
  it; when a file is there it fails as if the directory had existed.
\<close>

definition write_owner :: "mutex_config \<Rightarrow> nat \<Rightarrow> nat \<Rightarrow> int \<Rightarrow> int \<Rightarrow> mutex_state \<Rightarrow> mutex_state" where
  "write_owner cfg p token current deadline s = (case ms_dir s of
     None \<Rightarrow> goto p (Returned Unavailable) s
   | Some d \<Rightarrow> (case ld_owner d of
       Some _ \<Rightarrow> goto p (Inspecting deadline) s
     | None \<Rightarrow>
        (let me = \<lparr>mo_token = token, mo_expiresAt = current + mc_leaseMs cfg\<rparr>
         in goto p (Holding me) (s\<lparr>ms_dir := Some \<lparr>ld_owner = Some me, ld_mtime = ms_clock s\<rparr>\<rparr>))))"

definition inspect_owner :: "nat \<Rightarrow> int \<Rightarrow> mutex_state \<Rightarrow> mutex_state" where
  "inspect_owner p deadline s = (case ms_dir s of
     None \<Rightarrow> goto p (Statting deadline) s
   | Some d \<Rightarrow> (case ld_owner d of
       None \<Rightarrow> goto p (Statting deadline) s
     | Some other \<Rightarrow> goto p (observed (mo_expiresAt other - ms_clock s \<le> 0) deadline s) s))"

definition inspect_directory :: "mutex_config \<Rightarrow> nat \<Rightarrow> int \<Rightarrow> mutex_state \<Rightarrow> mutex_state" where
  "inspect_directory cfg p deadline s = goto p
     (observed (case ms_dir s of None \<Rightarrow> True | Some d \<Rightarrow> ms_clock s - ld_mtime d \<ge> mc_leaseMs cfg) deadline s) s"

text \<open>\<open>quarantine\<close>: rename whatever directory is at the path out of the way, if there is one.\<close>

definition quarantine :: "nat \<Rightarrow> int \<Rightarrow> mutex_state \<Rightarrow> mutex_state" where
  "quarantine p deadline s = goto p (Trying deadline) (s\<lparr>ms_dir := None\<rparr>)"

text \<open>\<open>release\<close>: read the owner file; with the own token in it, remove the directory (the next call).\<close>

definition release_read :: "nat \<Rightarrow> mutex_owner \<Rightarrow> lock_result \<Rightarrow> mutex_state \<Rightarrow> mutex_state" where
  "release_read p me r s = (if has_token me s then goto p (Removing me r) s else goto p (Returned r) s)"

definition release_remove :: "nat \<Rightarrow> lock_result \<Rightarrow> mutex_state \<Rightarrow> mutex_state" where
  "release_remove p r s = goto p (Returned r) (s\<lparr>ms_dir := None\<rparr>)"

text \<open>
  \<open>withLock\<close>: after the first check the operation runs, and its end comes with the second check.
\<close>

definition mutex_go :: "mutex_config \<Rightarrow> nat \<Rightarrow> mutex_state \<Rightarrow> mutex_state" where
  "mutex_go cfg p s = (case ms_pc s p of
     Idle \<Rightarrow> goto p (Trying (ms_clock s + mc_timeoutMs cfg)) s
   | Trying deadline \<Rightarrow> make_directory p deadline s
   | Made token current deadline \<Rightarrow> write_owner cfg p token current deadline s
   | Inspecting deadline \<Rightarrow> inspect_owner p deadline s
   | Statting deadline \<Rightarrow> inspect_directory cfg p deadline s
   | Quarantining deadline \<Rightarrow> quarantine p deadline s
   | Holding me \<Rightarrow> (if owned me s then goto p (Critical me) (s\<lparr>ms_log := ms_log s @ [Entered p]\<rparr>)
       else goto p (Releasing me Lost) s)
   | Critical me \<Rightarrow> (if owned me s then goto p (Releasing me Finished) (s\<lparr>ms_log := ms_log s @ [Left p]\<rparr>)
       else goto p (Releasing me Lost) s)
   | Releasing me r \<Rightarrow> release_read p me r s
   | Removing me r \<Rightarrow> release_remove p r s
   | Returned r \<Rightarrow> s
   | Dead \<Rightarrow> s)"

text \<open>A call that fails otherwise; an unreadable owner file counts as no owner.\<close>

definition mutex_fault :: "nat \<Rightarrow> mutex_state \<Rightarrow> mutex_state" where
  "mutex_fault p s = (case ms_pc s p of
     Trying deadline \<Rightarrow> goto p (Returned Unavailable) s
   | Made token current deadline \<Rightarrow> goto p (Returned Unavailable) s
   | Inspecting deadline \<Rightarrow> goto p (Statting deadline) s
   | Statting deadline \<Rightarrow> goto p (observed True deadline s) s
   | Quarantining deadline \<Rightarrow> goto p (Returned Unavailable) s
   | Holding me \<Rightarrow> goto p (Releasing me Lost) s
   | Critical me \<Rightarrow> goto p (Releasing me Lost) s
   | Releasing me r \<Rightarrow> goto p (Returned r) s
   | Removing me r \<Rightarrow> goto p (Returned Threw) s
   | _ \<Rightarrow> s)"

fun mutex_step :: "mutex_config \<Rightarrow> mutex_action \<Rightarrow> mutex_state \<Rightarrow> mutex_state" where
  "mutex_step cfg (Tick n) s = s\<lparr>ms_clock := ms_clock s + int n\<rparr>"
| "mutex_step cfg (Go p) s = mutex_go cfg p s"
| "mutex_step cfg (Fault p) s = mutex_fault p s"
| "mutex_step cfg (Crash p) s = goto p Dead s"
| "mutex_step cfg (Abort p) s = (case ms_pc s p of Critical me \<Rightarrow> goto p (Releasing me Threw) s | _ \<Rightarrow> s)"

fun mutex_run :: "mutex_config \<Rightarrow> mutex_action list \<Rightarrow> mutex_state \<Rightarrow> mutex_state" where
  "mutex_run cfg [] s = s"
| "mutex_run cfg (a # as) s = mutex_run cfg as (mutex_step cfg a s)"

subsection \<open>Tokens\<close>

fun pc_token :: "mutex_pc \<Rightarrow> nat option" where
  "pc_token (Made t current deadline) = Some t"
| "pc_token (Holding me) = Some (mo_token me)"
| "pc_token (Critical me) = Some (mo_token me)"
| "pc_token (Releasing me r) = Some (mo_token me)"
| "pc_token (Removing me r) = Some (mo_token me)"
| "pc_token _ = None"

text \<open>The tokens the processes hold are distinct and drawn before.\<close>

definition tokens_ok :: "mutex_state \<Rightarrow> bool" where
  "tokens_ok s = ((\<forall>p t. pc_token (ms_pc s p) = Some t \<longrightarrow> t < ms_next s)
     \<and> (\<forall>p q t. pc_token (ms_pc s p) = Some t \<longrightarrow> pc_token (ms_pc s q) = Some t \<longrightarrow> p = q))"

lemma goto_simps [simp]:
  "ms_dir (goto p pc s) = ms_dir s" "ms_clock (goto p pc s) = ms_clock s" "ms_next (goto p pc s) = ms_next s"
  "ms_log (goto p pc s) = ms_log s" "ms_pc (goto p pc s) = (ms_pc s)(p := pc)"
  by (simp_all add: goto_def)

lemma observed_token [simp]: "pc_token (observed b d s) = None"
  by (simp add: observed_def)

text \<open>What one step does to the tokens: its process keeps its own, drops it, or draws the next one.\<close>

definition token_step :: "nat \<Rightarrow> mutex_state \<Rightarrow> mutex_state \<Rightarrow> bool" where
  "token_step p s s' = ((\<forall>q. q \<noteq> p \<longrightarrow> ms_pc s' q = ms_pc s q) \<and> ms_next s \<le> ms_next s'
     \<and> (pc_token (ms_pc s' p) = None \<or> pc_token (ms_pc s' p) = pc_token (ms_pc s p)
        \<or> pc_token (ms_pc s' p) = Some (ms_next s) \<and> ms_next s' = Suc (ms_next s)))"

lemma token_step_ok:
  assumes "token_step p s s'" and "tokens_ok s"
  shows "tokens_ok s'"
proof -
  have old: "pc_token (ms_pc s' q) = Some t \<Longrightarrow> pc_token (ms_pc s q) = Some t \<and> t < ms_next s
      \<or> q = p \<and> t = ms_next s \<and> ms_next s' = Suc (ms_next s)" for q t
    using assms by (cases "q = p") (auto simp: token_step_def tokens_ok_def)
  moreover have "ms_next s \<le> ms_next s'" using assms(1) by (simp add: token_step_def)
  ultimately show ?thesis
    using assms(2) unfolding tokens_ok_def by (metis less_irrefl_nat less_le_trans lessI)
qed

lemmas mutex_defs = mutex_go_def mutex_fault_def quarantine_def release_read_def release_remove_def make_directory_def write_owner_def inspect_owner_def inspect_directory_def

lemma mutex_go_token: "token_step p s (mutex_go cfg p s)"
  by (cases "ms_pc s p")
    (auto simp: token_step_def mutex_defs Let_def split: option.splits)

lemma mutex_fault_token: "token_step p s (mutex_fault p s)"
  by (cases "ms_pc s p") (auto simp: token_step_def mutex_defs)

lemma tokens_ok_step: "tokens_ok s \<Longrightarrow> tokens_ok (mutex_step cfg a s)"
proof (cases a)
  case (Tick n)
  then show "tokens_ok s \<Longrightarrow> ?thesis" by (simp add: tokens_ok_def)
next
  case (Go p)
  then show "tokens_ok s \<Longrightarrow> ?thesis" using token_step_ok [OF mutex_go_token] by simp
next
  case (Fault p)
  then show "tokens_ok s \<Longrightarrow> ?thesis" using token_step_ok [OF mutex_fault_token] by simp
next
  case (Crash p)
  have "token_step p s (goto p Dead s)" by (simp add: token_step_def)
  then show "tokens_ok s \<Longrightarrow> ?thesis" using Crash token_step_ok by simp
next
  case (Abort p)
  have "token_step p s (mutex_step cfg (Abort p) s)" by (cases "ms_pc s p") (simp_all add: token_step_def)
  then show "tokens_ok s \<Longrightarrow> ?thesis" using Abort token_step_ok by simp
qed

subsection \<open>Successful sections do not overlap\<close>

text \<open>Every exit that reports success is the exit of the process that entered last.\<close>

fun serial_from :: "nat option \<Rightarrow> mutex_event list \<Rightarrow> bool" where
  "serial_from current [] = True"
| "serial_from current (Entered p # l) = serial_from (Some p) l"
| "serial_from current (Left p # l) = (current = Some p \<and> serial_from current l)"

fun last_entered :: "nat option \<Rightarrow> mutex_event list \<Rightarrow> nat option" where
  "last_entered current [] = current"
| "last_entered current (Entered p # l) = last_entered (Some p) l"
| "last_entered current (Left p # l) = last_entered current l"

lemma serial_append [simp]:
  "serial_from c (l @ [Entered p]) = serial_from c l"
  "serial_from c (l @ [Left p]) = (serial_from c l \<and> last_entered c l = Some p)"
  "last_entered c (l @ [Entered p]) = Some p" "last_entered c (l @ [Left p]) = last_entered c l"
  by (induction c l rule: last_entered.induct) auto

definition serial_inv :: "mutex_state \<Rightarrow> bool" where
  "serial_inv s = (tokens_ok s \<and> serial_from None (ms_log s)
     \<and> (\<forall>p me. ms_pc s p = Critical me \<longrightarrow> has_token me s \<longrightarrow> last_entered None (ms_log s) = Some p))"

lemma owned_token: "owned me s \<Longrightarrow> has_token me s"
  by (auto simp: owned_def has_token_def split: option.splits)

text \<open>A step that leaves the log alone and writes no other process's token keeps the invariant.\<close>

lemma serial_inv_keep:
  assumes "serial_inv s" and "tokens_ok s'" and "ms_log s' = ms_log s"
    and "\<And>q me. ms_pc s' q = Critical me \<Longrightarrow> ms_pc s q = Critical me"
    and "\<And>q me. ms_pc s q = Critical me \<Longrightarrow> has_token me s' \<Longrightarrow> has_token me s"
  shows "serial_inv s'"
  using assms unfolding serial_inv_def by metis

lemma has_token_dir: "ms_dir s' = ms_dir s \<Longrightarrow> has_token me s' = has_token me s"
  by (simp add: has_token_def)

lemma has_token_none: "ms_dir s' = None \<Longrightarrow> \<not> has_token me s'"
  by (simp add: has_token_def)

lemma serial_inv_same_dir:
  assumes "serial_inv s" and "tokens_ok s'" and "ms_log s' = ms_log s" and "ms_dir s' = ms_dir s \<or> ms_dir s' = None"
    and "ms_pc s' = (ms_pc s)(p := pc)" and "\<And>me. pc \<noteq> Critical me"
  shows "serial_inv s'"
proof (rule serial_inv_keep [OF assms(1-3)])
  show "ms_pc s q = Critical me" if "ms_pc s' q = Critical me" for q me
    using that assms(5,6) by (cases "q = p") simp_all
  show "has_token me s" if "has_token me s'" for me
    using that assms(4) has_token_dir has_token_none by metis
qed

lemma serial_inv_enter:
  assumes "serial_inv s" "ms_pc s p = Holding me" "owned me s"
    and t: "tokens_ok (goto p (Critical me) (s\<lparr>ms_log := ms_log s @ [Entered p]\<rparr>))"
  shows "serial_inv (goto p (Critical me) (s\<lparr>ms_log := ms_log s @ [Entered p]\<rparr>))"
proof -
  have "q = p" if q: "ms_pc s q = Critical other" "has_token other s" for q other
  proof -
    have "mo_token other = mo_token me"
      using q(2) owned_token [OF assms(3)] by (auto simp: has_token_def split: option.splits)
    then show ?thesis using assms(1,2) q(1) unfolding serial_inv_def tokens_ok_def by (metis pc_token.simps(2,3))
  qed
  then show ?thesis
    using assms(1) t unfolding serial_inv_def by (auto simp: has_token_def)
qed

lemma serial_inv_leave:
  assumes "serial_inv s" "ms_pc s p = Critical me" "owned me s"
    and t: "tokens_ok (goto p (Releasing me Finished) (s\<lparr>ms_log := ms_log s @ [Left p]\<rparr>))"
  shows "serial_inv (goto p (Releasing me Finished) (s\<lparr>ms_log := ms_log s @ [Left p]\<rparr>))"
proof -
  have "last_entered None (ms_log s) = Some p"
    using assms(1,2) owned_token [OF assms(3)] by (simp add: serial_inv_def)
  then show ?thesis
    using assms(1) t unfolding serial_inv_def by (auto simp: has_token_def)
qed

lemma serial_inv_write:
  assumes "serial_inv s" "ms_pc s p = Made t current deadline" "tokens_ok (write_owner cfg p t current deadline s)"
  shows "serial_inv (write_owner cfg p t current deadline s)"
proof (cases "\<exists>d. ms_dir s = Some d \<and> ld_owner d = None")
  case False
  then show ?thesis
    using assms(3) by (auto simp: write_owner_def split: option.splits intro!: serial_inv_same_dir [OF assms(1)])
next
  case True
  then obtain d where d: "ms_dir s = Some d" "ld_owner d = None" by blast
  show ?thesis
  proof (rule serial_inv_keep [OF assms(1,3)])
    fix q me assume q: "ms_pc s q = Critical me" "has_token me (write_owner cfg p t current deadline s)"
    then have "mo_token me = t" using d by (auto simp: write_owner_def has_token_def Let_def)
    then have "q = p" using assms(1,2) q(1) unfolding serial_inv_def tokens_ok_def by (metis pc_token.simps(1,3))
    then show "has_token me s" using q(1) assms(2) by simp
  qed (use d in \<open>auto simp: write_owner_def Let_def split: if_splits\<close>)
qed

lemma observed_not_critical [simp]: "observed b d s \<noteq> Critical me"
  by (simp add: observed_def)

lemma serial_inv_step: "serial_inv s \<Longrightarrow> serial_inv (mutex_step cfg a s)"
proof -
  assume inv: "serial_inv s"
  then have t: "tokens_ok (mutex_step cfg a s)" using tokens_ok_step by (simp add: serial_inv_def)
  note keep = serial_inv_same_dir [OF inv]
  show ?thesis
  proof (cases a)
    case (Tick n)
    then show ?thesis using t by (intro serial_inv_keep [OF inv]) (auto simp: has_token_def)
  next
    case (Crash p)
    then show ?thesis using t by (intro keep) auto
  next
    case (Abort p)
    then show ?thesis using t inv by (cases "ms_pc s p") (auto intro!: keep)
  next
    case (Fault p)
    then show ?thesis using t inv by (cases "ms_pc s p") (auto simp: mutex_fault_def intro!: keep)
  next
    case (Go p)
    show ?thesis
    proof (cases "ms_pc s p")
      case (Made token current deadline)
      then show ?thesis using serial_inv_write [OF inv] t Go by (simp add: mutex_go_def)
    next
      case (Holding me)
      then show ?thesis using serial_inv_enter [OF inv Holding] t Go
        by (cases "owned me s") (simp add: mutex_go_def, auto simp: mutex_go_def intro!: keep)
    next
      case (Critical me)
      then show ?thesis using serial_inv_leave [OF inv Critical] t Go
        by (cases "owned me s") (simp add: mutex_go_def, auto simp: mutex_go_def intro!: keep)
    next
      case (Trying deadline)
      show ?thesis
      proof (cases "ms_dir s")
        case None
        show ?thesis
          using t None Go Trying by (intro serial_inv_keep [OF inv])
            (auto simp: mutex_go_def make_directory_def has_token_def split: if_splits)
      next
        case (Some d)
        then show ?thesis using t Go Trying by (auto simp: mutex_go_def make_directory_def intro!: keep)
      qed
    qed (use t inv Go in \<open>auto simp: mutex_defs split: option.splits intro!: keep\<close>)
  qed
qed

lemma serial_inv_run: "serial_inv s \<Longrightarrow> serial_inv (mutex_run cfg as s)"
  by (induction as arbitrary: s) (auto intro: serial_inv_step)

lemma serial_inv_fresh: "serial_inv fresh_mutex"
  by (simp add: serial_inv_def fresh_mutex_def tokens_ok_def)

subsection \<open>Mutual exclusion while takeovers are honest\<close>

text \<open>
  A process is in its section from the creation of the directory to its removal. A takeover is
  honest when no process is in its section at the moment the directory is renamed away.
\<close>

definition in_section :: "nat \<Rightarrow> mutex_state \<Rightarrow> bool" where
  "in_section p s = (pc_token (ms_pc s p) \<noteq> None)"

definition honest_action :: "mutex_action \<Rightarrow> mutex_state \<Rightarrow> bool" where
  "honest_action a s = (case a of Go p \<Rightarrow> (case ms_pc s p of
       Quarantining _ \<Rightarrow> ms_dir s = None \<or> (\<forall>q. \<not> in_section q s) | _ \<Rightarrow> True) | _ \<Rightarrow> True)"

fun honest :: "mutex_config \<Rightarrow> mutex_action list \<Rightarrow> mutex_state \<Rightarrow> bool" where
  "honest cfg [] s = True"
| "honest cfg (a # as) s = (honest_action a s \<and> honest cfg as (mutex_step cfg a s))"

text \<open>One process at most is in its section, and then the directory is its own.\<close>

definition own_directory :: "mutex_pc \<Rightarrow> mutex_state \<Rightarrow> bool" where
  "own_directory pc s = (case pc of
     Made t current deadline \<Rightarrow> (\<exists>d. ms_dir s = Some d \<and> ld_owner d = None)
   | Holding me \<Rightarrow> has_token me s | Critical me \<Rightarrow> has_token me s
   | Releasing me r \<Rightarrow> has_token me s | Removing me r \<Rightarrow> has_token me s
   | _ \<Rightarrow> True)"

definition exclusive :: "mutex_state \<Rightarrow> bool" where
  "exclusive s = ((\<forall>p q. in_section p s \<longrightarrow> in_section q s \<longrightarrow> p = q) \<and> (\<forall>p. own_directory (ms_pc s p) s))"

lemma no_section_own: "pc_token pc = None \<Longrightarrow> own_directory pc s"
  by (cases pc) (simp_all add: own_directory_def)

lemma own_directory_dir: "ms_dir s' = ms_dir s \<Longrightarrow> own_directory pc s' = own_directory pc s"
  by (cases pc) (simp_all add: own_directory_def has_token_def)

lemma exclusive_one:
  assumes "\<And>q. q \<noteq> p \<Longrightarrow> \<not> in_section q s" and "\<And>q. q \<noteq> p \<Longrightarrow> ms_pc s' q = ms_pc s q"
    and "own_directory (ms_pc s' p) s'"
  shows "exclusive s'"
proof -
  have "q \<noteq> p \<Longrightarrow> pc_token (ms_pc s' q) = None" for q using assms(1,2) [of q] by (simp add: in_section_def)
  then show ?thesis using assms(3) no_section_own unfolding exclusive_def in_section_def by metis
qed

lemma exclusive_alone: "exclusive s \<Longrightarrow> in_section p s \<Longrightarrow> q \<noteq> p \<Longrightarrow> \<not> in_section q s"
  by (auto simp: exclusive_def)

lemma exclusive_empty: "exclusive s \<Longrightarrow> ms_dir s = None \<Longrightarrow> \<not> in_section q s"
  unfolding exclusive_def in_section_def
  by (cases "ms_pc s q") (auto simp: own_directory_def has_token_def dest: spec [of _ q])

lemma exclusive_other:
  assumes "exclusive s" and "ms_dir s' = ms_dir s \<or> (\<forall>q. \<not> in_section q s)" and "\<And>q. q \<noteq> p \<Longrightarrow> ms_pc s' q = ms_pc s q"
    and "pc_token (ms_pc s' p) = None"
  shows "exclusive s'"
proof -
  have "own_directory (ms_pc s' q) s'" for q
  proof (cases "q = p \<or> \<not> in_section q s")
    case True
    then show ?thesis using no_section_own assms(3,4) by (metis in_section_def)
  next
    case False
    then have "own_directory (ms_pc s q) s" "ms_dir s' = ms_dir s"
      using assms(1,2) by (auto simp: exclusive_def)
    then show ?thesis using assms(3) [of q] False
      by (cases "ms_pc s q") (simp_all add: own_directory_def has_token_def)
  qed
  moreover have "in_section q s' \<Longrightarrow> q \<noteq> p \<and> in_section q s" for q
    using assms(3) [of q] assms(4) by (cases "q = p") (simp_all add: in_section_def)
  ultimately show ?thesis using assms(1) unfolding exclusive_def by metis
qed

lemma exclusive_go:
  assumes "exclusive s" and "\<And>d. ms_pc s p = Quarantining d \<Longrightarrow> ms_dir s = None \<or> (\<forall>q. \<not> in_section q s)"
  shows "exclusive (mutex_go cfg p s)"
proof -
  have others: "q \<noteq> p \<Longrightarrow> ms_pc (mutex_go cfg p s) q = ms_pc s q" for q
    using mutex_go_token [of p s cfg] by (simp add: token_step_def)
  have own: "own_directory (ms_pc s p) s" using assms(1) by (simp add: exclusive_def)
  have one: "(\<And>q. q \<noteq> p \<Longrightarrow> \<not> in_section q s) \<Longrightarrow>
      own_directory (ms_pc (mutex_go cfg p s) p) (mutex_go cfg p s) \<Longrightarrow> ?thesis"
    using exclusive_one [of p s] others by blast
  have other: "ms_dir (mutex_go cfg p s) = ms_dir s \<or> (\<forall>q. \<not> in_section q s) \<Longrightarrow>
      pc_token (ms_pc (mutex_go cfg p s) p) = None \<Longrightarrow> ?thesis"
    using exclusive_other [OF assms(1), of _ p] others by blast
  show ?thesis
  proof (cases "in_section p s")
    case True
    note alone = exclusive_alone [OF assms(1) True]
    have "own_directory (ms_pc (mutex_go cfg p s) p) (mutex_go cfg p s)"
      using True own
      by (cases "ms_pc s p") (auto simp: in_section_def own_directory_def mutex_defs has_token_def Let_def)
    then show ?thesis using one alone by blast
  next
    case False
    show ?thesis
    proof (cases "\<exists>d. ms_pc s p = Trying d \<and> ms_dir s = None")
      case True
      then obtain d where "ms_pc s p = Trying d" "ms_dir s = None" by blast
      then have "own_directory (ms_pc (mutex_go cfg p s) p) (mutex_go cfg p s)"
        by (simp add: mutex_go_def make_directory_def own_directory_def)
      then show ?thesis using exclusive_empty [OF assms(1)] \<open>ms_dir s = None\<close> by (intro one) auto
    next
      case no: False
      show ?thesis
        using False no assms(2)
        by (intro other; cases "ms_pc s p")
          (auto simp: in_section_def mutex_defs split: option.splits)
    qed
  qed
qed

lemma exclusive_same_dir:
  assumes "exclusive s" and "ms_dir s' = ms_dir s" and "ms_pc s' = (ms_pc s)(p := pc)"
    and "pc_token pc = None \<or> (\<exists>me. pc_token (ms_pc s p) = Some (mo_token me) \<and> has_token me s \<and> (\<exists>r. pc = Releasing me r))"
  shows "exclusive s'"
proof (cases "pc_token pc = None")
  case True
  then show ?thesis using assms(3) by (intro exclusive_other [OF assms(1), of s' p]) (auto simp: assms(2))
next
  case False
  then obtain me r where "in_section p s" "has_token me s" "pc = Releasing me r"
    using assms(4) by (auto simp: in_section_def)
  then show ?thesis using assms(2,3) exclusive_alone [OF assms(1)]
    by (intro exclusive_one [of p s s']) (auto simp: own_directory_def has_token_def)
qed

lemma exclusive_step:
  assumes "exclusive s" and "honest_action a s"
  shows "exclusive (mutex_step cfg a s)"
proof -
  have own: "own_directory (ms_pc s p) s" for p using assms(1) by (simp add: exclusive_def)
  show ?thesis
  proof (cases a)
    case (Tick n)
    then have "own_directory pc (mutex_step cfg a s) = own_directory pc s" for pc
      by (intro own_directory_dir) simp
    then show ?thesis using assms(1) Tick by (simp add: exclusive_def in_section_def)
  next
    case (Go p)
    then show ?thesis using assms by (auto simp: honest_action_def intro!: exclusive_go)
  next
    case (Fault p)
    then show ?thesis using assms(1) own [of p]
      by (cases "ms_pc s p")
        (auto simp: mutex_fault_def own_directory_def intro!: exclusive_same_dir [OF assms(1)])
  next
    case (Crash p)
    then show ?thesis by (intro exclusive_same_dir [OF assms(1)]) auto
  next
    case (Abort p)
    then show ?thesis using assms(1) own [of p]
      by (cases "ms_pc s p") (auto simp: own_directory_def intro!: exclusive_same_dir [OF assms(1)])
  qed
qed

lemma exclusive_run: "exclusive s \<Longrightarrow> honest cfg as s \<Longrightarrow> exclusive (mutex_run cfg as s)"
  by (induction as arbitrary: s) (auto intro!: exclusive_step)

lemma exclusive_fresh: "exclusive fresh_mutex"
  by (simp add: exclusive_def in_section_def own_directory_def fresh_mutex_def)

subsection \<open>Properties\<close>

text \<open>
  C11. Successful sections are serial: in every history of any number of processes, with any
  faults, crashes and takeovers, a call of \<open>withLock\<close> whose final ownership check passes was the
  last one to enter: between its entry and its exit no other process passed its first check. Two
  successful sections therefore never overlap; a process that lost its lock is told so.
\<close>

theorem successful_sections_are_serial:
  "serial_from None (ms_log (mutex_run cfg as fresh_mutex))"
  using serial_inv_run [OF serial_inv_fresh] by (simp add: serial_inv_def)

text \<open>
  Mutual exclusion holds as long as every takeover is honest: when no directory is renamed
  away while some process is between the creation and the removal of its directory, at most one
  process is in that section.
\<close>

theorem mutex_excludes:
  assumes "honest cfg as fresh_mutex" and "in_section p (mutex_run cfg as fresh_mutex)"
    and "in_section q (mutex_run cfg as fresh_mutex)"
  shows "p = q"
  using exclusive_run [OF exclusive_fresh assms(1)] assms(2,3) by (auto simp: exclusive_def)

definition default_mutex :: mutex_config where
  "default_mutex = \<lparr>mc_leaseMs = 5000, mc_timeoutMs = 1000\<rparr>"

theorem mutex_excludes_witness:
  "\<exists>p. in_section p (mutex_run default_mutex [Go 0, Go 0, Go 1, Go 0, Go 1] fresh_mutex)
     \<and> (\<forall>q. in_section q (mutex_run default_mutex [Go 0, Go 0, Go 1, Go 0, Go 1] fresh_mutex) \<longrightarrow> p = q)"
proof -
  have h: "honest default_mutex [Go 0, Go 0, Go 1, Go 0, Go 1] fresh_mutex"
    by (simp add: honest_action_def fresh_mutex_def mutex_defs Let_def)
  have i: "in_section 0 (mutex_run default_mutex [Go 0, Go 0, Go 1, Go 0, Go 1] fresh_mutex)"
    by (simp add: fresh_mutex_def mutex_defs in_section_def Let_def)
  show ?thesis using mutex_excludes [OF h i] i by blast
qed

text \<open>
  Ordinary contention breaks mutual exclusion: without any crash, fault or passing of time,
  process 2 finds the lock of process 0 taken, finds neither file nor directory because process 0
  has just released it, concludes that it is stale, and renames away the directory that process 1
  has created meanwhile: processes 1 and 2 are both in their critical sections, each with a lease
  that has not expired.
\<close>

definition release_race :: "mutex_action list" where
  "release_race = [Go 0, Go 0, Go 0, Go 0, Go 2, Go 2, Go 0, Go 0, Go 0, Go 2, Go 2,
     Go 1, Go 1, Go 1, Go 1, Go 2, Go 2, Go 2, Go 2]"

theorem release_race_breaks_exclusion:
  assumes "0 < mc_leaseMs cfg"
  shows "\<exists>a b. ms_pc (mutex_run cfg release_race fresh_mutex) 1 = Critical a
    \<and> ms_pc (mutex_run cfg release_race fresh_mutex) 2 = Critical b
    \<and> ms_clock (mutex_run cfg release_race fresh_mutex) < mo_expiresAt a
    \<and> ms_clock (mutex_run cfg release_race fresh_mutex) < mo_expiresAt b"
  using assms by (simp add: release_race_def fresh_mutex_def mutex_defs owned_def has_token_def observed_def Let_def)

theorem release_race_breaks_exclusion_witness:
  "\<exists>a b. ms_pc (mutex_run default_mutex release_race fresh_mutex) 1 = Critical a
     \<and> ms_pc (mutex_run default_mutex release_race fresh_mutex) 2 = Critical b"
  using release_race_breaks_exclusion [of default_mutex] by (auto simp: default_mutex_def)

text \<open>
  C40. An acquisition ends at its deadline: a process that is at the head of the loop once its
  deadline has passed, and then runs alone, is in its critical section or has been refused as
  busy within seven of its calls, whatever the state of the directory.
\<close>

theorem acquisition_ends_alone:
  assumes "ms_pc s p = Trying deadline" and "deadline \<le> ms_clock s" and "0 < mc_leaseMs cfg"
  shows "\<exists>n. n \<le> 7 \<and> (ms_pc (mutex_run cfg (replicate n (Go p)) s) p = Returned Busy
    \<or> (\<exists>me. ms_pc (mutex_run cfg (replicate n (Go p)) s) p = Critical me))"
proof (cases "ms_dir s")
  case None
  then show ?thesis using assms
    by (intro exI [of _ 3]) (simp add: numeral_eq_Suc mutex_defs owned_def Let_def)
next
  case dir: (Some d)
  show ?thesis
  proof (cases "ld_owner d")
    case None
    show ?thesis
    proof (cases "mc_leaseMs cfg \<le> ms_clock s - ld_mtime d")
      case True
      then show ?thesis using assms dir None
        by (intro exI [of _ 7]) (simp add: numeral_eq_Suc mutex_defs owned_def observed_def Let_def)
    next
      case False
      then show ?thesis using assms dir None
        by (intro exI [of _ 3]) (simp add: numeral_eq_Suc mutex_defs observed_def)
    qed
  next
    case (Some me)
    show ?thesis
    proof (cases "mo_expiresAt me \<le> ms_clock s")
      case True
      then show ?thesis using assms dir Some
        by (intro exI [of _ 6]) (simp add: numeral_eq_Suc mutex_defs owned_def observed_def Let_def)
    next
      case False
      then show ?thesis using assms dir Some
        by (intro exI [of _ 2]) (simp add: numeral_eq_Suc mutex_defs observed_def)
    qed
  qed
qed

theorem acquisition_ends_alone_witness:
  "\<exists>n. n \<le> 7 \<and> (ms_pc (mutex_run default_mutex (replicate n (Go 0)) (goto 0 (Trying 0) fresh_mutex)) 0 = Returned Busy
     \<or> (\<exists>me. ms_pc (mutex_run default_mutex (replicate n (Go 0)) (goto 0 (Trying 0) fresh_mutex)) 0 = Critical me))"
  by (rule acquisition_ends_alone [where deadline = 0]) (simp_all add: fresh_mutex_def default_mutex_def)

end
