(* ===== verification/RateLimiter.thy ===== *)
theory RateLimiter
  imports Effects
begin

section \<open>Fixed-window rate limits (src/security/rateLimiter.js, sharedRateLimiter.js)\<close>

text \<open>
  The limiter of one process, which counts in a bounded map of buckets, and the limiter shared
  through files, one bucket file per key under its own lock. \<open>H\<close> is the hexadecimal sha256 digest;
  a policy name is one of the configured ones (an own property of the policies object).
\<close>

subsection \<open>Policies and decisions\<close>

record rate_policy =
  rp_limit :: int
  rp_windowMs :: int

type_synonym rate_policies = "(string \<times> rate_policy) list"

definition required_policies :: "string list" where
  "required_policies = [''burst'', ''authFailure'', ''read'', ''write'', ''sensitive'']"

definition default_policies :: rate_policies where
  "default_policies =
     [(''burst'', \<lparr>rp_limit = 300, rp_windowMs = 60000\<rparr>), (''authFailure'', \<lparr>rp_limit = 8, rp_windowMs = 300000\<rparr>),
      (''read'', \<lparr>rp_limit = 240, rp_windowMs = 60000\<rparr>), (''write'', \<lparr>rp_limit = 60, rp_windowMs = 60000\<rparr>),
      (''sensitive'', \<lparr>rp_limit = 10, rp_windowMs = 900000\<rparr>)]"

definition normalise_policy :: "string \<times> jsval \<Rightarrow> string + string \<times> rate_policy" where
  "normalise_policy p = (case p of (name, v) \<Rightarrow>
     bindR (from_option (name @ ''.limit'') (int_in 1 1000000 (js_get v ''limit''))) (\<lambda>limit.
     bindR (from_option (name @ ''.windowMs'') (int_in 1000 86400000 (js_get v ''windowMs''))) (\<lambda>window.
     Inr (name, \<lparr>rp_limit = limit, rp_windowMs = window\<rparr>))))"

definition normalise_policies :: "(string \<times> jsval) list \<Rightarrow> string + rate_policies" where
  "normalise_policies entries = bindR (mapR normalise_policy entries) (\<lambda>ps.
     ensure (list_all (\<lambda>r. map_of ps r \<noteq> None) required_policies) ''Missing rate-limit policy'' (Inr ps))"

record rate_decision =
  de_allowed :: bool
  de_policy :: string
  de_limit :: "int option"
  de_remaining :: "int option"
  de_resetAt :: int
  de_retryAfterSeconds :: int
  de_distributed :: bool

definition ceil_div :: "int \<Rightarrow> int \<Rightarrow> int" where
  "ceil_div a b = - ((- a) div b)"

definition window_start :: "rate_policy \<Rightarrow> int \<Rightarrow> int" where
  "window_start p currentMs = currentMs div rp_windowMs p * rp_windowMs p"

definition decide :: "bool \<Rightarrow> string \<Rightarrow> rate_policy \<Rightarrow> int \<Rightarrow> int \<Rightarrow> rate_decision" where
  "decide distributed policyName p currentMs n =
     (let resetAt = window_start p currentMs + rp_windowMs p in
      \<lparr>de_allowed = (n \<le> rp_limit p), de_policy = policyName, de_limit = Some (rp_limit p),
       de_remaining = Some (max 0 (rp_limit p - n)), de_resetAt = resetAt,
       de_retryAfterSeconds = max 1 (ceil_div (resetAt - currentMs) 1000), de_distributed = distributed\<rparr>)"

definition decision_for_disabled :: "string \<Rightarrow> int \<Rightarrow> rate_decision" where
  "decision_for_disabled policyName currentMs = \<lparr>de_allowed = True, de_policy = policyName, de_limit = None,
     de_remaining = None, de_resetAt = currentMs, de_retryAfterSeconds = 0, de_distributed = False\<rparr>"

definition rate_headers :: "rate_decision \<Rightarrow> (string \<times> string) list" where
  "rate_headers d = (case de_limit d of None \<Rightarrow> []
     | Some l \<Rightarrow> [(''ratelimit-limit'', int_text l), (''ratelimit-remaining'', int_text (the (de_remaining d))),
         (''ratelimit-reset'', int_text (ceil_div (de_resetAt d) 1000))])"

definition rate_key :: "(string \<Rightarrow> string) \<Rightarrow> string \<Rightarrow> string \<Rightarrow> string" where
  "rate_key H policyName identity = H (policyName @ '':'' @ identity)"

definition longest_window :: "rate_policies \<Rightarrow> int" where
  "longest_window ps = Max (set (map (\<lambda>(n, p). rp_windowMs p) ps))"

subsection \<open>The limiter of one process\<close>

record rate_bucket =
  bk_windowStart :: int
  bk_count :: int
  bk_lastSeenAt :: int

record rate_config =
  rc_policies :: rate_policies
  rc_enabled :: bool
  rc_maxBuckets :: nat
  rc_cleanupMs :: int

type_synonym buckets = "(string \<times> rate_bucket) list"

text \<open>\<open>Math.floor(bucketLimit * 0.9)\<close> for limits up to a million.\<close>

definition low_water :: "nat \<Rightarrow> nat" where
  "low_water n = 9 * n div 10"

fun prune_loop :: "rate_config \<Rightarrow> int \<Rightarrow> (string \<times> rate_bucket) list \<Rightarrow> buckets \<Rightarrow> buckets" where
  "prune_loop cfg currentMs [] bs = bs"
| "prune_loop cfg currentMs ((k, b) # r) bs =
     (if length bs \<le> low_water (rc_maxBuckets cfg) \<and> currentMs - bk_lastSeenAt b \<le> longest_window (rc_policies cfg) then bs
      else prune_loop cfg currentMs r (filter (\<lambda>(k', b'). k' \<noteq> k) bs))"

definition prune_buckets :: "rate_config \<Rightarrow> int \<Rightarrow> buckets \<Rightarrow> buckets" where
  "prune_buckets cfg currentMs bs = prune_loop cfg currentMs (sort_key (\<lambda>(k, b). bk_lastSeenAt b) bs) bs"

definition next_bucket :: "int \<Rightarrow> int \<Rightarrow> rate_bucket option \<Rightarrow> rate_bucket" where
  "next_bucket windowStart currentMs existing =
     \<lparr>bk_windowStart = windowStart,
      bk_count = (case existing of None \<Rightarrow> 1 | Some b \<Rightarrow> if bk_windowStart b \<noteq> windowStart then 1 else bk_count b + 1),
      bk_lastSeenAt = currentMs\<rparr>"

definition consume :: "(string \<Rightarrow> string) \<Rightarrow> rate_config \<Rightarrow> int \<Rightarrow> string \<Rightarrow> string \<Rightarrow> buckets \<Rightarrow> buckets \<times> (string + rate_decision)" where
  "consume H cfg currentMs identity policyName bs = (case map_of (rc_policies cfg) policyName of
     None \<Rightarrow> (bs, Inl ''Unknown rate-limit policy'')
   | Some p \<Rightarrow>
       if \<not> rc_enabled cfg then (bs, Inr (decision_for_disabled policyName currentMs))
       else let key = rate_key H policyName identity;
                entry = next_bucket (window_start p currentMs) currentMs (map_of bs key);
                bs1 = put_assoc key entry bs;
                bs2 = (if length bs1 > rc_maxBuckets cfg then prune_buckets cfg currentMs bs1 else bs1)
            in (bs2, Inr (decide False policyName p currentMs (bk_count entry))))"

subsection \<open>The client's address and the class of a request\<close>

definition ffff_prefix :: string where
  "ffff_prefix = ''::ffff:''"

definition normalise_address :: "jsval \<Rightarrow> string" where
  "normalise_address v = (let a = trimmed v in
     if starts_with ffff_prefix a then drop 7 a else if a = [] then ''unknown'' else a)"

text \<open>\<open>remote\<close> is the socket's address, \<open>forwarded\<close> the header \<open>x-forwarded-for\<close> (\<open>undefined\<close> if absent).\<close>

definition address_chain :: "jsval \<Rightarrow> jsval \<Rightarrow> string list" where
  "address_chain remote forwarded =
     filter (\<lambda>a. a \<noteq> []) (map (\<lambda>s. normalise_address (JStr s)) (split_at (CHR '','') (js_String (js_or_nullish forwarded (JStr [])))))
     @ [normalise_address (js_or_nullish remote (JStr ''unknown''))]"

definition resolve_client_address :: "jsval \<Rightarrow> jsval \<Rightarrow> jsval \<Rightarrow> string + string" where
  "resolve_client_address remote forwarded trustProxyHops =
     bindR (from_option ''trustProxyHops'' (int_in 0 10 trustProxyHops)) (\<lambda>hops.
     if hops = 0 then Inr (normalise_address (js_or_nullish remote (JStr ''unknown'')))
     else let chain = address_chain remote forwarded in Inr (chain ! (length chain - nat hops - 1)))"

definition ends_with :: "string \<Rightarrow> string \<Rightarrow> bool" where
  "ends_with suffix s = (length suffix \<le> length s \<and> drop (length s - length suffix) s = suffix)"

definition classify_request :: "string \<Rightarrow> string \<Rightarrow> string" where
  "classify_request verb path =
     (if verb \<noteq> ''GET'' \<and> list_ex (\<lambda>e. ends_with e path) [''/restore'', ''/replicate'', ''/recovery-drills'', ''/resilience-cycle'']
      then ''sensitive'' else if verb \<in> {''GET'', ''HEAD'', ''OPTIONS''} then ''read'' else ''write'')"

subsection \<open>The limiter shared through files\<close>

datatype rate_error = StoreError string | UnknownPolicy

text \<open>A bucket file: not decodable; decodable but refused by the validation, with its time stamp if it has one; valid.\<close>

datatype bucket_file = Undecodable | Invalid "int option" | Bucket string string rate_bucket

record shared_limiter =
  sl_files :: "(string \<times> bucket_file) list"
  sl_lastCleanupAt :: int
  sl_lastError :: bool

record rate_env =
  re_now :: int
  re_lock :: "string \<Rightarrow> lock_outcome"
  re_write :: write_outcome
  re_remove :: "string \<Rightarrow> bool"

definition read_bucket :: "string \<Rightarrow> string \<Rightarrow> shared_limiter \<Rightarrow> rate_error + rate_bucket option" where
  "read_bucket policyName identityHash s = (case map_of (sl_files s) identityHash of
     None \<Rightarrow> Inr None
   | Some Undecodable \<Rightarrow> Inl (StoreError ''decode'')
   | Some (Invalid _) \<Rightarrow> Inl (StoreError ''validation'')
   | Some (Bucket policy hash b) \<Rightarrow>
       ensure (policy = policyName \<and> hash = identityHash) (StoreError ''validation'') (Inr (Some b)))"

definition write_bucket :: "write_outcome \<Rightarrow> string \<Rightarrow> string \<Rightarrow> rate_bucket \<Rightarrow> shared_limiter \<Rightarrow> shared_limiter \<times> bool" where
  "write_bucket w policyName identityHash b s =
     (case atomic_write w (put_assoc identityHash (Bucket policyName identityHash b) (sl_files s)) (sl_files s) of
        (files, written) \<Rightarrow> (s\<lparr>sl_files := files\<rparr>, written))"

definition update_bucket :: "rate_env \<Rightarrow> string \<Rightarrow> rate_policy \<Rightarrow> string \<Rightarrow> shared_limiter \<Rightarrow> shared_limiter \<times> (rate_error + rate_decision)" where
  "update_bucket env policyName p identityHash =
     with_lock (re_lock env (''rate:'' @ identityHash)) (StoreError ''lock'') (\<lambda>s.
       case read_bucket policyName identityHash s of
         Inl e \<Rightarrow> (s, Inl e)
       | Inr existing \<Rightarrow>
          (let b = next_bucket (window_start p (re_now env)) (re_now env) existing in
           case write_bucket (re_write env) policyName identityHash b s of
             (s', True) \<Rightarrow> (s', Inr (decide True policyName p (re_now env) (bk_count b)))
           | (s', False) \<Rightarrow> (s', Inl (StoreError ''write''))))"

definition last_seen :: "bucket_file \<Rightarrow> int option" where
  "last_seen f = (case f of Undecodable \<Rightarrow> None | Invalid t \<Rightarrow> t | Bucket _ _ b \<Rightarrow> Some (bk_lastSeenAt b))"

definition expired_file :: "rate_config \<Rightarrow> int \<Rightarrow> bucket_file \<Rightarrow> bool" where
  "expired_file cfg currentMs f = (case last_seen f of None \<Rightarrow> False
     | Some t \<Rightarrow> currentMs - t > longest_window (rc_policies cfg) * 2)"

definition remove_expired :: "rate_config \<Rightarrow> rate_env \<Rightarrow> int \<Rightarrow> string \<Rightarrow> shared_limiter \<Rightarrow> shared_limiter" where
  "remove_expired cfg env currentMs h s = (case map_of (sl_files s) h of
     None \<Rightarrow> s
   | Some f \<Rightarrow> if expired_file cfg currentMs f \<and> re_remove env h
               then s\<lparr>sl_files := filter (\<lambda>(k, f'). k \<noteq> h) (sl_files s)\<rparr> else s)"

fun prune_files :: "rate_config \<Rightarrow> rate_env \<Rightarrow> int \<Rightarrow> string list \<Rightarrow> shared_limiter \<Rightarrow> shared_limiter \<times> (rate_error + unit)" where
  "prune_files cfg env currentMs [] s = (s, Inr ())"
| "prune_files cfg env currentMs (h # hs) s =
     (case with_lock (re_lock env (''rate:'' @ h)) (StoreError ''lock'') (\<lambda>s. (remove_expired cfg env currentMs h s, Inr ())) s of
        (s', Inl e) \<Rightarrow> (s', Inl e)
      | (s', Inr _) \<Rightarrow> prune_files cfg env currentMs hs s')"

definition prune_candidates :: "rate_config \<Rightarrow> int \<Rightarrow> shared_limiter \<Rightarrow> string list" where
  "prune_candidates cfg currentMs s =
     map fst (sort_key (\<lambda>(h, f). the (last_seen f)) (filter (\<lambda>(h, f). expired_file cfg currentMs f) (sl_files s)))"

definition prune_expired :: "rate_config \<Rightarrow> rate_env \<Rightarrow> shared_limiter \<Rightarrow> shared_limiter \<times> (rate_error + unit)" where
  "prune_expired cfg env s = prune_files cfg env (re_now env) (prune_candidates cfg (re_now env) s) s"

definition maybe_cleanup :: "rate_config \<Rightarrow> rate_env \<Rightarrow> shared_limiter \<Rightarrow> shared_limiter" where
  "maybe_cleanup cfg env s =
     (if re_now env - sl_lastCleanupAt s < rc_cleanupMs cfg then s
      else fst (with_lock (re_lock env ''rate-cleanup'') (StoreError ''lock'') (prune_expired cfg env)
                  (s\<lparr>sl_lastCleanupAt := re_now env\<rparr>)))"

definition open_bucket ::
  "rate_config \<Rightarrow> rate_env \<Rightarrow> string \<Rightarrow> rate_policy \<Rightarrow> string \<Rightarrow> shared_limiter \<Rightarrow> shared_limiter \<times> (rate_error + rate_decision)" where
  "open_bucket cfg env policyName p h =
     with_lock (re_lock env ''rate-capacity'') (StoreError ''lock'') (\<lambda>s.
       case prune_expired cfg env s of
         (s', Inl e) \<Rightarrow> (s', Inl e)
       | (s', Inr _) \<Rightarrow>
           if length (sl_files s') \<ge> rc_maxBuckets cfg then (s', Inl (StoreError ''capacity''))
           else update_bucket env policyName p h s')"

definition consume_shared ::
  "(string \<Rightarrow> string) \<Rightarrow> rate_config \<Rightarrow> rate_env \<Rightarrow> string \<Rightarrow> string \<Rightarrow> shared_limiter \<Rightarrow> shared_limiter \<times> (rate_error + rate_decision)" where
  "consume_shared H cfg env identity policyName s = (case map_of (rc_policies cfg) policyName of
     None \<Rightarrow> (s, Inl UnknownPolicy)
   | Some p \<Rightarrow>
      (let h = rate_key H policyName identity in
       case (if map_of (sl_files s) h \<noteq> None then update_bucket env policyName p h s
             else open_bucket cfg env policyName p h s) of
         (s', Inl e) \<Rightarrow> (s'\<lparr>sl_lastError := True\<rparr>, Inl e)
       | (s', Inr d) \<Rightarrow> (maybe_cleanup cfg env (s'\<lparr>sl_lastError := False\<rparr>), Inr d)))"

subsection \<open>Runs of requests\<close>

type_synonym rate_request = "int \<times> string \<times> string"

fun request_time :: "rate_request \<Rightarrow> int" where
  "request_time (t, i, p) = t"

fun request_key :: "(string \<Rightarrow> string) \<Rightarrow> rate_request \<Rightarrow> string" where
  "request_key H (t, i, p) = rate_key H p i"

fun request_policy :: "rate_request \<Rightarrow> string" where
  "request_policy (t, i, p) = p"

fun request_window :: "rate_config \<Rightarrow> rate_request \<Rightarrow> int" where
  "request_window cfg (t, i, p) = window_start (the (map_of (rc_policies cfg) p)) t"

definition memory_after :: "(string \<Rightarrow> string) \<Rightarrow> rate_config \<Rightarrow> rate_request list \<Rightarrow> buckets" where
  "memory_after H cfg rs = foldl (\<lambda>bs (t, i, p). fst (consume H cfg t i p bs)) [] rs"

definition hits :: "(string \<Rightarrow> string) \<Rightarrow> rate_config \<Rightarrow> rate_request list \<Rightarrow> string \<Rightarrow> int \<Rightarrow> nat" where
  "hits H cfg rs k w = length (filter (\<lambda>r. request_key H r = k \<and> request_window cfg r = w) rs)"

definition one_policy :: "(string \<Rightarrow> string) \<Rightarrow> rate_request list \<Rightarrow> bool" where
  "one_policy H rs = (\<forall>r \<in> set rs. \<forall>r' \<in> set rs. request_key H r = request_key H r' \<longrightarrow> request_policy r = request_policy r')"

lemma one_policyD:
  "one_policy H rs \<Longrightarrow> r \<in> set rs \<Longrightarrow> r' \<in> set rs \<Longrightarrow> request_key H r = request_key H r' \<Longrightarrow> request_policy r = request_policy r'"
  unfolding one_policy_def by blast

lemma one_policy_butlast: "one_policy H (rs @ [r]) \<Longrightarrow> one_policy H rs"
  unfolding one_policy_def set_append by blast

text \<open>
  What the requests of a run satisfy: their times do not go back, their policies are configured,
  two requests with one key have one policy, and the map of buckets can hold all the keys.
\<close>

definition regular :: "(string \<Rightarrow> string) \<Rightarrow> rate_config \<Rightarrow> rate_request list \<Rightarrow> bool" where
  "regular H cfg rs = (sorted (map request_time rs) \<and> (\<forall>r \<in> set rs. map_of (rc_policies cfg) (request_policy r) \<noteq> None)
     \<and> one_policy H rs \<and> card (set (map (request_key H) rs)) \<le> rc_maxBuckets cfg)"

definition sane_limits :: "rate_config \<Rightarrow> bool" where
  "sane_limits cfg = (rc_enabled cfg \<and> list_all (\<lambda>(n, p). 1 \<le> rp_limit p \<and> 1000 \<le> rp_windowMs p) (rc_policies cfg))"

lemma window_start_le:
  assumes "0 < rp_windowMs p"
  shows "window_start p t \<le> t \<and> t < window_start p t + rp_windowMs p"
proof -
  have "t div rp_windowMs p * rp_windowMs p + t mod rp_windowMs p = t" by simp
  moreover have "0 \<le> t mod rp_windowMs p" "t mod rp_windowMs p < rp_windowMs p" using assms by simp_all
  ultimately show ?thesis unfolding window_start_def by linarith
qed

lemma window_start_mono: "0 < rp_windowMs p \<Longrightarrow> t \<le> u \<Longrightarrow> window_start p t \<le> window_start p u"
  unfolding window_start_def by (intro mult_right_mono zdiv_mono1) simp_all

lemma sane_policy: "sane_limits cfg \<Longrightarrow> map_of (rc_policies cfg) n = Some p \<Longrightarrow> 1 \<le> rp_limit p \<and> 1000 \<le> rp_windowMs p"
  by (auto simp: sane_limits_def list_all_iff dest!: map_of_SomeD)

lemma longest_window_ge: "map_of (rc_policies cfg) n = Some p \<Longrightarrow> rp_windowMs p \<le> longest_window (rc_policies cfg)"
  unfolding longest_window_def by (intro Max_ge) (force dest!: map_of_SomeD)+

lemma regular_butlast: "regular H cfg (rs @ [r]) \<Longrightarrow> regular H cfg rs"
proof -
  assume A: "regular H cfg (rs @ [r])"
  have "card (set (map (request_key H) rs)) \<le> card (set (map (request_key H) (rs @ [r])))"
    by (intro card_mono) auto
  then have "card (set (map (request_key H) rs)) \<le> rc_maxBuckets cfg" using A unfolding regular_def by linarith
  then show ?thesis using A one_policy_butlast unfolding regular_def by (simp add: sorted_append) blast
qed

text \<open>The bucket of a key after a run: the hits of its last window.\<close>

definition counted :: "(string \<Rightarrow> string) \<Rightarrow> rate_config \<Rightarrow> rate_request list \<Rightarrow> buckets \<Rightarrow> bool" where
  "counted H cfg rs bs = (set (map fst bs) = set (map (request_key H) rs) \<and> distinct (map fst bs)
     \<and> (\<forall>k b. map_of bs k = Some b \<longrightarrow> bk_count b = int (hits H cfg rs k (bk_windowStart b)) \<and> bk_windowStart b \<le> bk_lastSeenAt b
         \<and> (\<exists>r \<in> set rs. request_key H r = k \<and> request_window cfg r = bk_windowStart b)
         \<and> (\<forall>r \<in> set rs. request_key H r = k \<longrightarrow> request_window cfg r \<le> bk_windowStart b)))"

lemma consume_memory:
  assumes "sane_limits cfg" and "regular H cfg (rs @ [(t, i, n)])" and "counted H cfg rs bs"
    and "map_of (rc_policies cfg) n = Some p"
  shows "consume H cfg t i n bs = (put_assoc (rate_key H n i) (next_bucket (window_start p t) t (map_of bs (rate_key H n i))) bs,
      Inr (decide False n p t (int (hits H cfg (rs @ [(t, i, n)]) (rate_key H n i) (window_start p t)))))
    \<and> counted H cfg (rs @ [(t, i, n)]) (fst (consume H cfg t i n bs))
    \<and> bk_count (next_bucket (window_start p t) t (map_of bs (rate_key H n i)))
        = int (hits H cfg (rs @ [(t, i, n)]) (rate_key H n i) (window_start p t))"
proof -
  define k where "k = rate_key H n i"
  define w where "w = window_start p t"
  define b where "b = next_bucket w t (map_of bs k)"
  define bs1 where "bs1 = put_assoc k b bs"
  have old: "request_window cfg r \<le> w" if "r \<in> set rs" "request_key H r = k" for r
  proof -
    obtain u j m where r: "r = (u, j, m)" by (cases r)
    have "one_policy H (rs @ [(t, i, n)])" using assms(2) unfolding regular_def by blast
    from one_policyD [OF this, of r "(t, i, n)"] have "request_policy r = request_policy (t, i, n)"
      using that by (simp add: k_def)
    moreover have "\<forall>x \<in> set (map request_time rs). x \<le> t"
      using assms(2) unfolding regular_def by (simp add: sorted_append)
    ultimately have "m = n" "u \<le> t" using r that(1) by auto
    then show ?thesis
      using r assms(4) sane_policy [OF assms(1,4)] by (simp add: w_def window_start_mono)
  qed
  have new: "hits H cfg rs k w = 0" if "\<And>r. r \<in> set rs \<Longrightarrow> request_key H r = k \<Longrightarrow> request_window cfg r < w"
    using that by (auto simp: hits_def filter_empty_conv)
  have hit: "hits H cfg (rs @ [(t, i, n)]) k' v = hits H cfg rs k' v + (if k' = k \<and> v = w then 1 else 0)" for k' v
    using assms(4) by (auto simp: hits_def k_def w_def)
  have count: "bk_count b = int (hits H cfg (rs @ [(t, i, n)]) k w)"
  proof (cases "map_of bs k")
    case None
    then have "k \<notin> set (map (request_key H) rs)" using assms(3) by (simp add: counted_def map_of_eq_None_iff)
    then have "hits H cfg rs k w = 0" by (intro new) auto
    then show ?thesis using None by (simp add: b_def next_bucket_def hit)
  next
    case (Some c)
    then have c: "bk_count c = int (hits H cfg rs k (bk_windowStart c))"
      "\<exists>r \<in> set rs. request_key H r = k \<and> request_window cfg r = bk_windowStart c"
      "\<And>r. r \<in> set rs \<Longrightarrow> request_key H r = k \<Longrightarrow> request_window cfg r \<le> bk_windowStart c"
      using assms(3) by (auto simp: counted_def)
    show ?thesis
    proof (cases "bk_windowStart c = w")
      case True
      then show ?thesis using Some c by (simp add: b_def next_bucket_def hit)
    next
      case False
      then have "bk_windowStart c < w" using c(2) old by fastforce
      then have "hits H cfg rs k w = 0" using c(3) by (intro new) force
      then show ?thesis using Some False by (simp add: b_def next_bucket_def hit)
    qed
  qed
  have keys: "set (map fst bs1) = set (map (request_key H) (rs @ [(t, i, n)]))" "distinct (map fst bs1)"
    using assms(3) unfolding bs1_def counted_def keys_put_assoc k_def by (simp_all add: distinct_put_assoc)
  then have "length bs1 = card (set (map (request_key H) (rs @ [(t, i, n)])))"
    by (metis distinct_card length_map)
  then have "length bs1 \<le> rc_maxBuckets cfg" using assms(2) by (simp add: regular_def)
  then have run: "consume H cfg t i n bs = (bs1, Inr (decide False n p t (bk_count b)))"
    using assms(1,4) by (simp add: consume_def Let_def k_def w_def b_def bs1_def sane_limits_def)
  have "counted H cfg (rs @ [(t, i, n)]) bs1"
    unfolding counted_def
  proof (intro conjI allI impI keys)
    fix k' c assume look: "map_of bs1 k' = Some c"
    have b: "bk_windowStart b = w" "bk_lastSeenAt b = t" by (simp_all add: b_def next_bucket_def)
    have r: "request_key H (t, i, n) = k" "request_window cfg (t, i, n) = w" using assms(4) by (simp_all add: k_def w_def)
    show "bk_count c = int (hits H cfg (rs @ [(t, i, n)]) k' (bk_windowStart c))"
      using look count hit b assms(3) by (auto simp: bs1_def counted_def split: if_splits)
    show "bk_windowStart c \<le> bk_lastSeenAt c"
      using look b assms(3) window_start_le [of p t] sane_policy [OF assms(1,4)]
      by (auto simp: bs1_def counted_def w_def split: if_splits)
    show "\<exists>r \<in> set (rs @ [(t, i, n)]). request_key H r = k' \<and> request_window cfg r = bk_windowStart c"
      using look b r assms(3) by (auto simp: bs1_def counted_def split: if_splits)
    show "\<forall>r \<in> set (rs @ [(t, i, n)]). request_key H r = k' \<longrightarrow> request_window cfg r \<le> bk_windowStart c"
      using look b r assms(3) old by (auto simp: bs1_def counted_def split: if_splits)
  qed
  then show ?thesis using run count by (simp add: bs1_def b_def k_def w_def)
qed

lemma memory_after_snoc:
  "memory_after H cfg (rs @ [(t, i, n)]) = fst (consume H cfg t i n (memory_after H cfg rs))"
  by (simp add: memory_after_def)

lemma regular_policy: "regular H cfg (rs @ [(t, i, n)]) \<Longrightarrow> \<exists>p. map_of (rc_policies cfg) n = Some p"
  by (auto simp: regular_def)

lemma memory_after_counted: "sane_limits cfg \<Longrightarrow> regular H cfg rs \<Longrightarrow> counted H cfg rs (memory_after H cfg rs)"
proof (induction rs rule: rev_induct)
  case Nil
  show ?case by (simp add: memory_after_def counted_def)
next
  case (snoc r rs)
  obtain t i n where r: "r = (t, i, n)" by (cases r)
  obtain p where "map_of (rc_policies cfg) n = Some p" using regular_policy snoc.prems(2) r by blast
  then show ?case
    using consume_memory [OF snoc.prems(1) snoc.prems(2)[unfolded r] snoc.IH [OF snoc.prems(1) regular_butlast [OF snoc.prems(2)]]]
    unfolding r memory_after_snoc by blast
qed

subsection \<open>The two limiters agree\<close>

text \<open>The shared limiter with every lock obtained and every write committed; \<open>rm\<close> tells which removals succeed.\<close>

definition good_env :: "(string \<Rightarrow> bool) \<Rightarrow> int \<Rightarrow> rate_env" where
  "good_env rm t = \<lparr>re_now = t, re_lock = (\<lambda>_. Acquired), re_write = Committed, re_remove = rm\<rparr>"

definition no_buckets :: shared_limiter where
  "no_buckets = \<lparr>sl_files = [], sl_lastCleanupAt = 0, sl_lastError = False\<rparr>"

definition shared_after :: "(string \<Rightarrow> string) \<Rightarrow> rate_config \<Rightarrow> (string \<Rightarrow> bool) \<Rightarrow> rate_request list \<Rightarrow> shared_limiter" where
  "shared_after H cfg rm rs = foldl (\<lambda>s (t, i, p). fst (consume_shared H cfg (good_env rm t) i p s)) no_buckets rs"

definition stale_bucket :: "rate_config \<Rightarrow> int \<Rightarrow> rate_bucket \<Rightarrow> bool" where
  "stale_bucket cfg t b = (t - bk_lastSeenAt b > longest_window (rc_policies cfg) * 2)"

text \<open>
  The files hold the buckets of the map under the policies that the keys were made with, less
  some that are stale at the time \<open>t\<close>.
\<close>

definition mirror_key :: "(string \<Rightarrow> string) \<Rightarrow> rate_config \<Rightarrow> int \<Rightarrow> rate_request list \<Rightarrow> bucket_file option \<Rightarrow> string \<Rightarrow> rate_bucket \<Rightarrow> bool" where
  "mirror_key H cfg t rs f k b = (f = None \<and> stale_bucket cfg t b
     \<or> (\<exists>r \<in> set rs. request_key H r = k \<and> f = Some (Bucket (request_policy r) k b)))"

definition mirrors :: "(string \<Rightarrow> string) \<Rightarrow> rate_config \<Rightarrow> int \<Rightarrow> rate_request list \<Rightarrow> buckets \<Rightarrow> (string \<times> bucket_file) list \<Rightarrow> bool" where
  "mirrors H cfg t rs bs files = (distinct (map fst files) \<and> set (map fst files) \<subseteq> set (map fst bs)
     \<and> (\<forall>k b. map_of bs k = Some b \<longrightarrow> mirror_key H cfg t rs (map_of files k) k b))"

lemma mirrorsD: "mirrors H cfg t rs bs files \<Longrightarrow> map_of bs k = Some b \<Longrightarrow> mirror_key H cfg t rs (map_of files k) k b"
  unfolding mirrors_def by blast

lemma mirrors_keys: "mirrors H cfg t rs bs files \<Longrightarrow> distinct (map fst files) \<and> set (map fst files) \<subseteq> set (map fst bs)"
  unfolding mirrors_def by blast

lemma mirrorsI:
  "distinct (map fst files) \<Longrightarrow> set (map fst files) \<subseteq> set (map fst bs) \<Longrightarrow>
     (\<And>k b. map_of bs k = Some b \<Longrightarrow> mirror_key H cfg t rs (map_of files k) k b) \<Longrightarrow> mirrors H cfg t rs bs files"
  unfolding mirrors_def by blast

lemma stale_mono: "stale_bucket cfg t b \<Longrightarrow> t \<le> u \<Longrightarrow> stale_bucket cfg u b"
  by (simp add: stale_bucket_def)

lemma mirror_key_mono: "mirror_key H cfg t rs f k b \<Longrightarrow> t \<le> u \<Longrightarrow> set rs \<subseteq> set rs' \<Longrightarrow> mirror_key H cfg u rs' f k b"
  unfolding mirror_key_def using stale_mono by blast

lemma mirrors_mono: "mirrors H cfg t rs bs files \<Longrightarrow> t \<le> u \<Longrightarrow> set rs \<subseteq> set rs' \<Longrightarrow> mirrors H cfg u rs' bs files"
  using mirrors_keys [of H cfg t rs bs files] mirrorsD [of H cfg t rs bs files] mirror_key_mono
  by (intro mirrorsI) blast+

lemma map_of_filter_key: "map_of (filter (\<lambda>(k, f). k \<noteq> h) m) k' = (if k' = h then None else map_of m k')"
  by (induction m) auto

lemma keys_filter: "distinct (map fst m) \<Longrightarrow> distinct (map fst (filter P m))"
  by (simp add: distinct_map_filter)

lemma mirrors_remove:
  assumes "mirrors H cfg t rs bs (sl_files s)"
  shows "mirrors H cfg t rs bs (sl_files (remove_expired cfg env t h s))"
proof (cases "\<exists>f. map_of (sl_files s) h = Some f \<and> expired_file cfg t f \<and> re_remove env h")
  case False
  then show ?thesis using assms by (auto simp: remove_expired_def split: option.splits)
next
  case True
  then obtain f where f: "map_of (sl_files s) h = Some f" "expired_file cfg t f" "re_remove env h" by blast
  let ?files = "filter (\<lambda>(k, f'). k \<noteq> h) (sl_files s)"
  have "mirrors H cfg t rs bs ?files"
  proof (rule mirrorsI)
    show "distinct (map fst ?files)" using mirrors_keys [OF assms] keys_filter by blast
    show "set (map fst ?files) \<subseteq> set (map fst bs)" using mirrors_keys [OF assms] by auto
    fix k b assume b: "map_of bs k = Some b"
    show "mirror_key H cfg t rs (map_of ?files k) k b"
    proof (cases "k = h")
      case True
      then have "stale_bucket cfg t b"
        using mirrorsD [OF assms b] f(1,2) by (auto simp: mirror_key_def expired_file_def last_seen_def stale_bucket_def)
      then show ?thesis using True by (simp add: map_of_filter_key mirror_key_def)
    next
      case False
      then show ?thesis using mirrorsD [OF assms b] by (simp add: map_of_filter_key)
    qed
  qed
  then show ?thesis using f by (simp add: remove_expired_def)
qed

lemma good_env_simps [simp]:
  "re_now (good_env rm t) = t" "re_lock (good_env rm t) h = Acquired" "re_write (good_env rm t) = Committed"
  by (simp_all add: good_env_def)

lemma prune_files_good:
  "mirrors H cfg t rs bs (sl_files s) \<Longrightarrow> \<exists>s'. prune_files cfg (good_env rm t) t hs s = (s', Inr ())
     \<and> mirrors H cfg t rs bs (sl_files s')"
proof (induction hs arbitrary: s)
  case (Cons h hs)
  show ?case using Cons.IH [OF mirrors_remove [OF Cons.prems]] by simp
qed simp

lemma prune_expired_good:
  "mirrors H cfg t rs bs (sl_files s) \<Longrightarrow> \<exists>s'. prune_expired cfg (good_env rm t) s = (s', Inr ())
     \<and> mirrors H cfg t rs bs (sl_files s')"
  by (simp add: prune_expired_def prune_files_good)

lemma maybe_cleanup_good:
  assumes "mirrors H cfg t rs bs (sl_files s)"
  shows "mirrors H cfg t rs bs (sl_files (maybe_cleanup cfg (good_env rm t) s))"
  using prune_expired_good [of H cfg t rs bs "s\<lparr>sl_lastCleanupAt := t\<rparr>" rm] assms
  by (auto simp: maybe_cleanup_def)

lemma remove_expired_keys: "set (map fst (sl_files (remove_expired cfg env t h s))) \<subseteq> set (map fst (sl_files s))"
  by (auto simp: remove_expired_def split: option.splits if_splits)

lemma prune_files_keys:
  "prune_files cfg (good_env rm t) t hs s = (s', r) \<Longrightarrow> set (map fst (sl_files s')) \<subseteq> set (map fst (sl_files s))"
proof (induction hs arbitrary: s)
  case (Cons h hs)
  have "prune_files cfg (good_env rm t) t hs (remove_expired cfg (good_env rm t) t h s) = (s', r)"
    using Cons.prems by simp
  from Cons.IH [OF this] remove_expired_keys show ?case by (rule subset_trans)
qed simp

text \<open>An absent stale file and a bucket of an older window start the same count.\<close>

lemma stale_window:
  assumes "sane_limits cfg" and "map_of (rc_policies cfg) n = Some p" and "stale_bucket cfg t b"
    and "bk_windowStart b \<le> bk_lastSeenAt b"
  shows "bk_windowStart b \<noteq> window_start p t"
proof -
  have "rp_windowMs p \<le> longest_window (rc_policies cfg)" by (rule longest_window_ge [OF assms(2)])
  then show ?thesis
    using assms(3,4) window_start_le [of p t] sane_policy [OF assms(1,2)] by (simp add: stale_bucket_def)
qed

lemma update_bucket_good:
  assumes "sane_limits cfg" and "regular H cfg (rs @ [(t, i, n)])" and "counted H cfg rs bs"
    and "map_of (rc_policies cfg) n = Some p" and "mirrors H cfg t rs bs (sl_files s)"
  shows "\<exists>s'. update_bucket (good_env rm t) n p (rate_key H n i) s
      = (s', Inr (decide True n p t (bk_count (next_bucket (window_start p t) t (map_of bs (rate_key H n i))))))
    \<and> mirrors H cfg t (rs @ [(t, i, n)])
        (put_assoc (rate_key H n i) (next_bucket (window_start p t) t (map_of bs (rate_key H n i))) bs) (sl_files s')"
proof -
  define k where "k = rate_key H n i"
  define b where "b = next_bucket (window_start p t) t (map_of bs k)"
  have one: "one_policy H (rs @ [(t, i, n)])" using assms(2) unfolding regular_def by blast
  have read: "\<exists>e. read_bucket n k s = Inr e \<and> next_bucket (window_start p t) t e = b"
  proof (cases "map_of bs k")
    case None
    then have "k \<notin> set (map fst bs)" by (simp add: map_of_eq_None_iff)
    then have "k \<notin> set (map fst (sl_files s))" using mirrors_keys [OF assms(5)] by blast
    then have "map_of (sl_files s) k = None" by (simp add: map_of_eq_None_iff)
    then show ?thesis using None by (simp add: read_bucket_def b_def)
  next
    case (Some c)
    from mirrorsD [OF assms(5) Some] show ?thesis
      unfolding mirror_key_def
    proof
      assume A: "map_of (sl_files s) k = None \<and> stale_bucket cfg t c"
      then have "bk_windowStart c \<noteq> window_start p t"
        using stale_window [OF assms(1,4)] assms(3) Some by (auto simp: counted_def)
      then show ?thesis using A Some by (simp add: read_bucket_def b_def next_bucket_def)
    next
      assume "\<exists>r \<in> set rs. request_key H r = k \<and> map_of (sl_files s) k = Some (Bucket (request_policy r) k c)"
      then obtain r where r: "r \<in> set rs" "request_key H r = k" "map_of (sl_files s) k = Some (Bucket (request_policy r) k c)"
        by blast
      then have "request_policy r = n" using one_policyD [OF one, of r "(t, i, n)"] by (simp add: k_def)
      then show ?thesis using r Some by (simp add: read_bucket_def b_def)
    qed
  qed
  have "mirrors H cfg t (rs @ [(t, i, n)]) (put_assoc k b bs) (put_assoc k (Bucket n k b) (sl_files s))"
  proof (rule mirrorsI)
    show "distinct (map fst (put_assoc k (Bucket n k b) (sl_files s)))"
      by (rule distinct_put_assoc [OF conjunct1 [OF mirrors_keys [OF assms(5)]]])
    show "set (map fst (put_assoc k (Bucket n k b) (sl_files s))) \<subseteq> set (map fst (put_assoc k b bs))"
      using mirrors_keys [OF assms(5)] unfolding keys_put_assoc by blast
    fix k' c assume c: "map_of (put_assoc k b bs) k' = Some c"
    show "mirror_key H cfg t (rs @ [(t, i, n)]) (map_of (put_assoc k (Bucket n k b) (sl_files s)) k') k' c"
    proof (cases "k' = k")
      case True
      then show ?thesis using c by (simp add: mirror_key_def k_def)
    next
      case False
      then have "map_of bs k' = Some c" using c by simp
      from mirror_key_mono [OF mirrorsD [OF assms(5) this], of t "rs @ [(t, i, n)]"] False
      show ?thesis by auto
    qed
  qed
  then show ?thesis
    using read by (auto simp: update_bucket_def write_bucket_def Let_def b_def [symmetric] k_def [symmetric])
qed

lemma consume_shared_good:
  assumes "sane_limits cfg" and "regular H cfg (rs @ [(t, i, n)])" and "counted H cfg rs bs"
    and "map_of (rc_policies cfg) n = Some p" and "mirrors H cfg t rs bs (sl_files s)"
  shows "\<exists>s'. consume_shared H cfg (good_env rm t) i n s
      = (s', Inr (decide True n p t (bk_count (next_bucket (window_start p t) t (map_of bs (rate_key H n i))))))
    \<and> mirrors H cfg t (rs @ [(t, i, n)])
        (put_assoc (rate_key H n i) (next_bucket (window_start p t) t (map_of bs (rate_key H n i))) bs) (sl_files s')"
proof -
  define k where "k = rate_key H n i"
  define f where "f = (if map_of (sl_files s) k \<noteq> None then update_bucket (good_env rm t) n p k s
      else open_bucket cfg (good_env rm t) n p k s)"
  have "\<exists>s1. f = update_bucket (good_env rm t) n p k s1 \<and> mirrors H cfg t rs bs (sl_files s1)"
  proof (cases "map_of (sl_files s) k = None")
    case False
    then show ?thesis using assms(5) by (auto simp: f_def)
  next
    case True
    obtain s1 where s1: "prune_expired cfg (good_env rm t) s = (s1, Inr ())" "mirrors H cfg t rs bs (sl_files s1)"
      using prune_expired_good [OF assms(5)] by blast
    have "set (map fst (sl_files s1)) \<subseteq> set (map fst (sl_files s))"
      using prune_files_keys s1(1) by (simp add: prune_expired_def)
    moreover have "k \<notin> set (map fst (sl_files s))" using True by (simp add: map_of_eq_None_iff)
    moreover have "set (map fst (sl_files s1)) \<subseteq> set (map (request_key H) rs)"
      using mirrors_keys [OF s1(2)] assms(3) by (auto simp: counted_def)
    ultimately have "set (map fst (sl_files s1)) \<subset> set (map (request_key H) (rs @ [(t, i, n)]))"
      by (auto simp: k_def)
    then have "card (set (map fst (sl_files s1))) < card (set (map (request_key H) (rs @ [(t, i, n)])))"
      by (intro psubset_card_mono) auto
    moreover have "card (set (map fst (sl_files s1))) = length (sl_files s1)"
      using mirrors_keys [OF s1(2)] distinct_card by fastforce
    moreover have "card (set (map (request_key H) (rs @ [(t, i, n)]))) \<le> rc_maxBuckets cfg"
      using assms(2) unfolding regular_def by blast
    ultimately have "\<not> length (sl_files s1) \<ge> rc_maxBuckets cfg" by linarith
    then have "f = update_bucket (good_env rm t) n p k s1"
      using True s1(1) by (simp add: f_def open_bucket_def)
    then show ?thesis using s1(2) by blast
  qed
  then obtain s1 where "f = update_bucket (good_env rm t) n p k s1" "mirrors H cfg t rs bs (sl_files s1)" by blast
  then obtain s2 where s2: "f = (s2, Inr (decide True n p t (bk_count (next_bucket (window_start p t) t (map_of bs k)))))"
    and m: "mirrors H cfg t (rs @ [(t, i, n)]) (put_assoc k (next_bucket (window_start p t) t (map_of bs k)) bs) (sl_files s2)"
    using update_bucket_good [OF assms(1-4)] unfolding k_def by blast
  have "mirrors H cfg t (rs @ [(t, i, n)]) (put_assoc k (next_bucket (window_start p t) t (map_of bs k)) bs)
      (sl_files (maybe_cleanup cfg (good_env rm t) (s2\<lparr>sl_lastError := False\<rparr>)))"
    using m by (intro maybe_cleanup_good) simp
  moreover have "consume_shared H cfg (good_env rm t) i n s = (maybe_cleanup cfg (good_env rm t) (s2\<lparr>sl_lastError := False\<rparr>),
      Inr (decide True n p t (bk_count (next_bucket (window_start p t) t (map_of bs k)))))"
    using assms(4) s2 by (simp add: consume_shared_def Let_def f_def k_def split: if_splits)
  ultimately show ?thesis by (simp add: k_def)
qed

lemma shared_after_snoc:
  "shared_after H cfg rm (rs @ [(t, i, n)]) = fst (consume_shared H cfg (good_env rm t) i n (shared_after H cfg rm rs))"
  by (simp add: shared_after_def)

lemma shared_after_mirrors:
  "sane_limits cfg \<Longrightarrow> regular H cfg rs \<Longrightarrow> (\<And>r. r \<in> set rs \<Longrightarrow> request_time r \<le> t) \<Longrightarrow>
     mirrors H cfg t rs (memory_after H cfg rs) (sl_files (shared_after H cfg rm rs))"
proof (induction rs arbitrary: t rule: rev_induct)
  case Nil
  show ?case by (simp add: memory_after_def shared_after_def no_buckets_def mirrors_def)
next
  case (snoc r rs)
  obtain u i n where r: "r = (u, i, n)" by (cases r)
  note reg = snoc.prems(2)[unfolded r]
  obtain p where p: "map_of (rc_policies cfg) n = Some p" using regular_policy reg by blast
  have times: "\<And>x. x \<in> set rs \<Longrightarrow> request_time x \<le> u" "u \<le> t"
    using reg snoc.prems(3) [of r] r unfolding regular_def by (auto simp: sorted_append)
  note c = memory_after_counted [OF snoc.prems(1) regular_butlast [OF reg]]
  note m = snoc.IH [OF snoc.prems(1) regular_butlast [OF reg] times(1)]
  obtain s' where "consume_shared H cfg (good_env rm u) i n (shared_after H cfg rm rs)
      = (s', Inr (decide True n p u (bk_count (next_bucket (window_start p u) u (map_of (memory_after H cfg rs) (rate_key H n i))))))"
    and "mirrors H cfg u (rs @ [(u, i, n)]) (put_assoc (rate_key H n i) (next_bucket (window_start p u) u
        (map_of (memory_after H cfg rs) (rate_key H n i))) (memory_after H cfg rs)) (sl_files s')"
    using consume_shared_good [OF snoc.prems(1) reg c p m] by blast
  then have "mirrors H cfg u (rs @ [r]) (memory_after H cfg (rs @ [r])) (sl_files (shared_after H cfg rm (rs @ [r])))"
    using consume_memory [OF snoc.prems(1) reg c p] by (simp add: r memory_after_snoc shared_after_snoc)
  then show ?case using times(2) by (rule mirrors_mono) simp
qed

subsection \<open>Properties\<close>

text \<open>
  The window limit is enforced: after any run of requests in order of time, with no more
  distinct keys than the map of buckets holds, a further request is allowed exactly when the
  requests with its key in its window, itself included, are at most the limit of its policy.
\<close>

theorem window_limit_enforced:
  assumes "sane_limits cfg" and "regular H cfg (rs @ [(t, i, n)])"
  shows "\<exists>p d. map_of (rc_policies cfg) n = Some p \<and> snd (consume H cfg t i n (memory_after H cfg rs)) = Inr d
    \<and> (de_allowed d \<longleftrightarrow> int (hits H cfg (rs @ [(t, i, n)]) (rate_key H n i) (window_start p t)) \<le> rp_limit p)"
proof -
  obtain p where p: "map_of (rc_policies cfg) n = Some p" using regular_policy assms(2) by blast
  from consume_memory [OF assms memory_after_counted [OF assms(1) regular_butlast [OF assms(2)]] p] p
  show ?thesis by (simp add: decide_def Let_def)
qed

definition demo_limits :: rate_config where
  "demo_limits = \<lparr>rc_policies = default_policies, rc_enabled = True, rc_maxBuckets = 100, rc_cleanupMs = 300000\<rparr>"

definition demo_requests :: "rate_request list" where
  "demo_requests = [(1, ''ann'', ''read''), (1, ''bob'', ''write''), (2, ''ann'', ''read'')]"

lemma demo_limits_checks:
  "sane_limits demo_limits" "regular (\<lambda>s. s) demo_limits (demo_requests @ [(60000, ''ann'', ''read'')])"
  by (simp_all add: sane_limits_def demo_limits_def default_policies_def regular_def one_policy_def demo_requests_def rate_key_def card_insert_if)

theorem window_limit_enforced_witness:
  "\<exists>p d. map_of (rc_policies demo_limits) ''read'' = Some p
     \<and> snd (consume (\<lambda>s. s) demo_limits 60000 ''ann'' ''read'' (memory_after (\<lambda>s. s) demo_limits demo_requests)) = Inr d
     \<and> (de_allowed d \<longleftrightarrow> int (hits (\<lambda>s. s) demo_limits (demo_requests @ [(60000, ''ann'', ''read'')])
          (rate_key (\<lambda>s. s) ''read'' ''ann'') (window_start p 60000)) \<le> rp_limit p)"
  by (rule window_limit_enforced [OF demo_limits_checks])

text \<open>
  C21. The shared limiter and the limiter of one process are equivalent: over the same requests, at
  times that do not go back, under configured policies and with no more keys than the limiter in memory
  holds buckets, with its locks obtained and its files written, and whichever removals of expired
  buckets succeed, the shared limiter takes the same decisions, marked as distributed.
\<close>

theorem shared_limiter_agrees:
  assumes "sane_limits cfg" and "regular H cfg (rs @ [(t, i, n)])"
  shows "\<exists>d. snd (consume H cfg t i n (memory_after H cfg rs)) = Inr d
    \<and> snd (consume_shared H cfg (good_env rm t) i n (shared_after H cfg rm rs)) = Inr (d\<lparr>de_distributed := True\<rparr>)"
proof -
  obtain p where p: "map_of (rc_policies cfg) n = Some p" using regular_policy assms(2) by blast
  note c = memory_after_counted [OF assms(1) regular_butlast [OF assms(2)]]
  have "r \<in> set rs \<Longrightarrow> request_time r \<le> t" for r
    using assms(2) unfolding regular_def by (auto simp: sorted_append)
  then have m: "mirrors H cfg t rs (memory_after H cfg rs) (sl_files (shared_after H cfg rm rs))"
    by (rule shared_after_mirrors [OF assms(1) regular_butlast [OF assms(2)]])
  define b where "b = next_bucket (window_start p t) t (map_of (memory_after H cfg rs) (rate_key H n i))"
  have "snd (consume H cfg t i n (memory_after H cfg rs)) = Inr (decide False n p t (bk_count b))"
    using consume_memory [OF assms c p] by (simp add: b_def)
  moreover have "snd (consume_shared H cfg (good_env rm t) i n (shared_after H cfg rm rs)) = Inr (decide True n p t (bk_count b))"
    using consume_shared_good [OF assms c p m, of rm] unfolding b_def by (metis snd_conv)
  ultimately show ?thesis by (auto simp: decide_def Let_def)
qed

theorem shared_limiter_agrees_witness:
  "\<exists>d. snd (consume (\<lambda>s. s) demo_limits 60000 ''ann'' ''read'' (memory_after (\<lambda>s. s) demo_limits demo_requests)) = Inr d
     \<and> snd (consume_shared (\<lambda>s. s) demo_limits (good_env (\<lambda>_. True) 60000) ''ann'' ''read''
          (shared_after (\<lambda>s. s) demo_limits (\<lambda>_. True) demo_requests)) = Inr (d\<lparr>de_distributed := True\<rparr>)"
  by (rule shared_limiter_agrees [OF demo_limits_checks])

text \<open>
  The client's address cannot be forged: with \<open>h\<close> trusted proxies, whatever the client
  itself sends as \<open>x-forwarded-for\<close> in front of the part that the proxies append (at least \<open>h\<close>
  entries, joined by commas) does not change the address that the limits are counted for.
\<close>

lemma split_at_ne: "split_at c a \<noteq> []"
  by (induction a) (auto split: list.split)

lemma split_at_append: "split_at c (a @ c # b) = split_at c a @ split_at c b"
proof (induction a)
  case (Cons d a)
  then show ?case using split_at_ne [of c a] by (cases "split_at c a") auto
qed simp

definition forwarded_addresses :: "string \<Rightarrow> string list" where
  "forwarded_addresses s = filter (\<lambda>a. a \<noteq> []) (map (\<lambda>s. normalise_address (JStr s)) (split_at (CHR '','') s))"

lemma address_chain_forwarded:
  "address_chain remote (JStr s) = forwarded_addresses s @ [normalise_address (js_or_nullish remote (JStr ''unknown''))]"
  by (simp add: address_chain_def forwarded_addresses_def)

theorem client_address_not_forged:
  assumes "int_in 0 10 hops = Some h" and "nat h \<le> length (forwarded_addresses appended)"
  shows "resolve_client_address remote (JStr (forged @ '','' @ appended)) hops = resolve_client_address remote (JStr appended) hops"
proof -
  have "forwarded_addresses (forged @ '','' @ appended) = forwarded_addresses forged @ forwarded_addresses appended"
    by (simp add: forwarded_addresses_def split_at_append)
  moreover have "(xs @ ys) ! (length (xs @ ys) - k - 1) = ys ! (length ys - k - 1)" if "k + 1 \<le> length ys" for xs ys :: "string list" and k
    using that by (metis add_diff_assoc diff_diff_left length_append nth_append_length_plus)
  from this [of "nat h" "forwarded_addresses appended @ [normalise_address (js_or_nullish remote (JStr ''unknown''))]" "forwarded_addresses forged"]
  have "(forwarded_addresses forged @ forwarded_addresses appended @ [normalise_address (js_or_nullish remote (JStr ''unknown''))])
      ! (length (forwarded_addresses forged @ forwarded_addresses appended @ [normalise_address (js_or_nullish remote (JStr ''unknown''))]) - nat h - 1)
    = (forwarded_addresses appended @ [normalise_address (js_or_nullish remote (JStr ''unknown''))])
      ! (length (forwarded_addresses appended @ [normalise_address (js_or_nullish remote (JStr ''unknown''))]) - nat h - 1)"
    using assms(2) by simp
  ultimately show ?thesis
    using assms(1) unfolding resolve_client_address_def address_chain_forwarded Let_def by simp
qed

theorem client_address_not_forged_witness:
  "resolve_client_address (JStr ''10.0.0.1'') (JStr (''1.2.3.4'' @ '','' @ ''9.9.9.9'')) (JInt 1)
     = resolve_client_address (JStr ''10.0.0.1'') (JStr ''9.9.9.9'') (JInt 1)"
proof -
  have "int_in 0 10 (JInt 1) = Some 1" by simp
  moreover have "nat 1 \<le> length (forwarded_addresses ''9.9.9.9'')" by code_simp
  ultimately show ?thesis by (rule client_address_not_forged)
qed

end
