(* ===== verification/SnapshotStore.thy ===== *)
theory SnapshotStore
  imports Base64 Effects
begin

section \<open>The encrypted snapshot store (src/persistence/encryptedSnapshotStore.js)\<close>

text \<open>
  One encrypted file per tenant, named by the digest of the tenant identifier (\<open>H\<close>, the
  hexadecimal sha256). AES-256-GCM is ideal: an envelope records the key, the additional data
  and the plaintext it was sealed with, and opens exactly with that key and that data; any other
  text is no envelope. The content of a snapshot (the state and the governance events) is a type
  variable: that it has the arrays that \<open>validateSnapshot\<close> asks for is its type.
\<close>

subsection \<open>Data\<close>

datatype persist_error =
    BadTenant
  | BadSnapshot
  | Persistence string
  | FenceRejected nat nat

record 'c snapshot =
  sn_tenantId :: string
  sn_savedAt :: int
  sn_content :: 'c

type_synonym seal_data = "string \<times> string \<times> int \<times> string"

record 'c sealed =
  se_keyId :: string
  se_tenantHash :: string
  se_writtenAt :: int
  se_iv :: string
  se_key :: string
  se_aad :: seal_data
  se_plain :: "'c snapshot"

datatype 'c sealed_text = NotAnEnvelope | SealedText "'c sealed"

record snapshot_keys =
  sk_keyring :: "(string \<times> string) list"
  sk_primary :: string

subsection \<open>Keys and identifiers\<close>

definition key_entry :: "string \<times> jsval \<Rightarrow> string + string \<times> string" where
  "key_entry p = (case p of (keyId, encoded) \<Rightarrow>
     ensure (safe_ident ''._-'' 0 63 keyId) ''key id''
    (let key = buffer_from (js_String encoded) in ensure (length key = 32) keyId (Inr (keyId, key))))"

definition normalise_keyring :: "(string \<times> jsval) list \<Rightarrow> string + (string \<times> string) list" where
  "normalise_keyring entries = bindR (mapR key_entry entries) (\<lambda>ks. ensure (ks \<noteq> []) ''no key'' (Inr ks))"

definition make_keys :: "(string \<times> jsval) list \<Rightarrow> string \<Rightarrow> string + snapshot_keys" where
  "make_keys entries primary = bindR (normalise_keyring entries) (\<lambda>ks.
     ensure (map_of ks primary \<noteq> None) ''primaryKeyId'' (Inr \<lparr>sk_keyring = ks, sk_primary = primary\<rparr>))"

definition valid_tenant :: "string \<Rightarrow> bool" where
  "valid_tenant t = safe_ident ''._-'' 1 127 t"

definition hash_tenant :: "(string \<Rightarrow> string) \<Rightarrow> string \<Rightarrow> persist_error + string" where
  "hash_tenant H t = ensure (valid_tenant t) BadTenant (Inr (H t))"

definition valid_snapshot :: "'c snapshot \<Rightarrow> string \<Rightarrow> bool" where
  "valid_snapshot sn t = (sn_tenantId sn = t)"

subsection \<open>Sealing and opening\<close>

definition associated_data :: "'c sealed \<Rightarrow> seal_data" where
  "associated_data e = (se_keyId e, se_tenantHash e, se_writtenAt e, se_iv e)"

definition serialize ::
  "(string \<Rightarrow> string) \<Rightarrow> snapshot_keys \<Rightarrow> int \<Rightarrow> string \<Rightarrow> string \<Rightarrow> 'c snapshot \<Rightarrow> persist_error + 'c sealed_text" where
  "serialize H keys nowMs iv t sn =
     ensure (valid_tenant t) BadTenant
    (ensure (valid_snapshot sn t) BadSnapshot
    (bindR (from_option (Persistence ''key'') (map_of (sk_keyring keys) (sk_primary keys))) (\<lambda>key.
     let base = \<lparr>se_keyId = sk_primary keys, se_tenantHash = H t, se_writtenAt = nowMs, se_iv = iv, se_key = key,
           se_aad = (sk_primary keys, H t, nowMs, iv), se_plain = sn\<rparr>
     in Inr (SealedText base))))"

definition validate_envelope :: "(string \<Rightarrow> string) \<Rightarrow> 'c sealed \<Rightarrow> string \<Rightarrow> bool" where
  "validate_envelope H e t = (se_tenantHash e = H t)"

definition decrypt_sealed :: "snapshot_keys \<Rightarrow> 'c sealed \<Rightarrow> string \<Rightarrow> persist_error + 'c snapshot" where
  "decrypt_sealed keys e t =
     bindR (from_option (Persistence ''decrypt'') (map_of (sk_keyring keys) (se_keyId e))) (\<lambda>key.
     ensure (key = se_key e \<and> associated_data e = se_aad e) (Persistence ''decrypt'')
    (ensure (valid_snapshot (se_plain e) t) (Persistence ''decrypt'') (Inr (se_plain e))))"

definition inspect_encrypted ::
  "(string \<Rightarrow> string) \<Rightarrow> snapshot_keys \<Rightarrow> string \<Rightarrow> 'c sealed_text \<Rightarrow> persist_error + 'c sealed \<times> 'c snapshot" where
  "inspect_encrypted H keys t text = ensure (valid_tenant t) BadTenant
     (case text of
        NotAnEnvelope \<Rightarrow> Inl (Persistence ''inspect'')
      | SealedText e \<Rightarrow> ensure (validate_envelope H e t) (Persistence ''load'')
          (bindR (decrypt_sealed keys e t) (\<lambda>sn. Inr (e, sn))))"

subsection \<open>The files\<close>

text \<open>The files by name; a write replaces the file or fails before the rename (the directory sync cannot throw).\<close>

type_synonym 'c snapshot_files = "string \<Rightarrow> 'c sealed_text option"

definition tenant_path :: "(string \<Rightarrow> string) \<Rightarrow> string \<Rightarrow> string" where
  "tenant_path H t = H t @ ''.snapshot.enc''"

definition read_encrypted ::
  "(string \<Rightarrow> string) \<Rightarrow> snapshot_keys \<Rightarrow> string \<Rightarrow> 'c snapshot_files \<Rightarrow> persist_error + ('c snapshot \<times> 'c sealed_text) option" where
  "read_encrypted H keys t files = ensure (valid_tenant t) BadTenant
     (case files (tenant_path H t) of
        None \<Rightarrow> Inr None
      | Some text \<Rightarrow> bindR (inspect_encrypted H keys t text) (\<lambda>(e, sn). Inr (Some (sn, text))))"

definition load_snapshot ::
  "(string \<Rightarrow> string) \<Rightarrow> snapshot_keys \<Rightarrow> string \<Rightarrow> 'c snapshot_files \<Rightarrow> persist_error + 'c snapshot option" where
  "load_snapshot H keys t files = bindR (read_encrypted H keys t files) (\<lambda>r. Inr (map_option fst r))"

definition write_file :: "bool \<Rightarrow> string \<Rightarrow> 'c sealed_text \<Rightarrow> 'c snapshot_files \<Rightarrow> 'c snapshot_files \<times> (persist_error + unit)" where
  "write_file written path text files =
     (if written then (files(path \<mapsto> text), Inr ()) else (files, Inl (Persistence ''write'')))"

definition save_snapshot ::
  "(string \<Rightarrow> string) \<Rightarrow> snapshot_keys \<Rightarrow> int \<Rightarrow> string \<Rightarrow> bool \<Rightarrow> string \<Rightarrow> 'c snapshot \<Rightarrow> 'c snapshot_files
     \<Rightarrow> 'c snapshot_files \<times> (persist_error + unit)" where
  "save_snapshot H keys nowMs iv written t sn files = (case serialize H keys nowMs iv t sn of
     Inl e \<Rightarrow> (files, Inl e)
   | Inr text \<Rightarrow> write_file written (tenant_path H t) text files)"

definition write_encrypted ::
  "(string \<Rightarrow> string) \<Rightarrow> snapshot_keys \<Rightarrow> bool \<Rightarrow> string \<Rightarrow> 'c sealed_text \<Rightarrow> 'c snapshot_files
     \<Rightarrow> 'c snapshot_files \<times> (persist_error + 'c snapshot)" where
  "write_encrypted H keys written t text files = (case inspect_encrypted H keys t text of
     Inl e \<Rightarrow> (files, Inl e)
   | Inr (e, sn) \<Rightarrow> (case write_file written (tenant_path H t) text files of
       (files', Inl err) \<Rightarrow> (files', Inl err)
     | (files', Inr _) \<Rightarrow> (files', Inr sn)))"

subsection \<open>A sealed snapshot opens\<close>

lemma inspect_serialize:
  assumes "serialize H keys nowMs iv t sn = Inr text" and "map_of (sk_keyring keys') (sk_primary keys) = map_of (sk_keyring keys) (sk_primary keys)"
  shows "\<exists>e. inspect_encrypted H keys' t text = Inr (e, sn)"
  using assms
  by (auto simp: serialize_def inspect_encrypted_def validate_envelope_def decrypt_sealed_def associated_data_def Let_def)

lemma serialize_Inr: "serialize H keys nowMs iv t sn = Inr text \<Longrightarrow> valid_tenant t \<and> sn_tenantId sn = t"
  by (auto simp: serialize_def valid_snapshot_def)

lemma inspect_tenant: "inspect_encrypted H keys t text = Inr (e, sn) \<Longrightarrow> sn_tenantId sn = t \<and> valid_tenant t"
  by (auto simp: inspect_encrypted_def decrypt_sealed_def valid_snapshot_def split: sealed_text.splits)

end
