(* ===== verification/FencedStore.thy ===== *)
theory FencedStore
  imports SnapshotStore "HOL-Library.Sublist"
begin

section \<open>Versions under a fencing token (src/coordination/fencedSnapshotStore.js)\<close>

text \<open>
  One directory per tenant holds one package per fencing token; a snapshot is read from the
  package with the greatest token. A directory is the list of its version files by token, in the
  order in which the directory lists them. The store underneath is the interface
  \<open>snapshot_codec\<close>: it seals a snapshot into a text and opens it again. \<open>D\<close> is the digest of a
  text, \<open>HT\<close> the digest of the tenant identifier.
\<close>

subsection \<open>Packages\<close>

record 'x package =
  pk_tenantHash :: string
  pk_token :: nat
  pk_checksum :: string
  pk_serialized :: 'x

datatype 'x version_file = NotAPackage | Package "'x package"

type_synonym 'x versions = "(nat \<times> 'x version_file) list"

definition create_package :: "('x \<Rightarrow> string) \<Rightarrow> string \<Rightarrow> nat \<Rightarrow> 'x \<Rightarrow> 'x version_file" where
  "create_package D tenantHash token serialized =
     Package \<lparr>pk_tenantHash = tenantHash, pk_token = token, pk_checksum = D serialized, pk_serialized = serialized\<rparr>"

definition parse_package :: "('x \<Rightarrow> string) \<Rightarrow> string \<Rightarrow> nat \<Rightarrow> 'x version_file \<Rightarrow> persist_error + 'x package" where
  "parse_package D tenantHash expectedToken f = (case f of
     NotAPackage \<Rightarrow> Inl (Persistence ''package'')
   | Package p \<Rightarrow>
       ensure (pk_tenantHash p = tenantHash \<and> pk_token p = expectedToken) (Persistence ''binding'')
      (ensure (D (pk_serialized p) = pk_checksum p) (Persistence ''checksum'') (Inr p)))"

subsection \<open>Versions\<close>

text \<open>\<open>listVersions\<close>: by token, the greatest first.\<close>

definition list_versions :: "(nat \<times> 'f) list \<Rightarrow> (nat \<times> 'f) list" where
  "list_versions files = sort_key (\<lambda>(token, f). - int token) files"

definition latest_token :: "(nat \<times> 'f) list \<Rightarrow> nat" where
  "latest_token files = (case list_versions files of [] \<Rightarrow> 0 | (token, f) # _ \<Rightarrow> token)"

definition prune_versions :: "nat \<Rightarrow> (nat \<Rightarrow> bool) \<Rightarrow> (nat \<times> 'f) list \<Rightarrow> (nat \<times> 'f) list" where
  "prune_versions keep removed files =
     (let old = map fst (drop keep (list_versions files)) in
      filter (\<lambda>(token, f). \<not> (token \<in> set old \<and> removed token)) files)"

text \<open>\<open>Number.isSafeInteger(Number(value)) && token >= 1\<close>.\<close>

definition fencing_token :: "jsval \<Rightarrow> persist_error + nat" where
  "fencing_token v = bindR (from_option (FenceRejected 0 0) (int_in 1 9007199254740991 v)) (\<lambda>n. Inr (nat n))"

text \<open>The check against the latest version, and the write of the own one.\<close>

definition fence_allows :: "nat \<Rightarrow> (nat \<times> 'f) list \<Rightarrow> bool" where
  "fence_allows token files = (case list_versions files of [] \<Rightarrow> True | (latest, f) # _ \<Rightarrow> \<not> token < latest)"

definition write_version :: "nat \<Rightarrow> (nat \<Rightarrow> bool) \<Rightarrow> nat \<Rightarrow> 'f \<Rightarrow> (nat \<times> 'f) list \<Rightarrow> (nat \<times> 'f) list" where
  "write_version keep removed token f files = prune_versions keep removed (put_assoc token f files)"

definition fenced_save ::
  "('s \<Rightarrow> persist_error + 'x) \<Rightarrow> ('x \<Rightarrow> string) \<Rightarrow> string \<Rightarrow> nat \<Rightarrow> (nat \<Rightarrow> bool) \<Rightarrow> bool \<Rightarrow> jsval \<Rightarrow> 's \<Rightarrow> 'x versions
     \<Rightarrow> 'x versions \<times> (persist_error + nat)" where
  "fenced_save ser D tenantHash keep removed written fencingToken snapshot files =
     (case bindR (fencing_token fencingToken) (\<lambda>token.
           ensure (fence_allows token files) (FenceRejected token (latest_token files))
          (bindR (ser snapshot) (\<lambda>text. Inr (token, text))))
      of Inl e \<Rightarrow> (files, Inl e)
       | Inr (token, text) \<Rightarrow>
          (if written then (write_version keep removed token (create_package D tenantHash token text) files, Inr token)
           else (files, Inl (Persistence ''write''))))"

definition fenced_read ::
  "('x \<Rightarrow> persist_error + 's) \<Rightarrow> ('x \<Rightarrow> string) \<Rightarrow> string \<Rightarrow> (persist_error + 's option) \<Rightarrow> 'x versions \<Rightarrow> persist_error + 's option" where
  "fenced_read insp D tenantHash unfenced files = (case list_versions files of
     [] \<Rightarrow> unfenced
   | (token, f) # _ \<Rightarrow>
       bindR (parse_package D tenantHash token f) (\<lambda>p.
       bindR (insp (pk_serialized p)) (\<lambda>sn. Inr (Some sn))))"

definition fenced_write_encrypted ::
  "('s \<Rightarrow> persist_error + 'x) \<Rightarrow> ('x \<Rightarrow> persist_error + 's) \<Rightarrow> ('x \<Rightarrow> string) \<Rightarrow> string \<Rightarrow> nat \<Rightarrow> (nat \<Rightarrow> bool) \<Rightarrow> bool \<Rightarrow> jsval \<Rightarrow> 'x
     \<Rightarrow> 'x versions \<Rightarrow> 'x versions \<times> (persist_error + 's)" where
  "fenced_write_encrypted ser insp D tenantHash keep removed written fencingToken text files = (case insp text of
     Inl e \<Rightarrow> (files, Inl e)
   | Inr sn \<Rightarrow> (case fenced_save ser D tenantHash keep removed written fencingToken sn files of
       (files', Inl e) \<Rightarrow> (files', Inl e)
     | (files', Inr _) \<Rightarrow> (files', Inr sn)))"

subsection \<open>The latest version\<close>

lemma set_list_versions [simp]: "set (list_versions files) = set files"
  by (simp add: list_versions_def)

lemma list_versions_Nil: "list_versions files = [] \<longleftrightarrow> files = []"
  by (metis set_empty set_list_versions)

lemma list_versions_sorted: "list_versions files = (t, f) # r \<Longrightarrow> (u, g) \<in> set files \<Longrightarrow> u \<le> t"
proof -
  assume A: "list_versions files = (t, f) # r" "(u, g) \<in> set files"
  have "sorted (map (\<lambda>(token, f). - int token) (list_versions files))" by (simp add: list_versions_def)
  moreover have "(u, g) \<in> set ((t, f) # r)" using A by (metis set_list_versions)
  ultimately show ?thesis using A(1) by auto
qed

lemma latest_token_ge: "(u, g) \<in> set files \<Longrightarrow> u \<le> latest_token files"
  using list_versions_Nil [of files] by (cases "list_versions files") (auto simp: latest_token_def dest: list_versions_sorted)

lemma latest_token_in: "files \<noteq> [] \<Longrightarrow> \<exists>f. (latest_token files, f) \<in> set files"
proof (cases "list_versions files")
  case (Cons x r)
  obtain t f where x: "x = (t, f)" by (cases x)
  then have "latest_token files = t" using Cons by (simp add: latest_token_def)
  moreover have "(t, f) \<in> set files" using Cons x by (metis list.set_intros(1) set_list_versions)
  ultimately show ?thesis by blast
qed (simp add: list_versions_Nil)

lemma fence_allows_iff: "fence_allows token files \<longleftrightarrow> latest_token files \<le> token"
  by (cases "list_versions files") (auto simp: fence_allows_def latest_token_def)

text \<open>The file that \<open>load\<close> reads, when the directory lists each token once.\<close>

definition latest :: "(nat \<times> 'f) list \<Rightarrow> 'f option" where
  "latest files = map_of files (latest_token files)"

lemma latest_head: "distinct (map fst files) \<Longrightarrow> list_versions files = (t, f) # r \<Longrightarrow> latest_token files = t \<and> latest files = Some f"
proof -
  assume A: "distinct (map fst files)" "list_versions files = (t, f) # r"
  then have "(t, f) \<in> set files" by (metis list.set_intros(1) set_list_versions)
  then show ?thesis using A by (simp add: latest_def latest_token_def)
qed

lemma latest_None: "distinct (map fst files) \<Longrightarrow> latest files = None \<longleftrightarrow> files = []"
  using latest_token_in [of files] by (cases files) (auto simp: latest_def map_of_eq_None_iff image_iff)

subsection \<open>Pruning keeps the latest version\<close>

lemma distinct_versions: "distinct (map fst (list_versions files)) \<longleftrightarrow> distinct (map fst files)"
  by (simp add: list_versions_def distinct_map)

lemma prune_versions_mem:
  "0 < keep \<Longrightarrow> distinct (map fst files) \<Longrightarrow> (latest_token files, f) \<in> set files \<Longrightarrow>
     (latest_token files, f) \<in> set (prune_versions keep removed files)"
proof -
  assume A: "0 < keep" "distinct (map fst files)" "(latest_token files, f) \<in> set files"
  obtain t g r where l: "list_versions files = (t, g) # r"
    using A(3) list_versions_Nil [of files] by (cases "list_versions files") auto
  have "distinct (map fst (list_versions files))" using A(2) by (simp add: distinct_versions)
  then have "t \<notin> fst ` set r" using l by simp
  moreover have "set (drop keep (list_versions files)) \<subseteq> set r"
    using A(1) l set_drop_subset [of "keep - 1" r] by (cases keep) auto
  ultimately have "t \<notin> set (map fst (drop keep (list_versions files)))" by auto
  then show ?thesis using A(3) l by (simp add: prune_versions_def latest_token_def)
qed

lemma prune_versions_subset: "set (prune_versions keep removed files) \<subseteq> set files"
  by (auto simp: prune_versions_def Let_def)

lemma prune_versions_distinct: "distinct (map fst files) \<Longrightarrow> distinct (map fst (prune_versions keep removed files))"
  by (simp add: prune_versions_def Let_def distinct_map_filter)

lemma latest_token_eqI:
  "(t, f) \<in> set files \<Longrightarrow> (\<And>u g. (u, g) \<in> set files \<Longrightarrow> u \<le> t) \<Longrightarrow> latest_token files = t"
proof -
  assume A: "(t, f) \<in> set files" "\<And>u g. (u, g) \<in> set files \<Longrightarrow> u \<le> t"
  then have "files \<noteq> []" by auto
  then obtain g where "(latest_token files, g) \<in> set files" using latest_token_in by blast
  then show ?thesis using A(2) latest_token_ge [OF A(1)] by (simp add: le_antisym)
qed

lemma prune_versions_latest:
  assumes "0 < keep" and "distinct (map fst files)"
  shows "latest_token (prune_versions keep removed files) = latest_token files \<and> latest (prune_versions keep removed files) = latest files"
proof (cases "files = []")
  case True
  then show ?thesis by (simp add: prune_versions_def list_versions_def)
next
  case False
  then obtain f where f: "(latest_token files, f) \<in> set files" using latest_token_in by blast
  note keep = prune_versions_mem [OF assms f, of removed]
  have t: "latest_token (prune_versions keep removed files) = latest_token files"
  proof (rule latest_token_eqI [OF keep])
    fix u g assume "(u, g) \<in> set (prune_versions keep removed files)"
    from subsetD [OF prune_versions_subset this] show "u \<le> latest_token files" by (rule latest_token_ge)
  qed
  moreover have "map_of (prune_versions keep removed files) (latest_token files) = Some f"
    using keep prune_versions_distinct [OF assms(2)] by simp
  moreover have "map_of files (latest_token files) = Some f" using f assms(2) by simp
  ultimately show ?thesis unfolding latest_def by simp
qed

subsection \<open>The abstract register\<close>

text \<open>
  A tenant's directory implements a register that holds the snapshot of the greatest token:
  a write with a smaller token is refused, any other replaces the snapshot.
\<close>

fun register_write :: "nat \<Rightarrow> 'f \<Rightarrow> (nat \<times> 'f) option \<Rightarrow> (nat \<times> 'f) option" where
  "register_write token f None = Some (token, f)"
| "register_write token f (Some (t, g)) = (if token < t then Some (t, g) else Some (token, f))"

definition register :: "(nat \<times> 'f) list \<Rightarrow> (nat \<times> 'f) option" where
  "register files = map_option (Pair (latest_token files)) (latest files)"

lemma latest_put:
  assumes "distinct (map fst files)"
  shows "latest_token (put_assoc t f files) = (if files = [] then t else max t (latest_token files))
    \<and> latest (put_assoc t f files) = (if files = [] \<or> latest_token files \<le> t then Some f else latest files)"
proof -
  have t: "latest_token (put_assoc t f files) = (if files = [] then t else max t (latest_token files))"
  proof (cases "files = [] \<or> latest_token files \<le> t")
    case True
    have "(t, f) \<in> set (put_assoc t f files)" by (induction files) auto
    moreover have "u \<le> t" if "(u, g) \<in> set (put_assoc t f files)" for u g
      using put_assoc_in [OF that] True latest_token_ge by fastforce
    ultimately show ?thesis using True by (subst latest_token_eqI) auto
  next
    case False
    then obtain g where g: "(latest_token files, g) \<in> set files" using latest_token_in by blast
    then have "(latest_token files, g) \<in> set (put_assoc t f files)"
      using False assms by (metis distinct_put_assoc fun_upd_other map_of_eq_Some_iff map_of_put_assoc nle_le)
    moreover have "u \<le> latest_token files" if "(u, h) \<in> set (put_assoc t f files)" for u h
      using put_assoc_in [OF that] False latest_token_ge by fastforce
    ultimately have "latest_token (put_assoc t f files) = latest_token files" by (rule latest_token_eqI)
    then show ?thesis using False by simp
  qed
  show ?thesis using t by (auto simp: latest_def max_def)
qed

lemma register_write_version:
  assumes "0 < keep" and "distinct (map fst files)" and "fence_allows t files"
  shows "register (write_version keep removed t f files) = register_write t f (register files)
    \<and> distinct (map fst (write_version keep removed t f files))"
proof -
  note d = distinct_put_assoc [OF assms(2), of t f]
  have "latest_token files \<le> t" using assms(3) by (simp add: fence_allows_iff)
  then show ?thesis
    using prune_versions_latest [OF assms(1) d, of removed] latest_put [OF assms(2), of t f] prune_versions_distinct [OF d]
      latest_None [OF assms(2)]
    by (cases "latest files") (auto simp: register_def write_version_def max_def)
qed

subsection \<open>The store underneath\<close>

locale snapshot_codec =
  fixes ser :: "string \<Rightarrow> 's \<Rightarrow> persist_error + 'x"
    and insp :: "string \<Rightarrow> 'x \<Rightarrow> persist_error + 's"
  assumes opens: "ser t sn = Inr text \<Longrightarrow> insp t text = Inr sn"
begin

lemma save_then_read:
  assumes "0 < keep" and "distinct (map fst files)"
    and "fenced_save (ser t) D tenantHash keep removed written fencingToken sn files = (files', Inr token)"
  shows "fenced_read (insp t) D tenantHash unfenced files' = Inr (Some sn)
    \<and> register files' = Some (token, create_package D tenantHash token (projr (ser t sn)))
    \<and> latest_token files \<le> token \<and> distinct (map fst files')"
proof -
  obtain x where t: "fence_allows token files" "ser t sn = Inr x"
    and files': "files' = write_version keep removed token (create_package D tenantHash token x) files"
    using assms(3) by (auto simp: fenced_save_def split: sum.splits if_splits)
  note w = register_write_version [OF assms(1,2) t(1), of removed "create_package D tenantHash token x"]
  have le: "latest_token files \<le> token" using t(1) by (simp add: fence_allows_iff)
  have reg: "register files' = Some (token, create_package D tenantHash token x)"
    using w le files' by (cases "latest files") (auto simp: register_def)
  then have head: "latest_token files' = token" "latest files' = Some (create_package D tenantHash token x)"
    by (auto simp: register_def)
  moreover have "files' \<noteq> []" using head by (auto simp: latest_def)
  then obtain f r where "list_versions files' = (token, f) # r"
    using list_versions_Nil [of files'] latest_head w files' head(1)
    by (cases "list_versions files'") (auto simp: latest_token_def)
  ultimately have "list_versions files' = (token, create_package D tenantHash token x) # r"
    using latest_head w files' by force
  then show ?thesis
    using t opens reg le w files'
    by (simp add: fenced_read_def parse_package_def create_package_def)
qed

lemma save_refused:
  "token < latest_token files \<Longrightarrow> fencing_token fencingToken = Inr token \<Longrightarrow>
     fenced_save (ser t) D tenantHash keep removed written fencingToken sn files = (files, Inl (FenceRejected token (latest_token files)))"
  by (simp add: fenced_save_def fence_allows_iff)

end

definition opened :: "(string \<Rightarrow> string) \<Rightarrow> snapshot_keys \<Rightarrow> string \<Rightarrow> 'c sealed_text \<Rightarrow> persist_error + 'c snapshot" where
  "opened H keys t text = bindR (inspect_encrypted H keys t text) (\<lambda>(e, sn). Inr sn)"

interpretation encrypted: snapshot_codec "serialize H keys nowMs iv" "opened H keys" for H keys nowMs iv
  by unfold_locales (use inspect_serialize in \<open>fastforce simp: opened_def\<close>)

subsection \<open>Properties\<close>

text \<open>
  C14. The fenced store is a register ordered by fencing tokens: a write with a token smaller than
  a stored one is refused and changes nothing; any other is committed, its token is then the
  greatest, and the next \<open>load\<close> decrypts, checks and returns the very snapshot, whatever the
  pruning of old versions does.
\<close>

theorem fenced_store_is_a_register:
  assumes "0 < keep" and "distinct (map fst files)" and "fencing_token fencingToken = Inr token"
    and "serialize H keys nowMs iv t sn = Inr x"
    and "fenced_save (serialize H keys nowMs iv t) D tenantHash keep removed True fencingToken sn files = (files', res)"
  shows "if token < latest_token files then files' = files \<and> res = Inl (FenceRejected token (latest_token files))
    else res = Inr token \<and> latest_token files' = token \<and> fenced_read (opened H keys t) D tenantHash unfenced files' = Inr (Some sn)"
proof (cases "token < latest_token files")
  case True
  then show ?thesis
    using encrypted.save_refused [OF True assms(3), of H keys nowMs iv t D tenantHash keep removed True sn] assms(5) by simp
next
  case False
  then have "res = Inr token" using assms(3-5) by (auto simp: fenced_save_def fence_allows_iff)
  with encrypted.save_then_read [OF assms(1,2), of H keys nowMs iv t D tenantHash removed True fencingToken sn] assms(5) False
  show ?thesis by (auto simp: register_def)
qed

definition demo_keys :: snapshot_keys where
  "demo_keys = \<lparr>sk_keyring = [(''k1'', ''secret'')], sk_primary = ''k1''\<rparr>"

definition demo_snapshot :: "nat snapshot" where
  "demo_snapshot = \<lparr>sn_tenantId = ''acme'', sn_savedAt = 0, sn_content = 7\<rparr>"

theorem fenced_store_is_a_register_witness:
  "\<exists>files'. fenced_save (serialize (\<lambda>s. s) demo_keys 0 ''iv'' ''acme'') (\<lambda>_. ''d'') ''acme'' 2 (\<lambda>_. True) True (JInt 4) demo_snapshot
      [(3, NotAPackage), (2, NotAPackage)] = (files', Inr 4)
     \<and> fenced_read (opened (\<lambda>s. s) demo_keys ''acme'') (\<lambda>_. ''d'') ''acme'' (Inr None) files' = Inr (Some demo_snapshot)"
proof -
  obtain files' res where r: "fenced_save (serialize (\<lambda>s. s) demo_keys 0 ''iv'' ''acme'') (\<lambda>_. ''d'') ''acme'' 2 (\<lambda>_. True) True (JInt 4)
      demo_snapshot [(3, NotAPackage), (2, NotAPackage)] = (files', res)" by (rule prod.exhaust)
  have f: "fencing_token (JInt 4) = Inr 4" by (simp add: fencing_token_def)
  obtain x where x: "serialize (\<lambda>s. s) demo_keys 0 ''iv'' ''acme'' demo_snapshot = Inr x"
    by (simp add: serialize_def demo_keys_def demo_snapshot_def valid_tenant_def safe_ident_def is_alnum_def valid_snapshot_def Let_def)
  have l: "latest_token [(3, NotAPackage :: nat sealed_text version_file), (2, NotAPackage)] = 3" by (simp add: latest_token_def list_versions_def)
  show ?thesis
    using fenced_store_is_a_register [OF _ _ f x r, of "Inr None"] r l by auto
qed

end
