(* ===== verification/LeaseProtocol.thy ===== *)
theory LeaseProtocol
  imports FencedStore
begin

section \<open>Write leases and fencing between processes (src/coordination/fileLeaseCoordinator.js)\<close>

text \<open>
  One tenant's coordinated write, as \<open>write\<close> of src/coordination/coordinatedRegistry.js runs it:
  acquire the lease, check it, load the latest snapshot, save the changed one under the fencing
  token, check the lease again, release it. Every step of a process is one file-system call (with
  the computation up to the next one). The files are the lease directory with its owner file, the
  counter of fencing tokens, and the fenced versions of FencedStore.thy. A snapshot is the list of
  the calls it contains: call \<open>p\<close> saves what it loaded with \<open>p\<close> appended, so a lost update shows.
  One process number stands for one call; \<open>lc_owner\<close> gives its instance.
\<close>

subsection \<open>State\<close>

record lease_owner =
  lo_ownerId :: nat
  lo_token :: nat
  lo_expiresAt :: int

record lease_dir =
  le_owner :: "lease_owner option"
  le_mtime :: int

datatype lease_result = LFinished | LBusy | LUnavailable | LLost | LRejected

datatype lease_pc =
    LIdle
  | LTrying int
  | LMade
  | LCounted nat
  | LOwner nat
  | LReading int
  | LStatting int
  | LTakeover int
  | LHolding nat
  | LChecked nat
  | LLoading nat
  | LSaving nat "nat list"
  | LWriting nat "nat list"
  | LSaved nat
  | LRechecked nat
  | LReleasing nat lease_result
  | LRemoving nat lease_result
  | LReturned lease_result
  | LDead

record lease_config =
  lc_leaseMs :: int
  lc_timeoutMs :: int
  lc_owner :: "nat \<Rightarrow> nat"
  lc_keep :: nat

record lease_state =
  lt_dir :: "lease_dir option"
  lt_clock :: int
  lt_fence :: nat
  lt_versions :: "(nat \<times> nat list) list"
  lt_pc :: "nat \<Rightarrow> lease_pc"

definition lease_start :: lease_state where
  "lease_start = \<lparr>lt_dir = None, lt_clock = 0, lt_fence = 0, lt_versions = [], lt_pc = (\<lambda>_. LIdle)\<rparr>"

datatype lease_action = LTick int | LGo nat | LFault nat | LCrash nat

definition at :: "nat \<Rightarrow> lease_pc \<Rightarrow> lease_state \<Rightarrow> lease_state" where
  "at p pc s = s\<lparr>lt_pc := (lt_pc s)(p := pc)\<rparr>"

subsection \<open>The lease directory\<close>

definition read_lease :: "lease_state \<Rightarrow> lease_owner option" where
  "read_lease s = (case lt_dir s of None \<Rightarrow> None | Some d \<Rightarrow> le_owner d)"

definition same_lease :: "lease_config \<Rightarrow> nat \<Rightarrow> nat \<Rightarrow> lease_owner option \<Rightarrow> bool" where
  "same_lease cfg p token o' = (case o' of None \<Rightarrow> False
     | Some r \<Rightarrow> lo_ownerId r = lc_owner cfg p \<and> lo_token r = token)"

definition lease_expired :: "lease_owner \<Rightarrow> lease_state \<Rightarrow> bool" where
  "lease_expired r s = (lo_expiresAt r \<le> lt_clock s)"

definition orphaned :: "lease_config \<Rightarrow> lease_state \<Rightarrow> bool" where
  "orphaned cfg s = (case lt_dir s of None \<Rightarrow> True | Some d \<Rightarrow> lt_clock s - le_mtime d \<ge> lc_leaseMs cfg)"

definition lease_valid :: "lease_config \<Rightarrow> nat \<Rightarrow> nat \<Rightarrow> lease_state \<Rightarrow> bool" where
  "lease_valid cfg p token s = (case read_lease s of None \<Rightarrow> False
     | Some r \<Rightarrow> same_lease cfg p token (Some r) \<and> \<not> lease_expired r s)"

text \<open>\<open>assertValid\<close>: go on, or leave the section reporting the lease as lost.\<close>

definition assert_valid :: "lease_config \<Rightarrow> nat \<Rightarrow> nat \<Rightarrow> lease_pc \<Rightarrow> lease_state \<Rightarrow> lease_state" where
  "assert_valid cfg p token next s = at p (if lease_valid cfg p token s then next else LReleasing token LLost) s"

definition try_directory :: "nat \<Rightarrow> int \<Rightarrow> lease_state \<Rightarrow> lease_state" where
  "try_directory p deadline s = (case lt_dir s of
     None \<Rightarrow> at p LMade (s\<lparr>lt_dir := Some \<lparr>le_owner = None, le_mtime = lt_clock s\<rparr>\<rparr>)
   | Some _ \<Rightarrow> at p (LReading deadline) s)"

text \<open>\<open>nextFencingToken\<close> reads the counter and then replaces it; neither depends on the lease directory.\<close>

definition read_counter :: "nat \<Rightarrow> lease_state \<Rightarrow> lease_state" where
  "read_counter p s = at p (LCounted (lt_fence s)) s"

definition write_counter :: "nat \<Rightarrow> nat \<Rightarrow> lease_state \<Rightarrow> lease_state" where
  "write_counter p n s = at p (LOwner (n + 1)) (s\<lparr>lt_fence := n + 1\<rparr>)"

text \<open>The owner file is renamed into place, in a directory that the write creates if it is missing.\<close>

definition put_owner :: "lease_config \<Rightarrow> nat \<Rightarrow> nat \<Rightarrow> lease_state \<Rightarrow> lease_state" where
  "put_owner cfg p token s = at p (LHolding token) (s\<lparr>lt_dir := Some
     \<lparr>le_owner = Some \<lparr>lo_ownerId = lc_owner cfg p, lo_token = token, lo_expiresAt = lt_clock s + lc_leaseMs cfg\<rparr>,
      le_mtime = lt_clock s\<rparr>\<rparr>)"

definition wait_or_give_up :: "nat \<Rightarrow> int \<Rightarrow> lease_state \<Rightarrow> lease_state" where
  "wait_or_give_up p deadline s = at p (if deadline \<le> lt_clock s then LReturned LBusy else LTrying deadline) s"

definition look_at_owner :: "nat \<Rightarrow> int \<Rightarrow> lease_state \<Rightarrow> lease_state" where
  "look_at_owner p deadline s = (case read_lease s of
     None \<Rightarrow> at p (LStatting deadline) s
   | Some r \<Rightarrow> if lease_expired r s then at p (LTakeover deadline) s else wait_or_give_up p deadline s)"

definition look_at_directory :: "lease_config \<Rightarrow> nat \<Rightarrow> int \<Rightarrow> lease_state \<Rightarrow> lease_state" where
  "look_at_directory cfg p deadline s =
     (if orphaned cfg s then at p (LTakeover deadline) s else wait_or_give_up p deadline s)"

definition take_over :: "nat \<Rightarrow> int \<Rightarrow> lease_state \<Rightarrow> lease_state" where
  "take_over p deadline s = at p (LTrying deadline) (s\<lparr>lt_dir := None\<rparr>)"

definition release_lease :: "lease_config \<Rightarrow> nat \<Rightarrow> nat \<Rightarrow> lease_result \<Rightarrow> lease_state \<Rightarrow> lease_state" where
  "release_lease cfg p token r s =
     at p (if same_lease cfg p token (read_lease s) then LRemoving token r else LReturned r) s"

definition remove_lease :: "nat \<Rightarrow> lease_result \<Rightarrow> lease_state \<Rightarrow> lease_state" where
  "remove_lease p r s = at p (LReturned r) (s\<lparr>lt_dir := None\<rparr>)"

subsection \<open>The operation under the lease\<close>

definition current_snapshot :: "lease_state \<Rightarrow> nat list" where
  "current_snapshot s = (case latest (lt_versions s) of None \<Rightarrow> [] | Some c \<Rightarrow> c)"

definition check_fence :: "nat \<Rightarrow> nat \<Rightarrow> nat list \<Rightarrow> lease_state \<Rightarrow> lease_state" where
  "check_fence p token base s =
     at p (if fence_allows token (lt_versions s) then LWriting token base else LReleasing token LRejected) s"

definition write_snapshot :: "lease_config \<Rightarrow> nat \<Rightarrow> nat \<Rightarrow> nat list \<Rightarrow> lease_state \<Rightarrow> lease_state" where
  "write_snapshot cfg p token base s = at p (LSaved token)
     (s\<lparr>lt_versions := write_version (lc_keep cfg) (\<lambda>_. True) token (base @ [p]) (lt_versions s)\<rparr>)"

definition lease_go :: "lease_config \<Rightarrow> nat \<Rightarrow> lease_state \<Rightarrow> lease_state" where
  "lease_go cfg p s = (case lt_pc s p of
     LIdle \<Rightarrow> at p (LTrying (lt_clock s + lc_timeoutMs cfg)) s
   | LTrying deadline \<Rightarrow> try_directory p deadline s
   | LMade \<Rightarrow> read_counter p s
   | LCounted n \<Rightarrow> write_counter p n s
   | LOwner token \<Rightarrow> put_owner cfg p token s
   | LReading deadline \<Rightarrow> look_at_owner p deadline s
   | LStatting deadline \<Rightarrow> look_at_directory cfg p deadline s
   | LTakeover deadline \<Rightarrow> take_over p deadline s
   | LHolding token \<Rightarrow> assert_valid cfg p token (LChecked token) s
   | LChecked token \<Rightarrow> assert_valid cfg p token (LLoading token) s
   | LLoading token \<Rightarrow> at p (LSaving token (current_snapshot s)) s
   | LSaving token base \<Rightarrow> check_fence p token base s
   | LWriting token base \<Rightarrow> write_snapshot cfg p token base s
   | LSaved token \<Rightarrow> assert_valid cfg p token (LRechecked token) s
   | LRechecked token \<Rightarrow> assert_valid cfg p token (LReleasing token LFinished) s
   | LReleasing token r \<Rightarrow> release_lease cfg p token r s
   | LRemoving token r \<Rightarrow> remove_lease p r s
   | LReturned r \<Rightarrow> s
   | LDead \<Rightarrow> s)"

text \<open>
  A call that fails otherwise: during the setup the directory is removed again; an owner file
  that cannot be read counts as none; a failing load or save ends the operation.
\<close>

definition lease_fault :: "nat \<Rightarrow> lease_state \<Rightarrow> lease_state" where
  "lease_fault p s = (case lt_pc s p of
     LTrying deadline \<Rightarrow> at p (LReturned LUnavailable) s
   | LMade \<Rightarrow> at p (LReturned LUnavailable) (s\<lparr>lt_dir := None\<rparr>)
   | LCounted n \<Rightarrow> at p (LReturned LUnavailable) (s\<lparr>lt_dir := None\<rparr>)
   | LOwner token \<Rightarrow> at p (LReturned LUnavailable) (s\<lparr>lt_dir := None\<rparr>)
   | LReading deadline \<Rightarrow> at p (LStatting deadline) s
   | LStatting deadline \<Rightarrow> wait_or_give_up p deadline s
   | LTakeover deadline \<Rightarrow> at p (LReturned LUnavailable) s
   | LHolding token \<Rightarrow> at p (LReleasing token LLost) s
   | LChecked token \<Rightarrow> at p (LReleasing token LLost) s
   | LLoading token \<Rightarrow> at p (LReleasing token LUnavailable) s
   | LSaving token base \<Rightarrow> at p (LReleasing token LUnavailable) s
   | LWriting token base \<Rightarrow> at p (LReleasing token LUnavailable) s
   | LSaved token \<Rightarrow> at p (LReleasing token LLost) s
   | LRechecked token \<Rightarrow> at p (LReleasing token LLost) s
   | LReleasing token r \<Rightarrow> at p (LReturned r) s
   | LRemoving token r \<Rightarrow> at p (LReturned LUnavailable) s
   | _ \<Rightarrow> s)"

fun lease_step :: "lease_config \<Rightarrow> lease_action \<Rightarrow> lease_state \<Rightarrow> lease_state" where
  "lease_step cfg (LTick n) s = s\<lparr>lt_clock := lt_clock s + max 0 n\<rparr>"
| "lease_step cfg (LGo p) s = lease_go cfg p s"
| "lease_step cfg (LFault p) s = lease_fault p s"
| "lease_step cfg (LCrash p) s = at p LDead s"

fun lease_run :: "lease_config \<Rightarrow> lease_action list \<Rightarrow> lease_state \<Rightarrow> lease_state" where
  "lease_run cfg [] s = s"
| "lease_run cfg (a # as) s = lease_run cfg as (lease_step cfg a s)"

subsection \<open>Lost updates\<close>

definition default_lease :: lease_config where
  "default_lease = \<lparr>lc_leaseMs = 30000, lc_timeoutMs = 1000, lc_owner = (\<lambda>p. p), lc_keep = 5\<rparr>"

definition go :: "nat \<Rightarrow> nat \<Rightarrow> lease_action list" where
  "go p n = replicate n (LGo p)"

text \<open>
  Call 0 ends while call 2 looks at its lease directory: call 2 takes the vanished directory for
  an orphan. Call 1 creates its directory and reads the counter; call 2 renames that directory
  away, creates its own and reads the same counter: both have the same token. Call 1 overwrites
  the owner file of call 2, which has loaded already, and completes; call 2 then saves.
\<close>

definition token_race :: "lease_action list" where
  "token_race = go 0 13 @ go 2 2 @ go 0 1 @ go 2 2 @ go 1 3 @ go 2 3 @ go 1 1 @ go 2 5 @ go 1 10 @ go 2 4"

subsection \<open>The latest version after any write\<close>

lemma write_version_latest:
  assumes "0 < keep" and "distinct (map fst files)"
  shows "latest_token (write_version keep removed t f files) = max t (latest_token files)"
    and "latest (write_version keep removed t f files) = (if latest_token files \<le> t then Some f else latest files)"
    and "distinct (map fst (write_version keep removed t f files))"
proof -
  note d = distinct_put_assoc [OF assms(2), of t f]
  note keep = prune_versions_latest [OF assms(1) d, of removed] and put = latest_put [OF assms(2), of t f]
  have nil: "latest_token ([] :: (nat \<times> 'a) list) = 0" "latest ([] :: (nat \<times> 'a) list) = None"
    by (simp_all add: latest_token_def latest_def list_versions_def)
  show "latest_token (write_version keep removed t f files) = max t (latest_token files)"
    using keep put nil by (cases "files = []") (simp_all add: write_version_def)
  show "latest (write_version keep removed t f files) = (if latest_token files \<le> t then Some f else latest files)"
    using keep put nil by (cases "files = []") (simp_all add: write_version_def)
  show "distinct (map fst (write_version keep removed t f files))"
    using prune_versions_distinct [OF d] by (simp add: write_version_def)
qed

subsection \<open>What is kept while directories are removed only by their right\<close>

fun in_setup :: "lease_pc \<Rightarrow> bool" where
  "in_setup LMade = True" | "in_setup (LCounted n) = True" | "in_setup (LOwner t) = True" | "in_setup _ = False"

fun token_of :: "lease_pc \<Rightarrow> nat option" where
  "token_of (LOwner t) = Some t" | "token_of (LHolding t) = Some t" | "token_of (LChecked t) = Some t"
| "token_of (LLoading t) = Some t" | "token_of (LSaving t b) = Some t" | "token_of (LWriting t b) = Some t"
| "token_of (LSaved t) = Some t" | "token_of (LRechecked t) = Some t" | "token_of _ = None"

fun finished :: "lease_pc \<Rightarrow> bool" where
  "finished (LReleasing t r) = (r = LFinished)" | "finished (LRemoving t r) = (r = LFinished)"
| "finished (LReturned r) = (r = LFinished)" | "finished _ = False"

fun loaded :: "lease_pc \<Rightarrow> nat list option" where
  "loaded (LSaving t b) = Some b" | "loaded (LWriting t b) = Some b" | "loaded _ = None"

fun has_saved :: "lease_pc \<Rightarrow> bool" where
  "has_saved (LSaved t) = True" | "has_saved (LRechecked t) = True" | "has_saved _ = False"

text \<open>
  A removal of a directory is rightful when the takeover renames away a lease that is expired at
  that moment, or a directory without owner in whose setup no process is; and when the release
  removes its own lease.
\<close>

definition rightful :: "lease_config \<Rightarrow> lease_action \<Rightarrow> lease_state \<Rightarrow> bool" where
  "rightful cfg a s = (case a of LGo p \<Rightarrow> (case lt_pc s p of
       LTakeover d \<Rightarrow> (case read_lease s of
          Some r \<Rightarrow> lease_expired r s | None \<Rightarrow> lt_dir s = None \<or> (\<forall>q. \<not> in_setup (lt_pc s q)))
     | LRemoving t r \<Rightarrow> lt_dir s = None \<or> same_lease cfg p t (read_lease s)
     | _ \<Rightarrow> True) | _ \<Rightarrow> True)"

fun all_rightful :: "lease_config \<Rightarrow> lease_action list \<Rightarrow> lease_state \<Rightarrow> bool" where
  "all_rightful cfg [] s = True"
| "all_rightful cfg (a # as) s = (rightful cfg a s \<and> all_rightful cfg as (lease_step cfg a s))"

text \<open>The setup: one process at most, in a directory without owner; the counter is the greatest token.\<close>

definition setup_ok :: "lease_state \<Rightarrow> bool" where
  "setup_ok s = ((\<forall>p q. in_setup (lt_pc s p) \<longrightarrow> in_setup (lt_pc s q) \<longrightarrow> p = q)
     \<and> (\<forall>p. in_setup (lt_pc s p) \<longrightarrow> lt_dir s \<noteq> None \<and> read_lease s = None)
     \<and> (\<forall>p n. lt_pc s p = LCounted n \<longrightarrow> n = lt_fence s) \<and> (\<forall>p t. lt_pc s p = LOwner t \<longrightarrow> t = lt_fence s)
     \<and> (\<forall>r. read_lease s = Some r \<longrightarrow> lo_token r = lt_fence s))"

definition tokens_fenced :: "lease_state \<Rightarrow> bool" where
  "tokens_fenced s = ((\<forall>p t. token_of (lt_pc s p) = Some t \<longrightarrow> t \<le> lt_fence s)
     \<and> (\<forall>p q t. token_of (lt_pc s p) = Some t \<longrightarrow> token_of (lt_pc s q) = Some t \<longrightarrow> p = q)
     \<and> latest_token (lt_versions s) \<le> lt_fence s \<and> distinct (map fst (lt_versions s)))"

definition updates_kept :: "lease_state \<Rightarrow> bool" where
  "updates_kept s = ((\<forall>p. finished (lt_pc s p) \<longrightarrow> p \<in> set (current_snapshot s))
     \<and> (\<forall>p q t b. token_of (lt_pc s q) = Some t \<longrightarrow> loaded (lt_pc s q) = Some b \<longrightarrow> latest_token (lt_versions s) \<le> t \<longrightarrow>
          finished (lt_pc s p) \<longrightarrow> p \<in> set b)
     \<and> (\<forall>p t. token_of (lt_pc s p) = Some t \<longrightarrow> has_saved (lt_pc s p) \<longrightarrow>
          t < latest_token (lt_versions s) \<or> t = latest_token (lt_versions s) \<and> p \<in> set (current_snapshot s)))"

lemma at_simps [simp]:
  "lt_dir (at p pc s) = lt_dir s" "lt_clock (at p pc s) = lt_clock s" "lt_fence (at p pc s) = lt_fence s"
  "lt_versions (at p pc s) = lt_versions s" "lt_pc (at p pc s) = (lt_pc s)(p := pc)"
  "read_lease (at p pc s) = read_lease s" "current_snapshot (at p pc s) = current_snapshot s"
  by (simp_all add: at_def read_lease_def current_snapshot_def)

text \<open>A process that goes on without touching the files.\<close>

lemma setup_ok_at:
  "setup_ok s \<Longrightarrow> (in_setup pc \<Longrightarrow> in_setup (lt_pc s p)) \<Longrightarrow> (\<And>n. pc = LCounted n \<Longrightarrow> n = lt_fence s) \<Longrightarrow>
     (\<And>t. pc = LOwner t \<Longrightarrow> t = lt_fence s) \<Longrightarrow> setup_ok (at p pc s)"
  unfolding setup_ok_def by (auto split: if_splits)

lemma tokens_fenced_at:
  "tokens_fenced s \<Longrightarrow> (\<And>t. token_of pc = Some t \<Longrightarrow> token_of (lt_pc s p) = Some t) \<Longrightarrow> tokens_fenced (at p pc s)"
  unfolding tokens_fenced_def by (auto split: if_splits)

lemma updates_kept_at:
  assumes "updates_kept s" and "\<And>t. token_of pc = Some t \<Longrightarrow> token_of (lt_pc s p) = Some t"
    and "finished pc \<Longrightarrow> finished (lt_pc s p)"
    and "\<And>b. loaded pc = Some b \<Longrightarrow> loaded (lt_pc s p) = Some b \<or> b = current_snapshot s"
    and "has_saved pc \<Longrightarrow> has_saved (lt_pc s p)"
  shows "updates_kept (at p pc s)"
proof -
  have *: "finished (lt_pc (at p pc s) q) \<Longrightarrow> finished (lt_pc s q)" for q using assms(3) by (simp split: if_splits)
  show ?thesis
    unfolding updates_kept_def
  proof (intro conjI allI impI)
    fix q assume "finished (lt_pc (at p pc s) q)"
    then show "q \<in> set (current_snapshot (at p pc s))" using assms(1) * unfolding updates_kept_def by simp
  next
    fix r q t b
    assume A: "token_of (lt_pc (at p pc s) q) = Some t" "loaded (lt_pc (at p pc s) q) = Some b"
      "latest_token (lt_versions (at p pc s)) \<le> t" "finished (lt_pc (at p pc s) r)"
    note r = * [OF A(4)]
    show "r \<in> set b"
    proof (cases "loaded (lt_pc s q) = Some b")
      case True
      moreover have "token_of (lt_pc s q) = Some t" using A(1) assms(2) by (simp split: if_splits)
      ultimately show ?thesis using assms(1) r A(3) unfolding updates_kept_def by simp
    next
      case False
      then have "b = current_snapshot s" using A(2) assms(4) by (simp split: if_splits)
      then show ?thesis using assms(1) r unfolding updates_kept_def by simp
    qed
  next
    fix q t assume "token_of (lt_pc (at p pc s) q) = Some t" "has_saved (lt_pc (at p pc s) q)"
    then have "token_of (lt_pc s q) = Some t" "has_saved (lt_pc s q)" using assms(2,5) by (simp_all split: if_splits)
    then show "t < latest_token (lt_versions (at p pc s)) \<or> t = latest_token (lt_versions (at p pc s)) \<and> q \<in> set (current_snapshot (at p pc s))"
      using assms(1) unfolding updates_kept_def by simp
  qed
qed

definition lease_inv :: "lease_state \<Rightarrow> bool" where
  "lease_inv s = (setup_ok s \<and> tokens_fenced s \<and> updates_kept s)"

lemma lease_inv_at:
  "lease_inv s \<Longrightarrow> (in_setup pc \<Longrightarrow> in_setup (lt_pc s p)) \<Longrightarrow> (\<And>n. pc = LCounted n \<Longrightarrow> n = lt_fence s) \<Longrightarrow>
     (\<And>t. pc = LOwner t \<Longrightarrow> t = lt_fence s) \<Longrightarrow>
     (\<And>t. token_of pc = Some t \<Longrightarrow> token_of (lt_pc s p) = Some t) \<Longrightarrow> (finished pc \<Longrightarrow> finished (lt_pc s p)) \<Longrightarrow>
     (\<And>b. loaded pc = Some b \<Longrightarrow> loaded (lt_pc s p) = Some b \<or> b = current_snapshot s) \<Longrightarrow>
     (has_saved pc \<Longrightarrow> has_saved (lt_pc s p)) \<Longrightarrow> lease_inv (at p pc s)"
  unfolding lease_inv_def by (intro conjI setup_ok_at tokens_fenced_at updates_kept_at) auto

text \<open>A change of the lease directory.\<close>

lemma at_dir: "at p pc (s\<lparr>lt_dir := d\<rparr>) = (at p pc s)\<lparr>lt_dir := d\<rparr>"
  by (simp add: at_def)

lemma dir_irrelevant [simp]:
  "tokens_fenced (s\<lparr>lt_dir := d\<rparr>) = tokens_fenced s" "updates_kept (s\<lparr>lt_dir := d\<rparr>) = updates_kept s"
  by (simp_all add: tokens_fenced_def updates_kept_def current_snapshot_def)

lemma lease_inv_dir:
  assumes "lease_inv s" and "\<And>p. in_setup (lt_pc s p) \<Longrightarrow> \<exists>m. d = Some \<lparr>le_owner = None, le_mtime = m\<rparr>"
    and "\<And>r m. d = Some \<lparr>le_owner = Some r, le_mtime = m\<rparr> \<Longrightarrow> lo_token r = lt_fence s"
  shows "lease_inv (s\<lparr>lt_dir := d\<rparr>)"
proof -
  have "setup_ok (s\<lparr>lt_dir := d\<rparr>)"
    unfolding setup_ok_def
  proof (intro conjI allI impI)
    fix r assume "read_lease (s\<lparr>lt_dir := d\<rparr>) = Some r"
    then obtain x where "d = Some x" "le_owner x = Some r" by (cases d) (auto simp: read_lease_def)
    then obtain m where "d = Some \<lparr>le_owner = Some r, le_mtime = m\<rparr>" by (cases x) auto
    then show "lo_token r = lt_fence (s\<lparr>lt_dir := d\<rparr>)" using assms(3) by simp
  next
    fix p assume "in_setup (lt_pc (s\<lparr>lt_dir := d\<rparr>) p)"
    then obtain m where "d = Some \<lparr>le_owner = None, le_mtime = m\<rparr>" using assms(2) by auto
    then show "lt_dir (s\<lparr>lt_dir := d\<rparr>) \<noteq> None" "read_lease (s\<lparr>lt_dir := d\<rparr>) = None"
      by (simp_all add: read_lease_def)
  qed (use assms(1) in \<open>unfold lease_inv_def setup_ok_def, simp_all\<close>)
  moreover have "tokens_fenced (s\<lparr>lt_dir := d\<rparr>)" "updates_kept (s\<lparr>lt_dir := d\<rparr>)"
    using assms(1) by (simp_all add: lease_inv_def)
  ultimately show ?thesis by (simp add: lease_inv_def)
qed

lemma only_setup: "lease_inv s \<Longrightarrow> in_setup (lt_pc s p) \<Longrightarrow> in_setup (lt_pc s q) \<Longrightarrow> p = q"
  unfolding lease_inv_def setup_ok_def by blast

lemma setup_directory:
  "lease_inv s \<Longrightarrow> in_setup (lt_pc s p) \<Longrightarrow> \<exists>m. lt_dir s = Some \<lparr>le_owner = None, le_mtime = m\<rparr>"
proof -
  assume "lease_inv s" "in_setup (lt_pc s p)"
  then have "lt_dir s \<noteq> None" "read_lease s = None" unfolding lease_inv_def setup_ok_def by blast+
  then obtain d where "lt_dir s = Some d" "le_owner d = None" by (auto simp: read_lease_def)
  then show ?thesis by (cases d) auto
qed

text \<open>Removing the directory, when no process is in its setup afterwards.\<close>

lemma lease_inv_remove:
  assumes "lease_inv s" and "\<not> in_setup pc" and "token_of pc = None" and "finished pc \<Longrightarrow> finished (lt_pc s p)"
    and "\<And>q. q \<noteq> p \<Longrightarrow> \<not> in_setup (lt_pc s q)"
  shows "lease_inv (at p pc (s\<lparr>lt_dir := None\<rparr>))"
  unfolding at_dir
proof (rule lease_inv_dir)
  show "lease_inv (at p pc s)" using assms(1-4) by (intro lease_inv_at) (cases pc, auto)+
  show "\<exists>m. None = Some \<lparr>le_owner = None, le_mtime = m\<rparr>" if "in_setup (lt_pc (at p pc s) q)" for q
    using that assms(2,5) by (simp split: if_splits)
qed simp

lemma lease_inv_make:
  assumes "lease_inv s" and "lt_dir s = None" and "lt_pc s p = LTrying d"
  shows "lease_inv (at p LMade (s\<lparr>lt_dir := Some \<lparr>le_owner = None, le_mtime = m\<rparr>\<rparr>))"
proof -
  have none: "\<not> in_setup (lt_pc s q)" for q using setup_directory [OF assms(1), of q] assms(2) by auto
  have mk: "setup_ok (at p LMade (s\<lparr>lt_dir := Some \<lparr>le_owner = None, le_mtime = m\<rparr>\<rparr>))"
    unfolding setup_ok_def
  proof (intro conjI allI impI)
    fix q n assume "lt_pc (at p LMade (s\<lparr>lt_dir := Some \<lparr>le_owner = None, le_mtime = m\<rparr>\<rparr>)) q = LCounted n"
    then show "n = lt_fence (at p LMade (s\<lparr>lt_dir := Some \<lparr>le_owner = None, le_mtime = m\<rparr>\<rparr>))"
      using none [of q] by (simp split: if_splits)
  next
    fix q t assume "lt_pc (at p LMade (s\<lparr>lt_dir := Some \<lparr>le_owner = None, le_mtime = m\<rparr>\<rparr>)) q = LOwner t"
    then show "t = lt_fence (at p LMade (s\<lparr>lt_dir := Some \<lparr>le_owner = None, le_mtime = m\<rparr>\<rparr>))"
      using none [of q] by (simp split: if_splits)
  qed (use none in \<open>simp_all add: read_lease_def split: if_splits\<close>)
  have "tokens_fenced (at p LMade s)"
    by (rule tokens_fenced_at) (use assms(1) in \<open>simp_all add: lease_inv_def\<close>)
  moreover have "updates_kept (at p LMade s)"
    by (rule updates_kept_at) (use assms(1) in \<open>simp_all add: lease_inv_def\<close>)
  ultimately have "tokens_fenced (at p LMade (s\<lparr>lt_dir := d'\<rparr>)) \<and> updates_kept (at p LMade (s\<lparr>lt_dir := d'\<rparr>))" for d'
    by (simp add: at_dir)
  with mk show ?thesis by (simp add: lease_inv_def)
qed

text \<open>The counter goes up: the next token is new.\<close>

lemma lease_inv_count:
  assumes "lease_inv s" and "lt_pc s p = LCounted n"
  shows "lease_inv (write_counter p n s)"
proof -
  have n: "n = lt_fence s" using assms unfolding lease_inv_def setup_ok_def by blast
  have alone: "q \<noteq> p \<Longrightarrow> \<not> in_setup (lt_pc s q)" for q using only_setup [OF assms(1), of p q] assms(2) by auto
  obtain m where dir: "lt_dir s = Some \<lparr>le_owner = None, le_mtime = m\<rparr>"
    using setup_directory [OF assms(1), of p] assms(2) by auto
  have old: "token_of (lt_pc s q) = Some t \<Longrightarrow> t \<le> lt_fence s" for q t
    using assms(1) unfolding lease_inv_def tokens_fenced_def by blast
  let ?s = "write_counter p n s"
  have "setup_ok ?s"
    unfolding setup_ok_def
  proof (intro conjI allI impI)
    fix q t assume "lt_pc ?s q = LOwner t"
    then show "t = lt_fence ?s" using alone [of q] by (cases "q = p") (auto simp: write_counter_def)
  next
    fix q k assume "lt_pc ?s q = LCounted k"
    then show "k = lt_fence ?s" using alone [of q] by (cases "q = p") (auto simp: write_counter_def)
  qed (use alone dir in \<open>auto simp: write_counter_def read_lease_def split: if_splits\<close>)
  moreover have "tokens_fenced ?s"
    unfolding tokens_fenced_def
  proof (intro conjI allI impI)
    fix q r t assume A: "token_of (lt_pc ?s q) = Some t" "token_of (lt_pc ?s r) = Some t"
    show "q = r"
    proof (cases "q = p \<or> r = p")
      case True
      then show ?thesis using A old [of q t] old [of r t] n by (auto simp: write_counter_def split: if_splits)
    next
      case False
      then show ?thesis using A assms(1) unfolding lease_inv_def tokens_fenced_def by (simp add: write_counter_def)
    qed
  next
    show "latest_token (lt_versions ?s) \<le> lt_fence ?s" "distinct (map fst (lt_versions ?s))"
      using assms(1) n unfolding lease_inv_def tokens_fenced_def by (simp_all add: write_counter_def)
    show "t \<le> lt_fence ?s" if "token_of (lt_pc ?s q) = Some t" for q t
      using that old [of q t] n by (simp add: write_counter_def split: if_splits)
  qed
  moreover have "updates_kept ?s"
    using assms unfolding lease_inv_def updates_kept_def
    by (simp add: write_counter_def current_snapshot_def)
  ultimately show ?thesis by (simp add: lease_inv_def)
qed

lemma lease_inv_owner:
  assumes "lease_inv s" and "lt_pc s p = LOwner t"
  shows "lease_inv (put_owner cfg p t s)"
proof -
  have t: "t = lt_fence s" using assms unfolding lease_inv_def setup_ok_def by blast
  have alone: "q \<noteq> p \<Longrightarrow> \<not> in_setup (lt_pc s q)" for q using only_setup [OF assms(1), of p q] assms(2) by auto
  show ?thesis
    unfolding put_owner_def at_dir
  proof (rule lease_inv_dir)
    show "lease_inv (at p (LHolding t) s)" by (rule lease_inv_at [OF assms(1)]) (simp_all add: assms(2))
    show "lo_token r = lt_fence (at p (LHolding t) s)"
      if "Some \<lparr>le_owner = Some \<lparr>lo_ownerId = lc_owner cfg p, lo_token = t, lo_expiresAt = lt_clock s + lc_leaseMs cfg\<rparr>,
          le_mtime = lt_clock s\<rparr> = Some \<lparr>le_owner = Some r, le_mtime = m\<rparr>" for r m
      using that t by auto
  qed (use alone in \<open>simp split: if_splits\<close>)
qed

lemma lease_valid_token: "lease_inv s \<Longrightarrow> lease_valid cfg p t s \<Longrightarrow> t = lt_fence s"
  unfolding lease_inv_def setup_ok_def by (auto simp: lease_valid_def same_lease_def split: option.splits)

lemma lease_inv_finish:
  assumes "lease_inv s" and "lt_pc s p = LRechecked t" and "lease_valid cfg p t s"
  shows "lease_inv (at p (LReleasing t LFinished) s)"
proof -
  have t: "t = lt_fence s" by (rule lease_valid_token [OF assms(1,3)])
  have tok: "token_of (lt_pc s p) = Some t" using assms(2) by simp
  have le: "token_of (lt_pc s q) = Some u \<Longrightarrow> u \<le> lt_fence s" for q u
    using assms(1) unfolding lease_inv_def tokens_fenced_def by blast
  have uniq: "token_of (lt_pc s q) = Some t \<Longrightarrow> q = p" for q
    using assms(1) tok unfolding lease_inv_def tokens_fenced_def by blast
  have l: "latest_token (lt_versions s) \<le> lt_fence s"
    using assms(1) unfolding lease_inv_def tokens_fenced_def by blast
  have "t < latest_token (lt_versions s) \<or> t = latest_token (lt_versions s) \<and> p \<in> set (current_snapshot s)"
    using assms(1,2) tok unfolding lease_inv_def updates_kept_def by (metis has_saved.simps(2))
  then have p: "t = latest_token (lt_versions s)" "p \<in> set (current_snapshot s)" using t l by auto
  let ?s = "at p (LReleasing t LFinished) s"
  have old: "finished (lt_pc ?s q) \<Longrightarrow> q \<noteq> p \<Longrightarrow> finished (lt_pc s q)" for q by simp
  have "updates_kept ?s"
    unfolding updates_kept_def
  proof (intro conjI allI impI)
    fix q assume "finished (lt_pc ?s q)"
    then show "q \<in> set (current_snapshot ?s)"
      using p old [of q] assms(1) unfolding lease_inv_def updates_kept_def by (cases "q = p") simp_all
  next
    fix r q u b
    assume A: "token_of (lt_pc ?s q) = Some u" "loaded (lt_pc ?s q) = Some b"
      "latest_token (lt_versions ?s) \<le> u" "finished (lt_pc ?s r)"
    have "q \<noteq> p" using A(2) by auto
    then have "token_of (lt_pc s q) = Some u" using A(1) by simp
    moreover from this have "u = t" using le [of q u] A(3) p(1) t by simp
    ultimately show "r \<in> set b" using uniq [of q] \<open>q \<noteq> p\<close> by simp
  next
    fix q u assume A: "token_of (lt_pc ?s q) = Some u" "has_saved (lt_pc ?s q)"
    then have "q \<noteq> p" by auto
    then show "u < latest_token (lt_versions ?s) \<or> u = latest_token (lt_versions ?s) \<and> q \<in> set (current_snapshot ?s)"
      using A assms(1) unfolding lease_inv_def updates_kept_def by simp
  qed
  moreover have "setup_ok ?s" by (rule setup_ok_at) (use assms(1) in \<open>simp_all add: lease_inv_def\<close>)
  moreover have "tokens_fenced ?s" by (rule tokens_fenced_at) (use assms(1) in \<open>simp_all add: lease_inv_def\<close>)
  ultimately show ?thesis by (simp add: lease_inv_def)
qed

lemma lease_inv_write:
  assumes "lease_inv s" and "lt_pc s p = LWriting t b" and "0 < lc_keep cfg"
  shows "lease_inv (write_snapshot cfg p t b s)"
proof -
  have d: "distinct (map fst (lt_versions s))" and l: "latest_token (lt_versions s) \<le> lt_fence s"
    using assms(1) unfolding lease_inv_def tokens_fenced_def by blast+
  have tok: "token_of (lt_pc s p) = Some t" using assms(2) by simp
  have t: "t \<le> lt_fence s" using assms(1) tok unfolding lease_inv_def tokens_fenced_def by blast
  have uniq: "token_of (lt_pc s q) = Some t \<Longrightarrow> q = p" for q
    using assms(1) tok unfolding lease_inv_def tokens_fenced_def by blast
  let ?vs = "write_version (lc_keep cfg) (\<lambda>_. True) t (b @ [p]) (lt_versions s)"
  note new = write_version_latest [OF assms(3) d, of "\<lambda>_. True" t "b @ [p]"]
  define s' where "s' = write_snapshot cfg p t b s"
  have s': "lt_pc s' = (lt_pc s)(p := LSaved t)" "lt_fence s' = lt_fence s" "lt_dir s' = lt_dir s"
    "latest_token (lt_versions s') = max t (latest_token (lt_versions s))"
    "current_snapshot s' = (if latest_token (lt_versions s) \<le> t then b @ [p] else current_snapshot s)"
    "distinct (map fst (lt_versions s'))"
    using new by (simp_all add: s'_def write_snapshot_def current_snapshot_def at_def)
  have "setup_ok (at p (LSaved t) s)" by (rule setup_ok_at) (use assms(1) in \<open>simp_all add: lease_inv_def\<close>)
  moreover have "setup_ok s' = setup_ok (at p (LSaved t) s)"
    by (simp add: setup_ok_def s' read_lease_def)
  moreover have "tokens_fenced s'"
    unfolding tokens_fenced_def
  proof (intro conjI)
    have T: "tokens_fenced (at p (LSaved t) s)"
      by (rule tokens_fenced_at) (use assms(1,2) in \<open>simp_all add: lease_inv_def\<close>)
    show "\<forall>q u. token_of (lt_pc s' q) = Some u \<longrightarrow> u \<le> lt_fence s'"
      using T unfolding tokens_fenced_def at_simps s'(1,2) by blast
    show "\<forall>q r u. token_of (lt_pc s' q) = Some u \<longrightarrow> token_of (lt_pc s' r) = Some u \<longrightarrow> q = r"
      using T unfolding tokens_fenced_def at_simps s'(1,2) by blast
    show "latest_token (lt_versions s') \<le> lt_fence s'" using t l s'(2,4) by simp
    show "distinct (map fst (lt_versions s'))" by (rule s'(6))
  qed
  moreover have "updates_kept s'"
    unfolding updates_kept_def
  proof (intro conjI allI impI)
    fix q assume "finished (lt_pc s' q)"
    then have q: "finished (lt_pc s q)" using s'(1) by (simp split: if_splits)
    show "q \<in> set (current_snapshot s')"
    proof (cases "latest_token (lt_versions s) \<le> t")
      case True
      moreover have "loaded (lt_pc s p) = Some b" using assms(2) by simp
      ultimately have "q \<in> set b" using assms(1) q tok unfolding lease_inv_def updates_kept_def by blast
      then show ?thesis using True s' by simp
    next
      case False
      then show ?thesis using q assms(1) s' unfolding lease_inv_def updates_kept_def by simp
    qed
  next
    fix r q u c
    assume A: "token_of (lt_pc s' q) = Some u" "loaded (lt_pc s' q) = Some c" "latest_token (lt_versions s') \<le> u" "finished (lt_pc s' r)"
    have "q \<noteq> p" using A(2) s'(1) by auto
    then have "token_of (lt_pc s q) = Some u" "loaded (lt_pc s q) = Some c" using A(1,2) s'(1) by simp_all
    moreover have "finished (lt_pc s r)" using A(4) s'(1) by (simp split: if_splits)
    moreover have "latest_token (lt_versions s) \<le> u" using A(3) s'(4) by simp
    ultimately show "r \<in> set c" using assms(1) unfolding lease_inv_def updates_kept_def by blast
  next
    fix q u assume A: "token_of (lt_pc s' q) = Some u" "has_saved (lt_pc s' q)"
    show "u < latest_token (lt_versions s') \<or> u = latest_token (lt_versions s') \<and> q \<in> set (current_snapshot s')"
    proof (cases "q = p")
      case True
      then show ?thesis using A(1) s' by (auto simp: max_def)
    next
      case False
      then have q: "token_of (lt_pc s q) = Some u" "has_saved (lt_pc s q)" using A s'(1) by simp_all
      then have "u \<noteq> t" using uniq [of q] False by auto
      moreover have "u < latest_token (lt_versions s) \<or> u = latest_token (lt_versions s) \<and> q \<in> set (current_snapshot s)"
        using assms(1) q unfolding lease_inv_def updates_kept_def by blast
      ultimately show ?thesis using s' by (auto simp: max_def)
    qed
  qed
  ultimately show ?thesis by (simp add: lease_inv_def s'_def)
qed

lemma lease_inv_go:
  assumes "lease_inv s" and "rightful cfg (LGo p) s" and "0 < lc_keep cfg"
  shows "lease_inv (lease_go cfg p s)"
proof (cases "lt_pc s p")
  case (LTrying d)
  show ?thesis
  proof (cases "lt_dir s")
    case None
    then show ?thesis using lease_inv_make [OF assms(1) None LTrying] LTrying
      by (simp add: lease_go_def try_directory_def)
  next
    case (Some x)
    then show ?thesis using LTrying
      by (simp add: lease_go_def try_directory_def) (rule lease_inv_at [OF assms(1)]; simp)
  qed
next
  case (LCounted n)
  then show ?thesis using lease_inv_count [OF assms(1) LCounted] by (simp add: lease_go_def)
next
  case (LOwner t)
  then show ?thesis using lease_inv_owner [OF assms(1) LOwner] by (simp add: lease_go_def)
next
  case (LTakeover d)
  have "\<not> in_setup (lt_pc s q)" for q
    using assms(2) LTakeover setup_directory [OF assms(1), of q]
    by (auto simp: rightful_def read_lease_def split: option.splits)
  then show ?thesis using LTakeover lease_inv_remove [OF assms(1), of "LTrying d" p]
    by (simp add: lease_go_def take_over_def)
next
  case (LRemoving t r)
  have "\<not> in_setup (lt_pc s q)" for q
    using assms(2) LRemoving setup_directory [OF assms(1), of q]
    by (auto simp: rightful_def read_lease_def same_lease_def split: option.splits)
  then show ?thesis using LRemoving lease_inv_remove [OF assms(1), of "LReturned r" p]
    by (simp add: lease_go_def remove_lease_def)
next
  case (LWriting t b)
  then show ?thesis using lease_inv_write [OF assms(1) LWriting assms(3)] by (simp add: lease_go_def)
next
  case (LRechecked t)
  show ?thesis
  proof (cases "lease_valid cfg p t s")
    case True
    then show ?thesis using lease_inv_finish [OF assms(1) LRechecked True] LRechecked
      by (simp add: lease_go_def assert_valid_def)
  next
    case False
    then show ?thesis using LRechecked
      by (simp add: lease_go_def assert_valid_def) (rule lease_inv_at [OF assms(1)]; simp)
  qed
next
  case LMade
  then show ?thesis
    by (simp add: lease_go_def read_counter_def) (rule lease_inv_at [OF assms(1)]; simp)
next
  case LIdle
  then show ?thesis by (simp add: lease_go_def) (rule lease_inv_at [OF assms(1)]; simp)
next
  case (LReading d)
  then show ?thesis
    by (auto simp: lease_go_def look_at_owner_def wait_or_give_up_def split: option.splits
        intro!: lease_inv_at [OF assms(1)])
next
  case (LStatting d)
  then show ?thesis
    by (auto simp: lease_go_def look_at_directory_def wait_or_give_up_def intro!: lease_inv_at [OF assms(1)])
next
  case (LHolding t)
  then show ?thesis by (auto simp: lease_go_def assert_valid_def intro!: lease_inv_at [OF assms(1)])
next
  case (LChecked t)
  then show ?thesis by (auto simp: lease_go_def assert_valid_def intro!: lease_inv_at [OF assms(1)])
next
  case (LLoading t)
  then show ?thesis by (auto simp: lease_go_def intro!: lease_inv_at [OF assms(1)])
next
  case (LSaving t b)
  then show ?thesis by (auto simp: lease_go_def check_fence_def intro!: lease_inv_at [OF assms(1)])
next
  case (LSaved t)
  then show ?thesis by (auto simp: lease_go_def assert_valid_def intro!: lease_inv_at [OF assms(1)])
next
  case (LReleasing t r)
  then show ?thesis by (auto simp: lease_go_def release_lease_def intro!: lease_inv_at [OF assms(1)])
qed (use assms(1) in \<open>simp_all add: lease_go_def\<close>)

lemma lease_inv_fault:
  assumes "lease_inv s"
  shows "lease_inv (lease_fault p s)"
proof (cases "in_setup (lt_pc s p)")
  case True
  have "q \<noteq> p \<Longrightarrow> \<not> in_setup (lt_pc s q)" for q using only_setup [OF assms, of p q] True by auto
  then have "lease_inv (at p (LReturned LUnavailable) (s\<lparr>lt_dir := None\<rparr>))"
    by (intro lease_inv_remove [OF assms]) simp_all
  then show ?thesis using True by (cases "lt_pc s p") (simp_all add: lease_fault_def)
next
  case False
  then show ?thesis
    using assms by (cases "lt_pc s p")
      (auto simp: lease_fault_def wait_or_give_up_def intro!: lease_inv_at [OF assms])
qed

lemma lease_inv_tick: "lease_inv s \<Longrightarrow> lease_inv (s\<lparr>lt_clock := c\<rparr>)"
  by (simp add: lease_inv_def setup_ok_def tokens_fenced_def updates_kept_def read_lease_def current_snapshot_def)

lemma lease_inv_step: "lease_inv s \<Longrightarrow> rightful cfg a s \<Longrightarrow> 0 < lc_keep cfg \<Longrightarrow> lease_inv (lease_step cfg a s)"
proof (cases a)
  case (LCrash p)
  show "lease_inv s \<Longrightarrow> ?thesis" unfolding LCrash lease_step.simps by (rule lease_inv_at) simp_all
qed (simp_all add: lease_inv_go lease_inv_fault lease_inv_tick)

lemma lease_inv_run: "lease_inv s \<Longrightarrow> all_rightful cfg as s \<Longrightarrow> 0 < lc_keep cfg \<Longrightarrow> lease_inv (lease_run cfg as s)"
  by (induction as arbitrary: s) (auto intro!: lease_inv_step)

lemma lease_inv_start: "lease_inv lease_start"
  by (simp add: lease_inv_def setup_ok_def tokens_fenced_def updates_kept_def lease_start_def read_lease_def
      latest_token_def list_versions_def)

subsection \<open>Properties\<close>

text \<open>
  C18. No completed update is lost while directories are removed only rightfully (a takeover
  renames away a lease that is expired at that moment, or an ownerless directory in whose setup
  no process is; a release removes its own lease): whatever the speeds, expiries, crashes and
  faults of the processes, every call that returned successfully is contained in the latest
  snapshot. Fencing makes this so even when the holder of an expired lease writes on.
\<close>

theorem completed_updates_survive:
  assumes "all_rightful cfg as lease_start" and "0 < lc_keep cfg"
    and "lt_pc (lease_run cfg as lease_start) p = LReturned LFinished"
  shows "p \<in> set (current_snapshot (lease_run cfg as lease_start))"
proof -
  have "updates_kept (lease_run cfg as lease_start)"
    using lease_inv_run [OF lease_inv_start assms(1,2)] by (simp add: lease_inv_def)
  then show ?thesis using assms(3) unfolding updates_kept_def by (metis finished.simps(3))
qed

text \<open>
  A history: call 0 stops before it saves, its lease expires, call 1 takes over and completes,
  call 0 goes on and saves under its old token: its save changes nothing that is read.
\<close>

definition fenced_history :: "lease_action list" where
  "fenced_history = go 0 9 @ [LTick 30000] @ go 1 18 @ go 0 3"

definition plainly :: "lease_config \<Rightarrow> lease_action \<Rightarrow> lease_state \<Rightarrow> bool" where
  "plainly cfg a s = (case a of LGo p \<Rightarrow> (case lt_pc s p of
       LTakeover d \<Rightarrow> (case read_lease s of Some r \<Rightarrow> lease_expired r s | None \<Rightarrow> lt_dir s = None)
     | LRemoving t r \<Rightarrow> same_lease cfg p t (read_lease s)
     | _ \<Rightarrow> True) | _ \<Rightarrow> True)"

fun all_plainly :: "lease_config \<Rightarrow> lease_action list \<Rightarrow> lease_state \<Rightarrow> bool" where
  "all_plainly cfg [] s = True"
| "all_plainly cfg (a # as) s = (plainly cfg a s \<and> all_plainly cfg as (lease_step cfg a s))"

lemma plainly_rightful: "plainly cfg a s \<Longrightarrow> rightful cfg a s"
proof (cases a)
  case (LGo p)
  then show "plainly cfg a s \<Longrightarrow> ?thesis"
    by (cases "lt_pc s p"; cases "read_lease s") (simp_all add: plainly_def rightful_def)
qed (simp_all add: rightful_def)

lemma all_plainly_rightful: "all_plainly cfg as s \<Longrightarrow> all_rightful cfg as s"
  by (induction as arbitrary: s) (simp_all add: plainly_rightful)

lemma fenced_history_checks:
  "all_plainly default_lease fenced_history lease_start"
  "lt_pc (lease_run default_lease fenced_history lease_start) 1 = LReturned LFinished"
  by code_simp+

theorem completed_updates_survive_witness:
  "lt_pc (lease_run default_lease fenced_history lease_start) 1 = LReturned LFinished
     \<and> 1 \<in> set (current_snapshot (lease_run default_lease fenced_history lease_start))"
proof -
  have "0 < lc_keep default_lease" by (simp add: default_lease_def)
  from completed_updates_survive [OF all_plainly_rightful [OF fenced_history_checks(1)] this fenced_history_checks(2)]
  show ?thesis using fenced_history_checks(2) by blast
qed

text \<open>
  A completed update can be lost: without any crash, fault or expiry, a takeover of a lease
  directory that was released a moment ago removes the directory of a call in its setup, two calls
  draw the same fencing token, and the save of one (which is then told that its lease was lost)
  overwrites the save of the other, which has returned successfully.
\<close>

theorem duplicate_token_loses_update:
  "let s = lease_run default_lease token_race lease_start in
     lt_clock s = 0 \<and> lt_pc s 1 = LReturned LFinished \<and> current_snapshot s = [0, 2] \<and> lt_pc s 2 = LReturned LLost"
  by code_simp

end
