(* ===== verification/RecoveryPoints.thy ===== *)
theory RecoveryPoints
  imports SnapshotStore
begin

section \<open>Directories of recovery points\<close>

text \<open>
  What src/persistence/backupManager.js and src/resilience/replicaManager.js have in common: one
  directory per tenant with, for every recovery point, an encrypted text and a manifest, both named
  by the identifier of the point. A directory lists its manifests in the order in which it lists
  the files; a manifest that does not parse, or that lacks a field of the right type, is \<open>None\<close>.
  The locale \<open>recovery_dir\<close> is the interface that a kind of manifest provides; the two managers
  interpret it.
\<close>

subsection \<open>Data\<close>

datatype point_kind = Backup | Replica

datatype recovery_error =
    BadArgument string
  | Unavailable point_kind string
  | PointMissing point_kind string
  | Integrity point_kind string
  | StoreFailed persist_error
  | FileFailure

record ('m, 'x) point_dir =
  pd_manifests :: "(string \<times> 'm option) list"
  pd_texts :: "(string \<times> 'x) list"

datatype point_file = TextFile string | ManifestFile string

definition no_points :: "('m, 'x) point_dir" where
  "no_points = \<lparr>pd_manifests = [], pd_texts = []\<rparr>"

text \<open>\<open>/^BAK-[0-9]{14}-[a-f0-9]{8}$/\<close>\<close>

definition valid_backup_id :: "string \<Rightarrow> bool" where
  "valid_backup_id s = (length s = 27 \<and> take 4 s = ''BAK-'' \<and> list_all is_digit (take 14 (drop 4 s))
     \<and> s ! 18 = CHR ''-'' \<and> is_hex_text 8 (drop 19 s))"

subsection \<open>Files\<close>

text \<open>
  \<open>unlinkSync\<close>: the file goes, or there is none (\<open>ENOENT\<close>), or the call fails otherwise; \<open>fine\<close>
  says for which files it does not.
\<close>

datatype unlinked = Gone | Absent | Failed

fun has_file :: "point_file \<Rightarrow> ('m, 'x) point_dir \<Rightarrow> bool" where
  "has_file (TextFile i) d = (i \<in> fst ` set (pd_texts d))"
| "has_file (ManifestFile i) d = (i \<in> fst ` set (pd_manifests d))"

fun delete_file :: "point_file \<Rightarrow> ('m, 'x) point_dir \<Rightarrow> ('m, 'x) point_dir" where
  "delete_file (TextFile i) d = d\<lparr>pd_texts := filter (\<lambda>p. fst p \<noteq> i) (pd_texts d)\<rparr>"
| "delete_file (ManifestFile i) d = d\<lparr>pd_manifests := filter (\<lambda>p. fst p \<noteq> i) (pd_manifests d)\<rparr>"

definition unlink :: "(point_file \<Rightarrow> bool) \<Rightarrow> point_file \<Rightarrow> ('m, 'x) point_dir \<Rightarrow> ('m, 'x) point_dir \<times> unlinked" where
  "unlink fine f d = (if \<not> has_file f d then (d, Absent) else if fine f then (delete_file f d, Gone) else (d, Failed))"

definition remove_point ::
  "point_kind \<Rightarrow> (point_file \<Rightarrow> bool) \<Rightarrow> string \<Rightarrow> ('m, 'x) point_dir \<Rightarrow> ('m, 'x) point_dir \<times> (recovery_error + bool)" where
  "remove_point k fine i d = (if \<not> valid_backup_id i then (d, Inl (BadArgument ''backupId'')) else
     (case unlink fine (TextFile i) d of
        (d1, Failed) \<Rightarrow> (d1, Inl (Unavailable k ''remove''))
      | (d1, r1) \<Rightarrow> (case unlink fine (ManifestFile i) d1 of
          (d2, Failed) \<Rightarrow> (d2, Inl (Unavailable k ''remove''))
        | (d2, r2) \<Rightarrow> (d2, Inr (r1 = Gone \<or> r2 = Gone)))))"

fun remove_all ::
  "point_kind \<Rightarrow> (point_file \<Rightarrow> bool) \<Rightarrow> string list \<Rightarrow> ('m, 'x) point_dir \<Rightarrow> ('m, 'x) point_dir \<times> (recovery_error + string list)" where
  "remove_all k fine [] d = (d, Inr [])"
| "remove_all k fine (i # is) d = (case remove_point k fine i d of
     (d', Inl e) \<Rightarrow> (d', Inl e)
   | (d', Inr _) \<Rightarrow> (case remove_all k fine is d' of
       (d'', Inl e) \<Rightarrow> (d'', Inl e) | (d'', Inr ids) \<Rightarrow> (d'', Inr (i # ids))))"

subsection \<open>Manifests\<close>

definition read_manifest :: "point_kind \<Rightarrow> ('m \<Rightarrow> recovery_error + unit) \<Rightarrow> 'm option \<Rightarrow> recovery_error + 'm" where
  "read_manifest k valid f = (case f of None \<Rightarrow> Inl (Integrity k ''manifest'') | Some m \<Rightarrow> bindR (valid m) (\<lambda>_. Inr m))"

text \<open>The newest first, by the order that the manifests record; other errors than those of integrity are wrapped.\<close>

definition list_points ::
  "point_kind \<Rightarrow> ('m \<Rightarrow> recovery_error + unit) \<Rightarrow> ('m \<Rightarrow> int) \<Rightarrow> ('m, 'x) point_dir \<Rightarrow> recovery_error + 'm list" where
  "list_points k valid order d = (case mapR (read_manifest k valid) (map snd (pd_manifests d)) of
     Inl (Integrity k' s) \<Rightarrow> Inl (Integrity k' s)
   | Inl _ \<Rightarrow> Inl (Unavailable k ''list'')
   | Inr ms \<Rightarrow> Inr (sort_key (\<lambda>m. - order m) ms))"

definition prune_points ::
  "point_kind \<Rightarrow> ('m \<Rightarrow> recovery_error + unit) \<Rightarrow> ('m \<Rightarrow> string) \<Rightarrow> ('m \<Rightarrow> int) \<Rightarrow> nat \<Rightarrow> (point_file \<Rightarrow> bool)
     \<Rightarrow> ('m, 'x) point_dir \<Rightarrow> ('m, 'x) point_dir \<times> (recovery_error + string list)" where
  "prune_points k valid ident order retention fine d = (case list_points k valid order d of
     Inl e \<Rightarrow> (d, Inl e)
   | Inr ms \<Rightarrow> remove_all k fine (map ident (drop retention ms)) d)"

text \<open>
  Writing a point: the text, the manifest, the pruning. A failure removes both files of the new
  point, as far as that succeeds, and any error of another class is wrapped.
\<close>

definition put_text :: "string \<Rightarrow> 'x \<Rightarrow> ('m, 'x) point_dir \<Rightarrow> ('m, 'x) point_dir" where
  "put_text i x d = d\<lparr>pd_texts := put_assoc i x (pd_texts d)\<rparr>"

definition put_manifest :: "string \<Rightarrow> 'm \<Rightarrow> ('m, 'x) point_dir \<Rightarrow> ('m, 'x) point_dir" where
  "put_manifest i m d = d\<lparr>pd_manifests := put_assoc i (Some m) (pd_manifests d)\<rparr>"

definition abandon_point :: "(point_file \<Rightarrow> bool) \<Rightarrow> string \<Rightarrow> ('m, 'x) point_dir \<Rightarrow> ('m, 'x) point_dir" where
  "abandon_point fine i d = fst (unlink fine (ManifestFile i) (fst (unlink fine (TextFile i) d)))"

definition wrapped :: "point_kind \<Rightarrow> string \<Rightarrow> recovery_error \<Rightarrow> recovery_error" where
  "wrapped k operation e = (case e of Unavailable k' s \<Rightarrow> if k' = k then e else Unavailable k operation | _ \<Rightarrow> Unavailable k operation)"

record point_io =
  io_mkdir :: bool
  io_text :: bool
  io_manifest :: bool
  io_unlink :: "point_file \<Rightarrow> bool"

definition store_point ::
  "point_kind \<Rightarrow> string \<Rightarrow> ('m \<Rightarrow> recovery_error + unit) \<Rightarrow> ('m \<Rightarrow> string) \<Rightarrow> ('m \<Rightarrow> int) \<Rightarrow> nat \<Rightarrow> point_io \<Rightarrow> 'x \<Rightarrow> 'm
     \<Rightarrow> ('m, 'x) point_dir \<Rightarrow> ('m, 'x) point_dir \<times> (recovery_error + string list)" where
  "store_point k operation valid ident order retention io x m d =
     (let fail = (\<lambda>d' e. (abandon_point (io_unlink io) (ident m) d', Inl (wrapped k operation e))) in
      if \<not> io_text io then fail d FileFailure
      else let d1 = put_text (ident m) x d in
        if \<not> io_manifest io then fail d1 FileFailure
        else (case prune_points k valid ident order retention (io_unlink io) (put_manifest (ident m) m d1) of
            (d2, Inl e) \<Rightarrow> fail d2 e
          | (d2, Inr pruned) \<Rightarrow> (d2, Inr pruned)))"

subsection \<open>Well-formed directories\<close>

definition points :: "('m, 'x) point_dir \<Rightarrow> 'm list" where
  "points d = map (the \<circ> snd) (pd_manifests d)"

definition names :: "('m, 'x) point_dir \<Rightarrow> string list" where
  "names d = map fst (pd_manifests d)"

definition without :: "string set \<Rightarrow> ('m, 'x) point_dir \<Rightarrow> ('m, 'x) point_dir" where
  "without S d = \<lparr>pd_manifests = filter (\<lambda>p. fst p \<notin> S) (pd_manifests d), pd_texts = filter (\<lambda>p. fst p \<notin> S) (pd_texts d)\<rparr>"

lemma without_simps [simp]:
  "without S (without T d) = without (S \<union> T) d" "without {} d = d"
  by (simp_all add: without_def conj_commute)

lemma absent_filter: "i \<notin> fst ` set xs \<Longrightarrow> filter (\<lambda>p. fst p \<noteq> i) xs = xs"
  by (rule filter_True) auto

lemma remove_point_fine:
  "valid_backup_id i \<Longrightarrow> (\<And>f. fine f) \<Longrightarrow> \<exists>b. remove_point k fine i d = (without {i} d, Inr b)"
  by (auto simp: remove_point_def unlink_def without_def absent_filter)

lemma remove_all_fine:
  assumes "\<forall>i \<in> set is. valid_backup_id i" and "\<And>f. fine f"
  shows "remove_all k fine is d = (without (set is) d, Inr is)"
  using assms(1)
proof (induction "is" arbitrary: d)
  case (Cons i "is")
  then obtain b where "remove_point k fine i d = (without {i} d, Inr b)"
    using remove_point_fine [OF _ assms(2)] by fastforce
  then show ?case using Cons by simp
qed simp

fun entry_ok :: "('m \<Rightarrow> recovery_error + unit) \<Rightarrow> ('m \<Rightarrow> string) \<Rightarrow> string set \<Rightarrow> string \<times> 'm option \<Rightarrow> bool" where
  "entry_ok valid ident texts (i, None) = False"
| "entry_ok valid ident texts (i, Some m) = (ident m = i \<and> valid m = Inr () \<and> i \<in> texts)"

definition dir_ok ::
  "('m \<Rightarrow> recovery_error + unit) \<Rightarrow> ('m \<Rightarrow> string) \<Rightarrow> ('m, 'x) point_dir \<Rightarrow> bool" where
  "dir_ok valid ident d = (distinct (names d) \<and> distinct (map fst (pd_texts d))
     \<and> (\<forall>p \<in> set (pd_manifests d). entry_ok valid ident (set (map fst (pd_texts d))) p))"

lemma dir_ok_empty [simp]: "dir_ok valid ident no_points"
  by (simp add: dir_ok_def no_points_def names_def)

lemma dir_ok_entry:
  assumes "dir_ok valid ident d" and "(i, f) \<in> set (pd_manifests d)"
  obtains m where "f = Some m" "ident m = i" "valid m = Inr ()" "i \<in> set (map fst (pd_texts d))"
proof -
  have "entry_ok valid ident (set (map fst (pd_texts d))) (i, f)" using assms unfolding dir_ok_def by blast
  then show ?thesis using that by (cases f) auto
qed

lemma entry_ok_mono: "entry_ok valid ident S p \<Longrightarrow> fst p \<in> S' \<Longrightarrow> entry_ok valid ident S' p"
  by (cases "(valid, ident, S, p)" rule: entry_ok.cases) auto

lemma entry_ok_name: "entry_ok valid ident S p \<Longrightarrow> fst p \<in> S"
  by (cases "(valid, ident, S, p)" rule: entry_ok.cases) auto

lemma dir_ok_without:
  assumes "dir_ok valid ident d"
  shows "dir_ok valid ident (without S d)"
  unfolding dir_ok_def
proof (intro conjI ballI)
  show "distinct (names (without S d))" "distinct (map fst (pd_texts (without S d)))"
    using assms by (simp_all add: dir_ok_def names_def without_def distinct_map_filter)
next
  fix p assume p: "p \<in> set (pd_manifests (without S d))"
  then have e: "entry_ok valid ident (set (map fst (pd_texts d))) p" using assms by (simp add: dir_ok_def without_def)
  have "fst p \<in> set (map fst (pd_texts (without S d)))" using p entry_ok_name [OF e] by (auto simp: without_def)
  with e show "entry_ok valid ident (set (map fst (pd_texts (without S d)))) p" by (rule entry_ok_mono)
qed

lemma put_fresh: "k \<notin> set (map fst m) \<Longrightarrow> put_assoc k v m = m @ [(k, v)]"
  by (induction m) auto

lemma dir_ok_put:
  assumes "dir_ok valid ident d" and "valid m = Inr ()" and "ident m \<notin> set (names d)"
  shows "dir_ok valid ident (put_manifest (ident m) m (put_text (ident m) x d))"
  unfolding dir_ok_def
proof (intro conjI ballI)
  let ?d = "put_manifest (ident m) m (put_text (ident m) x d)"
  have ms: "pd_manifests ?d = pd_manifests d @ [(ident m, Some m)]"
    using assms(3) by (simp add: put_manifest_def put_text_def names_def put_fresh)
  have ts: "set (map fst (pd_texts ?d)) = insert (ident m) (set (map fst (pd_texts d)))"
    by (simp add: put_manifest_def put_text_def keys_put_assoc del: set_map)
  show "distinct (names ?d)" using assms(1,3) ms by (simp add: dir_ok_def names_def)
  show "distinct (map fst (pd_texts ?d))"
    using assms(1) by (simp add: dir_ok_def put_manifest_def put_text_def distinct_put_assoc)
  fix p assume "p \<in> set (pd_manifests ?d)"
  then consider "p \<in> set (pd_manifests d)" | "p = (ident m, Some m)" unfolding ms by auto
  then show "entry_ok valid ident (set (map fst (pd_texts ?d))) p"
  proof cases
    case 1
    then have e: "entry_ok valid ident (set (map fst (pd_texts d))) p" using assms(1) unfolding dir_ok_def by blast
    show ?thesis by (rule entry_ok_mono [OF e]) (use entry_ok_name [OF e] ts in blast)
  next
    case 2
    then show ?thesis using assms(2) ts by simp
  qed
qed

lemma sort_key_snoc_min:
  fixes f :: "'a \<Rightarrow> int"
  shows "\<forall>x \<in> set xs. f m < f x \<Longrightarrow> sort_key f (xs @ [m]) = m # sort_key f xs"
  by (induction xs) auto

lemma filter_dropped: "distinct (map f xs) \<Longrightarrow> filter (\<lambda>n. f n \<notin> set (map f (drop r xs))) xs = take r xs"
proof -
  assume A: "distinct (map f xs)"
  have "distinct (map f (take r xs @ drop r xs))" using A by simp
  then have "f ` set (take r xs) \<inter> f ` set (drop r xs) = {}" by (simp only: map_append distinct_append set_map)
  then have "filter (\<lambda>n. f n \<notin> set (map f (drop r xs))) (take r xs) = take r xs" by (intro filter_True) auto
  moreover have "filter (\<lambda>n. f n \<notin> set (map f (drop r xs))) (drop r xs) = []" by (intro filter_False) auto
  ultimately show ?thesis by (metis append_Nil2 append_take_drop_id filter_append)
qed

lemma points_without:
  assumes "dir_ok valid ident d"
  shows "points (without S d) = filter (\<lambda>m. ident m \<notin> S) (points d)"
proof -
  have "filter (\<lambda>p. fst p \<notin> S) (pd_manifests d) = filter (\<lambda>p. ident (the (snd p)) \<notin> S) (pd_manifests d)"
    by (rule filter_cong) (auto elim!: dir_ok_entry [OF assms])
  then show ?thesis by (simp add: points_def without_def filter_map comp_def)
qed

subsection \<open>The interface of a kind of manifest\<close>

locale recovery_dir =
  fixes k :: point_kind and valid :: "'m \<Rightarrow> recovery_error + unit" and ident :: "'m \<Rightarrow> string" and order :: "'m \<Rightarrow> int"
  assumes valid_ident: "valid m = Inr () \<Longrightarrow> valid_backup_id (ident m)"
begin

lemma read_all: "\<forall>p \<in> set ms. entry_ok valid ident S p \<Longrightarrow> mapR (read_manifest k valid) (map snd ms) = Inr (map (the \<circ> snd) ms)"
proof (induction ms)
  case (Cons p ms)
  then show ?case by (cases "(valid, ident, S, p)" rule: entry_ok.cases) (auto simp: read_manifest_def)
qed simp

lemma list_points_ok: "dir_ok valid ident d \<Longrightarrow> list_points k valid order d = Inr (sort_key (\<lambda>m. - order m) (points d))"
proof -
  assume A: "dir_ok valid ident d"
  have "\<forall>p \<in> set (pd_manifests d). entry_ok valid ident (set (map fst (pd_texts d))) p"
    using A unfolding dir_ok_def by blast
  then show ?thesis by (simp only: list_points_def read_all points_def sum.case)
qed

lemma idents: "dir_ok valid ident d \<Longrightarrow> map ident (points d) = names d"
  unfolding points_def names_def by (auto elim!: dir_ok_entry)

lemma listed: "dir_ok valid ident d \<Longrightarrow> list_points k valid order d = Inr ms \<Longrightarrow>
    set ms = set (points d) \<and> distinct (map ident ms) \<and> set (map ident ms) = set (names d)
    \<and> (\<forall>m \<in> set ms. valid_backup_id (ident m)) \<and> length ms = length (names d)"
proof -
  assume A: "dir_ok valid ident d" "list_points k valid order d = Inr ms"
  then have ms: "ms = sort_key (\<lambda>m. - order m) (points d)" by (simp add: list_points_ok)
  have i: "map ident (points d) = names d" by (rule idents [OF A(1)])
  have "distinct (map ident (points d))" using i A(1) by (simp add: dir_ok_def)
  then have "distinct (map ident ms)" by (simp add: ms distinct_map)
  moreover have "set (map ident ms) = set (names d)" using arg_cong [OF i, of set] by (simp add: ms)
  moreover have "\<forall>m \<in> set ms. valid_backup_id (ident m)"
    unfolding ms points_def using A(1) by (auto elim!: dir_ok_entry intro: valid_ident)
  moreover have "length ms = length (names d)" using i by (metis length_map length_sort ms)
  ultimately show ?thesis by (simp add: ms)
qed

text \<open>What a store of a fresh point leaves: the newest \<open>retention\<close> points, with their texts.\<close>

lemma store_point_fine:
  assumes "dir_ok valid ident d" and "list_points k valid order d = Inr old" and "valid m = Inr ()"
    and "ident m \<notin> set (names d)" and "\<forall>n \<in> set old. order n < order m" and "0 < retention"
    and "io_text io" and "io_manifest io" and "\<And>f. io_unlink io f"
  shows "\<exists>d' pruned. store_point k operation valid ident order retention io x m d = (d', Inr pruned)
    \<and> pruned = map ident (drop retention (m # old))
    \<and> d' = without (set pruned) (put_manifest (ident m) m (put_text (ident m) x d))
    \<and> dir_ok valid ident d' \<and> list_points k valid order d' = Inr (take retention (m # old))"
proof -
  let ?d = "put_manifest (ident m) m (put_text (ident m) x d)"
  let ?pruned = "map ident (drop retention (m # old))"
  have ok: "dir_ok valid ident ?d" by (rule dir_ok_put [OF assms(1,3,4)])
  have pts: "points ?d = points d @ [m]"
    using assms(4) by (simp add: points_def put_manifest_def put_text_def names_def put_fresh)
  have old: "old = sort_key (\<lambda>m. - order m) (points d)" using assms(1,2) by (simp add: list_points_ok)
  have new: "list_points k valid order ?d = Inr (m # old)"
    using assms(5) sort_key_snoc_min [of "points d" "\<lambda>m. - order m" m] by (simp add: list_points_ok [OF ok] pts old)
  note l = listed [OF ok new]
  have "\<forall>i \<in> set ?pruned. valid_backup_id i" using l set_drop_subset [of retention "m # old"] by (auto simp del: set_drop_subset)
  then have run: "store_point k operation valid ident order retention io x m d = (without (set ?pruned) ?d, Inr ?pruned)"
    using assms(7,8) new remove_all_fine [of ?pruned "io_unlink io" k ?d] assms(9)
    by (simp add: store_point_def prune_points_def Let_def)
  have okw: "dir_ok valid ident (without (set ?pruned) ?d)" by (rule dir_ok_without [OF ok])
  have "points (without (set ?pruned) ?d) = filter (\<lambda>n. ident n \<notin> set ?pruned) (points ?d)"
    by (rule points_without [OF ok])
  moreover have "filter (\<lambda>n. ident n \<notin> set ?pruned) (m # old) = take retention (m # old)"
    using l by (intro filter_dropped) blast
  moreover have "sort_key (\<lambda>m. - order m) (points ?d) = m # old" using new list_points_ok [OF ok] by simp
  ultimately have "list_points k valid order (without (set ?pruned) ?d) = Inr (take retention (m # old))"
    by (simp only: list_points_ok [OF okw] filter_sort [symmetric])
  then show ?thesis using run okw by blast
qed

text \<open>What a store that could not write leaves: the directory as it was.\<close>

lemma store_point_unwritten:
  assumes "ident m \<notin> set (names d)" and "ident m \<notin> set (map fst (pd_texts d))"
    and "\<not> (io_text io \<and> io_manifest io)" and "\<And>f. io_unlink io f"
  shows "store_point k operation valid ident order retention io x m d = (d, Inl (Unavailable k operation))"
  using assms
  by (auto simp: store_point_def abandon_point_def unlink_def put_text_def put_fresh names_def wrapped_def Let_def absent_filter)

end

end
