(* ===== verification/BackupManager.thy ===== *)
theory BackupManager
  imports AuditService RecoveryPoints
begin

section \<open>Encrypted backups (src/persistence/backupManager.js)\<close>

text \<open>
  A backup is a copy of the tenant's encrypted snapshot with a manifest: the checksum of the text,
  its size, and an order that increases from backup to backup. The clock and the random suffix of
  the identifier are arguments, the digest and the size of a text and \<open>trimEnd() + '\n'\<close> are
  fields of the environment. Reading a file does not fail; writing and unlinking may (\<open>point_io\<close>).
\<close>

subsection \<open>Data\<close>

record audit_content =
  ct_engagements :: "engagement list"
  ct_findings :: "finding list"
  ct_events :: "gov_event list"

type_synonym audit_snapshot = "audit_content snapshot"
type_synonym audit_text = "audit_content sealed_text"

record backup_manifest =
  bk_backupId :: string
  bk_tenantHash :: string
  bk_createdAt :: int
  bk_createdOrder :: int
  bk_snapshotWrittenAt :: int
  bk_keyId :: string
  bk_checksum :: string
  bk_size :: int
  bk_kind :: string

type_synonym backup_dir = "(backup_manifest, audit_text) point_dir"

record backup_env =
  be_H :: "string \<Rightarrow> string"
  be_keys :: snapshot_keys
  be_digest :: "audit_text \<Rightarrow> string"
  be_size :: "audit_text \<Rightarrow> int"
  be_trim :: "audit_text \<Rightarrow> audit_text"
  be_retention :: nat

record recovery_summary =
  sm_engagements :: nat
  sm_findings :: nat
  sm_events :: nat
  sm_head :: "string option"

subsection \<open>Identifiers and manifests\<close>

text \<open>The digits of \<open>toISOString()\<close>: a year of four digits, or of six with a sign.\<close>

definition civil_date :: "int \<Rightarrow> int \<times> int \<times> int" where
  "civil_date t = (let z = t div day_ms + 719468; era = z div 146097; doe = z - era * 146097;
       yoe = (doe - doe div 1460 + doe div 36524 - doe div 146096) div 365;
       doy = doe - (365 * yoe + yoe div 4 - yoe div 100);
       mp = (5 * doy + 2) div 153;
       month = (if mp < 10 then mp + 3 else mp - 9)
     in (yoe + era * 400 + (if month \<le> 2 then 1 else 0), month, doy - (153 * mp + 2) div 5 + 1))"

definition two_digits :: "int \<Rightarrow> string" where
  "two_digits n = pad_start 2 (CHR ''0'') (dec (nat n))"

definition iso_digits :: "int \<Rightarrow> string" where
  "iso_digits t = (case civil_date t of (year, month, day) \<Rightarrow> let ms = t mod day_ms in
     pad_start (if 0 \<le> year \<and> year \<le> 9999 then 4 else 6) (CHR ''0'') (dec (nat \<bar>year\<bar>))
     @ two_digits month @ two_digits day
     @ two_digits (ms div 3600000) @ two_digits (ms div 60000 mod 60) @ two_digits (ms div 1000 mod 60)
     @ pad_start 3 (CHR ''0'') (dec (nat (ms mod 1000))))"

definition create_backup_id :: "int \<Rightarrow> string \<Rightarrow> string" where
  "create_backup_id createdAt suffix = ''BAK-'' @ take 14 (iso_digits createdAt) @ ''-'' @ suffix"

definition backup_kinds :: "string list" where
  "backup_kinds = [''manual'', ''scheduled'', ''safety'']"

definition normalise_retention :: "jsval \<Rightarrow> nat option" where
  "normalise_retention v = map_option nat (int_in 1 365 v)"

definition max_safe :: int where
  "max_safe = 9007199254740991"

definition validate_backup_manifest :: "(string \<Rightarrow> string) \<Rightarrow> string \<Rightarrow> backup_manifest \<Rightarrow> recovery_error + unit" where
  "validate_backup_manifest H t m =
     ensure (valid_backup_id (bk_backupId m)) (BadArgument ''backupId'')
    (ensure (bk_tenantHash m = H t) (Integrity Backup ''tenant'')
    (ensure (bk_keyId m \<noteq> [] \<and> bk_checksum m \<noteq> [] \<and> bk_kind m \<noteq> []) (Integrity Backup ''field'')
    (ensure (is_hex_text 64 (bk_checksum m)) (Integrity Backup ''checksum'')
    (ensure (1 \<le> bk_createdOrder m \<and> bk_createdOrder m \<le> max_safe) (Integrity Backup ''order'')
    (ensure (1 \<le> bk_size m) (Integrity Backup ''size'')
    (ensure (bk_kind m \<in> set backup_kinds) (BadArgument ''kind'') (Inr ())))))))"

subsection \<open>Operations\<close>

definition list_backups :: "backup_env \<Rightarrow> string \<Rightarrow> backup_dir \<Rightarrow> recovery_error + backup_manifest list" where
  "list_backups env t d = ensure (valid_tenant t) (BadArgument ''tenantId'')
     (list_points Backup (validate_backup_manifest (be_H env) t) bk_createdOrder d)"

definition remove_backup :: "(point_file \<Rightarrow> bool) \<Rightarrow> string \<Rightarrow> string \<Rightarrow> backup_dir \<Rightarrow> backup_dir \<times> (recovery_error + bool)" where
  "remove_backup fine t i d =
     (if \<not> valid_tenant t then (d, Inl (BadArgument ''tenantId'')) else remove_point Backup fine i d)"

definition prune_backups :: "backup_env \<Rightarrow> (point_file \<Rightarrow> bool) \<Rightarrow> string \<Rightarrow> backup_dir \<Rightarrow> backup_dir \<times> (recovery_error + string list)" where
  "prune_backups env fine t d =
     prune_points Backup (validate_backup_manifest (be_H env) t) bk_backupId bk_createdOrder (be_retention env) fine d"

definition backup_manifest_for ::
  "backup_env \<Rightarrow> int \<Rightarrow> string \<Rightarrow> string \<Rightarrow> string \<Rightarrow> audit_content sealed \<Rightarrow> audit_text \<Rightarrow> backup_manifest list \<Rightarrow> backup_manifest" where
  "backup_manifest_for env now suffix t kind e x existing =
     \<lparr>bk_backupId = create_backup_id now suffix, bk_tenantHash = be_H env t, bk_createdAt = now,
      bk_createdOrder = max (now * 1000) ((case existing of [] \<Rightarrow> 0 | b # _ \<Rightarrow> bk_createdOrder b) + 1),
      bk_snapshotWrittenAt = se_writtenAt e, bk_keyId = se_keyId e,
      bk_checksum = be_digest env x, bk_size = be_size env x, bk_kind = kind\<rparr>"

text \<open>\<open>primary\<close> is what \<open>store.readEncrypted(tenantId)\<close> returned: envelope, snapshot and text.\<close>

definition create_backup ::
  "backup_env \<Rightarrow> point_io \<Rightarrow> int \<Rightarrow> string \<Rightarrow> string \<Rightarrow> string
     \<Rightarrow> persist_error + (audit_content sealed \<times> audit_snapshot \<times> audit_text) option
     \<Rightarrow> backup_dir \<Rightarrow> backup_dir \<times> (recovery_error + backup_manifest \<times> string list)" where
  "create_backup env io now suffix t kind primary d =
     (if \<not> valid_tenant t then (d, Inl (BadArgument ''tenantId''))
      else if kind \<notin> set backup_kinds then (d, Inl (BadArgument ''kind''))
      else case primary of
        Inl e \<Rightarrow> (d, Inl (StoreFailed e))
      | Inr None \<Rightarrow> (d, Inl (Unavailable Backup ''create''))
      | Inr (Some (e, sn, x)) \<Rightarrow> (case list_backups env t d of
          Inl err \<Rightarrow> (d, Inl err)
        | Inr existing \<Rightarrow>
            if \<not> io_mkdir io then (d, Inl FileFailure)
            else let m = backup_manifest_for env now suffix t kind e x existing in
              (case store_point Backup ''create'' (validate_backup_manifest (be_H env) t) bk_backupId bk_createdOrder
                  (be_retention env) io (be_trim env x) m d of
                (d', Inl err) \<Rightarrow> (d', Inl err)
              | (d', Inr pruned) \<Rightarrow> (d', Inr (m, pruned)))))"

record loaded_backup =
  lb_manifest :: backup_manifest
  lb_text :: audit_text
  lb_snapshot :: audit_snapshot
  lb_envelope :: "audit_content sealed"

definition load_backup :: "backup_env \<Rightarrow> string \<Rightarrow> string \<Rightarrow> backup_dir \<Rightarrow> recovery_error + loaded_backup" where
  "load_backup env t i d =
     ensure (valid_tenant t) (BadArgument ''tenantId'')
    (ensure (valid_backup_id i) (BadArgument ''backupId'')
    (case (map_of (pd_manifests d) i, map_of (pd_texts d) i) of
       (Some f, Some x) \<Rightarrow> (case read_manifest Backup (validate_backup_manifest (be_H env) t) f of
           Inl (Integrity k s) \<Rightarrow> Inl (Integrity k s)
         | Inl _ \<Rightarrow> Inl (Unavailable Backup ''load'')
         | Inr m \<Rightarrow> ensure (be_digest env x = bk_checksum m) (Integrity Backup ''checksum'')
             (case inspect_encrypted (be_H env) (be_keys env) t x of
                Inl (Persistence s) \<Rightarrow> Inl (Integrity Backup s)
              | Inl _ \<Rightarrow> Inl (Unavailable Backup ''load'')
              | Inr (e, sn) \<Rightarrow> Inr \<lparr>lb_manifest = m, lb_text = x, lb_snapshot = sn, lb_envelope = e\<rparr>))
     | _ \<Rightarrow> Inl (PointMissing Backup i)))"

definition summary_of :: "audit_snapshot \<Rightarrow> recovery_summary" where
  "summary_of sn = (let c = sn_content sn in
     \<lparr>sm_engagements = length (ct_engagements c), sm_findings = length (ct_findings c), sm_events = length (ct_events c),
      sm_head = (if ct_events c = [] then None else Some (gv_hash (last (ct_events c))))\<rparr>)"

definition verify_backup :: "backup_env \<Rightarrow> string \<Rightarrow> string \<Rightarrow> backup_dir \<Rightarrow> recovery_error + backup_manifest \<times> recovery_summary" where
  "verify_backup env t i d = bindR (load_backup env t i d) (\<lambda>b. Inr (lb_manifest b, summary_of (lb_snapshot b)))"

subsection \<open>Backups are recovery points\<close>

interpretation backups: recovery_dir Backup "validate_backup_manifest H t" bk_backupId bk_createdOrder for H t
  by unfold_locales (simp add: validate_backup_manifest_def)

abbreviation backups_ok :: "backup_env \<Rightarrow> string \<Rightarrow> backup_dir \<Rightarrow> bool" where
  "backups_ok env t d \<equiv> dir_ok (validate_backup_manifest (be_H env) t) bk_backupId d"

text \<open>What the clock, the digest and the random suffix have to provide for a backup to be listed.\<close>

definition backup_sane :: "backup_env \<Rightarrow> int \<Rightarrow> string \<Rightarrow> audit_text \<Rightarrow> audit_content sealed \<Rightarrow> backup_manifest list \<Rightarrow> bool" where
  "backup_sane env now suffix x e existing =
     (valid_backup_id (create_backup_id now suffix) \<and> now * 1000 \<le> max_safe \<and> list_all (\<lambda>b. bk_createdOrder b < max_safe) existing
      \<and> is_hex_text 64 (be_digest env x) \<and> 1 \<le> be_size env x \<and> se_keyId e \<noteq> [] \<and> be_trim env x = x)"

lemma backup_manifest_valid:
  assumes "backup_sane env now suffix x e existing" and "kind \<in> set backup_kinds" and "\<forall>b \<in> set existing. 1 \<le> bk_createdOrder b"
  shows "validate_backup_manifest (be_H env) t (backup_manifest_for env now suffix t kind e x existing) = Inr ()"
proof -
  have "be_digest env x \<noteq> []" "kind \<noteq> []" using assms(1,2) by (auto simp: backup_sane_def is_hex_text_def backup_kinds_def)
  then show ?thesis
    using assms
    by (cases existing) (auto simp: backup_sane_def validate_backup_manifest_def backup_manifest_for_def max_safe_def)
qed

lemma backup_listed:
  assumes "backups_ok env t d" and "list_backups env t d = Inr existing"
  shows "\<forall>b \<in> set existing. 1 \<le> bk_createdOrder b \<and> valid_backup_id (bk_backupId b)"
    and "set (map bk_backupId existing) = set (names d)"
    and "list_points Backup (validate_backup_manifest (be_H env) t) bk_createdOrder d = Inr existing"
proof -
  show l: "list_points Backup (validate_backup_manifest (be_H env) t) bk_createdOrder d = Inr existing"
    using assms(2) by (simp add: list_backups_def)
  note ls = backups.listed [OF assms(1) l]
  show "set (map bk_backupId existing) = set (names d)" using ls by blast
  have "\<forall>b \<in> set existing. validate_backup_manifest (be_H env) t b = Inr ()"
    using ls unfolding points_def by (auto elim!: dir_ok_entry [OF assms(1)])
  then show "\<forall>b \<in> set existing. 1 \<le> bk_createdOrder b \<and> valid_backup_id (bk_backupId b)"
    by (simp add: validate_backup_manifest_def)
qed

text \<open>The directory from which a name has been removed reads the other names as before.\<close>

lemma map_of_without: "i \<notin> S \<Longrightarrow> map_of (filter (\<lambda>p. fst p \<notin> S) xs) i = map_of xs i"
  by (induction xs) auto

lemma load_backup_cong:
  "map_of (pd_manifests d') i = map_of (pd_manifests d) i \<Longrightarrow> map_of (pd_texts d') i = map_of (pd_texts d) i \<Longrightarrow>
     load_backup env t i d' = load_backup env t i d"
  by (simp add: load_backup_def)

lemma newest_order:
  assumes "\<forall>b \<in> set existing. bk_createdOrder b \<le> (case existing of [] \<Rightarrow> 0 | c # _ \<Rightarrow> bk_createdOrder c)"
  shows "\<forall>b \<in> set existing. bk_createdOrder b < bk_createdOrder (backup_manifest_for env now suffix t kind e x existing)"
  using assms by (fastforce simp: backup_manifest_for_def)

lemma sorted_newest:
  assumes "existing = sort_key (\<lambda>b. - bk_createdOrder b) bs"
  shows "\<forall>b \<in> set existing. bk_createdOrder b \<le> (case existing of [] \<Rightarrow> 0 | c # _ \<Rightarrow> bk_createdOrder c)"
proof -
  have "sorted (map (\<lambda>b. - bk_createdOrder b) existing)" by (simp add: assms)
  then show ?thesis by (cases existing) auto
qed

subsection \<open>The outcome of a creation\<close>

lemma create_backup_outcome:
  assumes "backups_ok env t d" and "valid_tenant t" and "kind \<in> set backup_kinds"
    and "list_backups env t d = Inr existing" and "inspect_encrypted (be_H env) (be_keys env) t x = Inr (e, sn)"
    and "backup_sane env now suffix x e existing" and "create_backup_id now suffix \<notin> set (map fst (pd_texts d))"
    and "0 < be_retention env" and "\<And>f. io_unlink io f"
    and "create_backup env io now suffix t kind (Inr (Some (e, sn, x))) d = (d', r)"
  shows "case r of
      Inl err \<Rightarrow> d' = d \<and> \<not> (io_mkdir io \<and> io_text io \<and> io_manifest io)
    | Inr (m, pruned) \<Rightarrow> backups_ok env t d' \<and> list_backups env t d' = Inr (take (be_retention env) (m # existing))
        \<and> pruned = map bk_backupId (drop (be_retention env) (m # existing))
        \<and> load_backup env t (bk_backupId m) d' = Inr \<lparr>lb_manifest = m, lb_text = x, lb_snapshot = sn, lb_envelope = e\<rparr>
        \<and> (\<forall>b \<in> set (take (be_retention env - 1) existing). load_backup env t (bk_backupId b) d' = load_backup env t (bk_backupId b) d)"
proof -
  note ls = backup_listed [OF assms(1,4)]
  define m where "m = backup_manifest_for env now suffix t kind e x existing"
  have idm: "bk_backupId m = create_backup_id now suffix" by (simp add: m_def backup_manifest_for_def)
  have valid: "validate_backup_manifest (be_H env) t m = Inr ()"
    unfolding m_def by (rule backup_manifest_valid [OF assms(6,3)]) (use ls in blast)
  have fresh: "bk_backupId m \<notin> set (map fst (pd_texts d))" using assms(7) idm by simp
  then have fresh': "bk_backupId m \<notin> set (names d)" using assms(1) by (auto simp: names_def elim!: dir_ok_entry)
  have "existing = sort_key (\<lambda>b. - bk_createdOrder b) (points d)" using ls(3) backups.list_points_ok [OF assms(1)] by simp
  from sorted_newest [OF this] have order: "\<forall>b \<in> set existing. bk_createdOrder b < bk_createdOrder m"
    unfolding m_def by (rule newest_order)
  have trim: "be_trim env x = x" using assms(6) by (simp add: backup_sane_def)
  show ?thesis
  proof (cases "io_mkdir io \<and> io_text io \<and> io_manifest io")
    case False
    then show ?thesis
      using assms(2-4,10) backups.store_point_unwritten [OF fresh' fresh _ assms(9)]
      by (auto simp: create_backup_def Let_def m_def [symmetric] trim split: if_splits)
  next
    case True
    obtain d1 pruned where st: "store_point Backup ''create'' (validate_backup_manifest (be_H env) t) bk_backupId bk_createdOrder
        (be_retention env) io x m d = (d1, Inr pruned)"
      and pr: "pruned = map bk_backupId (drop (be_retention env) (m # existing))"
      and d1: "d1 = without (set pruned) (put_manifest (bk_backupId m) m (put_text (bk_backupId m) x d))"
      and ok: "backups_ok env t d1" and l: "list_points Backup (validate_backup_manifest (be_H env) t) bk_createdOrder d1
          = Inr (take (be_retention env) (m # existing))"
      using backups.store_point_fine [OF assms(1) ls(3) valid fresh' order assms(8) _ _ assms(9)] True by blast
    have r: "d' = d1" "r = Inr (m, pruned)"
      using assms(2-4,10) True st by (simp_all add: create_backup_def Let_def m_def [symmetric] trim)
    have dist: "distinct (map bk_backupId (m # existing))"
      using backups.listed [OF assms(1) ls(3)] fresh' ls(2) by simp
    then have cut: "bk_backupId ` set (take n (m # existing)) \<inter> bk_backupId ` set (drop n (m # existing)) = {}" for n
      by (metis append_take_drop_id distinct_append map_append set_map)
    have kept: "bk_backupId b \<notin> set pruned" if "b \<in> set (take (be_retention env) (m # existing))" for b
      using that cut [of "be_retention env"] unfolding pr by (auto simp del: take_Suc_Cons)
    have "m \<in> set (take (be_retention env) (m # existing))" using assms(8) by (cases "be_retention env") auto
    then have new: "load_backup env t (bk_backupId m) d1 = Inr \<lparr>lb_manifest = m, lb_text = x, lb_snapshot = sn, lb_envelope = e\<rparr>"
      using kept [of m] assms(2,5,6) idm valid
      by (simp add: load_backup_def d1 without_def put_manifest_def put_text_def map_of_without read_manifest_def
            backup_sane_def m_def backup_manifest_for_def)
    have "load_backup env t (bk_backupId b) d1 = load_backup env t (bk_backupId b) d"
      if b: "b \<in> set (take (be_retention env - 1) existing)" for b
    proof (rule load_backup_cong)
      have "b \<in> set (take (be_retention env) (m # existing))" using b assms(8) by (cases "be_retention env") auto
      then have nb: "bk_backupId b \<notin> set pruned" by (rule kept)
      have "b \<in> set existing" using b by (rule in_set_takeD)
      then have "bk_backupId b \<noteq> bk_backupId m" using dist by (metis distinct.simps(2) image_eqI list.simps(9) set_map)
      then show "map_of (pd_manifests d1) (bk_backupId b) = map_of (pd_manifests d) (bk_backupId b)"
        "map_of (pd_texts d1) (bk_backupId b) = map_of (pd_texts d) (bk_backupId b)"
        using nb by (simp_all add: d1 without_def put_manifest_def put_text_def map_of_without)
    qed
    then show ?thesis using r ok l pr new assms(2) by (simp add: list_backups_def)
  qed
qed

subsection \<open>Properties\<close>

text \<open>
  C31. As long as removals succeed, a backup that is created is the newest recovery point and loads back exactly the snapshot
  that was read from the store; the retention keeps the newest backups, and every older one that
  it keeps loads as before. When the text or the manifest cannot be written, the directory of
  backups is left as it was.
\<close>

theorem created_backup_is_a_recovery_point:
  assumes "backups_ok env t d" and "valid_tenant t" and "kind \<in> set backup_kinds"
    and "list_backups env t d = Inr existing" and "inspect_encrypted (be_H env) (be_keys env) t x = Inr (e, sn)"
    and "backup_sane env now suffix x e existing" and "create_backup_id now suffix \<notin> set (map fst (pd_texts d))"
    and "0 < be_retention env" and "\<And>f. io_unlink io f"
    and "create_backup env io now suffix t kind (Inr (Some (e, sn, x))) d = (d', r)"
  shows "case r of
      Inl err \<Rightarrow> d' = d \<and> \<not> (io_mkdir io \<and> io_text io \<and> io_manifest io)
    | Inr (m, pruned) \<Rightarrow> backups_ok env t d' \<and> list_backups env t d' = Inr (take (be_retention env) (m # existing))
        \<and> pruned = map bk_backupId (drop (be_retention env) (m # existing))
        \<and> load_backup env t (bk_backupId m) d' = Inr \<lparr>lb_manifest = m, lb_text = x, lb_snapshot = sn, lb_envelope = e\<rparr>
        \<and> (\<forall>b \<in> set (take (be_retention env - 1) existing). load_backup env t (bk_backupId b) d' = load_backup env t (bk_backupId b) d)"
  using assms by (rule create_backup_outcome)

definition demo_backup_env :: backup_env where
  "demo_backup_env = \<lparr>be_H = (\<lambda>s. s), be_keys = \<lparr>sk_keyring = [(''k1'', ''secret'')], sk_primary = ''k1''\<rparr>,
     be_digest = (\<lambda>_. replicate 64 (CHR ''a'')), be_size = (\<lambda>_. 1), be_trim = (\<lambda>x. x), be_retention = 2\<rparr>"

definition demo_content :: audit_snapshot where
  "demo_content = \<lparr>sn_tenantId = ''acme'', sn_savedAt = 0,
     sn_content = \<lparr>ct_engagements = seeded_engagements, ct_findings = [], ct_events = []\<rparr>\<rparr>"

definition demo_sealed :: "audit_content sealed" where
  "demo_sealed = \<lparr>se_keyId = ''k1'', se_tenantHash = ''acme'', se_writtenAt = 0, se_iv = ''iv'', se_key = ''secret'',
     se_aad = (''k1'', ''acme'', 0, ''iv''), se_plain = demo_content\<rparr>"

definition demo_io :: point_io where
  "demo_io = \<lparr>io_mkdir = True, io_text = True, io_manifest = True, io_unlink = (\<lambda>_. True)\<rparr>"

lemma demo_backup_id: "valid_backup_id (create_backup_id 1753000000000 ''0123abcd'')"
  by code_simp

theorem created_backup_is_a_recovery_point_witness:
  "\<exists>d' m. create_backup demo_backup_env demo_io 1753000000000 ''0123abcd'' ''acme'' ''manual''
       (Inr (Some (demo_sealed, demo_content, SealedText demo_sealed))) no_points = (d', Inr (m, []))
     \<and> load_backup demo_backup_env ''acme'' (bk_backupId m) d'
         = Inr \<lparr>lb_manifest = m, lb_text = SealedText demo_sealed, lb_snapshot = demo_content, lb_envelope = demo_sealed\<rparr>"
proof -
  obtain d' r where run: "create_backup demo_backup_env demo_io 1753000000000 ''0123abcd'' ''acme'' ''manual''
       (Inr (Some (demo_sealed, demo_content, SealedText demo_sealed))) no_points = (d', r)" by (rule prod.exhaust)
  have t: "valid_tenant ''acme''" by code_simp
  have insp: "inspect_encrypted (be_H demo_backup_env) (be_keys demo_backup_env) ''acme'' (SealedText demo_sealed) = Inr (demo_sealed, demo_content)"
    using t by (simp add: inspect_encrypted_def validate_envelope_def decrypt_sealed_def associated_data_def valid_snapshot_def
        demo_backup_env_def demo_sealed_def demo_content_def)
  have l: "list_backups demo_backup_env ''acme'' no_points = Inr []"
    using t by (simp add: list_backups_def list_points_def no_points_def)
  have hex: "is_hex_text 64 (replicate 64 (CHR ''a''))" by code_simp
  have s: "backup_sane demo_backup_env 1753000000000 ''0123abcd'' (SealedText demo_sealed) demo_sealed []"
    using demo_backup_id hex by (simp add: backup_sane_def max_safe_def demo_backup_env_def demo_sealed_def)
  from created_backup_is_a_recovery_point [OF dir_ok_empty t _ l insp s _ _ _ run]
  show ?thesis
    using run by (auto simp: backup_kinds_def no_points_def demo_io_def demo_backup_env_def split: sum.splits)
qed

end
