(* ===== verification/ReplicaManager.thy ===== *)
theory ReplicaManager
  imports BackupManager
begin

section \<open>Replicas of backups (src/resilience/replicaManager.js)\<close>

text \<open>
  A replica is a second copy of a backup, with a manifest of its own, in another directory. The
  operations are those of recovery points; \<open>replicate\<close> is idempotent: a replica that exists is
  verified and compared with its source. A disabled manager answers without files.
\<close>

subsection \<open>Data\<close>

record replica_manifest =
  rp_backupId :: string
  rp_tenantHash :: string
  rp_sourceCreatedAt :: int
  rp_replicatedAt :: int
  rp_replicatedOrder :: int
  rp_keyId :: string
  rp_checksum :: string
  rp_size :: int
  rp_kind :: string

type_synonym replica_dir = "(replica_manifest, audit_text) point_dir"

record replica_env =
  re_store :: backup_env
  re_trim :: "audit_text \<Rightarrow> audit_text"
  re_enabled :: bool
  re_required :: bool
  re_retention :: nat
  re_maxLag :: int

definition validate_replica_manifest :: "(string \<Rightarrow> string) \<Rightarrow> string \<Rightarrow> replica_manifest \<Rightarrow> recovery_error + unit" where
  "validate_replica_manifest H t m =
     ensure (valid_backup_id (rp_backupId m)) (BadArgument ''backupId'')
    (ensure (rp_tenantHash m = H t) (Integrity Replica ''tenant'')
    (ensure (rp_keyId m \<noteq> [] \<and> rp_checksum m \<noteq> [] \<and> rp_kind m \<noteq> []) (Integrity Replica ''field'')
    (ensure (is_hex_text 64 (rp_checksum m)) (Integrity Replica ''checksum'')
    (ensure (1 \<le> rp_replicatedOrder m \<and> rp_replicatedOrder m \<le> max_safe) (Integrity Replica ''order'')
    (ensure (1 \<le> rp_size m) (Integrity Replica ''size'') (Inr ()))))))"

subsection \<open>Operations\<close>

definition list_replicas :: "replica_env \<Rightarrow> string \<Rightarrow> replica_dir \<Rightarrow> recovery_error + replica_manifest list" where
  "list_replicas env t d = ensure (valid_tenant t) (BadArgument ''tenantId'')
     (list_points Replica (validate_replica_manifest (be_H (re_store env)) t) rp_replicatedOrder d)"

definition remove_replica :: "(point_file \<Rightarrow> bool) \<Rightarrow> string \<Rightarrow> string \<Rightarrow> replica_dir \<Rightarrow> replica_dir \<times> (recovery_error + bool)" where
  "remove_replica fine t i d =
     (if \<not> valid_tenant t then (d, Inl (BadArgument ''tenantId'')) else remove_point Replica fine i d)"

definition prune_replicas :: "replica_env \<Rightarrow> (point_file \<Rightarrow> bool) \<Rightarrow> string \<Rightarrow> replica_dir \<Rightarrow> replica_dir \<times> (recovery_error + string list)" where
  "prune_replicas env fine t d =
     prune_points Replica (validate_replica_manifest (be_H (re_store env)) t) rp_backupId rp_replicatedOrder (re_retention env) fine d"

definition verify_replica :: "replica_env \<Rightarrow> string \<Rightarrow> string \<Rightarrow> replica_dir \<Rightarrow> recovery_error + replica_manifest \<times> recovery_summary" where
  "verify_replica env t i d =
     (let b = re_store env in
     ensure (valid_tenant t) (BadArgument ''tenantId'')
    (ensure (valid_backup_id i) (BadArgument ''backupId'')
    (case (map_of (pd_texts d) i, map_of (pd_manifests d) i) of
       (Some x, Some f) \<Rightarrow> (case read_manifest Replica (validate_replica_manifest (be_H b) t) f of
           Inl (Integrity k s) \<Rightarrow> Inl (Integrity k s)
         | Inl _ \<Rightarrow> Inl (Unavailable Replica ''verify'')
         | Inr m \<Rightarrow> ensure (be_digest b x = rp_checksum m) (Integrity Replica ''checksum'')
            (ensure (be_size b x = rp_size m) (Integrity Replica ''size'')
             (case inspect_encrypted (be_H b) (be_keys b) t x of
                Inl (Persistence s) \<Rightarrow> Inl (Integrity Replica s)
              | Inl _ \<Rightarrow> Inl (Unavailable Replica ''verify'')
              | Inr (e, sn) \<Rightarrow> Inr (m, summary_of sn))))
     | _ \<Rightarrow> Inl (PointMissing Replica i))))"

definition replica_manifest_for ::
  "replica_env \<Rightarrow> int \<Rightarrow> string \<Rightarrow> string \<Rightarrow> loaded_backup \<Rightarrow> replica_manifest list \<Rightarrow> replica_manifest" where
  "replica_manifest_for env now t i source existing =
     \<lparr>rp_backupId = i, rp_tenantHash = be_H (re_store env) t, rp_sourceCreatedAt = bk_createdAt (lb_manifest source),
      rp_replicatedAt = now,
      rp_replicatedOrder = max (now * 1000) ((case existing of [] \<Rightarrow> 0 | r # _ \<Rightarrow> rp_replicatedOrder r) + 1),
      rp_keyId = se_keyId (lb_envelope source), rp_checksum = be_digest (re_store env) (lb_text source),
      rp_size = be_size (re_store env) (lb_text source), rp_kind = bk_kind (lb_manifest source)\<rparr>"

record replicated =
  rr_manifest :: replica_manifest
  rr_pruned :: "string list"
  rr_idempotent :: bool

text \<open>\<open>source\<close> is what \<open>backupManager.load(tenantId, backupId)\<close> returned.\<close>

definition replicate_backup ::
  "replica_env \<Rightarrow> point_io \<Rightarrow> int \<Rightarrow> string \<Rightarrow> string \<Rightarrow> recovery_error + loaded_backup
     \<Rightarrow> replica_dir \<Rightarrow> replica_dir \<times> (recovery_error + replicated)" where
  "replicate_backup env io now t i source d =
     (if \<not> valid_tenant t then (d, Inl (BadArgument ''tenantId''))
      else if \<not> valid_backup_id i then (d, Inl (BadArgument ''backupId''))
      else case source of Inl e \<Rightarrow> (d, Inl e) | Inr b \<Rightarrow>
       (case list_replicas env t d of Inl e \<Rightarrow> (d, Inl e) | Inr existing \<Rightarrow>
        (case find (\<lambda>r. rp_backupId r = i) existing of
          Some r \<Rightarrow> (d, bindR (verify_replica env t i d) (\<lambda>(m, summary).
             ensure (rp_checksum m = be_digest (re_store env) (lb_text b)) (Integrity Replica ''conflict'')
               (Inr \<lparr>rr_manifest = r, rr_pruned = [], rr_idempotent = True\<rparr>)))
        | None \<Rightarrow> let m = replica_manifest_for env now t i b existing in
            (case store_point Replica ''replicate'' (validate_replica_manifest (be_H (re_store env)) t) rp_backupId rp_replicatedOrder
                (re_retention env) io (re_trim env (lb_text b)) m d of
              (d', Inl e) \<Rightarrow> (d', Inl e)
            | (d', Inr pruned) \<Rightarrow> (d', Inr \<lparr>rr_manifest = m, rr_pruned = pruned, rr_idempotent = False\<rparr>)))))"

record replica_health =
  rh_status :: string
  rh_latest :: "replica_manifest option"
  rh_lag :: "int option"

definition tenant_health :: "replica_env \<Rightarrow> int \<Rightarrow> string \<Rightarrow> replica_dir \<Rightarrow> replica_health" where
  "tenant_health env now t d = (case list_replicas env t d of
     Inl _ \<Rightarrow> \<lparr>rh_status = ''unavailable'', rh_latest = None, rh_lag = None\<rparr>
   | Inr [] \<Rightarrow> \<lparr>rh_status = (if re_required env then ''missing'' else ''empty''), rh_latest = None, rh_lag = None\<rparr>
   | Inr (latest # _) \<Rightarrow> let lag = max 0 ((now - rp_replicatedAt latest) div 60000) in
       \<lparr>rh_status = (if re_maxLag env < lag then ''stale'' else ''ready''), rh_latest = Some latest, rh_lag = Some lag\<rparr>)"

text \<open>The manager that the environment configures: enabled, or without a directory and disabled.\<close>

definition replicas_list :: "replica_env \<Rightarrow> string \<Rightarrow> replica_dir \<Rightarrow> recovery_error + replica_manifest list" where
  "replicas_list env t d = (if re_enabled env then list_replicas env t d else Inr [])"

definition replicas_replicate ::
  "replica_env \<Rightarrow> point_io \<Rightarrow> int \<Rightarrow> string \<Rightarrow> string \<Rightarrow> recovery_error + loaded_backup
     \<Rightarrow> replica_dir \<Rightarrow> replica_dir \<times> (recovery_error + replicated)" where
  "replicas_replicate env io now t i source d =
     (if re_enabled env then replicate_backup env io now t i source d else (d, Inl (Unavailable Replica ''replica'')))"

definition replicas_verify :: "replica_env \<Rightarrow> string \<Rightarrow> string \<Rightarrow> replica_dir \<Rightarrow> recovery_error + replica_manifest \<times> recovery_summary" where
  "replicas_verify env t i d = (if re_enabled env then verify_replica env t i d else Inl (Unavailable Replica ''replica''))"

definition replicas_remove :: "replica_env \<Rightarrow> (point_file \<Rightarrow> bool) \<Rightarrow> string \<Rightarrow> string \<Rightarrow> replica_dir \<Rightarrow> replica_dir \<times> (recovery_error + bool)" where
  "replicas_remove env fine t i d = (if re_enabled env then remove_replica fine t i d else (d, Inr False))"

definition replicas_health :: "replica_env \<Rightarrow> int \<Rightarrow> string \<Rightarrow> replica_dir \<Rightarrow> replica_health" where
  "replicas_health env now t d = (if re_enabled env then tenant_health env now t d
     else \<lparr>rh_status = ''disabled'', rh_latest = None, rh_lag = None\<rparr>)"

subsection \<open>Replicas are recovery points\<close>

interpretation replicas: recovery_dir Replica "validate_replica_manifest H t" rp_backupId rp_replicatedOrder for H t
  by unfold_locales (simp add: validate_replica_manifest_def)

abbreviation replicas_ok :: "replica_env \<Rightarrow> string \<Rightarrow> replica_dir \<Rightarrow> bool" where
  "replicas_ok env t d \<equiv> dir_ok (validate_replica_manifest (be_H (re_store env)) t) rp_backupId d"

lemma newest_replica:
  assumes "existing = sort_key (\<lambda>r. - rp_replicatedOrder r) rs"
  shows "\<forall>r \<in> set existing. rp_replicatedOrder r < rp_replicatedOrder (replica_manifest_for env now t i b existing)"
proof -
  have "sorted (map (\<lambda>r. - rp_replicatedOrder r) existing)" by (simp add: assms)
  then show ?thesis by (cases existing) (auto simp: replica_manifest_for_def)
qed

text \<open>A loaded backup has the checksum, the identifier and the size that its manifest needs.\<close>

definition replica_sane :: "replica_env \<Rightarrow> int \<Rightarrow> loaded_backup \<Rightarrow> replica_manifest list \<Rightarrow> bool" where
  "replica_sane env now b existing = (now * 1000 \<le> max_safe \<and> list_all (\<lambda>r. rp_replicatedOrder r < max_safe) existing
     \<and> 1 \<le> be_size (re_store env) (lb_text b) \<and> se_keyId (lb_envelope b) \<noteq> [] \<and> re_trim env (lb_text b) = lb_text b)"

lemma load_backup_Inr:
  assumes "load_backup env t i d = Inr b"
  shows "valid_tenant t \<and> valid_backup_id i \<and> map_of (pd_texts d) i = Some (lb_text b)
    \<and> map_of (pd_manifests d) i = Some (Some (lb_manifest b)) \<and> validate_backup_manifest (be_H env) t (lb_manifest b) = Inr ()
    \<and> be_digest env (lb_text b) = bk_checksum (lb_manifest b)
    \<and> inspect_encrypted (be_H env) (be_keys env) t (lb_text b) = Inr (lb_envelope b, lb_snapshot b)"
  using assms
  by (auto simp: load_backup_def read_manifest_def split: option.splits sum.splits recovery_error.splits persist_error.splits prod.splits)

lemma replica_manifest_valid:
  assumes "load_backup (re_store env) t i bd = Inr b" and "replica_sane env now b existing" and "\<forall>r \<in> set existing. 1 \<le> rp_replicatedOrder r"
  shows "validate_replica_manifest (be_H (re_store env)) t (replica_manifest_for env now t i b existing) = Inr ()"
proof -
  have v: "valid_backup_id i" "validate_backup_manifest (be_H (re_store env)) t (lb_manifest b) = Inr ()"
    "be_digest (re_store env) (lb_text b) = bk_checksum (lb_manifest b)"
    using load_backup_Inr [OF assms(1)] by auto
  show ?thesis
    using v assms(2,3)
    by (cases existing) (auto simp: replica_sane_def validate_backup_manifest_def validate_replica_manifest_def replica_manifest_for_def max_safe_def)
qed

lemma verify_replica_Inr:
  "verify_replica env t i d = Inr (m, summary) \<Longrightarrow> \<exists>x e sn. map_of (pd_texts d) i = Some x \<and> map_of (pd_manifests d) i = Some (Some m)
     \<and> be_digest (re_store env) x = rp_checksum m
     \<and> inspect_encrypted (be_H (re_store env)) (be_keys (re_store env)) t x = Inr (e, sn) \<and> summary = summary_of sn"
  by (auto simp: verify_replica_def read_manifest_def Let_def
      split: option.splits sum.splits recovery_error.splits persist_error.splits prod.splits)

lemma replica_listed:
  assumes "replicas_ok env t d" and "list_replicas env t d = Inr existing"
  shows "\<forall>r \<in> set existing. 1 \<le> rp_replicatedOrder r"
    and "set (map rp_backupId existing) = set (names d)"
    and "list_points Replica (validate_replica_manifest (be_H (re_store env)) t) rp_replicatedOrder d = Inr existing"
    and "existing = sort_key (\<lambda>r. - rp_replicatedOrder r) (points d)"
proof -
  show l: "list_points Replica (validate_replica_manifest (be_H (re_store env)) t) rp_replicatedOrder d = Inr existing"
    using assms(2) by (simp add: list_replicas_def)
  note ls = replicas.listed [OF assms(1) l]
  show "set (map rp_backupId existing) = set (names d)" using ls by blast
  have "\<forall>r \<in> set existing. validate_replica_manifest (be_H (re_store env)) t r = Inr ()"
    using ls unfolding points_def by (auto elim!: dir_ok_entry [OF assms(1)])
  then show "\<forall>r \<in> set existing. 1 \<le> rp_replicatedOrder r" by (simp add: validate_replica_manifest_def)
  show "existing = sort_key (\<lambda>r. - rp_replicatedOrder r) (points d)"
    using l replicas.list_points_ok [OF assms(1)] by simp
qed

text \<open>A replica that has just been written holds the text of its source.\<close>

lemma new_replica:
  assumes "replicas_ok env t d" and "list_replicas env t d = Inr existing" and "load_backup (re_store env) t i bd = Inr b"
    and "replica_sane env now b existing" and "0 < re_retention env" and "\<And>f. io_unlink io f" and "io_text io" and "io_manifest io"
    and "i \<notin> set (names d)"
  shows "\<exists>d' pruned. store_point Replica ''replicate'' (validate_replica_manifest (be_H (re_store env)) t) rp_backupId rp_replicatedOrder
      (re_retention env) io (lb_text b) (replica_manifest_for env now t i b existing) d = (d', Inr pruned) \<and> replicas_ok env t d'
    \<and> verify_replica env t i d' = Inr (replica_manifest_for env now t i b existing, summary_of (lb_snapshot b))"
proof -
  let ?m = "replica_manifest_for env now t i b existing"
  note ls = replica_listed [OF assms(1,2)]
  note b = load_backup_Inr [OF assms(3)]
  have id: "rp_backupId ?m = i" by (simp add: replica_manifest_for_def)
  have valid: "validate_replica_manifest (be_H (re_store env)) t ?m = Inr ()" by (rule replica_manifest_valid [OF assms(3,4) ls(1)])
  have "rp_backupId ?m \<notin> set (names d)" using assms(9) id by simp
  from replicas.store_point_fine [OF assms(1) ls(3) valid this newest_replica [OF ls(4)] assms(5,7,8,6)]
  obtain d' pruned where st: "store_point Replica ''replicate'' (validate_replica_manifest (be_H (re_store env)) t) rp_backupId
      rp_replicatedOrder (re_retention env) io (lb_text b) ?m d = (d', Inr pruned)"
    and d': "d' = without (set pruned) (put_manifest i ?m (put_text i (lb_text b) d))" and ok: "replicas_ok env t d'"
    and pr: "pruned = map rp_backupId (drop (re_retention env) (?m # existing))"
    unfolding id by blast
  have "i \<notin> set pruned"
    using assms(5,9) ls(2) set_drop_subset [of "re_retention env - 1" existing] unfolding pr by (cases "re_retention env") auto
  then have "verify_replica env t i d' = Inr (?m, summary_of (lb_snapshot b))"
    using b valid
    by (simp add: verify_replica_def d' without_def put_manifest_def put_text_def map_of_without read_manifest_def Let_def)
      (simp add: replica_manifest_for_def)
  then show ?thesis using st ok by blast
qed

subsection \<open>Properties\<close>

text \<open>
  A replication that succeeds, a new one or one that finds the replica already there, leaves a
  replica that verifies: it has the checksum of its source backup and the same summary of counts and
  governance head, unless two different encrypted texts have the same digest. A replication that
  fails for want of a file operation leaves the replicas as they were.
\<close>

theorem replica_matches_source:
  assumes "replicas_ok env t d" and "list_replicas env t d = Inr existing" and "load_backup (re_store env) t i bd = Inr b"
    and "replica_sane env now b existing" and "0 < re_retention env" and "\<And>f. io_unlink io f"
    and "i \<in> set (map fst (pd_texts d)) \<Longrightarrow> i \<in> set (names d)"
    and "replicate_backup env io now t i (load_backup (re_store env) t i bd) d = (d', r)"
  shows "case r of
      Inl err \<Rightarrow> d' = d
    | Inr rr \<Rightarrow> replicas_ok env t d' \<and> (rr_idempotent rr \<longrightarrow> d' = d)
        \<and> (\<exists>m summary. verify_replica env t i d' = Inr (m, summary) \<and> rp_checksum m = bk_checksum (lb_manifest b)
            \<and> (summary = summary_of (lb_snapshot b)
               \<or> (\<exists>y. y \<noteq> lb_text b \<and> be_digest (re_store env) y = be_digest (re_store env) (lb_text b))))"
proof -
  note ls = replica_listed [OF assms(1,2)]
  note b = load_backup_Inr [OF assms(3)]
  have trim: "re_trim env (lb_text b) = lb_text b" using assms(4) by (simp add: replica_sane_def)
  show ?thesis
  proof (cases "find (\<lambda>r. rp_backupId r = i) existing")
    case (Some r0)
    then have run: "d' = d" "r = bindR (verify_replica env t i d) (\<lambda>(m, summary).
        ensure (rp_checksum m = be_digest (re_store env) (lb_text b)) (Integrity Replica ''conflict'')
          (Inr \<lparr>rr_manifest = r0, rr_pruned = [], rr_idempotent = True\<rparr>))"
      using assms(2,3,8) b by (auto simp: replicate_backup_def)
    show ?thesis
    proof (cases r)
      case (Inr rr)
      then obtain m summary where v: "verify_replica env t i d = Inr (m, summary)"
        and c: "rp_checksum m = be_digest (re_store env) (lb_text b)" using run(2) by auto
      from verify_replica_Inr [OF v] obtain x e sn where x: "be_digest (re_store env) x = rp_checksum m"
        "inspect_encrypted (be_H (re_store env)) (be_keys (re_store env)) t x = Inr (e, sn)" "summary = summary_of sn" by blast
      have "summary = summary_of (lb_snapshot b) \<or> x \<noteq> lb_text b" using x b by auto
      then have "summary = summary_of (lb_snapshot b)
          \<or> (\<exists>y. y \<noteq> lb_text b \<and> be_digest (re_store env) y = be_digest (re_store env) (lb_text b))"
        using x(1) c by metis
      then show ?thesis using Inr run(1) v c b assms(1) by simp
    qed (simp add: run(1))
  next
    case None
    then have new: "i \<notin> set (names d)" using ls(2) by (force simp: find_None_iff)
    let ?m = "replica_manifest_for env now t i b existing"
    have id: "rp_backupId ?m = i" by (simp add: replica_manifest_for_def)
    show ?thesis
    proof (cases "io_text io \<and> io_manifest io")
      case False
      have "i \<notin> set (map fst (pd_texts d))" using assms(7) new by blast
      then have "store_point Replica ''replicate'' (validate_replica_manifest (be_H (re_store env)) t) rp_backupId rp_replicatedOrder
          (re_retention env) io (lb_text b) ?m d = (d, Inl (Unavailable Replica ''replicate''))"
        by (intro replicas.store_point_unwritten) (use new False assms(6) id in auto)
      then have "d' = d" "r = Inl (Unavailable Replica ''replicate'')"
        using assms(2,3,8) None b trim by (auto simp: replicate_backup_def Let_def)
      then show ?thesis by simp
    next
      case True
      then obtain d1 pruned where st: "store_point Replica ''replicate'' (validate_replica_manifest (be_H (re_store env)) t) rp_backupId
          rp_replicatedOrder (re_retention env) io (lb_text b) ?m d = (d1, Inr pruned)" and ok: "replicas_ok env t d1"
        and v: "verify_replica env t i d1 = Inr (?m, summary_of (lb_snapshot b))"
        using new_replica [OF assms(1-6) _ _ new] by blast
      have "d' = d1" "r = Inr \<lparr>rr_manifest = ?m, rr_pruned = pruned, rr_idempotent = False\<rparr>"
        using assms(2,3,8) None b trim st by (auto simp: replicate_backup_def Let_def)
      then show ?thesis using ok v b by (simp add: replica_manifest_for_def)
    qed
  qed
qed

definition demo_manifest :: backup_manifest where
  "demo_manifest = \<lparr>bk_backupId = ''BAK-20250720080000-0123abcd'', bk_tenantHash = ''acme'', bk_createdAt = 0, bk_createdOrder = 1,
     bk_snapshotWrittenAt = 0, bk_keyId = ''k1'', bk_checksum = replicate 64 (CHR ''a''), bk_size = 1, bk_kind = ''manual''\<rparr>"

definition demo_backups :: backup_dir where
  "demo_backups = \<lparr>pd_manifests = [(''BAK-20250720080000-0123abcd'', Some demo_manifest)],
     pd_texts = [(''BAK-20250720080000-0123abcd'', SealedText demo_sealed)]\<rparr>"

definition demo_replicas :: replica_env where
  "demo_replicas = \<lparr>re_store = demo_backup_env, re_trim = (\<lambda>x. x), re_enabled = True, re_required = True, re_retention = 1, re_maxLag = 60\<rparr>"

lemma demo_load:
  "load_backup demo_backup_env ''acme'' ''BAK-20250720080000-0123abcd'' demo_backups
     = Inr \<lparr>lb_manifest = demo_manifest, lb_text = SealedText demo_sealed, lb_snapshot = demo_content, lb_envelope = demo_sealed\<rparr>"
proof -
  have v: "valid_tenant ''acme''" "valid_backup_id ''BAK-20250720080000-0123abcd''" "is_hex_text 64 (replicate 64 (CHR ''a''))"
    by code_simp+
  have m: "validate_backup_manifest (\<lambda>s. s) ''acme'' demo_manifest = Inr ()"
    using v by (simp add: validate_backup_manifest_def demo_manifest_def max_safe_def backup_kinds_def)
  show ?thesis
    using v m
    by (simp add: load_backup_def demo_backups_def demo_backup_env_def read_manifest_def inspect_encrypted_def validate_envelope_def
        decrypt_sealed_def associated_data_def valid_snapshot_def demo_sealed_def demo_content_def)
      (simp add: demo_manifest_def)
qed

theorem replica_matches_source_witness:
  "\<exists>d' rr m summary. replicate_backup demo_replicas demo_io 1753000000000 ''acme'' ''BAK-20250720080000-0123abcd''
       (load_backup demo_backup_env ''acme'' ''BAK-20250720080000-0123abcd'' demo_backups) no_points = (d', Inr rr)
     \<and> verify_replica demo_replicas ''acme'' ''BAK-20250720080000-0123abcd'' d' = Inr (m, summary)
     \<and> rp_checksum m = bk_checksum demo_manifest"
proof -
  obtain d' r where run: "replicate_backup demo_replicas demo_io 1753000000000 ''acme'' ''BAK-20250720080000-0123abcd''
       (load_backup demo_backup_env ''acme'' ''BAK-20250720080000-0123abcd'' demo_backups) no_points = (d', r)" by (rule prod.exhaust)
  have v: "valid_tenant ''acme''" "valid_backup_id ''BAK-20250720080000-0123abcd''" by code_simp+
  have l: "list_replicas demo_replicas ''acme'' no_points = Inr []"
    using v by (simp add: list_replicas_def list_points_def no_points_def)
  have ld: "load_backup (re_store demo_replicas) ''acme'' ''BAK-20250720080000-0123abcd'' demo_backups
     = Inr \<lparr>lb_manifest = demo_manifest, lb_text = SealedText demo_sealed, lb_snapshot = demo_content, lb_envelope = demo_sealed\<rparr>"
    using demo_load by (simp add: demo_replicas_def)
  let ?b = "\<lparr>lb_manifest = demo_manifest, lb_text = SealedText demo_sealed, lb_snapshot = demo_content, lb_envelope = demo_sealed\<rparr>"
  have s: "replica_sane demo_replicas 1753000000000 ?b []"
    by (simp add: replica_sane_def max_safe_def demo_replicas_def demo_backup_env_def demo_sealed_def)
  have "\<exists>rr. r = Inr rr"
  proof -
    have ret: "0 < re_retention demo_replicas" "io_text demo_io" "io_manifest demo_io" "\<And>f. io_unlink demo_io f"
      by (simp_all add: demo_replicas_def demo_io_def)
    have "replicas_ok demo_replicas ''acme'' no_points" by (rule dir_ok_empty)
    from new_replica [OF this l ld s ret(1,4,2,3)]
    show ?thesis using run v l ld by (auto simp: replicate_backup_def Let_def names_def no_points_def demo_replicas_def)
  qed
  then obtain rr where rr: "r = Inr rr" by blast
  have "case r of Inl err \<Rightarrow> d' = no_points
    | Inr rr \<Rightarrow> replicas_ok demo_replicas ''acme'' d' \<and> (rr_idempotent rr \<longrightarrow> d' = no_points)
        \<and> (\<exists>m summary. verify_replica demo_replicas ''acme'' ''BAK-20250720080000-0123abcd'' d' = Inr (m, summary)
            \<and> rp_checksum m = bk_checksum (lb_manifest ?b)
            \<and> (summary = summary_of (lb_snapshot ?b)
               \<or> (\<exists>y. y \<noteq> lb_text ?b \<and> be_digest (re_store demo_replicas) y = be_digest (re_store demo_replicas) (lb_text ?b))))"
    by (rule replica_matches_source [OF dir_ok_empty l ld s])
      (use run ld demo_load in \<open>auto simp: no_points_def demo_replicas_def demo_io_def\<close>)
  then show ?thesis using rr run by auto
qed

end
