(* ===== verification/WorkforceRegistry.thy ===== *)
theory WorkforceRegistry
  imports ReplicaManager
begin

section \<open>The workforce-audit registry (src/services/workforceAuditRegistry.js)\<close>

text \<open>
  One service per tenant over one ledger, one encrypted store, the backups and the replicas. The
  state has the snapshot files, the directories of backups and replicas by tenant digest, the ledger
  and the loaded services. What the environment decides is drawn from lists in the order of the
  calls: whether a snapshot is written, how the files of a recovery point behave, the random suffix
  of a backup and the initialisation vector of an envelope; a list that has run out gives success.
  The clock stands still during one command.
\<close>

subsection \<open>State\<close>

type_synonym service_state = "engagement list \<times> finding list"

record wf_env =
  wf_replica :: replica_env
  wf_dp :: "string \<Rightarrow> int option"
  wf_now :: int

record wf_state =
  wf_files :: "audit_content snapshot_files"
  wf_backups :: "string \<Rightarrow> backup_dir"
  wf_replicas :: "string \<Rightarrow> replica_dir"
  wf_ledger :: ledger
  wf_services :: "string \<Rightarrow> service_state option"
  wf_writes :: "bool list"
  wf_points :: "point_io list"
  wf_suffixes :: "string list"
  wf_ivs :: "string list"

datatype wf_error =
    Recovery recovery_error
  | Persist persist_error
  | Governance ledger_error
  | Service audit_error
  | Conflict
  | InvalidField string
  | RollbackFailed

type_synonym 'a wf = "(wf_state, wf_error, 'a) call"

abbreviation wf_backup :: "wf_env \<Rightarrow> backup_env" where "wf_backup env \<equiv> re_store (wf_replica env)"
abbreviation wf_H :: "wf_env \<Rightarrow> string \<Rightarrow> string" where "wf_H env \<equiv> be_H (wf_backup env)"
abbreviation wf_keys :: "wf_env \<Rightarrow> snapshot_keys" where "wf_keys env \<equiv> be_keys (wf_backup env)"

fun first_or :: "'a \<Rightarrow> 'a list \<Rightarrow> 'a" where
  "first_or a [] = a"
| "first_or a (x # xs) = x"

definition fine_io :: point_io where
  "fine_io = \<lparr>io_mkdir = True, io_text = True, io_manifest = True, io_unlink = (\<lambda>_. True)\<rparr>"

definition draw_write :: "bool wf" where
  "draw_write s = (s\<lparr>wf_writes := tl (wf_writes s)\<rparr>, Inr (first_or True (wf_writes s)))"

definition draw_point :: "point_io wf" where
  "draw_point s = (s\<lparr>wf_points := tl (wf_points s)\<rparr>, Inr (first_or fine_io (wf_points s)))"

definition draw_suffix :: "string wf" where
  "draw_suffix s = (s\<lparr>wf_suffixes := tl (wf_suffixes s)\<rparr>, Inr (first_or ''00000000'' (wf_suffixes s)))"

definition draw_iv :: "string wf" where
  "draw_iv s = (s\<lparr>wf_ivs := tl (wf_ivs s)\<rparr>, Inr (first_or [] (wf_ivs s)))"

text \<open>The operations of the components, on the parts of the state.\<close>

definition on_files :: "(audit_content snapshot_files \<Rightarrow> audit_content snapshot_files \<times> (persist_error + 'a)) \<Rightarrow> 'a wf" where
  "on_files f s = (case f (wf_files s) of
     (fs, Inl e) \<Rightarrow> (s\<lparr>wf_files := fs\<rparr>, Inl (Persist e)) | (fs, Inr x) \<Rightarrow> (s\<lparr>wf_files := fs\<rparr>, Inr x))"

definition on_backups :: "wf_env \<Rightarrow> string \<Rightarrow> (backup_dir \<Rightarrow> backup_dir \<times> (recovery_error + 'a)) \<Rightarrow> 'a wf" where
  "on_backups env t f s = (case f (wf_backups s (wf_H env t)) of
     (d, Inl e) \<Rightarrow> (s\<lparr>wf_backups := (wf_backups s)(wf_H env t := d)\<rparr>, Inl (Recovery e))
   | (d, Inr x) \<Rightarrow> (s\<lparr>wf_backups := (wf_backups s)(wf_H env t := d)\<rparr>, Inr x))"

definition on_replicas :: "wf_env \<Rightarrow> string \<Rightarrow> (replica_dir \<Rightarrow> replica_dir \<times> (recovery_error + 'a)) \<Rightarrow> 'a wf" where
  "on_replicas env t f s = (case f (wf_replicas s (wf_H env t)) of
     (d, Inl e) \<Rightarrow> (s\<lparr>wf_replicas := (wf_replicas s)(wf_H env t := d)\<rparr>, Inl (Recovery e))
   | (d, Inr x) \<Rightarrow> (s\<lparr>wf_replicas := (wf_replicas s)(wf_H env t := d)\<rparr>, Inr x))"

definition on_ledger :: "(ledger \<Rightarrow> ledger_error + ledger \<times> 'a) \<Rightarrow> 'a wf" where
  "on_ledger f s = (case f (wf_ledger s) of
     Inl e \<Rightarrow> (s, Inl (Governance e)) | Inr (l, x) \<Rightarrow> (s\<lparr>wf_ledger := l\<rparr>, Inr x))"

definition ask :: "('e \<Rightarrow> wf_error) \<Rightarrow> (wf_state \<Rightarrow> 'e + 'a) \<Rightarrow> 'a wf" where
  "ask C f s = (s, case f s of Inl e \<Rightarrow> Inl (C e) | Inr x \<Rightarrow> Inr x)"

subsection \<open>Validation\<close>

definition validate_actor :: "jsval \<Rightarrow> string option" where
  "validate_actor v = (if safe_ident ''._:-'' 0 191 (trimmed v) then Some (trimmed v) else None)"

definition validate_reason :: "jsval \<Rightarrow> string option" where
  "validate_reason v = clean_text_in 10 500 v"

definition with_actor :: "jsval \<Rightarrow> (string \<Rightarrow> 'a wf) \<Rightarrow> 'a wf" where
  "with_actor v f = (case validate_actor v of None \<Rightarrow> throwS (InvalidField ''actor'') | Some a \<Rightarrow> f a)"

definition with_reason :: "jsval \<Rightarrow> (string \<Rightarrow> 'a wf) \<Rightarrow> 'a wf" where
  "with_reason v f = (case validate_reason v of None \<Rightarrow> throwS (InvalidField ''reason'') | Some a \<Rightarrow> f a)"

abbreviation with_tenant :: "string \<Rightarrow> 'a wf \<Rightarrow> 'a wf" where
  "with_tenant t \<equiv> ensureS (valid_tenant t) (Persist BadTenant)"

subsection \<open>Services and persistence\<close>

definition set_service :: "string \<Rightarrow> service_state \<Rightarrow> unit wf" where
  "set_service t x = modifyS (\<lambda>s. s\<lparr>wf_services := (wf_services s)(t \<mapsto> x)\<rparr>)"

definition initial_service :: "service_state option \<Rightarrow> service_state" where
  "initial_service i = (let s = initial_state i None in (au_engagements s, au_findings s))"

text \<open>\<open>forTenant\<close>: the service of a tenant, loaded at the first call.\<close>

definition for_tenant :: "wf_env \<Rightarrow> string \<Rightarrow> service_state wf" where
  "for_tenant env t = with_tenant t (bindS (getS (\<lambda>s. wf_services s t)) (\<lambda>loaded. case loaded of
     Some x \<Rightarrow> returnS x
   | None \<Rightarrow> bindS (ask Persist (\<lambda>s. load_snapshot (wf_H env) (wf_keys env) t (wf_files s))) (\<lambda>snapshot.
       bindS (on_ledger (\<lambda>l. bindR (import_tenant (wf_H env) t
           (case snapshot of None \<Rightarrow> [] | Some sn \<Rightarrow> ct_events (sn_content sn)) l) (\<lambda>l'. Inr (l', ())))) (\<lambda>_.
       let x = initial_service (map_option (\<lambda>sn. (ct_engagements (sn_content sn), ct_findings (sn_content sn))) snapshot) in
       bindS (set_service t x) (\<lambda>_. returnS x)))))"

definition snapshot_of :: "wf_env \<Rightarrow> string \<Rightarrow> service_state \<Rightarrow> gov_event list \<Rightarrow> audit_snapshot" where
  "snapshot_of env t x es = \<lparr>sn_tenantId = t, sn_savedAt = wf_now env,
     sn_content = \<lparr>ct_engagements = fst x, ct_findings = snd x, ct_events = es\<rparr>\<rparr>"

definition persist_state :: "wf_env \<Rightarrow> string \<Rightarrow> service_state \<Rightarrow> unit wf" where
  "persist_state env t x = bindS (ask Governance (\<lambda>s. export_tenant t (wf_ledger s))) (\<lambda>es.
     bindS draw_write (\<lambda>written. bindS draw_iv (\<lambda>iv.
     on_files (save_snapshot (wf_H env) (wf_keys env) (wf_now env) iv written t (snapshot_of env t x es)))))"

definition operational_event :: "string \<Rightarrow> string \<Rightarrow> string \<Rightarrow> string \<Rightarrow> string \<Rightarrow> jsval \<Rightarrow> gov_input" where
  "operational_event t actor action entityType entityId metadata =
     \<lparr>gi_tenant = t, gi_actor = actor, gi_action = action, gi_entityType = entityType, gi_entityId = entityId,
      gi_metadata = metadata\<rparr>"

definition append_operational_event :: "wf_env \<Rightarrow> string \<Rightarrow> gov_input \<Rightarrow> gov_event wf" where
  "append_operational_event env t input = bindS (for_tenant env t) (\<lambda>service.
     bindS (getS (\<lambda>s. checkpoint t (wf_ledger s))) (\<lambda>cp.
     catchS (bindS (on_ledger (ledger_append (wf_H env) (wf_now env) input)) (\<lambda>event.
         bindS (persist_state env t service) (\<lambda>_. returnS event)))
       (\<lambda>e. bindS (modifyS (\<lambda>s. s\<lparr>wf_ledger := rollback_to t cp (wf_ledger s)\<rparr>)) (\<lambda>_. throwS e))))"

text \<open>
  A request to the tenant's service (\<open>createEngagement\<close>, \<open>addFieldworkPlaceholder\<close>,
  \<open>createFinding\<close>): the service persists through \<open>persistState\<close> when it commits.
\<close>

definition audit_of :: "wf_state \<Rightarrow> service_state \<Rightarrow> audit_state" where
  "audit_of s x = \<lparr>au_engagements = fst x, au_findings = snd x, au_ledger = Some (wf_ledger s)\<rparr>"

definition put_audit :: "string \<Rightarrow> audit_state \<Rightarrow> wf_state \<Rightarrow> wf_state" where
  "put_audit t a s = s\<lparr>wf_services := (wf_services s)(t \<mapsto> (au_engagements a, au_findings a)),
     wf_ledger := (case au_ledger a of None \<Rightarrow> wf_ledger s | Some l \<Rightarrow> l)\<rparr>"

definition save_audit :: "wf_env \<Rightarrow> string \<Rightarrow> string \<Rightarrow> bool \<Rightarrow> wf_state \<Rightarrow> audit_state \<Rightarrow> audit_content snapshot_files \<times> (persist_error + unit)" where
  "save_audit env t iv written s a = save_snapshot (wf_H env) (wf_keys env) (wf_now env) iv written t
     (snapshot_of env t (au_engagements a, au_findings a) (tenant_events t (wf_ledger (put_audit t a s)))) (wf_files s)"

definition service_env :: "wf_env \<Rightarrow> string \<Rightarrow> string \<Rightarrow> bool \<Rightarrow> wf_state \<Rightarrow> audit_env" where
  "service_env env t iv written s = \<lparr>ae_H = wf_H env, ae_dp = wf_dp env, ae_now = wf_now env, ae_tenant = t,
     ae_persist = (\<lambda>a. case snd (save_audit env t iv written s a) of Inl e \<Rightarrow> Some ''save'' | Inr _ \<Rightarrow> None)\<rparr>"

definition service_request ::
  "wf_env \<Rightarrow> string \<Rightarrow> (audit_env \<Rightarrow> audit_state \<Rightarrow> audit_state \<times> (audit_error + 'a)) \<Rightarrow> 'a wf" where
  "service_request env t f = bindS (for_tenant env t) (\<lambda>service. bindS draw_write (\<lambda>written. bindS draw_iv (\<lambda>iv. \<lambda>s.
     (case f (service_env env t iv written s) (audit_of s service) of
        (a, Inl e) \<Rightarrow> (put_audit t a s, Inl (Service e))
      | (a, Inr r) \<Rightarrow> ((put_audit t a s)\<lparr>wf_files := fst (save_audit env t iv written s a)\<rparr>, Inr r)))))"

definition wf_create_engagement :: "wf_env \<Rightarrow> string \<Rightarrow> jsval \<Rightarrow> jsval \<Rightarrow> engagement wf" where
  "wf_create_engagement env t input context = service_request env t (\<lambda>ae. create_engagement ae input context)"

definition wf_add_placeholder :: "wf_env \<Rightarrow> string \<Rightarrow> string \<Rightarrow> jsval \<Rightarrow> jsval \<Rightarrow> placeholder wf" where
  "wf_add_placeholder env t engagementId input context =
     service_request env t (\<lambda>ae. add_fieldwork_placeholder ae engagementId input context)"

definition wf_create_finding :: "wf_env \<Rightarrow> string \<Rightarrow> jsval \<Rightarrow> jsval \<Rightarrow> finding wf" where
  "wf_create_finding env t input context = service_request env t (\<lambda>ae. create_finding ae input context)"

subsection \<open>Backups and replicas\<close>

definition read_primary :: "wf_env \<Rightarrow> string \<Rightarrow> audit_content snapshot_files
    \<Rightarrow> persist_error + (audit_content sealed \<times> audit_snapshot \<times> audit_text) option" where
  "read_primary env t files = bindR (read_encrypted (wf_H env) (wf_keys env) t files) (\<lambda>r. case r of
     None \<Rightarrow> Inr None
   | Some (sn, x) \<Rightarrow> bindR (inspect_encrypted (wf_H env) (wf_keys env) t x) (\<lambda>(e, _). Inr (Some (e, sn, x))))"

definition replicate_tenant_backup :: "wf_env \<Rightarrow> string \<Rightarrow> string \<Rightarrow> jsval \<Rightarrow> jsval \<Rightarrow> replicated wf" where
  "replicate_tenant_backup env t i actor reason = with_tenant t (with_actor actor (\<lambda>safeActor. with_reason reason (\<lambda>safeReason.
     bindS (for_tenant env t) (\<lambda>_. bindS draw_point (\<lambda>io.
     bindS (getS (\<lambda>s. load_backup (wf_backup env) t i (wf_backups s (wf_H env t)))) (\<lambda>source.
     bindS (on_replicas env t (replicas_replicate (wf_replica env) io (wf_now env) t i source)) (\<lambda>replica.
     catchS (bindS (append_operational_event env t (operational_event t safeActor ''backup.replicated'' ''replica'' i
           (JObj [(''reason'', JStr safeReason), (''checksumSha256'', JStr (rp_checksum (rr_manifest replica))),
              (''replicatedAt'', JInt (rp_replicatedAt (rr_manifest replica))),
              (''prunedReplicaIds'', JArr (map JStr (rr_pruned replica))), (''idempotent'', JBool (rr_idempotent replica))])))
         (\<lambda>_. returnS replica))
       (\<lambda>e. bindS (if rr_idempotent replica then returnS ()
             else ignoreS (on_replicas env t (replicas_remove (wf_replica env) (io_unlink io) t i))) (\<lambda>_. throwS e)))))))))"

datatype replication_outcome = ReplicationDisabled | Replicated replicated | ReplicationFailed wf_error

record tenant_backup =
  tb_manifest :: backup_manifest
  tb_pruned :: "string list"
  tb_replication :: replication_outcome

text \<open>\<open>error.code\<close>; a \<open>TypeError\<close> has none, and the code of a raw file-system error is not modelled.\<close>

fun error_code :: "wf_error \<Rightarrow> string option" where
  "error_code (Recovery (Unavailable Backup s)) = Some ''BACKUP_UNAVAILABLE''"
| "error_code (Recovery (PointMissing Backup s)) = Some ''BACKUP_NOT_FOUND''"
| "error_code (Recovery (Integrity Backup s)) = Some ''BACKUP_INTEGRITY_FAILED''"
| "error_code (Recovery (Unavailable Replica s)) = Some ''REPLICA_UNAVAILABLE''"
| "error_code (Recovery (PointMissing Replica s)) = Some ''REPLICA_NOT_FOUND''"
| "error_code (Recovery (Integrity Replica s)) = Some ''REPLICA_INTEGRITY_FAILED''"
| "error_code (Recovery (StoreFailed (Persistence s))) = Some ''PERSISTENCE_UNAVAILABLE''"
| "error_code (Persist (Persistence s)) = Some ''PERSISTENCE_UNAVAILABLE''"
| "error_code (Persist (FenceRejected a b)) = Some ''PERSISTENCE_FENCE_REJECTED''"
| "error_code (Service (Validation s)) = Some ''VALIDATION_ERROR''"
| "error_code (Service NotFound) = Some ''NOT_FOUND''"
| "error_code Conflict = Some ''RECOVERY_CONFLICT''"
| "error_code (InvalidField s) = Some ''VALIDATION_ERROR''"
| "error_code RollbackFailed = Some ''BACKUP_UNAVAILABLE''"
| "error_code _ = None"

definition replicate_new_backup :: "wf_env \<Rightarrow> string \<Rightarrow> string \<Rightarrow> string \<Rightarrow> string \<Rightarrow> string \<Rightarrow> replication_outcome wf" where
  "replicate_new_backup env t i safeActor safeReason kind =
     (if \<not> re_enabled (wf_replica env) then returnS ReplicationDisabled
      else catchS (bindS (replicate_tenant_backup env t i (JStr safeActor) (JStr (''Replicate '' @ kind @ '' recovery point: '' @ safeReason)))
          (\<lambda>replicated. returnS (Replicated replicated)))
        (\<lambda>e. bindS (ignoreS (append_operational_event env t (operational_event t safeActor ''backup.replication.failed'' ''backup'' i
             (JObj [(''reason'', JStr safeReason), (''code'', JStr (case error_code e of None \<Rightarrow> ''REPLICA_UNAVAILABLE'' | Some c \<Rightarrow> c))])))) (\<lambda>_. returnS (ReplicationFailed e))))"

definition create_tenant_backup :: "wf_env \<Rightarrow> string \<Rightarrow> jsval \<Rightarrow> jsval \<Rightarrow> string \<Rightarrow> tenant_backup wf" where
  "create_tenant_backup env t actor reason kind = with_tenant t (with_actor actor (\<lambda>safeActor. with_reason reason (\<lambda>safeReason.
     bindS (for_tenant env t) (\<lambda>service. bindS (persist_state env t service) (\<lambda>_.
     bindS draw_point (\<lambda>io. bindS draw_suffix (\<lambda>suffix.
     bindS (getS (\<lambda>s. read_primary env t (wf_files s))) (\<lambda>primary.
     bindS (on_backups env t (create_backup (wf_backup env) io (wf_now env) suffix t kind primary)) (\<lambda>(backup, pruned).
     bindS (catchS (append_operational_event env t (operational_event t safeActor ''backup.created'' ''backup'' (bk_backupId backup)
           (JObj [(''kind'', JStr kind), (''reason'', JStr safeReason), (''checksumSha256'', JStr (bk_checksum backup)),
              (''keyId'', JStr (bk_keyId backup)), (''prunedBackupIds'', JArr (map JStr pruned))])))
         (\<lambda>e. bindS (ignoreS (on_backups env t (remove_backup (io_unlink io) t (bk_backupId backup)))) (\<lambda>_. throwS e))) (\<lambda>_.
     bindS (replicate_new_backup env t (bk_backupId backup) safeActor safeReason kind) (\<lambda>replication.
     returnS \<lparr>tb_manifest = backup, tb_pruned = pruned, tb_replication = replication\<rparr>)))))))))))"

definition list_tenant_backups :: "wf_env \<Rightarrow> string \<Rightarrow> backup_manifest list wf" where
  "list_tenant_backups env t = bindS (for_tenant env t) (\<lambda>_.
     ask Recovery (\<lambda>s. list_backups (wf_backup env) t (wf_backups s (wf_H env t))))"

definition verify_tenant_backup :: "wf_env \<Rightarrow> string \<Rightarrow> string \<Rightarrow> (backup_manifest \<times> recovery_summary) wf" where
  "verify_tenant_backup env t i = bindS (for_tenant env t) (\<lambda>_.
     ask Recovery (\<lambda>s. verify_backup (wf_backup env) t i (wf_backups s (wf_H env t))))"

definition list_tenant_replicas :: "wf_env \<Rightarrow> string \<Rightarrow> replica_manifest list wf" where
  "list_tenant_replicas env t = bindS (for_tenant env t) (\<lambda>_.
     ask Recovery (\<lambda>s. replicas_list (wf_replica env) t (wf_replicas s (wf_H env t))))"

definition verify_tenant_replica :: "wf_env \<Rightarrow> string \<Rightarrow> string \<Rightarrow> (replica_manifest \<times> recovery_summary) wf" where
  "verify_tenant_replica env t i = bindS (for_tenant env t) (\<lambda>_.
     ask Recovery (\<lambda>s. replicas_verify (wf_replica env) t i (wf_replicas s (wf_H env t))))"

subsection \<open>Recovery drill and resilience\<close>

definition run_recovery_drill :: "wf_env \<Rightarrow> string \<Rightarrow> jsval \<Rightarrow> string option \<Rightarrow> gov_event wf" where
  "run_recovery_drill env t actor backupId = with_tenant t (with_actor actor (\<lambda>safeActor.
     bindS (for_tenant env t) (\<lambda>_.
     bindS (case backupId of Some i \<Rightarrow> returnS i
         | None \<Rightarrow> bindS (ask Recovery (\<lambda>s. replicas_list (wf_replica env) t (wf_replicas s (wf_H env t))))
             (\<lambda>rs. returnS (case rs of [] \<Rightarrow> [] | r # _ \<Rightarrow> rp_backupId r))) (\<lambda>targetId.
     ensureS (targetId \<noteq> []) (Recovery (PointMissing Replica ''latest''))
    (bindS (ask Recovery (\<lambda>s. verify_backup (wf_backup env) t targetId (wf_backups s (wf_H env t)))) (\<lambda>(backup, backupSummary).
     bindS (ask Recovery (\<lambda>s. replicas_verify (wf_replica env) t targetId (wf_replicas s (wf_H env t)))) (\<lambda>(replica, summary).
     ensureS (bk_checksum backup = rp_checksum replica \<and> backupSummary = summary) (Recovery (Integrity Replica ''drill''))
    (append_operational_event env t (operational_event t safeActor ''recovery.drill.completed'' ''replica'' targetId
       (JObj [(''outcome'', JStr ''passed''), (''checksumSha256'', JStr (rp_checksum replica)),
          (''replicatedAt'', JInt (rp_replicatedAt replica)), (''engagementCount'', JInt (int (sm_engagements summary))),
          (''findingCount'', JInt (int (sm_findings summary))), (''governanceHeadHash'', opt_str (sm_head summary))]))))))))))"

record resilience =
  rs_status :: string
  rs_latestBackup :: "backup_manifest option"
  rs_latestReplica :: "replica_manifest option"
  rs_health :: replica_health
  rs_drillStatus :: string
  rs_drillAge :: "int option"

definition latest_drill :: "gov_event list \<Rightarrow> gov_event option" where
  "latest_drill es = (let ds = filter (\<lambda>e. gv_action e = ''recovery.drill.completed'') es in if ds = [] then None else Some (last ds))"

fun first_of :: "'a list \<Rightarrow> 'a option" where
  "first_of [] = None" | "first_of (x # xs) = Some x"

definition drill_status :: "wf_env \<Rightarrow> int \<Rightarrow> gov_event option \<Rightarrow> string \<times> int option" where
  "drill_status env maxAge drill = (let age = map_option (\<lambda>e. max 0 ((wf_now env - gv_occurredAt e) div 86400000)) drill in
     (if \<not> re_enabled (wf_replica env) then ''disabled'' else (case age of None \<Rightarrow> ''missing''
        | Some a \<Rightarrow> if maxAge < a then ''stale'' else ''ready''), age))"

definition get_resilience_status :: "wf_env \<Rightarrow> string \<Rightarrow> int \<Rightarrow> resilience wf" where
  "get_resilience_status env t maxAge = with_tenant t (bindS (for_tenant env t) (\<lambda>_.
     bindS (ask Recovery (\<lambda>s. list_backups (wf_backup env) t (wf_backups s (wf_H env t)))) (\<lambda>backups.
     bindS (ask Recovery (\<lambda>s. replicas_list (wf_replica env) t (wf_replicas s (wf_H env t)))) (\<lambda>replicas.
     bindS (getS (\<lambda>s. replicas_health (wf_replica env) (wf_now env) t (wf_replicas s (wf_H env t)))) (\<lambda>health.
     bindS (ask Governance (\<lambda>s. export_tenant t (wf_ledger s))) (\<lambda>es.
     (case drill_status env maxAge (latest_drill es) of (drill, age) \<Rightarrow>
     returnS \<lparr>rs_status = (if \<not> re_enabled (wf_replica env) then ''disabled''
           else if rh_status health = ''ready'' \<and> drill = ''ready'' then ''ready'' else ''attention''),
        rs_latestBackup = first_of backups, rs_latestReplica = first_of replicas, rs_health = health,
        rs_drillStatus = drill, rs_drillAge = age\<rparr>)))))))"

text \<open>One tenant of \<open>runResilienceCycle\<close>.\<close>

record cycle_result =
  cy_backup :: "string option"
  cy_drill :: "string option"
  cy_resilience :: resilience

definition backup_due :: "wf_env \<Rightarrow> int \<Rightarrow> backup_manifest list \<Rightarrow> bool" where
  "backup_due env interval backups = (case find (\<lambda>b. bk_kind b = ''scheduled'') backups of
     None \<Rightarrow> True
   | Some b \<Rightarrow> interval \<le> max 0 ((wf_now env - bk_createdAt b) div 60000))"

definition scheduled_backup :: "wf_env \<Rightarrow> int \<Rightarrow> string \<Rightarrow> string \<Rightarrow> tenant_backup option wf" where
  "scheduled_backup env interval safeActor t = bindS (ask Recovery (\<lambda>s. list_backups (wf_backup env) t (wf_backups s (wf_H env t)))) (\<lambda>backups.
     if backup_due env interval backups then
       bindS (create_tenant_backup env t (JStr safeActor) (JStr ''Scheduled workforce-audit resilience recovery point'') ''scheduled'') (\<lambda>backup.
       (case tb_replication backup of
          ReplicationFailed e \<Rightarrow> if re_required (wf_replica env) then throwS (Recovery (Unavailable Replica ''cycle'')) else returnS (Some backup)
        | _ \<Rightarrow> returnS (Some backup)))
     else if re_enabled (wf_replica env) then
       bindS (ask Recovery (\<lambda>s. replicas_list (wf_replica env) t (wf_replicas s (wf_H env t)))) (\<lambda>replicas.
       let latest = bk_backupId (hd backups) in
       if latest \<in> rp_backupId ` set replicas then returnS None
       else bindS (replicate_tenant_backup env t latest (JStr safeActor) (JStr ''Repair missing replica for the latest recovery point''))
         (\<lambda>_. returnS None))
     else returnS None)"

definition due_drill :: "wf_env \<Rightarrow> int \<Rightarrow> string \<Rightarrow> string \<Rightarrow> gov_event option wf" where
  "due_drill env maxDrillAge safeActor t = bindS (get_resilience_status env t maxDrillAge) (\<lambda>status.
     case rs_latestReplica status of
       Some r \<Rightarrow> if re_enabled (wf_replica env) \<and> rs_drillStatus status \<in> {''missing'', ''stale''}
         then bindS (run_recovery_drill env t (JStr safeActor) (Some (rp_backupId r))) (\<lambda>e. returnS (Some e)) else returnS None
     | None \<Rightarrow> returnS None)"

definition cycle_tenant :: "wf_env \<Rightarrow> int \<Rightarrow> int \<Rightarrow> string \<Rightarrow> string \<Rightarrow> cycle_result wf" where
  "cycle_tenant env interval maxDrillAge safeActor t = with_tenant t (bindS (for_tenant env t) (\<lambda>_.
     bindS (scheduled_backup env interval safeActor t) (\<lambda>backup.
     bindS (due_drill env maxDrillAge safeActor t) (\<lambda>drill.
     bindS (get_resilience_status env t maxDrillAge) (\<lambda>status.
     returnS \<lparr>cy_backup = map_option (bk_backupId \<circ> tb_manifest) backup, cy_drill = map_option gv_id drill, cy_resilience = status\<rparr>)))))"

fun cycle_all :: "wf_env \<Rightarrow> int \<Rightarrow> int \<Rightarrow> string \<Rightarrow> string list \<Rightarrow> (string \<times> (wf_error + cycle_result)) list wf" where
  "cycle_all env interval maxDrillAge safeActor [] = returnS []"
| "cycle_all env interval maxDrillAge safeActor (t # ts) =
     bindS (catchS (bindS (cycle_tenant env interval maxDrillAge safeActor t) (\<lambda>r. returnS (Inr r))) (\<lambda>e. returnS (Inl e))) (\<lambda>r.
     bindS (cycle_all env interval maxDrillAge safeActor ts) (\<lambda>rs. returnS ((t, r) # rs)))"

definition run_resilience_cycle ::
  "wf_env \<Rightarrow> jsval list \<Rightarrow> jsval \<Rightarrow> jsval \<Rightarrow> jsval \<Rightarrow> (string \<times> (string \<times> (wf_error + cycle_result)) list) wf" where
  "run_resilience_cycle env tenantIds actor intervalMinutes drillMaxAgeDays = with_actor actor (\<lambda>safeActor.
     case int_in 1 525600 intervalMinutes of None \<Rightarrow> throwS (InvalidField ''scheduledBackupIntervalMinutes'') | Some interval \<Rightarrow>
     (case int_in 1 3650 drillMaxAgeDays of None \<Rightarrow> throwS (InvalidField ''drillMaxAgeDays'') | Some maxDrillAge \<Rightarrow>
     bindS (cycle_all env interval maxDrillAge safeActor (uniq (map js_String tenantIds))) (\<lambda>results.
     returnS (if list_ex (\<lambda>(t, r). \<not> ok r) results then ''partial'' else ''completed'', results))))"

subsection \<open>Restore\<close>

record restore_preview =
  pv_backup :: "backup_manifest \<times> recovery_summary"
  pv_current :: recovery_summary

record restored =
  rd_safetyBackupId :: string
  rd_integrity :: verification
  rd_engagements :: nat
  rd_findings :: nat

datatype restore_result = Preview restore_preview | Restored restored

definition replace_events :: "wf_env \<Rightarrow> string \<Rightarrow> gov_event list \<Rightarrow> unit wf" where
  "replace_events env t es = on_ledger (\<lambda>l. bindR (replace_tenant (wf_H env) t es l) (\<lambda>(l', n). Inr (l', ())))"

definition write_text :: "wf_env \<Rightarrow> string \<Rightarrow> audit_text \<Rightarrow> audit_snapshot wf" where
  "write_text env t x = bindS draw_write (\<lambda>written. on_files (write_encrypted (wf_H env) (wf_keys env) written t x))"

definition restored_event :: "string \<Rightarrow> string \<Rightarrow> string \<Rightarrow> string \<Rightarrow> string \<Rightarrow> string option \<Rightarrow> string option \<Rightarrow> gov_input" where
  "restored_event t safeActor i safeReason safety before target = operational_event t safeActor ''backup.restored'' ''backup'' i
     (JObj [(''reason'', JStr safeReason), (''safetyBackupId'', JStr safety),
        (''preRestoreGovernanceHeadHash'', opt_str before), (''restoredGovernanceHeadHash'', opt_str target)])"

definition install_backup :: "wf_env \<Rightarrow> string \<Rightarrow> string \<Rightarrow> string \<Rightarrow> string \<Rightarrow> string \<Rightarrow> string option \<Rightarrow> loaded_backup \<Rightarrow> restored wf" where
  "install_backup env t i safeActor safeReason safety before prepared =
     (let content = sn_content (lb_snapshot prepared); x = initial_service (Some (ct_engagements content, ct_findings content)) in
     bindS (write_text env t (lb_text prepared)) (\<lambda>_.
     bindS (replace_events env t (ct_events content)) (\<lambda>_.
     bindS (set_service t x) (\<lambda>_.
     bindS (getS (\<lambda>s. vf_headHash (ledger_verify (wf_H env) t (wf_ledger s)))) (\<lambda>target.
     bindS (on_ledger (ledger_append (wf_H env) (wf_now env) (restored_event t safeActor i safeReason safety before target))) (\<lambda>_.
     bindS (persist_state env t x) (\<lambda>_.
     bindS (getS (\<lambda>s. ledger_verify (wf_H env) t (wf_ledger s))) (\<lambda>integrity.
     returnS \<lparr>rd_safetyBackupId = safety, rd_integrity = integrity,
        rd_engagements = length (fst x), rd_findings = length (snd x)\<rparr>))))))))"

definition undo_restore :: "wf_env \<Rightarrow> string \<Rightarrow> service_state \<Rightarrow> gov_event list \<Rightarrow> audit_text option \<Rightarrow> unit wf" where
  "undo_restore env t x es previous =
     bindS (case previous of None \<Rightarrow> returnS () | Some text \<Rightarrow> bindS (write_text env t text) (\<lambda>_. returnS ())) (\<lambda>_.
     bindS (replace_events env t es) (\<lambda>_. set_service t (initial_service (Some x))))"

definition perform_restore :: "wf_env \<Rightarrow> string \<Rightarrow> string \<Rightarrow> string \<Rightarrow> string \<Rightarrow> loaded_backup \<Rightarrow> restored wf" where
  "perform_restore env t i safeActor safeReason prepared =
     bindS (create_tenant_backup env t (JStr safeActor) (JStr (''Pre-restore safety copy: '' @ safeReason)) ''safety'') (\<lambda>safety.
     bindS (for_tenant env t) (\<lambda>x. bindS (getS (\<lambda>s. tenant_events t (wf_ledger s))) (\<lambda>es.
     bindS (ask Persist (\<lambda>s. read_primary env t (wf_files s))) (\<lambda>previous.
     catchS (install_backup env t i safeActor safeReason (bk_backupId (tb_manifest safety))
         (if es = [] then None else Some (gv_hash (last es))) prepared)
       (\<lambda>e. bindS (catchS (undo_restore env t x es (map_option (snd \<circ> snd) previous)) (\<lambda>_. throwS RollbackFailed)) (\<lambda>_. throwS e))))))"

definition restore_tenant_backup ::
  "wf_env \<Rightarrow> string \<Rightarrow> string \<Rightarrow> jsval \<Rightarrow> jsval \<Rightarrow> jsval \<Rightarrow> jsval \<Rightarrow> jsval \<Rightarrow> restore_result wf" where
  "restore_tenant_backup env t i actor reason expectedHeadHash confirmation dryRun =
     with_tenant t (with_actor actor (\<lambda>safeActor. with_reason reason (\<lambda>safeReason.
     bindS (for_tenant env t) (\<lambda>x.
     bindS (getS (\<lambda>s. ledger_verify (wf_H env) t (wf_ledger s))) (\<lambda>current.
     ensureS (expectedHeadHash \<noteq> JUndef \<and> expectedHeadHash = opt_str (vf_headHash current)) Conflict
    (bindS (ask Recovery (\<lambda>s. load_backup (wf_backup env) t i (wf_backups s (wf_H env t)))) (\<lambda>prepared.
     bindS (ask Recovery (\<lambda>s. verify_backup (wf_backup env) t i (wf_backups s (wf_H env t)))) (\<lambda>verified.
     if dryRun \<noteq> JBool False then returnS (Preview \<lparr>pv_backup = verified,
         pv_current = \<lparr>sm_engagements = length (fst x), sm_findings = length (snd x),
           sm_events = vf_checkedEvents current, sm_head = vf_headHash current\<rparr>\<rparr>)
     else ensureS (confirmation = JStr (''RESTORE '' @ i)) (InvalidField ''confirmation'')
       (bindS (perform_restore env t i safeActor safeReason prepared) (\<lambda>r. returnS (Restored r)))))))))))"

end
