(* ===== verification/WorkforceDurability.thy ===== *)
theory WorkforceDurability
  imports WorkforceRegistry
begin

section \<open>The registry keeps memory, ledger and snapshot together\<close>

text \<open>
  Every command of WorkforceRegistry.thy, whatever files fail: it touches one tenant only
  (\<open>frame\<close>), and it leaves the tenant's durable snapshot equal to the service and the events in
  memory (\<open>wf_inv\<close>). The commands are composed by the rules \<open>keeps_intros\<close> of Effects.thy.
\<close>

subsection \<open>The invariant\<close>

definition holds_content :: "wf_env \<Rightarrow> string \<Rightarrow> audit_text \<Rightarrow> service_state \<Rightarrow> gov_event list \<Rightarrow> bool" where
  "holds_content env t text x es = (\<exists>e sn. inspect_encrypted (wf_H env) (wf_keys env) t text = Inr (e, sn)
     \<and> sn_content sn = \<lparr>ct_engagements = fst x, ct_findings = snd x, ct_events = es\<rparr>)"

definition content_holds :: "wf_env \<Rightarrow> string \<Rightarrow> audit_text option \<Rightarrow> service_state \<Rightarrow> gov_event list \<Rightarrow> bool" where
  "content_holds env t file x es = (case file of None \<Rightarrow> True | Some text \<Rightarrow> holds_content env t text x es)"

definition file_holds :: "wf_env \<Rightarrow> wf_state \<Rightarrow> string \<Rightarrow> service_state \<Rightarrow> bool" where
  "file_holds env s t x = content_holds env t (wf_files s (tenant_path (wf_H env) t)) x (tenant_events t (wf_ledger s))"

definition wf_inv :: "wf_env \<Rightarrow> wf_state \<Rightarrow> bool" where
  "wf_inv env s = (ledger_inv (wf_H env) (wf_ledger s)
     \<and> (\<forall>t. wf_services s t \<noteq> None \<longleftrightarrow> t \<in> set (lg_imported (wf_ledger s)))
     \<and> (\<forall>t x. wf_services s t = Some x \<longrightarrow> valid_tenant t \<and> file_holds env s t x))"

lemma wf_invD:
  assumes "wf_inv env s"
  shows "ledger_inv (wf_H env) (wf_ledger s)"
    and "wf_services s t \<noteq> None \<longleftrightarrow> t \<in> set (lg_imported (wf_ledger s))"
    and "wf_services s t = Some x \<Longrightarrow> valid_tenant t"
    and "wf_services s t = Some x \<Longrightarrow> file_holds env s t x"
  using assms unfolding wf_inv_def by blast+

text \<open>Different tenants have different digests, so their files are different.\<close>

definition digests_distinct :: "wf_env \<Rightarrow> bool" where
  "digests_distinct env = inj_on (wf_H env) {t. valid_tenant t}"

lemma path_distinct: "digests_distinct env \<Longrightarrow> valid_tenant t \<Longrightarrow> valid_tenant u \<Longrightarrow> u \<noteq> t \<Longrightarrow>
    wf_H env u \<noteq> wf_H env t \<and> tenant_path (wf_H env) u \<noteq> tenant_path (wf_H env) t"
  by (auto simp: digests_distinct_def tenant_path_def dest: inj_onD)

subsection \<open>Only one tenant is touched\<close>

definition tenant_view :: "wf_env \<Rightarrow> string \<Rightarrow> wf_state
    \<Rightarrow> service_state option \<times> gov_event list \<times> bool \<times> audit_text option \<times> backup_dir \<times> replica_dir" where
  "tenant_view env u s = (wf_services s u, tenant_events u (wf_ledger s), u \<in> set (lg_imported (wf_ledger s)),
     wf_files s (tenant_path (wf_H env) u), wf_backups s (wf_H env u), wf_replicas s (wf_H env u))"

definition frame :: "wf_env \<Rightarrow> string \<Rightarrow> wf_state \<Rightarrow> wf_state \<Rightarrow> bool" where
  "frame env t s s' = (\<forall>u. valid_tenant u \<longrightarrow> u \<noteq> t \<longrightarrow> tenant_view env u s' = tenant_view env u s)"

lemma frame_refl [simp]: "frame env t s s"
  by (simp add: frame_def)

lemma frame_trans: "frame env t s s1 \<Longrightarrow> frame env t s1 s2 \<Longrightarrow> frame env t s s2"
  by (simp add: frame_def)

lemma keeps_frameI: "(\<And>s. frame env t s (fst (m s))) \<Longrightarrow> keeps (frame env t s0) m"
  unfolding keeps_def using frame_trans by blast

text \<open>The state without what the environment decides.\<close>

definition same_core :: "wf_state \<Rightarrow> wf_state \<Rightarrow> bool" where
  "same_core s s' = (wf_files s' = wf_files s \<and> wf_ledger s' = wf_ledger s \<and> wf_services s' = wf_services s)"

lemma wf_inv_core: "wf_inv env s \<Longrightarrow> same_core s s' \<Longrightarrow> wf_inv env s'"
  by (simp add: wf_inv_def same_core_def file_holds_def)

lemma same_core_refl [simp]: "same_core s s" by (simp add: same_core_def)

lemma core_ops:
  "same_core s (fst (draw_write s))" "same_core s (fst (draw_point s))" "same_core s (fst (draw_suffix s))" "same_core s (fst (draw_iv s))"
  "same_core s (fst (on_backups env t f s))" "same_core s (fst (on_replicas env t g s))" "same_core s (fst (ask C h s))"
  by (auto simp: same_core_def draw_write_def draw_point_def draw_suffix_def draw_iv_def on_backups_def on_replicas_def ask_def
      split: prod.splits sum.splits)

lemma keeps_inv_core [keeps_intros]:
  "keeps (wf_inv env) draw_write" "keeps (wf_inv env) draw_point" "keeps (wf_inv env) draw_suffix" "keeps (wf_inv env) draw_iv"
  "keeps (wf_inv env) (on_backups env t f)" "keeps (wf_inv env) (on_replicas env t g)" "keeps (wf_inv env) (ask C h)"
  unfolding keeps_def using wf_inv_core core_ops by blast+

lemma keeps_ask [keeps_intros]: "keeps P (ask C f)"
  by (simp add: keeps_def ask_def)

lemma keeps_with [keeps_intros]:
  "(\<And>a. keeps P (f a)) \<Longrightarrow> keeps P (with_actor v f)" "(\<And>a. keeps P (f a)) \<Longrightarrow> keeps P (with_reason v f)"
  by (simp_all add: with_actor_def with_reason_def keeps_intros)

lemma frame_draw [keeps_intros]:
  "keeps (frame env t s0) draw_write" "keeps (frame env t s0) draw_point" "keeps (frame env t s0) draw_suffix" "keeps (frame env t s0) draw_iv"
  by (simp_all add: keeps_def frame_def tenant_view_def draw_write_def draw_point_def draw_suffix_def draw_iv_def)

lemma frame_dirs [keeps_intros]:
  assumes "digests_distinct env" and "valid_tenant t"
  shows "keeps (frame env t s0) (on_backups env t f)" and "keeps (frame env t s0) (on_replicas env t g)"
  using path_distinct [OF assms]
  by (auto simp: keeps_def frame_def tenant_view_def on_backups_def on_replicas_def split: prod.splits sum.splits)

subsection \<open>Saving\<close>

lemma save_snapshot_cases:
  assumes "save_snapshot H keys nowMs iv written t sn files = (files', r)"
  obtains e where "r = Inl e" "files' = files"
  | new e where "r = Inr ()" "files' = files(tenant_path H t \<mapsto> new)" "inspect_encrypted H keys t new = Inr (e, sn)" "written"
proof (cases "serialize H keys nowMs iv t sn")
  case (Inr new)
  with inspect_serialize [OF Inr, of keys] show ?thesis
    using assms that by (auto simp: save_snapshot_def write_file_def split: if_splits)
qed (use assms that(1) in \<open>auto simp: save_snapshot_def\<close>)

lemma persist_state_cases:
  assumes "persist_state env t x s = (s', r)"
  shows "wf_ledger s' = wf_ledger s \<and> wf_services s' = wf_services s \<and> wf_backups s' = wf_backups s \<and> wf_replicas s' = wf_replicas s
    \<and> (case r of Inl e \<Rightarrow> wf_files s' = wf_files s
        | Inr _ \<Rightarrow> \<exists>text. wf_files s' = (wf_files s)(tenant_path (wf_H env) t \<mapsto> text)
            \<and> holds_content env t text x (tenant_events t (wf_ledger s)))"
proof (cases "export_tenant t (wf_ledger s)")
  case (Inl e)
  then show ?thesis using assms by (auto simp: persist_state_def bindS_def ask_def)
next
  case (Inr es)
  then have es: "es = tenant_events t (wf_ledger s)" by (simp add: export_tenant_def assert_identifier_def)
  obtain files' q where save: "save_snapshot (wf_H env) (wf_keys env) (wf_now env) (first_or [] (wf_ivs s)) (first_or True (wf_writes s)) t
      (snapshot_of env t x es) (wf_files s) = (files', q)" by (rule prod.exhaust)
  have run: "s' = s\<lparr>wf_writes := tl (wf_writes s), wf_ivs := tl (wf_ivs s), wf_files := files'\<rparr>"
    "r = (case q of Inl e \<Rightarrow> Inl (Persist e) | Inr u \<Rightarrow> Inr u)"
    using assms Inr save
    by (auto simp: persist_state_def bindS_def ask_def draw_write_def draw_iv_def on_files_def split: sum.splits)
  from save show ?thesis
    by (rule save_snapshot_cases) (auto simp: run holds_content_def snapshot_of_def es)
qed

lemma frame_persist [keeps_intros]:
  assumes "digests_distinct env" and "valid_tenant t"
  shows "keeps (frame env t s0) (persist_state env t x)"
proof (rule keeps_frameI)
  fix s
  show "frame env t s (fst (persist_state env t x s))"
    using persist_state_cases [of env t x s "fst (persist_state env t x s)" "snd (persist_state env t x s)"] path_distinct [OF assms]
    by (auto simp: frame_def tenant_view_def split: sum.splits)
qed

lemma file_holds_other:
  "wf_files s' (tenant_path (wf_H env) u) = wf_files s (tenant_path (wf_H env) u) \<Longrightarrow>
     tenant_events u (wf_ledger s') = tenant_events u (wf_ledger s) \<Longrightarrow> file_holds env s u x \<Longrightarrow> file_holds env s' u x"
  by (simp add: file_holds_def)

text \<open>After a step within one tenant, only that tenant is to be checked.\<close>

lemma wf_inv_frame:
  assumes "wf_inv env s" and "frame env t s s'" and "ledger_inv (wf_H env) (wf_ledger s')"
    and "\<And>u. u \<noteq> t \<Longrightarrow> wf_services s' u = wf_services s u"
    and "\<And>u. u \<noteq> t \<Longrightarrow> u \<in> set (lg_imported (wf_ledger s')) \<longleftrightarrow> u \<in> set (lg_imported (wf_ledger s))"
    and "wf_services s' t = Some x" and "t \<in> set (lg_imported (wf_ledger s'))" and "valid_tenant t" and "file_holds env s' t x"
  shows "wf_inv env s'"
  unfolding wf_inv_def
proof (intro conjI allI impI)
  show "ledger_inv (wf_H env) (wf_ledger s')" by fact
next
  fix u show "wf_services s' u \<noteq> None \<longleftrightarrow> u \<in> set (lg_imported (wf_ledger s'))"
    using assms(4) [of u] assms(5) [of u] assms(6,7) wf_invD(2) [OF assms(1), of u] by (cases "u = t") auto
next
  fix u y assume u: "wf_services s' u = Some y"
  show "valid_tenant u" using u assms(4) [of u] assms(8) wf_invD(3) [OF assms(1), of u y] by (cases "u = t") auto
  show "file_holds env s' u y"
  proof (cases "u = t")
    case False
    then have s: "wf_services s u = Some y" using u assms(4) by simp
    then have "valid_tenant u" by (rule wf_invD(3) [OF assms(1)])
    then have "tenant_view env u s' = tenant_view env u s" using assms(2) False unfolding frame_def by blast
    then show ?thesis using file_holds_other [of s' env u s y] wf_invD(4) [OF assms(1) s] by (simp add: tenant_view_def)
  qed (use u assms(6,9) in simp)
qed

subsection \<open>Loading a tenant\<close>

lemma for_tenant_loaded: "wf_services s t = Some x \<Longrightarrow> valid_tenant t \<Longrightarrow> for_tenant env t s = (s, Inr x)"
  by (simp add: for_tenant_def ensureS_def bindS_def getS_def returnS_def)

lemma for_tenant_cases:
  assumes "for_tenant env t s = (s', r)"
  obtains (failed) e where "r = Inl e" "s' = s"
  | (loaded) x where "valid_tenant t" "wf_services s t = Some x" "s' = s" "r = Inr x"
  | (loading) snapshot l x where "valid_tenant t" "wf_services s t = None"
      "load_snapshot (wf_H env) (wf_keys env) t (wf_files s) = Inr snapshot"
      "import_tenant (wf_H env) t (case snapshot of None \<Rightarrow> [] | Some sn \<Rightarrow> ct_events (sn_content sn)) (wf_ledger s) = Inr l"
      "x = initial_service (map_option (\<lambda>sn. (ct_engagements (sn_content sn), ct_findings (sn_content sn))) snapshot)"
      "s' = s\<lparr>wf_ledger := l, wf_services := (wf_services s)(t \<mapsto> x)\<rparr>" "r = Inr x"
proof (cases "valid_tenant t")
  case False
  then have "s' = s" "r = Inl (Persist BadTenant)" using assms by (simp_all add: for_tenant_def ensureS_def)
  then show ?thesis by (intro failed)
next
  case True
  show ?thesis
  proof (cases "wf_services s t")
    case (Some x)
    from assms for_tenant_loaded [OF this True, of env] have "s' = s" "r = Inr x" by simp_all
    with True Some show ?thesis by (rule loaded)
  next
    case None
    show ?thesis
    proof (cases "load_snapshot (wf_H env) (wf_keys env) t (wf_files s)")
      case (Inl e)
      then have "for_tenant env t s = (s, Inl (Persist e))"
        using None True by (simp add: for_tenant_def ensureS_def bindS_def getS_def ask_def)
      then show ?thesis using assms by (intro failed) simp_all
    next
      case (Inr snapshot)
      let ?es = "case snapshot of None \<Rightarrow> [] | Some sn \<Rightarrow> ct_events (sn_content sn)"
      show ?thesis
      proof (cases "import_tenant (wf_H env) t ?es (wf_ledger s)")
        case (Inl e)
        then have "for_tenant env t s = (s, Inl (Governance e))"
          using Inr None True by (simp add: for_tenant_def ensureS_def bindS_def getS_def ask_def on_ledger_def)
        then show ?thesis using assms by (intro failed) simp_all
      next
        case imported: (Inr l)
        let ?x = "initial_service (map_option (\<lambda>sn. (ct_engagements (sn_content sn), ct_findings (sn_content sn))) snapshot)"
        have "for_tenant env t s = (s\<lparr>wf_ledger := l, wf_services := (wf_services s)(t \<mapsto> ?x)\<rparr>, Inr ?x)"
          using imported Inr None True
          by (simp add: for_tenant_def ensureS_def bindS_def getS_def returnS_def ask_def on_ledger_def set_service_def modifyS_def Let_def)
        then show ?thesis using assms by (intro loading [OF True None Inr imported refl]) simp_all
      qed
    qed
  qed
qed

lemma for_tenant_Inr: "for_tenant env t s = (s', Inr x) \<Longrightarrow> valid_tenant t \<and> wf_services s' t = Some x
    \<and> wf_files s' = wf_files s \<and> (\<forall>y. wf_services s t = Some y \<longrightarrow> s' = s \<and> x = y)"
  by (erule for_tenant_cases) auto

lemma import_tenant_events:
  assumes "import_tenant H t es l = Inr l'" and "t \<notin> set (lg_imported l)"
  shows "tenant_events u l' = (if u = t then es else tenant_events u l) \<and> set (lg_imported l') = insert t (set (lg_imported l))"
proof -
  obtain n where r: "replace_tenant H t es l = Inr (l', n)" using assms by (auto simp: import_tenant_def assert_identifier_def)
  then have "lg_imported l' = (if t \<in> set (lg_imported l) then lg_imported l else lg_imported l @ [t])"
    unfolding replace_tenant_def assert_identifier_def Let_def by auto
  then have "set (lg_imported l') = insert t (set (lg_imported l))" by auto
  then show ?thesis using replace_tenant_events(1) [OF r] by simp
qed

lemma frame_for_tenant:
  assumes "wf_inv env s"
  shows "frame env t s (fst (for_tenant env t s))"
proof -
  obtain s' r where run: "for_tenant env t s = (s', r)" by (rule prod.exhaust)
  then show ?thesis
  proof (cases rule: for_tenant_cases)
    case (loading snapshot l x)
    have new: "t \<notin> set (lg_imported (wf_ledger s))" using loading(2) wf_invD(2) [OF assms, of t] by simp
    show ?thesis
      using import_tenant_events [OF loading(4) new] run loading(6) by (simp add: frame_def tenant_view_def)
  qed (use run in simp_all)
qed

lemma load_snapshot_content:
  assumes "load_snapshot (wf_H env) (wf_keys env) t files = Inr snapshot"
  shows "case snapshot of None \<Rightarrow> files (tenant_path (wf_H env) t) = None
    | Some sn \<Rightarrow> \<exists>new e. files (tenant_path (wf_H env) t) = Some new \<and> inspect_encrypted (wf_H env) (wf_keys env) t new = Inr (e, sn)"
  using assms by (auto simp: load_snapshot_def read_encrypted_def split: option.splits)

lemma wf_inv_for_tenant [keeps_intros]:
  assumes "digests_distinct env"
  shows "keeps (wf_inv env) (for_tenant env t)"
  unfolding keeps_def
proof (intro allI impI)
  fix s assume inv: "wf_inv env s"
  obtain s' r where run: "for_tenant env t s = (s', r)" by (rule prod.exhaust)
  then show "wf_inv env (fst (for_tenant env t s))"
  proof (cases rule: for_tenant_cases)
    case (loading snapshot l x)
    have new: "t \<notin> set (lg_imported (wf_ledger s))" using loading(2) wf_invD(2) [OF inv, of t] by simp
    note imp = import_tenant_events [OF loading(4) new]
    have "frame env t s s'" using frame_for_tenant [OF inv, of t] run by simp
    moreover have "ledger_inv (wf_H env) l" using loading(4) wf_invD(1) [OF inv] by (rule import_tenant_inv)
    moreover have "file_holds env s' t x"
      using load_snapshot_content [OF loading(3)] imp loading(5,6)
      by (cases snapshot) (auto simp: file_holds_def content_holds_def holds_content_def initial_service_def initial_state_def Let_def)
    ultimately have "wf_inv env s'" using loading(1,6) imp by (intro wf_inv_frame [OF inv]) auto
    then show ?thesis using run by simp
  qed (use run inv in simp_all)
qed

subsection \<open>Operational events\<close>

lemma rollback_nothing: "rollback_to t (checkpoint t l) l = l"
  using rollback_undoes [of t "[]" l] by simp

lemma append_event_cases:
  assumes "wf_services s t = Some x" and "valid_tenant t" and "gi_tenant input = t"
    and "append_operational_event env t input s = (s', r)"
  shows "wf_services s' = wf_services s \<and> wf_backups s' = wf_backups s \<and> wf_replicas s' = wf_replicas s
    \<and> (case r of Inl e \<Rightarrow> wf_ledger s' = wf_ledger s \<and> wf_files s' = wf_files s
        | Inr ev \<Rightarrow> ledger_append (wf_H env) (wf_now env) input (wf_ledger s) = Inr (wf_ledger s', ev)
            \<and> (\<exists>new. wf_files s' = (wf_files s)(tenant_path (wf_H env) t \<mapsto> new)
                \<and> holds_content env t new x (tenant_events t (wf_ledger s'))))"
proof (cases "ledger_append (wf_H env) (wf_now env) input (wf_ledger s)")
  case (Inl e)
  then have "append_operational_event env t input s = (s, Inl (Governance e))"
    by (simp add: append_operational_event_def bindS_def getS_def catchS_def for_tenant_loaded [OF assms(1,2)] on_ledger_def
        modifyS_def throwS_def rollback_nothing)
  then show ?thesis using assms(4) by simp
next
  case (Inr p)
  obtain l ev where p: "p = (l, ev)" by (cases p)
  let ?s = "s\<lparr>wf_ledger := l\<rparr>"
  obtain s2 q where ps: "persist_state env t x ?s = (s2, q)" by (rule prod.exhaust)
  note per = persist_state_cases [OF ps]
  have l: "l = (wf_ledger s)\<lparr>lg_events := lg_events (wf_ledger s) @ [ev]\<rparr>" "gv_tenant ev = t"
    using ledger_append_event(1,2) [OF Inr [unfolded p]] assms(3) by simp_all
  show ?thesis
  proof (cases q)
    case q: (Inl e)
    have "append_operational_event env t input s
        = (s2\<lparr>wf_ledger := rollback_to t (checkpoint t (wf_ledger s)) (wf_ledger s2)\<rparr>, Inl e)"
      using Inr p ps q
      by (simp add: append_operational_event_def bindS_def getS_def catchS_def for_tenant_loaded [OF assms(1,2)] on_ledger_def
          modifyS_def throwS_def)
    then show ?thesis using assms(4) per q l rollback_undoes [of t "[ev]" "wf_ledger s"] by auto
  next
    case q: (Inr u)
    have "append_operational_event env t input s = (s2, Inr ev)"
      using Inr p ps q
      by (simp add: append_operational_event_def bindS_def getS_def catchS_def for_tenant_loaded [OF assms(1,2)] on_ledger_def returnS_def)
    then show ?thesis using assms(4) per q Inr p by auto
  qed
qed

text \<open>A step that leaves ledger and file alone, or adds an event of the tenant to both.\<close>

lemma append_event_frame:
  assumes "digests_distinct env" and "wf_inv env s" and "gi_tenant input = t"
  shows "frame env t s (fst (append_operational_event env t input s)) \<and> wf_inv env (fst (append_operational_event env t input s))"
proof -
  obtain s1 q where ft: "for_tenant env t s = (s1, q)" by (rule prod.exhaust)
  have f1: "frame env t s s1" and i1: "wf_inv env s1"
    using frame_for_tenant [OF assms(2), of t] keepsD [OF wf_inv_for_tenant [OF assms(1)] assms(2), of t] ft by simp_all
  show ?thesis
  proof (cases q)
    case (Inl e)
    then have "append_operational_event env t input s = (s1, Inl e)" by (simp add: append_operational_event_def bindS_def ft)
    then show ?thesis using f1 i1 by simp
  next
    case (Inr x)
    then have x: "valid_tenant t" "wf_services s1 t = Some x" using for_tenant_Inr [OF ft [unfolded Inr]] by blast+
    have same: "append_operational_event env t input s = append_operational_event env t input s1"
      using for_tenant_loaded [OF x(2,1), of env] ft Inr by (simp add: append_operational_event_def bindS_def)
    obtain s' r where run: "append_operational_event env t input s1 = (s', r)" by (rule prod.exhaust)
    note c = append_event_cases [OF x(2,1) assms(3) run]
    have "frame env t s1 s' \<and> wf_inv env s'"
    proof (cases r)
      case (Inl e)
      then have "same_core s1 s'" "wf_backups s' = wf_backups s1" "wf_replicas s' = wf_replicas s1"
        using c by (simp_all add: same_core_def)
      then show ?thesis using wf_inv_core [OF i1] by (simp add: frame_def tenant_view_def same_core_def)
    next
      case (Inr ev)
      then obtain new where la: "ledger_append (wf_H env) (wf_now env) input (wf_ledger s1) = Inr (wf_ledger s', ev)"
        and files: "wf_files s' = (wf_files s1)(tenant_path (wf_H env) t \<mapsto> new)"
        and new: "holds_content env t new x (tenant_events t (wf_ledger s'))"
        and rest: "wf_services s' = wf_services s1" "wf_backups s' = wf_backups s1" "wf_replicas s' = wf_replicas s1"
        using c by auto
      have l: "wf_ledger s' = (wf_ledger s1)\<lparr>lg_events := lg_events (wf_ledger s1) @ [ev]\<rparr>" "gv_tenant ev = t"
        using ledger_append_event(1,2) [OF la] assms(3) by simp_all
      have fr: "frame env t s1 s'"
        using path_distinct [OF assms(1) x(1)] by (auto simp: frame_def tenant_view_def l rest files)
      moreover have "wf_inv env s'"
        by (rule wf_inv_frame [OF i1 fr ledger_append_inv [OF la wf_invD(1) [OF i1]]])
          (use l rest x wf_invD(2) [OF i1, of t] new files in \<open>auto simp: file_holds_def content_holds_def\<close>)
      ultimately show ?thesis by blast
    qed
    then show ?thesis using same run frame_trans [OF f1] by simp
  qed
qed

subsection \<open>Commands within one tenant\<close>

definition good :: "wf_env \<Rightarrow> string \<Rightarrow> wf_state \<Rightarrow> wf_state \<Rightarrow> bool" where
  "good env t s0 s = (frame env t s0 s \<and> wf_inv env s)"

lemma keeps_goodI:
  "(\<And>s. wf_inv env s \<Longrightarrow> frame env t s (fst (m s)) \<and> wf_inv env (fst (m s))) \<Longrightarrow> keeps (good env t s0) m"
  unfolding keeps_def good_def using frame_trans by blast

lemma good_keeps: "keeps (frame env t s0) m \<Longrightarrow> keeps (wf_inv env) m \<Longrightarrow> keeps (good env t s0) m"
  unfolding keeps_def good_def by blast

lemma good_for_tenant [keeps_intros]: "digests_distinct env \<Longrightarrow> keeps (good env t s0) (for_tenant env t)"
  by (rule keeps_goodI) (use frame_for_tenant keepsD [OF wf_inv_for_tenant] in blast)

lemma good_append [keeps_intros]:
  "digests_distinct env \<Longrightarrow> gi_tenant input = t \<Longrightarrow> keeps (good env t s0) (append_operational_event env t input)"
  by (rule keeps_goodI) (rule append_event_frame)

lemma good_draw [keeps_intros]:
  "keeps (good env t s0) draw_write" "keeps (good env t s0) draw_point" "keeps (good env t s0) draw_suffix" "keeps (good env t s0) draw_iv"
  by (rule good_keeps; rule keeps_intros)+

lemma good_dirs [keeps_intros]:
  assumes "digests_distinct env" and "valid_tenant t"
  shows "keeps (good env t s0) (on_backups env t f)" and "keeps (good env t s0) (on_replicas env t g)"
  by (rule good_keeps, rule frame_dirs [OF assms], rule keeps_intros)+

text \<open>The service of a tenant that has just been asked for is what is persisted.\<close>

lemma good_persist:
  assumes "digests_distinct env" and "\<And>x u. keeps (good env t s0) (k x u)"
  shows "keeps (good env t s0) (bindS (for_tenant env t) (\<lambda>x. bindS (persist_state env t x) (k x)))"
  unfolding keeps_def
proof (intro allI impI)
  fix s assume g: "good env t s0 s"
  obtain s1 q where ft: "for_tenant env t s = (s1, q)" by (rule prod.exhaust)
  have g1: "good env t s0 s1" using keepsD [OF good_for_tenant [OF assms(1)] g] ft by simp
  show "good env t s0 (fst (bindS (for_tenant env t) (\<lambda>x. bindS (persist_state env t x) (k x)) s))"
  proof (cases q)
    case (Inl e)
    then show ?thesis using ft g1 by (simp add: bindS_def)
  next
    case (Inr x)
    then have x: "valid_tenant t" "wf_services s1 t = Some x" using for_tenant_Inr [OF ft [unfolded Inr]] by blast+
    obtain s2 p where ps: "persist_state env t x s1 = (s2, p)" by (rule prod.exhaust)
    note per = persist_state_cases [OF ps]
    have i1: "wf_inv env s1" and f1: "frame env t s0 s1" using g1 by (simp_all add: good_def)
    have f2: "frame env t s1 s2"
      using keepsD [OF frame_persist [OF assms(1) x(1)] frame_refl [of env t s1]] ps by (metis fst_conv)
    have "file_holds env s2 t x"
      using per wf_invD(4) [OF i1 x(2)] by (cases p) (auto simp: file_holds_def content_holds_def)
    then have "wf_inv env s2"
      using per x wf_invD(1) [OF i1] wf_invD(2) [OF i1, of t] by (intro wf_inv_frame [OF i1 f2]) auto
    then have g2: "good env t s0 s2" using frame_trans [OF f1 f2] by (simp add: good_def)
    show ?thesis
    proof (cases p)
      case p: (Inl e)
      then show ?thesis using ft Inr ps g2 by (simp add: bindS_def)
    next
      case p: (Inr u)
      then show ?thesis using ft Inr ps keepsD [OF assms(2) g2, of x u] by (simp add: bindS_def)
    qed
  qed
qed

lemma gi_tenant_event [simp]: "gi_tenant (operational_event t a b c d m) = t"
  by (simp add: operational_event_def)

lemma good_replicate [keeps_intros]: "digests_distinct env \<Longrightarrow> keeps (good env t s0) (replicate_tenant_backup env t i actor reason)"
  unfolding replicate_tenant_backup_def by (intro keeps_intros) simp_all

lemma good_replicate_new [keeps_intros]: "digests_distinct env \<Longrightarrow> keeps (good env t s0) (replicate_new_backup env t i a r kind)"
  unfolding replicate_new_backup_def by (intro keeps_intros) simp_all

lemma good_create_backup [keeps_intros]: "digests_distinct env \<Longrightarrow> keeps (good env t s0) (create_tenant_backup env t actor reason kind)"
  unfolding create_tenant_backup_def
  by (rule keeps_ensureS, rule keeps_with, rule keeps_with, rule good_persist, assumption) (intro keeps_intros; simp)

lemma good_reads [keeps_intros]:
  assumes "digests_distinct env"
  shows "keeps (good env t s0) (list_tenant_backups env t)" "keeps (good env t s0) (verify_tenant_backup env t i)"
    "keeps (good env t s0) (list_tenant_replicas env t)" "keeps (good env t s0) (verify_tenant_replica env t i)"
    "keeps (good env t s0) (get_resilience_status env t n)"
  unfolding list_tenant_backups_def verify_tenant_backup_def list_tenant_replicas_def verify_tenant_replica_def get_resilience_status_def
  by (intro keeps_intros assms)+

lemma good_drill [keeps_intros]: "digests_distinct env \<Longrightarrow> keeps (good env t s0) (run_recovery_drill env t actor i)"
  unfolding run_recovery_drill_def by (intro keeps_intros) simp_all

lemma good_cycle [keeps_intros]: "digests_distinct env \<Longrightarrow> keeps (good env t s0) (cycle_tenant env interval age a t)"
  unfolding cycle_tenant_def scheduled_backup_def due_drill_def Let_def
  by (intro keeps_intros; simp split: replication_outcome.split add: keeps_intros)

subsection \<open>Requests to a service\<close>

text \<open>What the registry needs of a request: it takes everything back when it throws, and commits otherwise.\<close>

definition service_ok :: "(audit_env \<Rightarrow> audit_state \<Rightarrow> audit_state \<times> (audit_error + 'a)) \<Rightarrow> bool" where
  "service_ok f = (\<forall>ae a a' r. f ae a = (a', r) \<longrightarrow> (case r of Inl e \<Rightarrow> a' = a
     | Inr y \<Rightarrow> extends_ledger (ae_tenant ae) a a' \<and> ae_persist ae a' = None \<and> (ledger_ok (ae_H ae) a \<longrightarrow> ledger_ok (ae_H ae) a')))"

lemma service_ok_validated:
  assumes "\<And>env x s. extends_ledger (ae_tenant env) s (fst (mutator env x s))"
    and "\<And>env x s. ledger_ok (ae_H env) s \<Longrightarrow> ledger_ok (ae_H env) (fst (mutator env x s))"
  shows "service_ok (\<lambda>env s. run_validated env (v env s) (mutator env) s)"
  unfolding service_ok_def
proof (intro allI impI)
  fix ae a a' r assume run: "run_validated ae (v ae a) (mutator ae) a = (a', r)"
  show "case r of Inl e \<Rightarrow> a' = a
     | Inr y \<Rightarrow> extends_ledger (ae_tenant ae) a a' \<and> ae_persist ae a' = None \<and> (ledger_ok (ae_H ae) a \<longrightarrow> ledger_ok (ae_H ae) a')"
  proof (cases r)
    case (Inl e)
    then show ?thesis using run_validated_atomic [OF assms(1) run [unfolded Inl]] by simp
  next
    case (Inr y)
    then obtain x where x: "mutator ae x a = (a', Inr y)" "ae_persist ae a' = None" using run_validated_success [of ae _ "mutator ae" a a' y] run by blast
    then show ?thesis using assms(1) [of ae a x] assms(2) [of ae a x] Inr by simp
  qed
qed

lemma requests_ok:
  "service_ok (\<lambda>ae. create_engagement ae input ctx)" "service_ok (\<lambda>ae. add_fieldwork_placeholder ae i input ctx)"
  "service_ok (\<lambda>ae. create_finding ae input ctx)"
  unfolding create_engagement_def add_fieldwork_placeholder_def create_finding_def
  by (rule service_ok_validated, rule push_extends, erule push_ledger_ok)+

lemma put_audit_same: "wf_services s t = Some x \<Longrightarrow> put_audit t (audit_of s x) s = s"
  by (cases s) (auto simp: put_audit_def audit_of_def fun_upd_idem)

lemma good_request [keeps_intros]:
  assumes "digests_distinct env" and ok: "service_ok f"
  shows "keeps (good env t s0) (service_request env t f)"
  unfolding keeps_def
proof (intro allI impI)
  fix s assume g: "good env t s0 s"
  obtain s1 q where ft: "for_tenant env t s = (s1, q)" by (rule prod.exhaust)
  have g1: "good env t s0 s1" using keepsD [OF good_for_tenant [OF assms(1)] g] ft by simp
  show "good env t s0 (fst (service_request env t f s))"
  proof (cases q)
    case (Inl e)
    then show ?thesis using ft g1 by (simp add: service_request_def bindS_def)
  next
    case (Inr x)
    then have x: "valid_tenant t" "wf_services s1 t = Some x" using for_tenant_Inr [OF ft [unfolded Inr]] by blast+
    define written iv where "written = first_or True (wf_writes s1)" and "iv = first_or [] (wf_ivs s1)"
    define s2 where "s2 = s1\<lparr>wf_writes := tl (wf_writes s1), wf_ivs := tl (wf_ivs s1)\<rparr>"
    have g2: "good env t s0 s2" using g1 by (auto simp: good_def s2_def frame_def tenant_view_def wf_inv_def file_holds_def)
    then have i2: "wf_inv env s2" and f2: "frame env t s0 s2" by (simp_all add: good_def)
    have x2: "wf_services s2 t = Some x" using x(2) by (simp add: s2_def)
    obtain a r where run: "f (service_env env t iv written s2) (audit_of s2 x) = (a, r)" by (rule prod.exhaust)
    note sv = ok [unfolded service_ok_def, rule_format, OF run]
    have req: "service_request env t f s = (case r of Inl e \<Rightarrow> (put_audit t a s2, Inl (Service e))
        | Inr y \<Rightarrow> ((put_audit t a s2)\<lparr>wf_files := fst (save_audit env t iv written s2 a)\<rparr>, Inr y))"
      using ft Inr run
      by (simp add: service_request_def bindS_def draw_write_def draw_iv_def s2_def written_def iv_def split: sum.split)
    show ?thesis
    proof (cases r)
      case (Inl e)
      then show ?thesis using req sv g2 put_audit_same [OF x2] by simp
    next
      case r: (Inr y)
      have ext: "extends_ledger t (audit_of s2 x) a" and per: "ae_persist (service_env env t iv written s2) a = None"
        and lok: "ledger_ok (wf_H env) (audit_of s2 x) \<Longrightarrow> ledger_ok (wf_H env) a"
        using sv r by (simp_all add: service_env_def)
      obtain xs where xs: "list_all (\<lambda>e. gv_tenant e = t) xs"
        and l: "au_ledger a = Some ((wf_ledger s2)\<lparr>lg_events := lg_events (wf_ledger s2) @ xs\<rparr>)"
        using ext by (auto simp: extends_ledger_def audit_of_def)
      define s3 where "s3 = put_audit t a s2"
      obtain files' p where sa: "save_audit env t iv written s2 a = (files', p)" by (rule prod.exhaust)
      have "p = Inr ()" using per sa by (cases p) (simp_all add: service_env_def)
      then obtain new e where files': "files' = (wf_files s2)(tenant_path (wf_H env) t \<mapsto> new)"
        and new: "inspect_encrypted (wf_H env) (wf_keys env) t new
          = Inr (e, snapshot_of env t (au_engagements a, au_findings a) (tenant_events t (wf_ledger s3)))"
        using sa [unfolded save_audit_def] by (auto elim: save_snapshot_cases simp: s3_def)
      let ?s = "s3\<lparr>wf_files := files'\<rparr>"
      have others: "filter (\<lambda>e. gv_tenant e = u) xs = []" if "u \<noteq> t" for u
        using xs that by (auto simp: list_all_iff filter_empty_conv)
      have fr: "frame env t s2 ?s"
        using path_distinct [OF assms(1) x(1)]
        by (auto simp: frame_def tenant_view_def s3_def put_audit_def l others files')
      have "ledger_inv (wf_H env) (wf_ledger s2)" by (rule wf_invD(1) [OF i2])
      then have "ledger_inv (wf_H env) (wf_ledger ?s)" using lok l by (simp add: ledger_ok_def audit_of_def s3_def put_audit_def)
      then have "wf_inv env ?s"
        by (intro wf_inv_frame [OF i2 fr])
          (use x l wf_invD(2) [OF i2, of t] x2 new in \<open>auto simp: s3_def put_audit_def file_holds_def content_holds_def
            holds_content_def files' snapshot_of_def\<close>)
      then show ?thesis using req r sa frame_trans [OF f2 fr] by (simp add: good_def s3_def)
    qed
  qed
qed

lemma good_requests [keeps_intros]:
  assumes "digests_distinct env"
  shows "keeps (good env t s0) (wf_create_engagement env t input ctx)" "keeps (good env t s0) (wf_add_placeholder env t i input ctx)"
    "keeps (good env t s0) (wf_create_finding env t input ctx)"
  unfolding wf_create_engagement_def wf_add_placeholder_def wf_create_finding_def by (rule good_request [OF assms], rule requests_ok)+

subsection \<open>What a backup adds\<close>

text \<open>The tenant's service stays as it is and its history only grows; a snapshot that exists stays.\<close>

definition grows :: "string \<Rightarrow> service_state \<Rightarrow> gov_event list \<Rightarrow> wf_state \<Rightarrow> bool" where
  "grows t x es s = (wf_services s t = Some x \<and> (\<exists>xs. tenant_events t (wf_ledger s) = es @ xs))"

definition stored :: "wf_env \<Rightarrow> string \<Rightarrow> wf_state \<Rightarrow> bool" where
  "stored env t s = (wf_files s (tenant_path (wf_H env) t) \<noteq> None)"

lemma grows_same: "grows t x es s \<Longrightarrow> same_core s s' \<Longrightarrow> grows t x es s'"
  by (simp add: grows_def same_core_def)

lemma stored_same: "stored env t s \<Longrightarrow> same_core s s' \<Longrightarrow> stored env t s'"
  by (simp add: stored_def same_core_def)

lemma grows_core [keeps_intros]:
  "keeps (grows t x es) draw_write" "keeps (grows t x es) draw_point" "keeps (grows t x es) draw_suffix" "keeps (grows t x es) draw_iv"
  "keeps (grows t x es) (on_backups env u f)" "keeps (grows t x es) (on_replicas env u g)"
  unfolding keeps_def using grows_same core_ops by blast+

lemma stored_core [keeps_intros]:
  "keeps (stored env t) draw_write" "keeps (stored env t) draw_point" "keeps (stored env t) draw_suffix" "keeps (stored env t) draw_iv"
  "keeps (stored env t) (on_backups env' u f)" "keeps (stored env t) (on_replicas env' u g)"
  unfolding keeps_def using stored_same core_ops by blast+

lemma grows_persist [keeps_intros]: "keeps (grows t x es) (persist_state env u y)"
  unfolding keeps_def
proof (intro allI impI)
  fix s assume "grows t x es s"
  then show "grows t x es (fst (persist_state env u y s))"
    using persist_state_cases [of env u y s "fst (persist_state env u y s)" "snd (persist_state env u y s)"] by (simp add: grows_def)
qed

lemma stored_persist [keeps_intros]: "keeps (stored env t) (persist_state env t y)"
  unfolding keeps_def
proof (intro allI impI)
  fix s assume "stored env t s"
  then show "stored env t (fst (persist_state env t y s))"
    using persist_state_cases [of env t y s "fst (persist_state env t y s)" "snd (persist_state env t y s)"]
    by (auto simp: stored_def split: sum.splits)
qed

lemma grows_for_tenant [keeps_intros]: "keeps (grows t x es) (for_tenant env t)"
  unfolding keeps_def
proof (intro allI impI)
  fix s assume g: "grows t x es s"
  obtain s' r where run: "for_tenant env t s = (s', r)" by (rule prod.exhaust)
  then have "grows t x es s'" using g by (cases rule: for_tenant_cases) (auto simp: grows_def)
  then show "grows t x es (fst (for_tenant env t s))" by (simp add: run)
qed

lemma stored_for_tenant [keeps_intros]: "keeps (stored env t) (for_tenant env u)"
  unfolding keeps_def
proof (intro allI impI)
  fix s assume g: "stored env t s"
  obtain s' r where run: "for_tenant env u s = (s', r)" by (rule prod.exhaust)
  then have "stored env t s'" using g by (cases rule: for_tenant_cases) (auto simp: stored_def)
  then show "stored env t (fst (for_tenant env u s))" by (simp add: run)
qed

lemma append_invalid: "\<not> valid_tenant t \<Longrightarrow> fst (append_operational_event env t input s) = s"
  by (simp add: append_operational_event_def bindS_def for_tenant_def ensureS_def)

lemma append_reload:
  "for_tenant env t s = (s1, Inr x) \<Longrightarrow> append_operational_event env t input s = append_operational_event env t input s1"
  using for_tenant_Inr [of env t s s1 x] for_tenant_loaded [of s1 t x env]
  by (simp add: append_operational_event_def bindS_def)

lemma append_failed_load: "for_tenant env t s = (s1, Inl e) \<Longrightarrow> append_operational_event env t input s = (s1, Inl e)"
  by (simp add: append_operational_event_def bindS_def)

lemma grows_append [keeps_intros]:
  assumes "gi_tenant input = t"
  shows "keeps (grows t x es) (append_operational_event env t input)"
  unfolding keeps_def
proof (intro allI impI)
  fix s assume g: "grows t x es s"
  show "grows t x es (fst (append_operational_event env t input s))"
  proof (cases "valid_tenant t")
    case True
    obtain s' r where run: "append_operational_event env t input s = (s', r)" by (rule prod.exhaust)
    have "wf_services s t = Some x" using g by (simp add: grows_def)
    note c = append_event_cases [OF this True assms run]
    show ?thesis
    proof (cases r)
      case (Inr ev)
      then have "tenant_events t (wf_ledger s') = tenant_events t (wf_ledger s) @ [ev]"
        using c ledger_append_event(1,2) [of "wf_H env" "wf_now env" input "wf_ledger s" "wf_ledger s'" ev] assms by simp
      then show ?thesis using c g run by (auto simp: grows_def)
    qed (use c g run in \<open>simp add: grows_def\<close>)
  qed (use append_invalid g in simp)
qed

lemma stored_append [keeps_intros]:
  assumes "gi_tenant input = t"
  shows "keeps (stored env t) (append_operational_event env t input)"
  unfolding keeps_def
proof (intro allI impI)
  fix s assume g: "stored env t s"
  obtain s1 q where ft: "for_tenant env t s = (s1, q)" by (rule prod.exhaust)
  have g1: "stored env t s1" using keepsD [OF stored_for_tenant g, of t] ft by simp
  show "stored env t (fst (append_operational_event env t input s))"
  proof (cases q)
    case (Inr x)
    obtain s' r where run: "append_operational_event env t input s1 = (s', r)" by (rule prod.exhaust)
    have x: "wf_services s1 t = Some x" "valid_tenant t" using for_tenant_Inr [OF ft [unfolded Inr]] by blast+
    show ?thesis
      using append_event_cases [OF x assms run] g1 run append_reload [OF ft [unfolded Inr], of input]
      by (cases r) (auto simp: stored_def)
  qed (use append_failed_load [of env t s s1] ft g1 in simp)
qed

lemma grows_replicate [keeps_intros]: "keeps (grows t x es) (replicate_tenant_backup env t i actor reason)"
  unfolding replicate_tenant_backup_def by (intro keeps_intros) simp_all

lemma stored_replicate [keeps_intros]: "keeps (stored env t) (replicate_tenant_backup env t i actor reason)"
  unfolding replicate_tenant_backup_def by (intro keeps_intros) simp_all

lemma grows_create_backup [keeps_intros]: "keeps (grows t x es) (create_tenant_backup env t actor reason kind)"
  unfolding create_tenant_backup_def replicate_new_backup_def by (intro keeps_intros) simp_all

lemma stored_replicate_new [keeps_intros]: "keeps (stored env t) (replicate_new_backup env t i a r kind)"
  unfolding replicate_new_backup_def by (intro keeps_intros) simp_all

end
