(* ===== verification/WorkforceRestore.thy ===== *)
theory WorkforceRestore
  imports WorkforceDurability
begin

section \<open>Restoring a backup\<close>

text \<open>
  The theorems on the commands of the registry: isolation of tenants, durability in every reachable
  state, and the restore, which ends with the backup's state and history in force, or with the
  tenant as it was. The last section has the two ways in which a backup of a tenant is lost or never
  replicated.
\<close>

subsection \<open>Steps of a restore\<close>

lemma replace_tenant_imported:
  "replace_tenant H t es l = Inr (l', n) \<Longrightarrow> set (lg_imported l') = insert t (set (lg_imported l))"
proof -
  assume "replace_tenant H t es l = Inr (l', n)"
  then have "lg_imported l' = (if t \<in> set (lg_imported l) then lg_imported l else lg_imported l @ [t])"
    unfolding replace_tenant_def assert_identifier_def Let_def by auto
  then show ?thesis by auto
qed

definition elsewhere :: "wf_env \<Rightarrow> string \<Rightarrow> wf_state \<Rightarrow> wf_state \<Rightarrow> bool" where
  "elsewhere env t s0 s = (frame env t s0 s \<and> ledger_inv (wf_H env) (wf_ledger s)
     \<and> (\<forall>u. u \<noteq> t \<longrightarrow> wf_services s u = wf_services s0 u
          \<and> (u \<in> set (lg_imported (wf_ledger s)) \<longleftrightarrow> u \<in> set (lg_imported (wf_ledger s0)))))"

lemma elsewhere_refl: "wf_inv env s \<Longrightarrow> elsewhere env t s s"
  by (simp add: elsewhere_def wf_invD(1))

lemma elsewhere_step:
  assumes "elsewhere env t s0 s" and "frame env t s s'" and "ledger_inv (wf_H env) (wf_ledger s')"
    and "\<And>u. u \<noteq> t \<Longrightarrow> wf_services s' u = wf_services s u
      \<and> (u \<in> set (lg_imported (wf_ledger s')) \<longleftrightarrow> u \<in> set (lg_imported (wf_ledger s)))"
  shows "elsewhere env t s0 s'"
  using assms frame_trans [of env t s0 s s'] unfolding elsewhere_def by simp

lemma elsewhere_write [keeps_intros]:
  assumes "digests_distinct env" and "valid_tenant t"
  shows "keeps (elsewhere env t s0) (write_text env t x)"
  unfolding keeps_def
proof (intro allI impI)
  fix s assume e: "elsewhere env t s0 s"
  let ?s = "fst (write_text env t x s)"
  have "\<forall>p. p \<noteq> tenant_path (wf_H env) t \<longrightarrow> wf_files ?s p = wf_files s p"
    by (auto simp: write_text_def bindS_def draw_write_def on_files_def write_encrypted_def write_file_def split: sum.splits prod.splits if_splits)
  moreover have same: "wf_ledger ?s = wf_ledger s" "wf_services ?s = wf_services s" "wf_backups ?s = wf_backups s" "wf_replicas ?s = wf_replicas s"
    by (auto simp: write_text_def bindS_def draw_write_def on_files_def split: sum.splits prod.splits)
  ultimately have "frame env t s ?s" using path_distinct [OF assms] by (simp add: frame_def tenant_view_def)
  then show "elsewhere env t s0 ?s"
    using e same by (intro elsewhere_step [OF e]) (simp_all add: elsewhere_def)
qed

lemma elsewhere_replace [keeps_intros]: "keeps (elsewhere env t s0) (replace_events env t es)"
  unfolding keeps_def
proof (intro allI impI)
  fix s assume e: "elsewhere env t s0 s"
  show "elsewhere env t s0 (fst (replace_events env t es s))"
  proof (cases "replace_tenant (wf_H env) t es (wf_ledger s)")
    case (Inl err)
    then show ?thesis using e by (simp add: replace_events_def on_ledger_def)
  next
    case (Inr p)
    obtain l n where p: "p = (l, n)" by (cases p)
    note r = Inr [unfolded p]
    have "set (lg_imported l) = insert t (set (lg_imported (wf_ledger s)))"
      by (rule replace_tenant_imported [OF r])
    then show ?thesis
      using Inr p replace_tenant_events(1) [OF r] replace_tenant_inv [OF r] e
      by (intro elsewhere_step [OF e]) (auto simp: replace_events_def on_ledger_def frame_def tenant_view_def elsewhere_def)
  qed
qed

lemma elsewhere_service [keeps_intros]: "keeps (elsewhere env t s0) (set_service t x)"
  unfolding keeps_def by (auto simp: set_service_def modifyS_def elsewhere_def frame_def tenant_view_def)

lemma elsewhere_append [keeps_intros]:
  assumes "gi_tenant input = t"
  shows "keeps (elsewhere env t s0) (on_ledger (ledger_append (wf_H env) n input))"
  unfolding keeps_def
proof (intro allI impI)
  fix s assume e: "elsewhere env t s0 s"
  show "elsewhere env t s0 (fst (on_ledger (ledger_append (wf_H env) n input) s))"
  proof (cases "ledger_append (wf_H env) n input (wf_ledger s)")
    case (Inr p)
    obtain l ev where p: "p = (l, ev)" by (cases p)
    note la = Inr [unfolded p]
    have "l = (wf_ledger s)\<lparr>lg_events := lg_events (wf_ledger s) @ [ev]\<rparr>" "gv_tenant ev = t"
      using ledger_append_event(1,2) [OF la] assms by simp_all
    then show ?thesis
      using la ledger_append_inv [OF la] e
      by (intro elsewhere_step [OF e]) (auto simp: on_ledger_def frame_def tenant_view_def elsewhere_def)
  qed (use e in \<open>simp add: on_ledger_def\<close>)
qed

lemma elsewhere_persist [keeps_intros]:
  assumes "digests_distinct env" and "valid_tenant t"
  shows "keeps (elsewhere env t s0) (persist_state env t x)"
  unfolding keeps_def
proof (intro allI impI)
  fix s assume e: "elsewhere env t s0 s"
  let ?s = "fst (persist_state env t x s)"
  have "frame env t s ?s" using keepsD [OF frame_persist [OF assms] frame_refl [of env t s]] .
  then show "elsewhere env t s0 ?s"
    using e persist_state_cases [of env t x s ?s "snd (persist_state env t x s)"]
    by (intro elsewhere_step [OF e]) (simp_all add: elsewhere_def)
qed

lemma gi_tenant_restored [simp]: "gi_tenant (restored_event t a i r b c d) = t"
  by (simp add: restored_event_def)

lemma elsewhere_install:
  "digests_distinct env \<Longrightarrow> valid_tenant t \<Longrightarrow> keeps (elsewhere env t s0) (install_backup env t i a r safety before prepared)"
  unfolding install_backup_def Let_def by (intro keeps_intros) simp_all

lemma elsewhere_undo:
  "digests_distinct env \<Longrightarrow> valid_tenant t \<Longrightarrow> keeps (elsewhere env t s0) (undo_restore env t x es previous)"
  unfolding undo_restore_def by (intro keeps_intros)

lemma initial_service_Some [simp]: "initial_service (Some x) = x"
  by (cases x) (simp add: initial_service_def initial_state_def Let_def)

lemma write_text_Inr:
  "write_text env t x s = (s', Inr sn) \<Longrightarrow> wf_files s' = (wf_files s)(tenant_path (wf_H env) t \<mapsto> x) \<and> wf_ledger s' = wf_ledger s
     \<and> wf_services s' = wf_services s"
  by (auto simp: write_text_def bindS_def draw_write_def on_files_def write_encrypted_def write_file_def split: sum.splits prod.splits if_splits)

lemma replace_events_Inr:
  assumes "replace_events env t es s = (s', Inr u)"
  shows "tenant_events t (wf_ledger s') = es \<and> t \<in> set (lg_imported (wf_ledger s')) \<and> wf_files s' = wf_files s
    \<and> wf_services s' = wf_services s"
proof -
  obtain l n where r: "replace_tenant (wf_H env) t es (wf_ledger s) = Inr (l, n)" and s': "s' = s\<lparr>wf_ledger := l\<rparr>"
    using assms by (auto simp: replace_events_def on_ledger_def split: sum.splits)
  show ?thesis using replace_tenant_events(1) [OF r, of t] replace_tenant_imported [OF r] s' by simp
qed

text \<open>What an undo that succeeds puts back, and what an installation that succeeds puts in force.\<close>

lemma undo_Inr:
  assumes "undo_restore env t x es (Some text) s = (s', Inr ())"
  shows "wf_services s' t = Some x \<and> tenant_events t (wf_ledger s') = es \<and> t \<in> set (lg_imported (wf_ledger s'))
    \<and> wf_files s' (tenant_path (wf_H env) t) = Some text"
  using assms by (auto simp: undo_restore_def bindS_Inr set_service_def dest!: write_text_Inr replace_events_Inr)

lemma install_Inr:
  assumes "install_backup env t i a r safety before prepared s = (s', Inr rd)"
    and "c = sn_content (lb_snapshot prepared)"
  shows "wf_services s' t = Some (ct_engagements c, ct_findings c) \<and> t \<in> set (lg_imported (wf_ledger s'))
    \<and> (\<exists>ev. tenant_events t (wf_ledger s') = ct_events c @ [ev] \<and> gv_action ev = ''backup.restored'' \<and> gv_entityId ev = i)
    \<and> file_holds env s' t (ct_engagements c, ct_findings c) \<and> stored env t s'"
proof -
  let ?x = "(ct_engagements c, ct_findings c)"
  have "\<exists>s1 s2 s4 ev sn target. write_text env t (lb_text prepared) s = (s1, Inr sn)
    \<and> replace_events env t (ct_events c) s1 = (s2, Inr ())
    \<and> on_ledger (ledger_append (wf_H env) (wf_now env) (restored_event t a i r safety before target))
        (s2\<lparr>wf_services := (wf_services s2)(t \<mapsto> ?x)\<rparr>) = (s4, Inr ev)
    \<and> persist_state env t ?x s4 = (s', Inr ())"
    using assms(1) unfolding install_backup_def Let_def bindS_Inr set_service_def assms(2) [symmetric] by auto blast
  then obtain s1 s2 s4 ev sn target where w: "write_text env t (lb_text prepared) s = (s1, Inr sn)"
    and r: "replace_events env t (ct_events c) s1 = (s2, Inr ())"
    and la: "on_ledger (ledger_append (wf_H env) (wf_now env) (restored_event t a i r safety before target))
        (s2\<lparr>wf_services := (wf_services s2)(t \<mapsto> ?x)\<rparr>) = (s4, Inr ev)"
    and p: "persist_state env t ?x s4 = (s', Inr ())" by blast
  obtain l where la': "ledger_append (wf_H env) (wf_now env) (restored_event t a i r safety before target) (wf_ledger s2) = Inr (l, ev)"
    and s4: "s4 = s2\<lparr>wf_services := (wf_services s2)(t \<mapsto> ?x), wf_ledger := l\<rparr>"
    using la by (auto simp: on_ledger_def split: sum.splits)
  have l: "l = (wf_ledger s2)\<lparr>lg_events := lg_events (wf_ledger s2) @ [ev]\<rparr>" "gv_tenant ev = t"
    using ledger_append_event(1,2) [OF la'] by simp_all
  have "gv_action ev = ''backup.restored'' \<and> gv_entityId ev = i"
    using la' by (auto simp: ledger_append_def assert_event_input_def assert_identifier_def Let_def restored_event_def operational_event_def)
  then show ?thesis
    using persist_state_cases [OF p] replace_events_Inr [OF r] l s4
    by (auto simp: file_holds_def content_holds_def stored_def)
qed

subsection \<open>A backup that succeeds has stored the snapshot\<close>

definition establishes :: "('s \<Rightarrow> bool) \<Rightarrow> ('s, 'e, 'a) call \<Rightarrow> bool" where
  "establishes P m = (\<forall>s s' y. m s = (s', Inr y) \<longrightarrow> P s')"

lemma establishes_ensureS: "(b \<Longrightarrow> establishes P m) \<Longrightarrow> establishes P (ensureS b e m)"
  by (auto simp: establishes_def)

lemma establishes_with:
  "(\<And>a. establishes P (f a)) \<Longrightarrow> establishes P (with_actor v f)" "(\<And>a. establishes P (f a)) \<Longrightarrow> establishes P (with_reason v f)"
  by (auto simp: establishes_def with_actor_def with_reason_def throwS_def split: option.splits)

lemma establishes_later: "(\<And>x. establishes P (f x)) \<Longrightarrow> establishes P (bindS m f)"
  by (auto simp: establishes_def bindS_Inr)

lemma establishes_persist:
  assumes "\<And>u. keeps (stored env t) (k u)"
  shows "establishes (stored env t) (bindS (persist_state env t x) k)"
  unfolding establishes_def
proof (intro allI impI)
  fix s s' y assume "bindS (persist_state env t x) k s = (s', Inr y)"
  then obtain s1 u where p: "persist_state env t x s = (s1, Inr u)" and k: "k u s1 = (s', Inr y)" by (auto simp: bindS_Inr)
  have "stored env t s1" using persist_state_cases [OF p] by (auto simp: stored_def)
  from keepsD [OF assms this, of u] k show "stored env t s'" by simp
qed

lemma create_backup_stores:
  "create_tenant_backup env t actor reason kind s = (s', Inr b) \<Longrightarrow> stored env t s'"
proof -
  have "establishes (stored env t) (create_tenant_backup env t actor reason kind)"
    unfolding create_tenant_backup_def
    by (rule establishes_ensureS, rule establishes_with, rule establishes_with, rule establishes_later, rule establishes_persist)
      (intro keeps_intros; simp)
  then show "create_tenant_backup env t actor reason kind s = (s', Inr b) \<Longrightarrow> stored env t s'" unfolding establishes_def by blast
qed

lemma read_primary_text:
  "read_primary env t files = Inr (Some (e, sn, text)) \<Longrightarrow> files (tenant_path (wf_H env) t) = Some text"
  "read_primary env t files = Inr None \<Longrightarrow> files (tenant_path (wf_H env) t) = None"
  by (auto simp: read_primary_def read_encrypted_def split: option.splits prod.splits)

subsection \<open>The whole restore\<close>

text \<open>The outcome of a restore of the backup with content \<open>c\<close>, of a tenant with service \<open>x\<close> and history \<open>es\<close>.\<close>

definition restored_to :: "string \<Rightarrow> string \<Rightarrow> audit_content \<Rightarrow> wf_state \<Rightarrow> bool" where
  "restored_to t i c s = (wf_services s t = Some (ct_engagements c, ct_findings c)
     \<and> (\<exists>ev. tenant_events t (wf_ledger s) = ct_events c @ [ev] \<and> gv_action ev = ''backup.restored'' \<and> gv_entityId ev = i))"

lemma installed_inv:
  assumes "wf_inv env s" and "elsewhere env t s s'" and "wf_services s' t = Some x" and "t \<in> set (lg_imported (wf_ledger s'))"
    and "valid_tenant t" and "file_holds env s' t x"
  shows "wf_inv env s'"
  using assms by (intro wf_inv_frame [OF assms(1), of t s' x]) (auto simp: elsewhere_def)

lemma install_or_undo:
  assumes "digests_distinct env" and "wf_inv env s" and "valid_tenant t" and "wf_services s t = Some x"
    and "wf_files s (tenant_path (wf_H env) t) = Some old" and "c = sn_content (lb_snapshot prepared)"
    and "catchS (install_backup env t i a r safety before prepared)
       (\<lambda>e. bindS (catchS (undo_restore env t x (tenant_events t (wf_ledger s)) (Some old)) (\<lambda>_. throwS RollbackFailed)) (\<lambda>_. throwS e)) s
      = (s', q)"
  shows "frame env t s s' \<and> (case q of Inr rd \<Rightarrow> wf_inv env s' \<and> restored_to t i c s'
    | Inl e \<Rightarrow> e = RollbackFailed \<or> wf_inv env s' \<and> grows t x (tenant_events t (wf_ledger s)) s')"
proof -
  note el = elsewhere_refl [OF assms(2), of t]
  obtain s2 q2 where ins: "install_backup env t i a r safety before prepared s = (s2, q2)" by (rule prod.exhaust)
  have e2: "elsewhere env t s s2" using keepsD [OF elsewhere_install [OF assms(1,3)] el, of i a r safety before prepared] ins by simp
  show ?thesis
  proof (cases q2)
    case (Inr rd)
    then have "s' = s2" "q = Inr rd" using assms(7) ins by (simp_all add: catchS_def)
    moreover have "wf_inv env s2"
      using install_Inr [OF ins [unfolded Inr] assms(6)] assms(3) by (intro installed_inv [OF assms(2) e2]) auto
    ultimately show ?thesis
      using install_Inr [OF ins [unfolded Inr] assms(6)] e2 by (simp add: restored_to_def elsewhere_def)
  next
    case (Inl e)
    obtain s3 u where un: "undo_restore env t x (tenant_events t (wf_ledger s)) (Some old) s2 = (s3, u)" by (rule prod.exhaust)
    have e3: "elsewhere env t s s3"
      using keepsD [OF elsewhere_undo [OF assms(1,3)] e2, of x "tenant_events t (wf_ledger s)" "Some old"] un by simp
    have run: "s' = s3" "q = Inl (case u of Inl _ \<Rightarrow> RollbackFailed | Inr _ \<Rightarrow> e)"
      using assms(7) ins Inl un by (auto simp: catchS_def bindS_def throwS_def split: sum.splits)
    show ?thesis
    proof (cases u)
      case (Inr v)
      then have undone: "wf_services s3 t = Some x" "tenant_events t (wf_ledger s3) = tenant_events t (wf_ledger s)"
        "t \<in> set (lg_imported (wf_ledger s3))" "wf_files s3 (tenant_path (wf_H env) t) = Some old"
        using undo_Inr [of env t x _ old s2 s3] un by simp_all
      have "file_holds env s3 t x" using wf_invD(4) [OF assms(2,4)] undone assms(5) by (simp add: file_holds_def)
      then have "wf_inv env s3" using undone assms(3) by (intro installed_inv [OF assms(2) e3])
      then show ?thesis using run Inr undone e3 by (simp add: grows_def elsewhere_def)
    qed (use run e3 in \<open>simp add: elsewhere_def\<close>)
  qed
qed

lemma perform_restore_outcome:
  assumes "digests_distinct env" and "wf_inv env s" and "valid_tenant t" and "wf_services s t = Some x"
    and "c = sn_content (lb_snapshot prepared)" and "perform_restore env t i a r prepared s = (s', q)"
  shows "frame env t s s' \<and> (case q of Inr rd \<Rightarrow> wf_inv env s' \<and> restored_to t i c s'
    | Inl e \<Rightarrow> e = RollbackFailed \<or> wf_inv env s' \<and> grows t x (tenant_events t (wf_ledger s)) s')"
proof -
  let ?es = "tenant_events t (wf_ledger s)"
  obtain s1 q1 where cb: "create_tenant_backup env t (JStr a) (JStr (''Pre-restore safety copy: '' @ r)) ''safety'' s = (s1, q1)"
    by (rule prod.exhaust)
  have "good env t s s" using assms(2) by (simp add: good_def)
  from keepsD [OF good_create_backup [OF assms(1)] this] cb have g1: "frame env t s s1" "wf_inv env s1"
    by (metis fst_conv good_def)+
  have "grows t x ?es s" using assms(4) by (simp add: grows_def)
  from keepsD [OF grows_create_backup this] cb have gr: "grows t x ?es s1" by (metis fst_conv)
  show ?thesis
  proof (cases q1)
    case (Inl e)
    then have "s' = s1" "q = Inl e" using assms(6) cb by (simp_all add: perform_restore_def bindS_def)
    then show ?thesis using g1 gr by simp
  next
    case (Inr safety)
    have x1: "wf_services s1 t = Some x" using gr by (simp add: grows_def)
    have st: "stored env t s1" using create_backup_stores cb Inr by blast
    show ?thesis
    proof (cases "read_primary env t (wf_files s1)")
      case (Inl e)
      then have "s' = s1" "q = Inl (Persist e)"
        using assms(6) cb Inr for_tenant_loaded [OF x1 assms(3), of env]
        by (simp_all add: perform_restore_def bindS_def getS_def ask_def)
      then show ?thesis using g1 gr by simp
    next
      case prim: (Inr previous)
      obtain e sn old where prev: "previous = Some (e, sn, old)"
        using st read_primary_text(2) [of env t "wf_files s1"] prim by (cases previous) (auto simp: stored_def)
      then have stored_file: "wf_files s1 (tenant_path (wf_H env) t) = Some old" using read_primary_text(1) prim by blast
      let ?before = "if tenant_events t (wf_ledger s1) = [] then None else Some (gv_hash (last (tenant_events t (wf_ledger s1))))"
      have "catchS (install_backup env t i a r (bk_backupId (tb_manifest safety)) ?before prepared)
         (\<lambda>e. bindS (catchS (undo_restore env t x (tenant_events t (wf_ledger s1)) (Some old)) (\<lambda>_. throwS RollbackFailed)) (\<lambda>_. throwS e)) s1
        = (s', q)"
        using assms(6) cb Inr for_tenant_loaded [OF x1 assms(3), of env] prim prev
        by (simp add: perform_restore_def bindS_def getS_def ask_def)
      from install_or_undo [OF assms(1) g1(2) assms(3) x1 stored_file assms(5) this]
      show ?thesis
        using gr frame_trans [OF g1(1)] by (auto simp: grows_def split: sum.splits)
    qed
  qed
qed

subsection \<open>Commands and reachable registries\<close>

datatype wf_command =
    LoadTenant string
  | CreateEngagement string jsval jsval
  | AddPlaceholder string string jsval jsval
  | CreateFinding string jsval jsval
  | CreateBackup string jsval jsval string
  | ReplicateBackup string string jsval jsval
  | RecoveryDrill string jsval "string option"
  | RestoreBackup string string jsval jsval jsval jsval jsval

fun tenant_of :: "wf_command \<Rightarrow> string" where
  "tenant_of (LoadTenant t) = t"
| "tenant_of (CreateEngagement t input ctx) = t"
| "tenant_of (AddPlaceholder t i input ctx) = t"
| "tenant_of (CreateFinding t input ctx) = t"
| "tenant_of (CreateBackup t actor reason kind) = t"
| "tenant_of (ReplicateBackup t i actor reason) = t"
| "tenant_of (RecoveryDrill t actor i) = t"
| "tenant_of (RestoreBackup t i actor reason head conf dry) = t"

definition quietly :: "'a wf \<Rightarrow> unit wf" where
  "quietly m = bindS m (\<lambda>_. returnS ())"

fun run_command :: "wf_env \<Rightarrow> wf_command \<Rightarrow> unit wf" where
  "run_command env (LoadTenant t) = quietly (for_tenant env t)"
| "run_command env (CreateEngagement t input ctx) = quietly (wf_create_engagement env t input ctx)"
| "run_command env (AddPlaceholder t i input ctx) = quietly (wf_add_placeholder env t i input ctx)"
| "run_command env (CreateFinding t input ctx) = quietly (wf_create_finding env t input ctx)"
| "run_command env (CreateBackup t actor reason kind) = quietly (create_tenant_backup env t actor reason kind)"
| "run_command env (ReplicateBackup t i actor reason) = quietly (replicate_tenant_backup env t i actor reason)"
| "run_command env (RecoveryDrill t actor i) = quietly (run_recovery_drill env t actor i)"
| "run_command env (RestoreBackup t i actor reason head conf dry) = quietly (restore_tenant_backup env t i actor reason head conf dry)"

text \<open>A process that starts over the files of another.\<close>

definition restart :: "wf_state \<Rightarrow> wf_state" where
  "restart s = s\<lparr>wf_services := (\<lambda>_. None), wf_ledger := new_ledger\<rparr>"

text \<open>
  A registry starts on any files, and runs commands with any clock while its keys, digests and
  retention stay; between the commands the environment chooses what will fail, and the process may
  start again. A restore that reports a failed rollback ends the run: the operator has to intervene.
\<close>

inductive wf_reachable :: "replica_env \<Rightarrow> wf_state \<Rightarrow> bool" for cfg where
  wr_start: "wf_reachable cfg (restart s)"
| wr_command: "wf_reachable cfg s \<Longrightarrow> wf_replica env = cfg \<Longrightarrow> run_command env c s = (s', r) \<Longrightarrow> r \<noteq> Inl RollbackFailed \<Longrightarrow>
    wf_reachable cfg s'"
| wr_environment: "wf_reachable cfg s \<Longrightarrow> wf_reachable cfg (s\<lparr>wf_writes := bs, wf_points := ios, wf_suffixes := xs, wf_ivs := vs\<rparr>)"
| wr_restart: "wf_reachable cfg s \<Longrightarrow> wf_reachable cfg (restart s)"

lemma opt_str_defined [simp]: "opt_str v \<noteq> JUndef"
  by (simp add: opt_str_def split: option.split)

lemma restore_cases:
  assumes "restore_tenant_backup env t i actor reason head confirmation dryRun s = (s', q)" and "for_tenant env t s = (s1, Inr x)"
  obtains (early) e where "s' = s1 \<or> s' = s" "q = Inl e" "e \<noteq> RollbackFailed"
  | (preview) p where "s' = s1" "q = Inr (Preview p)" "dryRun \<noteq> JBool False"
  | (performed) a r prepared q' where "dryRun = JBool False" "confirmation = JStr (''RESTORE '' @ i)"
      "head = opt_str (vf_headHash (ledger_verify (wf_H env) t (wf_ledger s1)))"
      "load_backup (wf_backup env) t i (wf_backups s1 (wf_H env t)) = Inr prepared"
      "perform_restore env t i a r prepared s1 = (s', q')" "q = (case q' of Inl e \<Rightarrow> Inl e | Inr rd \<Rightarrow> Inr (Restored rd))"
proof -
  have t: "valid_tenant t" using for_tenant_Inr [OF assms(2)] by blast
  consider (no_actor) "validate_actor actor = None" | (no_reason) a where "validate_actor actor = Some a" "validate_reason reason = None"
    | (both) a r where "validate_actor actor = Some a" "validate_reason reason = Some r" by fastforce
  then show ?thesis
  proof cases
    case both
    let ?head = "opt_str (vf_headHash (ledger_verify (wf_H env) t (wf_ledger s1)))"
    show ?thesis
    proof (cases "head \<noteq> JUndef \<and> head = ?head")
      case False
      then show ?thesis
        using assms t both by (intro early [of Conflict])
          (auto simp: restore_tenant_backup_def with_actor_def with_reason_def ensureS_def bindS_def getS_def)
    next
      case head: True
      show ?thesis
      proof (cases "load_backup (wf_backup env) t i (wf_backups s1 (wf_H env t))")
        case (Inl e)
        then show ?thesis
          using assms t both head by (intro early [of "Recovery e"])
            (auto simp: restore_tenant_backup_def with_actor_def with_reason_def ensureS_def bindS_def getS_def ask_def)
      next
        case (Inr prepared)
        obtain s2 q' where pr: "perform_restore env t i a r prepared s1 = (s2, q')" by (rule prod.exhaust)
        have dry: ?thesis if "dryRun \<noteq> JBool False"
          using assms t both head Inr that by (intro preview)
            (auto simp: restore_tenant_backup_def with_actor_def with_reason_def ensureS_def bindS_def getS_def ask_def verify_backup_def returnS_def)
        have unconfirmed: ?thesis if "dryRun = JBool False" "confirmation \<noteq> JStr (''RESTORE '' @ i)"
        proof -
          have "restore_tenant_backup env t i actor reason head confirmation dryRun s = (s1, Inl (InvalidField ''confirmation''))"
            using assms(2) t both head Inr that
            by (simp add: restore_tenant_backup_def with_actor_def with_reason_def ensureS_def bindS_def getS_def ask_def verify_backup_def)
          then show ?thesis using assms(1) by (intro early [of "InvalidField ''confirmation''"]) simp_all
        qed
        have confirmed: ?thesis if c: "dryRun = JBool False" "confirmation = JStr (''RESTORE '' @ i)"
        proof -
          have "restore_tenant_backup env t i actor reason head confirmation dryRun s
              = (s2, case q' of Inl e \<Rightarrow> Inl e | Inr rd \<Rightarrow> Inr (Restored rd))"
            using assms(2) t both head Inr pr c
            by (simp add: restore_tenant_backup_def with_actor_def with_reason_def ensureS_def bindS_def getS_def ask_def
                verify_backup_def returnS_def split: sum.split)
          then show ?thesis using assms(1) pr head by (intro performed [OF c _ Inr]) auto
        qed
        show ?thesis using dry unconfirmed confirmed by blast
      qed
    qed
  qed (use assms t in \<open>auto intro: early simp: restore_tenant_backup_def with_actor_def with_reason_def ensureS_def throwS_def\<close>)
qed

subsection \<open>Invariance under every command\<close>

lemma keeps_quietly [keeps_intros]: "keeps P m \<Longrightarrow> keeps P (quietly m)"
  unfolding quietly_def by (intro keeps_intros)

lemma quietly_Inr: "quietly m s = (s', Inr u) \<longleftrightarrow> (\<exists>y. m s = (s', Inr y))"
  by (simp add: quietly_def bindS_Inr)

lemma quietly_Inl: "quietly m s = (s', Inl e) \<longleftrightarrow> m s = (s', Inl e)"
  by (auto simp: quietly_def bindS_def returnS_def split: prod.splits sum.splits)

lemma restore_outcome:
  assumes "digests_distinct env" and "wf_inv env s"
    and "restore_tenant_backup env t i actor reason head confirmation dryRun s = (s', q)"
  shows "frame env t s s' \<and> (q = Inl RollbackFailed \<or> wf_inv env s')"
proof (cases "valid_tenant t")
  case False
  then show ?thesis using assms by (simp add: restore_tenant_backup_def ensureS_def)
next
  case True
  obtain s1 q1 where ft: "for_tenant env t s = (s1, q1)" by (rule prod.exhaust)
  have f1: "frame env t s s1" and i1: "wf_inv env s1"
    using frame_for_tenant [OF assms(2), of t] keepsD [OF wf_inv_for_tenant [OF assms(1)] assms(2), of t] ft by simp_all
  show ?thesis
  proof (cases q1)
    case (Inl e)
    then have "s' = s1 \<or> s' = s"
      using assms(3) ft True
      by (auto simp: restore_tenant_backup_def ensureS_def with_actor_def with_reason_def throwS_def bindS_def split: option.splits)
    then show ?thesis using f1 i1 assms(2) by auto
  next
    case (Inr x)
    have x: "wf_services s1 t = Some x" using for_tenant_Inr [OF ft [unfolded Inr]] by blast
    from assms(3) ft [unfolded Inr] show ?thesis
    proof (cases rule: restore_cases)
      case (performed a r prepared q')
      from perform_restore_outcome [OF assms(1) i1 True x refl performed(5)]
      show ?thesis using performed(6) frame_trans [OF f1] by (auto split: sum.splits)
    qed (use f1 i1 assms(2) in auto)
  qed
qed

lemma run_command_good:
  assumes "digests_distinct env" and "wf_inv env s" and "run_command env c s = (s', r)"
  shows "frame env (tenant_of c) s s' \<and> (r = Inl RollbackFailed \<or> wf_inv env s')"
proof (cases "\<exists>t i actor reason head conf dry. c = RestoreBackup t i actor reason head conf dry")
  case True
  then obtain t i actor reason head conf dry where c: "c = RestoreBackup t i actor reason head conf dry" by blast
  obtain q where "restore_tenant_backup env t i actor reason head conf dry s = (s', q)" "q = Inl RollbackFailed \<longrightarrow> r = Inl RollbackFailed"
    using assms(3) c by (cases r) (auto simp: quietly_Inr quietly_Inl)
  then show ?thesis using restore_outcome [OF assms(1,2)] c by fastforce
next
  case False
  have "keeps (good env (tenant_of c) s) (run_command env c)"
    using False assms(1) by (cases c) (auto intro!: keeps_intros)
  moreover have "good env (tenant_of c) s s" using assms(2) by (simp add: good_def)
  ultimately have "good env (tenant_of c) s (fst (run_command env c s))" by (rule keepsD)
  then show ?thesis using assms(3) by (simp add: good_def)
qed

lemma wf_inv_restart [simp]: "wf_inv env (restart s)"
  by (simp add: wf_inv_def restart_def ledger_inv_linked tenant_events_def new_ledger_def)

lemma wf_inv_cong: "wf_replica env = wf_replica env' \<Longrightarrow> wf_inv env s = wf_inv env' s"
proof -
  assume "wf_replica env = wf_replica env'"
  moreover from this have "holds_content env = holds_content env'" by (simp add: fun_eq_iff holds_content_def)
  moreover from this have "content_holds env = content_holds env'" unfolding content_holds_def [abs_def] by (simp only:)
  ultimately show ?thesis by (simp add: wf_inv_def file_holds_def)
qed

lemma reachable_wf_inv:
  assumes "wf_reachable cfg s" and "wf_replica env = cfg" and "digests_distinct env"
  shows "wf_inv env s"
  using assms(1)
proof induction
  case (wr_command s env' c s' r)
  have "wf_inv env' s" using wr_command.IH wf_inv_cong [of env env'] wr_command.hyps(2) assms(2) by simp
  moreover have "digests_distinct env'" using assms(3) wr_command.hyps(2) assms(2) by (simp add: digests_distinct_def)
  ultimately have "wf_inv env' s'" using run_command_good [of env' s c s' r] wr_command.hyps(3,4) by blast
  then show ?case using wf_inv_cong [of env env'] wr_command.hyps(2) assms(2) by simp
next
  case (wr_environment s bs ios xs vs)
  show ?case by (rule wf_inv_core [OF wr_environment.IH]) (simp add: same_core_def)
qed simp_all

subsection \<open>A restarted process\<close>

lemma js_trim_id: "\<forall>c \<in> set s. \<not> is_ws c \<Longrightarrow> js_trim s = s"
proof -
  have *: "\<forall>c \<in> set u. \<not> is_ws c \<Longrightarrow> dropWhile is_ws u = u" for u by (cases u) auto
  show "\<forall>c \<in> set s. \<not> is_ws c \<Longrightarrow> js_trim s = s" using * [of s] * [of "rev s"] by (simp add: js_trim_def)
qed

lemma alnum_not_ws: "is_alnum c \<Longrightarrow> \<not> is_ws c"
  by (auto simp: is_alnum_def is_ws_def Let_def)

lemma valid_tenant_safe: "valid_tenant t \<Longrightarrow> safe_governance_identifier t"
proof -
  assume v: "valid_tenant t"
  then obtain c cs where t: "t = c # cs" by (cases t) (auto simp: valid_tenant_def safe_ident_def)
  have p: "\<not> is_ws (CHR ''.'')" "\<not> is_ws (CHR ''_'')" "\<not> is_ws (CHR ''-'')" by (simp_all add: is_ws_def)
  have "\<forall>d \<in> set t. \<not> is_ws d"
    using v alnum_not_ws p unfolding t valid_tenant_def safe_ident_def by (auto simp: list_all_iff)
  then have "js_trim t = t" by (rule js_trim_id)
  then show ?thesis
    using v by (auto simp: safe_governance_identifier_def valid_tenant_def safe_ident_def list_all_iff split: list.splits)
qed

lemma import_restarted:
  "safe_governance_identifier t \<Longrightarrow> list_all (\<lambda>e. gv_tenant e = t) es \<Longrightarrow> gov_linked H None es \<Longrightarrow>
     \<exists>l. import_tenant H t es new_ledger = Inr l \<and> tenant_events t l = es"
  by (auto simp: import_tenant_def replace_tenant_def assert_identifier_def new_ledger_def Let_def verify_events_valid
      tenant_events_def list_all_iff)

subsection \<open>Reasons with a prefix\<close>

lemma trimmed_ends:
  assumes "js_trim r = r" and "r \<noteq> []"
  shows "\<not> is_ws (last r)"
proof -
  let ?u = "dropWhile is_ws r"
  have r: "rev (dropWhile is_ws (rev ?u)) = r" using assms(1) by (simp add: js_trim_def)
  then have "length r \<le> length ?u" by (metis length_dropWhile_le length_rev)
  moreover have "r = takeWhile is_ws r @ ?u" by simp
  ultimately have "?u = r" by (metis add_diff_cancel_right' append_self_conv2 le_add_diff_inverse2 length_0_conv length_append
      length_dropWhile_le order_antisym)
  then have "dropWhile is_ws (rev r) = rev r" using r by (metis rev_rev_ident)
  then show ?thesis using assms(2) by (metis hd_dropWhile hd_rev rev_is_Nil_conv)
qed

lemma trim_prefix:
  assumes "js_trim r = r" and "r \<noteq> []" and "p \<noteq> []" and "\<not> is_ws (hd p)"
  shows "js_trim (p @ r) = p @ r"
proof -
  have "dropWhile is_ws (p @ r) = p @ r" using assms(3,4) by (cases p) auto
  moreover have "dropWhile is_ws (rev (p @ r)) = rev (p @ r)"
    using trimmed_ends [OF assms(1,2)] assms(2) by (cases r rule: rev_cases) auto
  ultimately show ?thesis by (simp add: js_trim_def)
qed

lemma prefixed_reason:
  assumes "validate_reason reason = Some r" and "js_trim r = r" and "p \<noteq> []" and "\<not> is_ws (hd p)" and "strip_angle p = p"
    and "500 < length p + length r"
  shows "validate_reason (JStr (p @ r)) = None"
proof -
  have r: "10 \<le> length r" "CHR ''<'' \<notin> set r" "CHR ''>'' \<notin> set r"
    using clean_text_in_Some [of 10 500 reason r] assms(1) by (simp_all add: validate_reason_def)
  then have "r \<noteq> []" by auto
  then have "js_trim (p @ r) = p @ r" by (rule trim_prefix [OF assms(2) _ assms(3,4)])
  moreover have "strip_angle (p @ r) = p @ r"
    using assms(5) r by (auto simp: strip_angle_def filter_id_conv)
  ultimately show ?thesis using assms(6) by (simp add: validate_reason_def clean_text_in_def trimmed_def Let_def)
qed

subsection \<open>A small registry\<close>

definition demo_wf :: wf_env where
  "demo_wf = \<lparr>wf_replica = demo_replicas, wf_dp = (\<lambda>_. None), wf_now = 1753000000000\<rparr>"

definition demo_registry :: wf_state where
  "demo_registry = \<lparr>wf_files = [''acme.snapshot.enc'' \<mapsto> SealedText demo_sealed], wf_backups = (\<lambda>_. no_points)(''acme'' := demo_backups),
     wf_replicas = (\<lambda>_. no_points), wf_ledger = new_ledger, wf_services = (\<lambda>_. None),
     wf_writes = [], wf_points = [], wf_suffixes = [], wf_ivs = []\<rparr>"

lemma demo_tenant: "valid_tenant ''acme''" by code_simp

lemma demo_distinct: "digests_distinct demo_wf"
  by (simp add: digests_distinct_def demo_wf_def demo_replicas_def demo_backup_env_def)

lemma demo_load_tenant: "\<exists>s. for_tenant demo_wf ''acme'' (restart demo_registry) = (s, Inr (seeded_engagements, []))
    \<and> tenant_events ''acme'' (wf_ledger s) = []"
proof -
  have "inspect_encrypted (wf_H demo_wf) (wf_keys demo_wf) ''acme'' (SealedText demo_sealed) = Inr (demo_sealed, demo_content)"
    using demo_tenant
    by (simp add: demo_wf_def demo_replicas_def demo_backup_env_def inspect_encrypted_def validate_envelope_def decrypt_sealed_def
        associated_data_def valid_snapshot_def demo_sealed_def demo_content_def)
  moreover have "import_tenant (wf_H demo_wf) ''acme'' [] new_ledger = Inr (new_ledger\<lparr>lg_imported := [''acme'']\<rparr>)"
    using valid_tenant_safe [OF demo_tenant]
    by (simp add: import_tenant_def replace_tenant_def assert_identifier_def new_ledger_def verify_events_def)
  moreover have "wf_files (restart demo_registry) (tenant_path (wf_H demo_wf) ''acme'') = Some (SealedText demo_sealed)"
    by (simp add: restart_def demo_registry_def tenant_path_def demo_wf_def demo_replicas_def demo_backup_env_def)
  ultimately show ?thesis
    using demo_tenant
    by (simp add: for_tenant_def ensureS_def bindS_def getS_def returnS_def ask_def on_ledger_def set_service_def modifyS_def Let_def
        restart_def load_snapshot_def read_encrypted_def demo_content_def initial_service_def initial_state_def tenant_events_def new_ledger_def)
qed

definition demo_loaded :: wf_state where
  "demo_loaded = fst (for_tenant demo_wf ''acme'' (restart demo_registry))"

lemma demo_loaded_run: "for_tenant demo_wf ''acme'' (restart demo_registry) = (demo_loaded, Inr (seeded_engagements, []))"
  and demo_events: "tenant_events ''acme'' (wf_ledger demo_loaded) = []"
  using demo_load_tenant by (auto simp: demo_loaded_def)

lemma demo_reachable: "wf_reachable demo_replicas demo_loaded"
proof (rule wr_command [OF wr_start [of _ demo_registry]])
  show "run_command demo_wf (LoadTenant ''acme'') (restart demo_registry) = (demo_loaded, Inr ())"
    using demo_loaded_run by (simp add: quietly_Inr)
qed (simp_all add: demo_wf_def)

lemma demo_services: "wf_services demo_loaded ''acme'' = Some (seeded_engagements, [])" "stored demo_wf ''acme'' demo_loaded"
proof -
  show "wf_services demo_loaded ''acme'' = Some (seeded_engagements, [])" using for_tenant_Inr [OF demo_loaded_run] by blast
  have "wf_files demo_loaded = wf_files (restart demo_registry)" using for_tenant_Inr [OF demo_loaded_run] by blast
  then show "stored demo_wf ''acme'' demo_loaded"
    by (simp add: stored_def restart_def demo_registry_def tenant_path_def demo_wf_def demo_replicas_def demo_backup_env_def)
qed

lemma demo_cfg: "wf_reachable (wf_replica demo_wf) demo_loaded"
  using demo_reachable by (simp add: demo_wf_def)

subsection \<open>Properties\<close>

text \<open>
  C13. Memory is durable: in every reachable registry, whatever writes and removals have failed, a
  process that starts again over the files loads, for every tenant with a stored snapshot, exactly
  the service state and the history of governance events that the running process has in memory,
  and the history verifies.
\<close>

theorem restarted_process_sees_memory:
  assumes "digests_distinct env" and "wf_reachable (wf_replica env) s"
    and "wf_services s t = Some x" and "stored env t s"
  shows "\<exists>s'. for_tenant env t (restart s) = (s', Inr x) \<and> tenant_events t (wf_ledger s') = tenant_events t (wf_ledger s)
    \<and> vf_valid (ledger_verify (wf_H env) t (wf_ledger s'))"
proof -
  have inv: "wf_inv env s" by (rule reachable_wf_inv [OF assms(2) refl assms(1)])
  have t: "valid_tenant t" by (rule wf_invD(3) [OF inv assms(3)])
  obtain old where old: "wf_files s (tenant_path (wf_H env) t) = Some old" using assms(4) by (auto simp: stored_def)
  obtain e sn where sn: "inspect_encrypted (wf_H env) (wf_keys env) t old = Inr (e, sn)"
    "sn_content sn = \<lparr>ct_engagements = fst x, ct_findings = snd x, ct_events = tenant_events t (wf_ledger s)\<rparr>"
    using wf_invD(4) [OF inv assms(3)] old by (auto simp: file_holds_def content_holds_def holds_content_def)
  have linked: "gov_linked (wf_H env) None (tenant_events t (wf_ledger s))"
    using wf_invD(1) [OF inv] by (simp add: ledger_inv_linked)
  have own: "list_all (\<lambda>e. gv_tenant e = t) (tenant_events t (wf_ledger s))" by (simp add: tenant_events_def list_all_iff)
  from import_restarted [OF valid_tenant_safe [OF t] own linked]
  obtain l where l: "import_tenant (wf_H env) t (tenant_events t (wf_ledger s)) new_ledger = Inr l"
    "tenant_events t l = tenant_events t (wf_ledger s)" by blast
  have "for_tenant env t (restart s) = ((restart s)\<lparr>wf_ledger := l, wf_services := (wf_services (restart s))(t \<mapsto> x)\<rparr>, Inr x)"
    using t old sn l
    by (simp add: for_tenant_def ensureS_def bindS_def getS_def returnS_def ask_def on_ledger_def set_service_def modifyS_def Let_def
        restart_def load_snapshot_def read_encrypted_def)
  then show ?thesis using l linked by (simp add: ledger_verify_def verify_events_valid)
qed

theorem restarted_process_sees_memory_witness:
  "\<exists>s'. for_tenant demo_wf ''acme'' (restart demo_loaded) = (s', Inr (seeded_engagements, []))
    \<and> vf_valid (ledger_verify (wf_H demo_wf) ''acme'' (wf_ledger s'))"
  using restarted_process_sees_memory [OF demo_distinct demo_cfg demo_services] by blast

text \<open>
  C26. Tenants are isolated: a command on one tenant, whether it succeeds or fails, changes neither
  the service, the history, the snapshot, the backups nor the replicas of any other tenant.
\<close>

theorem tenants_are_isolated:
  assumes "digests_distinct env" and "wf_reachable (wf_replica env) s" and "run_command env c s = (s', r)"
    and "valid_tenant u" and "u \<noteq> tenant_of c"
  shows "tenant_view env u s' = tenant_view env u s"
proof -
  have "frame env (tenant_of c) s s'"
    using run_command_good [OF assms(1) reachable_wf_inv [OF assms(2) refl assms(1)] assms(3)] by blast
  then show ?thesis using assms(4,5) unfolding frame_def by blast
qed

theorem tenants_are_isolated_witness:
  "tenant_view demo_wf ''other'' (fst (run_command demo_wf (CreateBackup ''acme'' (JStr ''ops'') (JStr ''Nightly backup'') ''manual'') demo_loaded))
     = tenant_view demo_wf ''other'' demo_loaded"
proof -
  obtain s' r where run: "run_command demo_wf (CreateBackup ''acme'' (JStr ''ops'') (JStr ''Nightly backup'') ''manual'') demo_loaded = (s', r)"
    by (rule prod.exhaust)
  have "valid_tenant ''other''" by code_simp
  from tenants_are_isolated [OF demo_distinct demo_cfg run this] run show ?thesis by simp
qed

text \<open>
  C4. A restore is all or nothing. It takes effect only when it is no dry run, is confirmed by the
  identifier of the backup and was given the current head of the history; then the tenant has the
  state of the backup, and its history is that of the backup with one event that records the restore.
  If it fails at any point, and the rollback does not fail as well, the tenant keeps its state and its
  history, to which only events have been added, and memory and snapshot agree; a dry run changes nothing.
\<close>

theorem restore_is_all_or_nothing:
  assumes "digests_distinct env" and "wf_reachable (wf_replica env) s" and "wf_services s t = Some x"
    and "restore_tenant_backup env t i actor reason head confirmation dryRun s = (s', q)"
  shows "case q of
      Inr (Restored rd) \<Rightarrow> dryRun = JBool False \<and> confirmation = JStr (''RESTORE '' @ i)
        \<and> head = opt_str (vf_headHash (ledger_verify (wf_H env) t (wf_ledger s)))
        \<and> (\<exists>b. load_backup (wf_backup env) t i (wf_backups s (wf_H env t)) = Inr b \<and> restored_to t i (sn_content (lb_snapshot b)) s')
    | Inr (Preview p) \<Rightarrow> s' = s \<and> dryRun \<noteq> JBool False
    | Inl e \<Rightarrow> e = RollbackFailed \<or> wf_inv env s' \<and> grows t x (tenant_events t (wf_ledger s)) s'"
proof -
  have inv: "wf_inv env s" by (rule reachable_wf_inv [OF assms(2) refl assms(1)])
  have t: "valid_tenant t" by (rule wf_invD(3) [OF inv assms(3)])
  have g: "grows t x (tenant_events t (wf_ledger s)) s" using assms(3) by (simp add: grows_def)
  from assms(4) for_tenant_loaded [OF assms(3) t] show ?thesis
  proof (cases rule: restore_cases)
    case (performed a r prepared q')
    from perform_restore_outcome [OF assms(1) inv t assms(3) refl performed(5)]
    show ?thesis using performed by (cases q') auto
  qed (use inv g in auto)
qed

theorem restore_is_all_or_nothing_witness:
  "\<exists>s' e. restore_tenant_backup demo_wf ''acme'' ''BAK-20250720080000-0123abcd'' (JStr ''ops'') (JStr ''Restore after an incident'')
      (JStr ''stale head'') (JStr ''RESTORE BAK-20250720080000-0123abcd'') (JBool False) demo_loaded = (s', Inl e)
    \<and> (e = RollbackFailed \<or> grows ''acme'' (seeded_engagements, []) (tenant_events ''acme'' (wf_ledger demo_loaded)) s')"
proof -
  let ?run = "restore_tenant_backup demo_wf ''acme'' ''BAK-20250720080000-0123abcd'' (JStr ''ops'') (JStr ''Restore after an incident'')
      (JStr ''stale head'') (JStr ''RESTORE BAK-20250720080000-0123abcd'') (JBool False) demo_loaded"
  obtain s' q where run: "?run = (s', q)" by (rule prod.exhaust)
  note all = restore_is_all_or_nothing [OF demo_distinct demo_cfg demo_services(1) run]
  have "\<exists>e. q = Inl e"
    using all demo_events by (auto simp: opt_str_def ledger_verify_def verify_events_def split: sum.splits restore_result.splits)
  then show ?thesis using all run by auto
qed

text \<open>
  Reasons of accepted length that are never served: a backup whose reason has more than 467
  characters is created but its replication always fails, and a restore whose reason has more than
  475 characters is always refused, because the reason is validated again, against the same limit of
  500 characters, after a prefix has been put in front of it.
\<close>

theorem long_reasons_are_refused:
  assumes "validate_reason reason = Some r" and "js_trim r = r" and "valid_tenant t" and "validate_actor (JStr a) = Some a"
  shows "(467 < length r \<and> re_enabled (wf_replica env) \<longrightarrow>
      (\<exists>s'. replicate_new_backup env t i a r ''manual'' s = (s', Inr (ReplicationFailed (InvalidField ''reason'')))))
    \<and> (475 < length r \<longrightarrow> perform_restore env t i a r prepared s = (s, Inl (InvalidField ''reason'')))"
proof (intro conjI impI)
  assume "467 < length r \<and> re_enabled (wf_replica env)"
  moreover from this have "validate_reason (JStr (''Replicate '' @ ''manual'' @ '' recovery point: '' @ r)) = None"
    using prefixed_reason [OF assms(1,2), of "''Replicate manual recovery point: ''"] by (simp add: is_ws_def strip_angle_def)
  ultimately show "\<exists>s'. replicate_new_backup env t i a r ''manual'' s = (s', Inr (ReplicationFailed (InvalidField ''reason'')))"
    using assms(3,4)
    by (simp add: replicate_new_backup_def replicate_tenant_backup_def catchS_def bindS_def ensureS_def with_actor_def with_reason_def
        throwS_def ignoreS_def returnS_def)
next
  assume "475 < length r"
  then have "validate_reason (JStr (''Pre-restore safety copy: '' @ r)) = None"
    using prefixed_reason [OF assms(1,2), of "''Pre-restore safety copy: ''"] by (simp add: is_ws_def strip_angle_def)
  then show "perform_restore env t i a r prepared s = (s, Inl (InvalidField ''reason''))"
    using assms(3,4)
    by (simp add: perform_restore_def create_tenant_backup_def bindS_def ensureS_def with_actor_def with_reason_def throwS_def)
qed

lemma plain_reason: "10 \<le> n \<Longrightarrow> n \<le> 500 \<Longrightarrow> js_trim (replicate n (CHR ''a'')) = replicate n (CHR ''a'')
    \<and> validate_reason (JStr (replicate n (CHR ''a''))) = Some (replicate n (CHR ''a''))"
proof -
  assume n: "10 \<le> n" "n \<le> 500"
  have t: "js_trim (replicate n (CHR ''a'')) = replicate n (CHR ''a'')" by (rule js_trim_id) (simp add: is_ws_def)
  moreover have "strip_angle (replicate n (CHR ''a'')) = replicate n (CHR ''a'')" by (simp add: strip_angle_def filter_id_conv)
  ultimately show ?thesis using n by (simp add: validate_reason_def clean_text_in_def trimmed_def Let_def)
qed

theorem long_reasons_are_refused_witness:
  "\<exists>s'. replicate_new_backup demo_wf ''acme'' ''BAK-20250720080000-0123abcd'' ''ops'' (replicate 480 (CHR ''a'')) ''manual'' demo_loaded
      = (s', Inr (ReplicationFailed (InvalidField ''reason'')))"
proof -
  have r: "validate_reason (JStr (replicate 480 (CHR ''a''))) = Some (replicate 480 (CHR ''a''))"
    "js_trim (replicate 480 (CHR ''a'')) = replicate 480 (CHR ''a'')" using plain_reason [of 480] by simp_all
  have a: "validate_actor (JStr ''ops'') = Some ''ops''" by code_simp
  from long_reasons_are_refused [OF r demo_tenant a, of demo_wf] show ?thesis by (simp add: demo_wf_def demo_replicas_def)
qed

end
