(* ===== verification/RecoveryLoss.thy ===== *)
theory RecoveryLoss
  imports WorkforceRestore
begin

section \<open>How a failed backup loses recovery points\<close>

text \<open>
  \<open>createTenantBackup\<close> prunes the oldest backup when it has written the new one, and removes the new
  one again when its governance event cannot be persisted: the pruned backup is gone all the same.
\<close>

lemma persist_written:
  assumes "valid_tenant t" and "map_of (sk_keyring (wf_keys env)) (sk_primary (wf_keys env)) = Some key" and "wf_writes s = True # ws"
  shows "\<exists>new e s'. persist_state env t x s = (s', Inr ()) \<and> wf_files s' (tenant_path (wf_H env) t) = Some new
    \<and> inspect_encrypted (wf_H env) (wf_keys env) t new = Inr (e, snapshot_of env t x (tenant_events t (wf_ledger s)))
    \<and> se_keyId e = sk_primary (wf_keys env) \<and> wf_writes s' = ws \<and> wf_services s' = wf_services s \<and> wf_backups s' = wf_backups s
    \<and> wf_points s' = wf_points s \<and> wf_suffixes s' = wf_suffixes s"
  using assms valid_tenant_safe [OF assms(1)]
  by (simp add: persist_state_def bindS_def ask_def export_tenant_def assert_identifier_def draw_write_def draw_iv_def on_files_def
      save_snapshot_def serialize_def valid_snapshot_def snapshot_of_def write_file_def inspect_encrypted_def validate_envelope_def
      decrypt_sealed_def associated_data_def Let_def)

lemma persist_unwritten: "wf_writes s = False # ws \<Longrightarrow> \<exists>s' e. persist_state env t x s = (s', Inl e)"
  by (auto simp: persist_state_def bindS_def ask_def draw_write_def draw_iv_def on_files_def save_snapshot_def write_file_def
      split: sum.split)

lemma append_unwritten:
  assumes "wf_services s t = Some x" and "valid_tenant t" and "gi_tenant input = t" and "wf_writes s = False # ws"
  shows "\<exists>s' e. append_operational_event env t input s = (s', Inl e) \<and> wf_backups s' = wf_backups s"
proof -
  obtain s' r where run: "append_operational_event env t input s = (s', r)" by (rule prod.exhaust)
  have same: "wf_backups s' = wf_backups s" using append_event_cases [OF assms(1-3) run] by simp
  show ?thesis
  proof (cases "ledger_append (wf_H env) (wf_now env) input (wf_ledger s)")
    case (Inl e)
    then show ?thesis using append_event_cases [OF assms(1-3) run] run same by (cases r) auto
  next
    case (Inr p)
    obtain l ev where p: "p = (l, ev)" by (cases p)
    obtain s2 e where "persist_state env t x (s\<lparr>wf_ledger := l\<rparr>) = (s2, Inl e)"
      using persist_unwritten [of "s\<lparr>wf_ledger := l\<rparr>" ws env t x] assms(4) by auto
    then have "append_operational_event env t input s
        = (s2\<lparr>wf_ledger := rollback_to t (checkpoint t (wf_ledger s)) (wf_ledger s2)\<rparr>, Inl e)"
      using Inr p
      by (simp add: append_operational_event_def bindS_def getS_def catchS_def for_tenant_loaded [OF assms(1,2)] on_ledger_def
          modifyS_def throwS_def)
    then show ?thesis using run same by simp
  qed
qed

text \<open>What the environment has to provide for backups to be written: the clock, the digests and the key.\<close>

definition sane_env :: "wf_env \<Rightarrow> string \<Rightarrow> bool" where
  "sane_env env suffix = (valid_backup_id (create_backup_id (wf_now env) suffix) \<and> wf_now env * 1000 \<le> max_safe
     \<and> (\<forall>x. is_hex_text 64 (be_digest (wf_backup env) x) \<and> 1 \<le> be_size (wf_backup env) x \<and> be_trim (wf_backup env) x = x)
     \<and> sk_primary (wf_keys env) \<noteq> [] \<and> map_of (sk_keyring (wf_keys env)) (sk_primary (wf_keys env)) \<noteq> None)"

lemma drop_new:
  assumes "backups_ok env t d" and "list_backups env t d = Inr (take n (m # existing))" and "valid_tenant t" and "0 < n"
    and "distinct (map bk_backupId (m # existing))"
  shows "list_backups env t (without {bk_backupId m} d) = Inr (take (n - 1) existing)"
proof -
  have l: "take n (m # existing) = sort_key (\<lambda>b. - bk_createdOrder b) (points d)"
    using assms(2,3) backups.list_points_ok [OF assms(1)] by (simp add: list_backups_def)
  have "list_backups env t (without {bk_backupId m} d) = Inr (filter (\<lambda>b. bk_backupId b \<notin> {bk_backupId m}) (take n (m # existing)))"
    using assms(3) backups.list_points_ok [OF dir_ok_without [OF assms(1)], of "{bk_backupId m}"]
    by (simp only: list_backups_def points_without [OF assms(1)] filter_sort [symmetric] l [symmetric] ensure_simps)
  also have "filter (\<lambda>b. bk_backupId b \<notin> {bk_backupId m}) (take n (m # existing)) = take (n - 1) existing"
  proof -
    have "filter (\<lambda>b. bk_backupId b \<noteq> bk_backupId m) (take (n - 1) existing) = take (n - 1) existing"
    proof (rule filter_True, rule ballI)
      fix b assume "b \<in> set (take (n - 1) existing)"
      then have "b \<in> set existing" by (rule in_set_takeD)
      then have "bk_backupId b \<in> set (map bk_backupId existing)" by simp
      moreover have "bk_backupId m \<notin> set (map bk_backupId existing)" using assms(5) by simp
      ultimately show "bk_backupId b \<noteq> bk_backupId m" by metis
    qed
    then show ?thesis using assms(4) by (cases n) simp_all
  qed
  finally show ?thesis .
qed

subsection \<open>Properties\<close>

text \<open>
  When a tenant's snapshot can be persisted but the event that records the new backup cannot,
  the call fails, takes the new backup back and leaves one recovery point less than the retention
  allows: with a retention of one, which the manager accepts, no backup of the tenant is left.
\<close>

theorem failed_backup_loses_a_recovery_point:
  assumes "wf_services s t = Some x" and "valid_tenant t" and "validate_actor actor = Some a" and "validate_reason reason = Some r"
    and "kind \<in> set backup_kinds" and "d = wf_backups s (wf_H env t)" and "backups_ok (wf_backup env) t d"
    and "list_backups (wf_backup env) t d = Inr existing" and "list_all (\<lambda>b. bk_createdOrder b < max_safe) existing"
    and "sane_env env suffix" and "create_backup_id (wf_now env) suffix \<notin> set (map fst (pd_texts d))"
    and "wf_writes s = True # False # ws" and "wf_points s = []" and "wf_suffixes s = suffix # sufs"
    and "0 < be_retention (wf_backup env)"
  shows "\<exists>s' e. create_tenant_backup env t actor reason kind s = (s', Inl e)
    \<and> list_backups (wf_backup env) t (wf_backups s' (wf_H env t)) = Inr (take (be_retention (wf_backup env) - 1) existing)"
proof -
  obtain key where key: "map_of (sk_keyring (wf_keys env)) (sk_primary (wf_keys env)) = Some key"
    using assms(10) by (auto simp: sane_env_def)
  obtain new e s1 where p: "persist_state env t x s = (s1, Inr ())" and new: "wf_files s1 (tenant_path (wf_H env) t) = Some new"
    and insp: "inspect_encrypted (wf_H env) (wf_keys env) t new = Inr (e, snapshot_of env t x (tenant_events t (wf_ledger s)))"
    and ek: "se_keyId e = sk_primary (wf_keys env)" and s1: "wf_writes s1 = False # ws" "wf_services s1 = wf_services s"
      "wf_backups s1 = wf_backups s" "wf_points s1 = wf_points s" "wf_suffixes s1 = wf_suffixes s"
    using persist_written [OF assms(2) key assms(12), of x] by blast
  let ?sn = "snapshot_of env t x (tenant_events t (wf_ledger s))"
  have prim: "read_primary env t (wf_files s1) = Inr (Some (e, ?sn, new))"
    using new insp assms(2) by (simp add: read_primary_def read_encrypted_def)
  have sane: "backup_sane (wf_backup env) (wf_now env) suffix new e existing"
    using assms(9,10) ek by (simp add: backup_sane_def sane_env_def)
  obtain d' q where cb: "create_backup (wf_backup env) fine_io (wf_now env) suffix t kind (Inr (Some (e, ?sn, new))) d = (d', q)"
    by (rule prod.exhaust)
  note out = create_backup_outcome [OF assms(7,2,5,8) insp sane assms(11,15) _ cb]
  obtain m where q: "q = Inr (m, map bk_backupId (drop (be_retention (wf_backup env)) (m # existing)))"
    and ok: "backups_ok (wf_backup env) t d'"
    and l: "list_backups (wf_backup env) t d' = Inr (take (be_retention (wf_backup env)) (m # existing))"
    using out by (cases q) (auto simp: fine_io_def)
  have m: "m = backup_manifest_for (wf_backup env) (wf_now env) suffix t kind e new existing"
    using cb q assms(2,5,8) by (auto simp: create_backup_def Let_def fine_io_def split: if_splits prod.splits sum.splits)
  have idm: "bk_backupId m = create_backup_id (wf_now env) suffix" by (simp add: m backup_manifest_for_def)
  have valid: "valid_backup_id (bk_backupId m)" using assms(10) by (simp add: idm sane_env_def)
  have dist: "distinct (map bk_backupId (m # existing))"
  proof -
    note ls = backup_listed [OF assms(7,8)]
    have "bk_backupId m \<notin> set (names d)" using assms(7,11) idm by (auto simp: names_def elim!: dir_ok_entry)
    then show ?thesis using backups.listed [OF assms(7) ls(3)] ls(2) by simp
  qed
  let ?s = "s1\<lparr>wf_points := tl (wf_points s1), wf_suffixes := tl (wf_suffixes s1), wf_backups := (wf_backups s1)(wf_H env t := d')\<rparr>"
  let ?input = "operational_event t a ''backup.created'' ''backup'' (bk_backupId m)
           (JObj [(''kind'', JStr kind), (''reason'', JStr r), (''checksumSha256'', JStr (bk_checksum m)),
              (''keyId'', JStr (bk_keyId m)),
              (''prunedBackupIds'', JArr (map JStr (map bk_backupId (drop (be_retention (wf_backup env)) (m # existing)))))])"
  have sv: "wf_services ?s t = Some x" "wf_writes ?s = False # ws" using s1 assms(1) by simp_all
  obtain s2 err where ap: "append_operational_event env t ?input ?s = (s2, Inl err)" and b2: "wf_backups s2 = wf_backups ?s"
    using append_unwritten [OF sv(1) assms(2) gi_tenant_event sv(2), of env] by blast
  obtain flag where rm: "remove_point Backup (io_unlink fine_io) (bk_backupId m) d' = (without {bk_backupId m} d', Inr flag)"
    using remove_point_fine [OF valid, of "io_unlink fine_io" Backup d'] by (auto simp: fine_io_def)
  let ?s3 = "s2\<lparr>wf_backups := (wf_backups s2)(wf_H env t := without {bk_backupId m} d')\<rparr>"
  have "create_tenant_backup env t actor reason kind s = (?s3, Inl err)"
    using assms(2-4,6,13,14) p s1 prim cb q ap b2 rm for_tenant_loaded [OF assms(1,2), of env]
    by (simp add: create_tenant_backup_def with_actor_def with_reason_def ensureS_def bindS_def draw_point_def draw_suffix_def getS_def
        on_backups_def catchS_def ignoreS_def throwS_def remove_backup_def)
  moreover have "list_backups (wf_backup env) t (without {bk_backupId m} d') = Inr (take (be_retention (wf_backup env) - 1) existing)"
    by (rule drop_new [OF ok l assms(2,15) dist])
  ultimately show ?thesis by auto
qed

definition tight_wf :: wf_env where
  "tight_wf = demo_wf\<lparr>wf_replica := demo_replicas\<lparr>re_store := demo_backup_env\<lparr>be_retention := 1\<rparr>\<rparr>\<rparr>"

definition tight_registry :: wf_state where
  "tight_registry = demo_registry\<lparr>wf_services := [''acme'' \<mapsto> ([], [])], wf_writes := [True, False], wf_suffixes := [''89abcdef'']\<rparr>"

theorem failed_backup_loses_a_recovery_point_witness:
  "\<exists>s' e. create_tenant_backup tight_wf ''acme'' (JStr ''ops'') (JStr ''Nightly backup'') ''manual'' tight_registry = (s', Inl e)
    \<and> list_backups (wf_backup tight_wf) ''acme'' (wf_backups tight_registry ''acme'') = Inr [demo_manifest]
    \<and> list_backups (wf_backup tight_wf) ''acme'' (wf_backups s' ''acme'') = Inr []"
proof -
  have H: "wf_H tight_wf ''acme'' = ''acme''" "be_retention (wf_backup tight_wf) = 1"
    by (simp_all add: tight_wf_def demo_wf_def demo_replicas_def demo_backup_env_def)
  have dir: "wf_backups tight_registry (wf_H tight_wf ''acme'') = demo_backups" by (simp add: H tight_registry_def demo_registry_def)
  have v: "validate_actor (JStr ''ops'') = Some ''ops''" "validate_reason (JStr ''Nightly backup'') = Some ''Nightly backup''"
    by code_simp+
  have ids: "valid_backup_id (create_backup_id 1753000000000 ''89abcdef'')"
    "create_backup_id 1753000000000 ''89abcdef'' \<noteq> ''BAK-20250720080000-0123abcd''" "valid_backup_id ''BAK-20250720080000-0123abcd''"
    by code_simp+
  have hex: "is_hex_text 64 (replicate 64 (CHR ''a''))" by code_simp
  have m: "validate_backup_manifest (\<lambda>s. s) ''acme'' demo_manifest = Inr ()"
    using ids(3) hex by (simp add: validate_backup_manifest_def demo_manifest_def max_safe_def backup_kinds_def)
  have bH: "be_H (wf_backup tight_wf) = (\<lambda>s. s)" by (simp add: tight_wf_def demo_wf_def demo_replicas_def demo_backup_env_def)
  have ok: "backups_ok (wf_backup tight_wf) ''acme'' demo_backups"
    using m unfolding bH by (simp add: dir_ok_def names_def demo_backups_def) (simp add: demo_manifest_def)
  have l: "list_backups (wf_backup tight_wf) ''acme'' demo_backups = Inr [demo_manifest]"
    using m demo_tenant unfolding list_backups_def bH
    by (simp add: list_points_def demo_backups_def read_manifest_def)
  have sane: "sane_env tight_wf ''89abcdef''"
    using ids(1) hex by (simp add: sane_env_def tight_wf_def demo_wf_def demo_replicas_def demo_backup_env_def max_safe_def)
  have fresh: "create_backup_id (wf_now tight_wf) ''89abcdef'' \<notin> set (map fst (pd_texts demo_backups))"
    using ids(2) by (simp add: demo_backups_def tight_wf_def demo_wf_def)
  have "\<exists>s' e. create_tenant_backup tight_wf ''acme'' (JStr ''ops'') (JStr ''Nightly backup'') ''manual'' tight_registry = (s', Inl e)
    \<and> list_backups (wf_backup tight_wf) ''acme'' (wf_backups s' (wf_H tight_wf ''acme''))
        = Inr (take (be_retention (wf_backup tight_wf) - 1) [demo_manifest])"
    by (rule failed_backup_loses_a_recovery_point [OF _ demo_tenant v _ dir [symmetric] ok l _ sane fresh])
      (simp_all add: H tight_registry_def demo_registry_def backup_kinds_def demo_manifest_def max_safe_def)
  then show ?thesis using l dir H by simp
qed

end
