(* ===== verification/ScanLifecycle.thy ===== *)
theory ScanLifecycle
  imports ScanOutbox
begin

section \<open>Maintenance of the scan outbox (src/evidence/externalScanJobLifecycle.js)\<close>

text \<open>
  The janitor puts every record into the directory of its state, moves expired pending and delivered
  jobs to the dead letters and bounds their number; the lifecycle runs it before every operation of
  the outbox and refuses a claim whose packages could exceed the byte budget of a response.
\<close>

subsection \<open>The janitor\<close>

text \<open>
  The janitor reads a record with fewer checks than the outbox, and writes one without them.
\<close>

definition janitor_parse :: "string \<Rightarrow> job_record job_file \<Rightarrow> job_error + job_record" where
  "janitor_parse i f = (if f = Unparsable then Inl (JobStore ''unreadable'') else
     bindR (decrypt_job (record_aad i) f) (\<lambda>r. ensure (jr_jobId r = i) (JobIntegrity ''record'') (Inr r)))"

definition janitor_read :: "job_state \<Rightarrow> string \<Rightarrow> job_record job_call" where
  "janitor_read st i s = (s, bindR (from_option (JobStore ''unreadable'') (file_at s st i)) (janitor_parse i))"

definition janitor_reconcile_one :: "job_state \<Rightarrow> string \<Rightarrow> nat job_call" where
  "janitor_reconcile_one st i = bindS (janitor_read st i) (\<lambda>r.
     if jr_state r = st then returnS 0
     else bindS (getS (\<lambda>s. file_at s (jr_state r) i)) (\<lambda>target.
       ensureS (target = None) (JobIntegrity ''multiple'')
         (bindS (rename_file st (jr_state r) i) (\<lambda>_. returnS 1))))"

definition janitor_reconcile :: "nat job_call" where
  "janitor_reconcile = bindS (map_each (\<lambda>st. bindS (getS (\<lambda>s. job_names s st))
       (\<lambda>names. bindS (map_each (janitor_reconcile_one st) names) (\<lambda>ns. returnS (sum_list ns)))) job_states)
     (\<lambda>ns. returnS (sum_list ns))"

definition janitor_to_dead :: "int \<Rightarrow> job_state \<Rightarrow> string \<Rightarrow> job_record \<Rightarrow> unit job_call" where
  "janitor_to_dead now st reason r = bindS (getS (\<lambda>s. file_at s DeadLetter (jr_jobId r))) (\<lambda>target.
     ensureS (target = None) (JobIntegrity ''target'')
    (bindS (put_file st (jr_jobId r) (SealedFile (record_aad (jr_jobId r)) (dead_record now reason r))) (\<lambda>_.
     rename_file st DeadLetter (jr_jobId r))))"

definition expire_one :: "int \<Rightarrow> job_state \<Rightarrow> string \<Rightarrow> nat job_call" where
  "expire_one now st i = bindS (janitor_read st i) (\<lambda>r.
     ensureS (jr_state r = st) (JobIntegrity ''state'')
    (if jr_expiresAt r > now then returnS 0
     else bindS (janitor_to_dead now st (if st = Pending then ''job_expired'' else ''attestation_timeout'') r)
       (\<lambda>_. returnS 1)))"

definition expire_state :: "int \<Rightarrow> job_state \<Rightarrow> nat job_call" where
  "expire_state now st = bindS (getS (\<lambda>s. job_names s st)) (\<lambda>names.
     bindS (map_each (expire_one now st) names) (\<lambda>ns. returnS (sum_list ns)))"

definition prune_dead_letters :: "nat \<Rightarrow> unit job_call" where
  "prune_dead_letters deadLimit = bindS (getS (\<lambda>s. job_names s DeadLetter)) (\<lambda>names.
     for_each (remove_file DeadLetter) (take (length names - deadLimit) names))"

record maintenance =
  mt_reconciled :: nat
  mt_expiredPending :: nat
  mt_expiredDelivered :: nat

definition run_janitor :: "nat \<Rightarrow> job_env \<Rightarrow> maintenance job_call" where
  "run_janitor deadLimit env = locked env (bindS janitor_reconcile (\<lambda>reconciled.
     bindS (expire_state (je_now env) Pending) (\<lambda>expiredPending.
     bindS (expire_state (je_now env) Delivered) (\<lambda>expiredDelivered.
     bindS (prune_dead_letters deadLimit) (\<lambda>_.
     returnS \<lparr>mt_reconciled = reconciled, mt_expiredPending = expiredPending,
       mt_expiredDelivered = expiredDelivered\<rparr>)))))"

subsection \<open>The managed outbox\<close>

text \<open>
  \<open>Math.ceil(evidenceLimit * 16 / 9) + 131072\<close> bytes are estimated for a package. The janitor and the
  operation take the lock one after the other; \<open>je_lock\<close> of the first environment is the janitor's.
\<close>

definition estimated_package_bytes :: "nat \<Rightarrow> nat" where
  "estimated_package_bytes evidenceLimit = (evidenceLimit * 16 + 8) div 9 + 131072"

definition maximum_claim_jobs :: "nat \<Rightarrow> nat \<Rightarrow> nat" where
  "maximum_claim_jobs byteBudget evidenceLimit = byteBudget div estimated_package_bytes evidenceLimit"

definition lifecycle_limit :: "jsval \<Rightarrow> jsval \<Rightarrow> job_error + nat" where
  "lifecycle_limit maxClaimBytes maximumEvidenceBytes =
     bindR (from_option (JobType ''maxClaimBytes'') (int_in 1000000 1000000000 maxClaimBytes)) (\<lambda>byteBudget.
     bindR (from_option (JobType ''maximumEvidenceBytes'') (int_in 1 100000000 maximumEvidenceBytes)) (\<lambda>evidenceLimit.
     let n = maximum_claim_jobs (nat byteBudget) (nat evidenceLimit)
     in ensure (\<not> n < 1) (JobType ''maxClaimBytes'') (Inr n)))"

definition assert_claim_budget :: "job_config \<Rightarrow> nat \<Rightarrow> string \<Rightarrow> unit job_call" where
  "assert_claim_budget cfg maximumClaimJobs body =
     (case jc_parse cfg (if body = [] then ''{}'' else body) of
        Some (JObj kvs) \<Rightarrow> (let requested = (if js_get (JObj kvs) ''limit'' = JUndef then JInt 1
            else js_Number (js_get (JObj kvs) ''limit''))
          in case requested of
            JInt n \<Rightarrow> ensureS (\<not> n > int maximumClaimJobs) (JobValidation ''budget'') (returnS ())
          | _ \<Rightarrow> returnS ())
      | _ \<Rightarrow> returnS ())"

definition maintained :: "nat \<Rightarrow> job_env \<Rightarrow> 'a job_call \<Rightarrow> 'a job_call" where
  "maintained deadLimit env m = bindS (run_janitor deadLimit env) (\<lambda>_. m)"

definition managed_queue where
  "managed_queue cfg env1 env bytes input providerId actor =
     maintained (jc_deadLimit cfg) env1 (queue_job cfg env bytes input providerId actor)"

definition managed_claim ::
  "job_config \<Rightarrow> nat \<Rightarrow> job_env \<Rightarrow> job_env \<Rightarrow> string \<Rightarrow> (string \<Rightarrow> jsval) \<Rightarrow> (string \<times> claimed_job list) job_call" where
  "managed_claim cfg maximumClaimJobs env1 env body headers =
     bindS (assert_claim_budget cfg maximumClaimJobs body) (\<lambda>_.
       maintained (jc_deadLimit cfg) env1 (claim_signed cfg env body headers))"

definition managed_acknowledge where
  "managed_acknowledge cfg env1 env jobId body headers =
     maintained (jc_deadLimit cfg) env1 (acknowledge_signed cfg env jobId body headers)"

definition managed_fail where
  "managed_fail cfg env1 env jobId body headers =
     maintained (jc_deadLimit cfg) env1 (fail_signed cfg env jobId body headers)"

definition managed_complete where
  "managed_complete cfg env1 env a = maintained (jc_deadLimit cfg) env1 (complete_from_attestation cfg env a)"

definition managed_list where
  "managed_list cfg env1 env tenantId evidenceId limit =
     maintained (jc_deadLimit cfg) env1 (list_jobs cfg env tenantId evidenceId limit)"

definition managed_verify where
  "managed_verify cfg env1 env tenantId = maintained (jc_deadLimit cfg) env1 (verify_outbox cfg env tenantId)"

definition managed_health where
  "managed_health cfg env1 env = catchS (maintained (jc_deadLimit cfg) env1 (outbox_health_of cfg env))
     (\<lambda>_. returnS \<lparr>oh_status = ''unavailable'', oh_counts = []\<rparr>)"

subsection \<open>The delivery key of a provider\<close>

text \<open>
  \<open>Object.fromEntries\<close> followed by \<open>Object.entries\<close>: a later entry replaces an earlier one, and keys
  that are array indices come first, in numerical order.
\<close>

definition is_index_key :: "string \<Rightarrow> bool" where
  "is_index_key k = (k = dec (undec k) \<and> undec k < 4294967295)"

definition entries_of :: "(string \<times> 'a) list \<Rightarrow> (string \<times> 'a) list" where
  "entries_of kvs = (let o' = fold (\<lambda>(k, v) m. put_assoc k v m) kvs [] in
     sort_key (undec \<circ> fst) (filter (is_index_key \<circ> fst) o') @ filter (\<lambda>kv. \<not> is_index_key (fst kv)) o')"

definition normalise_delivery_keys :: "string \<times> jsval \<Rightarrow> job_error + string \<times> jsval" where
  "normalise_delivery_keys entry = (let provider = snd entry in
     ensure (is_plain_object provider) (JobType ''provider'')
    (let publicKeys = js_or_nullish (js_get provider ''publicKeys'') (JObj []);
         primary = js_get provider ''primaryPublicKeyId'' in
     if nullish primary \<or> primary = JStr [] then Inr entry
     else let k = js_String primary in
       ensure (k \<in> set (map fst (object_entries publicKeys))) (JobType ''primaryPublicKeyId'')
         (Inr (fst entry, JObj (put_assoc ''publicKeys''
           (JObj (entries_of (filter (\<lambda>kv. fst kv \<noteq> k) (object_entries publicKeys) @ [(k, js_get publicKeys k)])))
           (object_entries provider))))))"

definition normalise_provider_delivery_keys :: "jsval \<Rightarrow> job_error + jsval" where
  "normalise_provider_delivery_keys providers =
     ensure (is_plain_object providers) (JobType ''providers'')
    (bindR (mapR normalise_delivery_keys (object_entries providers)) (\<lambda>es. Inr (JObj (entries_of es))))"

text \<open>
  The primary key is meant to be the last one, which \<open>latest_delivery_key\<close> takes; an identifier that is
  an array index comes before all that are not, wherever it was put.
\<close>

lemma index_key_not_last:
  assumes "is_index_key k" and "(k', v') \<in> set (entries_of kvs)" and "\<not> is_index_key k'"
  shows "fst (last (entries_of kvs)) \<noteq> k"
proof -
  let ?o = "fold (\<lambda>(k, v) m. put_assoc k v m) kvs []"
  let ?rest = "filter (\<lambda>kv. \<not> is_index_key (fst kv)) ?o"
  have "(k', v') \<in> set ?rest" using assms(2,3) by (auto simp: entries_of_def Let_def)
  then have ne: "?rest \<noteq> []" by (metis empty_iff list.set(1))
  then have "last (entries_of kvs) = last ?rest" by (simp add: entries_of_def Let_def)
  moreover have "last ?rest \<in> set ?rest" using ne by (rule last_in_set)
  ultimately show ?thesis using assms(1) by auto
qed

end
