(* ===== verification/ScanJobLife.thy ===== *)
theory ScanJobLife
  imports ScanLifecycle
begin

section \<open>The life of a scan job\<close>

text \<open>
  The outbox and its janitor refine a state machine per job: whatever file-system calls fail, a
  command takes every job along steps of \<open>job_step\<close>. The invariant says that a job is in one directory,
  sealed for its own name, and has its package exactly while it is pending or in flight.
\<close>

subsection \<open>Commands\<close>

datatype outbox_command =
    Restart
  | QueueJob "string option" jsval jsval jsval
  | ClaimJobs string "string \<Rightarrow> jsval"
  | AcknowledgeJob jsval string "string \<Rightarrow> jsval"
  | FailJob jsval string "string \<Rightarrow> jsval"
  | CompleteJob "scan_attestation option"
  | ListJobs jsval jsval jsval
  | VerifyJobs jsval
  | ReportHealth
  | Maintain

fun run_outbox :: "job_config \<Rightarrow> job_env \<Rightarrow> outbox_command \<Rightarrow> job_files \<Rightarrow> job_files" where
  "run_outbox cfg env Restart s = fst (start_outbox cfg env s)"
| "run_outbox cfg env (QueueJob bytes input providerId actor) s = fst (queue_job cfg env bytes input providerId actor s)"
| "run_outbox cfg env (ClaimJobs body headers) s = fst (claim_signed cfg env body headers s)"
| "run_outbox cfg env (AcknowledgeJob jobId body headers) s = fst (acknowledge_signed cfg env jobId body headers s)"
| "run_outbox cfg env (FailJob jobId body headers) s = fst (fail_signed cfg env jobId body headers s)"
| "run_outbox cfg env (CompleteJob a) s = fst (complete_from_attestation cfg env a s)"
| "run_outbox cfg env (ListJobs tenantId evidenceId limit) s = fst (list_jobs cfg env tenantId evidenceId limit s)"
| "run_outbox cfg env (VerifyJobs tenantId) s = fst (verify_outbox cfg env tenantId s)"
| "run_outbox cfg env ReportHealth s = fst (outbox_health_of cfg env s)"
| "run_outbox cfg env Maintain s = fst (run_janitor (jc_deadLimit cfg) env s)"

subsection \<open>The machine of one job\<close>

definition fresh_job :: "job_config \<Rightarrow> int \<Rightarrow> string option \<Rightarrow> jsval \<Rightarrow> jsval \<Rightarrow> jsval \<Rightarrow> job_record \<Rightarrow> bool" where
  "fresh_job cfg now bytes input providerId actor r = (\<exists>content p delivery queuedBy.
     validate_content_record (jc_sha cfg) bytes input = Inr content \<and> provider_for cfg providerId = Inr p
     \<and> latest_delivery_key p = Inr delivery \<and> job_identifier actor ''actor'' = Inr queuedBy
     \<and> r = new_record cfg now content providerId delivery queuedBy
         (job_id_for (jc_sha cfg) (cr_tenantId content) (cr_evidenceId content) (cr_version content)
            (cr_contentSha256 content) providerId))"

definition owns_claim :: "job_config \<Rightarrow> int \<Rightarrow> string \<Rightarrow> (string \<Rightarrow> jsval) \<Rightarrow> jsval \<Rightarrow> job_record \<Rightarrow> bool" where
  "owns_claim cfg now body headers jobId r = (\<exists>auth input.
     authenticate_scan cfg now body headers = Inr auth \<and> jc_parse cfg (if body = [] then ''{}'' else body) = Some input
     \<and> jr_claimToken r = Some (trimmed (js_get input ''claimToken''))
     \<and> jr_providerId r = JStr (sa_providerId auth) \<and> jr_jobId r = ev_text jobId
     \<and> jr_state r = Inflight \<and> now < claim_deadline r)"

definition may_be_pruned :: "job_record \<Rightarrow> bool" where
  "may_be_pruned r = (jr_state r \<in> {DeadLetter, Completed} \<or> jr_state r = Pending \<and> jr_attempts r = 0)"

inductive job_step :: "job_config \<Rightarrow> job_env \<Rightarrow> outbox_command \<Rightarrow> job_record option \<Rightarrow> job_record option \<Rightarrow> bool"
  for cfg env cmd where
  js_queued: "cmd = QueueJob bytes input providerId actor \<Longrightarrow> fresh_job cfg (je_now env) bytes input providerId actor r \<Longrightarrow>
     job_step cfg env cmd None (Some r)"
| js_requeued: "cmd = QueueJob bytes input providerId actor \<Longrightarrow> fresh_job cfg (je_now env) bytes input providerId actor r' \<Longrightarrow>
     jr_state r = DeadLetter \<Longrightarrow> jr_jobId r' = jr_jobId r \<Longrightarrow> job_step cfg env cmd (Some r) (Some r')"
| js_claimed: "cmd = ClaimJobs body headers \<Longrightarrow> authenticate_scan cfg (je_now env) body headers = Inr auth \<Longrightarrow>
     jr_state r = Pending \<Longrightarrow> jr_providerId r = JStr (sa_providerId auth) \<Longrightarrow> jr_nextAttemptAt r \<le> je_now env \<Longrightarrow>
     je_now env < jr_expiresAt r \<Longrightarrow> package_intact cfg r \<Longrightarrow>
     job_step cfg env cmd (Some r) (Some (claimed_record cfg env r))"
| js_acknowledged: "cmd = AcknowledgeJob jobId body headers \<Longrightarrow> owns_claim cfg (je_now env) body headers jobId r \<Longrightarrow>
     job_step cfg env cmd (Some r) (Some (delivered_record (je_now env) r))"
| js_retried: "cmd = FailJob jobId body headers \<Longrightarrow> owns_claim cfg (je_now env) body headers jobId r \<Longrightarrow>
     jr_attempts r < jc_attempts cfg \<Longrightarrow>
     job_step cfg env cmd (Some r) (Some (back_to_pending (je_now env) (RetryResult reason) r))"
| js_failed: "cmd = FailJob jobId body headers \<Longrightarrow> owns_claim cfg (je_now env) body headers jobId r \<Longrightarrow>
     job_step cfg env cmd (Some r) (Some (dead_record (je_now env) reason r))"
| js_recovered: "jr_state r = Inflight \<Longrightarrow> claim_deadline r \<le> je_now env \<Longrightarrow> jr_attempts r < jc_attempts cfg \<Longrightarrow>
     je_now env < jr_expiresAt r \<Longrightarrow>
     job_step cfg env cmd (Some r) (Some (back_to_pending (je_now env) ClaimRecovered r))"
| js_claim_expired: "jr_state r = Inflight \<Longrightarrow> claim_deadline r \<le> je_now env \<Longrightarrow>
     jc_attempts cfg \<le> jr_attempts r \<or> jr_expiresAt r \<le> je_now env \<Longrightarrow>
     job_step cfg env cmd (Some r) (Some (dead_record (je_now env) ''claim_expired'' r))"
| js_expired: "cmd = Maintain \<or> cmd = ClaimJobs body headers \<Longrightarrow> jr_state r = Pending \<Longrightarrow> jr_expiresAt r \<le> je_now env \<Longrightarrow>
     job_step cfg env cmd (Some r) (Some (dead_record (je_now env) ''job_expired'' r))"
| js_attestation_timeout: "cmd = Maintain \<Longrightarrow> jr_state r = Delivered \<Longrightarrow> jr_expiresAt r \<le> je_now env \<Longrightarrow>
     job_step cfg env cmd (Some r) (Some (dead_record (je_now env) ''attestation_timeout'' r))"
| js_completed: "cmd = CompleteJob (Some a) \<Longrightarrow> jr_jobId r = attested_job cfg a \<Longrightarrow> decrypt_management r = Inr m \<Longrightarrow>
     attestation_matches a r m \<Longrightarrow> jr_state r \<noteq> Completed \<Longrightarrow>
     job_step cfg env cmd (Some r) (Some (completed_record (je_now env) a r))"
| js_pruned: "may_be_pruned r \<Longrightarrow> job_step cfg env cmd (Some r) None"

inductive_cases job_step_someE: "job_step cfg env cmd (Some r) x"

subsection \<open>The invariant\<close>

definition shape :: "job_config \<Rightarrow> job_record \<Rightarrow> bool" where
  "shape cfg r = (case jr_state r of
     Pending \<Rightarrow> package_intact cfg r \<and> jr_claimToken r = None \<and> jr_attempts r < jc_attempts cfg
   | Inflight \<Rightarrow> package_intact cfg r \<and> jr_claimToken r \<noteq> None \<and> jr_claimExpiresAt r \<noteq> None
       \<and> 0 < jr_attempts r \<and> jr_attempts r \<le> jc_attempts cfg
   | _ \<Rightarrow> jr_package r = None \<and> jr_claimToken r = None)"

definition placed :: "job_state \<Rightarrow> job_record \<Rightarrow> bool" where
  "placed st r = ((st = DeadLetter \<longrightarrow> may_be_pruned r) \<and> (st = Completed \<longrightarrow> jr_state r = Completed))"

definition record_ok :: "job_config \<Rightarrow> string \<Rightarrow> job_record \<Rightarrow> bool" where
  "record_ok cfg i r = (jr_jobId r = i \<and> valid_record r \<and> (\<exists>m. jr_management r = SealedFile (management_aad i) m) \<and> shape cfg r)"

definition file_ok :: "job_config \<Rightarrow> job_state \<Rightarrow> string \<Rightarrow> job_record job_file \<Rightarrow> bool" where
  "file_ok cfg st i f = (\<exists>r. f = SealedFile (record_aad i) r \<and> record_ok cfg i r \<and> placed st r)"

definition outbox_inv :: "job_config \<Rightarrow> job_files \<Rightarrow> bool" where
  "outbox_inv cfg s = ((\<forall>st i f. file_at s st i = Some f \<longrightarrow> file_ok cfg st i f)
     \<and> (\<forall>a b i. file_at s a i \<noteq> None \<longrightarrow> file_at s b i \<noteq> None \<longrightarrow> a = b)
     \<and> (\<forall>st. distinct (map fst (jf_dirs s st))))"

fun unsealed :: "'a job_file \<Rightarrow> 'a option" where
  "unsealed (SealedFile a r) = Some r"
| "unsealed _ = None"

definition job_at :: "job_files \<Rightarrow> string \<Rightarrow> job_record option" where
  "job_at s i = (case filter (\<lambda>st. file_at s st i \<noteq> None) job_states of
     [] \<Rightarrow> None | st # _ \<Rightarrow> Option.bind (file_at s st i) unsealed)"

lemma job_states_all: "st \<in> set job_states"
  by (cases st) (simp_all add: job_states_def)

lemma inv_file: "outbox_inv cfg s \<Longrightarrow> file_at s st i = Some f \<Longrightarrow> file_ok cfg st i f"
  by (simp add: outbox_inv_def)

lemma job_at_None: "job_at s i = None \<longleftrightarrow> (\<forall>st. file_at s st i = None)" if inv: "outbox_inv cfg s"
proof
  assume none: "job_at s i = None"
  show "\<forall>st. file_at s st i = None"
  proof (rule ccontr)
    assume "\<not> ?thesis"
    then obtain st where "file_at s st i \<noteq> None" by blast
    then have "filter (\<lambda>st. file_at s st i \<noteq> None) job_states \<noteq> []"
      using job_states_all [of st] by (auto simp: filter_empty_conv)
    then obtain a as where c: "filter (\<lambda>st. file_at s st i \<noteq> None) job_states = a # as" by (auto simp: neq_Nil_conv)
    then have "a \<in> set (filter (\<lambda>st. file_at s st i \<noteq> None) job_states)" by simp
    then obtain f where "file_at s a i = Some f" by auto
    with inv have "file_ok cfg a i f" by (rule inv_file)
    with \<open>file_at s a i = Some f\<close> c none show False by (auto simp: job_at_def file_ok_def)
  qed
qed (simp add: job_at_def)

lemma job_at_stored:
  assumes inv: "outbox_inv cfg s" and f: "file_at s st i = Some (SealedFile a r)"
  shows "job_at s i = Some r"
proof -
  have "filter (\<lambda>st. file_at s st i \<noteq> None) job_states = filter (\<lambda>b. b = st) job_states"
    using inv f unfolding outbox_inv_def by (intro filter_cong) (auto, blast)
  also have "\<dots> = [st]" by (cases st) (simp_all add: job_states_def)
  finally show ?thesis using f by (simp add: job_at_def)
qed

lemma job_at_SomeE:
  assumes inv: "outbox_inv cfg s" and "job_at s i = Some r"
  obtains st where "file_at s st i = Some (SealedFile (record_aad i) r)" and "record_ok cfg i r" and "placed st r"
proof -
  have "\<exists>st. file_at s st i \<noteq> None" using assms job_at_None [OF inv, of i] by auto
  then obtain st f where f: "file_at s st i = Some f" by blast
  with inv have "file_ok cfg st i f" by (simp add: outbox_inv_def)
  with f assms that show thesis by (auto simp: file_ok_def dest: job_at_stored)
qed

subsection \<open>Files\<close>

lemma jf_dirs_set_dir [simp]: "jf_dirs (set_dir st d s) = (jf_dirs s)(st := d)"
  by (simp add: set_dir_def)

lemma file_at_put [simp]:
  "file_at (set_dir st (put_assoc i f (jf_dirs s st)) s) b j = (if b = st \<and> j = i then Some f else file_at s b j)"
  by (simp add: file_at_def)

lemma map_of_drop_key: "map_of (without i d) j = (if j = i then None else map_of d j)"
  by (induction d) (auto simp: without_def)

lemma file_at_without [simp]:
  "file_at (set_dir st (without i (jf_dirs s st)) s) b j = (if b = st \<and> j = i then None else file_at s b j)"
  by (simp add: file_at_def map_of_drop_key)

lemma distinct_without: "distinct (map fst d) \<Longrightarrow> distinct (map fst (without i d))"
  by (induction d) (auto simp: without_def)

lemma file_at_draws [simp]:
  "file_at (s\<lparr>jf_writes := ws\<rparr>) st i = file_at s st i" "file_at (s\<lparr>jf_moves := ms\<rparr>) st i = file_at s st i"
  "file_at (s\<lparr>jf_replays := rs\<rparr>) st i = file_at s st i"
  by (simp_all add: file_at_def)

lemma job_at_cong: "(\<And>st. file_at s st i = file_at s' st j) \<Longrightarrow> job_at s i = job_at s' j"
  by (simp add: job_at_def cong: filter_cong list.case_cong)

lemma job_at_draws [simp]:
  "job_at (s\<lparr>jf_writes := ws\<rparr>) i = job_at s i" "job_at (s\<lparr>jf_moves := ms\<rparr>) i = job_at s i"
  "job_at (s\<lparr>jf_replays := rs\<rparr>) i = job_at s i"
  by (auto intro!: job_at_cong)

lemma outbox_inv_draws [simp]:
  "outbox_inv cfg (s\<lparr>jf_writes := ws\<rparr>) = outbox_inv cfg s" "outbox_inv cfg (s\<lparr>jf_moves := ms\<rparr>) = outbox_inv cfg s"
  "outbox_inv cfg (s\<lparr>jf_replays := rs\<rparr>) = outbox_inv cfg s"
  by (simp_all add: outbox_inv_def)

lemma put_inv:
  assumes "outbox_inv cfg s" and "file_ok cfg st i f" and "\<And>b. file_at s b i \<noteq> None \<Longrightarrow> b = st"
  shows "outbox_inv cfg (set_dir st (put_assoc i f (jf_dirs s st)) s)"
  using assms unfolding outbox_inv_def by (auto simp: distinct_put_assoc split: if_splits)

lemma put_job_at:
  assumes inv: "outbox_inv cfg s" and f: "file_ok cfg st i (SealedFile a r)"
    and only: "\<And>b. file_at s b i \<noteq> None \<Longrightarrow> b = st"
  shows "job_at (set_dir st (put_assoc i (SealedFile a r) (jf_dirs s st)) s) = (job_at s)(i := Some r)"
proof
  fix j
  have "outbox_inv cfg (set_dir st (put_assoc i (SealedFile a r) (jf_dirs s st)) s)" using inv f only by (rule put_inv)
  then show "job_at (set_dir st (put_assoc i (SealedFile a r) (jf_dirs s st)) s) j = ((job_at s)(i := Some r)) j"
    by (cases "j = i") (auto intro: job_at_stored job_at_cong)
qed

lemma without_inv:
  assumes "outbox_inv cfg s"
  shows "outbox_inv cfg (set_dir st (without i (jf_dirs s st)) s)"
  using assms unfolding outbox_inv_def by (auto simp: distinct_without split: if_splits)

lemma without_job_at:
  assumes inv: "outbox_inv cfg s" and "file_at s st i \<noteq> None"
  shows "job_at (set_dir st (without i (jf_dirs s st)) s) = (job_at s)(i := None)"
proof
  fix j
  have only: "file_at s b i = None" if "b \<noteq> st" for b using assms that unfolding outbox_inv_def by blast
  show "job_at (set_dir st (without i (jf_dirs s st)) s) j = ((job_at s)(i := None)) j"
  proof (cases "j = i")
    case True
    with only show ?thesis by (auto simp: job_at_None [OF without_inv [OF inv]])
  qed (auto intro: job_at_cong)
qed

definition move_dir :: "job_state \<Rightarrow> job_state \<Rightarrow> string \<Rightarrow> job_record job_file \<Rightarrow> job_files \<Rightarrow> job_files" where
  "move_dir a b i f s = (let s' = set_dir a (without i (jf_dirs s a)) s in set_dir b (put_assoc i f (jf_dirs s' b)) s')"

lemma move_dir_keeps:
  assumes inv: "outbox_inv cfg s" and f: "file_at s a i = Some f" and good: "file_ok cfg b i f"
  shows "outbox_inv cfg (move_dir a b i f s)" and "job_at (move_dir a b i f s) = job_at s"
    and "file_at (move_dir a b i f s) c j = (if j = i then if c = b then Some f else None else file_at s c j)"
proof -
  let ?s = "set_dir a (without i (jf_dirs s a)) s"
  have inv1: "outbox_inv cfg ?s" by (rule without_inv [OF inv])
  have none: "file_at ?s c i = None" for c using inv f unfolding outbox_inv_def by (auto, blast)
  obtain r where r: "f = SealedFile (record_aad i) r" using good by (auto simp: file_ok_def)
  have at: "job_at s i = Some r" using inv f unfolding r by (rule job_at_stored)
  show "outbox_inv cfg (move_dir a b i f s)" unfolding move_dir_def Let_def
    by (rule put_inv [OF inv1 good]) (use none in simp)
  have "job_at (move_dir a b i f s) = (job_at ?s)(i := Some r)"
    unfolding move_dir_def Let_def r by (rule put_job_at [OF inv1 good [unfolded r]]) (use none in simp)
  then show "job_at (move_dir a b i f s) = job_at s" using without_job_at [OF inv, of a i] f at by auto
  show "file_at (move_dir a b i f s) c j = (if j = i then if c = b then Some f else None else file_at s c j)"
    unfolding move_dir_def Let_def file_at_put using none [of c] by (auto split: if_splits)
qed

lemma read_record_after:
  assumes "outbox_inv cfg s"
    and "\<And>r. file_at s st i = Some (SealedFile (record_aad i) r) \<Longrightarrow> record_ok cfg i r \<Longrightarrow> placed st r \<Longrightarrow> Q r s"
    and "\<And>e. E e s"
  shows "after (read_record st i) Q E s"
proof (cases "file_at s st i")
  case None
  then show ?thesis using assms(3) by (auto simp: after_def read_record_def split: sum.split)
next
  case (Some f)
  with assms(1) have "file_ok cfg st i f" by (simp add: outbox_inv_def)
  then obtain r where "f = SealedFile (record_aad i) r" "record_ok cfg i r" "placed st r" by (auto simp: file_ok_def)
  with Some assms(2,3) show ?thesis
    by (auto simp: after_def read_record_def parse_file_def record_ok_def split: sum.split)
qed

subsection \<open>Steps along a machine\<close>

definition kept :: "job_config \<Rightarrow> (job_record option \<Rightarrow> job_record option \<Rightarrow> bool) \<Rightarrow> job_files \<Rightarrow> job_files \<Rightarrow> bool" where
  "kept cfg T s0 s = (outbox_inv cfg s \<and> (\<forall>i. T\<^sup>*\<^sup>* (job_at s0 i) (job_at s i)))"

lemma kept_refl: "outbox_inv cfg s \<Longrightarrow> kept cfg T s s"
  by (simp add: kept_def)

lemma kept_inv: "kept cfg T s0 s \<Longrightarrow> outbox_inv cfg s"
  by (simp add: kept_def)

lemma kept_draws [simp]:
  "kept cfg T s0 (s\<lparr>jf_writes := ws\<rparr>) = kept cfg T s0 s" "kept cfg T s0 (s\<lparr>jf_moves := ms\<rparr>) = kept cfg T s0 s"
  "kept cfg T s0 (s\<lparr>jf_replays := rs\<rparr>) = kept cfg T s0 s"
  by (simp_all add: kept_def)

lemma kept_step:
  assumes "kept cfg T s0 s" and "outbox_inv cfg s'" and "job_at s' = (job_at s)(i := x)" and "T (job_at s i) x"
  shows "kept cfg T s0 s'"
  using assms by (auto simp: kept_def intro: rtranclp.rtrancl_into_rtrancl)

lemma kept_same: "kept cfg T s0 s \<Longrightarrow> outbox_inv cfg s' \<Longrightarrow> job_at s' = job_at s \<Longrightarrow> kept cfg T s0 s'"
  by (simp add: kept_def)

lemma draw_write_after: "(\<And>w ws. Q w (s\<lparr>jf_writes := ws\<rparr>)) \<Longrightarrow> after draw_write Q E s"
proof -
  assume "\<And>w ws. Q w (s\<lparr>jf_writes := ws\<rparr>)"
  moreover from this [of _ "jf_writes s"] have "Q w s" for w by simp
  ultimately show ?thesis by (simp add: after_def draw_write_def split: list.split)
qed

lemma draw_move_after: "(\<And>m ms. Q m (s\<lparr>jf_moves := ms\<rparr>)) \<Longrightarrow> after draw_move Q E s"
proof -
  assume "\<And>m ms. Q m (s\<lparr>jf_moves := ms\<rparr>)"
  moreover from this [of _ "jf_moves s"] have "Q m s" for m by simp
  ultimately show ?thesis by (simp add: after_def draw_move_def split: list.split)
qed

lemma put_file_cases:
  assumes "\<And>ws. Q () (set_dir st (put_assoc i f (jf_dirs s st)) (s\<lparr>jf_writes := ws\<rparr>))"
    and "\<And>ws e. E e (s\<lparr>jf_writes := ws\<rparr>)"
    and "\<And>ws e. E e (set_dir st (put_assoc i f (jf_dirs s st)) (s\<lparr>jf_writes := ws\<rparr>))"
  shows "after (put_file st i f) Q E s"
  unfolding put_file_def after_bindS
proof (rule draw_write_after)
  fix w ws
  have same: "set_dir st (jf_dirs s st) (s\<lparr>jf_writes := ws\<rparr>) = s\<lparr>jf_writes := ws\<rparr>" by (simp add: set_dir_def)
  show "after (getS (\<lambda>s. jf_dirs s st)) (\<lambda>d. after (case atomic_write w (put_assoc i f d) d of
      (d', written) \<Rightarrow> bindS (modifyS (set_dir st d')) (\<lambda>_. ensureS written JobFile (returnS ()))) Q E) E
    (s\<lparr>jf_writes := ws\<rparr>)"
    by (cases w) (simp_all add: assms same)
qed

lemma put_file_after:
  assumes k: "kept cfg T s0 s" and r: "record_ok cfg i r" "placed st r"
    and only: "\<And>b. file_at s b i \<noteq> None \<Longrightarrow> b = st" and step: "T (job_at s i) (Some r)"
  shows "after (put_file st i (SealedFile (record_aad i) r))
    (\<lambda>_ s'. kept cfg T s0 s' \<and> (\<forall>b j. file_at s' b j = (if b = st \<and> j = i then Some (SealedFile (record_aad i) r) else file_at s b j)))
    (\<lambda>_. kept cfg T s0) s"
proof -
  let ?f = "SealedFile (record_aad i) r"
  let ?new = "\<lambda>ws. set_dir st (put_assoc i ?f (jf_dirs s st)) (s\<lparr>jf_writes := ws\<rparr>)"
  have ok: "file_ok cfg st i ?f" using r by (simp add: file_ok_def)
  have new: "kept cfg T s0 (?new ws)" for ws
  proof (rule kept_step [OF k])
    let ?s = "s\<lparr>jf_writes := ws\<rparr>"
    have inv: "outbox_inv cfg ?s" using kept_inv [OF k] by simp
    have only': "b = st" if "file_at ?s b i \<noteq> None" for b using only that by simp
    show "outbox_inv cfg (?new ws)" using put_inv [OF inv ok only'] by simp
    have "job_at ?s = job_at s" by auto
    then show "job_at (?new ws) = (job_at s)(i := Some r)" using put_job_at [OF inv ok only'] by simp
    show "T (job_at s i) (Some r)" by (rule step)
  qed
  have at: "file_at (?new ws) b j = (if b = st \<and> j = i then Some ?f else file_at s b j)" for ws b j
    using file_at_put [of st i ?f "s\<lparr>jf_writes := ws\<rparr>"] by simp
  show ?thesis by (rule put_file_cases) (use k new at in simp_all)
qed

lemma rename_file_cases:
  assumes "file_at s a i = Some f" and "\<And>ms. Q () (move_dir a b i f (s\<lparr>jf_moves := ms\<rparr>))"
    and "\<And>ms e. E e (s\<lparr>jf_moves := ms\<rparr>)"
  shows "after (rename_file a b i) Q E s"
  unfolding rename_file_def after_bindS
  by (rule draw_move_after) (use assms in \<open>simp add: move_dir_def Let_def del: jf_dirs_set_dir\<close>)

lemma rename_file_after:
  assumes k: "kept cfg T s0 s" and f: "file_at s a i = Some f" and good: "file_ok cfg b i f"
  shows "after (rename_file a b i)
    (\<lambda>_ s'. kept cfg T s0 s' \<and> (\<forall>c j. file_at s' c j = (if j = i then if c = b then Some f else None else file_at s c j)))
    (\<lambda>_. kept cfg T s0) s"
proof (rule rename_file_cases [OF f])
  fix ms
  let ?s = "s\<lparr>jf_moves := ms\<rparr>"
  have inv: "outbox_inv cfg ?s" and f': "file_at ?s a i = Some f" using kept_inv [OF k] f by simp_all
  have "job_at ?s = job_at s" by auto
  then have "kept cfg T s0 (move_dir a b i f ?s)"
    using move_dir_keeps(1,2) [OF inv f' good] by (intro kept_same [OF k]) simp_all
  then show "kept cfg T s0 (move_dir a b i f ?s)
      \<and> (\<forall>c j. file_at (move_dir a b i f ?s) c j = (if j = i then if c = b then Some f else None else file_at s c j))"
    using move_dir_keeps(3) [OF inv f' good] by simp
qed (use k in simp)

lemma write_record_after:
  assumes "kept cfg T s0 s" and "record_ok cfg i r" "placed st r"
    and "\<And>b. file_at s b i \<noteq> None \<Longrightarrow> b = st" and "T (job_at s i) (Some r)"
  shows "after (write_record st r)
    (\<lambda>_ s'. kept cfg T s0 s' \<and> (\<forall>b j. file_at s' b j = (if b = st \<and> j = i then Some (SealedFile (record_aad i) r) else file_at s b j)))
    (\<lambda>_. kept cfg T s0) s"
  using put_file_after [OF assms] assms(1,2) by (simp add: write_record_def record_ok_def)

lemma write_and_move_after:
  assumes k: "kept cfg T s0 s" and f: "file_at s a i = Some f" and r: "record_ok cfg i r" "placed a r" "placed b r"
    and step: "T (job_at s i) (Some r)"
  shows "after (write_and_move a b r)
    (\<lambda>_ s'. kept cfg T s0 s' \<and> (\<forall>c j. file_at s' c j = (if j = i then if c = b then Some (SealedFile (record_aad i) r) else None else file_at s c j)))
    (\<lambda>_. kept cfg T s0) s"
proof -
  have only: "c = a" if "file_at s c i \<noteq> None" for c using kept_inv [OF k] f that unfolding outbox_inv_def by blast
  have i: "jr_jobId r = i" using r by (simp add: record_ok_def)
  have w: "after (write_record a r)
    (\<lambda>_ s'. kept cfg T s0 s' \<and> (\<forall>b j. file_at s' b j = (if b = a \<and> j = i then Some (SealedFile (record_aad i) r) else file_at s b j)))
    (\<lambda>_. kept cfg T s0) s"
    by (rule write_record_after [OF k r(1,2) only step])
  have good: "file_ok cfg b i (SealedFile (record_aad i) r)" using r by (simp add: file_ok_def)
  show ?thesis
  proof (cases "a = b")
    case True
    have none: "file_at s c i = None" if "c \<noteq> a" for c using only that by blast
    from True have "write_and_move a b r = write_record a r" by (simp add: write_and_move_def fun_eq_iff)
    then show ?thesis using True none unfolding \<open>write_and_move a b r = write_record a r\<close>
      by (intro after_weaken [OF w]) auto
  next
    case False
    then have "after (bindS (write_record a r) (\<lambda>_. rename_file a b i))
      (\<lambda>_ s'. kept cfg T s0 s' \<and> (\<forall>c j. file_at s' c j = (if j = i then if c = b then Some (SealedFile (record_aad i) r) else None else file_at s c j)))
      (\<lambda>_. kept cfg T s0) s"
      unfolding after_bindS
      by (intro after_weaken [OF w]) (auto intro!: after_weaken [OF rename_file_after [OF _ _ good]])
    with False k show ?thesis by (simp add: write_and_move_def i)
  qed
qed

lemmas job_write_rules = write_record_after write_and_move_after

subsection \<open>What every command does\<close>

lemma package_intact_moved [simp]:
  "package_intact cfg (back_to_pending now result r) = package_intact cfg r"
  "package_intact cfg (claimed_record cfg env r) = package_intact cfg r"
  by (cases "jr_package r"; simp add: package_intact_def back_to_pending_def claimed_record_def)+

lemma moved_states [simp]:
  "jr_state (back_to_pending now result r) = Pending" "jr_state (claimed_record cfg env r) = Inflight"
  "jr_state (dead_record now reason r) = DeadLetter" "jr_state (delivered_record now r) = Delivered"
  "jr_state (completed_record now a r) = Completed"
  by (simp_all add: back_to_pending_def claimed_record_def dead_record_def delivered_record_def completed_record_def)

lemma record_ok_dead: "record_ok cfg i r \<Longrightarrow> record_ok cfg i (dead_record now reason r)"
  by (auto simp: record_ok_def valid_record_def shape_def dead_record_def)

lemma record_ok_completed: "record_ok cfg i r \<Longrightarrow> record_ok cfg i (completed_record now a r)"
  by (auto simp: record_ok_def valid_record_def shape_def completed_record_def)

lemma record_ok_delivered: "record_ok cfg i r \<Longrightarrow> record_ok cfg i (delivered_record now r)"
  by (auto simp: record_ok_def valid_record_def shape_def delivered_record_def)

lemma record_ok_pending:
  "record_ok cfg i r \<Longrightarrow> jr_state r = Inflight \<Longrightarrow> jr_attempts r < jc_attempts cfg \<Longrightarrow>
     record_ok cfg i (back_to_pending now result r)"
  unfolding record_ok_def shape_def by (auto simp: valid_record_def) (simp_all add: back_to_pending_def)

lemma record_ok_claimed:
  "record_ok cfg i r \<Longrightarrow> jr_state r = Pending \<Longrightarrow> record_ok cfg i (claimed_record cfg env r)"
  unfolding record_ok_def shape_def by (auto simp: valid_record_def) (simp_all add: claimed_record_def)

lemma placed_source [simp]: "placed Pending r" "placed Inflight r" "placed Delivered r"
  by (simp_all add: placed_def)

lemma placed_own: "placed (jr_state r) r"
  by (simp add: placed_def may_be_pruned_def)

lemma reason_codes:
  "safe_reason_code (JStr ''claim_expired'') = Inr ''claim_expired''"
  "safe_reason_code (JStr ''job_expired'') = Inr ''job_expired''"
  by code_simp+

locale job_machine =
  fixes cfg :: job_config and env :: job_env and T :: "job_record option \<Rightarrow> job_record option \<Rightarrow> bool"
  assumes recovered: "jr_state r = Inflight \<Longrightarrow> claim_deadline r \<le> je_now env \<Longrightarrow> jr_attempts r < jc_attempts cfg \<Longrightarrow>
      je_now env < jr_expiresAt r \<Longrightarrow> T (Some r) (Some (back_to_pending (je_now env) ClaimRecovered r))"
    and claim_expired: "jr_state r = Inflight \<Longrightarrow> claim_deadline r \<le> je_now env \<Longrightarrow>
      jc_attempts cfg \<le> jr_attempts r \<or> jr_expiresAt r \<le> je_now env \<Longrightarrow>
      T (Some r) (Some (dead_record (je_now env) ''claim_expired'' r))"
    and pruned: "may_be_pruned r \<Longrightarrow> T (Some r) None"
begin

lemma remove_file_keeps:
  assumes "st = DeadLetter \<or> st = Completed"
  shows "keeps (kept cfg T s0) (remove_file st i)"
proof (rule keepsI)
  fix s assume k: "kept cfg T s0 s"
  have "kept cfg T s0 (set_dir st (without i (jf_dirs s st)) (s\<lparr>jf_moves := ms\<rparr>))" for ms
  proof (cases "file_at s st i")
    case None
    then have "job_at (set_dir st (without i (jf_dirs s st)) (s\<lparr>jf_moves := ms\<rparr>)) = job_at s"
      by (intro ext job_at_cong) (auto simp: file_at_def map_of_drop_key)
    then show ?thesis using without_inv [of cfg "s\<lparr>jf_moves := ms\<rparr>" st i] kept_inv [OF k]
      by (intro kept_same [OF k]) simp_all
  next
    case (Some f)
    then obtain r where r: "f = SealedFile (record_aad i) r" "placed st r"
      using inv_file [OF kept_inv [OF k] Some] by (auto simp: file_ok_def)
    have at: "job_at s i = Some r" using kept_inv [OF k] Some unfolding r by (rule job_at_stored)
    have "job_at (s\<lparr>jf_moves := ms\<rparr>) = job_at s" by auto
    then have "job_at (set_dir st (without i (jf_dirs s st)) (s\<lparr>jf_moves := ms\<rparr>)) = (job_at s)(i := None)"
      using without_job_at [of cfg "s\<lparr>jf_moves := ms\<rparr>" st i] kept_inv [OF k] Some by simp
    then show ?thesis
      using without_inv [of cfg "s\<lparr>jf_moves := ms\<rparr>" st i] kept_inv [OF k] r at assms
      by (intro kept_step [OF k]) (auto intro!: pruned simp: placed_def may_be_pruned_def)
  qed
  then show "after (remove_file st i) (\<lambda>_. kept cfg T s0) (\<lambda>_. kept cfg T s0) s"
    unfolding remove_file_def after_bindS by (intro draw_move_after) (simp add: k)
qed

lemma read_record_keeps: "keeps (kept cfg T s0) (read_record st i)"
  by (simp add: keeps_def read_record_def)

lemma prune_terminal_keeps: "st = DeadLetter \<or> st = Completed \<Longrightarrow> keeps (kept cfg T s0) (prune_terminal st n field)"
  unfolding prune_terminal_def by (intro keeps_intros read_record_keeps remove_file_keeps)

lemma rename_own:
  assumes k: "kept cfg T s0 s" and f: "file_at s st i = Some (SealedFile (record_aad i) r)" and r: "record_ok cfg i r"
  shows "after (rename_file st (jr_state r) i) (\<lambda>_. kept cfg T s0) (\<lambda>_. kept cfg T s0) s"
  by (rule after_weaken [OF rename_file_after [OF k f]]) (auto simp: file_ok_def r placed_own)

lemma reconcile_one_keeps: "keeps (kept cfg T s0) (reconcile_one st i)"
proof (rule keepsI)
  fix s assume k: "kept cfg T s0 s"
  show "after (reconcile_one st i) (\<lambda>_. kept cfg T s0) (\<lambda>_. kept cfg T s0) s"
    unfolding reconcile_one_def after_bindS
    by (rule read_record_after [OF kept_inv [OF k]]) (auto simp: k intro!: rename_own)
qed

lemma reconcile_locations_keeps: "keeps (kept cfg T s0) (reconcile_locations sts)"
  unfolding reconcile_locations_def reconcile_dir_def by (intro keeps_intros reconcile_one_keeps)

lemma move_to_dead_after:
  assumes k: "kept cfg T s0 s" and f: "file_at s st i = Some (SealedFile (record_aad i) r)" and r: "record_ok cfg i r"
    and st: "st = Pending \<or> st = Inflight"
    and step: "\<And>code. safe_reason_code (JStr reason) = Inr code \<Longrightarrow> T (Some r) (Some (dead_record (je_now env) code r))"
  shows "after (move_to_dead cfg env st reason r) (\<lambda>_. kept cfg T s0) (\<lambda>_. kept cfg T s0) s"
proof -
  have at: "job_at s i = Some r" by (rule job_at_stored [OF kept_inv [OF k] f])
  have moved: "after (write_and_move st DeadLetter (dead_record (je_now env) code r))
      (\<lambda>_. kept cfg T s0) (\<lambda>_. kept cfg T s0) s" if "safe_reason_code (JStr reason) = Inr code" for code
    using st step [OF that] placed_own [of "dead_record (je_now env) code r"]
    by (intro after_weaken [OF write_and_move_after [OF k f record_ok_dead [OF r]]]) (auto simp: at)
  have "after (bindS (write_and_move st DeadLetter (dead_record (je_now env) code r)) (\<lambda>_.
      bindS (prune_terminal DeadLetter (jc_deadLimit cfg) jr_deadLetteredAt) (\<lambda>_. returnS (dead_record (je_now env) code r))))
      (\<lambda>_. kept cfg T s0) (\<lambda>_. kept cfg T s0) s" if "safe_reason_code (JStr reason) = Inr code" for code
    unfolding after_bindS
    by (rule after_weaken [OF moved [OF that]]) (simp_all add: keeps_afterD [OF prune_terminal_keeps])
  then show ?thesis unfolding move_to_dead_def Let_def by (simp add: after_liftS k split: sum.split)
qed

lemma recover_one_keeps: "keeps (kept cfg T s0) (recover_one cfg env i)"
proof (rule keepsI)
  fix s assume k: "kept cfg T s0 s"
  have retry: "after (write_and_move Inflight Pending (back_to_pending (je_now env) ClaimRecovered r))
      (\<lambda>_. kept cfg T s0) (\<lambda>_. kept cfg T s0) s"
    if f: "file_at s Inflight i = Some (SealedFile (record_aad i) r)" and r: "record_ok cfg i r"
      and "jr_state r = Inflight" "claim_deadline r \<le> je_now env" "jr_attempts r < jc_attempts cfg" "je_now env < jr_expiresAt r" for r
    using recovered [of r] that job_at_stored [OF kept_inv [OF k] f]
    by (intro after_weaken [OF write_and_move_after [OF k f record_ok_pending [OF r]]]) auto
  have dead: "after (move_to_dead cfg env Inflight ''claim_expired'' r) (\<lambda>_. kept cfg T s0) (\<lambda>_. kept cfg T s0) s"
    if f: "file_at s Inflight i = Some (SealedFile (record_aad i) r)" and r: "record_ok cfg i r"
      and "jr_state r = Inflight" "claim_deadline r \<le> je_now env" "jc_attempts cfg \<le> jr_attempts r \<or> jr_expiresAt r \<le> je_now env" for r
    using that claim_expired [of r] by (intro move_to_dead_after [OF k f r]) (auto simp: reason_codes)
  have intact: "jr_package r \<noteq> None" if "record_ok cfg i r" "jr_state r = Inflight" for r
    using that by (auto simp: record_ok_def shape_def package_intact_def split: option.splits)
  show "after (recover_one cfg env i) (\<lambda>_. kept cfg T s0) (\<lambda>_. kept cfg T s0) s"
    unfolding recover_one_def after_bindS
    by (rule read_record_after [OF kept_inv [OF k]]) (auto simp: k not_less not_le intro!: retry dead dest: intact)
qed

lemma repair_keeps: "keeps (kept cfg T s0) (repair cfg env sts)"
  unfolding repair_def recover_inflight_def
  by (intro keeps_intros reconcile_locations_keeps recover_one_keeps)

end

interpretation machine: job_machine cfg env "job_step cfg env cmd" for cfg env cmd
  by unfold_locales (simp_all add: js_recovered js_claim_expired js_pruned)

lemma draw_move_keeps: "keeps (kept cfg T s0) draw_move"
  by (rule keepsI, rule draw_move_after) simp

lemma draw_write_keeps: "keeps (kept cfg T s0) draw_write"
  by (rule keepsI, rule draw_write_after) simp

lemma consume_replay_keeps: "keeps (kept cfg T s0) (consume_replay cfg now auth)"
proof -
  have "keeps (kept cfg T s0) (remove_marker i)" for i
    unfolding remove_marker_def by (intro keeps_intros draw_move_keeps keeps_modifyS) simp
  then have "keeps (kept cfg T s0) (prune_marker now e)" for e
    by (rule keeps_prune_marker)
  moreover have "keeps (kept cfg T s0) (put_marker i f)" for i f
    unfolding put_marker_def by (intro keeps_intros draw_write_keeps keeps_modifyS) simp
  ultimately show ?thesis
    unfolding consume_replay_def prune_replays_def by (intro keeps_intros)
qed

lemma signed_section_keeps:
  "keeps (kept cfg (job_step cfg env cmd) s0) m \<Longrightarrow> keeps (kept cfg (job_step cfg env cmd) s0) (signed_section cfg env auth m)"
  unfolding signed_section_def locked_def by (intro keeps_intros consume_replay_keeps machine.repair_keeps)

lemma public_of_record_keeps [keeps_intros]: "keeps P (public_of_record r)"
  unfolding public_of_record_def by (intro keeps_intros)

lemma locate_after:
  "(\<And>st f. file_at s st i = Some f \<Longrightarrow> Q (Some st) s) \<Longrightarrow> ((\<And>st. file_at s st i = None) \<Longrightarrow> Q None s) \<Longrightarrow>
     (\<And>e. E e s) \<Longrightarrow> after (locate i) Q E s"
proof -
  assume some: "\<And>st f. file_at s st i = Some f \<Longrightarrow> Q (Some st) s" and none: "(\<And>st. file_at s st i = None) \<Longrightarrow> Q None s"
    and e: "\<And>e. E e s"
  let ?found = "filter (\<lambda>st. file_at s st i \<noteq> None) job_states"
  show ?thesis
  proof (cases ?found)
    case Nil
    then have "file_at s st i = None" for st using job_states_all [of st] by (auto simp: filter_empty_conv)
    with Nil none show ?thesis by (simp add: after_def locate_def)
  next
    case (Cons st sts)
    then have "st \<in> set ?found" by simp
    then obtain f where "file_at s st i = Some f" by auto
    with Cons some e show ?thesis by (auto simp: after_def locate_def split: list.split)
  qed
qed

lemma write_record_checks:
  "(valid_record r \<Longrightarrow> after (write_record st r) Q E s) \<Longrightarrow> (\<And>e. E e s) \<Longrightarrow> after (write_record st r) Q E s"
  by (cases "valid_record r") (simp_all add: write_record_def)

lemma fresh_job_ok:
  assumes "fresh_job cfg now bytes input providerId actor r" and "0 < jc_attempts cfg" and "valid_record r"
  shows "record_ok cfg (jr_jobId r) r" and "jr_state r = Pending" and "placed DeadLetter r"
  using assms by (auto simp: fresh_job_def new_record_def Let_def record_ok_def shape_def package_intact_def placed_def may_be_pruned_def)

lemma queue_locked_keeps:
  assumes fresh: "fresh_job cfg (je_now env) bytes input providerId actor r" and limit: "0 < jc_attempts cfg"
    and cmd: "cmd = QueueJob bytes input providerId actor"
  shows "keeps (kept cfg (job_step cfg env cmd) s0) (queue_locked cfg env (jr_jobId r) r)"
proof -
  let ?K = "kept cfg (job_step cfg env cmd) s0"
  let ?i = "jr_jobId r"
  have again: "after (write_and_move st Pending r) (\<lambda>_. ?K) (\<lambda>_. ?K) s"
    if k: "?K s" and f: "file_at s st ?i = Some (SealedFile (record_aad ?i) r0)" and r0: "record_ok cfg ?i r0" "placed st r0"
      "jr_state r0 = DeadLetter" for s st r0
  proof (cases "valid_record r")
    case True
    have "job_step cfg env cmd (job_at s ?i) (Some r)"
      using job_at_stored [OF kept_inv [OF k] f] fresh r0 cmd by (auto simp: record_ok_def intro: js_requeued)
    moreover have "placed st r" using r0 fresh_job_ok(3) [OF fresh limit True] by (auto simp: placed_def)
    ultimately show ?thesis
      by (intro after_weaken [OF write_and_move_after [OF k f fresh_job_ok(1) [OF fresh limit True]]]) auto
  qed (use k in \<open>auto simp: write_and_move_def write_record_def\<close>)
  have first: "after (write_record Pending r) (\<lambda>_. ?K) (\<lambda>_. ?K) s" if k: "?K s" and none: "\<And>st. file_at s st ?i = None" for s
  proof (rule write_record_checks)
    assume v: "valid_record r"
    have "job_step cfg env cmd (job_at s ?i) (Some r)"
      using js_queued [OF cmd fresh] job_at_None [OF kept_inv [OF k], of ?i] none by simp
    then show "after (write_record Pending r) (\<lambda>_. ?K) (\<lambda>_. ?K) s"
      by (intro after_weaken [OF write_record_after [OF k fresh_job_ok(1) [OF fresh limit v]]]) (auto simp: none)
  qed (use k in simp)
  have "keeps ?K (queued_result b r')" for b r'
    unfolding queued_result_def by (intro keeps_intros)
  then have res: "after (queued_result b r') (\<lambda>_. ?K) (\<lambda>_. ?K) s" if "?K s" for b r' s
    using that by (simp add: keeps_after)
  have body: "after (bindS (locate ?i) (\<lambda>existing. case existing of
       Some st \<Rightarrow> bindS (read_record st ?i) (\<lambda>r0.
         bindS (liftS (decrypt_management r0)) (\<lambda>m.
         if jr_state r0 \<noteq> DeadLetter then
           returnS \<lparr>qr_queued = False, qr_duplicate = True, qr_requeued = False, qr_job = public_job_of r0 m\<rparr>
         else bindS (write_and_move st Pending r) (\<lambda>_. queued_result True r)))
     | None \<Rightarrow> bindS (write_record Pending r) (\<lambda>_. queued_result False r))) (\<lambda>_. ?K) (\<lambda>_. ?K) s" if k: "?K s" for s
    unfolding after_bindS
  proof (rule locate_after, goal_cases)
    case (1 st f)
    show ?case unfolding option.case after_bindS
    proof (rule read_record_after [OF kept_inv [OF k]], goal_cases)
      case (1 r0)
      show ?case
        by (rule after_liftS_I) (auto simp: k intro!: after_weaken [OF again [OF k 1(1-3)]] res)
    qed (rule k)
  next
    case 2
    then show ?case by (auto intro!: after_weaken [OF first [OF k]] res)
  qed (rule k)
  show ?thesis unfolding queue_locked_def
    by (rule keeps_bindS [OF machine.repair_keeps], rule keepsI, rule body)
qed

lemma queue_job_keeps:
  assumes "0 < jc_attempts cfg" and "cmd = QueueJob bytes input providerId actor"
  shows "keeps (kept cfg (job_step cfg env cmd) s0) (queue_job cfg env bytes input providerId actor)"
proof (rule keepsI)
  fix s assume k: "kept cfg (job_step cfg env cmd) s0 s"
  have "after (locked env (queue_locked cfg env
        (job_id_for (jc_sha cfg) (cr_tenantId c) (cr_evidenceId c) (cr_version c) (cr_contentSha256 c) providerId)
        (new_record cfg (je_now env) c providerId d q
          (job_id_for (jc_sha cfg) (cr_tenantId c) (cr_evidenceId c) (cr_version c) (cr_contentSha256 c) providerId))))
      (\<lambda>_. kept cfg (job_step cfg env cmd) s0) (\<lambda>_. kept cfg (job_step cfg env cmd) s0) s"
    if "validate_content_record (jc_sha cfg) bytes input = Inr c" "provider_for cfg providerId = Inr p"
      "latest_delivery_key p = Inr d" "job_identifier actor ''actor'' = Inr q" for c p d q
  proof -
    let ?i = "job_id_for (jc_sha cfg) (cr_tenantId c) (cr_evidenceId c) (cr_version c) (cr_contentSha256 c) providerId"
    let ?r = "new_record cfg (je_now env) c providerId d q ?i"
    have "fresh_job cfg (je_now env) bytes input providerId actor ?r" using that unfolding fresh_job_def by blast
    moreover have "jr_jobId ?r = ?i" by (simp add: new_record_def Let_def)
    ultimately have "keeps (kept cfg (job_step cfg env cmd) s0) (queue_locked cfg env ?i ?r)"
      using queue_locked_keeps [of cfg env bytes input providerId actor ?r] assms by simp
    then show ?thesis unfolding locked_def by (intro keeps_afterD [OF keeps_with_lock] k)
  qed
  then show "after (queue_job cfg env bytes input providerId actor)
      (\<lambda>_. kept cfg (job_step cfg env cmd) s0) (\<lambda>_. kept cfg (job_step cfg env cmd) s0) s"
    unfolding queue_job_def Let_def by (simp add: after_liftS k split: sum.split)
qed

lemma claim_one_keeps:
  assumes cmd: "cmd = ClaimJobs body headers" and auth: "authenticate_scan cfg (je_now env) body headers = Inr auth"
  shows "keeps (kept cfg (job_step cfg env cmd) s0) (claim_one cfg env (sa_providerId auth) i)"
proof (rule keepsI)
  let ?K = "kept cfg (job_step cfg env cmd) s0"
  fix s assume k: "?K s"
  have dead: "after (move_to_dead cfg env Pending ''job_expired'' r) (\<lambda>_. ?K) (\<lambda>_. ?K) s"
    if f: "file_at s Pending i = Some (SealedFile (record_aad i) r)" and r: "record_ok cfg i r"
      and "jr_state r = Pending" "jr_expiresAt r \<le> je_now env" for r
    using that by (intro machine.move_to_dead_after [OF k f r]) (auto simp: reason_codes cmd intro: js_expired)
  have handed: "after (write_and_move Pending Inflight (claimed_record cfg env r)) (\<lambda>_. ?K) (\<lambda>_. ?K) s"
    if f: "file_at s Pending i = Some (SealedFile (record_aad i) r)" and r: "record_ok cfg i r" and p: "jr_state r = Pending"
      and "jr_providerId r = JStr (sa_providerId auth)" "\<not> je_now env < jr_nextAttemptAt r" "\<not> jr_expiresAt r \<le> je_now env"
      "package_intact cfg r" for r
  proof -
    have "job_step cfg env cmd (job_at s i) (Some (claimed_record cfg env r))"
      using that auth cmd job_at_stored [OF kept_inv [OF k] f] by (auto intro: js_claimed)
    then show ?thesis by (intro after_weaken [OF write_and_move_after [OF k f record_ok_claimed [OF r p]]]) auto
  qed
  have intact: "package_intact cfg r" if "record_ok cfg i r" "jr_state r = Pending" for r
    using that by (auto simp: record_ok_def shape_def)
  show "after (claim_one cfg env (sa_providerId auth) i) (\<lambda>_. ?K) (\<lambda>_. ?K) s"
    unfolding claim_one_def after_bindS
  proof (rule read_record_after [OF kept_inv [OF k]], goal_cases)
    case (1 r)
    then show ?case using k dead [OF 1(1,2)] handed [OF 1(1,2)] intact [OF 1(2)] by auto
  qed (rule k)
qed

lemma claim_loop_keeps:
  assumes "\<And>i. keeps P (claim_one cfg env p i)"
  shows "keeps P (claim_loop cfg env p n names)"
  by (induction names arbitrary: n) (auto intro!: keeps_intros assms split: option.split)

lemma claim_signed_keeps:
  assumes cmd: "cmd = ClaimJobs body headers"
  shows "keeps (kept cfg (job_step cfg env cmd) s0) (claim_signed cfg env body headers)"
proof (rule keepsI)
  let ?K = "kept cfg (job_step cfg env cmd) s0"
  fix s assume k: "?K s"
  have "after (signed_section cfg env auth (bindS (getS (\<lambda>s. job_names s Pending)) (\<lambda>names.
        bindS (claim_loop cfg env (sa_providerId auth) n names) (\<lambda>claimed. returnS (sa_providerId auth, claimed)))))
      (\<lambda>_. ?K) (\<lambda>_. ?K) s"
    if "authenticate_scan cfg (je_now env) body headers = Inr auth" for auth n
    by (intro keeps_afterD [OF signed_section_keeps] keeps_intros claim_loop_keeps claim_one_keeps [OF cmd that] k)
  then show "after (claim_signed cfg env body headers) (\<lambda>_. ?K) (\<lambda>_. ?K) s"
    unfolding claim_signed_def after_bindS by (intro after_liftS_I) (simp_all add: k)
qed

lemma strict_json_parsed:
  assumes "strict_json parse body allowed = Inr v"
  shows "parse (if body = [] then ''{}'' else body) = Some v" and "is_plain_object v"
proof -
  from assms obtain w where "parse (if body = [] then ''{}'' else body) = Some w"
    and "(case w of JObj kvs \<Rightarrow> (case find (\<lambda>kv. fst kv \<notin> set allowed) kvs of
            None \<Rightarrow> Inr w | Some kv \<Rightarrow> Inl (JobValidation (fst kv))) | _ \<Rightarrow> Inl (JobValidation ''body'')) = Inr v"
    unfolding strict_json_def by (auto simp del: option.case_eq_if)
  then show "parse (if body = [] then ''{}'' else body) = Some v" and "is_plain_object v"
    by (cases w; auto split: option.splits)+
qed

lemma owned_claim_after:
  assumes k: "kept cfg T s0 s" and auth: "authenticate_scan cfg (je_now env) body headers = Inr auth"
    and input: "strict_json (jc_parse cfg) body allowed = Inr input"
    and token: "job_identifier (js_get input ''claimToken'') ''claimToken'' = Inr token" and id: "safe_job_id jobId = Inr i"
    and Q: "\<And>r. file_at s Inflight i = Some (SealedFile (record_aad i) r) \<Longrightarrow> record_ok cfg i r \<Longrightarrow> jr_state r = Inflight \<Longrightarrow>
      owns_claim cfg (je_now env) body headers jobId r \<Longrightarrow> Q r s"
  shows "after (read_owned_claim env i (sa_providerId auth) token) Q (\<lambda>_. kept cfg T s0) s"
proof -
  have parsed: "jc_parse cfg (if body = [] then ''{}'' else body) = Some input"
    using input by (rule strict_json_parsed(1))
  have t: "token = trimmed (js_get input ''claimToken'')" "i = ev_text jobId"
    using token id by (auto simp: job_identifier_def safe_job_id_def Let_def)
  show ?thesis unfolding read_owned_claim_def after_bindS
    by (rule read_record_after [OF kept_inv [OF k]])
      (use k auth parsed t in \<open>auto simp: owns_claim_def record_ok_def intro!: Q\<close>)
qed

lemma acknowledge_signed_keeps:
  assumes cmd: "cmd = AcknowledgeJob jobId body headers"
  shows "keeps (kept cfg (job_step cfg env cmd) s0) (acknowledge_signed cfg env jobId body headers)"
proof (rule keepsI)
  let ?K = "kept cfg (job_step cfg env cmd) s0"
  fix s assume k: "?K s"
  have acked: "after (write_and_move Inflight Delivered (delivered_record (je_now env) r)) (\<lambda>_. ?K) (\<lambda>_. ?K) s"
    if k: "?K s" and f: "file_at s Inflight i = Some (SealedFile (record_aad i) r)" and r: "record_ok cfg i r"
      and own: "owns_claim cfg (je_now env) body headers jobId r" for s i r
    using js_acknowledged [OF cmd own] job_at_stored [OF kept_inv [OF k] f]
    by (intro after_weaken [OF write_and_move_after [OF k f record_ok_delivered [OF r]]]) auto
  have public: "after (public_of_record r) (\<lambda>_. ?K) (\<lambda>_. ?K) s" if "?K s" for r s
    using that public_of_record_keeps [of ?K r] by (simp add: keeps_after)
  have body: "keeps ?K (bindS (liftS (safe_job_id jobId)) (\<lambda>i.
      bindS (read_owned_claim env i (sa_providerId auth) token) (\<lambda>r.
      bindS (write_and_move Inflight Delivered (delivered_record (je_now env) r)) (\<lambda>_.
      public_of_record (delivered_record (je_now env) r)))))"
    if "authenticate_scan cfg (je_now env) body headers = Inr auth"
      "strict_json (jc_parse cfg) body [''claimToken''] = Inr input"
      "job_identifier (js_get input ''claimToken'') ''claimToken'' = Inr token" for auth input token
    unfolding keeps_after after_bindS
    by (intro allI impI after_liftS_I owned_claim_after [OF _ that]) (auto intro!: public after_weaken [OF acked])
  show "after (acknowledge_signed cfg env jobId body headers) (\<lambda>_. ?K) (\<lambda>_. ?K) s"
    unfolding acknowledge_signed_def after_bindS
    by (intro after_liftS_I keeps_afterD [OF signed_section_keeps [OF body]]) (simp_all add: k)
qed

lemma fail_claimed_after:
  assumes k: "kept cfg (job_step cfg env cmd) s0 s" and cmd: "cmd = FailJob jobId body headers"
    and f: "file_at s Inflight i = Some (SealedFile (record_aad i) r)" and r: "record_ok cfg i r" "jr_state r = Inflight"
    and own: "owns_claim cfg (je_now env) body headers jobId r"
  shows "after (fail_claimed cfg env retryable reason r)
    (\<lambda>_. kept cfg (job_step cfg env cmd) s0) (\<lambda>_. kept cfg (job_step cfg env cmd) s0) s"
proof -
  let ?K = "kept cfg (job_step cfg env cmd) s0"
  have public: "after (public_of_record r) (\<lambda>_. ?K) (\<lambda>_. ?K) s" if "?K s" for r s
    using that public_of_record_keeps [of ?K r] by (simp add: keeps_after)
  have again: "after (write_and_move Inflight Pending (back_to_pending (je_now env) (RetryResult reason) r))
      (\<lambda>_. ?K) (\<lambda>_. ?K) s" if less: "jr_attempts r < jc_attempts cfg"
    using js_retried [OF cmd own less] job_at_stored [OF kept_inv [OF k] f]
    by (intro after_weaken [OF write_and_move_after [OF k f record_ok_pending [OF r less]]]) auto
  have "after (move_to_dead cfg env Inflight reason r) (\<lambda>_. ?K) (\<lambda>_. ?K) s"
    using js_failed [OF cmd own] by (intro machine.move_to_dead_after [OF k f r(1)]) auto
  then show ?thesis unfolding fail_claimed_def
    by (auto intro!: public elim!: after_weaken after_weaken [OF again])
qed

lemma fail_signed_keeps:
  assumes cmd: "cmd = FailJob jobId body headers"
  shows "keeps (kept cfg (job_step cfg env cmd) s0) (fail_signed cfg env jobId body headers)"
proof (rule keepsI)
  let ?K = "kept cfg (job_step cfg env cmd) s0"
  fix s assume k: "?K s"
  have body: "keeps ?K (bindS (liftS (safe_job_id jobId)) (\<lambda>i.
      bindS (read_owned_claim env i (sa_providerId auth) token) (fail_claimed cfg env retryable reason)))"
    if "authenticate_scan cfg (je_now env) body headers = Inr auth"
      "strict_json (jc_parse cfg) body [''claimToken'', ''retryable'', ''reasonCode''] = Inr input"
      "job_identifier (js_get input ''claimToken'') ''claimToken'' = Inr token" for auth input token retryable reason
    unfolding keeps_after after_bindS
    by (intro allI impI after_liftS_I owned_claim_after [OF _ that]) (auto intro!: fail_claimed_after cmd)
  show "after (fail_signed cfg env jobId body headers) (\<lambda>_. ?K) (\<lambda>_. ?K) s"
    unfolding fail_signed_def after_bindS
    by (intro after_liftS_I keeps_afterD [OF signed_section_keeps [OF body]]) (simp_all add: k)
qed

lemma complete_located_after:
  assumes k: "kept cfg (job_step cfg env cmd) s0 s" and cmd: "cmd = CompleteJob (Some a)"
  shows "after (complete_located cfg env a (attested_job cfg a) st)
    (\<lambda>_. kept cfg (job_step cfg env cmd) s0) (\<lambda>_. kept cfg (job_step cfg env cmd) s0) s"
proof -
  let ?K = "kept cfg (job_step cfg env cmd) s0"
  let ?i = "attested_job cfg a"
  have completed: "after (write_and_move st Completed (completed_record (je_now env) a r)) (\<lambda>_. ?K) (\<lambda>_. ?K) s"
    if f: "file_at s st ?i = Some (SealedFile (record_aad ?i) r)" and r: "record_ok cfg ?i r" "placed st r"
      and m: "decrypt_management r = Inr m" "attestation_matches a r m" "jr_state r \<noteq> Completed" for r m
  proof -
    have "job_step cfg env cmd (job_at s ?i) (Some (completed_record (je_now env) a r))"
      using js_completed [OF cmd _ m] job_at_stored [OF kept_inv [OF k] f] r by (simp add: record_ok_def)
    moreover have "placed st (completed_record (je_now env) a r)" "placed Completed (completed_record (je_now env) a r)"
      by (simp_all add: placed_def may_be_pruned_def)
    ultimately show ?thesis
      by (intro after_weaken [OF write_and_move_after [OF k f record_ok_completed [OF r(1)]]]) auto
  qed
  have prune: "after (prune_terminal Completed n field) (\<lambda>_. ?K) (\<lambda>_. ?K) s" if "?K s" for n field s
    using that machine.prune_terminal_keeps [of Completed cfg env cmd s0 n field] by (simp add: keeps_after)
  show ?thesis unfolding complete_located_def after_bindS Let_def
  proof (rule read_record_after [OF kept_inv [OF k]], goal_cases)
    case (1 r)
    show ?case
      by (rule after_liftS_I) (auto simp: k intro!: prune elim!: after_weaken after_weaken [OF completed [OF 1]])
  qed (rule k)
qed

lemma complete_keeps:
  assumes "cmd = CompleteJob attestation"
  shows "keeps (kept cfg (job_step cfg env cmd) s0) (complete_from_attestation cfg env attestation)"
proof -
  let ?K = "kept cfg (job_step cfg env cmd) s0"
  have located: "keeps ?K (complete_located cfg env a (attested_job cfg a) st)" if "attestation = Some a" for a st
    using assms that by (auto simp: keeps_after intro: complete_located_after)
  have "keeps ?K (locate i)" for i by (simp add: keeps_def locate_def)
  then show ?thesis unfolding complete_from_attestation_def locked_def
    by (cases attestation) (auto intro!: keeps_intros machine.repair_keeps located split: option.split)
qed

lemma list_jobs_keeps: "keeps (kept cfg (job_step cfg env cmd) s0) (list_jobs cfg env tenantId evidenceId limit)"
  unfolding list_jobs_def locked_def read_rows_def read_row_def
  by (intro keeps_intros machine.repair_keeps machine.read_record_keeps)

lemma verify_outbox_keeps: "keeps (kept cfg (job_step cfg env cmd) s0) (verify_outbox cfg env tenantId)"
  unfolding verify_outbox_def locked_def read_row_def verify_row_def
  by (intro keeps_intros machine.repair_keeps machine.read_record_keeps)

lemma health_keeps: "keeps (kept cfg (job_step cfg env cmd) s0) (outbox_health_of cfg env)"
  unfolding outbox_health_of_def locked_def by (intro keeps_intros machine.repair_keeps)

lemma start_keeps: "keeps (kept cfg (job_step cfg env cmd) s0) (start_outbox cfg env)"
  unfolding start_outbox_def locked_def by (intro keeps_intros machine.repair_keeps)

subsection \<open>The janitor\<close>

lemma janitor_read_after:
  assumes "outbox_inv cfg s"
    and "\<And>r. file_at s st i = Some (SealedFile (record_aad i) r) \<Longrightarrow> record_ok cfg i r \<Longrightarrow> placed st r \<Longrightarrow> Q r s"
    and "\<And>e. E e s"
  shows "after (janitor_read st i) Q E s"
proof (cases "file_at s st i")
  case None
  then show ?thesis using assms(3) by (auto simp: after_def janitor_read_def split: sum.split)
next
  case (Some f)
  with inv_file [OF assms(1) Some] obtain r where "f = SealedFile (record_aad i) r" "record_ok cfg i r" "placed st r"
    by (auto simp: file_ok_def)
  with Some assms(2,3) show ?thesis
    by (auto simp: after_def janitor_read_def janitor_parse_def record_ok_def split: sum.split)
qed

lemma expire_one_keeps:
  assumes st: "st = Pending \<or> st = Delivered"
  shows "keeps (kept cfg (job_step cfg env Maintain) s0) (expire_one (je_now env) st i)"
proof (rule keepsI)
  let ?K = "kept cfg (job_step cfg env Maintain) s0"
  define reason where "reason = (if st = Pending then ''job_expired'' else ''attestation_timeout'')"
  fix s assume k: "?K s"
  have dead: "after (janitor_to_dead (je_now env) st reason r) (\<lambda>_. ?K) (\<lambda>_. ?K) s"
    if f: "file_at s st i = Some (SealedFile (record_aad i) r)" and r: "record_ok cfg i r" "jr_state r = st"
      and expired: "jr_expiresAt r \<le> je_now env" for r
  proof -
    let ?d = "dead_record (je_now env) reason r"
    have step: "job_step cfg env Maintain (job_at s i) (Some ?d)"
      using st r expired job_at_stored [OF kept_inv [OF k] f]
      by (auto simp: reason_def intro: js_expired js_attestation_timeout)
    have i: "jr_jobId r = i" using r by (simp add: record_ok_def)
    have good: "file_ok cfg DeadLetter i (SealedFile (record_aad i) ?d)"
      using record_ok_dead [OF r(1)] by (simp add: file_ok_def placed_def may_be_pruned_def)
    have only: "b = st" if "file_at s b i \<noteq> None" for b using kept_inv [OF k] f that unfolding outbox_inv_def by blast
    have there: "placed st ?d" using st by auto
    show ?thesis unfolding janitor_to_dead_def i using k
      by (auto intro!: after_weaken [OF put_file_after [OF k record_ok_dead [OF r(1)] there only step]]
          after_weaken [OF rename_file_after [OF _ _ good]])
  qed
  show "after (expire_one (je_now env) st i) (\<lambda>_. ?K) (\<lambda>_. ?K) s"
    unfolding expire_one_def after_bindS reason_def [symmetric]
    by (rule janitor_read_after [OF kept_inv [OF k]]) (use dead in \<open>auto simp: k not_less\<close>)
qed

lemma janitor_reconcile_keeps: "keeps (kept cfg T s0) janitor_reconcile"
proof -
  have "after (janitor_reconcile_one st i) (\<lambda>_. kept cfg T s0) (\<lambda>_. kept cfg T s0) s" if k: "kept cfg T s0 s" for st i s
    unfolding janitor_reconcile_one_def after_bindS
    by (rule janitor_read_after [OF kept_inv [OF k]])
      (auto simp: k file_ok_def placed_own intro!: after_weaken [OF rename_file_after [OF k]])
  then have "keeps (kept cfg T s0) (janitor_reconcile_one st i)" for st i
    by (simp add: keeps_after)
  then show ?thesis unfolding janitor_reconcile_def by (intro keeps_intros)
qed

lemma run_janitor_keeps: "keeps (kept cfg (job_step cfg env Maintain) s0) (run_janitor n env)"
  unfolding run_janitor_def locked_def expire_state_def prune_dead_letters_def
  by (intro keeps_intros janitor_reconcile_keeps expire_one_keeps machine.remove_file_keeps) simp_all

subsection \<open>Histories\<close>

lemma kept_run: "outbox_inv cfg s \<Longrightarrow> keeps (kept cfg T s) m \<Longrightarrow> kept cfg T s (fst (m s))"
  using kept_refl by (auto simp: keeps_def)

lemma command_keeps:
  assumes "0 < jc_attempts cfg" and "outbox_inv cfg s"
  shows "kept cfg (job_step cfg env cmd) s (run_outbox cfg env cmd s)"
proof -
  show ?thesis using assms(1)
    by (cases cmd) (auto intro!: kept_run [OF assms(2)] start_keeps queue_job_keeps claim_signed_keeps
        acknowledge_signed_keeps fail_signed_keeps complete_keeps list_jobs_keeps verify_outbox_keeps health_keeps run_janitor_keeps)
qed

definition no_jobs :: "job_files" where
  "no_jobs = \<lparr>jf_dirs = (\<lambda>_. []), jf_replays = [], jf_writes = [], jf_moves = []\<rparr>"

text \<open>Every command draws the outcomes of its file-system calls anew.\<close>

inductive outbox_reachable :: "job_config \<Rightarrow> job_files \<Rightarrow> bool" for cfg where
  or_start: "outbox_reachable cfg no_jobs"
| or_run: "outbox_reachable cfg s \<Longrightarrow>
     outbox_reachable cfg (run_outbox cfg env cmd (s\<lparr>jf_writes := ws, jf_moves := ms\<rparr>))"

lemma outbox_reachable_inv:
  assumes "outbox_reachable cfg s" and "0 < jc_attempts cfg"
  shows "outbox_inv cfg s"
  using assms(1)
proof induction
  case or_start
  then show ?case by (simp add: outbox_inv_def no_jobs_def file_at_def)
next
  case (or_run s env cmd ms ws)
  then show ?case using command_keeps [OF assms(2), of "s\<lparr>jf_writes := ws, jf_moves := ms\<rparr>" env cmd] by (simp add: kept_def)
qed

end
