(* ===== verification/ScanSample.thy ===== *)
theory ScanSample
  imports ScanJobLife
begin

section \<open>A small outbox\<close>

text \<open>One provider and one job, queued and claimed: the concrete states that the theorems are applied to.\<close>

definition sample_digest :: string where
  "sample_digest = replicate 64 (CHR ''a'')"

definition sample_scan_config :: job_config where
  "sample_scan_config = \<lparr>jc_ttlMinutes = 1, jc_leaseMs = 1000, jc_attempts = 2, jc_completedLimit = 100,
     jc_deadLimit = 1, jc_skewSeconds = 1, jc_required = True,
     jc_providers = [(''av'', \<lparr>pv_hmacKeys = [(''k1'', ''secret'')], pv_deliveryKeys = [(''r1'', ''pem'')]\<rparr>)],
     jc_sha = (\<lambda>_. sample_digest), jc_hmac = (\<lambda>_ _. sample_digest), jc_packageHash = (\<lambda>_. sample_digest),
     jc_parse = (\<lambda>t. if t = ''ack'' then Some (JObj [(''claimToken'', JStr ''other'')]) else Some (JObj [])),
     jc_date = (\<lambda>_. Some 1000), jc_iso = int_text\<rparr>"

definition sample_env_at :: "int \<Rightarrow> job_env" where
  "sample_env_at t = \<lparr>je_now = t, je_lock = Acquired, je_claimToken = (\<lambda>i. ''token'')\<rparr>"

definition sample_scan_headers :: "string \<Rightarrow> jsval" where
  "sample_scan_headers n = (if n = ''x-basitclaw-scan-provider'' then JStr ''av''
     else if n = ''x-basitclaw-scan-key-id'' then JStr ''k1''
     else if n = ''x-basitclaw-scan-timestamp'' then JStr ''now''
     else if n = ''x-basitclaw-scan-nonce'' then JStr ''nonce-0123456789''
     else if n = ''x-basitclaw-scan-signature'' then JStr sample_digest else JUndef)"

definition sample_queue :: outbox_command where
  "sample_queue = QueueJob (Some ''bytes'') (JObj [(''tenantId'', JStr ''tenant-a''),
     (''evidenceId'', JStr (''EVD-'' @ replicate 32 (CHR ''b''))), (''version'', JInt 1),
     (''contentSha256'', JStr sample_digest), (''sizeBytes'', JInt 5)]) (JStr ''av'') (JStr ''manager'')"

definition sample_claim :: outbox_command where
  "sample_claim = ClaimJobs ''{}'' sample_scan_headers"

definition sample_job_id :: string where
  "sample_job_id = ''SCNJOB-'' @ replicate 32 (CHR ''a'')"

definition sample_queued :: job_files where
  "sample_queued = run_outbox sample_scan_config (sample_env_at 0) sample_queue (no_jobs\<lparr>jf_writes := [], jf_moves := []\<rparr>)"

definition sample_claimed :: job_files where
  "sample_claimed = run_outbox sample_scan_config (sample_env_at 1) sample_claim (sample_queued\<lparr>jf_writes := [], jf_moves := []\<rparr>)"

lemma sample_outbox_reachable: "outbox_reachable sample_scan_config sample_queued" "outbox_reachable sample_scan_config sample_claimed"
proof -
  show "outbox_reachable sample_scan_config sample_queued"
    unfolding sample_queued_def by (rule or_run [OF or_start])
  then show "outbox_reachable sample_scan_config sample_claimed"
    unfolding sample_claimed_def by (rule or_run)
qed

lemma sample_limit: "0 < jc_attempts sample_scan_config"
  by (simp add: sample_scan_config_def)

definition job_facts :: "job_record \<Rightarrow> job_state \<times> int \<times> int \<times> string option" where
  "job_facts r = (jr_state r, jr_expiresAt r, claim_deadline r, jr_claimToken r)"

lemma sample_queued_job: "map_option job_facts (job_at sample_queued sample_job_id) = Some (Pending, 60000, 0, None)"
  by code_simp

lemma sample_claimed_job:
  "map_option job_facts (job_at sample_claimed sample_job_id) = Some (Inflight, 60000, 1001, Some ''token'')"
  by code_simp

lemma sample_jobs:
  obtains r r' where "job_at sample_queued sample_job_id = Some r" "jr_state r = Pending" "jr_expiresAt r = 60000"
    and "job_at sample_claimed sample_job_id = Some r'" "jr_state r' = Inflight" "claim_deadline r' = 1001"
    "jr_claimToken r' = Some ''token''"
  using sample_queued_job sample_claimed_job by (auto simp: job_facts_def)

end
