(* ===== verification/ScanDelivery.thy ===== *)
theory ScanDelivery
  imports ScanSample
begin

section \<open>What the delivery of scan jobs guarantees\<close>

text \<open>
  Theorems on the outbox over all histories of commands with any failing file-system calls: the
  refinement of the job machine, where sealed content is kept, the exclusiveness of a live claim,
  the single use of a signed request, the byte budget of a claim; and two defects.
\<close>

subsection \<open>A live claim\<close>

lemma live_claim_step:
  assumes "job_step cfg env cmd (Some r) x" and "jr_state r = Inflight" and "je_now env < claim_deadline r"
  shows "(\<exists>jobId body headers. cmd \<in> {AcknowledgeJob jobId body headers, FailJob jobId body headers}
        \<and> owns_claim cfg (je_now env) body headers jobId r)
    \<or> (\<exists>a m. cmd = CompleteJob (Some a) \<and> jr_jobId r = attested_job cfg a \<and> decrypt_management r = Inr m
        \<and> attestation_matches a r m)"
  using assms(1)
proof (rule job_step_someE)
  fix jobId body headers
  assume "cmd = AcknowledgeJob jobId body headers" "owns_claim cfg (je_now env) body headers jobId r"
  then show ?thesis by blast
next
  fix jobId body headers
  assume "cmd = FailJob jobId body headers" "owns_claim cfg (je_now env) body headers jobId r"
  then show ?thesis by blast
next
  fix jobId body headers reason
  assume "cmd = FailJob jobId body headers" "owns_claim cfg (je_now env) body headers jobId r"
  then show ?thesis by blast
next
  fix a m
  assume "cmd = CompleteJob (Some a)" "jr_jobId r = attested_job cfg a" "decrypt_management r = Inr m" "attestation_matches a r m"
  then show ?thesis by blast
qed (use assms(2,3) in \<open>auto simp: may_be_pruned_def\<close>)

text \<open>
  C5. While a claim is live, a job in flight changes only by an acknowledgement or a failure that the
  claiming provider signed and that names the claim token, or by an attestation of exactly this
  content by this provider. Every other command, another claim and the recovery of claims
  included, leaves the record as it is, whatever file-system calls fail.
\<close>

theorem live_claim_is_exclusive:
  assumes reach: "outbox_reachable cfg s" and limit: "0 < jc_attempts cfg"
    and r: "job_at s i = Some r" "jr_state r = Inflight" "je_now env < claim_deadline r"
    and foreign: "\<And>jobId body headers. cmd \<in> {AcknowledgeJob jobId body headers, FailJob jobId body headers} \<Longrightarrow>
        \<not> owns_claim cfg (je_now env) body headers jobId r"
    and unattested: "\<And>a m. cmd = CompleteJob (Some a) \<Longrightarrow> decrypt_management r = Inr m \<Longrightarrow>
        jr_jobId r = attested_job cfg a \<Longrightarrow> \<not> attestation_matches a r m"
  shows "job_at (run_outbox cfg env cmd (s\<lparr>jf_writes := ws, jf_moves := ms\<rparr>)) i = Some r"
proof -
  let ?s = "s\<lparr>jf_writes := ws, jf_moves := ms\<rparr>"
  have "kept cfg (job_step cfg env cmd) ?s (run_outbox cfg env cmd ?s)"
    using outbox_reachable_inv [OF reach limit] by (intro command_keeps [OF limit]) simp
  then have "(job_step cfg env cmd)\<^sup>*\<^sup>* (Some r) (job_at (run_outbox cfg env cmd ?s) i)"
    unfolding kept_def using r by (metis job_at_draws(1,2))
  then show ?thesis
  proof (cases rule: converse_rtranclpE)
    case (step x)
    with live_claim_step [OF step(1) r(2,3)] foreign unattested show ?thesis by blast
  qed simp
qed

theorem live_claim_is_exclusive_witness:
  "\<exists>r. job_at sample_claimed sample_job_id = Some r \<and> jr_state r = Inflight
    \<and> job_at (run_outbox sample_scan_config (sample_env_at 500)
        (AcknowledgeJob (JStr sample_job_id) ''ack'' sample_scan_headers) (sample_claimed\<lparr>jf_writes := [], jf_moves := [False]\<rparr>))
        sample_job_id = Some r"
proof -
  obtain r where r: "job_at sample_claimed sample_job_id = Some r" "jr_state r = Inflight" "claim_deadline r = 1001"
    "jr_claimToken r = Some ''token''" by (rule sample_jobs)
  have "trimmed (JStr ''other'') \<noteq> ''token''" by code_simp
  then have "\<not> owns_claim sample_scan_config (je_now (sample_env_at 500)) ''ack'' sample_scan_headers (JStr sample_job_id) r"
    using r(4) by (auto simp: owns_claim_def sample_scan_config_def)
  then show ?thesis
    using r live_claim_is_exclusive [OF sample_outbox_reachable(2) sample_limit r(1,2), where env = "sample_env_at 500"
        and cmd = "AcknowledgeJob (JStr sample_job_id) ''ack'' sample_scan_headers" and ws = "[]" and ms = "[False]"]
    by (auto simp: sample_env_at_def)
qed

text \<open>
  C6. Whatever file-system calls fail, a command takes every job along the steps of its life: queued
  or queued again from the dead letters; claimed by its provider while it is due, unexpired and
  intact; acknowledged, retried or failed by the owner of its live claim; returned when its claim
  has expired and attempts are left; moved to the dead letters when they are not or the job expired;
  completed by an attestation that matches it; removed only as a dead letter or a completed job, or as
  a pending job that was never claimed, which an interrupted requeue can leave among the dead letters
  (the steps allow its removal wherever it is).
\<close>

theorem jobs_follow_their_life:
  assumes "outbox_reachable cfg s" and "0 < jc_attempts cfg"
  shows "(job_step cfg env cmd)\<^sup>*\<^sup>* (job_at s i) (job_at (run_outbox cfg env cmd (s\<lparr>jf_writes := ws, jf_moves := ms\<rparr>)) i)"
proof -
  have "kept cfg (job_step cfg env cmd) (s\<lparr>jf_writes := ws, jf_moves := ms\<rparr>)
      (run_outbox cfg env cmd (s\<lparr>jf_writes := ws, jf_moves := ms\<rparr>))"
    using outbox_reachable_inv [OF assms] by (intro command_keeps [OF assms(2)]) simp
  then show ?thesis by (simp add: kept_def)
qed

theorem jobs_follow_their_life_witness:
  "(job_step sample_scan_config (sample_env_at 1) sample_claim)\<^sup>*\<^sup>*
     (job_at sample_queued sample_job_id) (job_at sample_claimed sample_job_id)
   \<and> map_option jr_state (job_at sample_queued sample_job_id) = Some Pending
   \<and> map_option jr_state (job_at sample_claimed sample_job_id) = Some Inflight"
proof -
  obtain r r' where "job_at sample_queued sample_job_id = Some r" "jr_state r = Pending"
    and "job_at sample_claimed sample_job_id = Some r'" "jr_state r' = Inflight" by (rule sample_jobs)
  then show ?thesis
    using jobs_follow_their_life [OF sample_outbox_reachable(1) sample_limit, of "sample_env_at 1" sample_claim sample_job_id "[]" "[]"]
    by (simp add: sample_claimed_def)
qed

text \<open>
  In every reachable outbox, crashes included, a job is in one directory only, its file opens
  under its own name, its package is there and intact exactly while it is pending or in flight, and
  it was handed out at most as often as the limit says.
\<close>

theorem content_waits_only_for_delivery:
  assumes "outbox_reachable cfg s" and "0 < jc_attempts cfg" and "file_at s st i = Some f"
  shows "\<exists>r. f = SealedFile (record_aad i) r \<and> jr_jobId r = i \<and> job_at s i = Some r
    \<and> (\<forall>b. file_at s b i \<noteq> None \<longrightarrow> b = st)
    \<and> (if jr_state r \<in> {Pending, Inflight} then package_intact cfg r else jr_package r = None)
    \<and> (jr_claimToken r = None \<longleftrightarrow> jr_state r \<noteq> Inflight)
    \<and> (jr_state r \<in> {Pending, Inflight} \<longrightarrow> jr_attempts r \<le> jc_attempts cfg)"
proof -
  have inv: "outbox_inv cfg s" by (rule outbox_reachable_inv [OF assms(1,2)])
  obtain r where r: "f = SealedFile (record_aad i) r" "record_ok cfg i r" "placed st r"
    using inv_file [OF inv assms(3)] by (auto simp: file_ok_def)
  have only: "b = st" if "file_at s b i \<noteq> None" for b using inv assms(3) that unfolding outbox_inv_def by blast
  show ?thesis
    using r job_at_stored [OF inv assms(3) [unfolded r(1)]] only
    by (intro exI [of _ r]) (cases "jr_state r"; auto simp: record_ok_def shape_def)
qed

theorem content_waits_only_for_delivery_witness:
  "\<exists>st f r. file_at sample_claimed st sample_job_id = Some f \<and> f = SealedFile (record_aad sample_job_id) r
    \<and> package_intact sample_scan_config r \<and> jr_attempts r \<le> 2"
proof -
  obtain r where r: "job_at sample_claimed sample_job_id = Some r" "jr_state r = Inflight" by (rule sample_jobs)
  have inv: "outbox_inv sample_scan_config sample_claimed" by (rule outbox_reachable_inv [OF sample_outbox_reachable(2) sample_limit])
  obtain st where f: "file_at sample_claimed st sample_job_id = Some (SealedFile (record_aad sample_job_id) r)"
    using inv r(1) by (rule job_at_SomeE)
  show ?thesis
    using content_waits_only_for_delivery [OF sample_outbox_reachable(2) sample_limit f] f r
    by (auto simp: sample_scan_config_def)
qed

subsection \<open>Signed requests\<close>

lemma keeps_replays_basic:
  "keeps (\<lambda>s. P (jf_replays s)) draw_write" "keeps (\<lambda>s. P (jf_replays s)) draw_move"
  "keeps (\<lambda>s. P (jf_replays s)) (read_record st i)" "keeps (\<lambda>s. P (jf_replays s)) (janitor_read st i)"
  "keeps (\<lambda>s. P (jf_replays s)) (locate i)" "keeps (\<lambda>s. P (jf_replays s)) (modifyS (set_dir st d))"
  by (auto simp: keeps_def draw_write_def draw_move_def read_record_def janitor_read_def locate_def set_dir_def modifyS_def
      split: list.split)

lemma keeps_replays_files:
  "keeps (\<lambda>s. P (jf_replays s)) (put_file st i f)" "keeps (\<lambda>s. P (jf_replays s)) (remove_file st i)"
  "keeps (\<lambda>s. P (jf_replays s)) (rename_file a b i)"
  unfolding put_file_def remove_file_def rename_file_def
  by (intro keeps_intros keeps_replays_basic keeps_modifyS; simp add: set_dir_def Let_def split: option.split)+

lemma keeps_replays_write: "keeps (\<lambda>s. P (jf_replays s)) (write_and_move a b r)"
  "keeps (\<lambda>s. P (jf_replays s)) (write_record a r)"
  unfolding write_and_move_def write_record_def by (intro keeps_intros keeps_replays_files)+

lemma keeps_replays_dead: "keeps (\<lambda>s. P (jf_replays s)) (move_to_dead cfg env st reason r)"
  unfolding move_to_dead_def prune_terminal_def Let_def
  by (intro keeps_intros keeps_replays_basic keeps_replays_files keeps_replays_write)

lemma keeps_replays_repair: "keeps (\<lambda>s. P (jf_replays s)) (repair cfg env sts)"
  unfolding repair_def reconcile_locations_def reconcile_dir_def reconcile_one_def recover_inflight_def recover_one_def
  by (intro keeps_intros keeps_replays_basic keeps_replays_files keeps_replays_write keeps_replays_dead)

lemmas keeps_replays = keeps_replays_basic keeps_replays_files keeps_replays_write keeps_replays_dead keeps_replays_repair

definition marked :: "string \<Rightarrow> replay_marker job_file \<Rightarrow> (string \<times> replay_marker job_file) list \<Rightarrow> bool" where
  "marked i f rs = (distinct (map fst rs) \<and> map_of rs i = Some f)"

lemma keeps_signed_section:
  "keeps (\<lambda>s. P (jf_replays s)) m \<Longrightarrow> keeps (\<lambda>s. P (jf_replays s)) (consume_replay cfg (je_now env) auth) \<Longrightarrow>
     keeps (\<lambda>s. P (jf_replays s)) (signed_section cfg env auth m)"
  unfolding signed_section_def locked_def by (intro keeps_intros keeps_replays)

lemma keeps_replays_claim: "keeps (\<lambda>s. P (jf_replays s)) (claim_loop cfg env p n names)"
  unfolding claim_one_def by (intro claim_loop_keeps) (unfold claim_one_def, intro keeps_intros keeps_replays)

lemma keeps_replays_commands:
  assumes "\<And>auth. keeps (\<lambda>s. P (jf_replays s)) (consume_replay cfg (je_now env) auth)"
  shows "P (jf_replays s) \<Longrightarrow> P (jf_replays (run_outbox cfg env cmd s))"
proof -
  have "keeps (\<lambda>s. P (jf_replays s)) (start_outbox cfg env)"
    unfolding start_outbox_def locked_def by (intro keeps_intros keeps_replays)
  moreover have "keeps (\<lambda>s. P (jf_replays s)) (queue_job cfg env bytes input p actor)" for bytes input p actor
    unfolding queue_job_def locked_def queue_locked_def queued_result_def Let_def by (intro keeps_intros keeps_replays)
  moreover have "keeps (\<lambda>s. P (jf_replays s)) (claim_signed cfg env body headers)" for body headers
    unfolding claim_signed_def by (intro keeps_intros keeps_signed_section keeps_replays_claim assms)
  moreover have "keeps (\<lambda>s. P (jf_replays s)) (acknowledge_signed cfg env jobId body headers)" for jobId body headers
    unfolding acknowledge_signed_def read_owned_claim_def by (intro keeps_intros keeps_signed_section keeps_replays assms)
  moreover have "keeps (\<lambda>s. P (jf_replays s)) (fail_signed cfg env jobId body headers)" for jobId body headers
    unfolding fail_signed_def read_owned_claim_def fail_claimed_def
    by (intro keeps_intros keeps_signed_section keeps_replays assms)
  moreover have "keeps (\<lambda>s. P (jf_replays s)) (complete_from_attestation cfg env a)" for a
    unfolding complete_from_attestation_def locked_def complete_located_def prune_terminal_def Let_def
    by (intro keeps_intros keeps_replays)
  moreover have "keeps (\<lambda>s. P (jf_replays s)) (list_jobs cfg env tenantId evidenceId limit)" for tenantId evidenceId limit
    unfolding list_jobs_def locked_def read_rows_def read_row_def by (intro keeps_intros keeps_replays)
  moreover have "keeps (\<lambda>s. P (jf_replays s)) (verify_outbox cfg env tenantId)" for tenantId
    unfolding verify_outbox_def locked_def read_row_def verify_row_def by (intro keeps_intros keeps_replays)
  moreover have "keeps (\<lambda>s. P (jf_replays s)) (outbox_health_of cfg env)"
    unfolding outbox_health_of_def locked_def by (intro keeps_intros keeps_replays)
  moreover have "keeps (\<lambda>s. P (jf_replays s)) (run_janitor n env)" for n
    unfolding run_janitor_def locked_def expire_state_def expire_one_def janitor_to_dead_def prune_dead_letters_def
      janitor_reconcile_def janitor_reconcile_one_def
    by (intro keeps_intros keeps_replays)
  ultimately show "P (jf_replays s) \<Longrightarrow> P (jf_replays (run_outbox cfg env cmd s))"
    by (cases cmd) (simp_all add: keeps_def)
qed

lemma map_of_snd: "distinct (map fst xs) \<Longrightarrow> e \<in> set xs \<Longrightarrow> map_of xs (fst e) = Some (snd e)"
  by (cases e) simp

lemma marked_without: "marked i f rs \<Longrightarrow> j \<noteq> i \<Longrightarrow> marked i f (without j rs)"
  by (simp add: marked_def map_of_drop_key distinct_without)

lemma prune_marker_keeps:
  assumes "fst e \<noteq> i \<or> \<not> marker_stale now e"
  shows "keeps (\<lambda>s. marked i f (jf_replays s)) (prune_marker now e)"
proof (cases "fst e = i")
  case True
  with assms show ?thesis by (simp add: prune_marker_def keeps_intros)
next
  case False
  then have "keeps (\<lambda>s. marked i f (jf_replays s)) (remove_marker (fst e))"
    unfolding remove_marker_def by (intro keeps_intros keeps_replays keeps_modifyS) (simp add: marked_without)
  then show ?thesis by (rule keeps_prune_marker)
qed

lemma prune_replays_keeps:
  assumes live: "\<not> marker_stale now (i, f)"
  shows "keeps (\<lambda>s. marked i f (jf_replays s)) (prune_replays now)"
proof (rule keepsI)
  fix s :: job_files assume m: "marked i f (jf_replays s)"
  have "keeps (\<lambda>s. marked i f (jf_replays s)) (for_each (prune_marker now) (filter (\<lambda>e. is_hex_text 64 (fst e)) (jf_replays s)))"
  proof (rule keeps_for_each_in, rule prune_marker_keeps)
    fix e assume "e \<in> set (filter (\<lambda>e. is_hex_text 64 (fst e)) (jf_replays s))"
    with m have "map_of (jf_replays s) (fst e) = Some (snd e)" by (simp add: marked_def map_of_snd)
    then show "fst e \<noteq> i \<or> \<not> marker_stale now e" using m live by (cases e) (auto simp: marked_def)
  qed
  then show "after (prune_replays now) (\<lambda>_ s. marked i f (jf_replays s)) (\<lambda>_ s. marked i f (jf_replays s)) s"
    unfolding prune_replays_def using m by (simp add: keeps_after)
qed

lemma put_marker_cases:
  assumes "\<And>ws. Q () (s\<lparr>jf_writes := ws, jf_replays := put_assoc i f (jf_replays s)\<rparr>)"
    and "\<And>ws e. E e (s\<lparr>jf_writes := ws\<rparr>)"
    and "\<And>ws e. E e (s\<lparr>jf_writes := ws, jf_replays := put_assoc i f (jf_replays s)\<rparr>)"
  shows "after (put_marker i f) Q E s"
  unfolding put_marker_def after_bindS
proof (rule draw_write_after)
  fix w ws
  show "after (getS jf_replays) (\<lambda>d. after (case atomic_write w (put_assoc i f d) d of
      (d', written) \<Rightarrow> bindS (modifyS (\<lambda>s. s\<lparr>jf_replays := d'\<rparr>)) (\<lambda>_. ensureS written JobFile (returnS ()))) Q E) E
    (s\<lparr>jf_writes := ws\<rparr>)"
    by (cases w) (simp_all add: assms)
qed

lemma marked_put: "marked i f rs \<Longrightarrow> j \<noteq> i \<Longrightarrow> marked i f (put_assoc j g rs)"
  by (simp add: marked_def distinct_put_assoc)

lemma consume_replay_marked:
  assumes live: "\<not> marker_stale now (i, f)" and m: "marked i f (jf_replays s)"
  shows "after (consume_replay cfg now auth) (\<lambda>_ s'. marked i f (jf_replays s') \<and> sa_replayId auth \<noteq> i)
    (\<lambda>_ s'. marked i f (jf_replays s')) s"
  unfolding consume_replay_def after_bindS
proof (rule after_weaken [OF keeps_afterD [OF prune_replays_keeps [OF live] m]])
  fix x :: unit and s' :: job_files assume m': "marked i f (jf_replays s')"
  show "after (getS (\<lambda>s. map_of (jf_replays s) (sa_replayId auth)))
     (\<lambda>seen. after (ensureS (seen = None) (ScanAuth ''replay_detected'') (put_marker (sa_replayId auth)
       (SealedFile (replay_aad (sa_replayId auth)) (replay_marker_for cfg now (sa_replayId auth)))))
       (\<lambda>_ s'. marked i f (jf_replays s') \<and> sa_replayId auth \<noteq> i) (\<lambda>_ s'. marked i f (jf_replays s')))
     (\<lambda>_ s'. marked i f (jf_replays s')) s'"
  proof (cases "map_of (jf_replays s') (sa_replayId auth) = None")
    case True
    then have other: "sa_replayId auth \<noteq> i" using m' by (auto simp: marked_def)
    then show ?thesis using m' True by (auto intro!: put_marker_cases simp: marked_put)
  qed (use m' in auto)
qed simp

definition own_marker :: "job_config \<Rightarrow> int \<Rightarrow> string \<Rightarrow> replay_marker job_file" where
  "own_marker cfg now i = SealedFile (replay_aad i) (replay_marker_for cfg now i)"

lemma prune_replays_distinct: "keeps (\<lambda>s. distinct (map fst (jf_replays s))) (prune_replays now)"
proof -
  have "keeps (\<lambda>s. distinct (map fst (jf_replays s))) (remove_marker i)" for i
    unfolding remove_marker_def
    by (intro keeps_intros keeps_replays(2) [where P = "\<lambda>rs. distinct (map fst rs)"] keeps_modifyS) (simp add: distinct_without)
  then have "keeps (\<lambda>s. distinct (map fst (jf_replays s))) (prune_marker now e)" for e
    by (rule keeps_prune_marker)
  then show ?thesis unfolding prune_replays_def by (intro keeps_intros)
qed

lemma consume_replay_distinct: "keeps (\<lambda>s. distinct (map fst (jf_replays s))) (consume_replay cfg now auth)"
proof -
  have "keeps (\<lambda>s. distinct (map fst (jf_replays s))) (put_marker i f)" for i f
    by (rule keepsI, rule put_marker_cases) (simp_all add: distinct_put_assoc)
  then show ?thesis unfolding consume_replay_def by (intro keeps_intros prune_replays_distinct)
qed

lemma consume_replay_marks:
  assumes d: "distinct (map fst (jf_replays s))"
  shows "after (consume_replay cfg now auth) (\<lambda>_ s'. marked (sa_replayId auth) (own_marker cfg now (sa_replayId auth)) (jf_replays s'))
    (\<lambda>_ _. True) s"
  unfolding consume_replay_def after_bindS
  by (rule after_weaken [OF keeps_afterD [OF prune_replays_distinct d]])
    (auto intro!: put_marker_cases simp: marked_def own_marker_def distinct_put_assoc)

lemma own_marker_stale: "marker_stale now (i, own_marker cfg t i) \<longleftrightarrow> t + jc_skewSeconds cfg * 2000 \<le> now"
  by (simp add: marker_stale_def own_marker_def replay_marker_for_def)

text \<open>A command that carries a signed request, and whether it was answered.\<close>

fun signed_request :: "outbox_command \<Rightarrow> (string \<times> (string \<Rightarrow> jsval)) option" where
  "signed_request (ClaimJobs body headers) = Some (body, headers)"
| "signed_request (AcknowledgeJob jobId body headers) = Some (body, headers)"
| "signed_request (FailJob jobId body headers) = Some (body, headers)"
| "signed_request _ = None"

fun answered :: "job_config \<Rightarrow> job_env \<Rightarrow> outbox_command \<Rightarrow> job_files \<Rightarrow> bool" where
  "answered cfg env (ClaimJobs body headers) s = ok (snd (claim_signed cfg env body headers s))"
| "answered cfg env (AcknowledgeJob jobId body headers) s = ok (snd (acknowledge_signed cfg env jobId body headers s))"
| "answered cfg env (FailJob jobId body headers) s = ok (snd (fail_signed cfg env jobId body headers s))"
| "answered cfg env _ s = True"

text \<open>Every signed command is the section of its authenticated request, or has failed before it.\<close>

lemma section_after:
  assumes c: "after (consume_replay cfg (je_now env) auth) (\<lambda>_ s. P (jf_replays s)) (\<lambda>_ _. True) s"
    and m: "keeps (\<lambda>s. P (jf_replays s)) m"
  shows "after (signed_section cfg env auth m) (\<lambda>_ s. P (jf_replays s)) (\<lambda>_ _. True) s"
proof -
  have "keeps (\<lambda>s. P (jf_replays s)) (bindS (repair cfg env [Pending, Inflight]) (\<lambda>_. m))"
    by (intro keeps_intros keeps_replays m)
  then have "after (bindS (consume_replay cfg (je_now env) auth) (\<lambda>_. bindS (repair cfg env [Pending, Inflight]) (\<lambda>_. m)))
      (\<lambda>_ s. P (jf_replays s)) (\<lambda>_ _. True) s"
    unfolding keeps_after after_bindS [of "consume_replay _ _ _"] by (auto intro!: after_weaken [OF c] elim!: after_weaken)
  then show ?thesis unfolding signed_section_def locked_def by (intro after_with_lock) simp_all
qed

lemma signed_command_after:
  assumes req: "signed_request cmd = Some (body, headers)" and ans: "answered cfg env cmd s"
    and c: "\<And>auth. authenticate_scan cfg (je_now env) body headers = Inr auth \<Longrightarrow>
      after (consume_replay cfg (je_now env) auth) (\<lambda>_ s. P (jf_replays s)) (\<lambda>_ _. True) s"
  shows "P (jf_replays (run_outbox cfg env cmd s))"
proof -
  have claim: "after (claim_signed cfg env body headers) (\<lambda>_ s. P (jf_replays s)) (\<lambda>_ _. True) s"
    unfolding claim_signed_def after_bindS
    by (intro after_liftS_I section_after c) (auto intro!: keeps_intros keeps_replays_claim)
  have acknowledge: "after (acknowledge_signed cfg env jobId body headers) (\<lambda>_ s. P (jf_replays s)) (\<lambda>_ _. True) s" for jobId
    unfolding acknowledge_signed_def read_owned_claim_def after_bindS
    by (intro after_liftS_I section_after c keeps_intros keeps_replays) simp_all
  have fail: "after (fail_signed cfg env jobId body headers) (\<lambda>_ s. P (jf_replays s)) (\<lambda>_ _. True) s" for jobId
    unfolding fail_signed_def read_owned_claim_def fail_claimed_def after_bindS
    by (intro after_liftS_I section_after c keeps_intros keeps_replays) simp_all
  show ?thesis using req ans after_answer [OF claim] after_answer [OF acknowledge] after_answer [OF fail]
    by (cases cmd) (auto simp: ok_iff)
qed

inductive later :: "job_config \<Rightarrow> int \<Rightarrow> job_files \<Rightarrow> int \<Rightarrow> job_files \<Rightarrow> bool" for cfg t0 s0 where
  later_now: "later cfg t0 s0 t0 s0"
| later_run: "later cfg t0 s0 t s \<Longrightarrow> t \<le> je_now env \<Longrightarrow>
     later cfg t0 s0 (je_now env) (run_outbox cfg env cmd (s\<lparr>jf_writes := ws, jf_moves := ms\<rparr>))"

lemma later_marked:
  assumes "later cfg t0 s0 t s" and "marked i (own_marker cfg t0 i) (jf_replays s0)" and "t < t0 + jc_skewSeconds cfg * 2000"
  shows "marked i (own_marker cfg t0 i) (jf_replays s)"
  using assms(1,3)
proof induction
  case (later_run t s env cmd ms ws)
  let ?P = "marked i (own_marker cfg t0 i)"
  have live: "\<not> marker_stale (je_now env) (i, own_marker cfg t0 i)" using later_run.prems by (simp add: own_marker_stale)
  have "keeps (\<lambda>s. ?P (jf_replays s)) (consume_replay cfg (je_now env) auth)" for auth
    by (rule keepsI, rule after_weaken [OF consume_replay_marked [OF live]]) simp_all
  moreover have "?P (jf_replays (s\<lparr>jf_writes := ws, jf_moves := ms\<rparr>))"
    using later_run.IH later_run.hyps(2) later_run.prems by simp
  ultimately show ?case by (rule keeps_replays_commands)
qed (simp add: assms(2))

lemma reachable_replays_distinct: "outbox_reachable cfg s \<Longrightarrow> distinct (map fst (jf_replays s))"
proof (induction rule: outbox_reachable.induct)
  case (or_run s env cmd ms ws)
  then show ?case by (intro keeps_replays_commands [where P = "\<lambda>rs. distinct (map fst rs)"] consume_replay_distinct) simp
qed (simp add: no_jobs_def)

text \<open>
  C8. A signed request is answered once. When it was answered and the clock does not run backwards, the
  same body and headers are answered again, by the same operation or another and whatever happened in
  between, at most in one single instant: exactly twice the clock skew after the first answer, when the
  replay marker is treated as expired while the timestamp still counts as recent.
\<close>

theorem signed_request_is_answered_once:
  assumes reach: "outbox_reachable cfg s" and skew: "0 \<le> jc_skewSeconds cfg"
    and first: "signed_request cmd1 = Some (body, headers)" "answered cfg env1 cmd1 (s\<lparr>jf_writes := ws1, jf_moves := ms1\<rparr>)"
    and between: "later cfg (je_now env1) (run_outbox cfg env1 cmd1 (s\<lparr>jf_writes := ws1, jf_moves := ms1\<rparr>)) t s2"
    and second: "signed_request cmd2 = Some (body, headers)" "t \<le> je_now env2"
      "answered cfg env2 cmd2 (s2\<lparr>jf_writes := ws2, jf_moves := ms2\<rparr>)"
  shows "je_now env2 = je_now env1 + 2 * (jc_skewSeconds cfg * 1000)"
proof (rule ccontr)
  assume other: "je_now env2 \<noteq> je_now env1 + 2 * (jc_skewSeconds cfg * 1000)"
  have auth: "\<exists>auth. authenticate_scan cfg (je_now env) body headers = Inr auth"
    if "signed_request cmd = Some (body, headers)" "answered cfg env cmd s" for env cmd s
    using that by (cases "authenticate_scan cfg (je_now env) body headers"; cases cmd)
      (simp_all add: claim_signed_def acknowledge_signed_def fail_signed_def bindS_def liftS_def)
  obtain a1 where a1: "authenticate_scan cfg (je_now env1) body headers = Inr a1" using auth [OF first] by blast
  obtain a2 where a2: "authenticate_scan cfg (je_now env2) body headers = Inr a2" using auth [OF second(1,3)] by blast
  have same: "sa_replayId a2 = sa_replayId a1" and near: "\<bar>je_now env1 - sa_signedAt a1\<bar> \<le> jc_skewSeconds cfg * 1000"
      "\<bar>je_now env2 - sa_signedAt a1\<bar> \<le> jc_skewSeconds cfg * 1000"
    using a1 a2 by (auto simp: authenticate_scan_def Let_def)
  let ?i = "sa_replayId a1"
  have early: "je_now env2 < je_now env1 + jc_skewSeconds cfg * 2000" using near other by linarith
  have m1: "marked ?i (own_marker cfg (je_now env1) ?i) (jf_replays (run_outbox cfg env1 cmd1 (s\<lparr>jf_writes := ws1, jf_moves := ms1\<rparr>)))"
  proof (rule signed_command_after [OF first])
    fix auth assume "authenticate_scan cfg (je_now env1) body headers = Inr auth"
    then have "auth = a1" using a1 by simp
    moreover have "distinct (map fst (jf_replays (s\<lparr>jf_writes := ws1, jf_moves := ms1\<rparr>)))"
      using reachable_replays_distinct [OF reach] by simp
    ultimately show "after (consume_replay cfg (je_now env1) auth)
        (\<lambda>_ s. marked ?i (own_marker cfg (je_now env1) ?i) (jf_replays s)) (\<lambda>_ _. True) (s\<lparr>jf_writes := ws1, jf_moves := ms1\<rparr>)"
      using consume_replay_marks by blast
  qed
  have m2: "marked ?i (own_marker cfg (je_now env1) ?i) (jf_replays s2)"
    using later_marked [OF between m1] second(2) early by linarith
  have live: "\<not> marker_stale (je_now env2) (?i, own_marker cfg (je_now env1) ?i)" using early by (simp add: own_marker_stale)
  have False
  proof (rule signed_command_after [OF second(1,3), where P = "\<lambda>_. False"])
    fix auth assume "authenticate_scan cfg (je_now env2) body headers = Inr auth"
    then have "sa_replayId auth = ?i" using a2 same by simp
    moreover have "marked ?i (own_marker cfg (je_now env1) ?i) (jf_replays (s2\<lparr>jf_writes := ws2, jf_moves := ms2\<rparr>))"
      using m2 by simp
    ultimately show "after (consume_replay cfg (je_now env2) auth) (\<lambda>_ _. False) (\<lambda>_ _. True) (s2\<lparr>jf_writes := ws2, jf_moves := ms2\<rparr>)"
      by (intro after_weaken [OF consume_replay_marked [OF live]]) simp_all
  qed
  then show False .
qed

theorem signed_request_is_answered_once_witness:
  "answered sample_scan_config (sample_env_at 0) sample_claim (no_jobs\<lparr>jf_writes := [], jf_moves := []\<rparr>)
   \<and> answered sample_scan_config (sample_env_at 2000) sample_claim
       (run_outbox sample_scan_config (sample_env_at 0) sample_claim (no_jobs\<lparr>jf_writes := [], jf_moves := []\<rparr>)\<lparr>jf_writes := [], jf_moves := []\<rparr>)
   \<and> je_now (sample_env_at 2000) = je_now (sample_env_at 0) + 2 * (jc_skewSeconds sample_scan_config * 1000)"
proof -
  have 1: "answered sample_scan_config (sample_env_at 0) sample_claim (no_jobs\<lparr>jf_writes := [], jf_moves := []\<rparr>)"
    by code_simp
  have 2: "answered sample_scan_config (sample_env_at 2000) sample_claim
       (run_outbox sample_scan_config (sample_env_at 0) sample_claim (no_jobs\<lparr>jf_writes := [], jf_moves := []\<rparr>)\<lparr>jf_writes := [], jf_moves := []\<rparr>)"
    by code_simp
  have req: "signed_request sample_claim = Some (''{}'', sample_scan_headers)" by (simp add: sample_claim_def)
  have "0 \<le> jc_skewSeconds sample_scan_config" "je_now (sample_env_at 0) \<le> je_now (sample_env_at 2000)"
    by (simp_all add: sample_scan_config_def sample_env_at_def)
  from signed_request_is_answered_once [OF or_start this(1) req 1 later_now req this(2) 2] 1 2 show ?thesis by simp
qed

subsection \<open>The byte budget of a claim\<close>

lemma claim_loop_length: "after (claim_loop cfg env p n names) (\<lambda>js _. length js \<le> n) (\<lambda>_ _. True) s"
proof (induction names arbitrary: n s)
  case (Cons i names)
  have triv: "after m (\<lambda>_ _. True) (\<lambda>_ _. True) s" for m :: "'a job_call" and s
    by (simp add: after_def split: prod.split sum.split)
  have rest: "after (case c of None \<Rightarrow> claim_loop cfg env p n names
      | Some j \<Rightarrow> bindS (claim_loop cfg env p (n - 1) names) (\<lambda>js. returnS (j # js)))
      (\<lambda>js _. length js \<le> n) (\<lambda>_ _. True) s" if "n \<noteq> 0" for c s
  proof (cases c)
    case (Some j)
    then show ?thesis using that by (auto intro!: after_weaken [OF Cons.IH [of "n - Suc 0"]])
  qed (simp add: Cons.IH)
  show ?case
  proof (cases "n = 0")
    case False
    then show ?thesis unfolding claim_loop.simps if_not_P [OF False] after_bindS
      by (intro after_weaken [OF triv] rest) simp_all
  qed simp
qed simp

lemma claim_signed_bounded:
  assumes "claim_signed cfg env body headers s = (s', Inr (p, jobs))"
  shows "\<exists>input limit. jc_parse cfg (if body = [] then ''{}'' else body) = Some input \<and> is_plain_object input
    \<and> int_in 1 25 (js_or_nullish (js_get input ''limit'') (JInt 1)) = Some limit \<and> int (length jobs) \<le> limit"
proof -
  obtain auth input limit where input: "strict_json (jc_parse cfg) body [''limit''] = Inr input"
    and limit: "job_integer (js_or_nullish (js_get input ''limit'') (JInt 1)) ''limit'' 1 25 = Inr limit"
    and run: "signed_section cfg env auth (bindS (getS (\<lambda>s. job_names s Pending)) (\<lambda>names.
        bindS (claim_loop cfg env (sa_providerId auth) (nat limit) names) (\<lambda>claimed. returnS (sa_providerId auth, claimed)))) s
        = (s', Inr (p, jobs))"
    using assms by (auto simp: claim_signed_def bindS_Inr)
  have "length jobs \<le> nat limit"
  proof -
    have "after (signed_section cfg env auth (bindS (getS (\<lambda>s. job_names s Pending)) (\<lambda>names.
        bindS (claim_loop cfg env (sa_providerId auth) (nat limit) names) (\<lambda>claimed. returnS (sa_providerId auth, claimed)))))
      (\<lambda>r _. length (snd r) \<le> nat limit) (\<lambda>_ _. True) s"
    proof -
      have triv: "after m (\<lambda>_ _. True) (\<lambda>_ _. True) s" for m :: "'a job_call" and s
        by (simp add: after_def split: prod.split sum.split)
      show ?thesis unfolding signed_section_def locked_def
        by (rule after_with_lock) (auto intro!: after_weaken [OF triv [of "consume_replay _ _ _"]]
            after_weaken [OF triv [of "repair _ _ _"]] after_weaken [OF claim_loop_length])
    qed
    from after_Inr [OF this run] show ?thesis by simp
  qed
  moreover have "int_in 1 25 (js_or_nullish (js_get input ''limit'') (JInt 1)) = Some limit"
    using limit by (simp add: job_integer_def)
  ultimately show ?thesis using strict_json_parsed [OF input] int_in_Some [of 1 25 _ limit]
    by (intro exI [of _ input] exI [of _ limit]) fastforce
qed

text \<open>
  C32. The lifecycle never lets a claim exceed its byte budget: whatever the body says (a missing,
  null or textual limit included), the answer holds at most as many packages as fit into the budget
  at the size that the code estimates for the largest package.
\<close>

theorem claims_stay_within_budget:
  assumes n: "lifecycle_limit (JInt byteBudget) (JInt evidenceLimit) = Inr n"
    and claim: "managed_claim cfg n env1 env body headers s = (s', Inr (p, jobs))"
  shows "length jobs \<le> n \<and> int (length jobs * estimated_package_bytes (nat evidenceLimit)) \<le> byteBudget"
proof -
  have n1: "1 \<le> n" and b: "0 \<le> byteBudget" and n2: "n = maximum_claim_jobs (nat byteBudget) (nat evidenceLimit)"
    using n by (auto simp: lifecycle_limit_def Let_def split: if_splits)
  obtain s1 s2 where budget: "assert_claim_budget cfg n body s = (s1, Inr ())"
    and run: "claim_signed cfg env body headers s2 = (s', Inr (p, jobs))"
    using claim by (auto simp: managed_claim_def maintained_def bindS_Inr)
  obtain input limit where input: "jc_parse cfg (if body = [] then ''{}'' else body) = Some input" "is_plain_object input"
    and limit: "int_in 1 25 (js_or_nullish (js_get input ''limit'') (JInt 1)) = Some limit" and len: "int (length jobs) \<le> limit"
    using claim_signed_bounded [OF run] by blast
  have "limit \<le> int n"
  proof (cases "nullish (js_get input ''limit'')")
    case True
    then show ?thesis using limit n1 by (simp add: js_or_nullish_def)
  next
    case False
    then have "js_get input ''limit'' \<noteq> JUndef" "js_Number (js_get input ''limit'') = JInt limit"
      using limit by (auto simp: js_or_nullish_def int_in_def split: jsval.splits if_splits)
    then show ?thesis using budget input
      by (cases input) (auto simp: assert_claim_budget_def Let_def ensureS_def split: if_splits)
  qed
  with len have l: "length jobs \<le> n" by simp
  then have "length jobs * estimated_package_bytes (nat evidenceLimit) \<le> nat byteBudget"
    unfolding n2 maximum_claim_jobs_def by (rule order_trans [OF mult_le_mono1]) (rule div_times_less_eq_dividend)
  with b l show ?thesis by linarith
qed

theorem claims_stay_within_budget_witness:
  "\<exists>s' p j. managed_claim sample_scan_config 1 (sample_env_at 1) (sample_env_at 1) ''{}'' sample_scan_headers sample_queued
      = (s', Inr (p, [j])) \<and> int (1 * estimated_package_bytes 10000000) \<le> 25000000"
proof -
  have n: "lifecycle_limit (JInt 25000000) (JInt 10000000) = Inr 1"
    by (simp add: lifecycle_limit_def maximum_claim_jobs_def estimated_package_bytes_def Let_def)
  have "map_sum id (length \<circ> snd) (snd (managed_claim sample_scan_config 1 (sample_env_at 1) (sample_env_at 1)
      ''{}'' sample_scan_headers sample_queued)) = Inr 1" by code_simp
  then obtain p jobs where "snd (managed_claim sample_scan_config 1 (sample_env_at 1) (sample_env_at 1)
      ''{}'' sample_scan_headers sample_queued) = Inr (p, jobs)" and len: "length jobs = 1"
    by (cases "snd (managed_claim sample_scan_config 1 (sample_env_at 1) (sample_env_at 1)
      ''{}'' sample_scan_headers sample_queued)") auto
  then obtain s' where run: "managed_claim sample_scan_config 1 (sample_env_at 1) (sample_env_at 1)
      ''{}'' sample_scan_headers sample_queued = (s', Inr (p, jobs))" by (metis prod.collapse)
  obtain j where "jobs = [j]" using len by (auto simp: length_Suc_conv)
  with claims_stay_within_budget [OF n run] run show ?thesis by auto
qed

end
