(* ===== verification/ScanMaintenance.thy ===== *)
theory ScanMaintenance
  imports ScanDelivery
begin

section \<open>What the maintenance of the scan outbox achieves\<close>

text \<open>
  When its file-system calls succeed, the janitor ends and puts a reachable outbox in order; the
  number of dead letters that it keeps is bounded, but which ones it keeps depends on their names.
\<close>

subsection \<open>Calls that succeed\<close>

definition quiet :: "job_files \<Rightarrow> bool" where
  "quiet s = (jf_writes s = [] \<and> jf_moves s = [])"

lemma quiet_dirs [simp]: "quiet (set_dir st d s) = quiet s" "quiet (move_dir a b i f s) = quiet s"
  by (simp_all add: quiet_def set_dir_def move_dir_def Let_def)

lemma rename_quiet:
  "quiet s \<Longrightarrow> file_at s a i = Some f \<Longrightarrow> Q () (move_dir a b i f s) \<Longrightarrow> after (rename_file a b i) Q E s"
  by (simp add: rename_file_def draw_move_def after_def bindS_def ensureS_def modifyS_def quiet_def move_dir_def)

lemma put_quiet:
  "quiet s \<Longrightarrow> Q () (set_dir st (put_assoc i f (jf_dirs s st)) s) \<Longrightarrow> after (put_file st i f) Q E s"
  by (simp add: put_file_def draw_write_def after_def bindS_def getS_def ensureS_def modifyS_def returnS_def quiet_def)

lemma remove_quiet:
  "quiet s \<Longrightarrow> Q () (set_dir st (without i (jf_dirs s st)) s) \<Longrightarrow> after (remove_file st i) Q E s"
  by (simp add: remove_file_def draw_move_def after_def bindS_def ensureS_def modifyS_def quiet_def)

lemma janitor_read_found:
  assumes "outbox_inv cfg s" and "file_at s st i \<noteq> None"
    and "\<And>r. file_at s st i = Some (SealedFile (record_aad i) r) \<Longrightarrow> record_ok cfg i r \<Longrightarrow> placed st r \<Longrightarrow> Q r s"
  shows "after (janitor_read st i) Q E s"
proof -
  obtain f where f: "file_at s st i = Some f" using assms(2) by auto
  obtain r where "f = SealedFile (record_aad i) r" "record_ok cfg i r" "placed st r"
    using inv_file [OF assms(1) f] by (auto simp: file_ok_def)
  with f assms(3) show ?thesis
    by (auto simp: after_def janitor_read_def janitor_parse_def record_ok_def)
qed

lemma job_names_set: "outbox_inv cfg s \<Longrightarrow> set (job_names s st) = {i. file_at s st i \<noteq> None}"
proof -
  assume inv: "outbox_inv cfg s"
  have "is_job_id i" if "file_at s st i = Some f" for i f
    using inv_file [OF inv that] by (auto simp: file_ok_def record_ok_def valid_record_def)
  moreover have "set (job_names s st) = {i. is_job_id i \<and> file_at s st i \<noteq> None}"
    by (simp add: job_names_def file_at_def map_of_eq_None_iff set_eq_iff conj_commute)
  ultimately show ?thesis by auto
qed

lemma job_names_distinct: "outbox_inv cfg s \<Longrightarrow> distinct (job_names s st)"
  by (simp add: job_names_def outbox_inv_def)

subsection \<open>Every record in its directory\<close>

definition tidy :: "job_state \<Rightarrow> job_files \<Rightarrow> bool" where
  "tidy st s = (\<forall>i a r. file_at s st i = Some (SealedFile a r) \<longrightarrow> jr_state r = st)"

definition unmoved :: "job_config \<Rightarrow> (string \<Rightarrow> job_record option) \<Rightarrow> job_files \<Rightarrow> bool" where
  "unmoved cfg at s = (outbox_inv cfg s \<and> quiet s \<and> job_at s = at)"

definition partly_tidy :: "job_config \<Rightarrow> (string \<Rightarrow> job_record option) \<Rightarrow> job_state set \<Rightarrow> job_state \<Rightarrow> string list \<Rightarrow> string list \<Rightarrow> job_files \<Rightarrow> bool" where
  "partly_tidy cfg at D st names xs s = (unmoved cfg at s \<and> (\<forall>b\<in>D. tidy b s)
     \<and> (\<forall>i. i \<in> set names - set xs \<longrightarrow> file_at s st i \<noteq> None)
     \<and> (\<forall>i a r. file_at s st i = Some (SealedFile a r) \<longrightarrow> i \<in> set names - set xs \<or> jr_state r = st))"

lemma janitor_reconcile_one_quiet:
  assumes names: "distinct names" "names = xs @ i # zs" and s: "partly_tidy cfg at D st names xs s"
  shows "after (janitor_reconcile_one st i) (\<lambda>_. partly_tidy cfg at D st names (xs @ [i])) (\<lambda>_ _. False) s"
proof -
  have inv: "outbox_inv cfg s" and q: "quiet s" and at: "job_at s = at" using s by (auto simp: partly_tidy_def unmoved_def)
  have here: "file_at s st i \<noteq> None" using s names by (auto simp: partly_tidy_def)
  show ?thesis unfolding janitor_reconcile_one_def after_bindS
  proof (rule janitor_read_found [OF inv here])
    fix r assume f: "file_at s st i = Some (SealedFile (record_aad i) r)" and r: "record_ok cfg i r" "placed st r"
    show "after (if jr_state r = st then returnS 0
        else bindS (getS (\<lambda>s. file_at s (jr_state r) i)) (\<lambda>target. ensureS (target = None) (JobIntegrity ''multiple'')
          (bindS (rename_file st (jr_state r) i) (\<lambda>_. returnS 1))))
      (\<lambda>_. partly_tidy cfg at D st names (xs @ [i])) (\<lambda>_ _. False) s"
    proof (cases "jr_state r = st")
      case True
      have "j \<in> set names - set (xs @ [i]) \<or> jr_state r' = st" if "file_at s st j = Some (SealedFile a r')" for j a r'
        using s f True that unfolding partly_tidy_def by (cases "j = i") auto
      then have "partly_tidy cfg at D st names (xs @ [i]) s" using s by (simp add: partly_tidy_def)
      then show ?thesis using True by simp
    next
      case False
      have none: "file_at s (jr_state r) i = None" using inv f False unfolding outbox_inv_def by blast
      have ok: "file_ok cfg (jr_state r) i (SealedFile (record_aad i) r)" using r by (simp add: file_ok_def placed_own)
      note moved = move_dir_keeps [OF inv f ok]
      have "partly_tidy cfg at D st names (xs @ [i]) (move_dir st (jr_state r) i (SealedFile (record_aad i) r) s)"
        using s moved q False by (auto simp: partly_tidy_def unmoved_def tidy_def split: if_splits)
      then show ?thesis using False none q f by (auto intro!: rename_quiet)
    qed
  qed
qed

lemma reconcile_dir_quiet:
  assumes s: "unmoved cfg at s" and D: "\<forall>b\<in>D. tidy b s"
  shows "after (bindS (getS (\<lambda>s. job_names s st)) (\<lambda>names.
      bindS (map_each (janitor_reconcile_one st) names) (\<lambda>ns. returnS (sum_list ns))))
    (\<lambda>_ s'. unmoved cfg at s' \<and> (\<forall>b\<in>insert st D. tidy b s')) (\<lambda>_ _. False) s"
proof -
  let ?names = "job_names s st"
  have inv: "outbox_inv cfg s" using s by (simp add: unmoved_def)
  have "partly_tidy cfg at D st ?names [] s"
    using s D job_names_set [OF inv, of st] by (auto simp: partly_tidy_def)
  then have "after (map_each (janitor_reconcile_one st) ?names) (\<lambda>_. partly_tidy cfg at D st ?names ?names) (\<lambda>_ _. False) s"
    by (intro after_map_each_done janitor_reconcile_one_quiet [OF job_names_distinct [OF inv]])
  then show ?thesis by (auto simp: partly_tidy_def tidy_def elim!: after_weaken)
qed

lemma janitor_reconcile_quiet:
  assumes "unmoved cfg at s"
  shows "after janitor_reconcile (\<lambda>_ s'. unmoved cfg at s' \<and> (\<forall>b. tidy b s')) (\<lambda>_ _. False) s"
proof -
  have "after (map_each (\<lambda>st. bindS (getS (\<lambda>s. job_names s st))
       (\<lambda>names. bindS (map_each (janitor_reconcile_one st) names) (\<lambda>ns. returnS (sum_list ns)))) job_states)
     (\<lambda>_ s'. unmoved cfg at s' \<and> (\<forall>b\<in>set job_states. tidy b s')) (\<lambda>_ _. False) s"
  proof (rule after_map_each_done [where I = "\<lambda>xs s. unmoved cfg at s \<and> (\<forall>b\<in>set xs. tidy b s)"])
    fix xs st zs s assume "unmoved cfg at s \<and> (\<forall>b\<in>set xs. tidy b s)"
    then show "after (bindS (getS (\<lambda>s. job_names s st))
         (\<lambda>names. bindS (map_each (janitor_reconcile_one st) names) (\<lambda>ns. returnS (sum_list ns))))
       (\<lambda>_ s. unmoved cfg at s \<and> (\<forall>b\<in>set (xs @ [st]). tidy b s)) (\<lambda>_ _. False) s"
      by (intro after_weaken [OF reconcile_dir_quiet]) auto
  qed (simp add: assms)
  then show ?thesis unfolding janitor_reconcile_def
    by (auto simp: job_states_all elim!: after_weaken)
qed

subsection \<open>Expiry\<close>

definition expiry_reason :: "job_state \<Rightarrow> string" where
  "expiry_reason st = (if st = Pending then ''job_expired'' else ''attestation_timeout'')"

definition expire :: "int \<Rightarrow> job_state \<Rightarrow> job_record option \<Rightarrow> job_record option" where
  "expire now st = map_option (\<lambda>r. if jr_state r = st \<and> jr_expiresAt r \<le> now then dead_record now (expiry_reason st) r else r)"

definition orderly :: "job_config \<Rightarrow> (string \<Rightarrow> job_record option) \<Rightarrow> job_files \<Rightarrow> bool" where
  "orderly cfg at s = (unmoved cfg at s \<and> (\<forall>b. tidy b s))"

definition partly_expired :: "job_config \<Rightarrow> (string \<Rightarrow> job_record option) \<Rightarrow> int \<Rightarrow> job_state \<Rightarrow> string list \<Rightarrow> string list \<Rightarrow> job_files \<Rightarrow> bool" where
  "partly_expired cfg at now st names xs s = (orderly cfg (\<lambda>i. if i \<in> set xs then expire now st (at i) else at i) s
     \<and> (\<forall>i. i \<in> set names - set xs \<longrightarrow> file_at s st i \<noteq> None))"

lemma bury_keeps:
  assumes o': "orderly cfg at s" and f: "file_at s st i = Some (SealedFile (record_aad i) r)" and r: "record_ok cfg i r"
    and st: "st = Pending \<or> st = Delivered"
  shows "orderly cfg (at(i := Some (dead_record now reason r)))
      (move_dir st DeadLetter i (SealedFile (record_aad i) (dead_record now reason r))
        (set_dir st (put_assoc i (SealedFile (record_aad i) (dead_record now reason r)) (jf_dirs s st)) s))"
    and "j \<noteq> i \<Longrightarrow> file_at (move_dir st DeadLetter i (SealedFile (record_aad i) (dead_record now reason r))
        (set_dir st (put_assoc i (SealedFile (record_aad i) (dead_record now reason r)) (jf_dirs s st)) s)) st j = file_at s st j"
proof -
  let ?d = "dead_record now reason r"
  let ?f = "SealedFile (record_aad i) ?d"
  let ?s = "set_dir st (put_assoc i ?f (jf_dirs s st)) s"
  have inv: "outbox_inv cfg s" and at: "job_at s = at" using o' by (auto simp: orderly_def unmoved_def)
  have only: "b = st" if "file_at s b i \<noteq> None" for b using inv f that unfolding outbox_inv_def by blast
  have ok: "file_ok cfg st i ?f" "file_ok cfg DeadLetter i ?f"
    using record_ok_dead [OF r] st by (auto simp: file_ok_def placed_def may_be_pruned_def)
  have inv1: "outbox_inv cfg ?s" by (rule put_inv [OF inv ok(1) only])
  have at1: "job_at ?s = at(i := Some ?d)" using put_job_at [OF inv ok(1) only] at by simp
  note moved = move_dir_keeps [OF inv1 _ ok(2), of st]
  have f1: "file_at ?s st i = Some ?f" by simp
  show "orderly cfg (at(i := Some ?d)) (move_dir st DeadLetter i ?f ?s)"
    using moved [OF f1] o' at1 by (auto simp: orderly_def unmoved_def tidy_def split: if_splits)
  show "file_at (move_dir st DeadLetter i ?f ?s) st j = file_at s st j" if "j \<noteq> i"
    using moved(3) [OF f1] that by simp
qed

lemma expire_one_quiet:
  assumes names: "distinct names" "names = xs @ i # zs" and s: "partly_expired cfg at now st names xs s"
    and st: "st = Pending \<or> st = Delivered"
  shows "after (expire_one now st i) (\<lambda>_. partly_expired cfg at now st names (xs @ [i])) (\<lambda>_ _. False) s"
proof -
  let ?at = "\<lambda>xs i. if i \<in> set xs then expire now st (at i) else at i"
  have o': "orderly cfg (?at xs) s" using s by (simp add: partly_expired_def)
  then have inv: "outbox_inv cfg s" and q: "quiet s" and at: "job_at s = ?at xs" by (auto simp: orderly_def unmoved_def)
  have here: "file_at s st i \<noteq> None" using s names by (auto simp: partly_expired_def)
  have new: "i \<notin> set xs" using names by simp
  show ?thesis unfolding expire_one_def after_bindS
  proof (rule janitor_read_found [OF inv here])
    fix r assume f: "file_at s st i = Some (SealedFile (record_aad i) r)" and r: "record_ok cfg i r" "placed st r"
    have state: "jr_state r = st" using o' f by (auto simp: orderly_def tidy_def)
    have ati: "at i = Some r" using job_at_stored [OF inv f] at new by simp
    let ?d = "dead_record now (expiry_reason st) r"
    have upd: "?at (xs @ [i]) = (?at xs)(i := expire now st (at i))" by (auto simp: fun_eq_iff)
    show "after (ensureS (jr_state r = st) (JobIntegrity ''state'') (if jr_expiresAt r > now then returnS 0
        else bindS (janitor_to_dead now st (if st = Pending then ''job_expired'' else ''attestation_timeout'') r) (\<lambda>_. returnS 1)))
      (\<lambda>_. partly_expired cfg at now st names (xs @ [i])) (\<lambda>_ _. False) s"
    proof (cases "jr_expiresAt r > now")
      case True
      then have "?at (xs @ [i]) = ?at xs" unfolding upd using ati new by (auto simp: expire_def fun_eq_iff)
      then have "partly_expired cfg at now st names (xs @ [i]) s" using s by (simp add: partly_expired_def)
      then show ?thesis using True state by simp
    next
      case False
      have none: "file_at s DeadLetter i = None" using inv f st unfolding outbox_inv_def by blast
      have i: "jr_jobId r = i" using r by (simp add: record_ok_def)
      have e: "expire now st (at i) = Some ?d" using ati False state by (simp add: expire_def)
      let ?s = "set_dir st (put_assoc i (SealedFile (record_aad i) ?d) (jf_dirs s st)) s"
      let ?s' = "move_dir st DeadLetter i (SealedFile (record_aad i) ?d) ?s"
      have "orderly cfg (?at (xs @ [i])) ?s'" unfolding upd e by (rule bury_keeps(1) [OF o' f r(1) st])
      moreover have "file_at ?s' st j \<noteq> None" if "j \<in> set names - set (xs @ [i])" for j
        using s that bury_keeps(2) [OF o' f r(1) st, of j] by (auto simp: partly_expired_def)
      ultimately have "partly_expired cfg at now st names (xs @ [i]) ?s'" by (simp add: partly_expired_def)
      then have "after (janitor_to_dead now st (expiry_reason st) r)
          (\<lambda>_. partly_expired cfg at now st names (xs @ [i])) (\<lambda>_ _. False) s"
        unfolding janitor_to_dead_def i using none q by (auto intro!: put_quiet rename_quiet)
      then show ?thesis using False state by (simp add: expiry_reason_def)
    qed
  qed
qed

lemma expire_state_quiet:
  assumes o': "orderly cfg at s" and st: "st = Pending \<or> st = Delivered"
  shows "after (expire_state now st) (\<lambda>_. orderly cfg (\<lambda>i. expire now st (at i))) (\<lambda>_ _. False) s"
proof -
  let ?names = "job_names s st"
  have inv: "outbox_inv cfg s" and at: "job_at s = at" using o' by (auto simp: orderly_def unmoved_def)
  have "partly_expired cfg at now st ?names [] s"
    using o' job_names_set [OF inv, of st] by (auto simp: partly_expired_def)
  then have "after (map_each (expire_one now st) ?names) (\<lambda>_. partly_expired cfg at now st ?names ?names) (\<lambda>_ _. False) s"
    by (intro after_map_each_done expire_one_quiet [OF job_names_distinct [OF inv] _ _ st])
  moreover have "expire now st (at i) = at i" if "i \<notin> set ?names" for i
  proof (cases "at i")
    case (Some r)
    then obtain b where "file_at s b i = Some (SealedFile (record_aad i) r)" using at job_at_SomeE [OF inv, of i r] by auto
    moreover from this o' have "jr_state r = b" by (auto simp: orderly_def tidy_def)
    ultimately have "jr_state r \<noteq> st" using that job_names_set [OF inv, of st] by auto
    with Some show ?thesis by (simp add: expire_def)
  qed (simp add: expire_def)
  then have "(\<lambda>i. if i \<in> set ?names then expire now st (at i) else at i) = (\<lambda>i. expire now st (at i))" by auto
  ultimately show ?thesis unfolding expire_state_def by (auto simp: partly_expired_def elim!: after_weaken)
qed

subsection \<open>The dead letters\<close>

lemma prune_quiet:
  assumes o': "orderly cfg at s"
  shows "after (prune_dead_letters n) (\<lambda>_ s'. orderly cfg (\<lambda>i. if i \<in> set (take (length (job_names s DeadLetter) - n) (job_names s DeadLetter)) then None else at i) s'
      \<and> set (job_names s' DeadLetter) = set (drop (length (job_names s DeadLetter) - n) (job_names s DeadLetter))) (\<lambda>_ _. False) s"
proof -
  let ?names = "job_names s DeadLetter" and ?k = "length (job_names s DeadLetter) - n"
  let ?I = "\<lambda>xs s'. orderly cfg (\<lambda>i. if i \<in> set xs then None else at i) s' \<and> set (job_names s' DeadLetter) = set ?names - set xs"
  have inv: "outbox_inv cfg s" using o' by (simp add: orderly_def unmoved_def)
  have d: "distinct ?names" by (rule job_names_distinct [OF inv])
  have "after (for_each (remove_file DeadLetter) (take ?k ?names)) (\<lambda>_. ?I (take ?k ?names)) (\<lambda>_ _. False) s"
  proof (rule after_for_each_done)
    fix xs i zs s' assume split: "take ?k ?names = xs @ i # zs" and I: "?I xs s'"
    then have inv': "outbox_inv cfg s'" and at': "job_at s' = (\<lambda>i. if i \<in> set xs then None else at i)" and q: "quiet s'"
      by (auto simp: orderly_def unmoved_def)
    have "distinct (xs @ i # zs)" using d split by (metis distinct_take)
    moreover have "i \<in> set ?names" using split by (metis in_set_conv_decomp in_set_takeD)
    ultimately have "i \<in> set (job_names s' DeadLetter)" using I by simp
    then have f: "file_at s' DeadLetter i \<noteq> None" using job_names_set [OF inv'] by simp
    let ?s = "set_dir DeadLetter (without i (jf_dirs s' DeadLetter)) s'"
    have "job_at ?s = (\<lambda>j. if j \<in> set (xs @ [i]) then None else at j)"
      using without_job_at [OF inv' f] at' by (auto simp: fun_eq_iff)
    then have "orderly cfg (\<lambda>j. if j \<in> set (xs @ [i]) then None else at j) ?s"
      using I without_inv [OF inv'] by (auto simp: orderly_def unmoved_def tidy_def split: if_splits)
    moreover have "set (job_names ?s DeadLetter) = set (job_names s' DeadLetter) - {i}"
      using job_names_set [OF without_inv [OF inv']] job_names_set [OF inv'] by auto
    ultimately have "?I (xs @ [i]) ?s" using I by auto
    then show "after (remove_file DeadLetter i) (\<lambda>_. ?I (xs @ [i])) (\<lambda>_ _. False) s'" by (intro remove_quiet [OF q])
  qed (use o' in simp)
  moreover have "set ?names - set (take ?k ?names) = set (drop ?k ?names)"
  proof -
    have "set ?names = set (take ?k ?names) \<union> set (drop ?k ?names)" by (metis append_take_drop_id set_append)
    moreover have "set (take ?k ?names) \<inter> set (drop ?k ?names) = {}" using d by (metis append_take_drop_id distinct_append)
    ultimately show ?thesis by blast
  qed
  ultimately show ?thesis unfolding prune_dead_letters_def by simp
qed

subsection \<open>A run of the janitor\<close>

definition expired_jobs :: "int \<Rightarrow> job_files \<Rightarrow> string \<Rightarrow> job_record option" where
  "expired_jobs now s i = expire now Delivered (expire now Pending (job_at s i))"

lemma orderly_state:
  assumes "orderly cfg at s" and "at i = Some r"
  shows "file_at s (jr_state r) i \<noteq> None"
proof -
  have inv: "outbox_inv cfg s" and "job_at s i = Some r" using assms by (auto simp: orderly_def unmoved_def)
  then obtain b where "file_at s b i = Some (SealedFile (record_aad i) r)" by (auto elim: job_at_SomeE)
  moreover from this assms have "jr_state r = b" by (auto simp: orderly_def tidy_def)
  ultimately show ?thesis by simp
qed

lemma expired_fresh:
  assumes "expired_jobs now s i = Some r" and "jr_state r = Pending \<or> jr_state r = Delivered"
  shows "now < jr_expiresAt r"
  using assms by (cases "job_at s i") (auto simp: expired_jobs_def expire_def split: if_splits)

text \<open>The dead letters of an orderly outbox but for those with the smallest names are kept.\<close>

definition dead_names :: "(string \<Rightarrow> job_record option) \<Rightarrow> string set" where
  "dead_names at = {i. \<exists>r. at i = Some r \<and> jr_state r = DeadLetter}"

definition kept_dead :: "nat \<Rightarrow> (string \<Rightarrow> job_record option) \<Rightarrow> string set" where
  "kept_dead n at = (let names = sorted_list_of_set (dead_names at) in set (drop (length names - n) names))"

definition after_pruning :: "nat \<Rightarrow> (string \<Rightarrow> job_record option) \<Rightarrow> string \<Rightarrow> job_record option" where
  "after_pruning n at i = (if i \<in> dead_names at - kept_dead n at then None else at i)"

lemma orderly_dead_names:
  assumes o': "orderly cfg at s"
  shows "set (job_names s DeadLetter) = dead_names at" and "job_names s DeadLetter = sorted_list_of_set (dead_names at)"
proof -
  have inv: "outbox_inv cfg s" and at: "job_at s = at" using o' by (auto simp: orderly_def unmoved_def)
  have "i \<in> dead_names at \<longleftrightarrow> file_at s DeadLetter i \<noteq> None" for i
  proof
    assume "file_at s DeadLetter i \<noteq> None"
    then obtain f where f: "file_at s DeadLetter i = Some f" by auto
    then obtain r where r: "f = SealedFile (record_aad i) r" using inv_file [OF inv f] by (auto simp: file_ok_def)
    with o' f have "jr_state r = DeadLetter" by (auto simp: orderly_def tidy_def)
    with job_at_stored [OF inv f [unfolded r]] at show "i \<in> dead_names at" by (auto simp: dead_names_def)
  next
    assume "i \<in> dead_names at"
    then obtain r where "at i = Some r" "jr_state r = DeadLetter" by (auto simp: dead_names_def)
    with orderly_state [OF o', of i r] show "file_at s DeadLetter i \<noteq> None" by simp
  qed
  then show s: "set (job_names s DeadLetter) = dead_names at" using job_names_set [OF inv] by auto
  have "sorted (job_names s DeadLetter)" by (simp add: job_names_def)
  with job_names_distinct [OF inv, of DeadLetter] show "job_names s DeadLetter = sorted_list_of_set (dead_names at)"
    unfolding s [symmetric] by (simp add: sorted_list_of_set.idem_if_sorted_distinct)
qed

lemma prune_orderly:
  assumes o': "orderly cfg at s"
  shows "after (prune_dead_letters n) (\<lambda>_. orderly cfg (after_pruning n at)) (\<lambda>_ _. False) s"
proof -
  let ?names = "job_names s DeadLetter"
  let ?k = "length ?names - n"
  have inv: "outbox_inv cfg s" using o' by (auto simp: orderly_def unmoved_def)
  have kept: "kept_dead n at = set (drop ?k ?names)"
    by (simp add: kept_dead_def Let_def orderly_dead_names(2) [OF o', symmetric])
  have "set (take ?k ?names) \<union> set (drop ?k ?names) = dead_names at"
    using orderly_dead_names(1) [OF o'] by (metis append_take_drop_id set_append)
  moreover have "set (take ?k ?names) \<inter> set (drop ?k ?names) = {}"
    using job_names_distinct [OF inv, of DeadLetter] by (metis append_take_drop_id distinct_append)
  ultimately have "set (take ?k ?names) = dead_names at - kept_dead n at" unfolding kept by blast
  then have "(\<lambda>i. if i \<in> set (take ?k ?names) then None else at i) = after_pruning n at"
    by (simp add: after_pruning_def fun_eq_iff)
  then show ?thesis by (intro after_weaken [OF prune_quiet [OF o']]) auto
qed

text \<open>What a run of the janitor makes of the jobs.\<close>

definition maintained_jobs :: "int \<Rightarrow> nat \<Rightarrow> (string \<Rightarrow> job_record option) \<Rightarrow> string \<Rightarrow> job_record option" where
  "maintained_jobs now n at = after_pruning n (\<lambda>i. expire now Delivered (expire now Pending (at i)))"

lemma run_janitor_quiet:
  assumes inv: "outbox_inv cfg s" and q: "quiet s" and l: "je_lock env = Acquired"
  shows "\<exists>s' m. run_janitor n env s = (s', Inr m) \<and> orderly cfg (maintained_jobs (je_now env) n (job_at s)) s'"
proof -
  let ?now = "je_now env" and ?goal = "\<lambda>_. orderly cfg (maintained_jobs (je_now env) n (job_at s))"
  have e2: "after (expire_state ?now Delivered) (\<lambda>_. after (prune_dead_letters n) ?goal (\<lambda>_ _. False)) (\<lambda>_ _. False) s2"
    if "orderly cfg (\<lambda>i. expire ?now Pending (job_at s i)) s2" for s2
    unfolding maintained_jobs_def
    by (rule after_weaken [OF expire_state_quiet [OF that]]) (auto intro: prune_orderly)
  have e1: "after (expire_state ?now Pending) (\<lambda>_. after (expire_state ?now Delivered)
      (\<lambda>_. after (prune_dead_letters n) ?goal (\<lambda>_ _. False)) (\<lambda>_ _. False)) (\<lambda>_ _. False) s1"
    if "orderly cfg (job_at s) s1" for s1
    by (rule after_weaken [OF expire_state_quiet [OF that]]) (auto intro: e2)
  have "after (run_janitor n env) ?goal (\<lambda>_ _. False) s"
    unfolding run_janitor_def locked_def l with_lock_simps after_bindS after_returnS
    by (rule after_weaken [OF janitor_reconcile_quiet [of cfg "job_at s"]])
      (use inv q in \<open>auto simp: unmoved_def orderly_def intro!: e1\<close>)
  from after_returns [OF this] show ?thesis by blast
qed

text \<open>
  C22. Maintenance ends and puts any reachable outbox in order, whatever crashed before: when its
  file-system calls succeed, every job is afterwards in the directory of its state, no pending or
  delivered job is expired, at most \<open>n\<close> dead letters are left, and exactly the expired jobs have become
  dead letters; no job but dead letters is lost.
\<close>

theorem maintenance_restores_order:
  assumes reach: "outbox_reachable cfg s" and limit: "0 < jc_attempts cfg" and l: "je_lock env = Acquired"
  shows "\<exists>s' m. run_janitor n env (s\<lparr>jf_writes := [], jf_moves := []\<rparr>) = (s', Inr m)
    \<and> (\<forall>st i f. file_at s' st i = Some f \<longrightarrow> (\<exists>r. job_at s' i = Some r \<and> jr_state r = st
          \<and> (st = Pending \<or> st = Delivered \<longrightarrow> je_now env < jr_expiresAt r)))
    \<and> length (job_names s' DeadLetter) \<le> n
    \<and> (\<forall>i. job_at s' i = expire (je_now env) Delivered (expire (je_now env) Pending (job_at s i))
          \<or> job_at s' i = None \<and> i \<in> dead_names (\<lambda>i. expire (je_now env) Delivered (expire (je_now env) Pending (job_at s i))))"
proof -
  let ?s = "s\<lparr>jf_writes := [], jf_moves := []\<rparr>"
  let ?at = "\<lambda>i. expire (je_now env) Delivered (expire (je_now env) Pending (job_at s i))"
  have inv0: "outbox_inv cfg ?s" using outbox_reachable_inv [OF reach limit] by simp
  have jobs: "job_at ?s = job_at s" by auto
  obtain s' m where run: "run_janitor n env ?s = (s', Inr m)" and o': "orderly cfg (after_pruning n ?at) s'"
    using run_janitor_quiet [OF inv0 _ l, of n] jobs unfolding maintained_jobs_def quiet_def by auto
  have inv: "outbox_inv cfg s'" and at: "job_at s' = after_pruning n ?at" using o' by (auto simp: orderly_def unmoved_def)
  have fresh: "je_now env < jr_expiresAt r" if "?at i = Some r" "jr_state r = Pending \<or> jr_state r = Delivered" for i r
    using that by (cases "job_at s i") (auto simp: expire_def split: if_splits)
  have "\<exists>r. job_at s' i = Some r \<and> jr_state r = st \<and> (st = Pending \<or> st = Delivered \<longrightarrow> je_now env < jr_expiresAt r)"
    if f: "file_at s' st i = Some f" for st i f
  proof -
    obtain r where r: "f = SealedFile (record_aad i) r" using inv_file [OF inv f] by (auto simp: file_ok_def)
    have j: "job_at s' i = Some r" by (rule job_at_stored [OF inv f [unfolded r]])
    then have "?at i = Some r" unfolding at by (simp add: after_pruning_def split: if_splits)
    moreover have "jr_state r = st" using o' f r by (auto simp: orderly_def tidy_def)
    ultimately show ?thesis using j fresh by blast
  qed
  moreover have "length (job_names s' DeadLetter) \<le> n"
  proof -
    have "dead_names (after_pruning n ?at) \<subseteq> kept_dead n ?at" by (auto simp: dead_names_def after_pruning_def split: if_splits)
    then have "card (dead_names (after_pruning n ?at)) \<le> card (kept_dead n ?at)" by (rule card_mono [rotated]) (simp add: kept_dead_def Let_def)
    also have "\<dots> \<le> n" unfolding kept_dead_def Let_def by (rule order_trans [OF card_length]) simp
    finally show ?thesis using orderly_dead_names(2) [OF o'] by simp
  qed
  moreover have "job_at s' i = ?at i \<or> job_at s' i = None \<and> i \<in> dead_names ?at" for i
    unfolding at by (simp add: after_pruning_def)
  ultimately show ?thesis using run by blast
qed

theorem maintenance_restores_order_witness:
  "\<exists>s' m r. run_janitor 1 (sample_env_at 60000) (sample_queued\<lparr>jf_writes := [], jf_moves := []\<rparr>) = (s', Inr m)
    \<and> length (job_names s' DeadLetter) \<le> 1 \<and> job_at sample_queued sample_job_id = Some r
    \<and> (job_at s' sample_job_id = Some (dead_record 60000 ''job_expired'' r) \<or> job_at s' sample_job_id = None)"
proof -
  obtain r where r: "job_at sample_queued sample_job_id = Some r" "jr_state r = Pending" "jr_expiresAt r = 60000" by (rule sample_jobs)
  have l: "je_lock (sample_env_at 60000) = Acquired" by (simp add: sample_env_at_def)
  obtain s' m where run: "run_janitor 1 (sample_env_at 60000) (sample_queued\<lparr>jf_writes := [], jf_moves := []\<rparr>) = (s', Inr m)"
    and few: "length (job_names s' DeadLetter) \<le> 1"
    and jobs: "job_at s' sample_job_id = expire (je_now (sample_env_at 60000)) Delivered
        (expire (je_now (sample_env_at 60000)) Pending (job_at sample_queued sample_job_id)) \<or> job_at s' sample_job_id = None"
    using maintenance_restores_order [OF sample_outbox_reachable(1) sample_limit l, of 1] by blast
  have "expire (je_now (sample_env_at 60000)) Delivered (expire (je_now (sample_env_at 60000)) Pending (Some r))
      = Some (dead_record 60000 ''job_expired'' r)"
    using r by (simp add: expire_def sample_env_at_def expiry_reason_def)
  with run few jobs r show ?thesis by auto
qed

text \<open>
  Which dead letters go is decided by their names, which are digests, and not by their age: a job is
  removed when enough dead letters have greater names, however recently it died.
\<close>

theorem dead_letters_pruned_by_name:
  assumes inv: "outbox_inv cfg s" and q: "quiet s" and l: "je_lock env = Acquired"
    and dead: "dead_names (\<lambda>i. expire (je_now env) Delivered (expire (je_now env) Pending (job_at s i))) = D"
    and i: "i \<in> D" and greater: "n \<le> card {j \<in> D. i < j}" and fin: "finite D"
  shows "\<exists>s' m. run_janitor n env s = (s', Inr m) \<and> job_at s' i = None"
proof -
  let ?at = "\<lambda>i. expire (je_now env) Delivered (expire (je_now env) Pending (job_at s i))"
  let ?names = "sorted_list_of_set D"
  obtain s' m where run: "run_janitor n env s = (s', Inr m)" and o': "orderly cfg (after_pruning n ?at) s'"
    using run_janitor_quiet [OF inv q l, of n] unfolding maintained_jobs_def by auto
  have "i \<notin> set (drop (length ?names - n) ?names)"
  proof
    assume later: "i \<in> set (drop (length ?names - n) ?names)"
    have "{j \<in> D. i < j} \<subseteq> set (drop (length ?names - n) ?names) - {i}"
    proof
      fix j assume "j \<in> {j \<in> D. i < j}"
      then have j: "j \<in> set ?names" "i < j" using fin by auto
      have "j \<notin> set (take (length ?names - n) ?names)"
      proof
        assume "j \<in> set (take (length ?names - n) ?names)"
        moreover have "sorted (take (length ?names - n) ?names @ drop (length ?names - n) ?names)" by simp
        ultimately have "j \<le> i" using later unfolding sorted_append by blast
        with j show False by simp
      qed
      with j show "j \<in> set (drop (length ?names - n) ?names) - {i}"
        by (metis Diff_iff Un_iff append_take_drop_id less_irrefl set_append singletonD)
    qed
    then have "card {j \<in> D. i < j} \<le> card (set (drop (length ?names - n) ?names) - {i})" by (rule card_mono [rotated]) simp
    also have "\<dots> < card (set (drop (length ?names - n) ?names))" using later by (intro card_Diff1_less) simp_all
    also have "\<dots> \<le> n" by (rule order_trans [OF card_length]) simp
    finally show False using greater by simp
  qed
  then have "after_pruning n ?at i = None" using i dead by (simp add: after_pruning_def kept_dead_def Let_def)
  with run o' show ?thesis by (auto simp: orderly_def unmoved_def)
qed

subsection \<open>A job that nobody can claim\<close>

text \<open>
  \<open>queue\<close> looks the provider up under the trimmed identifier, but names and stores the job with the
  identifier as it was sent: with a blank in front it is accepted, and no request can ever claim it.
\<close>

lemma padded_provider_accepted:
  assumes "c = CHR '' ''"
  shows "provider_for cfg (JStr (c # p)) = provider_for cfg (JStr p)"
    and "jr_providerId (new_record cfg now content (JStr (c # p)) delivery queuedBy jobId) = JStr (c # p)"
  using assms by (simp_all add: provider_for_def job_identifier_def trimmed_def js_trim_def is_ws_def new_record_def Let_def)

theorem unknown_provider_is_never_served:
  assumes reach: "outbox_reachable cfg s" and limit: "0 < jc_attempts cfg"
    and r: "job_at s i = Some r" "jr_state r = Pending"
    and unknown: "\<And>p. jr_providerId r = JStr p \<Longrightarrow> map_of (jc_providers cfg) p = None"
    and after: "job_at (run_outbox cfg env (ClaimJobs body headers) (s\<lparr>jf_writes := ws, jf_moves := ms\<rparr>)) i = Some r'"
  shows "jr_state r' \<noteq> Inflight"
proof -
  let ?P = "\<lambda>x. \<forall>q. x = Some q \<longrightarrow> jr_state q \<noteq> Inflight \<and> jr_providerId q = jr_providerId r"
  have known: "map_of (jc_providers cfg) (sa_providerId auth) \<noteq> None"
    if "authenticate_scan cfg (je_now env) body headers = Inr auth" for auth
    using that by (auto simp: authenticate_scan_def Let_def)
  have step: "?P y" if "job_step cfg env (ClaimJobs body headers) x y" "?P x" for x y
    using that
  proof (cases rule: job_step.cases)
    case (js_claimed body' headers' auth r1)
    then have "jr_providerId r = JStr (sa_providerId auth)" using that(2) by simp
    then show ?thesis using unknown known js_claimed by auto
  qed (auto simp: dead_record_def back_to_pending_def)
  have "kept cfg (job_step cfg env (ClaimJobs body headers)) (s\<lparr>jf_writes := ws, jf_moves := ms\<rparr>)
      (run_outbox cfg env (ClaimJobs body headers) (s\<lparr>jf_writes := ws, jf_moves := ms\<rparr>))"
    using outbox_reachable_inv [OF reach limit] by (intro command_keeps [OF limit]) simp
  then have "(job_step cfg env (ClaimJobs body headers))\<^sup>*\<^sup>* (Some r) (Some r')"
    unfolding kept_def using r after by (metis job_at_draws(1,2))
  then have "?P (Some r')"
    by (induction rule: rtranclp_induct) (use r step in \<open>simp, blast\<close>)
  then show ?thesis by simp
qed

end
