(* ===== verification/AccessControl.thy ===== *)
theory AccessControl
  imports Base64
begin

section \<open>API-key access control (src/security/accessControl.js)\<close>

text \<open>
  Roles and their permissions, the normalisation of the configured credentials, the
  authentication of a request by its \<open>x-api-key\<close> header, permission checks and the
  credential report. \<open>scrypt\<close> stands for \<open>scryptSync(secret, salt, 32)\<close>, as the text of the
  derived bytes, and \<open>H\<close> for the hexadecimal sha256 digest. A header is the value Node
  gives it: a text, an array of texts, or \<open>undefined\<close>.
\<close>

subsection \<open>Roles\<close>

definition role_permissions :: "(string \<times> string list) list" where
  "role_permissions =
    [(''audit_viewer'', [''audit:read'']),
     (''auditor'', [''audit:read'', ''fieldwork:write'', ''finding:write'']),
     (''audit_manager'',
      [''audit:read'', ''engagement:write'', ''fieldwork:write'', ''finding:write'', ''governance:read'',
       ''evidence:scan'', ''evidence:preserve'', ''evidence:export'',
       ''backup:read'', ''backup:write'', ''replica:read'', ''replica:write'', ''resilience:read'', ''drill:run'',
       ''coordination:read'', ''privileged:request'', ''privileged:read'']),
     (''compliance_admin'',
      [''audit:read'', ''engagement:write'', ''fieldwork:write'', ''finding:write'', ''governance:read'',
       ''evidence:scan'', ''evidence:preserve'', ''evidence:export'',
       ''backup:read'', ''backup:write'', ''backup:restore'', ''replica:read'', ''replica:write'',
       ''resilience:read'', ''resilience:run'', ''drill:run'', ''coordination:read'', ''security:read'',
       ''privileged:request'', ''privileged:read'', ''privileged:approve'', ''privileged:revoke'',
       ''privileged:break_glass''])]"

datatype access_error =
    Unauthenticated
  | InvalidKey string
  | CredentialRevoked string
  | CredentialNotActive string int
  | CredentialExpired string int
  | TenantOverride string string
  | PermissionDenied "string option" string
  | ConfigError string

definition permissions_for_role :: "string \<Rightarrow> string list option" where
  "permissions_for_role role = map_of role_permissions role"

subsection \<open>Credentials\<close>

datatype secret =
    Legacy string
  | Scrypt string string

record credential =
  cr_keyId :: string
  cr_subject :: string
  cr_tenantId :: string
  cr_role :: string
  cr_status :: string
  cr_notBefore :: "int option"
  cr_expiresAt :: "int option"
  cr_secret :: secret

definition credential_statuses :: "string list" where
  "credential_statuses = [''active'', ''retiring'', ''revoked'']"

definition clean_identifier :: "jsval \<Rightarrow> string \<Rightarrow> access_error + string" where
  "clean_identifier v field = (let i = trimmed v in
     if safe_ident ''._-'' 1 127 i then Inr i else Inl (ConfigError field))"

definition optional_date :: "(string \<Rightarrow> int option) \<Rightarrow> jsval \<Rightarrow> string \<Rightarrow> access_error + int option" where
  "optional_date dp v field = (if v \<in> {JUndef, JNull, JStr []} then Inr None
     else (case new_date dp v of None \<Rightarrow> Inl (ConfigError field) | Some t \<Rightarrow> Inr (Some t)))"

text \<open>\<open>s.indexOf('.')\<close>, the length of the text when there is none.\<close>

definition dot_index :: "string \<Rightarrow> nat" where
  "dot_index s = length (takeWhile (\<lambda>c. c \<noteq> CHR ''.'') s)"

definition has_dot :: "string \<Rightarrow> bool" where
  "has_dot s = (CHR ''.'' \<in> set s)"

definition credential_hint :: "(string \<Rightarrow> string) \<Rightarrow> string \<Rightarrow> string" where
  "credential_hint H s = (let possible = take (dot_index s) s in
     if has_dot s \<and> dot_index s > 1 \<and> safe_ident ''._-'' 1 127 possible then possible
     else ''legacy-'' @ take 12 (H s))"

definition hash_api_key_secret :: "(string \<Rightarrow> string \<Rightarrow> string) \<Rightarrow> jsval \<Rightarrow> jsval \<Rightarrow> access_error + string" where
  "hash_api_key_secret scrypt secret salt =
     (let value = js_String (js_or_nullish secret (JStr [])); safeSalt = js_String (js_or_nullish salt (JStr [])) in
      ensure (length value \<ge> 16) (ConfigError ''secret'')
     (ensure (length safeSalt \<ge> 16) (ConfigError ''salt'')
       (Inr (b64_encode (scrypt value safeSalt)))))"

definition normalise_secret :: "(string \<Rightarrow> string) \<Rightarrow> bool \<Rightarrow> jsval \<Rightarrow> access_error + string \<times> secret" where
  "normalise_secret H allowLegacyPlaintext p = (if js_get p ''apiKey'' \<noteq> JUndef then
       ensure allowLegacyPlaintext (ConfigError ''apiKey'')
      (let apiKey = js_String (js_get p ''apiKey'') in
       ensure (length apiKey \<ge> 16) (ConfigError ''apiKey'')
      (bindR (if truthy (js_get p ''keyId'') then clean_identifier (js_get p ''keyId'') ''keyId''
              else Inr (credential_hint H apiKey)) (\<lambda>keyId.
       Inr (keyId, Legacy apiKey))))
     else
       bindR (clean_identifier (js_get p ''keyId'') ''keyId'') (\<lambda>keyId.
       let salt = js_String (js_or_nullish (js_get p ''salt'') (JStr []));
           secretHash = js_String (js_or_nullish (js_get p ''secretHash'') (JStr [])) in
       ensure (length salt \<ge> 16) (ConfigError ''salt'')
      (let decoded = buffer_from secretHash in
       ensure (length decoded = 32 \<and> b64_encode decoded = secretHash) (ConfigError ''secretHash'')
         (Inr (keyId, Scrypt salt secretHash)))))"

text \<open>\<open>notBefore && expiresAt && expiresAt <= notBefore\<close> is refused.\<close>

definition window_ok :: "int option \<Rightarrow> int option \<Rightarrow> bool" where
  "window_ok nb e = (case (nb, e) of (Some n, Some x) \<Rightarrow> n < x | _ \<Rightarrow> True)"

definition normalise_principal ::
  "(string \<Rightarrow> int option) \<Rightarrow> (string \<Rightarrow> string) \<Rightarrow> bool \<Rightarrow> string list \<Rightarrow> jsval \<Rightarrow> access_error + credential" where
  "normalise_principal dp H allowLegacyPlaintext identifiers p =
     ensure (is_plain_object p) (ConfigError ''principal'')
    (bindR (clean_identifier (js_get p ''subject'') ''subject'') (\<lambda>subject.
     bindR (clean_identifier (js_get p ''tenantId'') ''tenantId'') (\<lambda>tenantId.
     let role = js_String (js_or_nullish (js_get p ''role'') (JStr [])) in
     ensure (permissions_for_role role \<noteq> None) (ConfigError ''role'')
    (let status = js_String (js_or_nullish (js_get p ''status'') (JStr ''active'')) in
     ensure (status \<in> set credential_statuses) (ConfigError ''status'')
    (bindR (optional_date dp (js_get p ''notBefore'') ''notBefore'') (\<lambda>notBefore.
     bindR (optional_date dp (js_get p ''expiresAt'') ''expiresAt'') (\<lambda>expiresAt.
     ensure (window_ok notBefore expiresAt) (ConfigError ''expiresAt'')
    (bindR (normalise_secret H allowLegacyPlaintext p) (\<lambda>(keyId, secret).
     ensure (keyId \<notin> set identifiers) (ConfigError ''keyId'')
       (Inr \<lparr>cr_keyId = keyId, cr_subject = subject, cr_tenantId = tenantId, cr_role = role,
             cr_status = status, cr_notBefore = notBefore, cr_expiresAt = expiresAt,
             cr_secret = secret\<rparr>))))))))))"

fun normalise_list ::
  "(string \<Rightarrow> int option) \<Rightarrow> (string \<Rightarrow> string) \<Rightarrow> bool \<Rightarrow> string list \<Rightarrow> jsval list \<Rightarrow> access_error + credential list" where
  "normalise_list dp H allow identifiers [] = Inr []"
| "normalise_list dp H allow identifiers (p # ps) =
     bindR (normalise_principal dp H allow identifiers p) (\<lambda>r.
     bindR (normalise_list dp H allow (cr_keyId r # identifiers) ps) (\<lambda>rs. Inr (r # rs)))"

definition normalise_principals ::
  "(string \<Rightarrow> int option) \<Rightarrow> (string \<Rightarrow> string) \<Rightarrow> bool \<Rightarrow> jsval \<Rightarrow> access_error + credential list" where
  "normalise_principals dp H allow ps =
     ensure (is_array ps \<and> elements ps \<noteq> []) (ConfigError ''principals'')
    (ensure (length (elements ps) \<le> 100) (ConfigError ''principals'')
      (normalise_list dp H allow [] (elements ps)))"

subsection \<open>Authentication\<close>

record principal =
  pr_subject :: string
  pr_tenantId :: string
  pr_role :: string
  pr_permissions :: "string list"
  pr_keyId :: string
  pr_authMethod :: "string option"
  pr_amr :: "string list"
  pr_acr :: string
  pr_externalSubjectHash :: string
  pr_credentialStatus :: string
  pr_credentialExpiresAt :: "int option"
  pr_rotationRequired :: bool

fun header_value :: "jsval \<Rightarrow> string" where
  "header_value (JArr (v # _)) = js_trim (js_String v)"
| "header_value (JStr s) = js_trim s"
| "header_value _ = []"

definition verify_scrypt :: "(string \<Rightarrow> string \<Rightarrow> string) \<Rightarrow> credential \<Rightarrow> string \<Rightarrow> bool" where
  "verify_scrypt scrypt r secret = (case cr_secret r of
       Scrypt salt secretHash \<Rightarrow> scrypt secret salt = buffer_from secretHash
     | Legacy _ \<Rightarrow> False)"

definition find_scrypt :: "credential list \<Rightarrow> string \<Rightarrow> credential option" where
  "find_scrypt records keyId = List.find (\<lambda>r. (case cr_secret r of Scrypt _ _ \<Rightarrow> True | _ \<Rightarrow> False) \<and> cr_keyId r = keyId) records"

definition find_legacy :: "credential list \<Rightarrow> string \<Rightarrow> credential option" where
  "find_legacy records key = List.find (\<lambda>r. cr_secret r = Legacy key) records"

definition resolve_credential :: "(string \<Rightarrow> string \<Rightarrow> string) \<Rightarrow> credential list \<Rightarrow> string \<Rightarrow> credential option" where
  "resolve_credential scrypt records key =
     (if has_dot key \<and> dot_index key > 1 then
        (case find_scrypt records (take (dot_index key) key) of
           Some r \<Rightarrow> if verify_scrypt scrypt r (drop (Suc (dot_index key)) key) then Some r else find_legacy records key
         | None \<Rightarrow> find_legacy records key)
      else find_legacy records key)"

definition day_ms :: int where
  "day_ms = 86400000"

definition expires_soon :: "int \<Rightarrow> int \<Rightarrow> credential \<Rightarrow> bool" where
  "expires_soon warningDays now r = (case cr_expiresAt r of None \<Rightarrow> False | Some e \<Rightarrow> e - now \<le> warningDays * day_ms)"

definition authenticate ::
  "(string \<Rightarrow> string \<Rightarrow> string) \<Rightarrow> (string \<Rightarrow> string) \<Rightarrow> int \<Rightarrow> int \<Rightarrow> credential list \<Rightarrow> (string \<Rightarrow> jsval) \<Rightarrow> access_error + principal" where
  "authenticate scrypt H warningDays now records headers =
     (let suppliedKey = header_value (headers ''x-api-key'') in
      ensure (suppliedKey \<noteq> []) Unauthenticated
     (bindR (from_option (InvalidKey (credential_hint H suppliedKey)) (resolve_credential scrypt records suppliedKey)) (\<lambda>r.
      ensure (cr_status r \<noteq> ''revoked'') (CredentialRevoked (cr_keyId r))
     (ensure (case cr_notBefore r of None \<Rightarrow> True | Some n \<Rightarrow> \<not> now < n)
        (CredentialNotActive (cr_keyId r) (the (cr_notBefore r)))
     (ensure (case cr_expiresAt r of None \<Rightarrow> True | Some e \<Rightarrow> \<not> now \<ge> e)
        (CredentialExpired (cr_keyId r) (the (cr_expiresAt r)))
     (let requestedTenant = header_value (headers ''x-tenant-id'') in
      ensure (requestedTenant = [] \<or> requestedTenant = cr_tenantId r) (TenantOverride (cr_keyId r) requestedTenant)
     (bindR (from_option (ConfigError ''role'') (permissions_for_role (cr_role r))) (\<lambda>permissions.
      Inr \<lparr>pr_subject = cr_subject r, pr_tenantId = cr_tenantId r, pr_role = cr_role r,
           pr_permissions = permissions, pr_keyId = cr_keyId r, pr_authMethod = None, pr_amr = [], pr_acr = [],
           pr_externalSubjectHash = [], pr_credentialStatus = cr_status r,
           pr_credentialExpiresAt = cr_expiresAt r,
           pr_rotationRequired = (cr_status r = ''retiring'' \<or> expires_soon warningDays now r)\<rparr>))))))))"

definition authorise :: "principal option \<Rightarrow> string \<Rightarrow> access_error + principal" where
  "authorise p permission = (case p of
       None \<Rightarrow> Inl (PermissionDenied None permission)
     | Some q \<Rightarrow> ensure (permission \<in> set (pr_permissions q)) (PermissionDenied (Some (pr_keyId q)) permission) (Inr q))"

definition tenant_ids :: "credential list \<Rightarrow> string list" where
  "tenant_ids records = uniq (map cr_tenantId (filter (\<lambda>r. cr_status r \<noteq> ''revoked'') records))"

subsection \<open>The credential report\<close>

record credential_counts =
  cc_active :: nat
  cc_retiring :: nat
  cc_revoked :: nat
  cc_expired :: nat
  cc_notYetActive :: nat
  cc_legacyPlaintext :: nat
  cc_rotationRequired :: nat
  cc_usable :: nat
  cc_nextExpiryAt :: "int option"

definition no_counts :: credential_counts where
  "no_counts = \<lparr>cc_active = 0, cc_retiring = 0, cc_revoked = 0, cc_expired = 0, cc_notYetActive = 0,
     cc_legacyPlaintext = 0, cc_rotationRequired = 0, cc_usable = 0, cc_nextExpiryAt = None\<rparr>"

definition before_start :: "int \<Rightarrow> credential \<Rightarrow> bool" where
  "before_start now r = (case cr_notBefore r of None \<Rightarrow> False | Some n \<Rightarrow> now < n)"

definition after_end :: "int \<Rightarrow> credential \<Rightarrow> bool" where
  "after_end now r = (case cr_expiresAt r of None \<Rightarrow> False | Some e \<Rightarrow> now \<ge> e)"

text \<open>One turn of the loop over the records, statement by statement.\<close>

definition count_status :: "credential \<Rightarrow> credential_counts \<Rightarrow> credential_counts" where
  "count_status r c = (if cr_status r = ''active'' then c\<lparr>cc_active := cc_active c + 1\<rparr>
     else if cr_status r = ''retiring'' then c\<lparr>cc_retiring := cc_retiring c + 1\<rparr>
     else c\<lparr>cc_revoked := cc_revoked c + 1\<rparr>)"

definition count_mode :: "credential \<Rightarrow> credential_counts \<Rightarrow> credential_counts" where
  "count_mode r c = (case cr_secret r of
     Legacy _ \<Rightarrow> c\<lparr>cc_legacyPlaintext := cc_legacyPlaintext c + 1\<rparr> | Scrypt _ _ \<Rightarrow> c)"

definition count_phase :: "int \<Rightarrow> credential \<Rightarrow> credential_counts \<Rightarrow> credential_counts" where
  "count_phase now r c = (if before_start now r then c\<lparr>cc_notYetActive := cc_notYetActive c + 1\<rparr>
     else if after_end now r then c\<lparr>cc_expired := cc_expired c + 1\<rparr>
     else if cr_status r \<noteq> ''revoked'' then c\<lparr>cc_usable := cc_usable c + 1\<rparr> else c)"

definition count_rotation :: "int \<Rightarrow> int \<Rightarrow> credential \<Rightarrow> credential_counts \<Rightarrow> credential_counts" where
  "count_rotation warningDays now r c =
     (if (cr_status r = ''retiring'' \<or> expires_soon warningDays now r) \<and> cr_status r \<noteq> ''revoked''
      then c\<lparr>cc_rotationRequired := cc_rotationRequired c + 1\<rparr> else c)"

definition note_expiry :: "int \<Rightarrow> credential \<Rightarrow> credential_counts \<Rightarrow> credential_counts" where
  "note_expiry now r c = (case cr_expiresAt r of None \<Rightarrow> c | Some e \<Rightarrow>
     if now < e \<and> (case cc_nextExpiryAt c of None \<Rightarrow> True | Some n \<Rightarrow> e < n)
     then c\<lparr>cc_nextExpiryAt := Some e\<rparr> else c)"

definition count_credential :: "int \<Rightarrow> int \<Rightarrow> credential_counts \<Rightarrow> credential \<Rightarrow> credential_counts" where
  "count_credential warningDays now c r =
     note_expiry now r (count_rotation warningDays now r (count_phase now r (count_mode r (count_status r c))))"

definition credential_health :: "int \<Rightarrow> int \<Rightarrow> credential list \<Rightarrow> string \<times> credential_counts" where
  "credential_health warningDays now records =
     (let c = foldl (count_credential warningDays now) no_counts records
      in (if cc_usable c > 0 then ''ready'' else ''unavailable'', c))"

subsection \<open>What a configuration guarantees\<close>

text \<open>Identifiers are safe, the role is known, and the validity window is not empty.\<close>

definition credential_ok :: "credential \<Rightarrow> bool" where
  "credential_ok r = (safe_ident ''._-'' 1 127 (cr_subject r) \<and> safe_ident ''._-'' 1 127 (cr_tenantId r)
     \<and> permissions_for_role (cr_role r) \<noteq> None \<and> cr_status r \<in> set credential_statuses
     \<and> window_ok (cr_notBefore r) (cr_expiresAt r)
     \<and> (case cr_secret r of Legacy k \<Rightarrow> length k \<ge> 16
         | Scrypt salt h \<Rightarrow> length salt \<ge> 16 \<and> (\<exists>bs. length bs = 32 \<and> h = b64_encode bs)))"

lemma clean_identifier_Inr: "clean_identifier v f = Inr s \<Longrightarrow> safe_ident ''._-'' 1 127 s"
  by (auto simp: clean_identifier_def Let_def split: if_splits)

lemma normalise_secret_ok:
  "normalise_secret H a p = Inr (k, s) \<Longrightarrow> (case s of Legacy x \<Rightarrow> length x \<ge> 16
     | Scrypt salt h \<Rightarrow> length salt \<ge> 16 \<and> (\<exists>bs. length bs = 32 \<and> h = b64_encode bs))"
  by (auto simp: normalise_secret_def Let_def split: if_splits secret.splits)

lemma normalise_principal_ok:
  "normalise_principal dp H a ids p = Inr r \<Longrightarrow> credential_ok r \<and> cr_keyId r \<notin> set ids"
  using normalise_secret_ok [of H a p] clean_identifier_Inr
  by (auto simp: normalise_principal_def credential_ok_def Let_def)

lemma normalise_list_ok:
  "normalise_list dp H a ids ps = Inr rs \<Longrightarrow>
     length rs = length ps \<and> distinct (map cr_keyId rs) \<and> list_all credential_ok rs
     \<and> set (map cr_keyId rs) \<inter> set ids = {}"
proof (induction ps arbitrary: ids rs)
  case (Cons p ps)
  then obtain r rs' where r: "normalise_principal dp H a ids p = Inr r" and rs: "rs = r # rs'"
    and rest: "normalise_list dp H a (cr_keyId r # ids) ps = Inr rs'" by auto
  from Cons.IH [OF rest] normalise_principal_ok [OF r] show ?case by (auto simp: rs)
qed simp

lemma normalise_principals_ok:
  "normalise_principals dp H a ps = Inr rs \<Longrightarrow>
     rs \<noteq> [] \<and> length rs \<le> 100 \<and> distinct (map cr_keyId rs) \<and> list_all credential_ok rs"
  using normalise_list_ok [of dp H a "[]" "elements ps" rs]
  by (cases "elements ps") (auto simp: normalise_principals_def)

subsection \<open>Who a key resolves to\<close>

text \<open>The key is the record's plaintext key, or names the record and carries its secret.\<close>

definition presents :: "(string \<Rightarrow> string \<Rightarrow> string) \<Rightarrow> string \<Rightarrow> credential \<Rightarrow> bool" where
  "presents scrypt key r = (case cr_secret r of
       Legacy k \<Rightarrow> key = k
     | Scrypt salt h \<Rightarrow> has_dot key \<and> take (dot_index key) key = cr_keyId r
         \<and> scrypt (drop (Suc (dot_index key)) key) salt = buffer_from h)"

definition usable_at :: "int \<Rightarrow> credential \<Rightarrow> bool" where
  "usable_at now r = (cr_status r \<noteq> ''revoked'' \<and> \<not> before_start now r \<and> \<not> after_end now r)"

lemma find_SomeD: "List.find P xs = Some x \<Longrightarrow> x \<in> set xs \<and> P x"
  by (auto simp: find_Some_iff)

lemma find_legacy_Some: "find_legacy rs key = Some r \<Longrightarrow> r \<in> set rs \<and> cr_secret r = Legacy key"
  unfolding find_legacy_def by (drule find_SomeD) simp

lemma find_scrypt_Some:
  "find_scrypt rs k = Some r \<Longrightarrow> r \<in> set rs \<and> (\<exists>salt h. cr_secret r = Scrypt salt h) \<and> cr_keyId r = k"
  unfolding find_scrypt_def by (drule find_SomeD) (auto split: secret.splits)

lemma resolve_presents:
  assumes "resolve_credential scrypt rs key = Some r"
  shows "r \<in> set rs \<and> presents scrypt key r"
proof -
  consider "find_legacy rs key = Some r"
    | "find_scrypt rs (take (dot_index key) key) = Some r"
      "verify_scrypt scrypt r (drop (Suc (dot_index key)) key)" "has_dot key"
    using assms by (auto simp: resolve_credential_def split: if_splits option.splits)
  then show ?thesis
  proof cases
    case 1
    then show ?thesis by (auto dest!: find_legacy_Some simp: presents_def)
  next
    case 2
    then show ?thesis
      by (auto dest!: find_scrypt_Some simp: presents_def verify_scrypt_def)
  qed
qed

lemma take_dot_index: "CHR ''.'' \<notin> set (take (dot_index s) s)"
  unfolding dot_index_def by (metis (mono_tags, lifting) set_takeWhileD takeWhile_eq_take)

lemma authenticate_Inr:
  assumes "authenticate scrypt H w now rs hs = Inr p"
  obtains r where "resolve_credential scrypt rs (header_value (hs ''x-api-key'')) = Some r" "usable_at now r"
    "header_value (hs ''x-tenant-id'') \<in> {[], cr_tenantId r}"
    "permissions_for_role (cr_role r) = Some (pr_permissions p)"
    "pr_subject p = cr_subject r" "pr_tenantId p = cr_tenantId r" "pr_role p = cr_role r"
proof -
  obtain r perms where "resolve_credential scrypt rs (header_value (hs ''x-api-key'')) = Some r"
    "cr_status r \<noteq> ''revoked''" "\<not> before_start now r" "\<not> after_end now r"
    "header_value (hs ''x-tenant-id'') \<in> {[], cr_tenantId r}"
    "permissions_for_role (cr_role r) = Some perms"
    "pr_permissions p = perms" "pr_subject p = cr_subject r" "pr_tenantId p = cr_tenantId r" "pr_role p = cr_role r"
    using assms by (auto simp: authenticate_def Let_def before_start_def after_end_def split: option.splits)
  then show thesis by (intro that) (simp_all add: usable_at_def)
qed

subsection \<open>What the report counts\<close>

lemma count_usable:
  "cc_usable (count_credential w now c r) = cc_usable c + (if usable_at now r then 1 else 0)"
  by (simp add: count_credential_def usable_at_def note_expiry_def count_rotation_def count_phase_def
      count_mode_def count_status_def split: option.split secret.split)

lemma fold_usable:
  "cc_usable (foldl (count_credential w now) c rs) = cc_usable c + length (filter (usable_at now) rs)"
  by (induction rs arbitrary: c) (simp_all add: count_usable)

lemma health_usable: "cc_usable (snd (credential_health w now rs)) = length (filter (usable_at now) rs)"
  by (simp add: credential_health_def Let_def fold_usable no_counts_def)

lemma health_ready: "fst (credential_health w now rs) = ''ready'' \<longleftrightarrow> (\<exists>r \<in> set rs. usable_at now r)"
  by (auto simp: credential_health_def Let_def fold_usable no_counts_def filter_empty_conv)

subsection \<open>Properties\<close>

definition sample_records :: "credential list" where
  "sample_records = [\<lparr>cr_keyId = ''kid'', cr_subject = ''ann'', cr_tenantId = ''acme'', cr_role = ''auditor'',
     cr_status = ''active'', cr_notBefore = None, cr_expiresAt = Some 9, cr_secret = Legacy ''0123456789abcdef''\<rparr>]"

definition sample_config :: jsval where
  "sample_config = JArr [JObj [(''apiKey'', JStr ''0123456789abcdef''), (''keyId'', JStr ''kid''),
     (''subject'', JStr ''ann''), (''tenantId'', JStr ''acme''), (''role'', JStr ''auditor''), (''expiresAt'', JInt 9)]]"

lemma sample_config_normalises: "normalise_principals Map.empty (\<lambda>s. s) True sample_config = Inr sample_records"
  by code_simp

definition sample_headers :: "string \<Rightarrow> jsval" where
  "sample_headers h = (if h = ''x-api-key'' then JStr ''0123456789abcdef'' else JUndef)"

text \<open>
  C35. A configuration that is accepted holds 1 to 100 credentials with pairwise different
  key identifiers, each with a known role and status, a non-empty validity window, and a
  secret of the required length or a canonical 32-byte hash.
\<close>
theorem accepted_credentials_sound:
  assumes "normalise_principals dp H allow ps = Inr rs"
  shows "rs \<noteq> [] \<and> length rs \<le> 100 \<and> distinct (map cr_keyId rs) \<and> list_all credential_ok rs"
  using normalise_principals_ok [OF assms] .

theorem accepted_credentials_sound_witness:
  "sample_records \<noteq> [] \<and> length sample_records \<le> 100 \<and> distinct (map cr_keyId sample_records)
     \<and> list_all credential_ok sample_records"
  by (rule accepted_credentials_sound [OF sample_config_normalises])

text \<open>
  An authenticated principal is that of a configured credential whose key or secret was
  presented, which is neither revoked, nor early, nor expired at that moment; its tenant,
  subject and role are the credential's, its permissions the role's, whatever the
  \<open>x-tenant-id\<close> header says: a header that names another tenant is refused. Moreover the
  credential report is then \<open>ready\<close>.
\<close>
theorem authenticated_principal_is_configured:
  assumes "authenticate scrypt H w now rs hs = Inr p"
  shows "\<exists>r \<in> set rs. presents scrypt (header_value (hs ''x-api-key'')) r
      \<and> cr_status r \<noteq> ''revoked'' \<and> \<not> before_start now r \<and> \<not> after_end now r
      \<and> pr_tenantId p = cr_tenantId r \<and> pr_subject p = cr_subject r \<and> pr_role p = cr_role r
      \<and> permissions_for_role (cr_role r) = Some (pr_permissions p)
      \<and> header_value (hs ''x-tenant-id'') \<in> {[], cr_tenantId r}
      \<and> fst (credential_health w now rs) = ''ready''"
proof -
  obtain r where r: "resolve_credential scrypt rs (header_value (hs ''x-api-key'')) = Some r" "usable_at now r"
    and p: "header_value (hs ''x-tenant-id'') \<in> {[], cr_tenantId r}"
      "permissions_for_role (cr_role r) = Some (pr_permissions p)"
      "pr_subject p = cr_subject r" "pr_tenantId p = cr_tenantId r" "pr_role p = cr_role r"
    using assms by (rule authenticate_Inr)
  have "r \<in> set rs \<and> presents scrypt (header_value (hs ''x-api-key'')) r"
    using r(1) by (rule resolve_presents)
  then show ?thesis using r(2) p health_ready [of w now rs] unfolding usable_at_def by blast
qed

theorem authenticated_principal_is_configured_witness:
  "fst (credential_health 14 5 sample_records) = ''ready''"
proof -
  have "ok (authenticate (\<lambda>a b. a) (\<lambda>s. s) 14 5 sample_records sample_headers)" by code_simp
  then show ?thesis using authenticated_principal_is_configured by (fastforce simp: ok_iff)
qed

text \<open>
  The key identifier of a hashed credential may contain dots, but the text before the
  first dot of a presented key is what is looked up: a credential whose identifier contains
  a dot is never resolved.
\<close>
theorem dotted_key_never_resolves:
  assumes "r \<in> set rs" "cr_secret r = Scrypt salt h" "CHR ''.'' \<in> set (cr_keyId r)"
  shows "resolve_credential scrypt rs key \<noteq> Some r"
proof
  assume "resolve_credential scrypt rs key = Some r"
  then have "take (dot_index key) key = cr_keyId r"
    using resolve_presents [of scrypt rs key r] assms by (simp add: presents_def)
  then show False using take_dot_index [of key] assms(3) by simp
qed

definition dotted_config :: jsval where
  "dotted_config = JArr [JObj [(''keyId'', JStr ''k.1''), (''salt'', JStr ''0123456789abcdef''),
     (''secretHash'', JStr (b64_encode (replicate 32 (CHR ''x'')))),
     (''subject'', JStr ''ann''), (''tenantId'', JStr ''acme''), (''role'', JStr ''auditor'')]]"

theorem dotted_key_never_resolves_witness:
  "\<exists>r. normalise_principals Map.empty (\<lambda>s. s) False dotted_config = Inr [r]
     \<and> resolve_credential (\<lambda>a b. replicate 32 (CHR ''x'')) [r] ''k.1.secret'' \<noteq> Some r"
proof -
  let ?r = "\<lparr>cr_keyId = ''k.1'', cr_subject = ''ann'', cr_tenantId = ''acme'', cr_role = ''auditor'',
    cr_status = ''active'', cr_notBefore = None, cr_expiresAt = None,
    cr_secret = Scrypt ''0123456789abcdef'' (b64_encode (replicate 32 (CHR ''x'')))\<rparr>"
  have "normalise_principals Map.empty (\<lambda>s. s) False dotted_config = Inr [?r]" by code_simp
  moreover have "resolve_credential (\<lambda>a b. replicate 32 (CHR ''x'')) [?r] ''k.1.secret'' \<noteq> Some ?r"
    by (rule dotted_key_never_resolves) simp_all
  ultimately show ?thesis by blast
qed

end
