(* ===== verification/IdentityRegistry.thy ===== *)
theory IdentityRegistry
  imports AccessControl HashChain Effects
begin

section \<open>Identity entitlements (src/security/identityEntitlementRegistry.js)\<close>

text \<open>
  The locally approved tenant, role, activity and review deadline of every federated user,
  kept in one sealed file under a file mutex, with a hash-chained log of the changes. The
  subject of a user is derived from the issuer and the provider's name for the user
  (src/security/federatedIdentity.js). The model of the file is an envelope that opens with
  the key it was sealed with; \<open>engine\<close> has what the JavaScript engine provides: sha256 as a
  hexadecimal text, \<open>Date.parse\<close>, \<open>JSON.parse\<close>, the URL parser, public keys and scrypt.
\<close>

subsection \<open>Data\<close>

record url =
  url_protocol :: string
  url_username :: string
  url_password :: string
  url_hash :: string
  url_search :: string
  url_hostname :: string
  url_href :: string

text \<open>
  \<open>json_parse\<close> reads the bytes of a text, \<open>key_bits\<close> is the modulus length of a public key, or
  nothing when \<open>createPublicKey\<close> throws, and \<open>signature_ok\<close> is \<open>verify\<close> of a signature, which may
  throw too; \<open>uri_decode\<close> is \<open>decodeURIComponent\<close>.
\<close>

record engine =
  sha256 :: "string \<Rightarrow> string"
  date_parse :: "string \<Rightarrow> int option"
  url_parse :: "string \<Rightarrow> url option"
  json_parse :: "string \<Rightarrow> jsval option"
  key_bits :: "jsval \<Rightarrow> int option"
  signature_ok :: "string \<Rightarrow> jsval \<Rightarrow> string \<Rightarrow> string \<Rightarrow> bool option"
  scrypt32 :: "string \<Rightarrow> string \<Rightarrow> string"
  uri_decode :: "string \<Rightarrow> string option"

datatype id_error =
    IdDenied string
  | IdConflict
  | IdTypeErr string
  | IdStoreUnavailable

datatype id_mode = IdObserve | IdEnforce

record id_config =
  ic_mode :: id_mode
  ic_keys :: "(string \<times> string) list"
  ic_primary :: string
  ic_reviewDays :: int
  ic_retention :: nat

record id_user =
  iu_id :: string
  iu_subject :: string
  iu_tenantId :: string
  iu_role :: string
  iu_active :: bool
  iu_displayName :: "string option"
  iu_reviewBy :: int
  iu_source :: string
  iu_createdAt :: int
  iu_updatedAt :: int
  iu_version :: nat

record id_event =
  ie_id :: string
  ie_sequence :: nat
  ie_occurredAt :: int
  ie_actor :: string
  ie_action :: string
  ie_subject :: string
  ie_tenantId :: string
  ie_role :: string
  ie_active :: bool
  ie_reason :: string
  ie_version :: nat
  ie_previousHash :: "string option"
  ie_hash :: string

record id_snapshot =
  is_sequence :: nat
  is_updatedAt :: int
  is_users :: "(string \<times> id_user) list"
  is_events :: "id_event list"
  is_anchorSequence :: nat
  is_anchorHash :: "string option"

text \<open>
  The file: absent, not an envelope, or an envelope that names a key, was sealed with the
  bytes of one, and holds a snapshot.
\<close>

datatype id_file = NoUsers | NoEnvelope | UserEnvelope string string id_snapshot

text \<open>What one call of the registry meets: the clock, the mutex, the write, the drawn identifiers.\<close>

record id_env =
  ix_now :: int
  ix_lock :: lock_outcome
  ix_write :: write_outcome
  ix_userUuid :: string
  ix_eventUuid :: string

subsection \<open>Federated subjects (src/security/federatedIdentity.js)\<close>

definition drop_slash :: "string \<Rightarrow> string" where
  "drop_slash s = (if s \<noteq> [] \<and> last s = CHR ''/'' then butlast s else s)"

definition plain_https :: "url \<Rightarrow> bool" where
  "plain_https u = (url_protocol u = ''https:'' \<and> url_username u = [] \<and> url_password u = []
     \<and> url_hash u = [] \<and> url_search u = [])"

definition exact_issuer :: "engine \<Rightarrow> jsval \<Rightarrow> id_error + string" where
  "exact_issuer w v =
     bindR (from_option (IdTypeErr ''issuer'') (url_parse w (js_String (js_or_nullish v (JStr []))))) (\<lambda>u.
     ensure (plain_https u) (IdTypeErr ''issuer'') (Inr (drop_slash (url_href u))))"

text \<open>The texts hashed for a subject, \<open>issuer|name\<close>, and the result: subject and short hash.\<close>

definition subject_text :: "string \<Rightarrow> string \<Rightarrow> string" where
  "subject_text issuer name = issuer @ ''|'' @ name"

definition federated_subject :: "engine \<Rightarrow> string \<Rightarrow> string \<Rightarrow> string" where
  "federated_subject w issuer name = ''oidc-'' @ take 24 (sha256 w (subject_text issuer name))"

definition derive_federated_subject :: "engine \<Rightarrow> jsval \<Rightarrow> jsval \<Rightarrow> id_error + string \<times> string" where
  "derive_federated_subject w issuer externalSubject =
     bindR (exact_issuer w issuer) (\<lambda>expectedIssuer.
     let subjectClaim = js_String (js_or_nullish externalSubject (JStr [])) in
     ensure (subjectClaim \<noteq> [] \<and> length subjectClaim \<le> 512) (IdTypeErr ''externalSubject'')
       (Inr (federated_subject w expectedIssuer subjectClaim,
             take 24 (sha256 w (subject_text expectedIssuer subjectClaim)))))"

subsection \<open>Validators\<close>

definition id_safe_role :: "jsval \<Rightarrow> id_error + string" where
  "id_safe_role v = (let role = js_String (js_or_nullish v (JStr [])) in
     ensure (permissions_for_role role \<noteq> None) (IdTypeErr ''role'') (Inr role))"

definition id_safe_identifier :: "jsval \<Rightarrow> string \<Rightarrow> id_error + string" where
  "id_safe_identifier v field = (let t = trimmed v in
     ensure (safe_ident ''._:-'' 0 127 t) (IdTypeErr field) (Inr t))"

definition id_required_text :: "jsval \<Rightarrow> string \<Rightarrow> nat \<Rightarrow> id_error + string" where
  "id_required_text v field hi = from_option (IdTypeErr field) (text_in 1 hi v)"

definition id_optional_text :: "jsval \<Rightarrow> nat \<Rightarrow> id_error + string option" where
  "id_optional_text v hi = (if v \<in> {JUndef, JNull, JStr []} then Inr None
     else bindR (id_required_text v ''text'' hi) (\<lambda>t. Inr (Some t)))"

definition id_required_reason :: "jsval \<Rightarrow> id_error + string" where
  "id_required_reason v = id_required_text v ''reason'' 500"

definition id_safe_actor :: "jsval \<Rightarrow> id_error + string" where
  "id_safe_actor v = id_safe_identifier (js_or_nullish v (JStr ''identity-provider'')) ''actor''"

definition id_review_date :: "engine \<Rightarrow> jsval \<Rightarrow> int \<Rightarrow> id_error + int" where
  "id_review_date w v current = bindR (from_option (IdTypeErr ''reviewBy'') (new_date (date_parse w) v)) (\<lambda>t.
     ensure (current < t) (IdTypeErr ''reviewBy'') (Inr t))"

definition id_integer :: "jsval \<Rightarrow> string \<Rightarrow> int \<Rightarrow> int \<Rightarrow> id_error + int" where
  "id_integer v field lo hi = from_option (IdTypeErr field) (int_in lo hi v)"

definition max_safe_integer :: int where
  "max_safe_integer = 9007199254740991"

text \<open>\<open>active !== undefined && typeof active !== 'boolean'\<close> throws.\<close>

fun boolean_or_undefined :: "jsval \<Rightarrow> bool" where
  "boolean_or_undefined JUndef = True"
| "boolean_or_undefined (JBool b) = True"
| "boolean_or_undefined _ = False"

subsection \<open>Configuration\<close>

definition id_key_entry :: "string \<times> jsval \<Rightarrow> id_error + string \<times> string" where
  "id_key_entry p = bindR (id_safe_identifier (JStr (fst p)) ''keyId'') (\<lambda>keyId.
     let encoded = js_String (snd p); key = buffer_from encoded in
     ensure (length key = 32 \<and> b64_encode key = encoded) (IdTypeErr ''key'') (Inr (keyId, key)))"

fun object_entries :: "jsval \<Rightarrow> (string \<times> jsval) list" where
  "object_entries (JObj kvs) = kvs"
| "object_entries _ = []"

definition id_keyring :: "jsval \<Rightarrow> jsval \<Rightarrow> id_error + (string \<times> string) list \<times> string" where
  "id_keyring v primaryKeyId = ensure (is_plain_object v) (IdTypeErr ''keys'')
    (bindR (mapR id_key_entry (object_entries v)) (\<lambda>entries.
     let keys = foldl (\<lambda>m p. put_assoc (fst p) (snd p) m) [] entries in
     bindR (id_safe_identifier primaryKeyId ''primaryKeyId'') (\<lambda>primary.
     ensure (map_of keys primary \<noteq> None) (IdTypeErr ''primaryKeyId'') (Inr (keys, primary)))))"

definition default_to :: "jsval \<Rightarrow> jsval \<Rightarrow> jsval" where
  "default_to v d = (if v = JUndef then d else v)"

text \<open>\<open>None\<close>: the lifecycle is disabled, and every command throws.\<close>

definition make_identity_registry :: "jsval \<Rightarrow> id_error + id_config option" where
  "make_identity_registry options =
     (let mode = js_String (default_to (js_get options ''mode'') (JStr ''disabled'')) in
      ensure (mode \<in> {''disabled'', ''observe'', ''enforce''}) (IdTypeErr ''mode'')
     (bindR (id_integer (default_to (js_get options ''reviewMaxAgeDays'') (JInt 365)) ''reviewMaxAgeDays'' 1 3650) (\<lambda>days.
      bindR (id_integer (default_to (js_get options ''eventRetention'') (JInt 10000)) ''eventRetention'' 100 100000) (\<lambda>retention.
      if mode = ''disabled'' then Inr None
      else bindR (id_keyring (default_to (js_get options ''keys'') JNull) (default_to (js_get options ''primaryKeyId'') JNull))
        (\<lambda>(keys, primary). Inr (Some \<lparr>ic_mode = (if mode = ''enforce'' then IdEnforce else IdObserve),
           ic_keys = keys, ic_primary = primary, ic_reviewDays = days, ic_retention = nat retention\<rparr>))))))"

subsection \<open>The event log\<close>

definition id_comparable :: "id_event \<Rightarrow> jsval" where
  "id_comparable e = JObj
     [(''id'', JStr (ie_id e)), (''sequence'', JInt (int (ie_sequence e))), (''occurredAt'', JInt (ie_occurredAt e)),
      (''actor'', JStr (ie_actor e)), (''action'', JStr (ie_action e)), (''subject'', JStr (ie_subject e)),
      (''tenantId'', JStr (ie_tenantId e)), (''role'', JStr (ie_role e)), (''active'', JBool (ie_active e)),
      (''reason'', JStr (ie_reason e)), (''version'', JInt (int (ie_version e))),
      (''previousHash'', opt_str (ie_previousHash e))]"

definition canonical_json :: "jsval \<Rightarrow> string" where
  "canonical_json v = json_stringify (canon v)"

definition id_body :: "id_event \<Rightarrow> string" where
  "id_body e = canonical_json (id_comparable e)"

text \<open>\<open>snapshot.events.at(-1)?.sequence ?? snapshot.eventAnchorSequence\<close>.\<close>

definition last_sequence :: "id_snapshot \<Rightarrow> nat" where
  "last_sequence s = (if is_events s = [] then is_anchorSequence s else ie_sequence (last (is_events s)))"

definition new_id_event ::
  "engine \<Rightarrow> id_env \<Rightarrow> id_snapshot \<Rightarrow> string \<Rightarrow> string \<Rightarrow> string \<Rightarrow> id_user \<Rightarrow> id_event" where
  "new_id_event w env s performedBy action reason u =
     (let e = \<lparr>ie_id = ''IDE-'' @ ix_eventUuid env, ie_sequence = last_sequence s + 1, ie_occurredAt = ix_now env,
         ie_actor = performedBy, ie_action = action, ie_subject = iu_subject u, ie_tenantId = iu_tenantId u,
         ie_role = iu_role u, ie_active = iu_active u, ie_reason = reason, ie_version = iu_version u,
         ie_previousHash = head_hash ie_hash (is_anchorHash s) (is_events s), ie_hash = []\<rparr>
      in e\<lparr>ie_hash := sha256 w (id_body e)\<rparr>)"

definition trim_id_events :: "nat \<Rightarrow> id_snapshot \<Rightarrow> id_snapshot" where
  "trim_id_events retention s = (if length (is_events s) \<le> retention then s
     else let n = length (is_events s) - retention; anchor = is_events s ! (n - 1)
       in s\<lparr>is_events := drop n (is_events s), is_anchorSequence := ie_sequence anchor,
            is_anchorHash := Some (ie_hash anchor)\<rparr>)"

definition append_id_event :: "nat \<Rightarrow> id_event \<Rightarrow> id_snapshot \<Rightarrow> id_snapshot" where
  "append_id_event retention e s = trim_id_events retention (s\<lparr>is_events := is_events s @ [e]\<rparr>)"

fun id_chain_valid :: "engine \<Rightarrow> nat \<Rightarrow> string option \<Rightarrow> id_event list \<Rightarrow> bool" where
  "id_chain_valid w previousSequence previousHash [] = True"
| "id_chain_valid w previousSequence previousHash (e # es) =
     (ie_hash e = sha256 w (id_body e) \<and> ie_previousHash e = previousHash \<and> ie_sequence e = previousSequence + 1
      \<and> id_chain_valid w (ie_sequence e) (Some (ie_hash e)) es)"

definition validate_id_snapshot :: "engine \<Rightarrow> id_snapshot \<Rightarrow> bool" where
  "validate_id_snapshot w s = id_chain_valid w (is_anchorSequence s) (is_anchorHash s) (is_events s)"

subsection \<open>The store\<close>

definition empty_id_snapshot :: "int \<Rightarrow> id_snapshot" where
  "empty_id_snapshot current = \<lparr>is_sequence = 0, is_updatedAt = current, is_users = [], is_events = [],
     is_anchorSequence = 0, is_anchorHash = None\<rparr>"

definition encrypt_id_snapshot :: "id_config \<Rightarrow> id_snapshot \<Rightarrow> id_file" where
  "encrypt_id_snapshot cfg s = UserEnvelope (ic_primary cfg) (the (map_of (ic_keys cfg) (ic_primary cfg))) s"

definition read_id_unlocked :: "engine \<Rightarrow> id_config \<Rightarrow> id_env \<Rightarrow> id_file \<Rightarrow> id_error + id_snapshot" where
  "read_id_unlocked w cfg env f = (case f of
       NoUsers \<Rightarrow> Inr (empty_id_snapshot (ix_now env))
     | NoEnvelope \<Rightarrow> Inl IdStoreUnavailable
     | UserEnvelope keyId sealedWith s \<Rightarrow>
         bindR (from_option IdStoreUnavailable (map_of (ic_keys cfg) keyId)) (\<lambda>key.
         ensure (key = sealedWith \<and> validate_id_snapshot w s) IdStoreUnavailable (Inr s)))"

definition read_id_snapshot :: "engine \<Rightarrow> id_config \<Rightarrow> id_env \<Rightarrow> id_file \<Rightarrow> id_error + id_snapshot" where
  "read_id_snapshot w cfg env f =
     snd (with_lock (ix_lock env) IdStoreUnavailable (liftS (read_id_unlocked w cfg env f)) f)"

text \<open>Whatever is not a denial or a conflict is reported as the store being unavailable.\<close>

definition id_store_error :: "id_error \<Rightarrow> id_error" where
  "id_store_error e = (case e of IdDenied _ \<Rightarrow> e | IdConflict \<Rightarrow> e | _ \<Rightarrow> IdStoreUnavailable)"

definition id_mutate_locked ::
  "engine \<Rightarrow> id_config \<Rightarrow> id_env \<Rightarrow> (id_snapshot \<Rightarrow> id_error + id_snapshot \<times> id_user) \<Rightarrow> (id_file, id_error, id_user) call" where
  "id_mutate_locked w cfg env operation f =
     (case bindR (read_id_unlocked w cfg env f) operation of
        Inl e \<Rightarrow> (f, Inl e)
      | Inr (s, result) \<Rightarrow>
          (case atomic_write (ix_write env)
              (encrypt_id_snapshot cfg (s\<lparr>is_updatedAt := ix_now env, is_sequence := is_sequence s + 1\<rparr>)) f
           of (f', written) \<Rightarrow> (f', if written then Inr result else Inl IdStoreUnavailable)))"

definition id_mutate ::
  "engine \<Rightarrow> id_config \<Rightarrow> id_env \<Rightarrow> (id_snapshot \<Rightarrow> id_error + id_snapshot \<times> id_user) \<Rightarrow> (id_file, id_error, id_user) call" where
  "id_mutate w cfg env operation =
     catchS (with_lock (ix_lock env) IdStoreUnavailable (id_mutate_locked w cfg env operation))
       (\<lambda>e. throwS (id_store_error e))"

subsection \<open>Operations\<close>

record id_provision =
  ip_issuer :: string
  ip_externalSubject :: string
  ip_tenantId :: string
  ip_role :: string
  ip_active :: bool
  ip_displayName :: "string option"
  ip_reviewBy :: int
  ip_reason :: string
  ip_source :: string

definition normalise_provisioning :: "engine \<Rightarrow> id_config \<Rightarrow> int \<Rightarrow> jsval \<Rightarrow> id_error + id_provision" where
  "normalise_provisioning w cfg current input =
     ensure (is_plain_object input) (IdTypeErr ''input'')
    (ensure (boolean_or_undefined (js_get input ''active'')) (IdTypeErr ''active'')
    (bindR (exact_issuer w (js_get input ''issuer'')) (\<lambda>issuer.
     bindR (id_required_text (js_get input ''externalSubject'') ''externalSubject'' 512) (\<lambda>externalSubject.
     bindR (id_safe_identifier (js_get input ''tenantId'') ''tenantId'') (\<lambda>tenantId.
     bindR (id_safe_role (js_get input ''role'')) (\<lambda>role.
     bindR (id_optional_text (js_get input ''displayName'') 256) (\<lambda>displayName.
     bindR (if truthy (js_get input ''reviewBy'') then id_review_date w (js_get input ''reviewBy'') current
            else Inr (current + ic_reviewDays cfg * day_ms)) (\<lambda>reviewBy.
     bindR (id_required_reason (js_get input ''reason'')) (\<lambda>reason.
     bindR (id_safe_identifier (js_or_nullish (js_get input ''source'') (JStr ''scim'')) ''source'') (\<lambda>source.
     Inr \<lparr>ip_issuer = issuer, ip_externalSubject = externalSubject, ip_tenantId = tenantId, ip_role = role,
          ip_active = (js_get input ''active'' \<noteq> JBool False), ip_displayName = displayName,
          ip_reviewBy = reviewBy, ip_reason = reason, ip_source = source\<rparr>))))))))))"

definition assert_id_version :: "id_user option \<Rightarrow> jsval \<Rightarrow> id_error + 'a \<Rightarrow> id_error + 'a" where
  "assert_id_version existing expectedVersion k = (if nullish expectedVersion then k
     else ensure (js_Number expectedVersion = JInt (case existing of None \<Rightarrow> 0 | Some u \<Rightarrow> int (iu_version u))) IdConflict k)"

definition find_user_by_id :: "id_snapshot \<Rightarrow> jsval \<Rightarrow> id_error + id_user" where
  "find_user_by_id s i = from_option (IdDenied ''IDENTITY_ENTITLEMENT_NOT_FOUND'')
     (List.find (\<lambda>u. iu_id u = trimmed i) (map snd (is_users s)))"

text \<open>Storing a user and logging the change, as both commands end.\<close>

definition store_user ::
  "engine \<Rightarrow> id_config \<Rightarrow> id_env \<Rightarrow> string \<Rightarrow> string \<Rightarrow> string \<Rightarrow> id_user \<Rightarrow> id_snapshot \<Rightarrow> id_snapshot" where
  "store_user w cfg env performedBy action reason u s =
     (let s' = s\<lparr>is_users := put_assoc (iu_subject u) u (is_users s)\<rparr>
      in append_id_event (ic_retention cfg) (new_id_event w env s' performedBy action reason u) s')"

definition provisioned_user :: "id_env \<Rightarrow> id_user option \<Rightarrow> string \<Rightarrow> id_provision \<Rightarrow> id_user" where
  "provisioned_user env existing subject c =
     \<lparr>iu_id = (case existing of None \<Rightarrow> ''IDN-'' @ ix_userUuid env | Some u \<Rightarrow> iu_id u),
      iu_subject = subject, iu_tenantId = ip_tenantId c, iu_role = ip_role c, iu_active = ip_active c,
      iu_displayName = ip_displayName c, iu_reviewBy = ip_reviewBy c, iu_source = ip_source c,
      iu_createdAt = (case existing of None \<Rightarrow> ix_now env | Some u \<Rightarrow> iu_createdAt u),
      iu_updatedAt = ix_now env,
      iu_version = (case existing of None \<Rightarrow> 0 | Some u \<Rightarrow> iu_version u) + 1\<rparr>"

definition upsert_op ::
  "engine \<Rightarrow> id_config \<Rightarrow> id_env \<Rightarrow> jsval \<Rightarrow> jsval \<Rightarrow> id_snapshot \<Rightarrow> id_error + id_snapshot \<times> id_user" where
  "upsert_op w cfg env input ctxActor s =
     bindR (normalise_provisioning w cfg (ix_now env) input) (\<lambda>c.
     bindR (derive_federated_subject w (JStr (ip_issuer c)) (JStr (ip_externalSubject c))) (\<lambda>(subject, _).
     let existing = map_of (is_users s) subject in
     assert_id_version existing (js_get input ''expectedVersion'')
    (let u = provisioned_user env existing subject c in
     bindR (id_safe_actor ctxActor) (\<lambda>performedBy.
     Inr (store_user w cfg env performedBy
            (if existing = None then ''identity.entitlement.created'' else ''identity.entitlement.updated'')
            (ip_reason c) u s, u)))))"

definition id_upsert :: "engine \<Rightarrow> id_config \<Rightarrow> id_env \<Rightarrow> jsval \<Rightarrow> jsval \<Rightarrow> (id_file, id_error, id_user) call" where
  "id_upsert w cfg env input ctxActor = id_mutate w cfg env (upsert_op w cfg env input ctxActor)"

text \<open>\<open>changes.field === undefined ? existing : validated\<close>.\<close>

definition changed :: "jsval \<Rightarrow> (jsval \<Rightarrow> id_error + 'a) \<Rightarrow> 'a \<Rightarrow> id_error + 'a" where
  "changed v validate old = (if v = JUndef then Inr old else validate v)"

definition patched_user ::
  "engine \<Rightarrow> id_env \<Rightarrow> jsval \<Rightarrow> id_user \<Rightarrow> id_error + id_user" where
  "patched_user w env changes existing =
     bindR (changed (js_get changes ''tenantId'') (\<lambda>v. id_safe_identifier v ''tenantId'') (iu_tenantId existing)) (\<lambda>tenantId.
     bindR (changed (js_get changes ''role'') id_safe_role (iu_role existing)) (\<lambda>role.
     bindR (changed (js_get changes ''displayName'') (\<lambda>v. id_optional_text v 256) (iu_displayName existing)) (\<lambda>displayName.
     bindR (changed (js_get changes ''reviewBy'') (\<lambda>v. id_review_date w v (ix_now env)) (iu_reviewBy existing)) (\<lambda>reviewBy.
     Inr (existing\<lparr>iu_tenantId := tenantId, iu_role := role,
        iu_active := (if js_get changes ''active'' = JUndef then iu_active existing else js_get changes ''active'' = JBool True),
        iu_displayName := displayName, iu_reviewBy := reviewBy, iu_updatedAt := ix_now env,
        iu_version := iu_version existing + 1\<rparr>)))))"

definition patch_op ::
  "engine \<Rightarrow> id_config \<Rightarrow> id_env \<Rightarrow> jsval \<Rightarrow> jsval \<Rightarrow> jsval \<Rightarrow> id_snapshot \<Rightarrow> id_error + id_snapshot \<times> id_user" where
  "patch_op w cfg env i changes ctxActor s =
     bindR (find_user_by_id s i) (\<lambda>existing.
     assert_id_version (Some existing) (js_get changes ''expectedVersion'')
    (ensure (boolean_or_undefined (js_get changes ''active'')) (IdTypeErr ''active'')
    (bindR (patched_user w env changes existing) (\<lambda>u.
     bindR (id_safe_actor ctxActor) (\<lambda>performedBy.
     bindR (id_required_reason (js_get changes ''reason'')) (\<lambda>reason.
     Inr (store_user w cfg env performedBy
            (if iu_active u then ''identity.entitlement.updated'' else ''identity.entitlement.suspended'') reason u s, u)))))))"

definition id_patch :: "engine \<Rightarrow> id_config \<Rightarrow> id_env \<Rightarrow> jsval \<Rightarrow> jsval \<Rightarrow> jsval \<Rightarrow> (id_file, id_error, id_user) call" where
  "id_patch w cfg env i changes ctxActor = id_mutate w cfg env (patch_op w cfg env i changes ctxActor)"

definition id_deactivate ::
  "engine \<Rightarrow> id_config \<Rightarrow> id_env \<Rightarrow> jsval \<Rightarrow> jsval \<Rightarrow> jsval \<Rightarrow> jsval \<Rightarrow> (id_file, id_error, id_user) call" where
  "id_deactivate w cfg env i expectedVersion reason ctxActor =
     id_patch w cfg env i (JObj [(''active'', JBool False), (''expectedVersion'', expectedVersion), (''reason'', reason)]) ctxActor"

subsection \<open>Enforcement and queries\<close>

text \<open>What \<open>observed\<close> adds to a principal: a status and, where there is one, the entitlement.\<close>

record entitlement =
  et_status :: string
  et_user :: "id_user option"

definition review_due :: "int \<Rightarrow> id_user \<Rightarrow> bool" where
  "review_due current u = (iu_reviewBy u \<le> current)"

definition enforce_entitlement :: "id_mode \<Rightarrow> int \<Rightarrow> id_user option \<Rightarrow> 'a principal_scheme \<Rightarrow> id_error + entitlement" where
  "enforce_entitlement mode current found p =
     (let refuse = (\<lambda>status code r. if mode = IdObserve then Inr \<lparr>et_status = status, et_user = r\<rparr> else Inl (IdDenied code))
      in case found of
        None \<Rightarrow> refuse ''unprovisioned'' ''IDENTITY_NOT_PROVISIONED'' None
      | Some u \<Rightarrow>
          if \<not> iu_active u then refuse ''suspended'' ''IDENTITY_SUSPENDED'' (Some u)
          else if iu_tenantId u \<noteq> pr_tenantId p \<or> iu_role u \<noteq> pr_role p
            then refuse ''mismatched'' ''IDENTITY_ENTITLEMENT_MISMATCH'' (Some u)
          else if review_due current u then refuse ''review_overdue'' ''IDENTITY_REVIEW_OVERDUE'' (Some u)
          else Inr \<lparr>et_status = ''active'', et_user = Some u\<rparr>)"

text \<open>\<open>None\<close>: a principal that did not come with a token passes as it is.\<close>

definition id_enforce :: "engine \<Rightarrow> id_config \<Rightarrow> id_env \<Rightarrow> id_file \<Rightarrow> 'a principal_scheme \<Rightarrow> id_error + entitlement option" where
  "id_enforce w cfg env f p = (if pr_authMethod p \<noteq> Some ''oidc'' then Inr None
     else bindR (read_id_snapshot w cfg env f) (\<lambda>s.
       bindR (enforce_entitlement (ic_mode cfg) (ix_now env) (map_of (is_users s) (pr_subject p)) p) (\<lambda>e. Inr (Some e))))"

definition id_get :: "engine \<Rightarrow> id_config \<Rightarrow> id_env \<Rightarrow> id_file \<Rightarrow> jsval \<Rightarrow> id_error + id_user" where
  "id_get w cfg env f i = bindR (read_id_snapshot w cfg env f) (\<lambda>s. find_user_by_id s i)"

definition id_get_by_subject :: "engine \<Rightarrow> id_config \<Rightarrow> id_env \<Rightarrow> id_file \<Rightarrow> string \<Rightarrow> id_error + id_user option" where
  "id_get_by_subject w cfg env f subject = bindR (read_id_snapshot w cfg env f) (\<lambda>s. Inr (map_of (is_users s) subject))"

record id_page =
  pg_totalResults :: nat
  pg_startIndex :: nat
  pg_itemsPerPage :: nat
  pg_resources :: "id_user list"

text \<open>The tenant filter is validated while it filters, hence not at all when nothing is left.\<close>

definition tenant_filter :: "jsval \<Rightarrow> id_user list \<Rightarrow> id_error + id_user list" where
  "tenant_filter tenantId records = (if \<not> truthy tenantId \<or> records = [] then Inr records
     else bindR (id_safe_identifier tenantId ''tenantId'') (\<lambda>t. Inr (filter (\<lambda>u. iu_tenantId u = t) records)))"

definition id_list :: "engine \<Rightarrow> id_config \<Rightarrow> id_env \<Rightarrow> id_file \<Rightarrow> jsval \<Rightarrow> jsval \<Rightarrow> jsval \<Rightarrow> jsval \<Rightarrow> id_error + id_page" where
  "id_list w cfg env f startIndex count active tenantId =
     bindR (read_id_snapshot w cfg env f) (\<lambda>s.
     bindR (id_integer (default_to startIndex (JInt 1)) ''startIndex'' 1 max_safe_integer) (\<lambda>start.
     bindR (id_integer (default_to count (JInt 100)) ''count'' 1 500) (\<lambda>limit.
     let sorted = sort_key iu_id (map snd (is_users s));
         wanted = default_to active JNull;
         chosen = (if wanted = JNull then sorted else filter (\<lambda>u. iu_active u = truthy wanted) sorted) in
     bindR (tenant_filter (default_to tenantId JNull) chosen) (\<lambda>records.
     let offset = nat (start - 1) in
     Inr \<lparr>pg_totalResults = length records, pg_startIndex = offset + 1,
          pg_itemsPerPage = min (nat limit) (length records - offset),
          pg_resources = take (nat limit) (drop offset records)\<rparr>))))"

definition id_list_events :: "engine \<Rightarrow> id_config \<Rightarrow> id_env \<Rightarrow> id_file \<Rightarrow> jsval \<Rightarrow> id_error + id_event list" where
  "id_list_events w cfg env f limit = bindR (id_integer (default_to limit (JInt 100)) ''limit'' 1 1000) (\<lambda>n.
     bindR (read_id_snapshot w cfg env f) (\<lambda>s. Inr (rev (last_n (nat n) (is_events s)))))"

record review_report =
  rv_status :: string
  rv_total :: nat
  rv_active :: nat
  rv_suspended :: nat
  rv_overdue :: nat
  rv_dueWithin30Days :: nat
  rv_tenantCount :: nat
  rv_sequence :: nat

definition id_review_status :: "engine \<Rightarrow> id_config \<Rightarrow> id_env \<Rightarrow> id_file \<Rightarrow> id_error + review_report" where
  "id_review_status w cfg env f = bindR (read_id_snapshot w cfg env f) (\<lambda>s.
     let current = ix_now env; records = map snd (is_users s);
         late = filter (\<lambda>u. iu_active u \<and> review_due current u) records;
         soon = filter (\<lambda>u. iu_active u \<and> \<not> review_due current u \<and> review_due (current + 30 * day_ms) u) records
     in Inr \<lparr>rv_status = (if late \<noteq> [] then ''attention'' else ''ready''), rv_total = length records,
          rv_active = length (filter iu_active records), rv_suspended = length (filter (\<lambda>u. \<not> iu_active u) records),
          rv_overdue = length late, rv_dueWithin30Days = length soon,
          rv_tenantCount = length (uniq (map iu_tenantId records)), rv_sequence = is_sequence s\<rparr>)"

definition id_health_status :: "engine \<Rightarrow> id_config \<Rightarrow> id_env \<Rightarrow> id_file \<Rightarrow> string" where
  "id_health_status w cfg env f = (case id_review_status w cfg env f of Inr _ \<Rightarrow> ''ready'' | Inl _ \<Rightarrow> ''unavailable'')"

definition id_tenant_ids :: "engine \<Rightarrow> id_config \<Rightarrow> id_env \<Rightarrow> id_file \<Rightarrow> id_error + string list" where
  "id_tenant_ids w cfg env f = bindR (read_id_snapshot w cfg env f) (\<lambda>s.
     Inr (uniq (map iu_tenantId (filter iu_active (map snd (is_users s))))))"

end
