(* ===== verification/IdentityLife.thy ===== *)
theory IdentityLife
  imports IdentityRegistry
begin

section \<open>Runs of the identity registry\<close>

text \<open>
  The machine whose steps are the commands of the registry, each with the configuration it runs
  under (a restart may rotate keys or change the retention) and the environment it meets; the
  invariant of the stored snapshot, that its event log is a chain and agrees with the users; and
  where a stored entitlement comes from.
\<close>

subsection \<open>The event log is a sequenced chain\<close>

abbreviation id_linked :: "engine \<Rightarrow> string option \<Rightarrow> id_event list \<Rightarrow> bool" where
  "id_linked w \<equiv> linked ie_previousHash ie_hash (sha256 w \<circ> id_body)"

lemma id_body_fields:
  assumes "id_body x = id_body y"
  shows "x\<lparr>ie_hash := h\<rparr> = y\<lparr>ie_hash := h\<rparr>"
proof -
  have c: "canon (id_comparable x) = canon (id_comparable y)"
    using assms by (intro json_stringify_inj) (simp_all add: id_body_def canonical_json_def id_comparable_def)
  have "canon (js_get (id_comparable x) k) = canon (js_get (id_comparable y) k)" for k
    using arg_cong [OF c, of "\<lambda>v. js_get v k"] unfolding id_comparable_def
    by (subst (asm) (1 2) js_get_canon) simp_all
  from this [of "''id''"] this [of "''sequence''"] this [of "''occurredAt''"] this [of "''actor''"]
    this [of "''action''"] this [of "''subject''"] this [of "''tenantId''"] this [of "''role''"]
    this [of "''active''"] this [of "''reason''"] this [of "''version''"] this [of "''previousHash''"]
  show ?thesis by (simp add: id_comparable_def)
qed

interpretation idlog: sequenced_chain ie_previousHash ie_hash id_body "\<lambda>_. True" "\<lambda>e. e" ie_sequence
proof unfold_locales
  fix x y assume A: "id_body x = id_body y"
  note fields = id_body_fields [OF A]
  show "ie_previousHash x = ie_previousHash y" "ie_sequence x = ie_sequence y"
    using fields [of "[]"] by (metis id_event.ext_inject id_event.surjective id_event.update_convs(13))+
  assume "ie_hash x = ie_hash y"
  then show "x = y" using fields [of "ie_hash y"] by (cases x; cases y) simp
qed

lemma id_chain_valid_iff:
  "id_chain_valid w n p es \<longleftrightarrow> id_linked w p es \<and> numbered ie_sequence n es"
  by (induction es arbitrary: n p) auto

definition id_chain :: "engine \<Rightarrow> id_snapshot \<Rightarrow> bool" where
  "id_chain w s = (id_linked w (is_anchorHash s) (is_events s)
     \<and> numbered ie_sequence (is_anchorSequence s) (is_events s))"

lemma validate_id_chain [simp]: "validate_id_snapshot w s = id_chain w s"
  by (simp add: validate_id_snapshot_def id_chain_def id_chain_valid_iff)

lemma last_sequence_chain:
  "id_chain w s \<Longrightarrow> last_sequence s = is_anchorSequence s + length (is_events s)"
  using numbered_last [of ie_sequence "is_anchorSequence s" "is_events s"]
  by (auto simp: last_sequence_def id_chain_def)

subsection \<open>The log agrees with the users\<close>

text \<open>
  The events about one subject carry consecutive versions, and the last of them says what is
  stored for the subject. While nothing was trimmed, every version has its event.
\<close>

definition trail :: "string \<Rightarrow> id_event list \<Rightarrow> id_event list" where
  "trail k es = filter (\<lambda>e. ie_subject e = k) es"

definition records_user :: "id_event \<Rightarrow> id_user \<Rightarrow> bool" where
  "records_user e u = (ie_subject e = iu_subject u \<and> ie_tenantId e = iu_tenantId u \<and> ie_role e = iu_role u
     \<and> ie_active e = iu_active u \<and> ie_version e = iu_version u)"

definition trail_ok :: "bool \<Rightarrow> id_user option \<Rightarrow> id_event list \<Rightarrow> bool" where
  "trail_ok complete found es = (case found of
       None \<Rightarrow> es = []
     | Some u \<Rightarrow> (\<exists>n. n + length es = iu_version u \<and> numbered ie_version n es \<and> (complete \<longrightarrow> n = 0))
         \<and> (es \<noteq> [] \<longrightarrow> records_user (last es) u))"

definition users_keyed :: "(string \<times> id_user) list \<Rightarrow> bool" where
  "users_keyed m = (distinct (map fst m) \<and> (\<forall>(k, u) \<in> set m. iu_subject u = k))"

definition id_snapshot_ok :: "engine \<Rightarrow> id_snapshot \<Rightarrow> bool" where
  "id_snapshot_ok w s = (id_chain w s \<and> users_keyed (is_users s)
     \<and> is_sequence s = is_anchorSequence s + length (is_events s)
     \<and> (\<forall>k. trail_ok (is_anchorSequence s = 0) (map_of (is_users s) k) (trail k (is_events s))))"

definition id_file_ok :: "engine \<Rightarrow> id_file \<Rightarrow> bool" where
  "id_file_ok w f = (case f of NoUsers \<Rightarrow> True | NoEnvelope \<Rightarrow> False | UserEnvelope k key s \<Rightarrow> id_snapshot_ok w s)"

text \<open>The users a file holds.\<close>

definition users_of :: "id_file \<Rightarrow> (string \<times> id_user) list" where
  "users_of f = (case f of UserEnvelope k key s \<Rightarrow> is_users s | _ \<Rightarrow> [])"

definition events_of :: "id_file \<Rightarrow> id_event list" where
  "events_of f = (case f of UserEnvelope k key s \<Rightarrow> is_events s | _ \<Rightarrow> [])"

lemma users_of_simps [simp]:
  "users_of NoUsers = []" "users_of (UserEnvelope k key s) = is_users s"
  "events_of NoUsers = []" "events_of (UserEnvelope k key s) = is_events s"
  by (simp_all add: users_of_def events_of_def)

lemma users_keyed_put: "users_keyed m \<Longrightarrow> users_keyed (put_assoc (iu_subject u) u m)"
  by (auto simp: users_keyed_def distinct_put_assoc set_put_assoc)

lemma users_keyed_lookup: "users_keyed m \<Longrightarrow> map_of m k = Some u \<Longrightarrow> iu_subject u = k"
  by (auto simp: users_keyed_def dest!: map_of_SomeD)

lemma users_keyed_member: "users_keyed m \<Longrightarrow> u \<in> snd ` set m \<Longrightarrow> map_of m (iu_subject u) = Some u"
  by (auto simp: users_keyed_def)

lemma empty_snapshot_ok: "id_snapshot_ok w (empty_id_snapshot t)"
  by (simp add: id_snapshot_ok_def empty_id_snapshot_def id_chain_def users_keyed_def trail_def trail_ok_def)

subsection \<open>Storing a user\<close>

lemma new_event_simps [simp]:
  "ie_subject (new_id_event w env s pb a r u) = iu_subject u"
  "ie_version (new_id_event w env s pb a r u) = iu_version u"
  "ie_active (new_id_event w env s pb a r u) = iu_active u"
  "ie_role (new_id_event w env s pb a r u) = iu_role u"
  "ie_tenantId (new_id_event w env s pb a r u) = iu_tenantId u"
  "ie_actor (new_id_event w env s pb a r u) = pb" "ie_reason (new_id_event w env s pb a r u) = r"
  "ie_sequence (new_id_event w env s pb a r u) = last_sequence s + 1"
  "ie_previousHash (new_id_event w env s pb a r u) = head_hash ie_hash (is_anchorHash s) (is_events s)"
  by (simp_all add: new_id_event_def Let_def)

lemma new_event_hash [simp]:
  "ie_hash (new_id_event w env s pb a r u) = sha256 w (id_body (new_id_event w env s pb a r u))"
  by (simp add: new_id_event_def Let_def id_body_def id_comparable_def)

lemma new_event_records [simp]: "records_user (new_id_event w env s pb a r u) u"
  by (simp add: records_user_def)

lemma append_chain:
  "id_chain w s \<Longrightarrow> id_chain w (s\<lparr>is_events := is_events s @ [new_id_event w env s pb a r u]\<rparr>)"
  using last_sequence_chain [of w s] by (simp add: id_chain_def)

lemma id_trim_chain:
  assumes "id_chain w s"
  shows "id_chain w (trim_id_events n s)"
    and "is_anchorSequence (trim_id_events n s) + length (is_events (trim_id_events n s))
      = is_anchorSequence s + length (is_events s)"
proof -
  let ?n = "length (is_events s) - n"
  have "id_chain w (trim_id_events n s) \<and>
    is_anchorSequence (trim_id_events n s) + length (is_events (trim_id_events n s)) = is_anchorSequence s + length (is_events s)"
  proof (cases "length (is_events s) \<le> n")
    case False
    then have n: "0 < ?n" "?n \<le> length (is_events s)" "?n - 1 < length (is_events s)" by simp_all
    have "ie_sequence (is_events s ! (?n - 1)) = is_anchorSequence s + ?n"
      using numbered_nth [of ie_sequence "is_anchorSequence s" "is_events s" "?n - 1"] assms n
      by (simp add: id_chain_def)
    then show ?thesis
      using linked_trim [of ie_previousHash ie_hash "sha256 w \<circ> id_body" "is_anchorHash s" "is_events s" ?n]
        numbered_drop [of ie_sequence "is_anchorSequence s" "is_events s" ?n] assms n False
      by (simp add: trim_id_events_def Let_def id_chain_def)
  qed (simp add: assms trim_id_events_def)
  then show "id_chain w (trim_id_events n s)"
    and "is_anchorSequence (trim_id_events n s) + length (is_events (trim_id_events n s))
      = is_anchorSequence s + length (is_events s)" by auto
qed

lemma trim_users [simp]: "is_users (trim_id_events n s) = is_users s" "is_sequence (trim_id_events n s) = is_sequence s"
  by (simp_all add: trim_id_events_def Let_def)

lemma trim_events_eq: "\<exists>d. is_events s = d @ is_events (trim_id_events n s)
    \<and> (is_anchorSequence (trim_id_events n s) = 0 \<longrightarrow> id_chain w s \<longrightarrow> d = [])"
proof (cases "length (is_events s) \<le> n")
  case False
  let ?n = "length (is_events s) - n"
  have "ie_sequence (is_events s ! (?n - 1)) = Suc (is_anchorSequence s + (?n - 1))" if "id_chain w s"
    using numbered_nth [of ie_sequence "is_anchorSequence s" "is_events s" "?n - 1"] that False
    by (simp add: id_chain_def)
  then show ?thesis using False
    by (intro exI [of _ "take ?n (is_events s)"]) (auto simp: trim_id_events_def Let_def)
qed (simp add: trim_id_events_def)

lemma trail_append [simp]: "trail k (es @ fs) = trail k es @ trail k fs"
  by (simp add: trail_def)

lemma trail_ok_drop:
  assumes "trail_ok c found (ds @ es)" "c' \<longrightarrow> c \<and> ds = []"
  shows "trail_ok c' found es"
proof (cases found)
  case (Some u)
  then obtain n where n: "n + length (ds @ es) = iu_version u" "numbered ie_version n (ds @ es)" "c \<longrightarrow> n = 0"
    using assms(1) by (auto simp: trail_ok_def)
  have "(n + length ds) + length es = iu_version u" "numbered ie_version (n + length ds) es"
    "c' \<longrightarrow> n + length ds = 0"
    using n assms(2) by auto
  then have "\<exists>m. m + length es = iu_version u \<and> numbered ie_version m es \<and> (c' \<longrightarrow> m = 0)" by blast
  then show ?thesis using assms(1) Some by (auto simp: trail_ok_def)
qed (use assms in \<open>simp add: trail_ok_def\<close>)

definition version_before :: "id_snapshot \<Rightarrow> string \<Rightarrow> nat" where
  "version_before s k = (case map_of (is_users s) k of None \<Rightarrow> 0 | Some u \<Rightarrow> iu_version u)"

lemma trail_ok_add:
  assumes "trail_ok c found es" "iu_version u = (case found of None \<Rightarrow> 0 | Some x \<Rightarrow> iu_version x) + 1"
    and "records_user e u"
  shows "trail_ok c (Some u) (es @ [e])"
proof (cases found)
  case None
  then show ?thesis using assms by (auto simp: trail_ok_def records_user_def intro!: exI [of _ 0])
next
  case (Some x)
  then obtain n where "n + length es = iu_version x" "numbered ie_version n es" "c \<longrightarrow> n = 0"
    using assms(1) by (auto simp: trail_ok_def)
  then show ?thesis using assms Some by (auto simp: trail_ok_def records_user_def intro!: exI [of _ n])
qed

lemma store_user_simps [simp]:
  "is_users (store_user w cfg env pb a r u s) = put_assoc (iu_subject u) u (is_users s)"
  "is_sequence (store_user w cfg env pb a r u s) = is_sequence s"
  by (simp_all add: store_user_def Let_def append_id_event_def)

lemma store_user_ok:
  assumes ok: "id_snapshot_ok w s" and v: "iu_version u = version_before s (iu_subject u) + 1"
  shows "id_snapshot_ok w ((store_user w cfg env pb a r u s)\<lparr>is_updatedAt := t, is_sequence := is_sequence s + 1\<rparr>)"
proof -
  define s1 where "s1 = s\<lparr>is_users := put_assoc (iu_subject u) u (is_users s)\<rparr>"
  define e where "e = new_id_event w env s1 pb a r u"
  define s2 where "s2 = s1\<lparr>is_events := is_events s1 @ [e]\<rparr>"
  define s3 where "s3 = trim_id_events (ic_retention cfg) s2"
  have s3: "store_user w cfg env pb a r u s = s3"
    by (simp add: store_user_def append_id_event_def s1_def e_def s2_def s3_def Let_def)
  have "id_chain w s1" using ok by (simp add: s1_def id_snapshot_ok_def id_chain_def)
  then have c2: "id_chain w s2" unfolding s2_def e_def by (rule append_chain)
  obtain d where d: "is_events s2 = d @ is_events s3" "is_anchorSequence s3 = 0 \<longrightarrow> d = []"
    using trim_events_eq [of s2 "ic_retention cfg" w] c2 by (auto simp: s3_def)
  have users: "is_users s3 = put_assoc (iu_subject u) u (is_users s)" by (simp add: s3_def s2_def s1_def)
  have zero: "is_anchorSequence s = 0" if "is_anchorSequence s3 = 0"
  proof -
    have "is_events s2 = is_events s3" using d that by simp
    then show ?thesis using id_trim_chain(2) [OF c2, of "ic_retention cfg"] that by (simp add: s3_def s2_def s1_def)
  qed
  have trails: "trail_ok (is_anchorSequence s3 = 0) (map_of (is_users s3) k) (trail k (is_events s3))" for k
  proof (rule trail_ok_drop)
    have old: "trail_ok (is_anchorSequence s = 0) (map_of (is_users s) k) (trail k (is_events s))"
      using ok by (simp add: id_snapshot_ok_def)
    have "trail_ok (is_anchorSequence s = 0) (map_of (is_users s3) k) (trail k (is_events s2))"
    proof (cases "k = iu_subject u")
      case True
      have "trail_ok (is_anchorSequence s = 0) (Some u) (trail k (is_events s) @ [e])"
        using v by (intro trail_ok_add [OF old]) (simp_all add: True version_before_def e_def)
      then show ?thesis by (simp add: users True s2_def s1_def trail_def e_def)
    next
      case False
      then show ?thesis using old by (simp add: users s2_def s1_def trail_def e_def)
    qed
    then show "trail_ok (is_anchorSequence s = 0) (map_of (is_users s3) k) (trail k d @ trail k (is_events s3))"
      by (simp add: d(1))
    show "is_anchorSequence s3 = 0 \<longrightarrow> is_anchorSequence s = 0 \<and> trail k d = []"
      using zero d(2) by (auto simp: trail_def)
  qed
  have "id_chain w s3" "is_anchorSequence s3 + length (is_events s3) = is_anchorSequence s + Suc (length (is_events s))"
    using id_trim_chain [OF c2, of "ic_retention cfg"] by (simp_all add: s3_def) (simp add: s2_def s1_def)
  then show ?thesis
    using trails ok users_keyed_put [of "is_users s" u] by (simp add: s3 id_snapshot_ok_def id_chain_def users)
qed

lemma store_user_last_event:
  assumes "0 < ic_retention cfg"
  shows "is_events (store_user w cfg env pb a r u s) \<noteq> []
    \<and> records_user (last (is_events (store_user w cfg env pb a r u s))) u
    \<and> ie_actor (last (is_events (store_user w cfg env pb a r u s))) = pb
    \<and> ie_reason (last (is_events (store_user w cfg env pb a r u s))) = r"
  using assms by (auto simp: store_user_def append_id_event_def trim_id_events_def Let_def)

subsection \<open>Commands and runs\<close>

datatype id_command =
    Upsert jsval jsval
  | Patch jsval jsval jsval
  | Deactivate jsval jsval jsval jsval

fun id_exec :: "engine \<Rightarrow> id_config \<Rightarrow> id_env \<Rightarrow> id_command \<Rightarrow> (id_file, id_error, id_user) call" where
  "id_exec w cfg env (Upsert input ctxActor) = id_upsert w cfg env input ctxActor"
| "id_exec w cfg env (Patch i changes ctxActor) = id_patch w cfg env i changes ctxActor"
| "id_exec w cfg env (Deactivate i expectedVersion reason ctxActor) = id_deactivate w cfg env i expectedVersion reason ctxActor"

fun id_op :: "engine \<Rightarrow> id_config \<Rightarrow> id_env \<Rightarrow> id_command \<Rightarrow> id_snapshot \<Rightarrow> id_error + id_snapshot \<times> id_user" where
  "id_op w cfg env (Upsert input ctxActor) = upsert_op w cfg env input ctxActor"
| "id_op w cfg env (Patch i changes ctxActor) = patch_op w cfg env i changes ctxActor"
| "id_op w cfg env (Deactivate i expectedVersion reason ctxActor) = patch_op w cfg env i
     (JObj [(''active'', JBool False), (''expectedVersion'', expectedVersion), (''reason'', reason)]) ctxActor"

fun expected_version :: "id_command \<Rightarrow> jsval" where
  "expected_version (Upsert input ctxActor) = js_get input ''expectedVersion''"
| "expected_version (Patch i changes ctxActor) = js_get changes ''expectedVersion''"
| "expected_version (Deactivate i expectedVersion reason ctxActor) = expectedVersion"

lemma id_exec_op: "id_exec w cfg env c = id_mutate w cfg env (id_op w cfg env c)"
  by (cases c) (simp_all add: id_upsert_def id_patch_def id_deactivate_def)

type_synonym id_input = "id_config \<times> id_env \<times> id_command"

fun id_run :: "engine \<Rightarrow> id_input list \<Rightarrow> id_file \<Rightarrow> id_file" where
  "id_run w [] f = f"
| "id_run w ((cfg, env, c) # cs) f = id_run w cs (fst (id_exec w cfg env c f))"

lemma id_run_append [simp]: "id_run w (cs @ ds) f = id_run w ds (id_run w cs f)"
  by (induction w cs f rule: id_run.induct) simp_all

text \<open>What a command that changes the snapshot does: one user, the next version, the expected version.\<close>

lemma assert_id_version_Inr [simp]:
  "assert_id_version found v k = Inr y \<longleftrightarrow>
     (nullish v \<or> js_Number v = JInt (case found of None \<Rightarrow> 0 | Some u \<Rightarrow> int (iu_version u))) \<and> k = Inr y"
  by (auto simp: assert_id_version_def)

lemma find_user_by_id_Inr:
  "find_user_by_id s i = Inr u \<Longrightarrow> u \<in> snd ` set (is_users s) \<and> iu_id u = trimmed i"
  by (auto simp: find_user_by_id_def find_Some_iff)

lemma patched_user_Inr:
  "patched_user w env ch x = Inr u \<Longrightarrow> iu_subject u = iu_subject x \<and> iu_version u = iu_version x + 1 \<and> iu_id u = iu_id x"
  by (auto simp: patched_user_def)

text \<open>\<open>stores w cfg env s s' u\<close>: the operation stored \<open>u\<close>, one version on, and logged it.\<close>

definition stores :: "engine \<Rightarrow> id_config \<Rightarrow> id_env \<Rightarrow> id_snapshot \<Rightarrow> id_snapshot \<Rightarrow> id_user \<Rightarrow> bool" where
  "stores w cfg env s s' u = (iu_version u = version_before s (iu_subject u) + 1
     \<and> (\<exists>performedBy action reason. s' = store_user w cfg env performedBy action reason u s))"

lemma upsert_op_stores:
  assumes "upsert_op w cfg env input ctx s = Inr (s', u)"
  shows "stores w cfg env s s' u \<and> (nullish (js_get input ''expectedVersion'')
    \<or> js_Number (js_get input ''expectedVersion'') = JInt (int (version_before s (iu_subject u))))"
  using assms by (auto simp: upsert_op_def stores_def Let_def provisioned_user_def version_before_def split: option.splits)

lemma patch_op_stores:
  assumes "patch_op w cfg env i ch ctx s = Inr (s', u)" "users_keyed (is_users s)"
  shows "stores w cfg env s s' u \<and> (nullish (js_get ch ''expectedVersion'')
    \<or> js_Number (js_get ch ''expectedVersion'') = JInt (int (version_before s (iu_subject u))))"
proof -
  obtain x where x: "find_user_by_id s i = Inr x" "patched_user w env ch x = Inr u"
    "nullish (js_get ch ''expectedVersion'') \<or> js_Number (js_get ch ''expectedVersion'') = JInt (int (iu_version x))"
    and s': "\<exists>pb a r. s' = store_user w cfg env pb a r u s"
    using assms(1) by (auto simp: patch_op_def)
  have "version_before s (iu_subject u) = iu_version x"
    using find_user_by_id_Inr [OF x(1)] users_keyed_member [OF assms(2)] patched_user_Inr [OF x(2)]
    by (simp add: version_before_def)
  then show ?thesis using x s' patched_user_Inr [OF x(2)] by (simp add: stores_def)
qed

lemma id_op_stores:
  assumes "id_op w cfg env c s = Inr (s', u)" "users_keyed (is_users s)"
  shows "stores w cfg env s s' u \<and> (nullish (expected_version c)
    \<or> js_Number (expected_version c) = JInt (int (version_before s (iu_subject u))))"
  using assms by (cases c) (auto dest!: upsert_op_stores patch_op_stores)

text \<open>A command leaves the file alone, or seals the snapshot its operation made; it returns only then.\<close>

definition sealed_next :: "id_config \<Rightarrow> id_env \<Rightarrow> id_snapshot \<Rightarrow> id_file" where
  "sealed_next cfg env s = encrypt_id_snapshot cfg (s\<lparr>is_updatedAt := ix_now env, is_sequence := is_sequence s + 1\<rparr>)"

lemma id_mutate_cases:
  "fst (id_mutate w cfg env op f) = f \<and> (\<exists>e. snd (id_mutate w cfg env op f) = Inl e)
   \<or> (\<exists>s s' u. read_id_unlocked w cfg env f = Inr s \<and> op s = Inr (s', u)
       \<and> fst (id_mutate w cfg env op f) = sealed_next cfg env s'
       \<and> (\<forall>x. snd (id_mutate w cfg env op f) = Inr x \<longrightarrow> x = u))"
  by (cases "ix_lock env"; cases "ix_write env")
    (auto simp: id_mutate_def catchS_def throwS_def with_lock_def id_mutate_locked_def sealed_next_def bindR_def
      split: sum.split prod.split)

lemma read_id_users:
  "read_id_unlocked w cfg env f = Inr s \<Longrightarrow> is_users s = users_of f \<and> is_events s = events_of f"
  by (auto simp: read_id_unlocked_def empty_id_snapshot_def split: id_file.splits)

lemma read_id_ok: "read_id_unlocked w cfg env f = Inr s \<Longrightarrow> id_file_ok w f \<Longrightarrow> id_snapshot_ok w s"
  by (auto simp: read_id_unlocked_def id_file_ok_def empty_snapshot_ok split: id_file.splits)

lemma id_file_ok_keyed: "id_file_ok w f \<Longrightarrow> users_keyed (users_of f)"
  by (auto simp: id_file_ok_def id_snapshot_ok_def users_keyed_def split: id_file.splits)

definition version_in :: "id_file \<Rightarrow> string \<Rightarrow> nat" where
  "version_in f k = (case map_of (users_of f) k of None \<Rightarrow> 0 | Some u \<Rightarrow> iu_version u)"

text \<open>One step of a run.\<close>

lemma id_exec_cases:
  assumes "id_file_ok w f"
  obtains (same) "fst (id_exec w cfg env c f) = f" "\<exists>e. snd (id_exec w cfg env c f) = Inl e"
  | (stored) s s' u where "read_id_unlocked w cfg env f = Inr s" "stores w cfg env s s' u"
      "fst (id_exec w cfg env c f) = sealed_next cfg env s'"
      "\<And>x. snd (id_exec w cfg env c f) = Inr x \<Longrightarrow> x = u"
      "nullish (expected_version c) \<or> js_Number (expected_version c) = JInt (int (version_in f (iu_subject u)))"
proof -
  consider "fst (id_exec w cfg env c f) = f" "\<exists>e. snd (id_exec w cfg env c f) = Inl e"
    | s s' u where "read_id_unlocked w cfg env f = Inr s" "id_op w cfg env c s = Inr (s', u)"
      "fst (id_exec w cfg env c f) = sealed_next cfg env s'" "\<And>x. snd (id_exec w cfg env c f) = Inr x \<Longrightarrow> x = u"
    using id_mutate_cases [of w cfg env "id_op w cfg env c" f] by (auto simp: id_exec_op)
  then show thesis
  proof cases
    case 2
    have "users_keyed (is_users s)"
      using read_id_users [OF 2(1)] id_file_ok_keyed [OF assms] by simp
    from id_op_stores [OF 2(2) this] read_id_users [OF 2(1)] 2 show thesis
      by (intro stored [of s s' u]) (auto simp: version_before_def version_in_def)
  qed (rule same)
qed

lemma id_exec_ok:
  assumes "id_file_ok w f"
  shows "id_file_ok w (fst (id_exec w cfg env c f))"
  using assms
proof (cases rule: id_exec_cases [of w f cfg env c])
  case (stored s s' u)
  then show ?thesis
    using store_user_ok [OF read_id_ok [OF stored(1) assms]] by (auto simp: stores_def sealed_next_def encrypt_id_snapshot_def id_file_ok_def)
qed (simp add: assms)

lemma id_run_ok: "id_file_ok w f \<Longrightarrow> id_file_ok w (id_run w cs f)"
  by (induction w cs f rule: id_run.induct) (simp_all add: id_exec_ok)

lemma id_start_ok [simp]: "id_file_ok w NoUsers"
  by (simp add: id_file_ok_def)

lemma stored_users:
  assumes "read_id_unlocked w cfg env f = Inr s" "stores w cfg env s s' u"
  shows "map_of (users_of (sealed_next cfg env s')) = (map_of (users_of f))(iu_subject u \<mapsto> u)"
    and "iu_version u = version_in f (iu_subject u) + 1"
  using assms read_id_users [OF assms(1)]
  by (auto simp: stores_def sealed_next_def encrypt_id_snapshot_def version_in_def version_before_def)

lemma version_step:
  assumes "id_file_ok w f"
  shows "version_in f k \<le> version_in (fst (id_exec w cfg env c f)) k"
  using assms
proof (cases rule: id_exec_cases [of w f cfg env c])
  case (stored s s' u)
  then show ?thesis
    using stored_users [OF stored(1,2)] by (simp add: version_in_def)
qed simp

lemma version_run: "id_file_ok w f \<Longrightarrow> version_in f k \<le> version_in (id_run w cs f) k"
proof (induction w cs f rule: id_run.induct)
  case (2 w cfg env c cs f)
  then show ?case
    using id_exec_ok [of w f cfg env c] version_step [of w f k cfg env c] by fastforce
qed simp

lemma returned_version:
  assumes "id_file_ok w f" "snd (id_exec w cfg env c f) = Inr u"
  shows "iu_version u = version_in f (iu_subject u) + 1"
    and "version_in (fst (id_exec w cfg env c f)) (iu_subject u) = iu_version u"
    and "nullish (expected_version c) \<or> js_Number (expected_version c) = JInt (int (version_in f (iu_subject u)))"
proof -
  have "iu_version u = version_in f (iu_subject u) + 1
    \<and> version_in (fst (id_exec w cfg env c f)) (iu_subject u) = iu_version u
    \<and> (nullish (expected_version c) \<or> js_Number (expected_version c) = JInt (int (version_in f (iu_subject u))))"
    using assms(1)
  proof (cases rule: id_exec_cases [of w f cfg env c])
    case (stored s s' u')
    moreover have "u' = u" using stored(4) assms(2) by simp
    ultimately show ?thesis using stored_users [OF stored(1,2)] by (simp add: version_in_def)
  qed (use assms(2) in auto)
  then show "iu_version u = version_in f (iu_subject u) + 1"
    and "version_in (fst (id_exec w cfg env c f)) (iu_subject u) = iu_version u"
    and "nullish (expected_version c) \<or> js_Number (expected_version c) = JInt (int (version_in f (iu_subject u)))"
    by auto
qed

subsection \<open>Where an entitlement comes from\<close>

text \<open>\<open>logged_last f u\<close>: the newest event of the file is about \<open>u\<close>, as it is stored.\<close>

definition logged_last :: "id_file \<Rightarrow> id_user \<Rightarrow> bool" where
  "logged_last f u = (events_of f \<noteq> [] \<and> records_user (last (events_of f)) u)"

lemma entitlement_origin:
  assumes "map_of (users_of (id_run w cs NoUsers)) k = Some u" "\<forall>(cfg, env, c) \<in> set cs. 0 < ic_retention cfg"
  shows "\<exists>pre x post. cs = pre @ x # post \<and> logged_last (id_run w (pre @ [x]) NoUsers) u
    \<and> (\<forall>q r. post = q @ r \<longrightarrow> map_of (users_of (id_run w (pre @ x # q) NoUsers)) k = Some u)"
  using assms
proof (induction cs rule: rev_induct)
  case (snoc y cs)
  obtain cfg env c where y: "y = (cfg, env, c)" by (cases y)
  let ?f = "id_run w cs NoUsers"
  have ok: "id_file_ok w ?f" by (simp add: id_run_ok)
  have next_run: "id_run w (cs @ [y]) NoUsers = fst (id_exec w cfg env c ?f)" by (simp add: y)
  show ?case
  proof (cases "map_of (users_of ?f) k = Some u")
    case True
    then obtain pre x post where IH: "cs = pre @ x # post" "logged_last (id_run w (pre @ [x]) NoUsers) u"
      "\<And>q r. post = q @ r \<Longrightarrow> map_of (users_of (id_run w (pre @ x # q) NoUsers)) k = Some u"
      using snoc.IH snoc.prems(2) by auto
    have "map_of (users_of (id_run w (pre @ x # q) NoUsers)) k = Some u" if "post @ [y] = q @ r" for q r
    proof (cases r rule: rev_cases)
      case Nil
      then have "pre @ x # q = cs @ [y]" using that IH(1) by simp
      then show ?thesis using snoc.prems(1) by simp
    next
      case (snoc r' z)
      then show ?thesis using that by (intro IH(3) [of q r']) simp
    qed
    then show ?thesis using IH(1,2) by (intro exI [of _ pre] exI [of _ x] exI [of _ "post @ [y]"]) simp
  next
    case False
    show ?thesis using ok
    proof (cases rule: id_exec_cases [of w ?f cfg env c])
      case (stored s s' v)
      have new: "map_of (users_of (sealed_next cfg env s')) = (map_of (users_of ?f))(iu_subject v \<mapsto> v)"
        by (rule stored_users [OF stored(1,2)])
      then have "iu_subject v = k \<and> v = u"
        using snoc.prems(1) False stored(3) unfolding next_run by (auto split: if_splits)
      moreover have "logged_last (sealed_next cfg env s') v"
        using stored(2) store_user_last_event [of cfg w env _ _ _ v s] snoc.prems(2)
        by (auto simp: stores_def logged_last_def sealed_next_def encrypt_id_snapshot_def y)
      ultimately show ?thesis
        using snoc.prems(1) stored(3) unfolding next_run [symmetric]
        by (intro exI [of _ cs] exI [of _ y] exI [of _ "[]"]) (simp add: next_run)
    qed (use snoc.prems(1) False next_run in simp)
  qed
qed simp

lemma enforced_entitlement:
  assumes "id_enforce w cfg env f p = Inr (Some e)" "ic_mode cfg = IdEnforce"
  shows "\<exists>u. map_of (users_of f) (pr_subject p) = Some u \<and> iu_active u \<and> iu_tenantId u = pr_tenantId p
    \<and> iu_role u = pr_role p \<and> ix_now env < iu_reviewBy u \<and> e = \<lparr>et_status = ''active'', et_user = Some u\<rparr>"
proof -
  obtain s where s: "read_id_snapshot w cfg env f = Inr s"
    "enforce_entitlement IdEnforce (ix_now env) (map_of (is_users s) (pr_subject p)) p = Inr e"
    using assms by (auto simp: id_enforce_def split: if_splits)
  then have "read_id_unlocked w cfg env f = Inr s"
    by (cases "ix_lock env") (auto simp: read_id_snapshot_def with_lock_def liftS_def split: sum.splits)
  then have "is_users s = users_of f" by (simp add: read_id_users)
  then show ?thesis using s(2)
    by (auto simp: enforce_entitlement_def Let_def review_due_def split: option.splits if_splits)
qed

subsection \<open>A sample history\<close>

definition sample_engine :: engine where
  "sample_engine = \<lparr>sha256 = (\<lambda>s. s), date_parse = (\<lambda>_. None),
     url_parse = (\<lambda>s. Some \<lparr>url_protocol = ''https:'', url_username = [], url_password = [], url_hash = [],
       url_search = [], url_hostname = [], url_href = s\<rparr>),
     json_parse = (\<lambda>_. None), key_bits = (\<lambda>_. None), signature_ok = (\<lambda>_ _ _ _. None), scrypt32 = (\<lambda>s salt. s), uri_decode = Some\<rparr>"

definition sample_id_config :: id_config where
  "sample_id_config = \<lparr>ic_mode = IdEnforce, ic_keys = [(''k1'', ''key'')], ic_primary = ''k1'', ic_reviewDays = 365,
     ic_retention = 100\<rparr>"

definition sample_id_env :: id_env where
  "sample_id_env = \<lparr>ix_now = 5, ix_lock = Acquired, ix_write = Committed, ix_userUuid = ''u'', ix_eventUuid = ''e''\<rparr>"

definition sample_input :: jsval where
  "sample_input = JObj [(''issuer'', JStr ''https://i''), (''externalSubject'', JStr ''ann''), (''tenantId'', JStr ''acme''),
     (''role'', JStr ''auditor''), (''reason'', JStr ''joins''), (''expectedVersion'', JInt 0)]"

definition sample_suspension :: jsval where
  "sample_suspension = JObj [(''active'', JBool False), (''reason'', JStr ''leaves''), (''expectedVersion'', JInt 1)]"

definition sample_commands :: "id_input list" where
  "sample_commands = [(sample_id_config, sample_id_env, Upsert sample_input JUndef)]"

definition sample_user :: id_user where
  "sample_user = \<lparr>iu_id = ''IDN-u'', iu_subject = ''oidc-https://i|ann'', iu_tenantId = ''acme'', iu_role = ''auditor'',
     iu_active = True, iu_displayName = None, iu_reviewBy = 31536000005, iu_source = ''scim'', iu_createdAt = 5,
     iu_updatedAt = 5, iu_version = 1\<rparr>"

definition sample_token_principal :: principal where
  "sample_token_principal = \<lparr>pr_subject = ''oidc-https://i|ann'', pr_tenantId = ''acme'', pr_role = ''auditor'',
     pr_permissions = [], pr_keyId = ''oidc-k'', pr_authMethod = Some ''oidc'', pr_amr = [], pr_acr = [],
     pr_externalSubjectHash = [], pr_credentialStatus = ''federated'', pr_credentialExpiresAt = None,
     pr_rotationRequired = False\<rparr>"

lemma sample_upsert: "snd (id_exec sample_engine sample_id_config sample_id_env (Upsert sample_input JUndef) NoUsers) = Inr sample_user"
  by code_simp

lemma sample_patch:
  "snd (id_exec sample_engine sample_id_config sample_id_env (Patch (JStr ''IDN-u'') sample_suspension JUndef)
     (id_run sample_engine sample_commands NoUsers)) = Inr (sample_user\<lparr>iu_active := False, iu_version := 2\<rparr>)"
  by code_simp

lemma sample_enforce:
  "id_enforce sample_engine sample_id_config sample_id_env (id_run sample_engine sample_commands NoUsers) sample_token_principal
    = Inr (Some \<lparr>et_status = ''active'', et_user = Some sample_user\<rparr>)"
  by code_simp

subsection \<open>Properties\<close>

text \<open>
  C19. Nobody gets in by a token without a logged approval. In enforce mode, when a federated
  principal passes, the history of the store has a command after which the newest event of the log
  names that subject, with exactly the principal's tenant and role and active; since that command
  no command has changed the entitlement, and its review deadline is still ahead.
\<close>

theorem admission_has_logged_approval:
  assumes "id_enforce w cfg env (id_run w cs NoUsers) p = Inr (Some e)" and "ic_mode cfg = IdEnforce"
    and "\<forall>(c, _, _) \<in> set cs. 0 < ic_retention c"
  shows "\<exists>pre x post u ev. cs = pre @ x # post
    \<and> events_of (id_run w (pre @ [x]) NoUsers) \<noteq> [] \<and> ev = last (events_of (id_run w (pre @ [x]) NoUsers))
    \<and> ie_subject ev = pr_subject p \<and> ie_tenantId ev = pr_tenantId p \<and> ie_role ev = pr_role p \<and> ie_active ev
    \<and> ie_version ev = iu_version u \<and> ix_now env < iu_reviewBy u
    \<and> (\<forall>q r. post = q @ r \<longrightarrow> map_of (users_of (id_run w (pre @ x # q) NoUsers)) (pr_subject p) = Some u)"
proof -
  obtain u where u: "map_of (users_of (id_run w cs NoUsers)) (pr_subject p) = Some u" "iu_active u"
    "iu_tenantId u = pr_tenantId p" "iu_role u = pr_role p" "ix_now env < iu_reviewBy u"
    using enforced_entitlement [OF assms(1,2)] by blast
  have "iu_subject u = pr_subject p"
    using users_keyed_lookup [OF id_file_ok_keyed [OF id_run_ok [OF id_start_ok]] u(1)] .
  moreover obtain pre x post where "cs = pre @ x # post" "logged_last (id_run w (pre @ [x]) NoUsers) u"
    "\<forall>q r. post = q @ r \<longrightarrow> map_of (users_of (id_run w (pre @ x # q) NoUsers)) (pr_subject p) = Some u"
    using entitlement_origin [OF u(1)] assms(3) by auto
  ultimately show ?thesis using u(2-5) unfolding logged_last_def records_user_def by metis
qed

theorem admission_has_logged_approval_witness:
  "\<exists>pre x post. sample_commands = pre @ x # post \<and>
     ie_subject (last (events_of (id_run sample_engine (pre @ [x]) NoUsers))) = pr_subject sample_token_principal"
proof -
  have "\<forall>(c, _, _) \<in> set sample_commands. 0 < ic_retention c" "ic_mode sample_id_config = IdEnforce"
    by (simp_all add: sample_commands_def sample_id_config_def)
  from admission_has_logged_approval [OF sample_enforce this(2) this(1)] show ?thesis by blast
qed

text \<open>
  C7. No update is lost. When two commands of a run succeed on the same user, the later one
  stored a higher version; if it gave an expected version, that was the version stored when it ran, at
  least the one the earlier command stored. So of two commands with one expected version at most one
  succeeds, whatever ran in between and whatever writes failed.
\<close>

theorem expected_version_commits_once:
  assumes "f = id_run w cs NoUsers" and "snd (id_exec w cfg1 env1 c1 f) = Inr u1"
    and "g = id_run w ds (fst (id_exec w cfg1 env1 c1 f))" and "snd (id_exec w cfg2 env2 c2 g) = Inr u2"
    and "iu_subject u1 = iu_subject u2"
  shows "iu_version u1 < iu_version u2
    \<and> (\<not> nullish (expected_version c2) \<longrightarrow> js_Number (expected_version c2) = JInt (int (iu_version u2) - 1))
    \<and> (\<not> nullish (expected_version c1) \<and> \<not> nullish (expected_version c2)
        \<longrightarrow> js_Number (expected_version c1) \<noteq> js_Number (expected_version c2))"
proof -
  have f: "id_file_ok w f" using assms(1) by (simp add: id_run_ok)
  then have f1: "id_file_ok w (fst (id_exec w cfg1 env1 c1 f))" by (rule id_exec_ok)
  have g: "id_file_ok w g" using assms(3) f1 by (simp add: id_run_ok)
  note first = returned_version [OF f assms(2)] and second = returned_version [OF g assms(4)]
  have "iu_version u1 \<le> version_in g (iu_subject u2)"
    using version_run [OF f1, of "iu_subject u1" ds] first(2) assms(3,5) by simp
  then show ?thesis using first second by auto
qed

theorem expected_version_commits_once_witness:
  "iu_version sample_user < iu_version (sample_user\<lparr>iu_active := False, iu_version := 2\<rparr>)"
  using expected_version_commits_once [where cs = "[]" and w = sample_engine and ds = "[]" and f = NoUsers,
      OF _ sample_upsert _ sample_patch [unfolded sample_commands_def]] by simp

text \<open>
  The log agrees with the store. Whatever commands ran, under whatever keys and retention,
  and however their writes ended, the file holds a chain of events numbered from its anchor, the
  events about one user carry consecutive versions, the last of them says the stored tenant, role,
  activity and version, and as long as nothing was trimmed every version of every user has its event.
\<close>

theorem log_agrees_with_store:
  assumes "id_run w cs NoUsers = UserEnvelope keyId key s"
  shows "validate_id_snapshot w s \<and> is_sequence s = is_anchorSequence s + length (is_events s)
    \<and> (case map_of (is_users s) k of
         None \<Rightarrow> trail k (is_events s) = []
       | Some u \<Rightarrow> (\<exists>n. n + length (trail k (is_events s)) = iu_version u \<and> numbered ie_version n (trail k (is_events s))
             \<and> (is_anchorSequence s = 0 \<longrightarrow> n = 0))
           \<and> (trail k (is_events s) \<noteq> [] \<longrightarrow> records_user (last (trail k (is_events s))) u))"
proof -
  have "id_file_ok w (UserEnvelope keyId key s)"
    unfolding assms [symmetric] by (simp add: id_run_ok)
  then have "id_snapshot_ok w s" by (simp add: id_file_ok_def)
  then have "validate_id_snapshot w s" "is_sequence s = is_anchorSequence s + length (is_events s)"
    and "trail_ok (is_anchorSequence s = 0) (map_of (is_users s) k) (trail k (is_events s))"
    by (simp_all add: id_snapshot_ok_def)
  then show ?thesis by (simp only: trail_ok_def simp_thms)
qed

lemma sample_run: "\<exists>s. id_run sample_engine sample_commands NoUsers = UserEnvelope ''k1'' ''key'' s"
  using id_start_ok
proof (cases rule: id_exec_cases [of sample_engine NoUsers sample_id_config sample_id_env "Upsert sample_input JUndef"])
  case (stored s s' u)
  then show ?thesis by (simp add: sample_commands_def sealed_next_def encrypt_id_snapshot_def sample_id_config_def)
qed (simp add: sample_upsert del: id_exec.simps)

theorem log_agrees_with_store_witness:
  "\<exists>s. id_run sample_engine sample_commands NoUsers = UserEnvelope ''k1'' ''key'' s \<and> validate_id_snapshot sample_engine s"
proof -
  obtain s where "id_run sample_engine sample_commands NoUsers = UserEnvelope ''k1'' ''key'' s"
    using sample_run by blast
  then show ?thesis using log_agrees_with_store [of sample_engine sample_commands] by blast
qed

end
