(* ===== verification/OidcLogin.thy ===== *)
theory OidcLogin
  imports IdentityRegistry
begin

section \<open>Federated tokens (src/security/oidcAuthenticator.js)\<close>

text \<open>
  Parsing of a signed token, the cache of the identity provider's signing keys with its refresh
  and the bounded use of stale keys, signature and claim checks, and the principal a token
  yields. A call may wait for up to two fetches of the key set; the environment says how each ends
  and what the clock shows when its answer is read. Numbers of claims are integers.
\<close>

subsection \<open>Data\<close>

text \<open>
  \<open>OidcAuth\<close> is an \<open>OidcAuthenticationError\<close> with its code; \<open>OidcTypeErr\<close> and \<open>OidcPlainErr\<close> are the
  \<open>TypeError\<close> and the \<open>Error\<close> that some checks let escape.
\<close>

datatype oidc_error =
    OidcAuth string
  | OidcUnavailable
  | OidcTypeErr string
  | OidcPlainErr string

record oidc_config =
  oc_issuer :: string
  oc_audiences :: "string list"
  oc_static :: bool
  oc_roleMap :: "(string \<times> string) list"
  oc_tenantClaim :: string
  oc_groupsClaim :: string
  oc_tenants :: "string list"
  oc_algorithms :: "string list"
  oc_acr :: "string list"
  oc_amr :: "string list"
  oc_skewMs :: int
  oc_maxLifetime :: int
  oc_cacheMs :: int
  oc_staleMs :: int

text \<open>The key cache; \<open>None\<close> as a deadline is infinity (a configured key set).\<close>

record jwks_cache =
  jk_keys :: "(string \<times> jsval) list"
  jk_fetchedAt :: "int option"
  jk_expiresAt :: "int option"
  jk_staleUntil :: "int option"
  jk_lastError :: bool

text \<open>How a fetch ends: it throws, or answers with an ok flag, a body and a cache-control header.\<close>

datatype fetch_outcome = FetchThrows | FetchAnswer bool string jsval

text \<open>The two fetches one call may wait for are told apart by \<open>forceRefresh\<close>.\<close>

record oidc_env =
  ox_now :: int
  ox_fetch :: "bool \<Rightarrow> fetch_outcome"
  ox_answeredAt :: "bool \<Rightarrow> int"

record fed_principal = principal +
  fp_issuer :: string
  fp_audience :: "string option"
  fp_signingKeyId :: string

subsection \<open>Configuration\<close>

definition ascii_lower :: "char \<Rightarrow> char" where
  "ascii_lower c = (let n = (of_char c :: nat) in if 65 \<le> n \<and> n \<le> 90 then char_of (n + 32) else c)"

definition oidc_exact_url :: "engine \<Rightarrow> jsval \<Rightarrow> string \<Rightarrow> oidc_error + string" where
  "oidc_exact_url w v field =
     bindR (from_option (OidcTypeErr field) (url_parse w (js_String (js_or_nullish v (JStr []))))) (\<lambda>u.
     ensure (plain_https u) (OidcTypeErr field) (Inr (drop_slash (url_href u))))"

definition ends_with :: "string \<Rightarrow> string \<Rightarrow> bool" where
  "ends_with p s = starts_with (rev p) (rev s)"

text \<open>\<open>/^(\d{1,3})\.(\d{1,3})\.(\d{1,3})\.(\d{1,3})$/\<close>, the four numbers.\<close>

definition ipv4_parts :: "string \<Rightarrow> nat list option" where
  "ipv4_parts s = (let ps = split_at (CHR ''.'') s in
     if length ps = 4 \<and> list_all (\<lambda>p. p \<noteq> [] \<and> length p \<le> 3 \<and> list_all is_digit p) ps then Some (map undec ps) else None)"

definition private_hostname :: "string \<Rightarrow> bool" where
  "private_hostname h = (h = ''localhost'' \<or> ends_with ''.localhost'' h \<or> ends_with ''.local'' h \<or> h = ''::1'' \<or> h = ''[::1]''
     \<or> (case ipv4_parts h of
          Some (a # b # _) \<Rightarrow> a = 10 \<or> a = 127 \<or> a = 169 \<and> b = 254 \<or> a = 172 \<and> 16 \<le> b \<and> b \<le> 31 \<or> a = 192 \<and> b = 168
        | _ \<Rightarrow> False))"

definition validate_jwks_uri :: "engine \<Rightarrow> jsval \<Rightarrow> bool \<Rightarrow> oidc_error + string" where
  "validate_jwks_uri w v allowPrivate = bindR (oidc_exact_url w v ''jwksUri'') (\<lambda>address.
     bindR (from_option (OidcTypeErr ''jwksUri'') (url_parse w address)) (\<lambda>u.
     ensure (allowPrivate \<or> \<not> private_hostname (map ascii_lower (url_hostname u))) (OidcTypeErr ''jwksUri'') (Inr address)))"

definition oidc_string_list :: "jsval \<Rightarrow> string \<Rightarrow> nat \<Rightarrow> nat \<Rightarrow> oidc_error + string list" where
  "oidc_string_list v field lo hi =
     (let items = (if v \<in> {JUndef, JNull, JStr []} then Some []
        else case v of JStr s \<Rightarrow> Some (map JStr (split_at (CHR '','') s)) | JArr vs \<Rightarrow> Some vs | _ \<Rightarrow> None) in
      bindR (from_option (OidcTypeErr field) items) (\<lambda>vs.
      let r = uniq (filter (\<lambda>s. s \<noteq> []) (map (js_trim \<circ> js_String) vs)) in
      ensure (lo \<le> length r \<and> length r \<le> hi) (OidcTypeErr field) (Inr r)))"

definition oidc_algorithms :: "jsval \<Rightarrow> oidc_error + string list" where
  "oidc_algorithms v = bindR (oidc_string_list v ''allowedAlgorithms'' 1 10) (\<lambda>as.
     ensure (set as \<subseteq> {''RS256'', ''ES256''}) (OidcTypeErr ''allowedAlgorithms'') (Inr as))"

definition role_names :: "string list" where
  "role_names = [''audit_viewer'', ''auditor'', ''audit_manager'', ''compliance_admin'']"

definition group_entry :: "string \<times> jsval \<Rightarrow> oidc_error + string \<times> string" where
  "group_entry p = (let g = js_trim (fst p); role = js_String (snd p) in
     ensure (g \<noteq> [] \<and> length g \<le> 256) (OidcTypeErr ''group'')
    (ensure (role \<in> set role_names) (OidcTypeErr ''role'') (Inr (g, role))))"

definition group_role_map :: "jsval \<Rightarrow> oidc_error + (string \<times> string) list" where
  "group_role_map v = ensure (is_plain_object v) (OidcTypeErr ''groupRoleMap'')
    (bindR (mapR group_entry (object_entries v)) (\<lambda>entries.
     let m = foldl (\<lambda>m p. put_assoc (fst p) (snd p) m) [] entries in
     ensure (m \<noteq> []) (OidcTypeErr ''groupRoleMap'') (Inr m)))"

definition is_letter :: "char \<Rightarrow> bool" where
  "is_letter c = (is_alnum c \<and> \<not> is_digit c)"

text \<open>\<open>/^[A-Za-z_][A-Za-z0-9_.:-]{0,127}$/\<close>.\<close>

definition safe_claim_name :: "jsval \<Rightarrow> string \<Rightarrow> oidc_error + string" where
  "safe_claim_name v field = (let name = trimmed v in
     ensure (case name of [] \<Rightarrow> False | c # cs \<Rightarrow> (is_letter c \<or> c = CHR ''_'') \<and> length cs \<le> 127
         \<and> list_all (\<lambda>d. is_alnum d \<or> d \<in> set ''_.:-'') cs) (OidcTypeErr field) (Inr name))"

definition oidc_identifier :: "jsval \<Rightarrow> string \<Rightarrow> oidc_error + string" where
  "oidc_identifier v field = (let t = trimmed v in
     ensure (safe_ident ''._:-'' 0 127 t) (OidcTypeErr field) (Inr t))"

definition oidc_integer :: "jsval \<Rightarrow> string \<Rightarrow> int \<Rightarrow> int \<Rightarrow> oidc_error + int" where
  "oidc_integer v field lo hi = from_option (OidcTypeErr field) (int_in lo hi v)"

subsection \<open>Signing keys\<close>

text \<open>Keys of another use, operation or type are skipped.\<close>

definition usable_jwk :: "jsval \<Rightarrow> bool" where
  "usable_jwk jwk = (is_plain_object jwk \<and> (truthy (js_get jwk ''use'') \<longrightarrow> js_get jwk ''use'' = JStr ''sig'')
     \<and> (is_array (js_get jwk ''key_ops'') \<longrightarrow> JStr ''verify'' \<in> set (elements (js_get jwk ''key_ops'')))
     \<and> js_get jwk ''kty'' \<in> {JStr ''RSA'', JStr ''EC''})"

fun collect_jwks :: "(string \<times> jsval) list \<Rightarrow> jsval list \<Rightarrow> oidc_error + (string \<times> jsval) list" where
  "collect_jwks output [] = Inr output"
| "collect_jwks output (jwk # rest) = (if \<not> usable_jwk jwk then collect_jwks output rest
     else bindR (oidc_identifier (js_get jwk ''kid'') ''kid'') (\<lambda>kid.
       ensure (map_of output kid = None) (OidcTypeErr ''duplicate kid'') (collect_jwks (output @ [(kid, jwk)]) rest)))"

definition normalise_jwks :: "jsval \<Rightarrow> oidc_error + (string \<times> jsval) list" where
  "normalise_jwks v = ensure (is_plain_object v \<and> is_array (js_get v ''keys'')) (OidcTypeErr ''keys'')
    (bindR (collect_jwks [] (elements (js_get v ''keys''))) (\<lambda>output.
     ensure (output \<noteq> []) (OidcTypeErr ''no usable key'') (Inr output)))"

definition build_jwks_cache :: "jsval \<Rightarrow> int \<Rightarrow> int option \<Rightarrow> int option \<Rightarrow> oidc_error + jwks_cache" where
  "build_jwks_cache v current expiresIn staleIn = bindR (normalise_jwks v) (\<lambda>keys.
     Inr \<lparr>jk_keys = keys, jk_fetchedAt = Some current, jk_expiresAt = map_option (\<lambda>d. current + d) expiresIn,
          jk_staleUntil = map_option (\<lambda>d. current + d) staleIn, jk_lastError = False\<rparr>)"

definition cold_cache :: jwks_cache where
  "cold_cache = \<lparr>jk_keys = [], jk_fetchedAt = None, jk_expiresAt = Some 0, jk_staleUntil = Some 0, jk_lastError = False\<rparr>"

definition make_oidc :: "engine \<Rightarrow> int \<Rightarrow> jsval \<Rightarrow> oidc_error + oidc_config \<times> jwks_cache" where
  "make_oidc w now options =
     (let opt = (\<lambda>k d. default_to (js_get options k) d); static = truthy (js_get options ''staticJwks'') in
      bindR (oidc_exact_url w (js_get options ''issuer'') ''issuer'') (\<lambda>issuer.
      bindR (oidc_string_list (js_get options ''audience'') ''audience'' 1 20) (\<lambda>audiences.
      bindR (if static then Inr [] else validate_jwks_uri w (js_get options ''jwksUri'') (truthy (js_get options ''allowPrivateJwks''))) (\<lambda>_.
      bindR (group_role_map (js_get options ''groupRoleMap'')) (\<lambda>roleMap.
      bindR (safe_claim_name (opt ''tenantClaim'' (JStr ''tenant_id'')) ''tenantClaim'') (\<lambda>tenantClaim.
      bindR (safe_claim_name (opt ''groupsClaim'' (JStr ''groups'')) ''groupsClaim'') (\<lambda>groupsClaim.
      bindR (oidc_string_list (js_get options ''allowedTenants'') ''allowedTenants'' 0 1000) (\<lambda>tenants.
      bindR (oidc_algorithms (opt ''allowedAlgorithms'' (JArr [JStr ''RS256'']))) (\<lambda>algorithms.
      bindR (oidc_string_list (js_get options ''requiredAcr'') ''requiredAcr'' 0 20) (\<lambda>acr.
      bindR (oidc_string_list (js_get options ''requiredAmr'') ''requiredAmr'' 0 20) (\<lambda>amr.
      bindR (oidc_integer (opt ''clockSkewSeconds'' (JInt 60)) ''clockSkewSeconds'' 0 600) (\<lambda>skew.
      bindR (oidc_integer (opt ''maximumTokenLifetimeSeconds'' (JInt 3600)) ''maximumTokenLifetimeSeconds'' 60 86400) (\<lambda>lifetime.
      bindR (oidc_integer (opt ''jwksCacheSeconds'' (JInt 900)) ''jwksCacheSeconds'' 30 86400) (\<lambda>cacheS.
      bindR (oidc_integer (opt ''jwksStaleSeconds'' (JInt 3600)) ''jwksStaleSeconds'' 0 604800) (\<lambda>staleS.
      bindR (oidc_integer (opt ''jwksTimeoutMs'' (JInt 5000)) ''jwksTimeoutMs'' 500 30000) (\<lambda>_.
      bindR (if static then build_jwks_cache (js_get options ''staticJwks'') now None None else Inr cold_cache) (\<lambda>cache.
      Inr (\<lparr>oc_issuer = issuer, oc_audiences = audiences, oc_static = static, oc_roleMap = roleMap,
            oc_tenantClaim = tenantClaim, oc_groupsClaim = groupsClaim, oc_tenants = tenants,
            oc_algorithms = algorithms, oc_acr = acr, oc_amr = amr, oc_skewMs = skew * 1000,
            oc_maxLifetime = lifetime, oc_cacheMs = cacheS * 1000, oc_staleMs = staleS * 1000\<rparr>, cache))))))))))))))))))"

subsection \<open>Refreshing the keys\<close>

text \<open>One segment of a header, \<open>\s*max-age=(\d+)\s*\<close>, without regard to case.\<close>

definition max_age_segment :: "string \<Rightarrow> int option" where
  "max_age_segment seg = (let s = js_trim seg; ds = drop 8 s in
     if map ascii_lower (take 8 s) = ''max-age='' \<and> ds \<noteq> [] \<and> list_all is_digit ds then Some (int (undec ds)) else None)"

definition cache_control_max_age :: "jsval \<Rightarrow> int option" where
  "cache_control_max_age v = (case List.map_filter max_age_segment
       (split_at (CHR '','') (js_String (js_or_nullish v (JStr [])))) of [] \<Rightarrow> None | n # _ \<Rightarrow> Some n)"

definition before_deadline :: "int \<Rightarrow> int option \<Rightarrow> bool" where
  "before_deadline t d = (case d of None \<Rightarrow> True | Some x \<Rightarrow> t < x)"

definition within_deadline :: "int \<Rightarrow> int option \<Rightarrow> bool" where
  "within_deadline t d = (case d of None \<Rightarrow> True | Some x \<Rightarrow> t \<le> x)"

text \<open>The body of a fetch: everything that goes wrong with it is an unavailable provider.\<close>

definition fetched_cache :: "engine \<Rightarrow> oidc_config \<Rightarrow> fetch_outcome \<Rightarrow> int \<Rightarrow> oidc_error + jwks_cache" where
  "fetched_cache w cfg outcome current = (case outcome of
       FetchThrows \<Rightarrow> Inl OidcUnavailable
     | FetchAnswer answerOk body cacheControl \<Rightarrow>
         ensure (answerOk \<and> int (length body) \<le> 1000000) OidcUnavailable
        (bindR (from_option OidcUnavailable (json_parse w body)) (\<lambda>v.
         let ttl = (case cache_control_max_age cacheControl of None \<Rightarrow> oc_cacheMs cfg | Some n \<Rightarrow> min (oc_cacheMs cfg) (n * 1000)) in
         case build_jwks_cache v current (Some ttl) (Some (ttl + oc_staleMs cfg)) of
           Inl _ \<Rightarrow> Inl OidcUnavailable | Inr c \<Rightarrow> Inr c)))"

definition refresh_keys :: "engine \<Rightarrow> oidc_config \<Rightarrow> oidc_env \<Rightarrow> bool \<Rightarrow> (jwks_cache, oidc_error, unit) call" where
  "refresh_keys w cfg env forceRefresh st =
     (if \<not> forceRefresh \<and> jk_fetchedAt st \<noteq> None \<and> before_deadline (ox_now env) (jk_expiresAt st) then (st, Inr ())
      else case fetched_cache w cfg (ox_fetch env forceRefresh) (ox_answeredAt env forceRefresh) of
        Inl e \<Rightarrow> (st\<lparr>jk_lastError := True\<rparr>, Inl e)
      | Inr st' \<Rightarrow> (st', Inr ()))"

definition has_key :: "string \<Rightarrow> jwks_cache \<Rightarrow> bool" where
  "has_key kid st = (map_of (jk_keys st) kid \<noteq> None)"

definition find_key :: "string \<Rightarrow> jwks_cache \<Rightarrow> jsval option" where
  "find_key kid st = map_of (jk_keys st) kid"

definition resolve_key ::
  "engine \<Rightarrow> oidc_config \<Rightarrow> oidc_env \<Rightarrow> string \<Rightarrow> bool \<Rightarrow> (jwks_cache, oidc_error, jsval option) call" where
  "resolve_key w cfg env kid forceRefresh =
     (if oc_static cfg then getS (find_key kid)
      else bindS (getS (\<lambda>st. \<not> forceRefresh \<and> has_key kid st \<and> before_deadline (ox_now env) (jk_expiresAt st))) (\<lambda>fresh.
        if fresh then getS (find_key kid)
        else bindS (catchS (refresh_keys w cfg env forceRefresh)
               (\<lambda>e. bindS (getS (\<lambda>st. has_key kid st \<and> within_deadline (ox_now env) (jk_staleUntil st))) (\<lambda>usable.
                  if usable then returnS () else throwS e)))
             (\<lambda>_. getS (find_key kid))))"

subsection \<open>Parsing a token\<close>

definition base64url_text :: "string \<Rightarrow> bool" where
  "base64url_text s = (s \<noteq> [] \<and> list_all (\<lambda>c. is_alnum c \<or> c = CHR ''_'' \<or> c = CHR ''-'') s)"

definition decode_base64url :: "string \<Rightarrow> oidc_error + string" where
  "decode_base64url s = ensure (base64url_text s) (OidcPlainErr ''invalid base64url'') (Inr (buffer_from s))"

record parsed_jwt =
  jw_alg :: string
  jw_kid :: "string option"
  jw_payload :: jsval
  jw_signature :: string
  jw_input :: string

text \<open>Decoding the two JSON parts; whatever throws here is a malformed token.\<close>

definition decode_json_part :: "engine \<Rightarrow> string \<Rightarrow> oidc_error + jsval" where
  "decode_json_part w part = (case decode_base64url part of
       Inl _ \<Rightarrow> Inl (OidcAuth ''OIDC_TOKEN_MALFORMED'')
     | Inr bytes \<Rightarrow> from_option (OidcAuth ''OIDC_TOKEN_MALFORMED'') (json_parse w bytes))"

definition check_jwt_header :: "jsval \<Rightarrow> oidc_error + string" where
  "check_jwt_header header =
     ensure (is_plain_object header) (OidcAuth ''OIDC_TOKEN_MALFORMED'')
    (ensure (js_get header ''crit'' = JUndef) (OidcAuth ''OIDC_CRITICAL_HEADER_UNSUPPORTED'')
    (ensure (js_get header ''jku'' = JUndef \<and> js_get header ''jwk'' = JUndef \<and> js_get header ''x5u'' = JUndef)
       (OidcAuth ''OIDC_HEADER_KEY_REFERENCE_FORBIDDEN'')
    (ensure (js_get header ''typ'' = JUndef \<or> js_String (js_get header ''typ'') \<in> {''JWT'', ''at+jwt''})
       (OidcAuth ''OIDC_TOKEN_TYPE_INVALID'')
    (let alg = js_String (js_or_nullish (js_get header ''alg'') (JStr [])) in
     ensure (alg \<noteq> [] \<and> map ascii_lower alg \<noteq> ''none'' \<and> \<not> starts_with ''HS'' alg)
       (OidcAuth ''OIDC_ALGORITHM_NOT_ALLOWED'') (Inr alg)))))"

definition parse_jwt :: "engine \<Rightarrow> string \<Rightarrow> oidc_error + parsed_jwt" where
  "parse_jwt w token =
     (let raw = js_trim token; parts = split_at (CHR ''.'') raw in
      ensure (raw \<noteq> [] \<and> int (length raw) \<le> 16384) (OidcAuth ''OIDC_TOKEN_MALFORMED'')
     (ensure (length parts = 3 \<and> [] \<notin> set parts) (OidcAuth ''OIDC_TOKEN_MALFORMED'')
     (bindR (decode_json_part w (parts ! 0)) (\<lambda>header.
      bindR (decode_json_part w (parts ! 1)) (\<lambda>payload.
      bindR (check_jwt_header header) (\<lambda>alg.
      bindR (decode_base64url (parts ! 2)) (\<lambda>signature.
      bindR (if truthy (js_get header ''kid'') then bindR (oidc_identifier (js_get header ''kid'') ''kid'') (\<lambda>k. Inr (Some k))
             else Inr None) (\<lambda>kid.
      Inr \<lparr>jw_alg = alg, jw_kid = kid, jw_payload = payload, jw_signature = signature,
           jw_input = parts ! 0 @ ''.'' @ parts ! 1\<rparr>))))))))"

definition verifier_name :: "string \<Rightarrow> string option" where
  "verifier_name alg = (if alg = ''RS256'' then Some ''RSA-SHA256'' else if alg = ''ES256'' then Some ''sha256'' else None)"

definition verify_jwt_signature :: "engine \<Rightarrow> parsed_jwt \<Rightarrow> jsval \<Rightarrow> oidc_error + unit" where
  "verify_jwt_signature w parsed jwk =
     ensure (jw_alg parsed = ''RS256'' \<longrightarrow> js_get jwk ''kty'' = JStr ''RSA'') (OidcAuth ''OIDC_SIGNING_KEY_INVALID'')
    (ensure (jw_alg parsed = ''ES256'' \<longrightarrow> js_get jwk ''kty'' = JStr ''EC'' \<and> js_get jwk ''crv'' = JStr ''P-256'')
       (OidcAuth ''OIDC_SIGNING_KEY_INVALID'')
    (bindR (from_option (OidcAuth ''OIDC_SIGNING_KEY_INVALID'') (key_bits w jwk)) (\<lambda>bits.
     ensure (jw_alg parsed = ''RS256'' \<longrightarrow> 2048 \<le> bits) (OidcAuth ''OIDC_SIGNING_KEY_INVALID'')
    (bindR (from_option (OidcAuth ''OIDC_SIGNATURE_INVALID'') (verifier_name (jw_alg parsed))) (\<lambda>verifier.
     bindR (from_option (OidcAuth ''OIDC_SIGNING_KEY_INVALID'') (signature_ok w verifier jwk (jw_input parsed) (jw_signature parsed))) (\<lambda>valid.
     ensure valid (OidcAuth ''OIDC_SIGNATURE_INVALID'') (Inr ())))))))"

subsection \<open>Claims\<close>

text \<open>A list of texts, or a text split at blanks and commas.\<close>

definition claim_list :: "jsval \<Rightarrow> string list" where
  "claim_list v = filter (\<lambda>s. s \<noteq> []) (case v of
       JArr vs \<Rightarrow> map js_String vs
     | JStr s \<Rightarrow> map js_trim (concat (map (split_at (CHR '','')) (split_at (CHR '' '') s)))
     | _ \<Rightarrow> [])"

definition matched_audience :: "jsval \<Rightarrow> string list \<Rightarrow> string option" where
  "matched_audience v expected = List.find (\<lambda>a. a \<in> set (claim_list v)) expected"

definition audience_matches :: "jsval \<Rightarrow> string list \<Rightarrow> bool" where
  "audience_matches v expected = list_ex (\<lambda>a. a \<in> set (claim_list v)) expected"

definition numeric_date :: "jsval \<Rightarrow> string \<Rightarrow> bool \<Rightarrow> oidc_error + int option" where
  "numeric_date v field mandatory = (if nullish v then
       ensure (\<not> mandatory) (OidcAuth (''OIDC_'' @ field @ ''_REQUIRED'')) (Inr None)
     else (case js_Number v of
         JInt n \<Rightarrow> ensure (0 \<le> n) (OidcAuth (''OIDC_'' @ field @ ''_INVALID'')) (Inr (Some n))
       | _ \<Rightarrow> Inl (OidcAuth (''OIDC_'' @ field @ ''_INVALID''))))"

fun claim_value :: "jsval \<Rightarrow> string list \<Rightarrow> oidc_error + jsval" where
  "claim_value v [] = Inr v"
| "claim_value v (segment # path) =
     ensure (segment \<notin> {''__proto__'', ''prototype'', ''constructor''}) (OidcAuth ''OIDC_CLAIM_PATH_INVALID'')
       (case v of
          JObj kvs \<Rightarrow> (case map_of kvs segment of None \<Rightarrow> Inr JUndef | Some x \<Rightarrow> claim_value x path)
        | _ \<Rightarrow> Inr JUndef)"

definition validate_claims :: "oidc_config \<Rightarrow> jsval \<Rightarrow> int \<Rightarrow> oidc_error + int" where
  "validate_claims cfg claims currentMs =
     ensure (is_plain_object claims) (OidcAuth ''OIDC_CLAIMS_INVALID'')
    (ensure (js_get claims ''iss'' = JStr (oc_issuer cfg)) (OidcAuth ''OIDC_ISSUER_INVALID'')
    (ensure (audience_matches (js_get claims ''aud'') (oc_audiences cfg)) (OidcAuth ''OIDC_AUDIENCE_INVALID'')
    (let sub = js_String (js_or_nullish (js_get claims ''sub'') (JStr [])) in
     ensure (sub \<noteq> [] \<and> length sub \<le> 512) (OidcAuth ''OIDC_SUBJECT_INVALID'')
    (bindR (numeric_date (js_get claims ''exp'') ''EXP'' True) (\<lambda>e.
     bindR (numeric_date (js_get claims ''iat'') ''IAT'' True) (\<lambda>i.
     bindR (numeric_date (js_get claims ''nbf'') ''NBF'' False) (\<lambda>nbf.
     let exp = the e; iat = the i in
     ensure (\<not> currentMs \<ge> exp * 1000 + oc_skewMs cfg) (OidcAuth ''OIDC_TOKEN_EXPIRED'')
    (ensure (case nbf of None \<Rightarrow> True | Some n \<Rightarrow> \<not> currentMs + oc_skewMs cfg < n * 1000) (OidcAuth ''OIDC_TOKEN_NOT_ACTIVE'')
    (ensure (\<not> iat * 1000 > currentMs + oc_skewMs cfg) (OidcAuth ''OIDC_ISSUED_AT_INVALID'')
    (ensure (iat < exp \<and> exp - iat \<le> oc_maxLifetime cfg) (OidcAuth ''OIDC_TOKEN_LIFETIME_INVALID'')
       (Inr exp)))))))))))"

definition mapped_roles :: "oidc_config \<Rightarrow> jsval \<Rightarrow> string list" where
  "mapped_roles cfg v = uniq (List.map_filter (\<lambda>g. map_of (oc_roleMap cfg) g) (claim_list v))"

definition map_role :: "oidc_config \<Rightarrow> jsval \<Rightarrow> oidc_error + string" where
  "map_role cfg v =
     ensure (length (claim_list v) \<le> 500) (OidcAuth ''OIDC_GROUPS_INVALID'')
    (case mapped_roles cfg v of
       [] \<Rightarrow> Inl (OidcAuth ''OIDC_ROLE_NOT_MAPPED'')
     | [role] \<Rightarrow> Inr role
     | _ \<Rightarrow> Inl (OidcAuth ''OIDC_ROLE_AMBIGUOUS''))"

definition map_tenant :: "oidc_config \<Rightarrow> jsval \<Rightarrow> oidc_error + string" where
  "map_tenant cfg v = bindR (oidc_identifier v (oc_tenantClaim cfg)) (\<lambda>tenantId.
     ensure (oc_tenants cfg = [] \<or> tenantId \<in> set (oc_tenants cfg)) (OidcAuth ''OIDC_TENANT_NOT_ALLOWED'') (Inr tenantId))"

definition validate_assurance :: "oidc_config \<Rightarrow> jsval \<Rightarrow> oidc_error + unit" where
  "validate_assurance cfg claims =
     ensure (oc_acr cfg = [] \<or> js_String (js_or_nullish (js_get claims ''acr'') (JStr [])) \<in> set (oc_acr cfg))
       (OidcAuth ''OIDC_ACR_REQUIRED'')
    (ensure (set (oc_amr cfg) \<subseteq> set (claim_list (js_get claims ''amr''))) (OidcAuth ''OIDC_AMR_REQUIRED'') (Inr ()))"

subsection \<open>Authenticating a token\<close>

definition path_segments :: "string \<Rightarrow> string list" where
  "path_segments path = split_at (CHR ''.'') path"

definition subject_claim :: "jsval \<Rightarrow> string" where
  "subject_claim claims = js_String (js_or_nullish (js_get claims ''sub'') (JStr []))"

text \<open>The claims of a verified token, and the principal made of them.\<close>

definition token_principal ::
  "engine \<Rightarrow> oidc_config \<Rightarrow> int \<Rightarrow> string \<Rightarrow> jsval \<Rightarrow> oidc_error + fed_principal" where
  "token_principal w cfg current kid claims =
     bindR (validate_claims cfg claims current) (\<lambda>exp.
     bindR (bindR (claim_value claims (path_segments (oc_groupsClaim cfg))) (map_role cfg)) (\<lambda>role.
     bindR (bindR (claim_value claims (path_segments (oc_tenantClaim cfg))) (map_tenant cfg)) (\<lambda>tenantId.
     bindR (validate_assurance cfg claims) (\<lambda>_.
     let subjectHash = sha256 w (subject_text (oc_issuer cfg) (subject_claim claims)) in
     Inr \<lparr>pr_subject = federated_subject w (oc_issuer cfg) (subject_claim claims), pr_tenantId = tenantId, pr_role = role,
          pr_permissions = [], pr_keyId = ''oidc-'' @ kid @ ''-'' @ take 12 subjectHash, pr_authMethod = Some ''oidc'',
          pr_amr = take 20 (claim_list (js_get claims ''amr'')),
          pr_acr = (if truthy (js_get claims ''acr'') then take 128 (js_String (js_get claims ''acr'')) else []),
          pr_externalSubjectHash = take 24 subjectHash, pr_credentialStatus = ''federated'',
          pr_credentialExpiresAt = Some (exp * 1000), pr_rotationRequired = False,
          fp_issuer = oc_issuer cfg, fp_audience = matched_audience (js_get claims ''aud'') (oc_audiences cfg),
          fp_signingKeyId = kid\<rparr>))))"

definition authenticate_token :: "engine \<Rightarrow> oidc_config \<Rightarrow> oidc_env \<Rightarrow> string \<Rightarrow> (jwks_cache, oidc_error, fed_principal) call" where
  "authenticate_token w cfg env token =
     bindS (liftS (parse_jwt w token)) (\<lambda>parsed.
     ensureS (jw_alg parsed \<in> set (oc_algorithms cfg)) (OidcAuth ''OIDC_ALGORITHM_NOT_ALLOWED'')
    (bindS (liftS (from_option (OidcAuth ''OIDC_KEY_ID_REQUIRED'') (jw_kid parsed))) (\<lambda>kid.
     bindS (resolve_key w cfg env kid False) (\<lambda>first.
     bindS (case first of Some k \<Rightarrow> returnS (Some k) | None \<Rightarrow> resolve_key w cfg env kid True) (\<lambda>second.
     bindS (liftS (from_option (OidcAuth ''OIDC_SIGNING_KEY_UNKNOWN'') second)) (\<lambda>key.
     ensureS (truthy (js_get key ''alg'') \<longrightarrow> js_get key ''alg'' = JStr (jw_alg parsed)) (OidcAuth ''OIDC_KEY_ALGORITHM_MISMATCH'')
    (bindS (liftS (verify_jwt_signature w parsed key)) (\<lambda>_.
     liftS (token_principal w cfg (ox_now env) kid (jw_payload parsed))))))))))"

subsection \<open>The health report\<close>

definition oidc_health_status :: "int \<Rightarrow> jwks_cache \<Rightarrow> string" where
  "oidc_health_status current st =
     (if jk_lastError st \<and> (jk_keys st = [] \<or> \<not> within_deadline current (jk_staleUntil st)) then ''unavailable'' else ''ready'')"

definition oidc_cache_state :: "oidc_config \<Rightarrow> int \<Rightarrow> jwks_cache \<Rightarrow> string" where
  "oidc_cache_state cfg current st =
     (if oc_static cfg then ''static'' else if jk_fetchedAt st = None then ''cold''
      else if \<not> within_deadline current (jk_expiresAt st) then ''stale'' else ''fresh'')"

end
