(* ===== verification/ScimProvisioning.thy ===== *)
theory ScimProvisioning
  imports IdentityLife OidcLogin
begin

section \<open>SCIM provisioning (src/security/scimAccessController.js, scimHandler.js)\<close>

text \<open>
  The credentials of identity-provider workers, and the handler of a SCIM request: rate limits,
  authentication, scopes, routing, the translation of bodies to commands of the registry, and
  of errors to answers. Between reading a user for its version and the command, the handler waits
  for the body, and other processes may run commands: they are part of a request's environment.
\<close>

subsection \<open>Credentials\<close>

record scim_credential =
  sc_keyId :: string
  sc_subject :: string
  sc_salt :: string
  sc_secretHash :: string
  sc_status :: string
  sc_scopes :: "string list"
  sc_notBefore :: "int option"
  sc_expiresAt :: "int option"

datatype scim_error =
    ScimUnauthenticated string
  | ScimForbidden
  | ScimTypeErr string
  | ScimInvalidJson
  | ScimRateStore
  | ScimRegistry id_error
  | ScimUnexpected

definition scim_statuses :: "string list" where
  "scim_statuses = [''active'', ''retiring'', ''revoked'']"

definition scim_scopes :: "string list" where
  "scim_scopes = [''scim:read'', ''scim:write'']"

definition scim_identifier :: "jsval \<Rightarrow> string \<Rightarrow> scim_error + string" where
  "scim_identifier v field = (let t = trimmed v in
     ensure (safe_ident ''._:-'' 0 127 t) (ScimTypeErr field) (Inr t))"

definition scim_date :: "engine \<Rightarrow> jsval \<Rightarrow> string \<Rightarrow> scim_error + int option" where
  "scim_date w v field = (if v \<in> {JUndef, JNull, JStr []} then Inr None
     else bindR (from_option (ScimTypeErr field) (new_date (date_parse w) v)) (\<lambda>t. Inr (Some t)))"

definition normalise_scim_credential :: "engine \<Rightarrow> string list \<Rightarrow> jsval \<Rightarrow> scim_error + scim_credential" where
  "normalise_scim_credential w ids item =
     ensure (is_plain_object item) (ScimTypeErr ''credential'')
    (bindR (scim_identifier (js_get item ''keyId'') ''keyId'') (\<lambda>keyId.
     ensure (keyId \<notin> set ids) (ScimTypeErr ''duplicate keyId'')
    (bindR (scim_identifier (js_get item ''subject'') ''subject'') (\<lambda>subject.
     let salt = js_String (js_or_nullish (js_get item ''salt'') (JStr []));
         secretHash = js_String (js_or_nullish (js_get item ''secretHash'') (JStr []));
         decoded = buffer_from secretHash;
         status = js_String (js_or_nullish (js_get item ''status'') (JStr ''active''));
         scopes = uniq (map js_String (elements (js_get item ''scopes''))) in
     ensure (16 \<le> length salt) (ScimTypeErr ''salt'')
    (ensure (length decoded = 32 \<and> b64_encode decoded = secretHash) (ScimTypeErr ''secretHash'')
    (ensure (status \<in> set scim_statuses) (ScimTypeErr ''status'')
    (ensure (is_array (js_get item ''scopes'')) (ScimTypeErr ''scopes'')
    (ensure (scopes \<noteq> [] \<and> set scopes \<subseteq> set scim_scopes) (ScimTypeErr ''scopes'')
    (bindR (scim_date w (js_get item ''notBefore'') ''notBefore'') (\<lambda>notBefore.
     bindR (scim_date w (js_get item ''expiresAt'') ''expiresAt'') (\<lambda>expiresAt.
     ensure (window_ok notBefore expiresAt) (ScimTypeErr ''expiresAt'')
       (Inr \<lparr>sc_keyId = keyId, sc_subject = subject, sc_salt = salt, sc_secretHash = secretHash, sc_status = status,
             sc_scopes = scopes, sc_notBefore = notBefore, sc_expiresAt = expiresAt\<rparr>))))))))))))"

fun normalise_scim_list :: "engine \<Rightarrow> string list \<Rightarrow> jsval list \<Rightarrow> scim_error + scim_credential list" where
  "normalise_scim_list w ids [] = Inr []"
| "normalise_scim_list w ids (item # rest) =
     bindR (normalise_scim_credential w ids item) (\<lambda>c.
     bindR (normalise_scim_list w (sc_keyId c # ids) rest) (\<lambda>cs. Inr (c # cs)))"

definition normalise_scim_credentials :: "engine \<Rightarrow> jsval \<Rightarrow> scim_error + scim_credential list" where
  "normalise_scim_credentials w v =
     ensure (is_array v \<and> elements v \<noteq> [] \<and> length (elements v) \<le> 50) (ScimTypeErr ''credentials'')
       (normalise_scim_list w [] (elements v))"

subsection \<open>Authenticating a worker\<close>

text \<open>\<open>/^Bearer\s+([^\s]+)$/i\<close>, the token.\<close>

definition bearer_match :: "string \<Rightarrow> string option" where
  "bearer_match s = (let r = drop 6 s; token = dropWhile is_ws r in
     if map ascii_lower (take 6 s) = ''bearer'' \<and> r \<noteq> [] \<and> is_ws (hd r) \<and> token \<noteq> [] \<and> \<not> list_ex is_ws token
     then Some token else None)"

definition first_value :: "jsval \<Rightarrow> jsval" where
  "first_value v = (case v of JArr (x # _) \<Rightarrow> x | JArr [] \<Rightarrow> JUndef | _ \<Rightarrow> v)"

definition scim_bearer :: "jsval \<Rightarrow> scim_error + string" where
  "scim_bearer v = bindR (from_option (ScimUnauthenticated ''SCIM_UNAUTHENTICATED'') (bearer_match (trimmed (first_value v)))) (\<lambda>token.
     ensure (int (length token) \<le> 4096) (ScimUnauthenticated ''SCIM_CREDENTIAL_INVALID'') (Inr token))"

text \<open>\<open>token.lastIndexOf('.')\<close>, \<open>None\<close> when there is none.\<close>

definition last_dot :: "string \<Rightarrow> nat option" where
  "last_dot s = (if CHR ''.'' \<in> set s then Some (length s - 1 - length (takeWhile (\<lambda>c. c \<noteq> CHR ''.'') (rev s))) else None)"

definition scim_secret_ok :: "engine \<Rightarrow> scim_credential \<Rightarrow> string \<Rightarrow> bool" where
  "scim_secret_ok w r secret = (scrypt32 w secret (sc_salt r) = buffer_from (sc_secretHash r))"

record scim_principal =
  sp_keyId :: string
  sp_subject :: string
  sp_scopes :: "string list"
  sp_status :: string
  sp_expiresAt :: "int option"

definition scim_authenticate :: "engine \<Rightarrow> scim_credential list \<Rightarrow> int \<Rightarrow> jsval \<Rightarrow> scim_error + scim_principal" where
  "scim_authenticate w records current authorization =
     bindR (scim_bearer authorization) (\<lambda>token.
     bindR (from_option (ScimUnauthenticated ''SCIM_CREDENTIAL_INVALID'') (last_dot token)) (\<lambda>separator.
     ensure (2 \<le> separator) (ScimUnauthenticated ''SCIM_CREDENTIAL_INVALID'')
    (bindR (from_option (ScimUnauthenticated ''SCIM_CREDENTIAL_INVALID'')
         (List.find (\<lambda>r. sc_keyId r = take separator token) records)) (\<lambda>r.
     ensure (scim_secret_ok w r (drop (separator + 1) token)) (ScimUnauthenticated ''SCIM_CREDENTIAL_INVALID'')
    (ensure (sc_status r \<noteq> ''revoked'') (ScimUnauthenticated ''SCIM_CREDENTIAL_REVOKED'')
    (ensure (case sc_notBefore r of None \<Rightarrow> True | Some n \<Rightarrow> \<not> current < n) (ScimUnauthenticated ''SCIM_CREDENTIAL_NOT_ACTIVE'')
    (ensure (case sc_expiresAt r of None \<Rightarrow> True | Some e \<Rightarrow> \<not> current \<ge> e) (ScimUnauthenticated ''SCIM_CREDENTIAL_EXPIRED'')
       (Inr \<lparr>sp_keyId = sc_keyId r, sp_subject = sc_subject r, sp_scopes = sc_scopes r, sp_status = sc_status r,
             sp_expiresAt = sc_expiresAt r\<rparr>))))))))"

definition scim_authorise :: "scim_principal \<Rightarrow> string \<Rightarrow> scim_error + scim_principal" where
  "scim_authorise p scope = ensure (scope \<in> set (sp_scopes p)) ScimForbidden (Inr p)"

definition scim_usable :: "int \<Rightarrow> scim_credential \<Rightarrow> bool" where
  "scim_usable current r = (sc_status r \<noteq> ''revoked''
     \<and> (case sc_notBefore r of None \<Rightarrow> True | Some n \<Rightarrow> n \<le> current)
     \<and> (case sc_expiresAt r of None \<Rightarrow> True | Some e \<Rightarrow> current < e))"

record scim_health =
  sh_status :: string
  sh_total :: nat
  sh_usable :: nat
  sh_retiring :: nat
  sh_nextExpiryAt :: "int option"

definition scim_credential_health :: "scim_credential list \<Rightarrow> int \<Rightarrow> scim_health" where
  "scim_credential_health records current =
     (let usable = filter (scim_usable current) records in
      \<lparr>sh_status = (if usable \<noteq> [] then ''ready'' else ''unavailable''), sh_total = length records,
       sh_usable = length usable, sh_retiring = length (filter (\<lambda>r. sc_status r = ''retiring'') usable),
       sh_nextExpiryAt = (case sort (List.map_filter sc_expiresAt usable) of [] \<Rightarrow> None | t # _ \<Rightarrow> Some t)\<rparr>)"

subsection \<open>Bodies\<close>

definition workforce_extension :: string where
  "workforce_extension = ''urn:basitclaw:params:scim:schemas:extension:workforce-audit:2.0:User''"

definition patch_schema :: string where
  "patch_schema = ''urn:ietf:params:scim:api:messages:2.0:PatchOp''"

definition provisioning_input :: "jsval \<Rightarrow> string \<Rightarrow> int \<Rightarrow> scim_error + jsval" where
  "provisioning_input body issuer expectedVersion =
     ensure (is_plain_object body) (ScimTypeErr ''body'')
    (let extension = js_get body workforce_extension in
     ensure (is_plain_object extension) (ScimTypeErr ''extension'')
    (ensure (boolean_or_undefined (js_get body ''active'')) (ScimTypeErr ''active'')
    (bindR (from_option (ScimTypeErr ''externalId'') (text_in 1 512 (js_get body ''externalId''))) (\<lambda>externalSubject.
     Inr (JObj [(''issuer'', JStr issuer), (''externalSubject'', JStr externalSubject),
       (''tenantId'', js_get extension ''tenantId''), (''role'', js_get extension ''role''),
       (''active'', JBool (js_get body ''active'' \<noteq> JBool False)),
       (''displayName'', js_or_nullish (js_or_nullish (js_get body ''displayName'') (js_get (js_get body ''name'') ''formatted'')) JNull),
       (''reviewBy'', js_get extension ''reviewBy''), (''reason'', js_get extension ''reason''),
       (''source'', JStr ''scim''), (''expectedVersion'', JInt expectedVersion)])))))"

text \<open>
  \<open>applyPatchValue\<close>: the active flag, or a field of the extension by its prefixed path; the path of
  the extension itself stands for its fields.
\<close>

definition apply_patch_field :: "string \<Rightarrow> jsval \<Rightarrow> (string \<times> jsval) list \<Rightarrow> scim_error + (string \<times> jsval) list" where
  "apply_patch_field path v changes = (let prefix = workforce_extension @ '':''; field = drop (length prefix) path in
     if map ascii_lower path = ''active'' then
       (case v of JBool b \<Rightarrow> Inr (put_assoc ''active'' v changes) | _ \<Rightarrow> Inl (ScimTypeErr ''active''))
     else ensure (starts_with prefix path) (ScimTypeErr ''path'')
      (ensure (field \<in> {''tenantId'', ''role'', ''reviewBy'', ''reason''}) (ScimTypeErr ''path'')
        (Inr (put_assoc field v changes))))"

fun apply_patch_fields ::
  "(string \<Rightarrow> string) \<Rightarrow> (string \<Rightarrow> jsval \<Rightarrow> (string \<times> jsval) list \<Rightarrow> scim_error + (string \<times> jsval) list)
     \<Rightarrow> (string \<times> jsval) list \<Rightarrow> (string \<times> jsval) list \<Rightarrow> scim_error + (string \<times> jsval) list" where
  "apply_patch_fields path_of apply_one [] changes = Inr changes"
| "apply_patch_fields path_of apply_one ((k, v) # rest) changes =
     bindR (apply_one (path_of k) v changes) (\<lambda>changes'. apply_patch_fields path_of apply_one rest changes')"

definition apply_patch_value :: "string \<Rightarrow> jsval \<Rightarrow> (string \<times> jsval) list \<Rightarrow> scim_error + (string \<times> jsval) list" where
  "apply_patch_value pathValue v changes = (let path = js_trim pathValue in
     if path = workforce_extension then
       ensure (is_plain_object v) (ScimTypeErr ''extension'')
         (apply_patch_fields (\<lambda>field. js_trim (workforce_extension @ '':'' @ field)) apply_patch_field (object_entries v) changes)
     else apply_patch_field path v changes)"

definition apply_patch_operation :: "jsval \<Rightarrow> (string \<times> jsval) list \<Rightarrow> scim_error + (string \<times> jsval) list" where
  "apply_patch_operation operation changes =
     ensure (map ascii_lower (js_String (js_or_nullish (js_get operation ''op'') (JStr []))) = ''replace'') (ScimTypeErr ''op'')
    (if truthy (js_get operation ''path'') then apply_patch_value (js_String (js_get operation ''path'')) (js_get operation ''value'') changes
     else ensure (is_plain_object (js_get operation ''value'')) (ScimTypeErr ''value'')
       (apply_patch_fields (\<lambda>path. path) apply_patch_value (object_entries (js_get operation ''value'')) changes))"

fun apply_patch_operations :: "jsval list \<Rightarrow> (string \<times> jsval) list \<Rightarrow> scim_error + (string \<times> jsval) list" where
  "apply_patch_operations [] changes = Inr changes"
| "apply_patch_operations (operation # rest) changes =
     bindR (apply_patch_operation operation changes) (\<lambda>changes'. apply_patch_operations rest changes')"

definition patch_changes :: "jsval \<Rightarrow> scim_error + (string \<times> jsval) list" where
  "patch_changes body =
     ensure (JStr patch_schema \<in> set (elements (js_get body ''schemas'')) \<and> is_array (js_get body ''Operations'')) (ScimTypeErr ''schemas'')
    (let operations = elements (js_get body ''Operations'') in
     ensure (1 \<le> length operations \<and> length operations \<le> 20) (ScimTypeErr ''Operations'')
    (bindR (apply_patch_operations operations []) (\<lambda>changes.
     ensure (truthy (js_get (JObj changes) ''reason'')) (ScimTypeErr ''reason'') (Inr changes))))"

end
