(* ===== verification/ScimHandler.thy ===== *)
theory ScimHandler
  imports ScimProvisioning
begin

section \<open>Handling a SCIM request (src/security/scimHandler.js)\<close>

text \<open>
  \<open>scim_handle\<close> is one request: its method, path, query and headers as Node and the URL parser give
  them, and the bytes of its body. What the answer carries is its status, its payload and the
  telemetry it caused; wording and rate headers are left out.
\<close>

subsection \<open>Requests and answers\<close>

record scim_request =
  rq_method :: string
  rq_path :: string
  rq_startIndex :: "string option"
  rq_count :: "string option"
  rq_filter :: "string option"
  rq_headers :: "string \<Rightarrow> jsval"
  rq_body :: string

datatype rate_decision = NoLimiter | RateAllowed | RateBlocked | RateStoreDown

text \<open>\<open>se_between\<close>: the registry commands other processes ran while the request waited.\<close>

record scim_env =
  se_now :: int
  se_burst :: rate_decision
  se_failure :: rate_decision
  se_decision :: rate_decision
  se_read :: id_env
  se_between :: "id_input list"
  se_commit :: id_env

datatype scim_payload =
    UserPayload id_user
  | PagePayload id_page
  | DocumentPayload string
  | ErrorPayload "string option"
  | NoPayload

record scim_response =
  rs_status :: int
  rs_payload :: scim_payload
  rs_events :: "(string \<times> string) list"

definition to_scim_user :: "id_user \<Rightarrow> jsval" where
  "to_scim_user u = JObj
     [(''schemas'', JArr [JStr ''urn:ietf:params:scim:schemas:core:2.0:User'', JStr workforce_extension]),
      (''id'', JStr (iu_id u)), (''userName'', JStr (iu_subject u)), (''active'', JBool (iu_active u)),
      (''displayName'', case iu_displayName u of None \<Rightarrow> JUndef | Some d \<Rightarrow> JStr d),
      (''meta'', JObj [(''resourceType'', JStr ''User''), (''created'', JInt (iu_createdAt u)), (''lastModified'', JInt (iu_updatedAt u)),
         (''version'', JStr (''W/'' @ json_quote (dec (iu_version u)))), (''location'', JStr (''/scim/v2/Users/'' @ iu_id u))]),
      (workforce_extension, JObj [(''tenantId'', JStr (iu_tenantId u)), (''role'', JStr (iu_role u)), (''reviewBy'', JInt (iu_reviewBy u)),
         (''entitlementStatus'', JStr (if iu_active u then ''active'' else ''suspended''))])]"

definition scim_header :: "scim_request \<Rightarrow> string \<Rightarrow> string" where
  "scim_header req name = header_value (rq_headers req name)"

text \<open>\<open>/^(?:W\/)?"(\d+)"$/\<close>, the digits.\<close>

definition etag_digits :: "string \<Rightarrow> string option" where
  "etag_digits v = (let r = (if starts_with ''W/'' v then drop 2 v else v); ds = takeWhile is_digit (tl r) in
     if r \<noteq> [] \<and> hd r = quote \<and> ds \<noteq> [] \<and> drop (length ds) (tl r) = [quote] then Some ds else None)"

definition required_if_match :: "scim_request \<Rightarrow> nat \<Rightarrow> scim_error + int" where
  "required_if_match req actualVersion =
     (let v = scim_header req ''if-match'' in
      ensure (v \<noteq> []) (ScimRegistry IdConflict)
     (bindR (from_option (ScimTypeErr ''if-match'') (etag_digits v)) (\<lambda>ds.
      ensure (undec ds = actualVersion) (ScimRegistry IdConflict) (Inr (int (undec ds))))))"

definition read_scim_json :: "engine \<Rightarrow> scim_request \<Rightarrow> scim_error + jsval" where
  "read_scim_json w req =
     (let contentType = map ascii_lower (js_trim (hd (split_at (CHR '';'') (js_String (js_or_nullish (rq_headers req ''content-type'') (JStr [])))))) in
      ensure (contentType \<in> {[], ''application/json'', ''application/scim+json''}) ScimInvalidJson
     (ensure (int (length (rq_body req)) \<le> 1000000) ScimInvalidJson
        (from_option ScimInvalidJson (json_parse w (if rq_body req = [] then ''{}'' else rq_body req)))))"

definition number_param :: "string option \<Rightarrow> int \<Rightarrow> int \<Rightarrow> int \<Rightarrow> scim_error + int" where
  "number_param v fallback lo hi = (case v of None \<Rightarrow> Inr fallback
     | Some s \<Rightarrow> from_option (ScimTypeErr ''numeric parameter'') (int_in lo hi (JStr s)))"

subsection \<open>Listing\<close>

text \<open>\<open>/^attr\s+eq\s+(...)$/i\<close>, the operand.\<close>

definition filter_operand :: "string \<Rightarrow> string \<Rightarrow> string option" where
  "filter_operand attr f = (let r = drop (length attr) f; s = dropWhile is_ws r; t = drop 2 s; operand = dropWhile is_ws t in
     if map ascii_lower (take (length attr) f) = attr \<and> s \<noteq> r \<and> map ascii_lower (take 2 s) = ''eq'' \<and> operand \<noteq> t
     then Some operand else None)"

definition quoted_operand :: "(char \<Rightarrow> bool) \<Rightarrow> nat \<Rightarrow> string \<Rightarrow> string option" where
  "quoted_operand allowed hi s = (let inner = butlast (tl s) in
     if 2 \<le> length s \<and> hd s = quote \<and> last s = quote \<and> inner \<noteq> [] \<and> length inner \<le> hi \<and> list_all allowed inner
     then Some inner else None)"

definition registry_result :: "id_error + 'a \<Rightarrow> scim_error + 'a" where
  "registry_result r = (case r of Inl e \<Rightarrow> Inl (ScimRegistry e) | Inr x \<Rightarrow> Inr x)"

definition single_page :: "id_user option \<Rightarrow> id_page" where
  "single_page u = (let us = (case u of None \<Rightarrow> [] | Some x \<Rightarrow> [x]) in
     \<lparr>pg_totalResults = length us, pg_startIndex = 1, pg_itemsPerPage = length us, pg_resources = us\<rparr>)"

definition list_users ::
  "engine \<Rightarrow> id_config \<Rightarrow> string \<Rightarrow> id_env \<Rightarrow> scim_request \<Rightarrow> id_file \<Rightarrow> scim_error + id_page" where
  "list_users w cfg issuer env req f =
     bindR (number_param (rq_startIndex req) 1 1 max_safe_integer) (\<lambda>startIndex.
     bindR (number_param (rq_count req) 100 1 500) (\<lambda>count.
     let page = (\<lambda>active. registry_result (id_list w cfg env f (JInt startIndex) (JInt count) active JUndef));
         text = (case rq_filter req of None \<Rightarrow> [] | Some t \<Rightarrow> t);
         operand = (\<lambda>attr. case filter_operand attr text of None \<Rightarrow> [] | Some t \<Rightarrow> t) in
     if text = [] then page JUndef
     else case quoted_operand (\<lambda>c. is_alnum c \<or> c \<in> set ''._:-'') 160 (operand ''id'') of
       Some i \<Rightarrow> (case id_get w cfg env f (JStr i) of
           Inr u \<Rightarrow> Inr (single_page (Some u))
         | Inl e \<Rightarrow> if e = IdDenied ''IDENTITY_ENTITLEMENT_NOT_FOUND'' then Inr (single_page None) else Inl (ScimRegistry e))
     | None \<Rightarrow> (case quoted_operand (\<lambda>c. c \<noteq> quote \<and> c \<noteq> CHR 0x5C) 512 (operand ''externalid'') of
         Some name \<Rightarrow> bindR (registry_result (derive_federated_subject w (JStr issuer) (JStr name))) (\<lambda>(subject, _).
           bindR (registry_result (id_get_by_subject w cfg env f subject)) (\<lambda>found. Inr (single_page found)))
       | None \<Rightarrow> let flag = map ascii_lower (operand ''active'') in
           ensure (flag \<in> {''true'', ''false''}) (ScimTypeErr ''filter'') (page (JBool (flag = ''true''))))))"

subsection \<open>Routing\<close>

definition lifecycle_event :: "string \<Rightarrow> (string \<times> string) list" where
  "lifecycle_event type = [(type, if type \<in> {''identity.deprovisioned'', ''identity.suspended''} then ''high'' else ''info'')]"

definition changed_event :: "id_user \<Rightarrow> string" where
  "changed_event u = (if iu_active u then ''identity.updated'' else ''identity.suspended'')"

definition answer :: "int \<Rightarrow> scim_payload \<Rightarrow> (string \<times> string) list \<Rightarrow> scim_response" where
  "answer status payload events = \<lparr>rs_status = status, rs_payload = payload, rs_events = events\<rparr>"

definition scim_get :: "engine \<Rightarrow> id_config \<Rightarrow> scim_env \<Rightarrow> string \<Rightarrow> (id_file, scim_error, id_user) call" where
  "scim_get w cfg env i f = (f, registry_result (id_get w cfg (se_read env) f (JStr i)))"

text \<open>The commands of other processes, and then the request's own.\<close>

definition scim_others :: "engine \<Rightarrow> scim_env \<Rightarrow> (id_file, scim_error, unit) call" where
  "scim_others w env = modifyS (id_run w (se_between env))"

definition scim_command :: "engine \<Rightarrow> id_config \<Rightarrow> scim_env \<Rightarrow> id_command \<Rightarrow> (id_file, scim_error, id_user) call" where
  "scim_command w cfg env c f = (case id_exec w cfg (se_commit env) c f of (f', r) \<Rightarrow> (f', registry_result r))"

definition scim_create ::
  "engine \<Rightarrow> id_config \<Rightarrow> string \<Rightarrow> scim_env \<Rightarrow> scim_principal \<Rightarrow> scim_request \<Rightarrow> (id_file, scim_error, scim_response) call" where
  "scim_create w cfg issuer env p req =
     bindS (scim_others w env) (\<lambda>_.
     bindS (liftS (read_scim_json w req)) (\<lambda>body.
     bindS (liftS (provisioning_input body issuer 0)) (\<lambda>input.
     bindS (scim_command w cfg env (Upsert input (JStr (sp_subject p)))) (\<lambda>u.
     returnS (answer 201 (UserPayload u) (lifecycle_event ''identity.provisioned''))))))"

definition same_identity :: "engine \<Rightarrow> jsval \<Rightarrow> id_user \<Rightarrow> scim_error + unit" where
  "same_identity w input current =
     bindR (registry_result (derive_federated_subject w (js_get input ''issuer'') (js_get input ''externalSubject''))) (\<lambda>(subject, _).
     ensure (subject = iu_subject current) (ScimTypeErr ''externalId'') (Inr ()))"

definition scim_replace ::
  "engine \<Rightarrow> id_config \<Rightarrow> string \<Rightarrow> scim_env \<Rightarrow> scim_principal \<Rightarrow> scim_request \<Rightarrow> string \<Rightarrow> (id_file, scim_error, scim_response) call" where
  "scim_replace w cfg issuer env p req i =
     bindS (scim_get w cfg env i) (\<lambda>current.
     bindS (liftS (required_if_match req (iu_version current))) (\<lambda>expectedVersion.
     bindS (scim_others w env) (\<lambda>_.
     bindS (liftS (read_scim_json w req)) (\<lambda>body.
     bindS (liftS (provisioning_input body issuer expectedVersion)) (\<lambda>input.
     bindS (liftS (same_identity w input current)) (\<lambda>_.
     bindS (scim_command w cfg env (Upsert input (JStr (sp_subject p)))) (\<lambda>u.
     returnS (answer 200 (UserPayload u) (lifecycle_event (changed_event u))))))))))"

definition scim_patch ::
  "engine \<Rightarrow> id_config \<Rightarrow> scim_env \<Rightarrow> scim_principal \<Rightarrow> scim_request \<Rightarrow> string \<Rightarrow> (id_file, scim_error, scim_response) call" where
  "scim_patch w cfg env p req i =
     bindS (scim_get w cfg env i) (\<lambda>current.
     bindS (liftS (required_if_match req (iu_version current))) (\<lambda>expectedVersion.
     bindS (scim_others w env) (\<lambda>_.
     bindS (liftS (bindR (read_scim_json w req) patch_changes)) (\<lambda>changes.
     bindS (scim_command w cfg env (Patch (JStr i) (JObj (put_assoc ''expectedVersion'' (JInt expectedVersion) changes))
        (JStr (sp_subject p)))) (\<lambda>u.
     returnS (answer 200 (UserPayload u) (lifecycle_event (changed_event u))))))))"

definition scim_delete ::
  "engine \<Rightarrow> id_config \<Rightarrow> scim_env \<Rightarrow> scim_principal \<Rightarrow> scim_request \<Rightarrow> string \<Rightarrow> (id_file, scim_error, scim_response) call" where
  "scim_delete w cfg env p req i =
     bindS (scim_get w cfg env i) (\<lambda>current.
     bindS (liftS (required_if_match req (iu_version current))) (\<lambda>expectedVersion.
     bindS (scim_others w env) (\<lambda>_.
     bindS (scim_command w cfg env (Deactivate (JStr i) (JInt expectedVersion) (JStr (scim_header req ''x-basitclaw-change-reason''))
        (JStr (sp_subject p)))) (\<lambda>u.
     returnS (answer 204 NoPayload (lifecycle_event ''identity.deprovisioned''))))))"

definition user_path :: "string \<Rightarrow> string option" where
  "user_path path = (let prefix = ''/scim/v2/Users/''; r = drop (length prefix) path in
     if starts_with prefix path \<and> r \<noteq> [] \<and> CHR ''/'' \<notin> set r then Some r else None)"

definition scim_documents :: "string list" where
  "scim_documents = [''/scim/v2/ServiceProviderConfig'', ''/scim/v2/ResourceTypes'', ''/scim/v2/Schemas'']"

definition scim_route ::
  "engine \<Rightarrow> id_config \<Rightarrow> string \<Rightarrow> scim_env \<Rightarrow> scim_principal \<Rightarrow> scim_request \<Rightarrow> (id_file, scim_error, scim_response) call" where
  "scim_route w cfg issuer env p req =
     (let m = rq_method req; path = rq_path req in
      if m = ''GET'' \<and> path \<in> set scim_documents then returnS (answer 200 (DocumentPayload path) [])
      else if m = ''GET'' \<and> path = ''/scim/v2/Users'' then
        (\<lambda>f. (f, bindR (list_users w cfg issuer (se_read env) req f) (\<lambda>page. Inr (answer 200 (PagePayload page) []))))
      else if m = ''POST'' \<and> path = ''/scim/v2/Users'' then scim_create w cfg issuer env p req
      else case user_path path of
        None \<Rightarrow> returnS (answer 404 (ErrorPayload None) [])
      | Some raw \<Rightarrow> bindS (liftS (from_option (ScimTypeErr ''identifier'') (uri_decode w raw))) (\<lambda>i.
          if m = ''GET'' then bindS (scim_get w cfg env i) (\<lambda>u. returnS (answer 200 (UserPayload u) []))
          else if m = ''PUT'' then scim_replace w cfg issuer env p req i
          else if m = ''PATCH'' then scim_patch w cfg env p req i
          else if m = ''DELETE'' then scim_delete w cfg env p req i
          else returnS (answer 405 (ErrorPayload None) [])))"

subsection \<open>Errors and the whole request\<close>

definition scim_failure :: "scim_error \<Rightarrow> scim_response" where
  "scim_failure e = (case e of
       ScimUnauthenticated _ \<Rightarrow> answer 401 (ErrorPayload None) []
     | ScimForbidden \<Rightarrow> answer 403 (ErrorPayload None) []
     | ScimRegistry IdConflict \<Rightarrow> answer 409 (ErrorPayload (Some ''uniqueness'')) []
     | ScimRegistry (IdDenied code) \<Rightarrow> answer (if code = ''IDENTITY_ENTITLEMENT_NOT_FOUND'' then 404 else 500) (ErrorPayload None) []
     | ScimRegistry IdStoreUnavailable \<Rightarrow> answer 503 (ErrorPayload None) [(''identity_lifecycle.unavailable'', ''critical'')]
     | ScimRateStore \<Rightarrow> answer 503 (ErrorPayload None) [(''identity_lifecycle.unavailable'', ''critical'')]
     | ScimRegistry (IdTypeErr _) \<Rightarrow> answer 400 (ErrorPayload (Some ''invalidValue'')) []
     | ScimInvalidJson \<Rightarrow> answer 400 (ErrorPayload (Some ''invalidValue'')) []
     | ScimTypeErr _ \<Rightarrow> answer 400 (ErrorPayload (Some ''invalidValue'')) []
     | ScimUnexpected \<Rightarrow> answer 500 (ErrorPayload None) [])"

text \<open>A consulted limiter: a blocked request is answered at once, an unavailable one throws.\<close>

definition rate_gate :: "rate_decision \<Rightarrow> scim_response option" where
  "rate_gate d = (case d of NoLimiter \<Rightarrow> None | RateAllowed \<Rightarrow> None
     | RateBlocked \<Rightarrow> Some (answer 429 (ErrorPayload (Some ''tooMany'')) [])
     | RateStoreDown \<Rightarrow> Some (scim_failure ScimRateStore))"

definition scim_failed_authentication :: "scim_env \<Rightarrow> scim_error \<Rightarrow> scim_response" where
  "scim_failed_authentication env e = (case rate_gate (se_failure env) of
       Some r \<Rightarrow> r
     | None \<Rightarrow> (scim_failure e)\<lparr>rs_events := [(''scim.authentication_failed'', ''high'')]\<rparr>)"

definition scope_of :: "scim_request \<Rightarrow> string" where
  "scope_of req = (if rq_method req = ''GET'' then ''scim:read'' else ''scim:write'')"

text \<open>\<open>None\<close>: the path is not a SCIM path and the handler declines the request.\<close>

definition scim_handle ::
  "engine \<Rightarrow> id_config \<Rightarrow> scim_credential list \<Rightarrow> string \<Rightarrow> scim_env \<Rightarrow> scim_request \<Rightarrow> id_file \<Rightarrow> id_file \<times> scim_response option" where
  "scim_handle w cfg creds issuer env req f =
     (if \<not> starts_with ''/scim/v2/'' (rq_path req) then (f, None)
      else case rate_gate (se_burst env) of Some r \<Rightarrow> (f, Some r)
      | None \<Rightarrow> (case scim_authenticate w creds (se_now env) (rq_headers req ''authorization'') of
          Inl e \<Rightarrow> (f, Some (scim_failed_authentication env e))
        | Inr p \<Rightarrow> (case scim_authorise p (scope_of req) of
            Inl e \<Rightarrow> (f, Some (scim_failure e))
          | Inr _ \<Rightarrow> (case rate_gate (se_decision env) of Some r \<Rightarrow> (f, Some r)
            | None \<Rightarrow> (case scim_route w cfg issuer env p req f of
                (f', Inr r) \<Rightarrow> (f', Some r)
              | (f', Inl e) \<Rightarrow> (f', Some (scim_failure e)))))))"

end
