(* ===== verification/ScimGuarantees.thy ===== *)
theory ScimGuarantees
  imports ScimHandler
begin

section \<open>What a SCIM answer promises\<close>

text \<open>
  A write that is answered as done was committed on the version the client named; nothing is
  written without a live credential of the write scope; and what the handler makes of invalid
  input that only the registry notices.
\<close>

subsection \<open>Bearer credentials\<close>

text \<open>\<open>live_credential\<close>: the header carries \<open>keyId.secret\<close> of a configured credential usable at the time.\<close>

definition live_credential :: "engine \<Rightarrow> int \<Rightarrow> jsval \<Rightarrow> scim_credential \<Rightarrow> bool" where
  "live_credential w current authorization r = (scim_usable current r
     \<and> (\<exists>secret. bearer_match (trimmed (first_value authorization)) = Some (sc_keyId r @ ''.'' @ secret)
         \<and> scrypt32 w secret (sc_salt r) = buffer_from (sc_secretHash r)))"

lemma last_dot_split:
  assumes "last_dot s = Some n"
  shows "s = take n s @ ''.'' @ drop (n + 1) s"
proof -
  let ?t = "takeWhile (\<lambda>c. c \<noteq> CHR ''.'') (rev s)"
  have dot: "CHR ''.'' \<in> set s" and n: "n = length s - 1 - length ?t"
    using assms by (auto simp: last_dot_def split: if_splits)
  have lt: "length ?t < length (rev s)"
  proof -
    have "?t \<noteq> rev s"
    proof
      assume "?t = rev s"
      then have "\<forall>c \<in> set (rev s). c \<noteq> CHR ''.''" by (simp only: takeWhile_eq_all_conv)
      then show False using dot by auto
    qed
    moreover have "rev s = ?t @ dropWhile (\<lambda>c. c \<noteq> CHR ''.'') (rev s)" by simp
    ultimately show ?thesis
      by (metis append_Nil2 length_append length_greater_0_conv less_add_same_cancel1)
  qed
  then have "rev s ! length ?t = CHR ''.''"
    using nth_length_takeWhile [of "\<lambda>c. c \<noteq> CHR ''.''" "rev s"] by simp
  then have "s ! n = CHR ''.''" "n < length s"
    using lt n by (simp_all add: rev_nth)
  then show ?thesis using id_take_nth_drop [of n s] by simp
qed

lemma scim_authenticate_Inr:
  assumes "scim_authenticate w records current authorization = Inr p"
  shows "\<exists>r \<in> set records. live_credential w current authorization r \<and> sp_subject p = sc_subject r \<and> sp_scopes p = sc_scopes r"
proof -
  obtain token n r where t: "bearer_match (trimmed (first_value authorization)) = Some token" "last_dot token = Some n"
    "List.find (\<lambda>r. sc_keyId r = take n token) records = Some r" "scim_secret_ok w r (drop (n + 1) token)"
    and r: "scim_usable current r" "sp_subject p = sc_subject r" "sp_scopes p = sc_scopes r"
    using assms by (auto simp: scim_authenticate_def scim_bearer_def scim_usable_def not_less not_le split: option.splits)
  have "r \<in> set records" "sc_keyId r = take n token" using find_SomeD [OF t(3)] by auto
  then show ?thesis
    using t(1,4) r last_dot_split [OF t(2)] unfolding live_credential_def scim_secret_ok_def by metis
qed

subsection \<open>What a route does to the store\<close>

lemma registry_result_Inr [simp]: "registry_result r = Inr x \<longleftrightarrow> r = Inr x"
  by (cases r) (auto simp: registry_result_def)

lemma scim_command_Inr: "scim_command w cfg env c f = (f', Inr u) \<longleftrightarrow> id_exec w cfg (se_commit env) c f = (f', Inr u)"
  by (auto simp: scim_command_def split: prod.split)

lemma scim_get_Inr: "scim_get w cfg env i f = (f', Inr u) \<longleftrightarrow> f' = f \<and> id_get w cfg (se_read env) f (JStr i) = Inr u"
  by (auto simp: scim_get_def)

lemma scim_others_Inr: "scim_others w env f = (f', Inr x) \<longleftrightarrow> f' = id_run w (se_between env) f"
  by (simp add: scim_others_def)

lemmas scim_calls = bindS_Inr scim_command_Inr scim_get_Inr scim_others_Inr

lemma required_if_match_Inr:
  "required_if_match req n = Inr v \<Longrightarrow> \<exists>ds. etag_digits (scim_header req ''if-match'') = Some ds \<and> v = int (undec ds)"
  by (auto simp: required_if_match_def Let_def)

lemma provisioning_input_version:
  "provisioning_input body issuer v = Inr input \<Longrightarrow> js_get input ''expectedVersion'' = JInt v"
  by (auto simp: provisioning_input_def Let_def)

text \<open>
  \<open>commits w cfg env req f f' u\<close>: the request's own command ran after the others, returned \<open>u\<close>, and was
  made on the version the request names, or, for a creation, on none.
\<close>

definition commits :: "engine \<Rightarrow> id_config \<Rightarrow> scim_env \<Rightarrow> scim_request \<Rightarrow> id_file \<Rightarrow> id_file \<Rightarrow> id_user \<Rightarrow> bool" where
  "commits w cfg env req f f' u = (\<exists>c. id_exec w cfg (se_commit env) c (id_run w (se_between env) f) = (f', Inr u)
     \<and> (if rq_method req = ''POST'' then expected_version c = JInt 0
        else \<exists>ds. etag_digits (scim_header req ''if-match'') = Some ds \<and> expected_version c = JInt (int (undec ds))))"

lemma scim_create_commits:
  assumes "scim_create w cfg issuer env p req f = (f', Inr r)" "rq_method req = ''POST''"
  shows "\<exists>u. commits w cfg env req f f' u \<and> rs_payload r = UserPayload u"
proof -
  obtain input u where "js_get input ''expectedVersion'' = JInt 0"
    "id_exec w cfg (se_commit env) (Upsert input (JStr (sp_subject p))) (id_run w (se_between env) f) = (f', Inr u)"
    "rs_payload r = UserPayload u"
    using assms(1) by (auto simp: scim_create_def scim_calls answer_def simp del: id_exec.simps
        dest!: provisioning_input_version)
  then show ?thesis using assms(2) unfolding commits_def by (metis expected_version.simps(1))
qed

lemma scim_replace_commits:
  assumes "scim_replace w cfg issuer env p req i f = (f', Inr r)" "rq_method req \<noteq> ''POST''"
  shows "\<exists>u. commits w cfg env req f f' u \<and> rs_payload r = UserPayload u"
proof -
  obtain v input u where "\<exists>ds. etag_digits (scim_header req ''if-match'') = Some ds \<and> v = int (undec ds)"
    "js_get input ''expectedVersion'' = JInt v"
    "id_exec w cfg (se_commit env) (Upsert input (JStr (sp_subject p))) (id_run w (se_between env) f) = (f', Inr u)"
    "rs_payload r = UserPayload u"
    using assms(1) by (auto simp: scim_replace_def scim_calls answer_def simp del: id_exec.simps
        dest!: provisioning_input_version required_if_match_Inr)
  then show ?thesis using assms(2) unfolding commits_def by (metis expected_version.simps(1))
qed

lemma scim_patch_commits:
  assumes "scim_patch w cfg env p req i f = (f', Inr r)" "rq_method req \<noteq> ''POST''"
  shows "\<exists>u. commits w cfg env req f f' u \<and> rs_payload r = UserPayload u"
proof -
  obtain v changes u where "\<exists>ds. etag_digits (scim_header req ''if-match'') = Some ds \<and> v = int (undec ds)"
    "id_exec w cfg (se_commit env) (Patch (JStr i) (JObj (put_assoc ''expectedVersion'' (JInt v) changes)) (JStr (sp_subject p)))
       (id_run w (se_between env) f) = (f', Inr u)"
    "rs_payload r = UserPayload u"
    using assms(1) by (auto simp: scim_patch_def scim_calls answer_def simp del: id_exec.simps dest!: required_if_match_Inr)
  moreover have "js_get (JObj (put_assoc ''expectedVersion'' (JInt v) changes)) ''expectedVersion'' = JInt v" by simp
  ultimately show ?thesis using assms(2) unfolding commits_def by (metis expected_version.simps(2))
qed

lemma scim_delete_commits:
  assumes "scim_delete w cfg env p req i f = (f', Inr r)" "rq_method req \<noteq> ''POST''"
  shows "\<exists>u. commits w cfg env req f f' u \<and> rs_payload r = NoPayload"
proof -
  obtain v u where "\<exists>ds. etag_digits (scim_header req ''if-match'') = Some ds \<and> v = int (undec ds)"
    "id_exec w cfg (se_commit env) (Deactivate (JStr i) (JInt v) (JStr (scim_header req ''x-basitclaw-change-reason''))
        (JStr (sp_subject p))) (id_run w (se_between env) f) = (f', Inr u)"
    "rs_payload r = NoPayload"
    using assms(1) by (auto simp: scim_delete_def scim_calls answer_def simp del: id_exec.simps dest!: required_if_match_Inr)
  then show ?thesis using assms(2) unfolding commits_def by (metis expected_version.simps(3))
qed

lemma scim_route_commits:
  assumes "scim_route w cfg issuer env p req f = (f', Inr r)" "rq_method req \<noteq> ''GET''" "rs_status r \<in> {200, 201, 204}"
  shows "\<exists>u. commits w cfg env req f f' u \<and> (rs_payload r = UserPayload u \<or> rs_payload r = NoPayload)"
proof -
  consider "scim_create w cfg issuer env p req f = (f', Inr r)" "rq_method req = ''POST''"
    | i where "scim_replace w cfg issuer env p req i f = (f', Inr r)" "rq_method req \<noteq> ''POST''"
    | i where "scim_patch w cfg env p req i f = (f', Inr r)" "rq_method req \<noteq> ''POST''"
    | i where "scim_delete w cfg env p req i f = (f', Inr r)" "rq_method req \<noteq> ''POST''"
    using assms by (auto simp: scim_route_def Let_def bindS_Inr answer_def split: if_splits option.splits)
  then show ?thesis
  proof cases
    case 1 then show ?thesis by (blast dest: scim_create_commits)
  next
    case 2 then show ?thesis by (blast dest: scim_replace_commits)
  next
    case 3 then show ?thesis by (blast dest: scim_patch_commits)
  next
    case 4 then show ?thesis by (blast dest: scim_delete_commits)
  qed
qed

lemma scim_handle_cases:
  assumes "scim_handle w cfg creds issuer env req f = (f', Some r)"
  obtains (refused) "f' = f" "rs_status r \<in> {401, 403, 429, 503, 500, 400, 404, 409}"
  | (routed) p where "scim_authenticate w creds (se_now env) (rq_headers req ''authorization'') = Inr p"
      "scope_of req \<in> set (sp_scopes p)"
      "scim_route w cfg issuer env p req f = (f', Inr r) \<or> (\<exists>e. scim_route w cfg issuer env p req f = (f', Inl e) \<and> r = scim_failure e)"
proof -
  have codes: "rs_status (scim_failure e) \<in> {401, 403, 429, 503, 500, 400, 404, 409}" for e
    by (auto simp: scim_failure_def answer_def split: scim_error.split id_error.split)
  have gate: "rate_gate d = Some x \<Longrightarrow> rs_status x \<in> {429, 503}" for d x
    by (auto simp: rate_gate_def scim_failure_def answer_def split: rate_decision.splits)
  show thesis
  proof (cases "rate_gate (se_burst env)")
    case None
    show thesis
    proof (cases "scim_authenticate w creds (se_now env) (rq_headers req ''authorization'')")
      case (Inl e)
      then have "f' = f" "r = scim_failed_authentication env e"
        using assms None by (auto simp: scim_handle_def split: if_splits)
      then show thesis using codes [of e] gate [of "se_failure env"]
        by (intro refused) (auto simp: scim_failed_authentication_def split: option.splits)
    next
      case (Inr p)
      show thesis
      proof (cases "scope_of req \<in> set (sp_scopes p)")
        case True
        then show thesis
          using assms None Inr routed [OF Inr True] gate [of "se_decision env"] refused
          by (auto simp: scim_handle_def scim_authorise_def split: if_splits option.splits prod.splits sum.splits)
      next
        case False
        then show thesis
          using assms None Inr codes [of ScimForbidden] refused by (auto simp: scim_handle_def scim_authorise_def split: if_splits)
      qed
    qed
  next
    case (Some x)
    then show thesis using assms gate [OF Some] refused by (auto simp: scim_handle_def split: if_splits)
  qed
qed

lemma scim_failure_status: "rs_status (scim_failure e) \<notin> {200, 201, 204}"
  by (simp add: scim_failure_def answer_def split: scim_error.split id_error.split)

lemma get_route_same: "rq_method req = ''GET'' \<Longrightarrow> fst (scim_route w cfg issuer env p req f) = f"
  by (auto simp: scim_route_def Let_def bindS_def liftS_def returnS_def scim_get_def split: option.split sum.split prod.split)

lemma returned_is_stored:
  assumes "id_file_ok w f" "id_exec w cfg env c f = (f', Inr u)"
  shows "map_of (users_of f') (iu_subject u) = Some u"
  using assms(1)
proof (cases rule: id_exec_cases [of w f cfg env c])
  case (stored s s' u')
  then show ?thesis using stored_users [OF stored(1,2)] assms(2) by simp
qed (use assms(2) in simp)

lemma starts_with_append: "starts_with p s \<Longrightarrow> s = p @ drop (length p) s"
  by (metis append_take_drop_id starts_with_def)

lemma user_path_Some:
  assumes "user_path path = Some raw"
  shows "path = ''/scim/v2/Users/'' @ raw"
proof -
  have "starts_with ''/scim/v2/Users/'' path" "raw = drop (length ''/scim/v2/Users/'') path"
    using assms by (auto simp: user_path_def Let_def split: if_splits)
  then show ?thesis using starts_with_append by blast
qed

lemma rejected_mutation:
  "read_id_unlocked w cfg env f = Inr s \<Longrightarrow> operation s = Inl (IdTypeErr e) \<Longrightarrow>
     id_mutate w cfg env operation f = (f, Inl IdStoreUnavailable)"
  by (cases "ix_lock env")
    (simp_all add: id_mutate_def catchS_def throwS_def with_lock_def id_mutate_locked_def id_store_error_def)

subsection \<open>A sample request\<close>

definition sample_credential :: scim_credential where
  "sample_credential = \<lparr>sc_keyId = ''kk'', sc_subject = ''idp'', sc_salt = ''salt'', sc_secretHash = ''cw=='', sc_status = ''active'',
     sc_scopes = [''scim:write''], sc_notBefore = None, sc_expiresAt = None\<rparr>"

definition sample_scim_env :: scim_env where
  "sample_scim_env = \<lparr>se_now = 5, se_burst = NoLimiter, se_failure = NoLimiter, se_decision = NoLimiter,
     se_read = sample_id_env, se_between = [], se_commit = sample_id_env\<rparr>"

definition sample_delete :: "string \<Rightarrow> scim_request" where
  "sample_delete reason = \<lparr>rq_method = ''DELETE'', rq_path = ''/scim/v2/Users/IDN-u'', rq_startIndex = None, rq_count = None,
     rq_filter = None, rq_headers = (\<lambda>h. if h = ''authorization'' then JStr ''Bearer kk.s''
       else if h = ''if-match'' then JStr ([quote] @ ''1'' @ [quote])
       else if h = ''x-basitclaw-change-reason'' then JStr reason else JUndef), rq_body = []\<rparr>"

lemma sample_delete_done:
  "map_option rs_status (snd (scim_handle sample_engine sample_id_config [sample_credential] ''https://i'' sample_scim_env
     (sample_delete ''leaves'') (id_run sample_engine sample_commands NoUsers))) = Some 204"
  by code_simp

lemma sample_delete_stored:
  "map (iu_version \<circ> snd) (users_of (fst (scim_handle sample_engine sample_id_config [sample_credential] ''https://i'' sample_scim_env
     (sample_delete ''leaves'') (id_run sample_engine sample_commands NoUsers)))) = [2]"
  by code_simp

lemma sample_version: "map (iu_version \<circ> snd) (users_of (id_run sample_engine sample_commands NoUsers)) = [1]"
  by code_simp

subsection \<open>Properties\<close>

text \<open>
  C20. An acknowledged SCIM write is a commit on the version the client knew. When a POST, PUT,
  PATCH or DELETE is answered with 200, 201 or 204, one command of the registry committed after
  whatever other processes did in the meantime, the user it returned is stored and is the one answered;
  a POST created it as version 1, and any other write made the successor of the version in \<open>If-Match\<close>.
\<close>

theorem acknowledged_write_is_committed:
  assumes "f = id_run w cs NoUsers" and "scim_handle w cfg creds issuer env req f = (f', Some r)"
    and "rq_method req \<noteq> ''GET''" and "rs_status r \<in> {200, 201, 204}"
  shows "\<exists>c u. id_exec w cfg (se_commit env) c (id_run w (se_between env) f) = (f', Inr u)
    \<and> map_of (users_of f') (iu_subject u) = Some u \<and> (rs_payload r = UserPayload u \<or> rs_payload r = NoPayload)
    \<and> (if rq_method req = ''POST'' then iu_version u = 1
       else \<exists>ds. etag_digits (scim_header req ''if-match'') = Some ds \<and> iu_version u = undec ds + 1)"
proof -
  let ?g = "id_run w (se_between env) f"
  have g: "id_file_ok w ?g" by (simp add: assms(1) id_run_ok)
  from assms(2) obtain p where "scim_route w cfg issuer env p req f = (f', Inr r)"
  proof (cases rule: scim_handle_cases)
    case (routed p)
    then show thesis using assms(4) scim_failure_status that by blast
  qed (use assms(4) in auto)
  then obtain u where u: "commits w cfg env req f f' u" "rs_payload r = UserPayload u \<or> rs_payload r = NoPayload"
    using scim_route_commits assms(3,4) by blast
  then obtain c where c: "id_exec w cfg (se_commit env) c ?g = (f', Inr u)"
    "if rq_method req = ''POST'' then expected_version c = JInt 0
     else \<exists>ds. etag_digits (scim_header req ''if-match'') = Some ds \<and> expected_version c = JInt (int (undec ds))"
    by (auto simp: commits_def)
  have "iu_version u = version_in ?g (iu_subject u) + 1"
    "nullish (expected_version c) \<or> js_Number (expected_version c) = JInt (int (version_in ?g (iu_subject u)))"
    using returned_version [OF g, of cfg "se_commit env" c u] c(1) by simp_all
  then have "if rq_method req = ''POST'' then iu_version u = 1
    else \<exists>ds. etag_digits (scim_header req ''if-match'') = Some ds \<and> iu_version u = undec ds + 1"
    using c(2) by (auto split: if_splits)
  then show ?thesis using c(1) u(2) returned_is_stored [OF g c(1)] by blast
qed

theorem acknowledged_write_is_committed_witness:
  "\<exists>u. map_of (users_of (fst (scim_handle sample_engine sample_id_config [sample_credential] ''https://i'' sample_scim_env
     (sample_delete ''leaves'') (id_run sample_engine sample_commands NoUsers)))) (iu_subject u) = Some u \<and> iu_version u = 2"
proof -
  let ?h = "scim_handle sample_engine sample_id_config [sample_credential] ''https://i'' sample_scim_env
     (sample_delete ''leaves'') (id_run sample_engine sample_commands NoUsers)"
  obtain r where "snd ?h = Some r" and status: "rs_status r = 204"
    using sample_delete_done by (cases "snd ?h") simp_all
  then have r: "?h = (fst ?h, Some r)" by (metis prod.collapse)
  have digits: "etag_digits (scim_header (sample_delete ''leaves'') ''if-match'') = Some ''1''" by code_simp
  show ?thesis
    using acknowledged_write_is_committed [OF refl r] status digits by (auto simp: sample_delete_def undec_def)
qed

text \<open>
  C28. Nothing is provisioned without a live credential. If a request changes the store, it carried
  the key identifier and the secret of a configured SCIM credential that is not revoked and within
  its validity at that time, and whose scopes include \<open>scim:write\<close>; and no limiter refused it.
\<close>

theorem scim_writes_need_live_credential:
  assumes "scim_handle w cfg creds issuer env req f = (f', r)" and "f' \<noteq> f"
  shows "\<exists>cr \<in> set creds. live_credential w (se_now env) (rq_headers req ''authorization'') cr \<and> ''scim:write'' \<in> set (sc_scopes cr)
    \<and> rate_gate (se_burst env) = None \<and> rate_gate (se_decision env) = None"
proof -
  have gates: "rate_gate (se_burst env) = None" "rate_gate (se_decision env) = None"
    using assms by (auto simp: scim_handle_def split: if_splits option.splits sum.splits)
  obtain x where x: "r = Some x"
    using assms by (auto simp: scim_handle_def split: if_splits option.splits sum.splits prod.splits)
  from assms(1) [unfolded x] show ?thesis
  proof (cases rule: scim_handle_cases)
    case (routed p)
    have "fst (scim_route w cfg issuer env p req f) = f'" using routed(3) by auto
    then have "rq_method req \<noteq> ''GET''" using get_route_same assms(2) by metis
    then have "''scim:write'' \<in> set (sp_scopes p)" using routed(2) by (simp add: scope_of_def)
    then show ?thesis using scim_authenticate_Inr [OF routed(1)] gates by metis
  qed (use assms(2) in simp)
qed

theorem scim_writes_need_live_credential_witness:
  "\<exists>cr \<in> set [sample_credential]. live_credential sample_engine 5 (JStr ''Bearer kk.s'') cr"
proof -
  let ?f = "id_run sample_engine sample_commands NoUsers"
  let ?h = "scim_handle sample_engine sample_id_config [sample_credential] ''https://i'' sample_scim_env (sample_delete ''leaves'') ?f"
  have "map (iu_version \<circ> snd) (users_of (fst ?h)) \<noteq> map (iu_version \<circ> snd) (users_of ?f)"
    unfolding sample_delete_stored sample_version by simp
  then have "fst ?h \<noteq> ?f" by metis
  from scim_writes_need_live_credential [OF surjective_pairing this] show ?thesis
    by (auto simp: sample_scim_env_def sample_delete_def)
qed

text \<open>
  A deprovisioning request without a reason is reported as an outage. A DELETE with a valid
  credential and the current version, but a blank \<open>x-basitclaw-change-reason\<close> header, is answered with 503
  and recorded as the critical event \<open>identity_lifecycle.unavailable\<close>, although the store works: the
  registry reports the rejected input as an unavailable store. The user stays active.
\<close>

theorem missing_reason_reported_as_outage:
  assumes "rate_gate (se_burst env) = None" and "rate_gate (se_decision env) = None"
    and "scim_authenticate w creds (se_now env) (rq_headers req ''authorization'') = Inr p" and "''scim:write'' \<in> set (sp_scopes p)"
    and "rq_method req = ''DELETE''" and "user_path (rq_path req) = Some raw" and "uri_decode w raw = Some i"
    and "id_get w cfg (se_read env) f (JStr i) = Inr u" and "required_if_match req (iu_version u) = Inr v"
    and "read_id_unlocked w cfg (se_commit env) (id_run w (se_between env) f) = Inr s"
    and "find_user_by_id s (JStr i) = Inr u'" and "int (iu_version u') = v"
    and "scim_header req ''x-basitclaw-change-reason'' = []"
  shows "scim_handle w cfg creds issuer env req f
    = (id_run w (se_between env) f, Some (answer 503 (ErrorPayload None) [(''identity_lifecycle.unavailable'', ''critical'')]))"
proof -
  let ?g = "id_run w (se_between env) f"
  let ?changes = "JObj [(''active'', JBool False), (''expectedVersion'', JInt v), (''reason'', JStr [])]"
  have reason: "id_required_reason (js_get ?changes ''reason'') = Inl (IdTypeErr ''reason'')"
    by (simp add: id_required_reason_def id_required_text_def text_in_def trimmed_def js_trim_def)
  have "\<exists>e. patch_op w cfg (se_commit env) (JStr i) ?changes (JStr (sp_subject p)) s = Inl (IdTypeErr e)"
    using assms(11,12) reason
    by (auto simp: patch_op_def assert_id_version_def patched_user_def changed_def bindR_def id_safe_actor_def
        id_safe_identifier_def ensure_def Let_def split: sum.split)
  then have "id_exec w cfg (se_commit env) (Deactivate (JStr i) (JInt v) (JStr []) (JStr (sp_subject p))) ?g
    = (?g, Inl IdStoreUnavailable)"
    unfolding id_exec_op by (metis id_op.simps(3) rejected_mutation [OF assms(10)])
  then have delete: "scim_delete w cfg env p req i f = (?g, Inl (ScimRegistry IdStoreUnavailable))"
    using assms(8,9,13)
    by (simp add: scim_delete_def bindS_def scim_get_def registry_result_def liftS_def scim_others_def modifyS_def scim_command_def del: id_exec.simps)
  have "starts_with ''/scim/v2/'' (rq_path req)"
    unfolding user_path_Some [OF assms(6)] by (simp add: starts_with_def)
  moreover have "scim_route w cfg issuer env p req f = (?g, Inl (ScimRegistry IdStoreUnavailable))"
    using delete assms(5-7) by (simp add: scim_route_def bindS_def liftS_def)
  ultimately show ?thesis
    using assms(1-5) by (simp add: scim_handle_def scim_authorise_def scope_of_def scim_failure_def)
qed

lemma sample_get: "id_get sample_engine sample_id_config sample_id_env (id_run sample_engine sample_commands NoUsers) (JStr ''IDN-u'') = Inr sample_user"
  by code_simp

definition sample_worker :: scim_principal where
  "sample_worker = \<lparr>sp_keyId = ''kk'', sp_subject = ''idp'', sp_scopes = [''scim:write''], sp_status = ''active'', sp_expiresAt = None\<rparr>"

lemma sample_blank_reason:
  "scim_authenticate sample_engine [sample_credential] 5 (JStr ''Bearer kk.s'')
     = Inr sample_worker"
  "user_path ''/scim/v2/Users/IDN-u'' = Some ''IDN-u''"
  "required_if_match (sample_delete '' '') 1 = Inr 1"
  "scim_header (sample_delete '' '') ''x-basitclaw-change-reason'' = []"
  by code_simp+

theorem missing_reason_reported_as_outage_witness:
  "map_option rs_status (snd (scim_handle sample_engine sample_id_config [sample_credential] ''https://i'' sample_scim_env
     (sample_delete '' '') (id_run sample_engine sample_commands NoUsers))) = Some 503"
proof -
  let ?f = "id_run sample_engine sample_commands NoUsers"
  obtain s where s: "read_id_snapshot sample_engine sample_id_config sample_id_env ?f = Inr s"
    "find_user_by_id s (JStr ''IDN-u'') = Inr sample_user"
    using sample_get by (auto simp: id_get_def simp del: id_run.simps)
  then have read: "read_id_unlocked sample_engine sample_id_config sample_id_env ?f = Inr s"
    by (simp add: read_id_snapshot_def sample_id_env_def liftS_def)
  have "scim_handle sample_engine sample_id_config [sample_credential] ''https://i'' sample_scim_env (sample_delete '' '') ?f
    = (id_run sample_engine (se_between sample_scim_env) ?f,
       Some (answer 503 (ErrorPayload None) [(''identity_lifecycle.unavailable'', ''critical'')]))"
    using sample_get s(2) read sample_blank_reason
    by (intro missing_reason_reported_as_outage [where raw = "''IDN-u''" and i = "''IDN-u''" and u = sample_user and v = 1
        and s = s and u' = sample_user and p = sample_worker])
      (simp_all add: sample_scim_env_def sample_delete_def rate_gate_def sample_engine_def sample_user_def scim_header_def sample_worker_def)
  then show ?thesis by (simp add: answer_def)
qed

end
