(* ===== verification/PrivilegedAccess.thy ===== *)
theory PrivilegedAccess
  imports AccessControl HashChain Effects
begin

section \<open>Just-in-time privileged access (src/security/privilegedAccessRegistry.js)\<close>

text \<open>
  Requests for protected permissions, their approval by others, emergency (break-glass)
  grants and their later review, expiry and pruning, and the hash-chained event log. One
  encrypted file holds the snapshot; the model identifies the file with the snapshot it
  decrypts to (\<open>Sealed\<close>), or with a file that does not decrypt or parse (\<open>Unreadable\<close>).
  An operation gets an environment: the clock, whether the file mutex and the file write
  succeed, the identifiers drawn with \<open>randomUUID\<close> (one for a request; for events, the one
  drawn for the event of a sequence number).
\<close>

subsection \<open>Data\<close>

datatype pam_error =
    Access string
  | Conflict string
  | TypeErr string
  | StoreUnavailable

record approval =
  ap_subject :: string
  ap_role :: string
  ap_approvedAt :: int
  ap_comment :: string

record denial =
  dn_subject :: string
  dn_deniedAt :: int
  dn_reason :: string

record post_review =
  pv_reviewer :: string
  pv_reviewedAt :: int
  pv_outcome :: string
  pv_reason :: string

record pam_request =
  pq_id :: string
  pq_subject :: string
  pq_tenantId :: string
  pq_requesterRole :: string
  pq_permissions :: "string list"
  pq_reason :: string
  pq_ticketRef :: string
  pq_durationMinutes :: int
  pq_status :: string
  pq_breakGlass :: bool
  pq_approvalsRequired :: nat
  pq_approvals :: "approval list"
  pq_denial :: "denial option"
  pq_requestedAt :: int
  pq_approvalExpiresAt :: "int option"
  pq_activatedAt :: "int option"
  pq_expiresAt :: "int option"
  pq_closedAt :: "int option"
  pq_postReviewBy :: "int option"
  pq_postReview :: "post_review option"
  pq_version :: int

record pam_event =
  pe_id :: string
  pe_sequence :: nat
  pe_occurredAt :: int
  pe_actor :: string
  pe_action :: string
  pe_requestId :: string
  pe_subject :: string
  pe_tenantId :: string
  pe_permissions :: "string list"
  pe_breakGlass :: bool
  pe_details :: "(string \<times> jsval) list"
  pe_previousHash :: "string option"
  pe_hash :: string

record pam_anchor =
  an_sequence :: nat
  an_hash :: "string option"
  an_prunedAt :: "int option"

record pam_snapshot =
  ps_revision :: nat
  ps_eventSequence :: nat
  ps_updatedAt :: int
  ps_anchor :: pam_anchor
  ps_requests :: "(string \<times> pam_request) list"
  ps_events :: "pam_event list"

datatype pam_file = Missing | Unreadable | Sealed pam_snapshot

datatype pam_mode = Observe | Enforce

record pam_config =
  cf_mode :: pam_mode
  cf_protected :: "string list"
  cf_approvalsRequired :: nat
  cf_approvalWindowMs :: int
  cf_maxDuration :: int
  cf_breakGlassEnabled :: bool
  cf_breakGlassMax :: int
  cf_reviewMs :: int
  cf_requiredAmr :: "string list"
  cf_requiredAcr :: "string list"
  cf_allowApiKey :: bool
  cf_eventRetention :: nat
  cf_requestRetentionMs :: int

record pam_env =
  en_now :: int
  en_lock :: bool
  en_write :: write_outcome
  en_requestUuid :: string
  en_eventUuid :: "nat \<Rightarrow> string"

definition terminal :: "string list" where
  "terminal = [''denied'', ''cancelled'', ''revoked'', ''expired'']"

definition management :: "string list" where
  "management = [''privileged:request'', ''privileged:read'', ''privileged:approve'', ''privileged:revoke'',
     ''privileged:break_glass'']"

subsection \<open>Validators\<close>

definition pam_text :: "jsval \<Rightarrow> string \<Rightarrow> nat \<Rightarrow> nat \<Rightarrow> pam_error + string" where
  "pam_text v field lo hi = from_option (TypeErr field) (text_in lo hi v)"

definition pam_integer :: "jsval \<Rightarrow> string \<Rightarrow> int \<Rightarrow> int \<Rightarrow> pam_error + int" where
  "pam_integer v field lo hi = from_option (TypeErr field) (int_in lo hi v)"

definition pam_string_list :: "jsval \<Rightarrow> string \<Rightarrow> nat \<Rightarrow> nat \<Rightarrow> pam_error + string list" where
  "pam_string_list v field lo hi = from_option (TypeErr field) (string_list_in lo hi v)"

definition pam_subject :: "string \<Rightarrow> pam_error + string" where
  "pam_subject v = (let r = js_trim v in if safe_ident ''._:-'' 1 255 r then Inr r else Inl (TypeErr ''subject''))"

definition pam_identifier :: "string \<Rightarrow> string \<Rightarrow> pam_error + string" where
  "pam_identifier v field = (let r = js_trim v in if safe_ident ''._-'' 1 127 r then Inr r else Inl (TypeErr field))"

definition pam_role :: "string \<Rightarrow> pam_error + string" where
  "pam_role v = ensure (permissions_for_role v \<noteq> None) (TypeErr ''role'') (Inr v)"

definition pam_actor :: "jsval \<Rightarrow> pam_error + string" where
  "pam_actor v = from_option (TypeErr ''actor'') (text_in 1 256 v)"

definition hex_or_dash :: "char \<Rightarrow> bool" where
  "hex_or_dash c = (let n = (of_char c :: nat) in
     48 \<le> n \<and> n \<le> 57 \<or> 97 \<le> n \<and> n \<le> 102 \<or> 65 \<le> n \<and> n \<le> 70 \<or> n = 45)"

definition to_upper :: "char \<Rightarrow> char" where
  "to_upper c = (let n = (of_char c :: nat) in if 97 \<le> n \<and> n \<le> 122 then char_of (n - 32) else c)"

text \<open>\<open>/^PAM-[0-9a-f-]{36}$/i\<close>.\<close>

definition pam_request_id :: "jsval \<Rightarrow> pam_error + string" where
  "pam_request_id v = (let r = js_String (js_or_nullish v (JStr [])) in
     ensure (map to_upper (take 4 r) = ''PAM-'' \<and> length r = 40 \<and> list_all hex_or_dash (drop 4 r))
       (Access ''PRIVILEGED_ACCESS_ID_INVALID'') (Inr r))"

subsection \<open>Configuration\<close>

definition lower_ident :: "string \<Rightarrow> bool" where
  "lower_ident s = (case s of [] \<Rightarrow> False | c # cs \<Rightarrow>
     (let n = (of_char c :: nat) in 97 \<le> n \<and> n \<le> 122)
     \<and> list_all (\<lambda>d. let n = (of_char d :: nat) in 97 \<le> n \<and> n \<le> 122 \<or> 48 \<le> n \<and> n \<le> 57 \<or> n = 95 \<or> n = 45) cs)"

text \<open>\<open>/^[a-z][a-z0-9_-]*:[a-z][a-z0-9_-]*$/\<close>.\<close>

definition permission_shape :: "string \<Rightarrow> bool" where
  "permission_shape s = (case split_at (CHR '':'') s of [a, b] \<Rightarrow> lower_ident a \<and> lower_ident b | _ \<Rightarrow> False)"

definition all_role_permissions :: "string list" where
  "all_role_permissions = concat (map snd role_permissions)"

definition protected_set :: "jsval \<Rightarrow> pam_error + string list" where
  "protected_set v = bindR (pam_string_list v ''protectedPermissions'' 1 50) (\<lambda>ps.
     ensure (list_all (\<lambda>p. permission_shape p \<and> p \<in> set all_role_permissions \<and> p \<notin> set management) ps)
       (TypeErr ''protectedPermissions'') (Inr ps))"

definition opt_or :: "jsval \<Rightarrow> string \<Rightarrow> jsval \<Rightarrow> jsval" where
  "opt_or options k d = js_or_nullish (js_get options k) d"

definition make_pam_config :: "jsval \<Rightarrow> pam_error + pam_config" where
  "make_pam_config options =
     (let mode = js_String (opt_or options ''mode'' (JStr ''disabled'')) in
      ensure (mode \<in> {''observe'', ''enforce''}) (TypeErr ''mode'')
     (bindR (protected_set (opt_or options ''protectedPermissions''
         (JArr [JStr ''backup:restore'', JStr ''resilience:run'', JStr ''security:read'']))) (\<lambda>protected.
      bindR (pam_integer (opt_or options ''approvalsRequired'' (JInt 2)) ''approvalsRequired'' 2 5) (\<lambda>approvals.
      bindR (pam_integer (opt_or options ''approvalWindowMinutes'' (JInt 1440)) ''approvalWindowMinutes'' 5 10080) (\<lambda>window.
      bindR (pam_integer (opt_or options ''maxDurationMinutes'' (JInt 120)) ''maxDurationMinutes'' 5 1440) (\<lambda>maxD.
      bindR (pam_integer (opt_or options ''breakGlassMaxDurationMinutes'' (JInt 15)) ''breakGlassMaxDurationMinutes'' 5 60) (\<lambda>bgMax.
      bindR (pam_integer (opt_or options ''breakGlassReviewMinutes'' (JInt 1440)) ''breakGlassReviewMinutes'' 60 10080) (\<lambda>review.
      bindR (pam_string_list (opt_or options ''requiredAmr'' (JArr [JStr ''mfa''])) ''requiredAmr'' 0 20) (\<lambda>amr.
      bindR (pam_string_list (opt_or options ''requiredAcr'' (JArr [])) ''requiredAcr'' 0 20) (\<lambda>acr.
      bindR (pam_integer (opt_or options ''eventRetention'' (JInt 10000)) ''eventRetention'' 100 100000) (\<lambda>er.
      bindR (pam_integer (opt_or options ''requestRetentionDays'' (JInt 365)) ''requestRetentionDays'' 30 3650) (\<lambda>rr.
      Inr \<lparr>cf_mode = (if mode = ''enforce'' then Enforce else Observe), cf_protected = protected,
           cf_approvalsRequired = nat approvals, cf_approvalWindowMs = window * 60000, cf_maxDuration = maxD,
           cf_breakGlassEnabled = truthy (js_get options ''breakGlassEnabled''), cf_breakGlassMax = bgMax,
           cf_reviewMs = review * 60000, cf_requiredAmr = amr, cf_requiredAcr = acr,
           cf_allowApiKey = truthy (js_get options ''allowApiKey''),
           cf_eventRetention = nat er, cf_requestRetentionMs = rr * day_ms\<rparr>))))))))))))"

subsection \<open>The event log\<close>

definition pam_unsigned :: "pam_event \<Rightarrow> jsval" where
  "pam_unsigned e = JObj
    ([(''id'', JStr (pe_id e)), (''sequence'', JInt (int (pe_sequence e))), (''occurredAt'', JInt (pe_occurredAt e)),
      (''actor'', JStr (pe_actor e)), (''action'', JStr (pe_action e)), (''requestId'', JStr (pe_requestId e)),
      (''subject'', JStr (pe_subject e)), (''tenantId'', JStr (pe_tenantId e)),
      (''permissions'', JArr (map JStr (pe_permissions e))), (''breakGlass'', JBool (pe_breakGlass e))]
     @ pe_details e @ [(''previousHash'', opt_str (pe_previousHash e))])"

definition pam_digest :: "(string \<Rightarrow> string) \<Rightarrow> jsval \<Rightarrow> string" where
  "pam_digest H v = H (json_stringify v)"

definition pam_event_of ::
  "(string \<Rightarrow> string) \<Rightarrow> (nat \<Rightarrow> string) \<Rightarrow> pam_snapshot \<Rightarrow> int \<Rightarrow> string \<Rightarrow> string \<Rightarrow> pam_request \<Rightarrow> (string \<times> jsval) list \<Rightarrow> pam_event" where
  "pam_event_of H uuid s timestamp action performedBy item details =
     (let value = \<lparr>pe_id = ''PAE-'' @ uuid (ps_eventSequence s + 1), pe_sequence = ps_eventSequence s + 1,
        pe_occurredAt = timestamp, pe_actor = performedBy, pe_action = action, pe_requestId = pq_id item,
        pe_subject = pq_subject item, pe_tenantId = pq_tenantId item, pe_permissions = pq_permissions item,
        pe_breakGlass = pq_breakGlass item, pe_details = details,
        pe_previousHash = head_hash pe_hash (an_hash (ps_anchor s)) (ps_events s), pe_hash = []\<rparr>
      in value\<lparr>pe_hash := pam_digest H (pam_unsigned value)\<rparr>)"

definition record_event ::
  "(string \<Rightarrow> string) \<Rightarrow> (nat \<Rightarrow> string) \<Rightarrow> int \<Rightarrow> string \<Rightarrow> string \<Rightarrow> pam_request \<Rightarrow> (string \<times> jsval) list \<Rightarrow> pam_snapshot \<Rightarrow> pam_snapshot" where
  "record_event H uuid timestamp action performedBy item details s =
     (let value = pam_event_of H uuid s timestamp action performedBy item details
      in s\<lparr>ps_eventSequence := pe_sequence value, ps_events := ps_events s @ [value]\<rparr>)"

fun pam_first_broken :: "(string \<Rightarrow> string) \<Rightarrow> nat \<Rightarrow> string option \<Rightarrow> pam_event list \<Rightarrow> string option" where
  "pam_first_broken H sequence previousHash [] = None"
| "pam_first_broken H sequence previousHash (e # es) =
     (if pe_sequence e \<noteq> sequence + 1 \<or> pe_previousHash e \<noteq> previousHash
         \<or> pam_digest H (pam_unsigned e) \<noteq> pe_hash e then Some (pe_id e)
      else pam_first_broken H (sequence + 1) (Some (pe_hash e)) es)"

record pam_verification =
  pw_valid :: bool
  pw_failedEventId :: "string option"
  pw_retainedEvents :: nat
  pw_headHash :: "string option"

definition pam_verify_events :: "(string \<Rightarrow> string) \<Rightarrow> pam_snapshot \<Rightarrow> pam_verification" where
  "pam_verify_events H s =
     (case pam_first_broken H (an_sequence (ps_anchor s)) (an_hash (ps_anchor s)) (ps_events s) of
        Some i \<Rightarrow> \<lparr>pw_valid = False, pw_failedEventId = Some i, pw_retainedEvents = length (ps_events s), pw_headHash = None\<rparr>
      | None \<Rightarrow> \<lparr>pw_valid = (an_sequence (ps_anchor s) + length (ps_events s) = ps_eventSequence s),
          pw_failedEventId = None, pw_retainedEvents = length (ps_events s),
          pw_headHash = head_hash pe_hash (an_hash (ps_anchor s)) (ps_events s)\<rparr>)"

subsection \<open>The store\<close>

definition empty_snapshot :: "int \<Rightarrow> pam_snapshot" where
  "empty_snapshot now = \<lparr>ps_revision = 0, ps_eventSequence = 0, ps_updatedAt = now,
     ps_anchor = \<lparr>an_sequence = 0, an_hash = None, an_prunedAt = None\<rparr>, ps_requests = [], ps_events = []\<rparr>"

definition read_unlocked :: "(string \<Rightarrow> string) \<Rightarrow> int \<Rightarrow> pam_file \<Rightarrow> pam_error + pam_snapshot" where
  "read_unlocked H now f = (case f of
       Missing \<Rightarrow> Inr (empty_snapshot now)
     | Unreadable \<Rightarrow> Inl StoreUnavailable
     | Sealed s \<Rightarrow> ensure (pw_valid (pam_verify_events H s)) StoreUnavailable (Inr s))"

definition pam_read :: "(string \<Rightarrow> string) \<Rightarrow> pam_env \<Rightarrow> pam_file \<Rightarrow> pam_error + pam_snapshot" where
  "pam_read H env f = ensure (en_lock env) StoreUnavailable (read_unlocked H (en_now env) f)"

definition past :: "int option \<Rightarrow> int \<Rightarrow> bool" where
  "past t current = (case t of None \<Rightarrow> False | Some x \<Rightarrow> x \<le> current)"

definition effective :: "pam_request \<Rightarrow> int \<Rightarrow> pam_request" where
  "effective item current =
     (let v1 = (if pq_status item = ''pending'' \<and> past (pq_approvalExpiresAt item) current
                then item\<lparr>pq_status := ''expired''\<rparr> else item)
      in if pq_status v1 = ''active'' \<and> past (pq_expiresAt v1) current
         then v1\<lparr>pq_status := ''expired''\<rparr> else v1)"

definition put_request :: "pam_request \<Rightarrow> pam_snapshot \<Rightarrow> pam_snapshot" where
  "put_request item s = s\<lparr>ps_requests := put_assoc (pq_id item) item (ps_requests s)\<rparr>"

definition expire_one :: "(string \<Rightarrow> string) \<Rightarrow> (nat \<Rightarrow> string) \<Rightarrow> int \<Rightarrow> string \<Rightarrow> pam_snapshot \<Rightarrow> pam_snapshot" where
  "expire_one H uuid timestamp rid s = (case map_of (ps_requests s) rid of
       None \<Rightarrow> s
     | Some item \<Rightarrow> (let next = effective item timestamp in
         if pq_status next = pq_status item then s
         else let item' = item\<lparr>pq_status := pq_status next, pq_closedAt := Some timestamp,
                    pq_version := pq_version item + 1\<rparr>
              in record_event H uuid timestamp
                   (if pq_breakGlass item' then ''privileged_access.break_glass_expired'' else ''privileged_access.expired'')
                   ''system:privileged-access'' item' [] (put_request item' s)))"

definition expire :: "(string \<Rightarrow> string) \<Rightarrow> (nat \<Rightarrow> string) \<Rightarrow> int \<Rightarrow> pam_snapshot \<Rightarrow> pam_snapshot" where
  "expire H uuid timestamp s = fold (expire_one H uuid timestamp) (map fst (ps_requests s)) s"

definition or_else :: "'a option \<Rightarrow> 'a option \<Rightarrow> 'a option" where
  "or_else a b = (case a of None \<Rightarrow> b | Some _ \<Rightarrow> a)"

definition prunable :: "pam_config \<Rightarrow> int \<Rightarrow> pam_request \<Rightarrow> bool" where
  "prunable cfg current item =
     (let cutoff = current - cf_requestRetentionMs cfg; value = effective item current;
          closedAt = or_else (or_else (pq_closedAt value) (pq_expiresAt value)) (pq_approvalExpiresAt value)
      in pq_status value \<in> set terminal \<and> past closedAt cutoff
         \<and> (\<not> pq_breakGlass value \<or> pq_postReview value \<noteq> None))"

definition prune :: "pam_config \<Rightarrow> int \<Rightarrow> pam_snapshot \<Rightarrow> pam_snapshot" where
  "prune cfg current s = s\<lparr>ps_requests := filter (\<lambda>p. \<not> prunable cfg current (snd p)) (ps_requests s)\<rparr>"

definition trim_events :: "pam_config \<Rightarrow> int \<Rightarrow> pam_snapshot \<Rightarrow> pam_snapshot" where
  "trim_events cfg timestamp s =
     (if length (ps_events s) \<le> cf_eventRetention cfg then s
      else let n = length (ps_events s) - cf_eventRetention cfg; lst = ps_events s ! (n - 1)
           in s\<lparr>ps_events := drop n (ps_events s),
                ps_anchor := \<lparr>an_sequence = pe_sequence lst, an_hash = Some (pe_hash lst), an_prunedAt = Some timestamp\<rparr>\<rparr>)"

text \<open>\<open>storeError\<close> in \<open>mutate\<close>: whatever is not an access or conflict error is reported as the store's.\<close>

definition mutate_error :: "pam_error \<Rightarrow> pam_error" where
  "mutate_error e = (case e of Access _ \<Rightarrow> e | Conflict _ \<Rightarrow> e | _ \<Rightarrow> StoreUnavailable)"

definition pam_mutate ::
  "(string \<Rightarrow> string) \<Rightarrow> pam_config \<Rightarrow> pam_env \<Rightarrow> (pam_snapshot \<Rightarrow> int \<Rightarrow> pam_error + pam_snapshot \<times> pam_request)
     \<Rightarrow> pam_file \<Rightarrow> pam_file \<times> (pam_error + pam_request)" where
  "pam_mutate H cfg env operation f =
     (case pam_read H env f of
        Inl e \<Rightarrow> (f, Inl (mutate_error e))
      | Inr s0 \<Rightarrow>
          (let timestamp = en_now env;
               s1 = prune cfg timestamp (expire H (en_eventUuid env) timestamp s0)
           in case operation s1 timestamp of
                Inl e \<Rightarrow> (f, Inl (mutate_error e))
              | Inr (s2, result) \<Rightarrow>
                  (let s3 = trim_events cfg timestamp (s2\<lparr>ps_updatedAt := timestamp, ps_revision := ps_revision s2 + 1\<rparr>)
                   in case en_write env of
                        Committed \<Rightarrow> (Sealed s3, Inr result)
                      | NotWritten \<Rightarrow> (f, Inl StoreUnavailable)
                      | Unsynced \<Rightarrow> (Sealed s3, Inl StoreUnavailable))))"

subsection \<open>Guards\<close>

definition eligible :: "pam_config \<Rightarrow> principal option \<Rightarrow> bool \<Rightarrow> pam_error + principal" where
  "eligible cfg p forceOidc = (case p of
       None \<Rightarrow> Inl (Access ''PRIVILEGED_PRINCIPAL_INVALID'')
     | Some q \<Rightarrow>
         ensure (pr_subject q \<noteq> [] \<and> pr_tenantId q \<noteq> [] \<and> pr_role q \<noteq> []) (Access ''PRIVILEGED_PRINCIPAL_INVALID'')
        (ensure (\<not> (forceOidc \<or> \<not> cf_allowApiKey cfg) \<or> pr_authMethod q = Some ''oidc'') (Access ''PRIVILEGED_ACCESS_OIDC_REQUIRED'')
        (if pr_authMethod q = Some ''oidc'' then
           ensure (set (cf_requiredAmr cfg) \<subseteq> set (pr_amr q)) (Access ''PRIVILEGED_ACCESS_AMR_REQUIRED'')
          (ensure (cf_requiredAcr cfg = [] \<or> pr_acr q \<in> set (cf_requiredAcr cfg)) (Access ''PRIVILEGED_ACCESS_ACR_REQUIRED'')
            (Inr q))
         else Inr q)))"

definition manage :: "principal option \<Rightarrow> string \<Rightarrow> pam_error + principal" where
  "manage p permission = (case p of
       None \<Rightarrow> Inl (Access ''PRIVILEGED_ACCESS_MANAGEMENT_DENIED'')
     | Some q \<Rightarrow> ensure (permission \<in> set (pr_permissions q)) (Access ''PRIVILEGED_ACCESS_MANAGEMENT_DENIED'') (Inr q))"

fun check_requested :: "string list \<Rightarrow> string list \<Rightarrow> string list \<Rightarrow> pam_error option" where
  "check_requested protected standing [] = None"
| "check_requested protected standing (p # ps) =
     (if p \<notin> set protected then Some (Access ''PRIVILEGED_PERMISSION_NOT_PROTECTED'')
      else if p \<notin> set standing then Some (Access ''PRIVILEGED_PERMISSION_NOT_ASSIGNED'')
      else check_requested protected standing ps)"

definition requested :: "jsval \<Rightarrow> string list \<Rightarrow> string list \<Rightarrow> pam_error + string list" where
  "requested values protected standing = bindR (pam_string_list values ''permissions'' 1 10) (\<lambda>r.
     case check_requested protected standing r of Some e \<Rightarrow> Inl e | None \<Rightarrow> Inr (sort (uniq r)))"

definition find_request :: "pam_snapshot \<Rightarrow> jsval \<Rightarrow> pam_error + pam_request" where
  "find_request s rid = bindR (pam_request_id rid) (\<lambda>safe.
     from_option (Access ''PRIVILEGED_ACCESS_NOT_FOUND'') (map_of (ps_requests s) safe))"

definition check_version :: "pam_request \<Rightarrow> jsval \<Rightarrow> pam_error + 'a \<Rightarrow> pam_error + 'a" where
  "check_version item expected k = (case js_Number expected of
       JInt v \<Rightarrow> ensure (v \<ge> 1) (Access ''PRIVILEGED_ACCESS_PRECONDITION_REQUIRED'')
         (ensure (pq_version item = v) (Conflict ''version'') k)
     | _ \<Rightarrow> Inl (Access ''PRIVILEGED_ACCESS_PRECONDITION_REQUIRED''))"

definition check_tenant :: "pam_request \<Rightarrow> principal \<Rightarrow> pam_error + 'a \<Rightarrow> pam_error + 'a" where
  "check_tenant item q k = ensure (pq_tenantId item = pr_tenantId q) (Access ''PRIVILEGED_ACCESS_TENANT_MISMATCH'') k"

subsection \<open>Operations\<close>

definition overlapping :: "principal \<Rightarrow> string list \<Rightarrow> int \<Rightarrow> pam_request \<Rightarrow> bool" where
  "overlapping q permissions current item =
     (pq_status (effective item current) \<in> {''pending'', ''active''} \<and> pq_subject item = pr_subject q
      \<and> pq_tenantId item = pr_tenantId q \<and> (\<exists>v \<in> set (pq_permissions item). v \<in> set permissions))"

definition new_request ::
  "pam_config \<Rightarrow> string \<Rightarrow> int \<Rightarrow> string \<Rightarrow> string \<Rightarrow> string \<Rightarrow> string list \<Rightarrow> string \<Rightarrow> string \<Rightarrow> int \<Rightarrow> pam_request" where
  "new_request cfg rid timestamp subject tenantId role permissions reason ticketRef durationMinutes =
     \<lparr>pq_id = rid, pq_subject = subject, pq_tenantId = tenantId, pq_requesterRole = role,
      pq_permissions = permissions, pq_reason = reason, pq_ticketRef = ticketRef,
      pq_durationMinutes = durationMinutes, pq_status = ''pending'', pq_breakGlass = False,
      pq_approvalsRequired = cf_approvalsRequired cfg, pq_approvals = [], pq_denial = None,
      pq_requestedAt = timestamp, pq_approvalExpiresAt = Some (timestamp + cf_approvalWindowMs cfg),
      pq_activatedAt = None, pq_expiresAt = None, pq_closedAt = None, pq_postReviewBy = None,
      pq_postReview = None, pq_version = 1\<rparr>"

definition request_op ::
  "(string \<Rightarrow> string) \<Rightarrow> pam_config \<Rightarrow> pam_env \<Rightarrow> principal \<Rightarrow> jsval \<Rightarrow> string list \<Rightarrow> int \<Rightarrow> string \<Rightarrow> string
     \<Rightarrow> pam_snapshot \<Rightarrow> int \<Rightarrow> pam_error + pam_snapshot \<times> pam_request" where
  "request_op H cfg env q ctxActor permissions durationMinutes reason ticketRef s timestamp =
     ensure (\<not> list_ex (overlapping q permissions timestamp) (map snd (ps_requests s))) (Conflict ''overlap'')
    (bindR (pam_subject (pr_subject q)) (\<lambda>subject.
     bindR (pam_identifier (pr_tenantId q) ''tenantId'') (\<lambda>tenantId.
     bindR (pam_role (pr_role q)) (\<lambda>role.
     let item = new_request cfg (''PAM-'' @ en_requestUuid env) timestamp subject tenantId role permissions reason ticketRef durationMinutes;
         s' = put_request item s in
     bindR (pam_actor (js_or_nullish ctxActor (JStr (pr_subject q)))) (\<lambda>performedBy.
     Inr (record_event H (en_eventUuid env) timestamp ''privileged_access.requested'' performedBy item
            [(''reason'', JStr reason), (''ticketRef'', JStr ticketRef)] s', item))))))"

definition request_access ::
  "(string \<Rightarrow> string) \<Rightarrow> pam_config \<Rightarrow> pam_env \<Rightarrow> principal option \<Rightarrow> jsval \<Rightarrow> jsval \<Rightarrow> pam_file \<Rightarrow> pam_file \<times> (pam_error + pam_request)" where
  "request_access H cfg env p input ctxActor f =
     (case bindR (eligible cfg p False) (\<lambda>q.
           bindR (manage p ''privileged:request'') (\<lambda>_.
           bindR (requested (js_get input ''permissions'') (cf_protected cfg) (pr_permissions q)) (\<lambda>permissions.
           bindR (pam_integer (js_get input ''durationMinutes'') ''durationMinutes'' 5 (cf_maxDuration cfg)) (\<lambda>durationMinutes.
           bindR (pam_text (js_get input ''reason'') ''reason'' 20 1000) (\<lambda>reason.
           bindR (pam_text (js_get input ''ticketRef'') ''ticketRef'' 3 128) (\<lambda>ticketRef.
           Inr (request_op H cfg env q ctxActor permissions durationMinutes reason ticketRef)))))))
      of Inl e \<Rightarrow> (f, Inl e) | Inr operation \<Rightarrow> pam_mutate H cfg env operation f)"

definition activated :: "int \<Rightarrow> pam_request \<Rightarrow> pam_request" where
  "activated timestamp item = item\<lparr>pq_status := ''active'', pq_activatedAt := Some timestamp,
     pq_expiresAt := Some (timestamp + pq_durationMinutes item * 60000)\<rparr>"

definition approve_op ::
  "(string \<Rightarrow> string) \<Rightarrow> pam_env \<Rightarrow> principal \<Rightarrow> jsval \<Rightarrow> jsval \<Rightarrow> jsval \<Rightarrow> string
     \<Rightarrow> pam_snapshot \<Rightarrow> int \<Rightarrow> pam_error + pam_snapshot \<times> pam_request" where
  "approve_op H env q rid expected ctxActor comment s timestamp =
     bindR (find_request s rid) (\<lambda>item.
     check_version item expected
    (check_tenant item q
    (ensure (pq_status (effective item timestamp) = ''pending'') (Conflict ''state'')
    (ensure (pq_subject item \<noteq> pr_subject q) (Access ''PRIVILEGED_ACCESS_SELF_APPROVAL_DENIED'')
    (ensure (pr_subject q \<notin> set (map ap_subject (pq_approvals item))) (Conflict ''approver'')
    (bindR (pam_subject (pr_subject q)) (\<lambda>subject.
     bindR (pam_role (pr_role q)) (\<lambda>role.
     let item1 = item\<lparr>pq_approvals := pq_approvals item @
             [\<lparr>ap_subject = subject, ap_role = role, ap_approvedAt = timestamp, ap_comment = comment\<rparr>],
           pq_version := pq_version item + 1\<rparr> in
     bindR (pam_actor (js_or_nullish ctxActor (JStr (pr_subject q)))) (\<lambda>performedBy.
     let s1 = record_event H (en_eventUuid env) timestamp ''privileged_access.approved'' performedBy item1
           [(''approver'', JStr (pr_subject q)), (''approvalCount'', JInt (int (length (pq_approvals item1))))]
           (put_request item1 s) in
     if length (pq_approvals item1) \<ge> pq_approvalsRequired item1 then
       let item2 = activated timestamp item1 in
       Inr (record_event H (en_eventUuid env) timestamp ''privileged_access.activated'' ''system:privileged-access'' item2
              [(''expiresAt'', JInt (the (pq_expiresAt item2)))] (put_request item2 s1), item2)
     else Inr (s1, item1))))))))))"

definition approve ::
  "(string \<Rightarrow> string) \<Rightarrow> pam_config \<Rightarrow> pam_env \<Rightarrow> jsval \<Rightarrow> principal option \<Rightarrow> jsval \<Rightarrow> jsval \<Rightarrow> pam_file \<Rightarrow> pam_file \<times> (pam_error + pam_request)" where
  "approve H cfg env rid p input ctxActor f =
     (case bindR (manage p ''privileged:approve'') (\<lambda>_.
           bindR (eligible cfg p False) (\<lambda>q.
           bindR (pam_text (js_get input ''comment'') ''comment'' 10 1000) (\<lambda>comment.
           Inr (approve_op H env q rid (js_get input ''expectedVersion'') ctxActor comment))))
      of Inl e \<Rightarrow> (f, Inl e) | Inr operation \<Rightarrow> pam_mutate H cfg env operation f)"

text \<open>The four operations that close or review a request record one event for the changed request.\<close>

definition commit_change ::
  "(string \<Rightarrow> string) \<Rightarrow> pam_env \<Rightarrow> principal \<Rightarrow> jsval \<Rightarrow> string \<Rightarrow> pam_request \<Rightarrow> (string \<times> jsval) list
     \<Rightarrow> pam_snapshot \<Rightarrow> int \<Rightarrow> pam_error + pam_snapshot \<times> pam_request" where
  "commit_change H env q ctxActor action item' details s timestamp =
     bindR (pam_actor (js_or_nullish ctxActor (JStr (pr_subject q)))) (\<lambda>performedBy.
     Inr (record_event H (en_eventUuid env) timestamp action performedBy item' details (put_request item' s), item'))"

definition deny_op ::
  "(string \<Rightarrow> string) \<Rightarrow> pam_env \<Rightarrow> principal \<Rightarrow> jsval \<Rightarrow> jsval \<Rightarrow> jsval \<Rightarrow> string
     \<Rightarrow> pam_snapshot \<Rightarrow> int \<Rightarrow> pam_error + pam_snapshot \<times> pam_request" where
  "deny_op H env q rid expected ctxActor reason s timestamp =
     bindR (find_request s rid) (\<lambda>item.
     check_version item expected
    (check_tenant item q
    (ensure (pq_status (effective item timestamp) = ''pending'') (Conflict ''state'')
    (ensure (pq_subject item \<noteq> pr_subject q) (Access ''PRIVILEGED_ACCESS_SELF_REVIEW_DENIED'')
    (bindR (pam_subject (pr_subject q)) (\<lambda>subject.
     commit_change H env q ctxActor ''privileged_access.denied''
       (item\<lparr>pq_status := ''denied'',
          pq_denial := Some \<lparr>dn_subject = subject, dn_deniedAt = timestamp, dn_reason = reason\<rparr>,
          pq_closedAt := Some timestamp, pq_version := pq_version item + 1\<rparr>)
       [(''reason'', JStr reason)] s timestamp))))))"

definition deny ::
  "(string \<Rightarrow> string) \<Rightarrow> pam_config \<Rightarrow> pam_env \<Rightarrow> jsval \<Rightarrow> principal option \<Rightarrow> jsval \<Rightarrow> jsval \<Rightarrow> pam_file \<Rightarrow> pam_file \<times> (pam_error + pam_request)" where
  "deny H cfg env rid p input ctxActor f =
     (case bindR (manage p ''privileged:approve'') (\<lambda>_.
           bindR (eligible cfg p False) (\<lambda>q.
           bindR (pam_text (js_get input ''reason'') ''reason'' 10 1000) (\<lambda>reason.
           Inr (deny_op H env q rid (js_get input ''expectedVersion'') ctxActor reason))))
      of Inl e \<Rightarrow> (f, Inl e) | Inr operation \<Rightarrow> pam_mutate H cfg env operation f)"

definition cancel_op ::
  "(string \<Rightarrow> string) \<Rightarrow> pam_env \<Rightarrow> principal \<Rightarrow> jsval \<Rightarrow> jsval \<Rightarrow> jsval \<Rightarrow> string
     \<Rightarrow> pam_snapshot \<Rightarrow> int \<Rightarrow> pam_error + pam_snapshot \<times> pam_request" where
  "cancel_op H env q rid expected ctxActor reason s timestamp =
     bindR (find_request s rid) (\<lambda>item.
     check_version item expected
    (ensure (pq_subject item = pr_subject q \<and> pq_tenantId item = pr_tenantId q) (Access ''PRIVILEGED_ACCESS_CANCEL_DENIED'')
    (let currentStatus = pq_status (effective item timestamp) in
     ensure (currentStatus \<in> {''pending'', ''active''}) (Conflict ''state'')
    (commit_change H env q ctxActor ''privileged_access.cancelled''
       (item\<lparr>pq_status := (if currentStatus = ''active'' then ''revoked'' else ''cancelled''),
          pq_closedAt := Some timestamp, pq_version := pq_version item + 1\<rparr>)
       [(''reason'', JStr reason)] s timestamp))))"

definition cancel ::
  "(string \<Rightarrow> string) \<Rightarrow> pam_config \<Rightarrow> pam_env \<Rightarrow> jsval \<Rightarrow> principal option \<Rightarrow> jsval \<Rightarrow> jsval \<Rightarrow> pam_file \<Rightarrow> pam_file \<times> (pam_error + pam_request)" where
  "cancel H cfg env rid p input ctxActor f =
     (case bindR (manage p ''privileged:request'') (\<lambda>q.
           bindR (pam_text (js_get input ''reason'') ''reason'' 10 1000) (\<lambda>reason.
           Inr (cancel_op H env q rid (js_get input ''expectedVersion'') ctxActor reason)))
      of Inl e \<Rightarrow> (f, Inl e) | Inr operation \<Rightarrow> pam_mutate H cfg env operation f)"

definition revoke_op ::
  "(string \<Rightarrow> string) \<Rightarrow> pam_env \<Rightarrow> principal \<Rightarrow> jsval \<Rightarrow> jsval \<Rightarrow> jsval \<Rightarrow> string
     \<Rightarrow> pam_snapshot \<Rightarrow> int \<Rightarrow> pam_error + pam_snapshot \<times> pam_request" where
  "revoke_op H env q rid expected ctxActor reason s timestamp =
     bindR (find_request s rid) (\<lambda>item.
     check_version item expected
    (check_tenant item q
    (ensure (pq_status (effective item timestamp) = ''active'') (Conflict ''state'')
    (commit_change H env q ctxActor ''privileged_access.revoked''
       (item\<lparr>pq_status := ''revoked'', pq_closedAt := Some timestamp, pq_version := pq_version item + 1\<rparr>)
       [(''reason'', JStr reason)] s timestamp))))"

definition revoke ::
  "(string \<Rightarrow> string) \<Rightarrow> pam_config \<Rightarrow> pam_env \<Rightarrow> jsval \<Rightarrow> principal option \<Rightarrow> jsval \<Rightarrow> jsval \<Rightarrow> pam_file \<Rightarrow> pam_file \<times> (pam_error + pam_request)" where
  "revoke H cfg env rid p input ctxActor f =
     (case bindR (manage p ''privileged:revoke'') (\<lambda>_.
           bindR (eligible cfg p False) (\<lambda>q.
           bindR (pam_text (js_get input ''reason'') ''reason'' 10 1000) (\<lambda>reason.
           Inr (revoke_op H env q rid (js_get input ''expectedVersion'') ctxActor reason))))
      of Inl e \<Rightarrow> (f, Inl e) | Inr operation \<Rightarrow> pam_mutate H cfg env operation f)"

definition break_glass_request ::
  "pam_config \<Rightarrow> string \<Rightarrow> int \<Rightarrow> string \<Rightarrow> string \<Rightarrow> string \<Rightarrow> string list \<Rightarrow> string \<Rightarrow> string \<Rightarrow> int \<Rightarrow> pam_request" where
  "break_glass_request cfg rid timestamp subject tenantId role permissions reason incidentRef durationMinutes =
     \<lparr>pq_id = rid, pq_subject = subject, pq_tenantId = tenantId, pq_requesterRole = role,
      pq_permissions = permissions, pq_reason = reason, pq_ticketRef = incidentRef,
      pq_durationMinutes = durationMinutes, pq_status = ''active'', pq_breakGlass = True,
      pq_approvalsRequired = 0, pq_approvals = [], pq_denial = None,
      pq_requestedAt = timestamp, pq_approvalExpiresAt = None,
      pq_activatedAt = Some timestamp, pq_expiresAt = Some (timestamp + durationMinutes * 60000),
      pq_closedAt = None, pq_postReviewBy = Some (timestamp + cf_reviewMs cfg),
      pq_postReview = None, pq_version = 1\<rparr>"

definition break_glass_op ::
  "(string \<Rightarrow> string) \<Rightarrow> pam_config \<Rightarrow> pam_env \<Rightarrow> principal \<Rightarrow> jsval \<Rightarrow> string list \<Rightarrow> int \<Rightarrow> string \<Rightarrow> string
     \<Rightarrow> pam_snapshot \<Rightarrow> int \<Rightarrow> pam_error + pam_snapshot \<times> pam_request" where
  "break_glass_op H cfg env q ctxActor permissions durationMinutes reason incidentRef s timestamp =
     bindR (pam_subject (pr_subject q)) (\<lambda>subject.
     bindR (pam_identifier (pr_tenantId q) ''tenantId'') (\<lambda>tenantId.
     bindR (pam_role (pr_role q)) (\<lambda>role.
     let item = break_glass_request cfg (''PAM-'' @ en_requestUuid env) timestamp subject tenantId role permissions reason incidentRef durationMinutes in
     commit_change H env q ctxActor ''privileged_access.break_glass_activated'' item
       [(''reason'', JStr reason), (''incidentRef'', JStr incidentRef), (''expiresAt'', JInt (the (pq_expiresAt item))),
        (''postReviewBy'', JInt (the (pq_postReviewBy item)))] s timestamp)))"

definition activate_break_glass ::
  "(string \<Rightarrow> string) \<Rightarrow> pam_config \<Rightarrow> pam_env \<Rightarrow> principal option \<Rightarrow> jsval \<Rightarrow> jsval \<Rightarrow> pam_file \<Rightarrow> pam_file \<times> (pam_error + pam_request)" where
  "activate_break_glass H cfg env p input ctxActor f =
     (case ensure (cf_breakGlassEnabled cfg) (Access ''BREAK_GLASS_DISABLED'')
          (bindR (manage p ''privileged:break_glass'') (\<lambda>_.
           bindR (eligible cfg p True) (\<lambda>q.
           ensure (js_String (js_or_nullish (js_get input ''confirmation'') (JStr [])) = ''BREAK GLASS'')
             (Access ''BREAK_GLASS_CONFIRMATION_REQUIRED'')
          (bindR (requested (js_get input ''permissions'') (cf_protected cfg) (pr_permissions q)) (\<lambda>permissions.
           bindR (pam_integer (js_get input ''durationMinutes'') ''durationMinutes'' 5 (cf_breakGlassMax cfg)) (\<lambda>durationMinutes.
           bindR (pam_text (js_get input ''reason'') ''reason'' 30 1000) (\<lambda>reason.
           bindR (pam_text (js_get input ''incidentRef'') ''incidentRef'' 3 128) (\<lambda>incidentRef.
           Inr (break_glass_op H cfg env q ctxActor permissions durationMinutes reason incidentRef)))))))))
      of Inl e \<Rightarrow> (f, Inl e) | Inr operation \<Rightarrow> pam_mutate H cfg env operation f)"

definition review_op ::
  "(string \<Rightarrow> string) \<Rightarrow> pam_env \<Rightarrow> principal \<Rightarrow> jsval \<Rightarrow> jsval \<Rightarrow> jsval \<Rightarrow> string \<Rightarrow> string
     \<Rightarrow> pam_snapshot \<Rightarrow> int \<Rightarrow> pam_error + pam_snapshot \<times> pam_request" where
  "review_op H env q rid expected ctxActor outcome reason s timestamp =
     bindR (find_request s rid) (\<lambda>item.
     check_version item expected
    (check_tenant item q
    (ensure (pq_breakGlass item) (Access ''BREAK_GLASS_REVIEW_NOT_APPLICABLE'')
    (ensure (pq_subject item \<noteq> pr_subject q) (Access ''BREAK_GLASS_SELF_REVIEW_DENIED'')
    (ensure (pq_postReview item = None) (Conflict ''reviewed'')
    (bindR (pam_subject (pr_subject q)) (\<lambda>subject.
     commit_change H env q ctxActor ''privileged_access.break_glass_reviewed''
       (item\<lparr>pq_postReview := Some \<lparr>pv_reviewer = subject, pv_reviewedAt = timestamp, pv_outcome = outcome, pv_reason = reason\<rparr>,
          pq_version := pq_version item + 1\<rparr>)
       [(''outcome'', JStr outcome), (''reason'', JStr reason)] s timestamp)))))))"

definition complete_post_review ::
  "(string \<Rightarrow> string) \<Rightarrow> pam_config \<Rightarrow> pam_env \<Rightarrow> jsval \<Rightarrow> principal option \<Rightarrow> jsval \<Rightarrow> jsval \<Rightarrow> pam_file \<Rightarrow> pam_file \<times> (pam_error + pam_request)" where
  "complete_post_review H cfg env rid p input ctxActor f =
     (case bindR (manage p ''privileged:approve'') (\<lambda>_.
           bindR (eligible cfg p False) (\<lambda>q.
           let outcome = js_String (js_or_nullish (js_get input ''outcome'') (JStr [])) in
           ensure (outcome \<in> {''accepted'', ''concern''}) (TypeErr ''outcome'')
          (bindR (pam_text (js_get input ''reason'') ''reason'' 20 1000) (\<lambda>reason.
           Inr (review_op H env q rid (js_get input ''expectedVersion'') ctxActor outcome reason)))))
      of Inl e \<Rightarrow> (f, Inl e) | Inr operation \<Rightarrow> pam_mutate H cfg env operation f)"

subsection \<open>Use of a grant, and queries\<close>

datatype authorisation =
    Unprotected
  | Granted pam_request
  | Observed pam_error

definition grants :: "principal \<Rightarrow> string \<Rightarrow> pam_request \<Rightarrow> bool" where
  "grants q permission item = (pq_status item = ''active'' \<and> pq_subject item = pr_subject q
     \<and> pq_tenantId item = pr_tenantId q \<and> permission \<in> set (pq_permissions item))"

definition pam_authorise ::
  "(string \<Rightarrow> string) \<Rightarrow> pam_config \<Rightarrow> pam_env \<Rightarrow> pam_file \<Rightarrow> principal option \<Rightarrow> string \<Rightarrow> pam_error + authorisation" where
  "pam_authorise H cfg env f p permission =
     (if permission \<notin> set (cf_protected cfg) then Inr Unprotected
      else case bindR (eligible cfg p False) (\<lambda>q.
                bindR (pam_read H env f) (\<lambda>s.
                from_option (Access ''PRIVILEGED_ACCESS_REQUIRED'')
                  (List.find (grants q permission) (map (\<lambda>p. effective (snd p) (en_now env)) (ps_requests s)))))
           of Inr g \<Rightarrow> Inr (Granted g)
            | Inl e \<Rightarrow> (case e of Access _ \<Rightarrow> if cf_mode cfg = Observe then Inr (Observed e) else Inl e
                | _ \<Rightarrow> Inl e))"

definition pam_get :: "(string \<Rightarrow> string) \<Rightarrow> pam_env \<Rightarrow> pam_file \<Rightarrow> jsval \<Rightarrow> pam_error + pam_request" where
  "pam_get H env f rid = bindR (pam_read H env f) (\<lambda>s.
     bindR (find_request s rid) (\<lambda>item. Inr (effective item (en_now env))))"

text \<open>
  A filter of \<open>list\<close>: absent or empty it keeps every item; otherwise its value is validated
  while the items are filtered, hence not at all when there is no item left.
\<close>

definition list_filter :: "jsval \<Rightarrow> (jsval \<Rightarrow> pam_error + string) \<Rightarrow> (pam_request \<Rightarrow> string) \<Rightarrow> pam_request list \<Rightarrow> pam_error + pam_request list" where
  "list_filter v validate field items = (if \<not> truthy v \<or> items = [] then Inr items
     else bindR (validate v) (\<lambda>x. Inr (filter (\<lambda>i. field i = x) items)))"

definition pam_list :: "(string \<Rightarrow> string) \<Rightarrow> pam_env \<Rightarrow> pam_file \<Rightarrow> jsval \<Rightarrow> pam_error + pam_request list" where
  "pam_list H env f filters =
     bindR (pam_integer (opt_or filters ''limit'' (JInt 100)) ''limit'' 1 500) (\<lambda>limit.
     bindR (pam_read H env f) (\<lambda>s.
     bindR (list_filter (js_get filters ''tenantId'') (\<lambda>v. pam_identifier (js_String v) ''tenantId'') pq_tenantId
         (map (\<lambda>p. effective (snd p) (en_now env)) (ps_requests s))) (\<lambda>i1.
     bindR (list_filter (js_get filters ''subject'') (\<lambda>v. pam_subject (js_String v)) pq_subject i1) (\<lambda>i2.
     bindR (list_filter (js_get filters ''status'') (\<lambda>v. Inr (js_String v)) pq_status i2) (\<lambda>i3.
     Inr (take (nat limit) (sort_key (\<lambda>i. - pq_requestedAt i) i3)))))))"

definition pam_list_events :: "(string \<Rightarrow> string) \<Rightarrow> pam_env \<Rightarrow> pam_file \<Rightarrow> jsval \<Rightarrow> pam_error + pam_event list" where
  "pam_list_events H env f limit = bindR (pam_read H env f) (\<lambda>s.
     bindR (pam_integer limit ''limit'' 1 1000) (\<lambda>n. Inr (rev (last_n (nat n) (ps_events s)))))"

record pam_status_report =
  pt_status :: string
  pt_active :: nat
  pt_pending :: nat
  pt_breakGlassActive :: nat
  pt_overduePostReviews :: nat
  pt_total :: nat
  pt_revision :: nat
  pt_eventSequence :: nat
  pt_integrity :: pam_verification

definition overdue :: "int \<Rightarrow> pam_request \<Rightarrow> bool" where
  "overdue current item = (pq_breakGlass item \<and> pq_postReview item = None \<and> past (pq_postReviewBy item) current)"

definition pam_status :: "(string \<Rightarrow> string) \<Rightarrow> pam_env \<Rightarrow> pam_file \<Rightarrow> pam_error + pam_status_report" where
  "pam_status H env f = bindR (pam_read H env f) (\<lambda>s.
     let items = map (\<lambda>p. effective (snd p) (en_now env)) (ps_requests s);
         active = filter (\<lambda>i. pq_status i = ''active'') items;
         late = filter (overdue (en_now env)) items
     in Inr \<lparr>pt_status = (if late \<noteq> [] then ''attention'' else ''ready''), pt_active = length active,
          pt_pending = length (filter (\<lambda>i. pq_status i = ''pending'') items),
          pt_breakGlassActive = length (filter pq_breakGlass active), pt_overduePostReviews = length late,
          pt_total = length items, pt_revision = ps_revision s, pt_eventSequence = ps_eventSequence s,
          pt_integrity = pam_verify_events H s\<rparr>)"

definition pam_verify :: "(string \<Rightarrow> string) \<Rightarrow> pam_env \<Rightarrow> pam_file \<Rightarrow> pam_error + pam_verification" where
  "pam_verify H env f = bindR (pam_read H env f) (\<lambda>s. Inr (pam_verify_events H s))"

definition pam_tenant_ids :: "(string \<Rightarrow> string) \<Rightarrow> pam_env \<Rightarrow> pam_file \<Rightarrow> pam_error + string list" where
  "pam_tenant_ids H env f = bindR (pam_read H env f) (\<lambda>s. Inr (uniq (map (pq_tenantId \<circ> snd) (ps_requests s))))"

subsection \<open>The event log is a sequenced chain\<close>

definition pam_body :: "pam_event \<Rightarrow> string" where
  "pam_body e = json_stringify (pam_unsigned e)"

definition pam_json :: "pam_event \<Rightarrow> bool" where
  "pam_json e = list_all (\<lambda>p. json_value (snd p)) (pe_details e)"

abbreviation pam_linked :: "(string \<Rightarrow> string) \<Rightarrow> string option \<Rightarrow> pam_event list \<Rightarrow> bool" where
  "pam_linked H \<equiv> linked pe_previousHash pe_hash (H \<circ> pam_body)"

lemma pam_unsigned_json: "pam_json e \<Longrightarrow> json_value (pam_unsigned e)"
  by (simp add: pam_json_def pam_unsigned_def list_all_iff)

lemma map_JStr_inj: "map JStr xs = map JStr ys \<longleftrightarrow> xs = ys"
  by (rule inj_map_eq_map) (simp add: inj_def)

lemma pam_body_fields:
  assumes "pam_json x" "pam_json y" "pam_body x = pam_body y"
  shows "x\<lparr>pe_hash := h\<rparr> = y\<lparr>pe_hash := h\<rparr>"
proof -
  have "pam_unsigned x = pam_unsigned y"
    using assms pam_unsigned_json json_stringify_inj by (simp add: pam_body_def)
  then show ?thesis by (simp add: pam_unsigned_def map_JStr_inj)
qed

interpretation pam: sequenced_chain pe_previousHash pe_hash pam_body pam_json "\<lambda>e. e" pe_sequence
proof unfold_locales
  fix x y assume A: "pam_json x" "pam_json y" "pam_body x = pam_body y"
  note fields = pam_body_fields [OF A]
  show "pe_previousHash x = pe_previousHash y" "pe_sequence x = pe_sequence y"
    using fields [of "[]"] by (metis pam_event.ext_inject pam_event.surjective pam_event.update_convs(13))+
  assume "pe_hash x = pe_hash y"
  then show "x = y" using fields [of "pe_hash y"] by (cases x; cases y) simp
qed

lemma pam_first_broken_None:
  "pam_first_broken H n p es = None \<longleftrightarrow> pam_linked H p es \<and> numbered pe_sequence n es"
  by (induction es arbitrary: n p) (auto simp: pam_digest_def pam_body_def)

definition chain_ok :: "(string \<Rightarrow> string) \<Rightarrow> pam_snapshot \<Rightarrow> bool" where
  "chain_ok H s = (pam_linked H (an_hash (ps_anchor s)) (ps_events s)
     \<and> numbered pe_sequence (an_sequence (ps_anchor s)) (ps_events s)
     \<and> an_sequence (ps_anchor s) + length (ps_events s) = ps_eventSequence s)"

lemma pam_verify_chain: "pw_valid (pam_verify_events H s) \<longleftrightarrow> chain_ok H s"
  using pam_first_broken_None [of H "an_sequence (ps_anchor s)" "an_hash (ps_anchor s)" "ps_events s"]
  by (auto simp: pam_verify_events_def chain_ok_def split: option.split)

lemma pam_verify_head:
  "chain_ok H s \<Longrightarrow> pw_headHash (pam_verify_events H s) = head_hash pe_hash (an_hash (ps_anchor s)) (ps_events s)"
  using pam_first_broken_None [of H "an_sequence (ps_anchor s)" "an_hash (ps_anchor s)" "ps_events s"]
  by (auto simp: pam_verify_events_def chain_ok_def split: option.split)

subsection \<open>Steps on a snapshot\<close>

text \<open>\<open>grows H s s'\<close>: the log of \<open>s'\<close> is that of \<open>s\<close> with JSON events appended, still a chain.\<close>

definition grows :: "(string \<Rightarrow> string) \<Rightarrow> pam_snapshot \<Rightarrow> pam_snapshot \<Rightarrow> bool" where
  "grows H s s' = (ps_anchor s' = ps_anchor s \<and> (chain_ok H s \<longrightarrow> chain_ok H s')
     \<and> (\<exists>es. ps_events s' = ps_events s @ es \<and> list_all pam_json es))"

lemma grows_refl [simp]: "grows H s s"
  by (simp add: grows_def)

lemma grows_trans: "grows H s s' \<Longrightarrow> grows H s' s'' \<Longrightarrow> grows H s s''"
  by (auto simp: grows_def)

lemma record_event_requests [simp]:
  "ps_requests (record_event H uu ts a pb item ds s) = ps_requests s"
  "ps_revision (record_event H uu ts a pb item ds s) = ps_revision s"
  by (simp_all add: record_event_def Let_def)

lemma put_request_simps [simp]:
  "ps_requests (put_request item s) = put_assoc (pq_id item) item (ps_requests s)"
  "ps_anchor (put_request item s) = ps_anchor s" "ps_events (put_request item s) = ps_events s"
  "ps_eventSequence (put_request item s) = ps_eventSequence s"
  by (simp_all add: put_request_def)

lemma record_event_grows:
  "list_all (\<lambda>p. json_value (snd p)) ds \<Longrightarrow> grows H s (record_event H uu ts a pb item ds s)"
  by (auto simp: grows_def record_event_def Let_def pam_event_of_def chain_ok_def pam_digest_def
      pam_body_def pam_unsigned_def pam_json_def)

lemma put_request_grows [simp]: "grows H s (put_request item s)"
  by (simp add: grows_def chain_ok_def)

lemma put_record_grows:
  "list_all (\<lambda>p. json_value (snd p)) ds \<Longrightarrow> grows H s (record_event H uu ts a pb item ds (put_request item' s))"
  by (blast intro: grows_trans put_request_grows record_event_grows)

lemma prune_simps [simp]:
  "ps_anchor (prune cfg ts s) = ps_anchor s" "ps_events (prune cfg ts s) = ps_events s"
  "ps_eventSequence (prune cfg ts s) = ps_eventSequence s"
  by (simp_all add: prune_def)

lemma prune_grows [simp]: "grows H s (prune cfg ts s)"
  by (simp add: grows_def chain_ok_def)

lemma expire_one_grows: "grows H s (expire_one H uu ts k s)"
  by (auto simp: expire_one_def Let_def split: option.split intro: put_record_grows)

lemma fold_expire_grows: "grows H s (fold (expire_one H uu ts) ks s)"
  by (induction ks arbitrary: s) (auto intro: grows_trans expire_one_grows)

lemma expire_grows: "grows H s (expire H uu ts s)"
  by (simp add: expire_def fold_expire_grows)

lemma put_assoc_twice [simp]: "put_assoc k v (put_assoc k w m) = put_assoc k v m"
  by (induction m) auto

lemma put_assoc_same: "map_of m k = Some v \<Longrightarrow> put_assoc k v m = m"
  by (induction m) (auto split: if_splits)

lemma trim_chain:
  assumes "chain_ok H s"
  shows "chain_ok H (trim_events cfg ts s)"
proof (cases "length (ps_events s) \<le> cf_eventRetention cfg")
  case False
  let ?n = "length (ps_events s) - cf_eventRetention cfg"
  have n: "0 < ?n" "?n \<le> length (ps_events s)" using False by simp_all
  have "pe_sequence (ps_events s ! (?n - 1)) = an_sequence (ps_anchor s) + ?n"
  proof -
    have "?n - 1 < length (ps_events s)" "Suc (an_sequence (ps_anchor s) + (?n - 1)) = an_sequence (ps_anchor s) + ?n"
      using n by simp_all
    then show ?thesis
      using numbered_nth [of pe_sequence "an_sequence (ps_anchor s)" "ps_events s" "?n - 1"] assms
      unfolding chain_ok_def by metis
  qed
  moreover have "pam_linked H (Some (pe_hash (ps_events s ! (?n - 1)))) (drop ?n (ps_events s))"
    using assms n by (intro linked_trim) (auto simp: chain_ok_def)
  moreover have "numbered pe_sequence (an_sequence (ps_anchor s) + ?n) (drop ?n (ps_events s))"
    using assms n by (intro numbered_drop) (auto simp: chain_ok_def)
  moreover have "an_sequence (ps_anchor s) + ?n + length (drop ?n (ps_events s)) = ps_eventSequence s"
    using assms n by (simp add: chain_ok_def)
  ultimately show ?thesis using False by (simp add: trim_events_def Let_def chain_ok_def)
qed (simp add: assms trim_events_def)

lemma trim_requests [simp]: "ps_requests (trim_events cfg ts s) = ps_requests s"
  by (simp add: trim_events_def Let_def)

lemma trim_length: "length (ps_events (trim_events cfg ts s)) \<le> cf_eventRetention cfg"
  by (simp add: trim_events_def Let_def)

lemma trim_json: "list_all pam_json (ps_events s) \<Longrightarrow> list_all pam_json (ps_events (trim_events cfg ts s))"
  by (auto simp: trim_events_def Let_def list_all_iff dest: in_set_dropD)

subsection \<open>The request invariant\<close>

text \<open>
  What holds of every stored request: its permissions are protected; it is active only once
  activated, and then expires a bounded time after its activation; unless it is an emergency
  grant, it was activated only with the configured number of approvals, by pairwise different
  subjects other than the requester's; an emergency grant was reviewed only by another subject.
\<close>

definition quorum :: "pam_config \<Rightarrow> pam_request \<Rightarrow> bool" where
  "quorum cfg i = (distinct (map ap_subject (pq_approvals i)) \<and> pq_subject i \<notin> set (map ap_subject (pq_approvals i))
     \<and> pq_approvalsRequired i = cf_approvalsRequired cfg
     \<and> (pq_activatedAt i \<noteq> None \<longrightarrow> cf_approvalsRequired cfg \<le> length (pq_approvals i)))"

definition req_ok :: "pam_config \<Rightarrow> pam_request \<Rightarrow> bool" where
  "req_ok cfg i = (set (pq_permissions i) \<subseteq> set (cf_protected cfg) \<and> 5 \<le> pq_durationMinutes i
     \<and> (pq_status i = ''active'' \<longrightarrow> pq_activatedAt i \<noteq> None)
     \<and> pq_expiresAt i = map_option (\<lambda>a. a + pq_durationMinutes i * 60000) (pq_activatedAt i)
     \<and> (\<forall>r. pq_postReview i = Some r \<longrightarrow> pv_reviewer r \<noteq> pq_subject i)
     \<and> (if pq_breakGlass i then pq_durationMinutes i \<le> cf_breakGlassMax cfg
        else pq_durationMinutes i \<le> cf_maxDuration cfg \<and> quorum cfg i))"

definition requests_ok :: "pam_config \<Rightarrow> (string \<times> pam_request) list \<Rightarrow> bool" where
  "requests_ok cfg m = (distinct (map fst m) \<and> (\<forall>(k, i) \<in> set m. k = pq_id i \<and> req_ok cfg i))"

definition snapshot_inv :: "(string \<Rightarrow> string) \<Rightarrow> pam_config \<Rightarrow> pam_snapshot \<Rightarrow> bool" where
  "snapshot_inv H cfg s = (chain_ok H s \<and> list_all pam_json (ps_events s) \<and> requests_ok cfg (ps_requests s))"

lemma requests_ok_put:
  "requests_ok cfg m \<Longrightarrow> req_ok cfg i \<Longrightarrow> requests_ok cfg (put_assoc (pq_id i) i m)"
  unfolding requests_ok_def by (auto simp: distinct_put_assoc set_put_assoc)

lemma requests_ok_filter: "requests_ok cfg m \<Longrightarrow> requests_ok cfg (filter P m)"
  by (auto simp: requests_ok_def distinct_map_filter)

lemma requests_ok_lookup: "requests_ok cfg m \<Longrightarrow> map_of m k = Some i \<Longrightarrow> pq_id i = k \<and> req_ok cfg i"
  by (auto simp: requests_ok_def dest!: map_of_SomeD)

lemma effective_status:
  "pq_status (effective i t) = (if pq_status i = ''pending'' \<and> past (pq_approvalExpiresAt i) t
     \<or> pq_status i = ''active'' \<and> past (pq_expiresAt i) t then ''expired'' else pq_status i)"
  by (simp add: effective_def Let_def)

lemma effective_same: "effective i t = i\<lparr>pq_status := pq_status (effective i t)\<rparr>"
  by (simp add: effective_def Let_def)

lemma effective_simps [simp]:
  "pq_id (effective i t) = pq_id i" "pq_subject (effective i t) = pq_subject i"
  "pq_tenantId (effective i t) = pq_tenantId i" "pq_permissions (effective i t) = pq_permissions i"
  "pq_breakGlass (effective i t) = pq_breakGlass i" "pq_postReview (effective i t) = pq_postReview i"
  "pq_expiresAt (effective i t) = pq_expiresAt i" "pq_activatedAt (effective i t) = pq_activatedAt i"
  "pq_closedAt (effective i t) = pq_closedAt i" "pq_approvals (effective i t) = pq_approvals i"
  "pq_durationMinutes (effective i t) = pq_durationMinutes i" "pq_version (effective i t) = pq_version i"
  by (simp_all add: effective_def Let_def)

text \<open>A change of status to anything but active keeps a request well-formed.\<close>

lemma req_ok_close:
  "req_ok cfg i \<Longrightarrow> st \<noteq> ''active'' \<Longrightarrow>
     req_ok cfg (i\<lparr>pq_status := st, pq_denial := d, pq_closedAt := c, pq_version := v\<rparr>)"
  by (simp add: req_ok_def quorum_def split: if_splits)

lemma req_ok_close': "req_ok cfg i \<Longrightarrow> st \<noteq> ''active'' \<Longrightarrow>
     req_ok cfg (i\<lparr>pq_status := st, pq_closedAt := c, pq_version := v\<rparr>)"
  by (simp add: req_ok_def quorum_def split: if_splits)

lemma expire_one_requests:
  assumes "requests_ok cfg (ps_requests s)"
  shows "requests_ok cfg (ps_requests (expire_one H uu ts k s))"
proof (cases "map_of (ps_requests s) k")
  case (Some i)
  have "pq_status (effective i ts) \<noteq> ''active''" if "pq_status (effective i ts) \<noteq> pq_status i"
    using that by (auto simp: effective_status split: if_splits)
  then show ?thesis
    using assms requests_ok_lookup [OF assms Some] Some req_ok_close' [of cfg i]
    by (auto simp: expire_one_def Let_def intro!: requests_ok_put [where i = "i\<lparr>pq_status := a, pq_closedAt := b, pq_version := c\<rparr>" for a b c, simplified])
qed (simp add: expire_one_def assms)

lemma expire_requests:
  "requests_ok cfg (ps_requests s) \<Longrightarrow> requests_ok cfg (ps_requests (expire H uu ts s))"
proof -
  have "requests_ok cfg (ps_requests s) \<Longrightarrow> requests_ok cfg (ps_requests (fold (expire_one H uu ts) ks s))" for ks
    by (induction ks arbitrary: s) (auto intro: expire_one_requests)
  then show "requests_ok cfg (ps_requests s) \<Longrightarrow> requests_ok cfg (ps_requests (expire H uu ts s))"
    by (simp add: expire_def)
qed

lemma grows_inv:
  "snapshot_inv H cfg s \<Longrightarrow> grows H s s' \<Longrightarrow> requests_ok cfg (ps_requests s') \<Longrightarrow> snapshot_inv H cfg s'"
  by (auto simp: snapshot_inv_def grows_def)

lemma prepared_inv:
  assumes "snapshot_inv H cfg s"
  shows "snapshot_inv H cfg (prune cfg ts (expire H uu ts s))"
proof (rule grows_inv [OF assms])
  show "grows H s (prune cfg ts (expire H uu ts s))"
    by (blast intro: grows_trans expire_grows prune_grows)
  have "requests_ok cfg (ps_requests (expire H uu ts s))"
    using assms by (simp add: snapshot_inv_def expire_requests)
  then show "requests_ok cfg (ps_requests (prune cfg ts (expire H uu ts s)))"
    by (simp add: prune_def requests_ok_filter)
qed

subsection \<open>What an operation does\<close>

text \<open>
  \<open>touches H s i s'\<close>: the operation stored request \<open>i\<close>, and appended events to the log.
\<close>

definition touches :: "(string \<Rightarrow> string) \<Rightarrow> pam_snapshot \<Rightarrow> pam_request \<Rightarrow> pam_snapshot \<Rightarrow> bool" where
  "touches H s i s' = (grows H s s' \<and> ps_requests s' = put_assoc (pq_id i) i (ps_requests s))"

lemma touches_record:
  "list_all (\<lambda>p. json_value (snd p)) ds \<Longrightarrow> touches H s i (record_event H uu ts a pb j ds (put_request i s))"
  by (simp add: touches_def put_record_grows)

lemma touches_again:
  "touches H s i s1 \<Longrightarrow> pq_id j = pq_id i \<Longrightarrow> list_all (\<lambda>p. json_value (snd p)) ds \<Longrightarrow>
     touches H s j (record_event H uu ts a pb k ds (put_request j s1))"
  by (auto simp: touches_def intro: grows_trans put_record_grows)

lemma touches_inv: "snapshot_inv H cfg s \<Longrightarrow> touches H s i s' \<Longrightarrow> req_ok cfg i \<Longrightarrow> snapshot_inv H cfg s'"
  by (rule grows_inv) (auto simp: touches_def snapshot_inv_def intro: requests_ok_put)

lemma find_request_Inr:
  "find_request s rid = Inr i \<Longrightarrow> map_of (ps_requests s) (js_String (js_or_nullish rid (JStr []))) = Some i"
  by (auto simp: find_request_def pam_request_id_def Let_def)

lemma check_version_Inr:
  "check_version i expected k = Inr y \<longleftrightarrow> js_Number expected = JInt (pq_version i) \<and> 1 \<le> pq_version i \<and> k = Inr y"
  by (auto simp: check_version_def split: jsval.split)

lemma check_tenant_Inr: "check_tenant i q k = Inr y \<longleftrightarrow> pq_tenantId i = pr_tenantId q \<and> k = Inr y"
  by (simp add: check_tenant_def)

lemma pam_subject_Inr: "pam_subject v = Inr s \<longleftrightarrow> s = js_trim v \<and> safe_ident ''._:-'' 1 255 (js_trim v)"
  by (auto simp: pam_subject_def Let_def)

lemmas op_guards = find_request_Inr check_version_Inr check_tenant_Inr pam_subject_Inr

lemma commit_change_Inr:
  assumes "commit_change H env q ctx a i ds s ts = Inr (s', r)" "list_all (\<lambda>p. json_value (snd p)) ds"
  shows "r = i \<and> touches H s i s'"
  using assms by (auto simp: commit_change_def intro: touches_record)

text \<open>A principal whose subject is trimmed, as those of the gateway are (\<open>gateway_canonical\<close>).\<close>

definition canonical :: "principal option \<Rightarrow> bool" where
  "canonical p = (case p of None \<Rightarrow> True | Some q \<Rightarrow> js_trim (pr_subject q) = pr_subject q)"

lemma request_op_Inr:
  assumes "request_op H cfg env q ctx perms dur reason tick s ts = Inr (s', r)"
  shows "touches H s r s'" and "r = new_request cfg (''PAM-'' @ en_requestUuid env) ts (js_trim (pr_subject q))
     (js_trim (pr_tenantId q)) (pr_role q) perms reason tick dur"
  using assms by (auto simp: request_op_def op_guards pam_identifier_def pam_role_def Let_def split: if_splits
      intro: touches_record)

lemma break_glass_op_Inr:
  assumes "break_glass_op H cfg env q ctx perms dur reason inc s ts = Inr (s', r)"
  shows "touches H s r s'" and "r = break_glass_request cfg (''PAM-'' @ en_requestUuid env) ts (js_trim (pr_subject q))
     (js_trim (pr_tenantId q)) (pr_role q) perms reason inc dur"
  using assms by (auto simp: break_glass_op_def op_guards pam_identifier_def pam_role_def Let_def split: if_splits
      dest!: commit_change_Inr)

lemma approve_op_Inr:
  assumes "approve_op H env q rid expected ctx comment s ts = Inr (s', r)"
  obtains i a where "find_request s rid = Inr i" "js_Number expected = JInt (pq_version i)"
    "pq_status (effective i ts) = ''pending''" "pq_subject i \<noteq> pr_subject q"
    "pr_subject q \<notin> set (map ap_subject (pq_approvals i))" "ap_subject a = js_trim (pr_subject q)"
    "r = (let i1 = i\<lparr>pq_approvals := pq_approvals i @ [a], pq_version := pq_version i + 1\<rparr> in
       if length (pq_approvals i1) \<ge> pq_approvalsRequired i1 then activated ts i1 else i1)"
    "touches H s r s'"
proof -
  obtain i role performedBy where g: "find_request s rid = Inr i" "js_Number expected = JInt (pq_version i)"
    "pq_status (effective i ts) = ''pending''" "pq_subject i \<noteq> pr_subject q"
    "pr_subject q \<notin> set (map ap_subject (pq_approvals i))"
    and role: "pam_role (pr_role q) = Inr role"
      "pam_actor (js_or_nullish ctx (JStr (pr_subject q))) = Inr performedBy"
    using assms by (auto simp: approve_op_def check_version_Inr check_tenant_Inr Let_def)
  define a where "a = \<lparr>ap_subject = js_trim (pr_subject q), ap_role = role, ap_approvedAt = ts, ap_comment = comment\<rparr>"
  define i1 where "i1 = i\<lparr>pq_approvals := pq_approvals i @ [a], pq_version := pq_version i + 1\<rparr>"
  define s1 where "s1 = record_event H (en_eventUuid env) ts ''privileged_access.approved'' performedBy i1
     [(''approver'', JStr (pr_subject q)), (''approvalCount'', JInt (int (length (pq_approvals i1))))] (put_request i1 s)"
  have s1: "touches H s i1 s1" unfolding s1_def by (rule touches_record) simp
  have "(s', r) = (if length (pq_approvals i1) \<ge> pq_approvalsRequired i1
      then (record_event H (en_eventUuid env) ts ''privileged_access.activated'' ''system:privileged-access'' (activated ts i1)
        [(''expiresAt'', JInt (the (pq_expiresAt (activated ts i1))))] (put_request (activated ts i1) s1), activated ts i1)
      else (s1, i1))"
    using assms g role unfolding approve_op_def
    by (auto simp: check_version_Inr check_tenant_Inr pam_subject_Inr Let_def a_def i1_def s1_def split: if_splits)
  then have "r = (if length (pq_approvals i1) \<ge> pq_approvalsRequired i1 then activated ts i1 else i1)"
    "touches H s r s'"
    using s1 touches_again [OF s1, of "activated ts i1"] by (auto split: if_splits simp: activated_def)
  with that [of i a] g show thesis by (simp add: i1_def a_def)
qed

lemma deny_op_Inr:
  assumes "deny_op H env q rid expected ctx reason s ts = Inr (s', r)"
  obtains i d where "find_request s rid = Inr i" "js_Number expected = JInt (pq_version i)" "touches H s r s'"
    "r = i\<lparr>pq_status := ''denied'', pq_denial := d, pq_closedAt := Some ts, pq_version := pq_version i + 1\<rparr>"
  using assms by (auto simp: deny_op_def check_version_Inr check_tenant_Inr dest!: commit_change_Inr)

lemma cancel_op_Inr:
  assumes "cancel_op H env q rid expected ctx reason s ts = Inr (s', r)"
  obtains i st where "find_request s rid = Inr i" "js_Number expected = JInt (pq_version i)" "touches H s r s'"
    "st \<noteq> ''active''" "r = i\<lparr>pq_status := st, pq_closedAt := Some ts, pq_version := pq_version i + 1\<rparr>"
proof -
  let ?st = "\<lambda>i. if pq_status (effective i ts) = ''active'' then ''revoked'' else ''cancelled''"
  obtain i where "find_request s rid = Inr i" "js_Number expected = JInt (pq_version i)" "touches H s r s'"
    "r = i\<lparr>pq_status := ?st i, pq_closedAt := Some ts, pq_version := pq_version i + 1\<rparr>"
    using assms by (auto simp: cancel_op_def check_version_Inr Let_def dest!: commit_change_Inr)
  then show thesis by (intro that [of i "?st i"]) simp_all
qed

lemma revoke_op_Inr:
  assumes "revoke_op H env q rid expected ctx reason s ts = Inr (s', r)"
  obtains i where "find_request s rid = Inr i" "js_Number expected = JInt (pq_version i)" "touches H s r s'"
    "r = i\<lparr>pq_status := ''revoked'', pq_closedAt := Some ts, pq_version := pq_version i + 1\<rparr>"
  using assms by (auto simp: revoke_op_def check_version_Inr check_tenant_Inr dest!: commit_change_Inr)

lemma review_op_Inr:
  assumes "review_op H env q rid expected ctx outcome reason s ts = Inr (s', r)"
  obtains i v where "find_request s rid = Inr i" "js_Number expected = JInt (pq_version i)" "touches H s r s'"
    "pq_breakGlass i" "pq_subject i \<noteq> pr_subject q" "pv_reviewer v = js_trim (pr_subject q)"
    "r = i\<lparr>pq_postReview := Some v, pq_version := pq_version i + 1\<rparr>"
proof -
  let ?v = "\<lparr>pv_reviewer = js_trim (pr_subject q), pv_reviewedAt = ts, pv_outcome = outcome, pv_reason = reason\<rparr>"
  obtain i where "find_request s rid = Inr i" "js_Number expected = JInt (pq_version i)" "touches H s r s'"
    "pq_breakGlass i" "pq_subject i \<noteq> pr_subject q"
    "r = i\<lparr>pq_postReview := Some ?v, pq_version := pq_version i + 1\<rparr>"
    using assms by (auto simp: review_op_def check_version_Inr check_tenant_Inr pam_subject_Inr dest!: commit_change_Inr)
  then show thesis by (intro that [of i ?v]) simp_all
qed

lemma find_request_ok: "snapshot_inv H cfg s \<Longrightarrow> find_request s rid = Inr i \<Longrightarrow> req_ok cfg i"
  using find_request_Inr requests_ok_lookup by (fastforce simp: snapshot_inv_def)

subsection \<open>Commands\<close>

datatype pam_command =
    RequestAccess jsval
  | Approve jsval jsval
  | Deny jsval jsval
  | Cancel jsval jsval
  | Revoke jsval jsval
  | BreakGlass jsval
  | PostReview jsval jsval

fun run_command ::
  "(string \<Rightarrow> string) \<Rightarrow> pam_config \<Rightarrow> pam_env \<Rightarrow> pam_command \<Rightarrow> principal option \<Rightarrow> jsval \<Rightarrow> pam_file \<Rightarrow> pam_file \<times> (pam_error + pam_request)" where
  "run_command H cfg env (RequestAccess input) p ctx f = request_access H cfg env p input ctx f"
| "run_command H cfg env (Approve rid input) p ctx f = approve H cfg env rid p input ctx f"
| "run_command H cfg env (Deny rid input) p ctx f = deny H cfg env rid p input ctx f"
| "run_command H cfg env (Cancel rid input) p ctx f = cancel H cfg env rid p input ctx f"
| "run_command H cfg env (Revoke rid input) p ctx f = revoke H cfg env rid p input ctx f"
| "run_command H cfg env (BreakGlass input) p ctx f = activate_break_glass H cfg env p input ctx f"
| "run_command H cfg env (PostReview rid input) p ctx f = complete_post_review H cfg env rid p input ctx f"

text \<open>Every command is refused by its guards, or is one \<open>mutate\<close> of its operation.\<close>

inductive command_op ::
  "(string \<Rightarrow> string) \<Rightarrow> pam_config \<Rightarrow> pam_env \<Rightarrow> principal \<Rightarrow> jsval \<Rightarrow> pam_command
     \<Rightarrow> (pam_snapshot \<Rightarrow> int \<Rightarrow> pam_error + pam_snapshot \<times> pam_request) \<Rightarrow> bool" for H cfg env q ctx where
  op_request: "set perms \<subseteq> set (cf_protected cfg) \<Longrightarrow> 5 \<le> dur \<Longrightarrow> dur \<le> cf_maxDuration cfg \<Longrightarrow>
     command_op H cfg env q ctx (RequestAccess input) (request_op H cfg env q ctx perms dur reason tick)"
| op_approve: "command_op H cfg env q ctx (Approve rid input) (approve_op H env q rid (js_get input ''expectedVersion'') ctx comment)"
| op_deny: "command_op H cfg env q ctx (Deny rid input) (deny_op H env q rid (js_get input ''expectedVersion'') ctx reason)"
| op_cancel: "command_op H cfg env q ctx (Cancel rid input) (cancel_op H env q rid (js_get input ''expectedVersion'') ctx reason)"
| op_revoke: "command_op H cfg env q ctx (Revoke rid input) (revoke_op H env q rid (js_get input ''expectedVersion'') ctx reason)"
| op_break_glass: "set perms \<subseteq> set (cf_protected cfg) \<Longrightarrow> 5 \<le> dur \<Longrightarrow> dur \<le> cf_breakGlassMax cfg \<Longrightarrow>
     command_op H cfg env q ctx (BreakGlass input) (break_glass_op H cfg env q ctx perms dur reason inc)"
| op_review: "command_op H cfg env q ctx (PostReview rid input) (review_op H env q rid (js_get input ''expectedVersion'') ctx outcome reason)"

inductive_cases approve_opE: "command_op H cfg env q ctx (Approve rid input) op"

lemma eligible_Inr: "eligible cfg p f = Inr q \<Longrightarrow> p = Some q"
  by (auto simp: eligible_def split: option.splits if_splits)

lemma manage_Inr: "manage p x = Inr q \<Longrightarrow> p = Some q \<and> x \<in> set (pr_permissions q)"
  by (auto simp: manage_def split: option.splits)

lemma check_requested_None: "check_requested a b ps = None \<longleftrightarrow> set ps \<subseteq> set a \<and> set ps \<subseteq> set b"
  by (induction ps) auto

lemma requested_Inr: "requested v a b = Inr ps \<Longrightarrow> set ps \<subseteq> set a \<and> set ps \<subseteq> set b"
  by (auto simp: requested_def check_requested_None split: option.splits)

lemma pam_integer_Inr: "pam_integer v f lo hi = Inr n \<Longrightarrow> lo \<le> n \<and> n \<le> hi"
  by (auto simp: pam_integer_def dest: int_in_Some)

lemma run_command_cases:
  obtains e where "run_command H cfg env cmd p ctx f = (f, Inl e)"
  | q op where "p = Some q" "command_op H cfg env q ctx cmd op" "run_command H cfg env cmd p ctx f = pam_mutate H cfg env op f"
proof -
  have "(\<exists>e. run_command H cfg env cmd p ctx f = (f, Inl e))
    \<or> (\<exists>q op. p = Some q \<and> command_op H cfg env q ctx cmd op \<and> run_command H cfg env cmd p ctx f = pam_mutate H cfg env op f)"
  proof (cases cmd)
    case (RequestAccess input)
    then show ?thesis
      by (simp add: request_access_def split: sum.split)
        (auto dest!: eligible_Inr requested_Inr pam_integer_Inr, metis op_request)
  next
    case (BreakGlass input)
    then show ?thesis
      by (simp add: activate_break_glass_def split: sum.split)
        (auto dest!: eligible_Inr requested_Inr pam_integer_Inr, metis op_break_glass)
  next
    case (Approve rid input)
    then show ?thesis
      by (simp add: approve_def split: sum.split) (auto dest!: eligible_Inr intro!: op_approve)
  next
    case (Deny rid input)
    then show ?thesis
      by (simp add: deny_def split: sum.split) (auto dest!: eligible_Inr intro!: op_deny)
  next
    case (Cancel rid input)
    then show ?thesis
      by (simp add: cancel_def split: sum.split) (auto dest!: manage_Inr intro!: op_cancel)
  next
    case (Revoke rid input)
    then show ?thesis
      by (simp add: revoke_def split: sum.split) (auto dest!: eligible_Inr intro!: op_revoke)
  next
    case (PostReview rid input)
    then show ?thesis
      by (simp add: complete_post_review_def Let_def split: sum.split) (auto dest!: eligible_Inr intro!: op_review)
  qed
  then show thesis using that by blast
qed

lemma command_op_touches: "command_op H cfg env q ctx cmd op \<Longrightarrow> op s ts = Inr (s', r) \<Longrightarrow> touches H s r s'"
  by (induction rule: command_op.induct)
    (auto dest: request_op_Inr break_glass_op_Inr elim: approve_op_Inr deny_op_Inr cancel_op_Inr revoke_op_Inr review_op_Inr)

lemma activated_ok:
  "req_ok cfg i \<Longrightarrow> pq_breakGlass i \<or> quorum cfg i \<and> cf_approvalsRequired cfg \<le> length (pq_approvals i) \<Longrightarrow>
     req_ok cfg (activated ts i)"
  by (auto simp: req_ok_def activated_def quorum_def split: if_splits)

lemma approved_ok:
  assumes "req_ok cfg i" "pq_status i = ''pending''" "pq_subject i \<noteq> ap_subject a"
    "ap_subject a \<notin> set (map ap_subject (pq_approvals i))"
  shows "req_ok cfg (let i1 = i\<lparr>pq_approvals := pq_approvals i @ [a], pq_version := pq_version i + 1\<rparr> in
       if length (pq_approvals i1) \<ge> pq_approvalsRequired i1 then activated ts i1 else i1)"
proof -
  let ?i1 = "i\<lparr>pq_approvals := pq_approvals i @ [a], pq_version := pq_version i + 1\<rparr>"
  have i1: "req_ok cfg ?i1" "pq_breakGlass ?i1 \<or> quorum cfg ?i1"
    using assms by (auto simp: req_ok_def quorum_def split: if_splits)
  moreover have "req_ok cfg (activated ts ?i1)" if "pq_approvalsRequired ?i1 \<le> length (pq_approvals ?i1)"
    using that i1 by (intro activated_ok) (auto simp: quorum_def)
  ultimately show ?thesis by (simp add: Let_def)
qed

lemma pending_status: "pq_status (effective i ts) = ''pending'' \<Longrightarrow> pq_status i = ''pending''"
  by (simp add: effective_status split: if_splits)

lemma command_op_ok:
  assumes "command_op H cfg env q ctx cmd op" "canonical (Some q)" "snapshot_inv H cfg s" "op s ts = Inr (s', r)"
  shows "req_ok cfg r"
  using assms
proof (induction rule: command_op.induct)
  case (op_request perms dur input reason tick)
  then show ?case by (auto dest!: request_op_Inr(2) simp: new_request_def req_ok_def quorum_def)
next
  case (op_break_glass perms dur input reason inc)
  then show ?case by (auto dest!: break_glass_op_Inr(2) simp: break_glass_request_def req_ok_def)
next
  case (op_approve rid input comment)
  from op_approve(3) show ?case
  proof (rule approve_op_Inr)
    fix i a assume "find_request s rid = Inr i" "pq_status (effective i ts) = ''pending''" "pq_subject i \<noteq> pr_subject q"
      "pr_subject q \<notin> set (map ap_subject (pq_approvals i))" "ap_subject a = js_trim (pr_subject q)"
      and r: "r = (let i1 = i\<lparr>pq_approvals := pq_approvals i @ [a], pq_version := pq_version i + 1\<rparr> in
         if length (pq_approvals i1) \<ge> pq_approvalsRequired i1 then activated ts i1 else i1)"
    then show ?thesis unfolding r
      using op_approve find_request_ok pending_status by (intro approved_ok) (auto simp: canonical_def)
  qed
next
  case (op_deny rid input reason)
  then show ?case by (elim deny_op_Inr) (use find_request_ok in \<open>auto intro!: req_ok_close\<close>)
next
  case (op_cancel rid input reason)
  then show ?case by (elim cancel_op_Inr) (use find_request_ok in \<open>auto intro!: req_ok_close'\<close>)
next
  case (op_revoke rid input reason)
  then show ?case by (elim revoke_op_Inr) (use find_request_ok in \<open>auto intro!: req_ok_close'\<close>)
next
  case (op_review rid input outcome reason)
  from op_review(3) show ?case
  proof (rule review_op_Inr)
    fix i v assume "find_request s rid = Inr i" "pq_breakGlass i" "pq_subject i \<noteq> pr_subject q"
      "pv_reviewer v = js_trim (pr_subject q)" "r = i\<lparr>pq_postReview := Some v, pq_version := pq_version i + 1\<rparr>"
    then show ?thesis
      using op_review find_request_ok [of H cfg s rid i] by (auto simp: canonical_def req_ok_def)
  qed
qed

lemma command_op_inv:
  "command_op H cfg env q ctx cmd op \<Longrightarrow> canonical (Some q) \<Longrightarrow> snapshot_inv H cfg s \<Longrightarrow> op s ts = Inr (s', r) \<Longrightarrow>
     snapshot_inv H cfg s'"
  by (rule touches_inv [OF _ command_op_touches command_op_ok])

lemma pam_mutate_cases:
  obtains e where "pam_mutate H cfg env op f = (f, Inl e)"
  | s0 s2 r res where "pam_read H env f = Inr s0"
      "op (prune cfg (en_now env) (expire H (en_eventUuid env) (en_now env) s0)) (en_now env) = Inr (s2, r)"
      "pam_mutate H cfg env op f
        = (Sealed (trim_events cfg (en_now env) (s2\<lparr>ps_updatedAt := en_now env, ps_revision := ps_revision s2 + 1\<rparr>)), res)"
      "res = Inr r \<or> res = Inl StoreUnavailable \<and> en_write env = Unsynced"
proof (cases "pam_read H env f")
  case (Inl e)
  then show thesis by (intro that(1)) (simp add: pam_mutate_def)
next
  case (Inr s0)
  let ?s1 = "prune cfg (en_now env) (expire H (en_eventUuid env) (en_now env) s0)"
  show thesis
  proof (cases "op ?s1 (en_now env)")
    case (Inl e)
    with Inr show thesis by (intro that(1)) (simp add: pam_mutate_def Let_def)
  next
    case (Inr v)
    obtain s2 r where v: "v = (s2, r)" by fastforce
    show thesis
    proof (cases "en_write env")
      case Committed
      with Inr \<open>pam_read H env f = Inr s0\<close> v show thesis by (intro that(2) [of s0 s2 r "Inr r"]) (simp_all add: pam_mutate_def Let_def)
    next
      case NotWritten
      with Inr \<open>pam_read H env f = Inr s0\<close> v show thesis by (intro that(1)) (simp add: pam_mutate_def Let_def)
    next
      case Unsynced
      with Inr \<open>pam_read H env f = Inr s0\<close> v show thesis
        by (intro that(2) [of s0 s2 r "Inl StoreUnavailable"]) (simp_all add: pam_mutate_def Let_def)
    qed
  qed
qed

lemma snapshot_inv_update [simp]:
  "snapshot_inv H cfg (s\<lparr>ps_updatedAt := a, ps_revision := b\<rparr>) = snapshot_inv H cfg s"
  by (simp add: snapshot_inv_def chain_ok_def)

lemma trim_inv: "snapshot_inv H cfg s \<Longrightarrow> snapshot_inv H cfg (trim_events cfg ts s)"
  by (simp add: snapshot_inv_def trim_chain trim_json)

definition pam_inv :: "(string \<Rightarrow> string) \<Rightarrow> pam_config \<Rightarrow> pam_file \<Rightarrow> bool" where
  "pam_inv H cfg f = (case f of Missing \<Rightarrow> True | Unreadable \<Rightarrow> False
     | Sealed s \<Rightarrow> snapshot_inv H cfg s \<and> length (ps_events s) \<le> cf_eventRetention cfg)"

lemma empty_inv: "snapshot_inv H cfg (empty_snapshot now)"
  by (simp add: snapshot_inv_def empty_snapshot_def chain_ok_def requests_ok_def)

lemma pam_read_inv: "pam_inv H cfg f \<Longrightarrow> pam_read H env f = Inr s \<Longrightarrow> snapshot_inv H cfg s"
  by (auto simp: pam_read_def read_unlocked_def pam_inv_def empty_inv split: pam_file.splits)

lemma run_command_inv:
  assumes "canonical p" "pam_inv H cfg f"
  shows "pam_inv H cfg (fst (run_command H cfg env cmd p ctx f))"
proof (cases rule: run_command_cases [of H cfg env cmd p ctx f])
  case (2 q op)
  show ?thesis
  proof (cases rule: pam_mutate_cases [of H cfg env op f])
    case (2 s0 s2 r res)
    have "snapshot_inv H cfg s2"
      using command_op_inv [OF \<open>command_op H cfg env q ctx cmd op\<close> _ prepared_inv 2(2)] pam_read_inv [OF assms(2) 2(1)]
        assms(1) \<open>p = Some q\<close> by simp
    then show ?thesis
      using 2(3) \<open>run_command H cfg env cmd p ctx f = pam_mutate H cfg env op f\<close>
      by (simp add: pam_inv_def trim_inv trim_length)
  qed (use 2 assms in simp)
qed (use assms in simp)

subsection \<open>Reachable files\<close>

text \<open>The files that commands of principals with trimmed subjects leave.\<close>

inductive pam_reachable :: "(string \<Rightarrow> string) \<Rightarrow> pam_config \<Rightarrow> pam_file \<Rightarrow> bool" for H cfg where
  pam_start: "pam_reachable H cfg Missing"
| pam_step: "pam_reachable H cfg f \<Longrightarrow> canonical p \<Longrightarrow> pam_reachable H cfg (fst (run_command H cfg env cmd p ctx f))"

lemma pam_reachable_inv: "pam_reachable H cfg f \<Longrightarrow> pam_inv H cfg f"
proof (induction rule: pam_reachable.induct)
  case pam_start
  show ?case by (simp add: pam_inv_def)
next
  case (pam_step f p env cmd ctx)
  then show ?case by (simp add: run_command_inv)
qed

subsection \<open>Versions, and what a step keeps\<close>

definition request_key :: "jsval \<Rightarrow> string" where
  "request_key rid = js_String (js_or_nullish rid (JStr []))"

fun command_target :: "pam_command \<Rightarrow> (string \<times> jsval) option" where
  "command_target (Approve rid input) = Some (request_key rid, js_get input ''expectedVersion'')"
| "command_target (Deny rid input) = Some (request_key rid, js_get input ''expectedVersion'')"
| "command_target (Cancel rid input) = Some (request_key rid, js_get input ''expectedVersion'')"
| "command_target (Revoke rid input) = Some (request_key rid, js_get input ''expectedVersion'')"
| "command_target (PostReview rid input) = Some (request_key rid, js_get input ''expectedVersion'')"
| "command_target _ = None"

text \<open>\<open>succeeds i r\<close>: \<open>r\<close> is the next version of the same request.\<close>

definition succeeds :: "pam_request \<Rightarrow> pam_request \<Rightarrow> bool" where
  "succeeds i r = (pq_id r = pq_id i \<and> pq_version r = pq_version i + 1 \<and> pq_breakGlass r = pq_breakGlass i)"

lemma command_op_target:
  "command_op H cfg env q ctx cmd op \<Longrightarrow> op s ts = Inr (s', r) \<Longrightarrow> command_target cmd = Some (k, v) \<Longrightarrow>
     \<exists>i. map_of (ps_requests s) k = Some i \<and> js_Number v = JInt (pq_version i) \<and> succeeds i r"
  by (induction rule: command_op.induct)
    (auto elim!: approve_op_Inr deny_op_Inr cancel_op_Inr revoke_op_Inr review_op_Inr dest!: find_request_Inr
      simp: request_key_def succeeds_def activated_def Let_def)

lemma command_op_fresh:
  "command_op H cfg env q ctx cmd op \<Longrightarrow> op s ts = Inr (s', r) \<Longrightarrow> command_target cmd = None \<Longrightarrow>
     pq_id r = ''PAM-'' @ en_requestUuid env"
  by (induction rule: command_op.induct)
    (auto dest!: request_op_Inr(2) break_glass_op_Inr(2) simp: new_request_def break_glass_request_def)

text \<open>Expiry only raises versions; pruning only removes.\<close>

definition later :: "pam_request \<Rightarrow> pam_request \<Rightarrow> bool" where
  "later i j = (pq_version i \<le> pq_version j \<and> pq_breakGlass j = pq_breakGlass i \<and> pq_postReview j = pq_postReview i)"

definition ages :: "pam_snapshot \<Rightarrow> pam_snapshot \<Rightarrow> bool" where
  "ages s s' = (map fst (ps_requests s') = map fst (ps_requests s)
     \<and> (\<forall>k j. map_of (ps_requests s') k = Some j \<longrightarrow> (\<exists>i. map_of (ps_requests s) k = Some i \<and> later i j)))"

lemma later_trans: "later i j \<Longrightarrow> later j k \<Longrightarrow> later i k"
  by (simp add: later_def)

lemma ages_trans: "ages s s' \<Longrightarrow> ages s' s'' \<Longrightarrow> ages s s''"
  unfolding ages_def using later_trans by fastforce

lemma expire_one_ages:
  assumes "requests_ok cfg (ps_requests s)"
  shows "ages s (expire_one H uu ts k s)"
proof (cases "map_of (ps_requests s) k")
  case (Some i)
  have "pq_id i = k" using requests_ok_lookup [OF assms Some] by simp
  moreover have "k \<in> set (map fst (ps_requests s))" using Some by (force dest: map_of_SomeD)
  ultimately show ?thesis
    using Some by (auto simp: ages_def expire_one_def later_def Let_def map_fst_put_assoc)
qed (simp add: ages_def expire_one_def later_def)

lemma expire_ages:
  assumes "requests_ok cfg (ps_requests s)"
  shows "ages s (expire H uu ts s)"
proof -
  have "requests_ok cfg (ps_requests s) \<Longrightarrow> ages s (fold (expire_one H uu ts) ks s)" for ks
  proof (induction ks arbitrary: s)
    case Nil
    show ?case by (simp add: ages_def later_def)
  next
    case (Cons k ks)
    have "ages s (expire_one H uu ts k s)" by (rule expire_one_ages [OF Cons.prems])
    moreover have "ages (expire_one H uu ts k s) (fold (expire_one H uu ts) ks (expire_one H uu ts k s))"
      by (rule Cons.IH [OF expire_one_requests [OF Cons.prems]])
    ultimately show ?case by (simp add: ages_trans)
  qed
  then show ?thesis using assms by (simp add: expire_def)
qed

lemma map_of_filter:
  "distinct (map fst m) \<Longrightarrow> map_of (filter (\<lambda>p. P (snd p)) m) k = Some v \<longleftrightarrow> map_of m k = Some v \<and> P v"
proof -
  assume d: "distinct (map fst m)"
  then have "distinct (map fst (filter (\<lambda>p. P (snd p)) m))" by (rule distinct_map_filter)
  then show ?thesis using d by (simp add: map_of_eq_Some_iff)
qed

lemma prune_lookup:
  "requests_ok cfg (ps_requests s) \<Longrightarrow>
     map_of (ps_requests (prune cfg ts s)) k = Some j \<longleftrightarrow> map_of (ps_requests s) k = Some j \<and> \<not> prunable cfg ts j"
  by (simp add: prune_def map_of_filter [where P = "\<lambda>i. \<not> prunable cfg ts i"] requests_ok_def)

lemma prepared_lookup:
  assumes "snapshot_inv H cfg s" "map_of (ps_requests (prune cfg ts (expire H uu ts s))) k = Some j"
  shows "\<exists>i. map_of (ps_requests s) k = Some i \<and> later i j"
proof -
  have ok: "requests_ok cfg (ps_requests s)" using assms(1) by (simp add: snapshot_inv_def)
  then have "map_of (ps_requests (expire H uu ts s)) k = Some j"
    using assms(2) prune_lookup [OF expire_requests [OF ok]] by blast
  then show ?thesis using expire_ages [OF ok] unfolding ages_def by blast
qed

lemma prepared_keeps:
  assumes "snapshot_inv H cfg s" "map_of (ps_requests s) k = Some i" "pq_breakGlass i" "pq_postReview i = None"
  shows "\<exists>j. map_of (ps_requests (prune cfg ts (expire H uu ts s))) k = Some j \<and> pq_breakGlass j"
proof -
  have ok: "requests_ok cfg (ps_requests s)" using assms(1) by (simp add: snapshot_inv_def)
  note ages = expire_ages [OF ok, of H uu ts]
  have "k \<in> set (map fst (ps_requests (expire H uu ts s)))"
    using ages assms(2) by (force simp: ages_def dest: map_of_SomeD)
  then obtain j where j: "map_of (ps_requests (expire H uu ts s)) k = Some j"
    by (metis map_of_eq_None_iff not_None_eq set_map)
  then have "later i j" using ages assms(2) unfolding ages_def by fastforce
  then show ?thesis
    using j assms(3,4) prune_lookup [OF expire_requests [OF ok, of H uu ts], where ts = ts and k = k and j = j]
    by (auto simp: later_def prunable_def Let_def)
qed

lemma run_command_Inr:
  assumes "run_command H cfg env cmd p ctx f = (f', Inr r)"
  obtains q op s0 s2 where "p = Some q" "command_op H cfg env q ctx cmd op" "pam_read H env f = Inr s0"
    "op (prune cfg (en_now env) (expire H (en_eventUuid env) (en_now env) s0)) (en_now env) = Inr (s2, r)"
    "f' = Sealed (trim_events cfg (en_now env) (s2\<lparr>ps_updatedAt := en_now env, ps_revision := ps_revision s2 + 1\<rparr>))"
proof (cases rule: run_command_cases [of H cfg env cmd p ctx f])
  case (2 q op)
  show ?thesis
    by (cases rule: pam_mutate_cases [of H cfg env op f]) (use 2 assms that in auto)
qed (use assms in simp)

text \<open>A successful command returns the request that is then stored.\<close>

lemma run_command_stored:
  assumes "run_command H cfg env cmd p ctx f = (f', Inr r)"
  shows "\<exists>s. f' = Sealed s \<and> map_of (ps_requests s) (pq_id r) = Some r"
  using assms
proof (rule run_command_Inr)
  fix q op s0 s2
  assume "command_op H cfg env q ctx cmd op"
    "op (prune cfg (en_now env) (expire H (en_eventUuid env) (en_now env) s0)) (en_now env) = Inr (s2, r)"
    "f' = Sealed (trim_events cfg (en_now env) (s2\<lparr>ps_updatedAt := en_now env, ps_revision := ps_revision s2 + 1\<rparr>))"
  then show ?thesis using command_op_touches [of H cfg env q ctx cmd op _ _ s2 r] by (auto simp: touches_def)
qed

subsection \<open>A sample run\<close>

definition sample_options :: jsval where
  "sample_options = JObj [(''mode'', JStr ''enforce''), (''eventRetention'', JInt 100), (''breakGlassEnabled'', JBool True)]"

definition sample_cfg :: pam_config where
  "sample_cfg = \<lparr>cf_mode = Enforce, cf_protected = [''backup:restore'', ''resilience:run'', ''security:read''],
     cf_approvalsRequired = 2, cf_approvalWindowMs = 86400000, cf_maxDuration = 120, cf_breakGlassEnabled = True,
     cf_breakGlassMax = 15, cf_reviewMs = 86400000, cf_requiredAmr = [''mfa''], cf_requiredAcr = [],
     cf_allowApiKey = False, cf_eventRetention = 100, cf_requestRetentionMs = 31536000000\<rparr>"

lemma sample_cfg_made: "make_pam_config sample_options = Inr sample_cfg"
  by code_simp

definition person :: "string \<Rightarrow> principal" where
  "person name = \<lparr>pr_subject = name, pr_tenantId = ''acme'', pr_role = ''compliance_admin'',
     pr_permissions = [''security:read'', ''privileged:request'', ''privileged:approve'', ''privileged:break_glass''],
     pr_keyId = ''k'', pr_authMethod = Some ''oidc'',
     pr_amr = [''mfa''], pr_acr = [], pr_externalSubjectHash = [], pr_credentialStatus = [],
     pr_credentialExpiresAt = None, pr_rotationRequired = False\<rparr>"

definition sample_env :: "int \<Rightarrow> pam_env" where
  "sample_env now = \<lparr>en_now = now, en_lock = True, en_write = Committed,
     en_requestUuid = replicate 36 (CHR ''0''), en_eventUuid = (\<lambda>n. ''u'')\<rparr>"

definition sample_id :: string where
  "sample_id = ''PAM-000000000000000000000000000000000000''"

definition ask :: jsval where
  "ask = JObj [(''permissions'', JArr [JStr ''security:read'']), (''durationMinutes'', JInt 5),
     (''reason'', JStr ''investigate the alert''), (''ticketRef'', JStr ''T-1'')]"

definition agree :: "int \<Rightarrow> jsval" where
  "agree v = JObj [(''comment'', JStr ''reviewed it''), (''expectedVersion'', JInt v)]"

definition digest1 :: "string \<Rightarrow> string" where
  "digest1 s = ''a''"

definition sample_request :: "string \<Rightarrow> approval list \<Rightarrow> int option \<Rightarrow> int \<Rightarrow> pam_request" where
  "sample_request status approvals at version = \<lparr>pq_id = sample_id, pq_subject = ''ann'', pq_tenantId = ''acme'',
     pq_requesterRole = ''compliance_admin'', pq_permissions = [''security:read''],
     pq_reason = ''investigate the alert'', pq_ticketRef = ''T-1'', pq_durationMinutes = 5, pq_status = status,
     pq_breakGlass = False, pq_approvalsRequired = 2, pq_approvals = approvals, pq_denial = None,
     pq_requestedAt = 10, pq_approvalExpiresAt = Some 86400010, pq_activatedAt = at,
     pq_expiresAt = map_option (\<lambda>a. a + 300000) at, pq_closedAt = None, pq_postReviewBy = None,
     pq_postReview = None, pq_version = version\<rparr>"

definition sample_approval :: "string \<Rightarrow> int \<Rightarrow> approval" where
  "sample_approval who at = \<lparr>ap_subject = who, ap_role = ''compliance_admin'', ap_approvedAt = at, ap_comment = ''reviewed it''\<rparr>"

definition sample_event :: "nat \<Rightarrow> int \<Rightarrow> string \<Rightarrow> string \<Rightarrow> (string \<times> jsval) list \<Rightarrow> string option \<Rightarrow> pam_event" where
  "sample_event n at who what ds prev = \<lparr>pe_id = ''PAE-u'', pe_sequence = n, pe_occurredAt = at,
     pe_actor = who, pe_action = ''privileged_access.'' @ what, pe_requestId = sample_id, pe_subject = ''ann'',
     pe_tenantId = ''acme'', pe_permissions = [''security:read''], pe_breakGlass = False, pe_details = ds,
     pe_previousHash = prev, pe_hash = ''a''\<rparr>"

definition sample_snapshot :: "nat \<Rightarrow> int \<Rightarrow> pam_request \<Rightarrow> pam_event list \<Rightarrow> pam_snapshot" where
  "sample_snapshot revision at item es = \<lparr>ps_revision = revision, ps_eventSequence = length es, ps_updatedAt = at,
     ps_anchor = \<lparr>an_sequence = 0, an_hash = None, an_prunedAt = None\<rparr>, ps_requests = [(sample_id, item)],
     ps_events = es\<rparr>"

definition event1 :: pam_event where
  "event1 = sample_event 1 10 ''ann'' ''requested''
     [(''reason'', JStr ''investigate the alert''), (''ticketRef'', JStr ''T-1'')] None"

definition event2 :: pam_event where
  "event2 = sample_event 2 20 ''bob'' ''approved'' [(''approver'', JStr ''bob''), (''approvalCount'', JInt 1)] (Some ''a'')"

definition event3 :: pam_event where
  "event3 = sample_event 3 30 ''cyd'' ''approved'' [(''approver'', JStr ''cyd''), (''approvalCount'', JInt 2)] (Some ''a'')"

definition event4 :: pam_event where
  "event4 = sample_event 4 30 ''system:privileged-access'' ''activated'' [(''expiresAt'', JInt 300030)] (Some ''a'')"

definition item1 :: pam_request where "item1 = sample_request ''pending'' [] None 1"
definition item2 :: pam_request where "item2 = sample_request ''pending'' [sample_approval ''bob'' 20] None 2"
definition item3 :: pam_request where
  "item3 = sample_request ''active'' [sample_approval ''bob'' 20, sample_approval ''cyd'' 30] (Some 30) 3"

definition snap1 :: pam_snapshot where "snap1 = sample_snapshot 1 10 item1 [event1]"
definition snap2 :: pam_snapshot where "snap2 = sample_snapshot 2 20 item2 [event1, event2]"
definition snap3 :: pam_snapshot where "snap3 = sample_snapshot 3 30 item3 [event1, event2, event3, event4]"

lemma run1: "run_command digest1 sample_cfg (sample_env 10) (RequestAccess ask) (Some (person ''ann'')) JUndef Missing
    = (Sealed snap1, Inr item1)"
  by code_simp



lemma mutate_runs:
  assumes "pam_read H env f = Inr s0" "prune cfg (en_now env) (expire H (en_eventUuid env) (en_now env) s0) = s1"
    and "op s1 (en_now env) = Inr (s2, r)" "en_write env = Committed"
    and "trim_events cfg (en_now env) (s2\<lparr>ps_updatedAt := en_now env, ps_revision := ps_revision s2 + 1\<rparr>) = s3"
  shows "pam_mutate H cfg env op f = (Sealed s3, Inr r)"
  using assms by (simp add: pam_mutate_def Let_def)

lemma approve_runs:
  assumes "manage p ''privileged:approve'' = Inr q" "eligible cfg p False = Inr q"
    and "text_in 10 1000 (js_get input ''comment'') = Some comment"
  shows "run_command H cfg env (Approve rid input) p ctx f
    = pam_mutate H cfg env (approve_op H env q rid (js_get input ''expectedVersion'') ctx comment) f"
  using assms by (simp add: approve_def pam_text_def)


lemma run2: "run_command digest1 sample_cfg (sample_env 20) (Approve (JStr sample_id) (agree 1)) (Some (person ''bob'')) JUndef (Sealed snap1)
    = (Sealed snap2, Inr item2)"
proof -
  have "run_command digest1 sample_cfg (sample_env 20) (Approve (JStr sample_id) (agree 1)) (Some (person ''bob'')) JUndef (Sealed snap1)
    = pam_mutate digest1 sample_cfg (sample_env 20) (approve_op digest1 (sample_env 20) (person ''bob'') (JStr sample_id)
        (js_get (agree 1) ''expectedVersion'') JUndef ''reviewed it'') (Sealed snap1)"
    by (rule approve_runs) code_simp+
  also have "\<dots> = (Sealed snap2, Inr item2)"
  proof (rule mutate_runs)
    show "pam_read digest1 (sample_env 20) (Sealed snap1) = Inr snap1" by code_simp
    show "prune sample_cfg (en_now (sample_env 20)) (expire digest1 (en_eventUuid (sample_env 20)) (en_now (sample_env 20)) snap1) = snap1"
      by code_simp
    show "approve_op digest1 (sample_env 20) (person ''bob'') (JStr sample_id) (js_get (agree 1) ''expectedVersion'') JUndef
        ''reviewed it'' snap1 (en_now (sample_env 20)) = Inr (snap2\<lparr>ps_updatedAt := 10, ps_revision := 1\<rparr>, item2)"
      by code_simp
  qed (simp_all add: trim_events_def snap2_def sample_snapshot_def sample_cfg_def sample_env_def)
  finally show ?thesis .
qed

lemma sample_digest: "pam_digest digest1 v = ''a''"
  by (simp add: pam_digest_def digest1_def)

lemma op3: "approve_op digest1 (sample_env 30) (person ''cyd'') (JStr sample_id) (js_get (agree 2) ''expectedVersion'') JUndef
        ''reviewed it'' snap2 (en_now (sample_env 30)) = Inr (snap3\<lparr>ps_updatedAt := 20, ps_revision := 2\<rparr>, item3)"
proof -
  have "find_request snap2 (JStr sample_id) = Inr item2" "js_get (agree 2) ''expectedVersion'' = JInt 2"
    "pam_subject ''cyd'' = Inr ''cyd''" "pam_role ''compliance_admin'' = Inr ''compliance_admin''"
    "pam_actor (JStr ''cyd'') = Inr ''cyd''"
    by code_simp+
  then show ?thesis
    by (simp add: approve_op_def check_version_def check_tenant_def person_def sample_env_def record_event_def
      pam_event_of_def put_request_def activated_def sample_digest Let_def effective_def past_def
      item2_def item3_def sample_request_def sample_approval_def snap2_def snap3_def sample_snapshot_def head_hash_def
      event1_def event2_def event3_def event4_def sample_event_def)
qed

lemma run3: "run_command digest1 sample_cfg (sample_env 30) (Approve (JStr sample_id) (agree 2)) (Some (person ''cyd'')) JUndef (Sealed snap2)
    = (Sealed snap3, Inr item3)"
proof -
  have "run_command digest1 sample_cfg (sample_env 30) (Approve (JStr sample_id) (agree 2)) (Some (person ''cyd'')) JUndef (Sealed snap2)
    = pam_mutate digest1 sample_cfg (sample_env 30) (approve_op digest1 (sample_env 30) (person ''cyd'') (JStr sample_id)
        (js_get (agree 2) ''expectedVersion'') JUndef ''reviewed it'') (Sealed snap2)"
    by (rule approve_runs) code_simp+
  also have "\<dots> = (Sealed snap3, Inr item3)"
  proof (rule mutate_runs)
    show "pam_read digest1 (sample_env 30) (Sealed snap2) = Inr snap2" by code_simp
    show "prune sample_cfg (en_now (sample_env 30)) (expire digest1 (en_eventUuid (sample_env 30)) (en_now (sample_env 30)) snap2) = snap2"
      by code_simp
    show "approve_op digest1 (sample_env 30) (person ''cyd'') (JStr sample_id) (js_get (agree 2) ''expectedVersion'') JUndef
        ''reviewed it'' snap2 (en_now (sample_env 30)) = Inr (snap3\<lparr>ps_updatedAt := 20, ps_revision := 2\<rparr>, item3)"
      by (rule op3)
  qed (simp_all add: trim_events_def snap3_def sample_snapshot_def sample_cfg_def sample_env_def)
  finally show ?thesis .
qed

lemma read3: "pam_read digest1 (sample_env 40) (Sealed snap3) = Inr snap3"
  by (simp add: pam_read_def read_unlocked_def pam_verify_events_def sample_digest sample_env_def
      snap3_def sample_snapshot_def event1_def event2_def event3_def event4_def sample_event_def)

lemma granted: "pam_authorise digest1 sample_cfg (sample_env 40) (Sealed snap3) (Some (person ''ann'')) ''security:read'' = Inr (Granted item3)"
proof -
  have "eligible sample_cfg (Some (person ''ann'')) False = Inr (person ''ann'')"
    "List.find (grants (person ''ann'') ''security:read'') (map (\<lambda>p. effective (snd p) (en_now (sample_env 40))) (ps_requests snap3)) = Some item3"
    "''security:read'' \<in> set (cf_protected sample_cfg)"
    by code_simp+
  then show ?thesis by (simp add: pam_authorise_def read3)
qed

lemma sample_canonical: "canonical (Some (person ''ann''))" "canonical (Some (person ''bob''))" "canonical (Some (person ''cyd''))"
  by code_simp+

lemma sample_reachable2: "pam_reachable digest1 sample_cfg (Sealed snap2)"
  using pam_step [OF pam_step [OF pam_start sample_canonical(1)] sample_canonical(2)] run1 run2 by (metis fst_conv)

lemma pam_sample_reachable: "pam_reachable digest1 sample_cfg (Sealed snap3)"
  using pam_step [OF sample_reachable2 sample_canonical(3)] run3 by (metis fst_conv)

lemma config_bounds:
  assumes "make_pam_config options = Inr cfg"
  shows "2 \<le> cf_approvalsRequired cfg" "cf_maxDuration cfg \<le> 1440" "cf_breakGlassMax cfg \<le> 60"
  using assms by (auto simp: make_pam_config_def Let_def dest!: pam_integer_Inr)

subsection \<open>Properties\<close>

text \<open>
  The approvals of an active request are those of others, as long as only principals with trimmed
  subjects have changed the store. \<open>GatewayTrust\<close> shows that the gateway admits no others;
  \<open>padded_subject_approves_own_request\<close> below, what another caller could do.
\<close>

lemma reachable_quorum:
  assumes "make_pam_config options = Inr cfg" and "pam_reachable H cfg (Sealed s)"
    and "map_of (ps_requests s) k = Some i" and "pq_status i = ''active''" and "\<not> pq_breakGlass i"
  shows "2 \<le> card (set (map ap_subject (pq_approvals i)) - {pq_subject i})
    \<and> cf_approvalsRequired cfg \<le> card (set (map ap_subject (pq_approvals i)) - {pq_subject i})"
proof -
  have "req_ok cfg i"
    using pam_reachable_inv [OF assms(2)] requests_ok_lookup assms(3) by (auto simp: pam_inv_def snapshot_inv_def)
  then have q: "distinct (map ap_subject (pq_approvals i))" "pq_subject i \<notin> set (map ap_subject (pq_approvals i))"
    "cf_approvalsRequired cfg \<le> length (pq_approvals i)"
    using assms(4,5) by (auto simp: req_ok_def quorum_def)
  then have "card (set (map ap_subject (pq_approvals i)) - {pq_subject i}) = length (pq_approvals i)"
    by (metis Diff_empty Diff_insert0 distinct_card length_map)
  then show ?thesis using q(3) config_bounds(1) [OF assms(1)] by simp
qed

lemma authorised_grant:
  assumes "make_pam_config options = Inr cfg" and "cf_mode cfg = Enforce" and "pam_reachable H cfg f"
    and "permission \<in> set (cf_protected cfg)" and "pam_authorise H cfg env f p permission = Inr a"
  shows "\<exists>s q k i t. f = Sealed s \<and> p = Some q \<and> map_of (ps_requests s) k = Some i
    \<and> pq_subject i = pr_subject q \<and> pq_tenantId i = pr_tenantId q \<and> permission \<in> set (pq_permissions i)
    \<and> pq_status i = ''active'' \<and> pq_activatedAt i = Some t
    \<and> en_now env < t + (if pq_breakGlass i then 60 else 1440) * 60000
    \<and> (pq_breakGlass i \<or> quorum cfg i)"
proof -
  obtain q s g where q: "p = Some q" and s: "pam_read H env f = Inr s"
    and g: "List.find (grants q permission) (map (\<lambda>p. effective (snd p) (en_now env)) (ps_requests s)) = Some g"
    using assms(2,4,5) eligible_Inr
    by (fastforce simp: pam_authorise_def split: sum.splits pam_error.splits if_splits)
  obtain k i where ki: "(k, i) \<in> set (ps_requests s)" and gi: "g = effective i (en_now env)" and gr: "grants q permission g"
    using find_SomeD [OF g] by auto
  have inv: "snapshot_inv H cfg s" using pam_read_inv [OF pam_reachable_inv [OF assms(3)] s] .
  then have lookup: "map_of (ps_requests s) k = Some i" and ok: "req_ok cfg i"
    using ki by (auto simp: snapshot_inv_def requests_ok_def)
  have f: "f = Sealed s"
    using s ki by (auto simp: pam_read_def read_unlocked_def empty_snapshot_def split: pam_file.splits)
  have live: "pq_status i = ''active''" "\<not> past (pq_expiresAt i) (en_now env)"
    using gr gi by (auto simp: grants_def effective_status split: if_splits)
  then obtain t where t: "pq_activatedAt i = Some t" "en_now env < t + pq_durationMinutes i * 60000"
    using ok by (auto simp: req_ok_def past_def)
  moreover have "pq_durationMinutes i \<le> (if pq_breakGlass i then 60 else 1440)"
    using ok config_bounds [OF assms(1)] by (auto simp: req_ok_def)
  ultimately have "en_now env < t + (if pq_breakGlass i then 60 else 1440) * 60000"
    by (smt (verit, ccfv_SIG))
  moreover have "pq_breakGlass i \<or> quorum cfg i" using ok by (auto simp: req_ok_def split: if_splits)
  moreover have "pq_subject i = pr_subject q" "pq_tenantId i = pr_tenantId q" "permission \<in> set (pq_permissions i)"
    using gr gi by (simp_all add: grants_def)
  ultimately show ?thesis using f q lookup live(1) t(1) by blast
qed

text \<open>
  C24. In a store that only principals with trimmed subjects have changed, as all those the gateway
  admits are, and in enforce mode the use of a protected permission is authorised only to the subject
  and tenant of a stored request that lists the permission, is active, and was activated less
  than a day (1440 minutes, one hour for an emergency grant) ago; unless it is an emergency
  grant, the required number of others approved it.
\<close>
theorem authorised_use_has_live_grant:
  assumes "make_pam_config options = Inr cfg" and "cf_mode cfg = Enforce" and "pam_reachable H cfg f"
    and "permission \<in> set (cf_protected cfg)" and "pam_authorise H cfg env f p permission = Inr a"
  shows "\<exists>s q k i t. f = Sealed s \<and> p = Some q \<and> map_of (ps_requests s) k = Some i
    \<and> pq_subject i = pr_subject q \<and> pq_tenantId i = pr_tenantId q \<and> permission \<in> set (pq_permissions i)
    \<and> pq_status i = ''active'' \<and> pq_activatedAt i = Some t
    \<and> en_now env < t + (if pq_breakGlass i then 60 else 1440) * 60000
    \<and> (pq_breakGlass i \<or> quorum cfg i)"
  using assms by (rule authorised_grant)

theorem authorised_use_has_live_grant_witness:
  "\<exists>s q k i t. Sealed snap3 = Sealed s \<and> Some (person ''ann'') = Some q \<and> map_of (ps_requests s) k = Some i
    \<and> pq_subject i = pr_subject q \<and> pq_tenantId i = pr_tenantId q \<and> ''security:read'' \<in> set (pq_permissions i)
    \<and> pq_status i = ''active'' \<and> pq_activatedAt i = Some t
    \<and> en_now (sample_env 40) < t + (if pq_breakGlass i then 60 else 1440) * 60000
    \<and> (pq_breakGlass i \<or> quorum sample_cfg i)"
  by (rule authorised_use_has_live_grant [OF sample_cfg_made _ pam_sample_reachable _ granted])
    (simp_all add: sample_cfg_def)

text \<open>
  The store never writes a file it cannot read back: from every reachable file the
  registry reads a snapshot whose event log verifies, numbered without gaps from its anchor,
  and not longer than the configured retention.
\<close>
theorem pam_log_always_readable:
  assumes "pam_reachable H cfg f" and "en_lock env"
  shows "\<exists>s. pam_read H env f = Inr s \<and> pw_valid (pam_verify_events H s)
    \<and> numbered pe_sequence (an_sequence (ps_anchor s)) (ps_events s)
    \<and> length (ps_events s) \<le> cf_eventRetention cfg"
  using pam_reachable_inv [OF assms(1)] assms(2) empty_inv [of H cfg "en_now env"]
  by (auto simp: pam_inv_def pam_read_def read_unlocked_def snapshot_inv_def pam_verify_chain chain_ok_def
      empty_snapshot_def split: pam_file.splits)

theorem pam_log_always_readable_witness:
  "\<exists>s. pam_read digest1 (sample_env 40) (Sealed snap3) = Inr s \<and> pw_valid (pam_verify_events digest1 s)
    \<and> numbered pe_sequence (an_sequence (ps_anchor s)) (ps_events s)
    \<and> length (ps_events s) \<le> cf_eventRetention sample_cfg"
  by (rule pam_log_always_readable [OF pam_sample_reachable]) (simp add: sample_env_def)

text \<open>
  Two snapshots whose logs verify from the same anchor sequence and end in the same
  event hash hold the same events and the same anchor hash, unless two different event texts
  with one digest occur in them.
\<close>
theorem pam_log_tamper_evident:
  assumes "pw_valid (pam_verify_events H s1)" and "pw_valid (pam_verify_events H s2)"
    and "an_sequence (ps_anchor s1) = an_sequence (ps_anchor s2)"
    and "ps_events s1 \<noteq> []" and "ps_events s2 \<noteq> []"
    and "pw_headHash (pam_verify_events H s1) = pw_headHash (pam_verify_events H s2)"
    and "list_all pam_json (ps_events s1)" and "list_all pam_json (ps_events s2)"
  shows "ps_events s1 = ps_events s2 \<and> an_hash (ps_anchor s1) = an_hash (ps_anchor s2)
    \<or> collides H (pam_body ` set (ps_events s1)) (pam_body ` set (ps_events s2))"
proof -
  have "chain_ok H s1" "chain_ok H s2" using assms(1,2) by (simp_all add: pam_verify_chain)
  then show ?thesis
    using pam.tamper_evident_numbered [of H "an_hash (ps_anchor s1)" "ps_events s1" "an_sequence (ps_anchor s1)"
        "an_hash (ps_anchor s2)" "ps_events s2"] assms(3-8)
    by (simp add: pam_verify_head head_hash_def chain_ok_def)
qed

theorem pam_log_tamper_evident_witness:
  "ps_events snap3 = ps_events snap3 \<and> an_hash (ps_anchor snap3) = an_hash (ps_anchor snap3)
    \<or> collides digest1 (pam_body ` set (ps_events snap3)) (pam_body ` set (ps_events snap3))"
proof (rule pam_log_tamper_evident)
  have "snapshot_inv digest1 sample_cfg snap3" using pam_reachable_inv [OF pam_sample_reachable] by (simp add: pam_inv_def)
  then show "pw_valid (pam_verify_events digest1 snap3)" "pw_valid (pam_verify_events digest1 snap3)"
    "list_all pam_json (ps_events snap3)" "list_all pam_json (ps_events snap3)"
    by (simp_all add: snapshot_inv_def pam_verify_chain)
qed (simp_all add: snap3_def sample_snapshot_def)

text \<open>
  Optimistic concurrency: once a command on a request has succeeded with an expected
  version, every later command on the same request with that expected version is refused,
  whoever sends it and whenever.
\<close>
theorem stale_version_refused:
  assumes "pam_reachable H cfg f" and "canonical p"
    and "run_command H cfg env cmd p ctx f = (f', Inr r)"
    and "command_target cmd = Some (k, v)" and "command_target cmd' = Some (k, v)"
  shows "\<exists>e. snd (run_command H cfg env' cmd' p' ctx' f') = Inl e"
proof (rule ccontr)
  assume "\<not> ?thesis"
  then obtain f'' r' where second: "run_command H cfg env' cmd' p' ctx' f' = (f'', Inr r')"
    by (metis obj_sumE prod.collapse)
  obtain s where s: "f' = Sealed s" "map_of (ps_requests s) (pq_id r) = Some r"
    using run_command_stored [OF assms(3)] by blast
  have inv: "pam_inv H cfg f'"
    using run_command_inv [OF assms(2) pam_reachable_inv [OF assms(1)], of env cmd ctx] assms(3) by simp
  from assms(3) obtain i where i: "pq_id i = k" "js_Number v = JInt (pq_version i)" "succeeds i r"
  proof (rule run_command_Inr)
    fix q op s0 s2
    let ?s1 = "prune cfg (en_now env) (expire H (en_eventUuid env) (en_now env) s0)"
    assume op: "command_op H cfg env q ctx cmd op" "pam_read H env f = Inr s0" "op ?s1 (en_now env) = Inr (s2, r)"
    obtain i where i: "map_of (ps_requests ?s1) k = Some i" "js_Number v = JInt (pq_version i)" "succeeds i r"
      using command_op_target [OF op(1,3) assms(4)] by blast
    have "snapshot_inv H cfg ?s1"
      using prepared_inv pam_read_inv [OF pam_reachable_inv [OF assms(1)] op(2)] by blast
    then have "pq_id i = k" using requests_ok_lookup i(1) by (auto simp: snapshot_inv_def)
    with i that show thesis by blast
  qed
  from second show False
  proof (rule run_command_Inr)
    fix q op s0 s2
    let ?s1 = "prune cfg (en_now env') (expire H (en_eventUuid env') (en_now env') s0)"
    assume op: "command_op H cfg env' q ctx' cmd' op" "pam_read H env' f' = Inr s0"
      "op ?s1 (en_now env') = Inr (s2, r')"
    have "s0 = s" using op(2) s(1) by (auto simp: pam_read_def read_unlocked_def)
    obtain j where j: "map_of (ps_requests ?s1) k = Some j" "js_Number v = JInt (pq_version j)"
      using command_op_target [OF op(1,3) assms(5)] by blast
    then obtain i' where "map_of (ps_requests s) k = Some i'" "later i' j"
      using prepared_lookup [OF pam_read_inv [OF inv op(2)]] \<open>s0 = s\<close> by blast
    then show False using s(2) i j(2) by (simp add: succeeds_def later_def)
  qed
qed

theorem stale_version_refused_witness:
  "\<exists>e. snd (run_command digest1 sample_cfg (sample_env 40) (Approve (JStr sample_id) (agree 2)) (Some (person ''dan'')) JUndef
     (Sealed snap3)) = Inl e"
  by (rule stale_version_refused [OF sample_reachable2 sample_canonical(3) run3]) simp_all

text \<open>
  An emergency grant that has not been reviewed is never lost: whatever command runs and
  however it ends, the store afterwards still holds an emergency grant under its identifier
  (the identifier drawn for a new request being fresh).
\<close>
theorem unreviewed_break_glass_kept:
  assumes "pam_reachable H cfg (Sealed s)"
    and "map_of (ps_requests s) k = Some i" and "pq_breakGlass i" and "pq_postReview i = None"
    and "k \<noteq> ''PAM-'' @ en_requestUuid env"
  shows "\<exists>s' j. fst (run_command H cfg env cmd p ctx (Sealed s)) = Sealed s'
    \<and> map_of (ps_requests s') k = Some j \<and> pq_breakGlass j"
proof (cases rule: run_command_cases [of H cfg env cmd p ctx "Sealed s"])
  case (2 q op)
  show ?thesis
  proof (cases rule: pam_mutate_cases [of H cfg env op "Sealed s"])
    case mut: (2 s0 s2 r res)
    let ?s1 = "prune cfg (en_now env) (expire H (en_eventUuid env) (en_now env) s)"
    have "s0 = s" using mut(1) by (auto simp: pam_read_def read_unlocked_def)
    have inv: "snapshot_inv H cfg s" using pam_read_inv [OF pam_reachable_inv [OF assms(1)] mut(1)] \<open>s0 = s\<close> by simp
    obtain j where j: "map_of (ps_requests ?s1) k = Some j" "pq_breakGlass j"
      using prepared_keeps [OF inv assms(2-4)] by blast
    have s2: "ps_requests s2 = put_assoc (pq_id r) r (ps_requests ?s1)"
      using command_op_touches [OF 2(2) mut(2)] \<open>s0 = s\<close> by (simp add: touches_def)
    have "\<exists>j. map_of (ps_requests s2) k = Some j \<and> pq_breakGlass j"
    proof (cases "pq_id r = k")
      case True
      then obtain k' v where tgt: "command_target cmd = Some (k', v)"
        using command_op_fresh [OF 2(2) mut(2)] assms(5) by (cases "command_target cmd") auto
      then obtain i' where i': "map_of (ps_requests ?s1) k' = Some i'" "succeeds i' r"
        using command_op_target [OF 2(2) mut(2)] \<open>s0 = s\<close> by blast
      then have "k' = k"
        using requests_ok_lookup [OF _ i'(1)] prepared_inv [OF inv] True by (auto simp: snapshot_inv_def succeeds_def)
      then show ?thesis using i' j s2 True by (auto simp: succeeds_def)
    qed (use s2 j in simp)
    then show ?thesis using mut(3) 2(3) by auto
  qed (use 2 assms in auto)
qed (use assms in auto)

definition emergency :: jsval where
  "emergency = JObj [(''confirmation'', JStr ''BREAK GLASS''), (''permissions'', JArr [JStr ''security:read'']),
     (''durationMinutes'', JInt 5), (''reason'', JStr ''production outage, pager escalation''), (''incidentRef'', JStr ''INC-1'')]"

lemma emergency_runs:
  "\<exists>s i. run_command digest1 sample_cfg (sample_env 10) (BreakGlass emergency) (Some (person ''ann'')) JUndef Missing
       = (Sealed s, Inr i) \<and> map_of (ps_requests s) sample_id = Some i \<and> pq_breakGlass i \<and> pq_postReview i = None"
proof -
  let ?op = "break_glass_op digest1 sample_cfg (sample_env 10) (person ''ann'') JUndef [''security:read''] 5
    ''production outage, pager escalation'' ''INC-1''"
  have "manage (Some (person ''ann'')) ''privileged:break_glass'' = Inr (person ''ann'')"
    "eligible sample_cfg (Some (person ''ann'')) True = Inr (person ''ann'')"
    "requested (js_get emergency ''permissions'') (cf_protected sample_cfg) (pr_permissions (person ''ann'')) = Inr [''security:read'']"
    "pam_integer (js_get emergency ''durationMinutes'') ''durationMinutes'' 5 (cf_breakGlassMax sample_cfg) = Inr 5"
    "pam_text (js_get emergency ''reason'') ''reason'' 30 1000 = Inr ''production outage, pager escalation''"
    "pam_text (js_get emergency ''incidentRef'') ''incidentRef'' 3 128 = Inr ''INC-1''"
    "cf_breakGlassEnabled sample_cfg" "js_String (js_or_nullish (js_get emergency ''confirmation'') (JStr [])) = ''BREAK GLASS''"
    by code_simp+
  then have run: "run_command digest1 sample_cfg (sample_env 10) (BreakGlass emergency) (Some (person ''ann'')) JUndef Missing
      = pam_mutate digest1 sample_cfg (sample_env 10) ?op Missing"
    by (simp add: activate_break_glass_def)
  have guards: "pam_subject (pr_subject (person ''ann'')) = Inr ''ann''" "pam_identifier (pr_tenantId (person ''ann'')) ''tenantId'' = Inr ''acme''"
    "pam_role (pr_role (person ''ann'')) = Inr ''compliance_admin''" "pam_actor (JStr (pr_subject (person ''ann''))) = Inr ''ann''"
    by code_simp+
  then obtain s2 r where op: "?op (empty_snapshot 10) 10 = Inr (s2, r)"
    by (auto simp: break_glass_op_def commit_change_def Let_def)
  have "pam_read digest1 (sample_env 10) Missing = Inr (empty_snapshot 10)"
    "prune sample_cfg 10 (expire digest1 (en_eventUuid (sample_env 10)) 10 (empty_snapshot 10)) = empty_snapshot 10"
    by (simp_all add: pam_read_def read_unlocked_def sample_env_def prune_def expire_def empty_snapshot_def)
  then obtain s where s: "pam_mutate digest1 sample_cfg (sample_env 10) ?op Missing = (Sealed s, Inr r)"
    using op by (simp add: pam_mutate_def sample_env_def Let_def)
  have "pq_id r = sample_id" "pq_breakGlass r" "pq_postReview r = None"
    using break_glass_op_Inr(2) [OF op] by (simp_all add: break_glass_request_def sample_env_def sample_id_def numeral_eq_Suc)
  then show ?thesis using run_command_stored [of digest1 sample_cfg] run s by (metis)
qed

theorem unreviewed_break_glass_kept_witness:
  "\<exists>s s' j. pam_reachable digest1 sample_cfg (Sealed s)
    \<and> fst (run_command digest1 sample_cfg ((sample_env 20)\<lparr>en_requestUuid := ''1''\<rparr>) (RequestAccess ask) None JUndef (Sealed s)) = Sealed s'
    \<and> map_of (ps_requests s') sample_id = Some j \<and> pq_breakGlass j"
proof -
  obtain s i where s: "run_command digest1 sample_cfg (sample_env 10) (BreakGlass emergency) (Some (person ''ann'')) JUndef Missing
      = (Sealed s, Inr i)" and i: "map_of (ps_requests s) sample_id = Some i" "pq_breakGlass i" "pq_postReview i = None"
    using emergency_runs by blast
  have r: "pam_reachable digest1 sample_cfg (Sealed s)"
    using pam_step [OF pam_start sample_canonical(1)] s by (metis fst_conv)
  have "sample_id \<noteq> ''PAM-'' @ en_requestUuid ((sample_env 20)\<lparr>en_requestUuid := ''1''\<rparr>)"
    by (simp add: sample_id_def)
  from unreviewed_break_glass_kept [OF r i this] r show ?thesis by blast
qed

text \<open>
  A command that reports success has stored exactly the request it returns; a command
  that reports an error has changed nothing, unless the write failed after the rename, which
  is then reported as the store being unavailable.
\<close>
theorem outcome_matches_store:
  "case run_command H cfg env cmd p ctx f of
     (f', Inr r) \<Rightarrow> \<exists>s. f' = Sealed s \<and> map_of (ps_requests s) (pq_id r) = Some r
   | (f', Inl e) \<Rightarrow> f' = f \<or> e = StoreUnavailable \<and> en_write env = Unsynced"
proof (cases "snd (run_command H cfg env cmd p ctx f)")
  case (Inr r)
  then have "run_command H cfg env cmd p ctx f = (fst (run_command H cfg env cmd p ctx f), Inr r)" by (metis prod.collapse)
  from run_command_stored [OF this] show ?thesis using Inr by (simp add: case_prod_beta)
next
  case (Inl e)
  have "fst (run_command H cfg env cmd p ctx f) = f \<or> e = StoreUnavailable \<and> en_write env = Unsynced"
  proof (cases rule: run_command_cases [of H cfg env cmd p ctx f])
    case (2 q op)
    show ?thesis
      by (cases rule: pam_mutate_cases [of H cfg env op f]) (use 2 Inl in auto)
  qed simp
  then show ?thesis using Inl by (simp add: case_prod_beta)
qed

text \<open>
  The comparison with the requester's and the approvers' subjects is made on the raw subject of
  the principal, the stored subject is the trimmed one. So a principal whose subject carries
  blanks passes both checks on its own request.
\<close>

lemma padded_subject_approves_own_request:
  assumes "find_request s rid = Inr i" "js_Number expected = JInt (pq_version i)" "1 \<le> pq_version i"
    and "pq_tenantId i = pr_tenantId q" "pq_status (effective i ts) = ''pending''" "pq_approvals i = []"
    and "pr_subject q = CHR '' '' # pq_subject i" "js_trim (pr_subject q) = pq_subject i"
    and "safe_ident ''._:-'' 1 255 (pq_subject i)" "permissions_for_role (pr_role q) \<noteq> None"
    and "pam_actor (js_or_nullish ctx (JStr (pr_subject q))) = Inr who"
  shows "\<exists>s' r. approve_op H env q rid expected ctx comment s ts = Inr (s', r)
    \<and> map ap_subject (pq_approvals r) = [pq_subject i]"
proof -
  have "\<And>k :: pam_error + pam_snapshot \<times> pam_request. check_version i expected k = k"
    "\<And>k :: pam_error + pam_snapshot \<times> pam_request. check_tenant i q k = k" "pam_role (pr_role q) = Inr (pr_role q)"
    "pam_subject (pr_subject q) = Inr (pq_subject i)" "pq_subject i \<noteq> pr_subject q"
    using assms by (auto simp: check_version_def check_tenant_def pam_role_def pam_subject_def)
  then show ?thesis
    using assms by (simp add: approve_op_def Let_def activated_def)
qed

end
