(* ===== verification/OidcTrust.thy ===== *)
theory OidcTrust
  imports OidcLogin
begin

section \<open>What an accepted token proves\<close>

text \<open>
  A run of the authenticator is a list of tokens, each with its environment; its calls come one after
  another, so that no call shares the fetch of another. The cache always holds the keys of the last usable
  answer that the run has read, with the deadlines it set. An accepted token was signed with a key of this
  answer, carries acceptable claims, and maps to one role and an allowed tenant. The cache is checked
  at the clock reading that a call starts with.
\<close>

subsection \<open>Calls that return\<close>

lemma catchS_Inr: "catchS m h s = (s', Inr y) \<longleftrightarrow> m s = (s', Inr y) \<or> (\<exists>s1 e. m s = (s1, Inl e) \<and> h e s1 = (s', Inr y))"
  by (auto simp: catchS_def split: prod.split sum.split)

lemma throwS_Inr [simp]: "throwS e s \<noteq> (s', Inr y)"
  by (simp add: throwS_def)

subsection \<open>The answers a call reads\<close>

text \<open>
  The usable answer to the fetch \<open>b\<close> of a call: its signing keys, the time it was read and for how
  long it is fresh. \<open>fetches_sent\<close> are the fetches a call sends: the first when the cache has expired
  or is empty, the second, forced one when the keys then known have none with the token's identifier,
  unless the first failed. \<open>answers_read\<close> are the usable answers to these.
\<close>

type_synonym key_answer = "(string \<times> jsval) list \<times> int \<times> int"

definition answer_of :: "engine \<Rightarrow> oidc_config \<Rightarrow> oidc_env \<Rightarrow> bool \<Rightarrow> key_answer option" where
  "answer_of w cfg env b = (case ox_fetch env b of
       FetchAnswer True body cacheControl \<Rightarrow>
         (if int (length body) \<le> 1000000 then
            case json_parse w body of
              Some v \<Rightarrow> (case normalise_jwks v of
                  Inr keys \<Rightarrow> Some (keys, ox_answeredAt env b, case cache_control_max_age cacheControl of
                     None \<Rightarrow> oc_cacheMs cfg | Some n \<Rightarrow> min (oc_cacheMs cfg) (n * 1000))
                | Inl _ \<Rightarrow> None)
            | None \<Rightarrow> None
          else None)
     | _ \<Rightarrow> None)"

definition first_fetch :: "oidc_env \<Rightarrow> string \<Rightarrow> jwks_cache \<Rightarrow> bool" where
  "first_fetch env kid st = (\<not> before_deadline (ox_now env) (jk_expiresAt st) \<or> jk_fetchedAt st = None \<and> map_of (jk_keys st) kid = None)"

definition fetches_sent :: "engine \<Rightarrow> oidc_config \<Rightarrow> oidc_env \<Rightarrow> string \<Rightarrow> jwks_cache \<Rightarrow> bool list" where
  "fetches_sent w cfg env token st = (case parse_jwt w token of
       Inl _ \<Rightarrow> []
     | Inr j \<Rightarrow> (case jw_kid j of
           None \<Rightarrow> []
         | Some kid \<Rightarrow>
             if jw_alg j \<notin> set (oc_algorithms cfg) then []
             else if first_fetch env kid st then (case answer_of w cfg env False of
                 None \<Rightarrow> [False]
               | Some (keys, _, _) \<Rightarrow> if map_of keys kid = None then [False, True] else [False])
             else if has_key kid st then [] else [True]))"

definition answers_read :: "engine \<Rightarrow> oidc_config \<Rightarrow> oidc_env \<Rightarrow> string \<Rightarrow> jwks_cache \<Rightarrow> key_answer list" where
  "answers_read w cfg env token st = List.map_filter (answer_of w cfg env) (fetches_sent w cfg env token st)"

fun oidc_run :: "engine \<Rightarrow> oidc_config \<Rightarrow> (oidc_env \<times> string) list \<Rightarrow> jwks_cache \<Rightarrow> jwks_cache" where
  "oidc_run w cfg [] st = st"
| "oidc_run w cfg ((env, token) # calls) st = oidc_run w cfg calls (fst (authenticate_token w cfg env token st))"

fun run_answers :: "engine \<Rightarrow> oidc_config \<Rightarrow> (oidc_env \<times> string) list \<Rightarrow> jwks_cache \<Rightarrow> key_answer list" where
  "run_answers w cfg [] st = []"
| "run_answers w cfg ((env, token) # calls) st =
     answers_read w cfg env token st @ run_answers w cfg calls (fst (authenticate_token w cfg env token st))"

subsection \<open>The cache holds the last answer\<close>

text \<open>The cache an answer leaves, up to the record of the last error.\<close>

definition cache_of :: "oidc_config \<Rightarrow> key_answer \<Rightarrow> bool \<Rightarrow> jwks_cache" where
  "cache_of cfg a e = (case a of (keys, t, ttl) \<Rightarrow>
     \<lparr>jk_keys = keys, jk_fetchedAt = Some t, jk_expiresAt = Some (t + ttl), jk_staleUntil = Some (t + (ttl + oc_staleMs cfg)), jk_lastError = e\<rparr>)"

lemma cache_of_simps [simp]:
  "jk_keys (cache_of cfg (keys, t, ttl) e) = keys"
  "jk_fetchedAt (cache_of cfg a e) \<noteq> None"
  "jk_expiresAt (cache_of cfg (keys, t, ttl) e) = Some (t + ttl)"
  "jk_staleUntil (cache_of cfg (keys, t, ttl) e) = Some (t + (ttl + oc_staleMs cfg))"
  "cache_of cfg a e\<lparr>jk_lastError := e'\<rparr> = cache_of cfg a e'"
  by (simp_all add: cache_of_def split: prod.split)

definition holds_last :: "oidc_config \<Rightarrow> key_answer list \<Rightarrow> jwks_cache \<Rightarrow> bool" where
  "holds_last cfg as st = (st\<lparr>jk_lastError := False\<rparr> = (if as = [] then cold_cache else cache_of cfg (last as) False))"

lemma holds_last_cold [simp]: "holds_last cfg [] cold_cache"
  by (simp add: holds_last_def cold_cache_def)

lemma holds_last_error [simp]: "holds_last cfg as (st\<lparr>jk_lastError := e\<rparr>) = holds_last cfg as st"
  by (simp add: holds_last_def)

lemma holds_last_answer [simp]:
  "holds_last cfg (as @ [a]) (cache_of cfg a e)"
  "holds_last cfg (as @ [a', a]) (cache_of cfg a e)"
  by (simp_all add: holds_last_def)

lemma relabel_Inr: "(case r of Inl _ \<Rightarrow> Inl e | Inr c \<Rightarrow> Inr c) = Inr d \<longleftrightarrow> r = Inr d"
  by (cases r) simp_all

lemma fetched_cache_answer:
  "fetched_cache w cfg (ox_fetch env b) (ox_answeredAt env b) =
     (case answer_of w cfg env b of None \<Rightarrow> Inl OidcUnavailable | Some a \<Rightarrow> Inr (cache_of cfg a False))"
  by (auto simp: fetched_cache_def answer_of_def cache_of_def build_jwks_cache_def ensure_def from_option_def Let_def
      split: fetch_outcome.split option.split sum.split bool.split)

lemma refresh_keys_answer:
  "refresh_keys w cfg env b st =
     (if \<not> b \<and> jk_fetchedAt st \<noteq> None \<and> before_deadline (ox_now env) (jk_expiresAt st) then (st, Inr ())
      else case answer_of w cfg env b of
        None \<Rightarrow> (st\<lparr>jk_lastError := True\<rparr>, Inl OidcUnavailable) | Some a \<Rightarrow> (cache_of cfg a False, Inr ()))"
  by (simp add: refresh_keys_def fetched_cache_answer split: option.split)

lemma holds_last_keys:
  assumes "holds_last cfg as st" and "map_of (jk_keys st) kid = Some key"
  obtains keys t ttl where "as \<noteq> []" "last as = (keys, t, ttl)" "jk_keys st = keys" "jk_expiresAt st = Some (t + ttl)"
    "jk_staleUntil st = Some (t + (ttl + oc_staleMs cfg))"
proof -
  have "as \<noteq> []"
  proof
    assume "as = []"
    then have "jk_keys st = []" using assms(1) by (cases st) (simp add: holds_last_def cold_cache_def)
    then show False using assms(2) by simp
  qed
  moreover obtain keys t ttl where last: "last as = (keys, t, ttl)" by (cases "last as")
  ultimately have "st\<lparr>jk_lastError := False\<rparr> = cache_of cfg (keys, t, ttl) False"
    using assms(1) by (simp add: holds_last_def)
  then have "jk_keys st = keys \<and> jk_expiresAt st = Some (t + ttl) \<and> jk_staleUntil st = Some (t + (ttl + oc_staleMs cfg))"
    by (cases st) (simp add: cache_of_def)
  then show thesis using that \<open>as \<noteq> []\<close> last by blast
qed

text \<open>What the two stages of a key lookup do.\<close>

lemma lookup_first:
  assumes "\<not> oc_static cfg"
  shows "resolve_key w cfg env kid False st =
    (if first_fetch env kid st then (case answer_of w cfg env False of
         None \<Rightarrow> (st\<lparr>jk_lastError := True\<rparr>, if has_key kid st \<and> within_deadline (ox_now env) (jk_staleUntil st)
             then Inr (map_of (jk_keys st) kid) else Inl OidcUnavailable)
       | Some a \<Rightarrow> (cache_of cfg a False, Inr (map_of (fst a) kid)))
     else (st, Inr (map_of (jk_keys st) kid)))"
  using assms unfolding resolve_key_def first_fetch_def has_key_def
  by (auto simp: bindS_def catchS_def getS_def returnS_def throwS_def find_key_def has_key_def refresh_keys_answer split: option.split)

lemma lookup_second:
  assumes "\<not> oc_static cfg"
  shows "resolve_key w cfg env kid True st = (case answer_of w cfg env True of
       None \<Rightarrow> (st\<lparr>jk_lastError := True\<rparr>, if has_key kid st \<and> within_deadline (ox_now env) (jk_staleUntil st)
           then Inr (map_of (jk_keys st) kid) else Inl OidcUnavailable)
     | Some a \<Rightarrow> (cache_of cfg a False, Inr (map_of (fst a) kid)))"
  using assms unfolding resolve_key_def
  by (auto simp: bindS_def catchS_def getS_def returnS_def throwS_def find_key_def has_key_def refresh_keys_answer split: option.split)

text \<open>Both stages: the answers read, the state and the key they leave.\<close>

definition lookup_key :: "engine \<Rightarrow> oidc_config \<Rightarrow> oidc_env \<Rightarrow> string \<Rightarrow> (jwks_cache, oidc_error, jsval option) call" where
  "lookup_key w cfg env kid = bindS (resolve_key w cfg env kid False) (\<lambda>first.
     case first of Some k \<Rightarrow> returnS (Some k) | None \<Rightarrow> resolve_key w cfg env kid True)"

lemma bindS_liftS: "bindS (liftS r) f st = (case r of Inl e \<Rightarrow> (st, Inl e) | Inr x \<Rightarrow> f x st)"
  by (simp add: bindS_def liftS_def split: sum.split)

lemma authenticate_state:
  "fst (authenticate_token w cfg env token st) = (case parse_jwt w token of
       Inl _ \<Rightarrow> st
     | Inr j \<Rightarrow> (case jw_kid j of
           None \<Rightarrow> st
         | Some kid \<Rightarrow> if jw_alg j \<in> set (oc_algorithms cfg) then fst (lookup_key w cfg env kid st) else st))"
proof -
  have fst_bind: "fst (bindS m f s) = fst (m s)" if "\<And>x s'. fst (f x s') = s'" for m :: "('a, 'b, 'c) call" and f s
    using that by (auto simp: bindS_def split: prod.split sum.split)
  have rest: "fst (bindS (liftS r) f s) = s" if "\<And>x s'. fst (f x s') = s'" for r :: "'b + 'c" and f :: "'c \<Rightarrow> ('a, 'b, 'd) call" and s
    using that by (simp add: bindS_liftS split: sum.split)
  have assoc: "bindS (resolve_key w cfg env kid False) (\<lambda>first. bindS (case first of Some k \<Rightarrow> returnS (Some k) | None \<Rightarrow> resolve_key w cfg env kid True) f)
      = bindS (lookup_key w cfg env kid) f" for kid f
    by (rule ext) (simp add: lookup_key_def bindS_def split: prod.split sum.split)
  show ?thesis
    unfolding authenticate_token_def assoc
    by (auto simp: bindS_liftS ensureS_def fst_bind rest liftS_def from_option_def split: sum.split option.split)
qed

lemma lookup_holds:
  assumes "\<not> oc_static cfg" and "holds_last cfg as st" and "parse_jwt w token = Inr j" "jw_kid j = Some kid" "jw_alg j \<in> set (oc_algorithms cfg)"
  shows "holds_last cfg (as @ answers_read w cfg env token st) (fst (lookup_key w cfg env kid st))"
proof (cases "first_fetch env kid st")
  case True
  then show ?thesis
    using assms
    by (cases "answer_of w cfg env False"; cases "answer_of w cfg env True")
       (auto simp: answers_read_def fetches_sent_def lookup_key_def bindS_def lookup_first lookup_second returnS_def has_key_def
          split: option.splits)
next
  case False
  then show ?thesis
    using assms
    by (cases "answer_of w cfg env True")
       (auto simp: answers_read_def fetches_sent_def lookup_key_def bindS_def lookup_first lookup_second returnS_def has_key_def
          split: option.splits)
qed

lemma holds_last_step:
  assumes "\<not> oc_static cfg" and "holds_last cfg as st"
  shows "holds_last cfg (as @ answers_read w cfg env token st) (fst (authenticate_token w cfg env token st))"
proof -
  have "answers_read w cfg env token st = []" if "\<nexists>j kid. parse_jwt w token = Inr j \<and> jw_kid j = Some kid \<and> jw_alg j \<in> set (oc_algorithms cfg)"
    using that by (auto simp: answers_read_def fetches_sent_def split: sum.split option.split)
  then show ?thesis
    using lookup_holds [OF assms] assms(2) by (auto simp: authenticate_state split: sum.split option.split)
qed

lemma holds_last_run:
  assumes "\<not> oc_static cfg" and "holds_last cfg as st"
  shows "holds_last cfg (as @ run_answers w cfg calls st) (oidc_run w cfg calls st)"
  using assms(2)
proof (induction calls arbitrary: as st)
  case (Cons call calls)
  obtain env token where call: "call = (env, token)" by (cases call)
  from Cons.IH [OF holds_last_step [OF assms(1) Cons.prems]] show ?case by (simp add: call)
qed simp

text \<open>Where a key found comes from: an answer just read, the fresh cache, or the stale one after a failed fetch.\<close>

lemma lookup_Some:
  assumes "\<not> oc_static cfg" and "lookup_key w cfg env kid st = (st', Inr (Some key))"
    and "parse_jwt w token = Inr j" "jw_kid j = Some kid" "jw_alg j \<in> set (oc_algorithms cfg)"
  shows "answers_read w cfg env token st \<noteq> []
    \<or> fetches_sent w cfg env token st = [] \<and> before_deadline (ox_now env) (jk_expiresAt st')
    \<or> fetches_sent w cfg env token st = [False] \<and> answer_of w cfg env False = None \<and> within_deadline (ox_now env) (jk_staleUntil st')"
proof (cases "first_fetch env kid st")
  case True
  then show ?thesis
    using assms
    by (cases "answer_of w cfg env False")
       (auto simp: answers_read_def fetches_sent_def lookup_key_def bindS_def lookup_first returnS_def has_key_def split: if_splits)
next
  case False
  then have "before_deadline (ox_now env) (jk_expiresAt st)" by (simp add: first_fetch_def)
  with False show ?thesis
    using assms
    by (cases "answer_of w cfg env True")
       (auto simp: answers_read_def fetches_sent_def lookup_key_def bindS_def lookup_first lookup_second returnS_def has_key_def
          split: option.splits if_splits)
qed

lemma resolve_key_Some: "resolve_key w cfg env kid b st = (st', Inr (Some k)) \<Longrightarrow> map_of (jk_keys st') kid = Some k"
  by (auto simp: resolve_key_def find_key_def bindS_Inr catchS_Inr split: if_splits)

lemma lookup_key_Some: "lookup_key w cfg env kid st = (st', Inr (Some k)) \<Longrightarrow> map_of (jk_keys st') kid = Some k"
  by (auto simp: lookup_key_def bindS_Inr dest: resolve_key_Some split: option.splits)

subsection \<open>An accepted token\<close>

lemma parts_split_at: "split_at c (xs @ c # ys) = (if c \<in> set xs then split_at c (xs @ c # ys) else xs # split_at c ys)"
  by (induction xs) auto

lemma split_at_nonempty [simp]: "split_at c s \<noteq> []"
  by (induction s) (auto split: list.split)

lemma split_at_join: "s = join_with [c] (split_at c s)"
proof (induction s)
  case (Cons d ds)
  then show ?case by (cases "split_at c ds"; cases "tl (split_at c ds)") auto
qed simp

lemma join_three: "join_with sep [x, y, z] = x @ sep @ y @ sep @ z"
  by simp

lemma list_of_three: "length ps = 3 \<Longrightarrow> ps = [ps ! 0, ps ! 1, ps ! 2]"
  by (simp add: numeral_3_eq_3 length_Suc_conv) (auto simp: nth_Cons')

lemma decode_base64url_Inr: "decode_base64url s = Inr bytes \<Longrightarrow> bytes = buffer_from s"
  by (simp add: decode_base64url_def)

lemma decode_json_part_Inr: "decode_json_part w part = Inr v \<Longrightarrow> json_parse w (buffer_from part) = Some v"
  by (auto simp: decode_json_part_def dest!: decode_base64url_Inr split: sum.splits)

lemma parse_jwt_Inr:
  assumes "parse_jwt w token = Inr j"
  obtains head body sig where "js_trim token = head @ ''.'' @ body @ ''.'' @ sig"
    "json_parse w (buffer_from body) = Some (jw_payload j)" "jw_signature j = buffer_from sig"
    "jw_input j = head @ ''.'' @ body"
proof -
  let ?ps = "split_at (CHR ''.'') (js_trim token)"
  have ps: "length ?ps = 3" "json_parse w (buffer_from (?ps ! 1)) = Some (jw_payload j)"
    "jw_signature j = buffer_from (?ps ! 2)" "jw_input j = ?ps ! 0 @ ''.'' @ ?ps ! 1"
    using assms by (auto simp: parse_jwt_def Let_def dest!: decode_json_part_Inr decode_base64url_Inr split: if_splits)
  moreover have "js_trim token = ?ps ! 0 @ ''.'' @ ?ps ! 1 @ ''.'' @ ?ps ! 2"
    using split_at_join [of "js_trim token" "CHR ''.''"] list_of_three [OF ps(1)] join_three by metis
  ultimately show thesis by (intro that)
qed

lemma authenticate_token_Inr:
  assumes "authenticate_token w cfg env token st = (st', Inr p)"
  obtains j kid key where "parse_jwt w token = Inr j" "jw_alg j \<in> set (oc_algorithms cfg)" "jw_kid j = Some kid"
    "lookup_key w cfg env kid st = (st', Inr (Some key))" "map_of (jk_keys st') kid = Some key"
    "verify_jwt_signature w j key = Inr ()" "token_principal w cfg (ox_now env) kid (jw_payload j) = Inr p"
proof -
  obtain j kid s1 first s2 key where j: "parse_jwt w token = Inr j" "jw_alg j \<in> set (oc_algorithms cfg)" "jw_kid j = Some kid"
    and first: "resolve_key w cfg env kid False st = (s1, Inr first)"
    and second: "(case first of Some k \<Rightarrow> returnS (Some k) | None \<Rightarrow> resolve_key w cfg env kid True) s1 = (s2, Inr (Some key))"
    and rest: "st' = s2" "verify_jwt_signature w j key = Inr ()" "token_principal w cfg (ox_now env) kid (jw_payload j) = Inr p"
    using assms by (auto simp: authenticate_token_def bindS_Inr)
  have "lookup_key w cfg env kid st = (s2, Inr (Some key))"
    using first second by (simp add: lookup_key_def bindS_Inr)
  then show thesis using j rest lookup_key_Some by (intro that) auto
qed

lemma numeric_date_required:
  "numeric_date v field True = Inr d \<Longrightarrow> \<exists>n \<ge> 0. d = Some n \<and> js_Number v = JInt n \<and> \<not> nullish v"
  by (auto simp: numeric_date_def split: if_splits jsval.splits)

lemma numeric_date_optional:
  "numeric_date v field False = Inr d \<Longrightarrow> (if nullish v then d = None else \<exists>n. d = Some n \<and> js_Number v = JInt n)"
  by (auto simp: numeric_date_def split: if_splits jsval.splits)

text \<open>The token is inside its time window: every time named here is a claim of the token.\<close>

definition in_time :: "oidc_config \<Rightarrow> int \<Rightarrow> jsval \<Rightarrow> int \<Rightarrow> int \<Rightarrow> bool" where
  "in_time cfg now claims exp iat =
     (js_Number (js_get claims ''exp'') = JInt exp \<and> \<not> nullish (js_get claims ''exp'')
    \<and> js_Number (js_get claims ''iat'') = JInt iat \<and> \<not> nullish (js_get claims ''iat'')
    \<and> (nullish (js_get claims ''nbf'') \<or> (\<exists>nbf. js_Number (js_get claims ''nbf'') = JInt nbf \<and> nbf * 1000 \<le> now + oc_skewMs cfg))
    \<and> now < exp * 1000 + oc_skewMs cfg \<and> iat * 1000 \<le> now + oc_skewMs cfg
    \<and> 0 \<le> iat \<and> iat < exp \<and> exp - iat \<le> oc_maxLifetime cfg)"

lemma validate_claims_Inr:
  assumes "validate_claims cfg claims now = Inr e"
  shows "js_get claims ''iss'' = JStr (oc_issuer cfg) \<and> subject_claim claims \<noteq> [] \<and> length (subject_claim claims) \<le> 512
    \<and> (\<exists>a \<in> set (oc_audiences cfg). a \<in> set (claim_list (js_get claims ''aud''))) \<and> (\<exists>iat. in_time cfg now claims e iat)"
proof -
  obtain d i nbf where d: "numeric_date (js_get claims ''exp'') ''EXP'' True = Inr d"
    "numeric_date (js_get claims ''iat'') ''IAT'' True = Inr i" "numeric_date (js_get claims ''nbf'') ''NBF'' False = Inr nbf"
    and iss: "js_get claims ''iss'' = JStr (oc_issuer cfg)" "audience_matches (js_get claims ''aud'') (oc_audiences cfg)"
      "subject_claim claims \<noteq> []" "length (subject_claim claims) \<le> 512"
    and w: "now < the d * 1000 + oc_skewMs cfg" "case nbf of None \<Rightarrow> True | Some n \<Rightarrow> n * 1000 \<le> now + oc_skewMs cfg"
      "the i * 1000 \<le> now + oc_skewMs cfg" "the i < the d" "the d - the i \<le> oc_maxLifetime cfg" "e = the d"
    using assms unfolding validate_claims_def Let_def subject_claim_def by (auto simp: not_le not_less split: option.splits)
  obtain exp iat where "d = Some exp" "js_Number (js_get claims ''exp'') = JInt exp" "\<not> nullish (js_get claims ''exp'')"
    "0 \<le> iat" "i = Some iat" "js_Number (js_get claims ''iat'') = JInt iat" "\<not> nullish (js_get claims ''iat'')"
    using numeric_date_required [OF d(1)] numeric_date_required [OF d(2)] by blast
  moreover have "nullish (js_get claims ''nbf'') \<or> (\<exists>n. js_Number (js_get claims ''nbf'') = JInt n \<and> n * 1000 \<le> now + oc_skewMs cfg)"
    using numeric_date_optional [OF d(3)] w(2) by (auto split: if_splits)
  ultimately have "in_time cfg now claims e iat" using w by (simp add: in_time_def)
  then show ?thesis using iss by (auto simp: audience_matches_def list_ex_iff)
qed

lemma member_map_filter: "r \<in> set (List.map_filter f xs) \<longleftrightarrow> (\<exists>x \<in> set xs. f x = Some r)"
  by (induction xs) (auto split: option.split)

lemma map_role_Inr:
  assumes "map_role cfg v = Inr role"
  shows "(\<exists>g \<in> set (claim_list v). map_of (oc_roleMap cfg) g = Some role)
    \<and> (\<forall>g \<in> set (claim_list v). map_of (oc_roleMap cfg) g \<in> {None, Some role})"
proof -
  have "mapped_roles cfg v = [role]"
    using assms by (auto simp: map_role_def split: list.splits)
  then have "set (mapped_roles cfg v) = {role}" by simp
  then have roles: "(\<exists>g \<in> set (claim_list v). map_of (oc_roleMap cfg) g = Some r) \<longleftrightarrow> r = role" for r
    by (simp add: mapped_roles_def member_map_filter set_eq_iff)
  have "map_of (oc_roleMap cfg) g \<in> {None, Some role}" if "g \<in> set (claim_list v)" for g
    using roles that by (cases "map_of (oc_roleMap cfg) g") auto
  then show ?thesis using roles by blast
qed

lemma map_tenant_Inr:
  "map_tenant cfg v = Inr t \<Longrightarrow> safe_ident ''._:-'' 0 127 t \<and> (oc_tenants cfg = [] \<or> t \<in> set (oc_tenants cfg)) \<and> t = trimmed v"
  by (auto simp: map_tenant_def oidc_identifier_def Let_def)

lemma token_principal_Inr:
  assumes "token_principal w cfg now kid claims = Inr p"
  obtains e groups tenant where "validate_claims cfg claims now = Inr e" "pr_credentialExpiresAt p = Some (e * 1000)"
    "claim_value claims (path_segments (oc_groupsClaim cfg)) = Inr groups" "map_role cfg groups = Inr (pr_role p)"
    "claim_value claims (path_segments (oc_tenantClaim cfg)) = Inr tenant" "map_tenant cfg tenant = Inr (pr_tenantId p)"
    "pr_subject p = federated_subject w (oc_issuer cfg) (subject_claim claims)" "fp_signingKeyId p = kid"
    "pr_authMethod p = Some ''oidc''" "pr_permissions p = []" "validate_assurance cfg claims = Inr ()"
    "pr_externalSubjectHash p = take 24 (sha256 w (subject_text (oc_issuer cfg) (subject_claim claims)))"
  using assms by (auto simp: token_principal_def Let_def)

lemma verify_jwt_signature_Inr:
  "verify_jwt_signature w j key = Inr () \<Longrightarrow>
     \<exists>verifier. verifier_name (jw_alg j) = Some verifier \<and> signature_ok w verifier key (jw_input j) (jw_signature j) = Some True
       \<and> (jw_alg j = ''RS256'' \<longrightarrow> js_get key ''kty'' = JStr ''RSA'' \<and> (\<exists>bits \<ge> 2048. key_bits w key = Some bits))"
  by (auto simp: verify_jwt_signature_def)

subsection \<open>A sample token\<close>

definition sample_claims :: jsval where
  "sample_claims = JObj [(''iss'', JStr ''https://i''), (''aud'', JStr ''api''), (''sub'', JStr ''ann''), (''exp'', JInt 100),
     (''iat'', JInt 10), (''groups'', JArr [JStr ''g'']), (''tenant_id'', JStr ''acme'')]"

definition sample_jwk :: jsval where
  "sample_jwk = JObj [(''kid'', JStr ''k''), (''kty'', JStr ''RSA'')]"

definition token_engine :: engine where
  "token_engine = \<lparr>sha256 = (\<lambda>s. s), date_parse = (\<lambda>_. None), url_parse = (\<lambda>_. None),
     json_parse = (\<lambda>s. if s = ''head'' then Some (JObj [(''alg'', JStr ''RS256''), (''kid'', JStr ''k'')])
       else if s = ''body'' then Some sample_claims
       else if s = ''jwks'' then Some (JObj [(''keys'', JArr [sample_jwk])]) else None),
     key_bits = (\<lambda>_. Some 2048), signature_ok = (\<lambda>_ _ _ _. Some True), scrypt32 = (\<lambda>s salt. s), uri_decode = Some\<rparr>"

definition token_config :: oidc_config where
  "token_config = \<lparr>oc_issuer = ''https://i'', oc_audiences = [''api''], oc_static = False, oc_roleMap = [(''g'', ''auditor'')],
     oc_tenantClaim = ''tenant_id'', oc_groupsClaim = ''groups'', oc_tenants = [''acme''], oc_algorithms = [''RS256''],
     oc_acr = [], oc_amr = [], oc_skewMs = 0, oc_maxLifetime = 90, oc_cacheMs = 30, oc_staleMs = 30\<rparr>"

definition token_env :: oidc_env where
  "token_env = \<lparr>ox_now = 20000, ox_fetch = (\<lambda>_. FetchAnswer True ''jwks'' JUndef), ox_answeredAt = (\<lambda>_. 20001)\<rparr>"

definition sample_token :: string where
  "sample_token = ''aGVhZA.Ym9keQ.c2ln''"

definition accepted_principal :: fed_principal where
  "accepted_principal = \<lparr>pr_subject = ''oidc-https://i|ann'', pr_tenantId = ''acme'', pr_role = ''auditor'', pr_permissions = [],
     pr_keyId = ''oidc-k-https://i|an'', pr_authMethod = Some ''oidc'', pr_amr = [], pr_acr = [],
     pr_externalSubjectHash = ''https://i|ann'', pr_credentialStatus = ''federated'', pr_credentialExpiresAt = Some 100000,
     pr_rotationRequired = False, fp_issuer = ''https://i'', fp_audience = Some ''api'', fp_signingKeyId = ''k''\<rparr>"

definition token_cache :: jwks_cache where
  "token_cache = \<lparr>jk_keys = [(''k'', sample_jwk)], jk_fetchedAt = Some 20001, jk_expiresAt = Some 20031,
     jk_staleUntil = Some 20061, jk_lastError = False\<rparr>"

lemma sample_token_accepted:
  "authenticate_token token_engine token_config token_env sample_token (oidc_run token_engine token_config [] cold_cache)
     = (token_cache, Inr accepted_principal)"
  by code_simp

subsection \<open>Properties\<close>

text \<open>
  C12. A token is checked with a key of the last answer of the provider. In every run of calls, one
  after another, against a provider that fails, rotates its keys or answers with any caching header,
  an accepted token carries a signature that verifies under a key with the token's key identifier, and
  this key is in the last usable answer that the run has read. Either the call read that answer itself;
  or it sent no fetch and the answer is fresh, not older than the shorter of the configured time and its
  own maximum age; or the one fetch it sent failed, and the answer is not past the stale time.
\<close>

theorem token_signed_with_current_key:
  assumes "\<not> oc_static cfg" and "st = oidc_run w cfg calls cold_cache"
    and "authenticate_token w cfg env token st = (st', Inr p)"
  shows "\<exists>keys t ttl key head body sig verifier.
      run_answers w cfg calls cold_cache @ answers_read w cfg env token st \<noteq> []
    \<and> last (run_answers w cfg calls cold_cache @ answers_read w cfg env token st) = (keys, t, ttl)
    \<and> map_of keys (fp_signingKeyId p) = Some key
    \<and> js_trim token = head @ ''.'' @ body @ ''.'' @ sig
    \<and> signature_ok w verifier key (head @ ''.'' @ body) (buffer_from sig) = Some True
    \<and> (answers_read w cfg env token st \<noteq> []
      \<or> fetches_sent w cfg env token st = [] \<and> ox_now env < t + ttl
      \<or> fetches_sent w cfg env token st = [False] \<and> answer_of w cfg env False = None \<and> ox_now env \<le> t + ttl + oc_staleMs cfg)"
proof -
  let ?as = "run_answers w cfg calls cold_cache @ answers_read w cfg env token st"
  obtain j kid key where j: "parse_jwt w token = Inr j" "jw_alg j \<in> set (oc_algorithms cfg)" "jw_kid j = Some kid"
    and lookup: "lookup_key w cfg env kid st = (st', Inr (Some key))" "map_of (jk_keys st') kid = Some key"
    and rest: "verify_jwt_signature w j key = Inr ()" "token_principal w cfg (ox_now env) kid (jw_payload j) = Inr p"
    using authenticate_token_Inr [OF assms(3)] by metis
  have "holds_last cfg (run_answers w cfg calls cold_cache) st"
    using holds_last_run [OF assms(1) holds_last_cold, of w calls] by (simp add: assms(2))
  then have holds: "holds_last cfg ?as st'"
    using holds_last_step [OF assms(1), of "run_answers w cfg calls cold_cache" st w env token] by (simp add: assms(3))
  obtain keys t ttl where last: "?as \<noteq> []" "last ?as = (keys, t, ttl)"
    and st': "jk_keys st' = keys" "jk_expiresAt st' = Some (t + ttl)" "jk_staleUntil st' = Some (t + (ttl + oc_staleMs cfg))"
    using holds_last_keys [OF holds lookup(2)] by metis
  have "fp_signingKeyId p = kid" using token_principal_Inr [OF rest(2)] by metis
  moreover obtain head body sig where "js_trim token = head @ ''.'' @ body @ ''.'' @ sig"
    "jw_signature j = buffer_from sig" "jw_input j = head @ ''.'' @ body"
    using parse_jwt_Inr [OF j(1)] by metis
  moreover obtain verifier where "signature_ok w verifier key (jw_input j) (jw_signature j) = Some True"
    using verify_jwt_signature_Inr [OF rest(1)] by metis
  moreover have "answers_read w cfg env token st \<noteq> []
      \<or> fetches_sent w cfg env token st = [] \<and> ox_now env < t + ttl
      \<or> fetches_sent w cfg env token st = [False] \<and> answer_of w cfg env False = None \<and> ox_now env \<le> t + ttl + oc_staleMs cfg"
    using lookup_Some [OF assms(1) lookup(1) j(1,3,2)] by (simp add: st' before_deadline_def within_deadline_def add.assoc)
  ultimately show ?thesis using last st'(1) lookup(2)
    by (intro exI [of _ keys] exI [of _ t] exI [of _ ttl] exI [of _ key] exI [of _ head] exI [of _ body] exI [of _ sig] exI [of _ verifier]) simp
qed

theorem token_signed_with_current_key_witness:
  "\<exists>keys t ttl. last (answers_read token_engine token_config token_env sample_token cold_cache) = (keys, t, ttl)
     \<and> map_of keys ''k'' \<noteq> None"
proof -
  have "\<not> oc_static token_config" by (simp add: token_config_def)
  from token_signed_with_current_key [OF this refl sample_token_accepted] show ?thesis
    by (auto simp: accepted_principal_def)
qed

text \<open>
  C27. An accepted token says what the configuration asks for. Its algorithm is a configured one and its
  signature verifies under the cached key it names; its issuer is the configured issuer, and it names a
  configured audience and a subject of at most 512 characters. The times of its claims \<open>exp\<close>, \<open>iat\<close> and,
  when it has one, \<open>nbf\<close> admit the present one: it has not expired, was not issued in the future and is
  active, each up to the clock skew, and its lifetime is not longer than allowed. Its groups map to the
  principal's role and to no other; the principal's tenant is its tenant claim and an allowed one; its
  authentication context and methods are those required. The principal's subject is derived from the
  issuer and the subject claim, and its credential ends when the token expires.
\<close>

theorem accepted_token_is_vouched:
  assumes "authenticate_token w cfg env token st = (st', Inr p)"
  shows "\<exists>j kid key verifier claims exp iat groups tenant.
      parse_jwt w token = Inr j \<and> jw_payload j = claims \<and> jw_alg j \<in> set (oc_algorithms cfg)
    \<and> jw_kid j = Some kid \<and> map_of (jk_keys st') kid = Some key
    \<and> signature_ok w verifier key (jw_input j) (jw_signature j) = Some True
    \<and> js_get claims ''iss'' = JStr (oc_issuer cfg)
    \<and> (\<exists>a \<in> set (oc_audiences cfg). a \<in> set (claim_list (js_get claims ''aud'')))
    \<and> subject_claim claims \<noteq> [] \<and> length (subject_claim claims) \<le> 512
    \<and> pr_subject p = federated_subject w (oc_issuer cfg) (subject_claim claims)
    \<and> js_Number (js_get claims ''exp'') = JInt exp \<and> \<not> nullish (js_get claims ''exp'')
    \<and> js_Number (js_get claims ''iat'') = JInt iat \<and> \<not> nullish (js_get claims ''iat'')
    \<and> (nullish (js_get claims ''nbf'') \<or> (\<exists>nbf. js_Number (js_get claims ''nbf'') = JInt nbf \<and> nbf * 1000 \<le> ox_now env + oc_skewMs cfg))
    \<and> ox_now env < exp * 1000 + oc_skewMs cfg \<and> iat * 1000 \<le> ox_now env + oc_skewMs cfg
    \<and> 0 \<le> iat \<and> iat < exp \<and> exp - iat \<le> oc_maxLifetime cfg \<and> pr_credentialExpiresAt p = Some (exp * 1000)
    \<and> claim_value claims (path_segments (oc_groupsClaim cfg)) = Inr groups
    \<and> (\<exists>g \<in> set (claim_list groups). map_of (oc_roleMap cfg) g = Some (pr_role p))
    \<and> (\<forall>g \<in> set (claim_list groups). map_of (oc_roleMap cfg) g \<in> {None, Some (pr_role p)})
    \<and> claim_value claims (path_segments (oc_tenantClaim cfg)) = Inr tenant \<and> pr_tenantId p = trimmed tenant
    \<and> (oc_tenants cfg = [] \<or> pr_tenantId p \<in> set (oc_tenants cfg))
    \<and> (oc_acr cfg = [] \<or> js_String (js_or_nullish (js_get claims ''acr'') (JStr [])) \<in> set (oc_acr cfg))
    \<and> set (oc_amr cfg) \<subseteq> set (claim_list (js_get claims ''amr''))"
proof -
  obtain j kid key where j: "parse_jwt w token = Inr j" "jw_alg j \<in> set (oc_algorithms cfg)" "jw_kid j = Some kid"
    "map_of (jk_keys st') kid = Some key" "verify_jwt_signature w j key = Inr ()"
    "token_principal w cfg (ox_now env) kid (jw_payload j) = Inr p"
    using authenticate_token_Inr [OF assms] by metis
  obtain verifier where sig: "signature_ok w verifier key (jw_input j) (jw_signature j) = Some True"
    using verify_jwt_signature_Inr [OF j(5)] by metis
  obtain e groups tenant where p: "validate_claims cfg (jw_payload j) (ox_now env) = Inr e"
    "claim_value (jw_payload j) (path_segments (oc_groupsClaim cfg)) = Inr groups" "map_role cfg groups = Inr (pr_role p)"
    "claim_value (jw_payload j) (path_segments (oc_tenantClaim cfg)) = Inr tenant" "map_tenant cfg tenant = Inr (pr_tenantId p)"
    "pr_subject p = federated_subject w (oc_issuer cfg) (subject_claim (jw_payload j))"
    "pr_credentialExpiresAt p = Some (e * 1000)" "validate_assurance cfg (jw_payload j) = Inr ()"
    using token_principal_Inr [OF j(6)] by metis
  obtain iat where iat: "in_time cfg (ox_now env) (jw_payload j) e iat"
    using validate_claims_Inr [OF p(1)] by blast
  have acr: "oc_acr cfg = [] \<or> js_String (js_or_nullish (js_get (jw_payload j) ''acr'') (JStr [])) \<in> set (oc_acr cfg)"
    "set (oc_amr cfg) \<subseteq> set (claim_list (js_get (jw_payload j) ''amr''))"
    using p(8) by (simp_all add: validate_assurance_def)
  show ?thesis
    using j(1-4) sig p(2,4,6,7) acr iat [unfolded in_time_def] validate_claims_Inr [OF p(1)] map_role_Inr [OF p(3)] map_tenant_Inr [OF p(5)]
    by (intro exI [of _ j] exI [of _ kid] exI [of _ key] exI [of _ verifier] exI [of _ "jw_payload j"] exI [of _ e] exI [of _ iat]
        exI [of _ groups] exI [of _ tenant]) blast
qed

theorem accepted_token_is_vouched_witness:
  "\<exists>j. parse_jwt token_engine sample_token = Inr j \<and> js_get (jw_payload j) ''iss'' = JStr ''https://i''
     \<and> (\<exists>exp. js_Number (js_get (jw_payload j) ''exp'') = JInt exp \<and> 20000 < exp * 1000)"
  using accepted_token_is_vouched [OF sample_token_accepted] by (auto simp: token_config_def token_env_def)

end
