(* ===== verification/AuthGateway.thy ===== *)
theory AuthGateway
  imports PrivilegedAccess OidcTrust IdentityLife ScimProvisioning
begin

section \<open>The authentication gateway (src/security/authenticationGateway.js)\<close>

text \<open>
  The gateway puts API keys, federated tokens, identity entitlements and privileged access
  together: exactly one kind of credential is accepted per request, a token passes only with the
  entitlement of its subject, and a permission is granted to the role and, when it is protected,
  to a live grant. src/security/privilegedAccessAdapter.js lets an unavailable store pass in observe
  mode. \<open>federated_answer\<close> is how src/federatedServer.js answers the errors of both.
\<close>

subsection \<open>The gateway and its errors\<close>

datatype gw_mode = ApiKeyMode | OidcMode | HybridMode

record gateway =
  gw_mode :: gw_mode
  gw_records :: "credential list"
  gw_warningDays :: int
  gw_oidc :: oidc_config
  gw_identity :: "id_config option"
  gw_pam :: "pam_config option"
  gw_tenants :: "string list"

text \<open>
  \<open>GwAuthentication\<close> and \<open>GwAuthorization\<close> carry the code or reason of an \<open>AuthenticationError\<close> or
  \<open>AuthorizationError\<close>; the rest passes through from the part that threw it.
\<close>

datatype gw_error =
    GwAuthentication string
  | GwAuthorization string
  | GwKey access_error
  | GwOidc oidc_error
  | GwIdentity id_error
  | GwPrivileged pam_error
  | GwPersistence

text \<open>A principal admitted by an API key, or by a token, whose own principal and entitlement go with it.\<close>

datatype admitted = ByKey principal | ByToken principal fed_principal "entitlement option"

fun gw_principal :: "admitted \<Rightarrow> principal" where
  "gw_principal (ByKey p) = p"
| "gw_principal (ByToken p t e) = p"

subsection \<open>Authentication\<close>

definition gw_bearer :: "jsval \<Rightarrow> gw_error + string" where
  "gw_bearer v = (let header = header_value v in
     if header = [] then Inr []
     else from_option (GwAuthentication ''OIDC_AUTHORIZATION_HEADER_INVALID'') (bearer_match header))"

definition lower_hex :: "char \<Rightarrow> bool" where
  "lower_hex c = is_hex c"

definition stable_federated_key :: "fed_principal \<Rightarrow> gw_error + string" where
  "stable_federated_key p = (let h = js_trim (pr_externalSubjectHash p); existing = js_trim (pr_keyId p) in
     if 24 \<le> length h \<and> length h \<le> 64 \<and> list_all lower_hex h then Inr (''oidc-'' @ take 24 h)
     else ensure (safe_ident ''._:-'' 0 127 existing) (GwAuthentication ''OIDC_SUBJECT_INVALID'') (Inr existing))"

definition enforce_tenant_header :: "(string \<Rightarrow> jsval) \<Rightarrow> fed_principal \<Rightarrow> gw_error + unit" where
  "enforce_tenant_header headers p = (let requestedTenant = header_value (headers ''x-tenant-id'') in
     ensure (requestedTenant = [] \<or> requestedTenant = pr_tenantId p) (GwAuthorization ''tenant_override'') (Inr ()))"

definition gw_oidc_error :: "oidc_error \<Rightarrow> gw_error" where
  "gw_oidc_error e = (case e of OidcAuth code \<Rightarrow> GwAuthentication code | _ \<Rightarrow> GwOidc e)"

definition gw_enforce :: "engine \<Rightarrow> gateway \<Rightarrow> id_env \<Rightarrow> id_file \<Rightarrow> fed_principal \<Rightarrow> gw_error + entitlement option" where
  "gw_enforce w g env f p = (case gw_identity g of
       None \<Rightarrow> Inr None
     | Some cfg \<Rightarrow> (case id_enforce w cfg env f p of Inl e \<Rightarrow> Inl (GwIdentity e) | Inr e \<Rightarrow> Inr e))"

text \<open>What the gateway makes of an accepted token.\<close>

definition admit_token ::
  "engine \<Rightarrow> gateway \<Rightarrow> (string \<Rightarrow> jsval) \<Rightarrow> id_env \<Rightarrow> id_file \<Rightarrow> fed_principal \<Rightarrow> gw_error + admitted" where
  "admit_token w g headers env f p =
     bindR (enforce_tenant_header headers p) (\<lambda>_.
     bindR (gw_enforce w g env f p) (\<lambda>e.
     bindR (stable_federated_key p) (\<lambda>keyId.
     bindR (from_option (GwKey (ConfigError ''role'')) (permissions_for_role (pr_role p))) (\<lambda>permissions.
     Inr (ByToken ((principal.truncate p)\<lparr>pr_keyId := keyId, pr_permissions := permissions\<rparr>) p e)))))"

definition gw_by_token ::
  "engine \<Rightarrow> gateway \<Rightarrow> (string \<Rightarrow> jsval) \<Rightarrow> oidc_env \<Rightarrow> id_env \<Rightarrow> id_file \<Rightarrow> string \<Rightarrow> (jwks_cache, gw_error, admitted) call" where
  "gw_by_token w g headers oenv ienv f token st =
     (case authenticate_token w (gw_oidc g) oenv token st of
        (st', Inl e) \<Rightarrow> (st', Inl (gw_oidc_error e))
      | (st', Inr p) \<Rightarrow> (st', admit_token w g headers ienv f p))"

definition gw_by_key :: "engine \<Rightarrow> gateway \<Rightarrow> (string \<Rightarrow> jsval) \<Rightarrow> int \<Rightarrow> gw_error + admitted" where
  "gw_by_key w g headers now =
     (case authenticate (scrypt32 w) (sha256 w) (gw_warningDays g) now (gw_records g) headers of
        Inl e \<Rightarrow> Inl (GwKey e)
      | Inr p \<Rightarrow> Inr (ByKey (p\<lparr>pr_authMethod := Some (case pr_authMethod p of None \<Rightarrow> ''api_key'' | Some m \<Rightarrow> m)\<rparr>)))"

definition gw_authenticate ::
  "engine \<Rightarrow> gateway \<Rightarrow> (string \<Rightarrow> jsval) \<Rightarrow> oidc_env \<Rightarrow> id_env \<Rightarrow> id_file \<Rightarrow> (jwks_cache, gw_error, admitted) call" where
  "gw_authenticate w g headers oenv ienv f =
     (let apiKey = header_value (headers ''x-api-key'') in
      bindS (liftS (gw_bearer (headers ''authorization''))) (\<lambda>bearer.
      if apiKey \<noteq> [] \<and> bearer \<noteq> [] then throwS (GwAuthentication ''AMBIGUOUS_CREDENTIALS'')
      else if bearer \<noteq> [] then
        ensureS (gw_mode g \<noteq> ApiKeyMode) (GwAuthentication ''AUTHENTICATION_METHOD_DISABLED'')
          (gw_by_token w g headers oenv ienv f bearer)
      else if apiKey \<noteq> [] then
        ensureS (gw_mode g \<noteq> OidcMode) (GwAuthentication ''AUTHENTICATION_METHOD_DISABLED'')
          (liftS (gw_by_key w g headers (ox_now oenv)))
      else throwS (GwAuthentication ''UNAUTHENTICATED'')))"

subsection \<open>Authorisation\<close>

datatype gw_grant = GwPlain | GwGranted pam_request | GwObserved string

definition adapter_authorise ::
  "(string \<Rightarrow> string) \<Rightarrow> pam_config \<Rightarrow> pam_env \<Rightarrow> pam_file \<Rightarrow> principal \<Rightarrow> string \<Rightarrow> pam_error + gw_grant" where
  "adapter_authorise H cfg env f p permission = (case pam_authorise H cfg env f (Some p) permission of
       Inr Unprotected \<Rightarrow> Inr GwPlain
     | Inr (Granted i) \<Rightarrow> Inr (GwGranted i)
     | Inr (Observed e) \<Rightarrow> Inr (GwObserved (case e of Access code \<Rightarrow> code | _ \<Rightarrow> []))
     | Inl StoreUnavailable \<Rightarrow> (if cf_mode cfg = Observe then Inr (GwObserved ''PRIVILEGED_ACCESS_STORE_UNAVAILABLE'') else Inl StoreUnavailable)
     | Inl e \<Rightarrow> Inl e)"

definition gw_authorise :: "engine \<Rightarrow> gateway \<Rightarrow> pam_env \<Rightarrow> pam_file \<Rightarrow> admitted option \<Rightarrow> string \<Rightarrow> gw_error + gw_grant" where
  "gw_authorise w g env f who permission = (case who of
       None \<Rightarrow> Inl (GwAuthorization ''permission_denied'')
     | Some a \<Rightarrow> ensure (permission \<in> set (pr_permissions (gw_principal a))) (GwAuthorization ''permission_denied'')
        (case gw_pam g of
           None \<Rightarrow> Inr GwPlain
         | Some cfg \<Rightarrow> (case adapter_authorise (sha256 w) cfg env f (gw_principal a) permission of
             Inr r \<Rightarrow> Inr r
           | Inl StoreUnavailable \<Rightarrow> Inl GwPersistence
           | Inl (Access code) \<Rightarrow> Inl (GwAuthorization code)
           | Inl e \<Rightarrow> Inl (GwPrivileged e))))"

subsection \<open>Tenants and health\<close>

definition gw_tenant_ids :: "engine \<Rightarrow> gateway \<Rightarrow> id_env \<Rightarrow> id_file \<Rightarrow> pam_env \<Rightarrow> pam_file \<Rightarrow> gw_error + string list" where
  "gw_tenant_ids w g ienv f penv pf =
     bindR (case gw_identity g of None \<Rightarrow> Inr []
            | Some cfg \<Rightarrow> (case id_tenant_ids w cfg ienv f of Inl e \<Rightarrow> Inl (GwIdentity e) | Inr ts \<Rightarrow> Inr ts)) (\<lambda>provisioned.
     let privileged = (case gw_pam g of None \<Rightarrow> []
            | Some cfg \<Rightarrow> (case pam_tenant_ids (sha256 w) penv pf of Inl _ \<Rightarrow> [] | Inr ts \<Rightarrow> ts)) in
     Inr (uniq (tenant_ids (gw_records g) @ gw_tenants g @ provisioned @ privileged)))"

definition gw_health :: "engine \<Rightarrow> gateway \<Rightarrow> int \<Rightarrow> jwks_cache \<Rightarrow> id_env \<Rightarrow> id_file \<Rightarrow> string option \<Rightarrow> string" where
  "gw_health w g now st ienv f pamStatus =
     (let statuses = (if gw_mode g \<noteq> OidcMode then [fst (credential_health (gw_warningDays g) now (gw_records g))] else [])
        @ (if gw_mode g \<noteq> ApiKeyMode then [oidc_health_status now st] else [])
        @ (case gw_identity g of None \<Rightarrow> [] | Some cfg \<Rightarrow> if ic_mode cfg = IdEnforce then [id_health_status w cfg ienv f] else [])
        @ (case (gw_pam g, pamStatus) of (Some cfg, Some s) \<Rightarrow> if cf_mode cfg = Enforce then [s] else [] | _ \<Rightarrow> [])
      in if list_all (\<lambda>s. s = ''ready'') statuses then ''ready'' else ''unavailable'')"

subsection \<open>How the server answers (src/federatedServer.js)\<close>

text \<open>The status of the answer, and whether the failure counts against the client's \<open>authFailure\<close> limit.\<close>

definition federated_answer :: "gw_error \<Rightarrow> int \<times> bool" where
  "federated_answer e = (case e of
       GwIdentity (IdDenied _) \<Rightarrow> (403, False)
     | GwIdentity IdStoreUnavailable \<Rightarrow> (503, False)
     | GwIdentity _ \<Rightarrow> (500, False)
     | GwAuthentication _ \<Rightarrow> (401, True)
     | GwKey (TenantOverride _ _) \<Rightarrow> (403, False)
     | GwKey (PermissionDenied _ _) \<Rightarrow> (403, False)
     | GwKey (ConfigError _) \<Rightarrow> (500, False)
     | GwKey _ \<Rightarrow> (401, True)
     | GwAuthorization _ \<Rightarrow> (403, False)
     | GwOidc OidcUnavailable \<Rightarrow> (503, False)
     | GwOidc _ \<Rightarrow> (500, False)
     | GwPersistence \<Rightarrow> (503, False)
     | GwPrivileged StoreUnavailable \<Rightarrow> (503, False)
     | GwPrivileged (TypeErr _) \<Rightarrow> (500, False)
     | GwPrivileged (Conflict _) \<Rightarrow> (409, False)
     | GwPrivileged (Access _) \<Rightarrow> (403, False))"

subsection \<open>An admitted token\<close>

lemma gw_by_token_Inr:
  "gw_by_token w g headers oenv ienv f token st = (st', Inr a) \<longleftrightarrow>
     (\<exists>p. authenticate_token w (gw_oidc g) oenv token st = (st', Inr p) \<and> admit_token w g headers ienv f p = Inr a)"
  by (auto simp: gw_by_token_def split: prod.split sum.split)

lemma admit_token_Inr:
  assumes "admit_token w g headers env f p = Inr a"
  obtains e keyId permissions where "a = ByToken ((principal.truncate p)\<lparr>pr_keyId := keyId, pr_permissions := permissions\<rparr>) p e"
    "gw_enforce w g env f p = Inr e" "permissions_for_role (pr_role p) = Some permissions"
    "header_value (headers ''x-tenant-id'') \<in> {[], pr_tenantId p}"
  using assms by (auto simp: admit_token_def enforce_tenant_header_def Let_def)

lemma gw_by_key_not_token: "gw_by_key w g headers now = Inr a \<Longrightarrow> \<exists>p. a = ByKey p"
  by (auto simp: gw_by_key_def split: sum.splits)

lemma gw_authenticate_token:
  assumes "gw_authenticate w g headers oenv ienv f st = (st', Inr (ByToken q p e))"
  obtains token where "gw_mode g \<noteq> ApiKeyMode" "header_value (headers ''x-api-key'') = []"
    "bearer_match (header_value (headers ''authorization'')) = Some token"
    "authenticate_token w (gw_oidc g) oenv token st = (st', Inr p)" "admit_token w g headers ienv f p = Inr (ByToken q p e)"
proof -
  obtain token where bearer: "gw_bearer (headers ''authorization'') = Inr token"
    using assms by (auto simp: gw_authenticate_def Let_def bindS_Inr)
  have token: "token \<noteq> []" and key: "header_value (headers ''x-api-key'') = []" and m: "gw_mode g \<noteq> ApiKeyMode"
    and by_token: "gw_by_token w g headers oenv ienv f token st = (st', Inr (ByToken q p e))"
    using assms bearer by (auto simp: gw_authenticate_def Let_def bindS_Inr split: if_splits dest: gw_by_key_not_token)
  obtain p' where p': "authenticate_token w (gw_oidc g) oenv token st = (st', Inr p')" "admit_token w g headers ienv f p' = Inr (ByToken q p e)"
    using by_token by (auto simp: gw_by_token_Inr)
  moreover have "p' = p" using admit_token_Inr [OF p'(2)] by auto
  ultimately show thesis
    using bearer token key m by (intro that) (auto simp: gw_bearer_def Let_def split: if_splits)
qed

lemma truncate_simps [simp]:
  "pr_subject (principal.truncate p) = pr_subject p" "pr_tenantId (principal.truncate p) = pr_tenantId p"
  "pr_role (principal.truncate p) = pr_role p" "pr_authMethod (principal.truncate p) = pr_authMethod p"
  by (simp_all add: principal.truncate_def)

lemma token_is_oidc:
  assumes "authenticate_token w cfg env token st = (st', Inr p)"
  shows "pr_authMethod p = Some ''oidc''"
  using authenticate_token_Inr [OF assms] token_principal_Inr by metis

lemma gw_enforce_entitled:
  assumes "gw_enforce w g env f p = Inr e" "gw_identity g = Some cfg" "ic_mode cfg = IdEnforce" "pr_authMethod p = Some ''oidc''"
  shows "\<exists>u. e = Some \<lparr>et_status = ''active'', et_user = Some u\<rparr> \<and> map_of (users_of f) (pr_subject p) = Some u
    \<and> iu_active u \<and> iu_tenantId u = pr_tenantId p \<and> iu_role u = pr_role p \<and> ix_now env < iu_reviewBy u"
proof -
  have enforced: "id_enforce w cfg env f p = Inr e"
    using assms(1,2) by (auto simp: gw_enforce_def split: sum.splits)
  then obtain x where x: "e = Some x" using assms(4) by (auto simp: id_enforce_def)
  from enforced_entitlement [OF enforced [unfolded x] assms(3)] show ?thesis unfolding x by blast
qed

lemma gw_authorise_grant:
  assumes "gw_authorise w g env f (Some a) permission = Inr r"
  shows "permission \<in> set (pr_permissions (gw_principal a))
    \<and> (\<forall>cfg. gw_pam g = Some cfg \<and> cf_mode cfg = Enforce \<longrightarrow>
        (\<exists>x. pam_authorise (sha256 w) cfg env f (Some (gw_principal a)) permission = Inr x))"
  using assms
  by (auto simp: gw_authorise_def adapter_authorise_def split: option.splits sum.splits authorisation.splits pam_error.splits if_splits)

end
