(* ===== verification/GatewayTrust.thy ===== *)
theory GatewayTrust
  imports AuthGateway
begin

section \<open>What passing the gateway means\<close>

text \<open>
  The properties that need all the parts: a grant that is active has the approval of other principals
  that the gateway admitted; a token that is admitted and used for a protected
  permission has an entitlement and a live grant; a provisioned identity gets in with a token of
  its issuer; and a malformed token that the server takes for an internal error.
\<close>

subsection \<open>Reading back what was stored\<close>

lemma reads_back:
  assumes "id_file_ok w f" "f = sealed_next cfg env s" "map_of (ic_keys cfg') (ic_primary cfg) = map_of (ic_keys cfg) (ic_primary cfg)"
    and "map_of (ic_keys cfg) (ic_primary cfg) \<noteq> None" "ix_lock ienv = Acquired"
  shows "\<exists>t. read_id_snapshot w cfg' ienv f = Inr t \<and> is_users t = users_of f"
  using assms
  by (auto simp: read_id_snapshot_def liftS_def read_id_unlocked_def sealed_next_def encrypt_id_snapshot_def id_file_ok_def
      id_snapshot_ok_def id_chain_def)

lemma upsert_fields:
  assumes "id_exec w cfg env (Upsert input ctx) f = (f', Inr u)"
  shows "\<exists>issuer i name. exact_issuer w (js_get input ''issuer'') = Inr issuer \<and> exact_issuer w (JStr issuer) = Inr i
    \<and> iu_subject u = federated_subject w i (trimmed (js_get input ''externalSubject''))
    \<and> permissions_for_role (iu_role u) \<noteq> None"
proof -
  have "\<exists>s s'. upsert_op w cfg env input ctx s = Inr (s', u)"
    using id_mutate_cases [of w cfg env "upsert_op w cfg env input ctx" f] assms
    by (auto simp: id_upsert_def)
  then show ?thesis
    by (auto simp: upsert_op_def normalise_provisioning_def derive_federated_subject_def Let_def id_required_text_def text_in_def
        provisioned_user_def id_safe_role_def split: if_splits)
qed

lemma upsert_seals:
  assumes "id_exec w cfg env (Upsert input ctx) f = (f', Inr u)" "id_file_ok w f"
  shows "\<exists>s. f' = sealed_next cfg env s"
  using assms(2)
proof (cases rule: id_exec_cases [of w f cfg env "Upsert input ctx"])
  case (stored s s' u')
  then show ?thesis using assms(1) by auto
qed (use assms(1) in auto)

lemma alnum_no_ws: "is_alnum c \<Longrightarrow> \<not> is_ws c"
  by (auto simp: is_alnum_def is_ws_def Let_def)

lemma trim_unpadded: "list_all (\<lambda>c. \<not> is_ws c) s \<Longrightarrow> js_trim s = s"
proof -
  have "list_all (\<lambda>c. \<not> is_ws c) s \<Longrightarrow> dropWhile is_ws s = s" for s by (cases s) auto
  then show "list_all (\<lambda>c. \<not> is_ws c) s \<Longrightarrow> js_trim s = s" by (simp add: js_trim_def list_all_rev)
qed

lemma safe_ident_trim:
  assumes "safe_ident ''._-'' lo hi s"
  shows "js_trim s = s"
proof -
  have "list_all (\<lambda>c. \<not> is_ws c) ''._-''" by code_simp
  then have "\<not> is_ws c" if "c \<in> set ''._-''" for c using that unfolding list_all_iff by blast
  moreover have "\<forall>c \<in> set s. is_alnum c \<or> c \<in> set ''._-''"
    using assms unfolding safe_ident_def by (cases s) (simp_all only: list.case list_all_iff set_simps(2) ball_simps, blast+)
  ultimately show ?thesis using alnum_no_ws by (intro trim_unpadded) (auto simp only: list_all_iff)
qed

lemma hex_no_ws: "is_hex c \<Longrightarrow> \<not> is_ws c"
  by (auto simp: is_hex_def is_ws_def Let_def)

lemma hex_trim: "list_all is_hex s \<Longrightarrow> js_trim s = s"
  by (rule trim_unpadded) (auto simp: list_all_iff hex_no_ws)

lemma hex_subject_trim:
  assumes "list_all is_hex s"
  shows "js_trim (''oidc-'' @ s) = ''oidc-'' @ s"
proof -
  have "list_all (\<lambda>c. \<not> is_ws c) ''oidc-''" by code_simp
  moreover have "list_all (\<lambda>c. \<not> is_ws c) s" using assms by (auto simp: list_all_iff hex_no_ws)
  ultimately show ?thesis by (intro trim_unpadded) (simp only: list_all_append)
qed

subsection \<open>A sample gateway\<close>

definition hex_hash :: "string \<Rightarrow> string" where
  "hex_hash s = replicate 64 (CHR ''a'')"

definition gate_claims :: jsval where
  "gate_claims = JObj [(''iss'', JStr ''https://i''), (''aud'', JStr ''api''), (''sub'', JStr ''ann''), (''exp'', JInt 100),
     (''iat'', JInt 10), (''groups'', JArr [JStr ''admins'']), (''tenant_id'', JStr ''acme''), (''amr'', JArr [JStr ''mfa''])]"

definition gate_engine :: engine where
  "gate_engine = token_engine\<lparr>sha256 := hex_hash, url_parse := url_parse sample_engine,
     json_parse := (\<lambda>s. if s = ''body'' then Some gate_claims else json_parse token_engine s)\<rparr>"

definition gate_oidc :: oidc_config where
  "gate_oidc = token_config\<lparr>oc_roleMap := [(''admins'', ''compliance_admin'')]\<rparr>"

definition gate_input :: jsval where
  "gate_input = JObj [(''issuer'', JStr ''https://i''), (''externalSubject'', JStr ''ann''), (''tenantId'', JStr ''acme''),
     (''role'', JStr ''compliance_admin''), (''reason'', JStr ''joins'')]"

definition gate_store :: id_file where
  "gate_store = fst (id_exec gate_engine sample_id_config sample_id_env (Upsert gate_input JUndef) NoUsers)"

definition sample_gateway :: gateway where
  "sample_gateway = \<lparr>gw_mode = OidcMode, gw_records = [], gw_warningDays = 14, gw_oidc = gate_oidc,
     gw_identity = Some sample_id_config, gw_pam = Some sample_cfg, gw_tenants = []\<rparr>"

definition token_headers :: "string \<Rightarrow> string \<Rightarrow> jsval" where
  "token_headers token h = (if h = ''authorization'' then JStr (''Bearer '' @ token) else JUndef)"

definition gate_user :: id_user where
  "gate_user = \<lparr>iu_id = ''IDN-u'', iu_subject = ''oidc-'' @ replicate 24 (CHR ''a''), iu_tenantId = ''acme'', iu_role = ''compliance_admin'',
     iu_active = True, iu_displayName = None, iu_reviewBy = 31536000005, iu_source = ''scim'', iu_createdAt = 5,
     iu_updatedAt = 5, iu_version = 1\<rparr>"

definition gate_token_principal :: fed_principal where
  "gate_token_principal = \<lparr>pr_subject = ''oidc-'' @ replicate 24 (CHR ''a''), pr_tenantId = ''acme'', pr_role = ''compliance_admin'',
     pr_permissions = [], pr_keyId = ''oidc-k-'' @ replicate 12 (CHR ''a''), pr_authMethod = Some ''oidc'', pr_amr = [''mfa''], pr_acr = [],
     pr_externalSubjectHash = replicate 24 (CHR ''a''), pr_credentialStatus = ''federated'', pr_credentialExpiresAt = Some 100000,
     pr_rotationRequired = False, fp_issuer = ''https://i'', fp_audience = Some ''api'', fp_signingKeyId = ''k''\<rparr>"

definition gate_principal :: principal where
  "gate_principal = (principal.truncate gate_token_principal)\<lparr>pr_keyId := ''oidc-'' @ replicate 24 (CHR ''a''),
     pr_permissions := the (permissions_for_role ''compliance_admin'')\<rparr>"

lemma gate_upsert:
  "snd (id_exec gate_engine sample_id_config sample_id_env (Upsert gate_input JUndef) NoUsers) = Inr gate_user"
  by code_simp

lemma gate_token:
  "authenticate_token gate_engine gate_oidc token_env sample_token cold_cache = (token_cache, Inr gate_token_principal)"
  by code_simp

lemma gate_admits:
  "admit_token gate_engine sample_gateway (token_headers sample_token) sample_id_env gate_store gate_token_principal
    = Inr (ByToken gate_principal gate_token_principal (Some \<lparr>et_status = ''active'', et_user = Some gate_user\<rparr>))"
  by code_simp

lemma gate_headers:
  "header_value (token_headers sample_token ''x-api-key'') = []" "gw_bearer (token_headers sample_token ''authorization'') = Inr sample_token"
  "sample_token \<noteq> []"
  by code_simp+

lemma gate_authenticates:
  "gw_authenticate gate_engine sample_gateway (token_headers sample_token) token_env sample_id_env gate_store cold_cache
    = (token_cache, Inr (ByToken gate_principal gate_token_principal (Some \<lparr>et_status = ''active'', et_user = Some gate_user\<rparr>)))"
  using gate_headers gate_token gate_admits
  by (simp add: gw_authenticate_def Let_def bindS_def liftS_def ensureS_def gw_by_token_def sample_gateway_def)

definition gate_pam :: pam_file where
  "gate_pam = fst (run_command hex_hash sample_cfg (sample_env 20000) (BreakGlass emergency) (Some gate_principal) JUndef Missing)"

lemma gate_emergency:
  "\<exists>s i. run_command hex_hash sample_cfg (sample_env 20000) (BreakGlass emergency) (Some gate_principal) JUndef Missing
       = (Sealed s, Inr i) \<and> map_of (ps_requests s) (pq_id i) = Some i
     \<and> i = break_glass_request sample_cfg (''PAM-'' @ replicate 36 (CHR ''0'')) 20000 (pr_subject gate_principal) ''acme'' ''compliance_admin''
         [''security:read''] ''production outage, pager escalation'' ''INC-1'' 5"
proof -
  let ?op = "break_glass_op hex_hash sample_cfg (sample_env 20000) gate_principal JUndef [''security:read''] 5
    ''production outage, pager escalation'' ''INC-1''"
  have "manage (Some gate_principal) ''privileged:break_glass'' = Inr gate_principal"
    "eligible sample_cfg (Some gate_principal) True = Inr gate_principal"
    "requested (js_get emergency ''permissions'') (cf_protected sample_cfg) (pr_permissions gate_principal) = Inr [''security:read'']"
    "pam_integer (js_get emergency ''durationMinutes'') ''durationMinutes'' 5 (cf_breakGlassMax sample_cfg) = Inr 5"
    "pam_text (js_get emergency ''reason'') ''reason'' 30 1000 = Inr ''production outage, pager escalation''"
    "pam_text (js_get emergency ''incidentRef'') ''incidentRef'' 3 128 = Inr ''INC-1''"
    "cf_breakGlassEnabled sample_cfg" "js_String (js_or_nullish (js_get emergency ''confirmation'') (JStr [])) = ''BREAK GLASS''"
    by code_simp+
  then have run: "run_command hex_hash sample_cfg (sample_env 20000) (BreakGlass emergency) (Some gate_principal) JUndef Missing
      = pam_mutate hex_hash sample_cfg (sample_env 20000) ?op Missing"
    by (simp add: activate_break_glass_def)
  have guards: "pam_subject (pr_subject gate_principal) = Inr (pr_subject gate_principal)"
    "pam_identifier (pr_tenantId gate_principal) ''tenantId'' = Inr ''acme''"
    "pam_role (pr_role gate_principal) = Inr ''compliance_admin''"
    "pam_actor (JStr (pr_subject gate_principal)) = Inr (pr_subject gate_principal)"
    by code_simp+
  have trims: "js_trim (pr_subject gate_principal) = pr_subject gate_principal" "js_trim (pr_tenantId gate_principal) = ''acme''"
    "pr_role gate_principal = ''compliance_admin''"
    by code_simp+
  obtain s2 r where op: "?op (empty_snapshot 20000) 20000 = Inr (s2, r)"
    using guards by (auto simp: break_glass_op_def commit_change_def Let_def)
  have "pam_read hex_hash (sample_env 20000) Missing = Inr (empty_snapshot 20000)"
    "prune sample_cfg 20000 (expire hex_hash (en_eventUuid (sample_env 20000)) 20000 (empty_snapshot 20000)) = empty_snapshot 20000"
    by (simp_all add: pam_read_def read_unlocked_def sample_env_def prune_def expire_def empty_snapshot_def)
  then obtain s where s: "pam_mutate hex_hash sample_cfg (sample_env 20000) ?op Missing = (Sealed s, Inr r)"
    using op by (simp add: pam_mutate_def sample_env_def Let_def)
  then have "run_command hex_hash sample_cfg (sample_env 20000) (BreakGlass emergency) (Some gate_principal) JUndef Missing = (Sealed s, Inr r)"
    by (simp only: run)
  moreover from run_command_stored [OF this] have "map_of (ps_requests s) (pq_id r) = Some r" by auto
  ultimately show ?thesis
    using break_glass_op_Inr(2) [OF op] trims by (simp add: sample_env_def)
qed

lemma gate_hash [simp]: "sha256 gate_engine = hex_hash"
  by (simp add: gate_engine_def)

lemma gate_pam_used:
  "\<exists>s. pam_reachable hex_hash sample_cfg (Sealed s)
    \<and> (\<exists>x. pam_authorise hex_hash sample_cfg (sample_env 20001) (Sealed s) (Some gate_principal) ''security:read'' = Inr (Granted x))"
proof -
  obtain s i where run: "run_command hex_hash sample_cfg (sample_env 20000) (BreakGlass emergency) (Some gate_principal) JUndef Missing
       = (Sealed s, Inr i)" and lookup: "map_of (ps_requests s) (pq_id i) = Some i"
    and i: "i = break_glass_request sample_cfg (''PAM-'' @ replicate 36 (CHR ''0'')) 20000 (pr_subject gate_principal) ''acme'' ''compliance_admin''
         [''security:read''] ''production outage, pager escalation'' ''INC-1'' 5"
    using gate_emergency by blast
  have "canonical (Some gate_principal)" by code_simp
  then have reach: "pam_reachable hex_hash sample_cfg (Sealed s)"
    using pam_step [OF pam_start, where H = hex_hash and cfg = sample_cfg] run by (metis fst_conv)
  have tenant: "pr_tenantId gate_principal = ''acme''" "eligible sample_cfg (Some gate_principal) False = Inr gate_principal"
    "''security:read'' \<in> set (cf_protected sample_cfg)"
    by code_simp+
  have "grants gate_principal ''security:read'' (effective i (en_now (sample_env 20001)))"
    by (simp add: i grants_def effective_def break_glass_request_def past_def sample_env_def tenant Let_def)
  then have "List.find (grants gate_principal ''security:read'')
      (map (\<lambda>p. effective (snd p) (en_now (sample_env 20001))) (ps_requests s)) \<noteq> None"
    unfolding find_None_iff using map_of_SomeD [OF lookup] by force
  moreover obtain t where "pam_read hex_hash (sample_env 20001) (Sealed s) = Inr t" "t = s"
  proof -
    have "chain_ok hex_hash s"
      using pam_reachable_inv [OF reach] by (simp add: pam_inv_def snapshot_inv_def)
    then have "pam_read hex_hash (sample_env 20001) (Sealed s) = Inr s"
      by (simp add: pam_read_def read_unlocked_def pam_verify_chain sample_env_def)
    then show thesis using that by blast
  qed
  ultimately show ?thesis using reach tenant by (auto simp: pam_authorise_def)
qed

subsection \<open>Whom the gateway admits\<close>

text \<open>
  The gateway's credentials come from the parser of the configuration. Then every admitted principal
  has a trimmed subject: that of a credential is a safe identifier, that of a token is made of a
  hexadecimal digest.
\<close>

definition configured :: "gateway \<Rightarrow> bool" where
  "configured g = (gw_records g = [] \<or> (\<exists>dp H allow ps. normalise_principals dp H allow ps = Inr (gw_records g)))"

lemma key_subject_trim:
  assumes "gw_by_key w g headers now = Inr a" and "configured g"
  shows "js_trim (pr_subject (gw_principal a)) = pr_subject (gw_principal a)"
proof -
  obtain p where p: "authenticate (scrypt32 w) (sha256 w) (gw_warningDays g) now (gw_records g) headers = Inr p"
    "pr_subject (gw_principal a) = pr_subject p"
    using assms(1) by (auto simp: gw_by_key_def split: sum.splits)
  obtain r where r: "resolve_credential (scrypt32 w) (gw_records g) (header_value (headers ''x-api-key'')) = Some r" "pr_subject p = cr_subject r"
    using authenticate_Inr [OF p(1)] by metis
  have "r \<in> set (gw_records g)" using resolve_presents [OF r(1)] by simp
  moreover from this have "list_all credential_ok (gw_records g)"
    using assms(2) normalise_principals_ok by (fastforce simp: configured_def)
  ultimately show ?thesis using r(2) p(2) safe_ident_trim by (auto simp: list_all_iff credential_ok_def)
qed

lemma gateway_canonical:
  assumes "gw_authenticate w g headers oenv ienv f st = (st', Inr a)" and "configured g" and "\<forall>x. list_all is_hex (sha256 w x)"
  shows "canonical (Some (gw_principal a))"
proof (cases a)
  case (ByKey p)
  then have "gw_by_key w g headers (ox_now oenv) = Inr a"
    using assms(1) by (auto simp: gw_authenticate_def Let_def bindS_Inr gw_by_token_Inr split: if_splits elim!: admit_token_Inr)
  from key_subject_trim [OF this assms(2)] show ?thesis by (simp add: canonical_def)
next
  case (ByToken q p e)
  obtain token where p: "authenticate_token w (gw_oidc g) oenv token st = (st', Inr p)" "admit_token w g headers ienv f p = Inr (ByToken q p e)"
    using gw_authenticate_token assms(1) unfolding ByToken by metis
  obtain issuer name where s: "pr_subject p = ''oidc-'' @ take 24 (sha256 w (subject_text issuer name))"
    using authenticate_token_Inr [OF p(1)] token_principal_Inr by (metis federated_subject_def)
  have "list_all is_hex (take 24 (sha256 w (subject_text issuer name)))"
    using assms(3) by (metis append_take_drop_id list_all_append)
  moreover have "pr_subject q = pr_subject p" by (rule admit_token_Inr [OF p(2)]) simp
  ultimately show ?thesis using hex_subject_trim by (simp add: canonical_def ByToken s)
qed

text \<open>
  The store as its callers see it: src/security/privilegedAccessHandler.js gives the registry the principal
  that the gateway has authenticated for the request. The gateway's configuration may change in between.
\<close>

inductive served :: "engine \<Rightarrow> pam_config \<Rightarrow> pam_file \<Rightarrow> bool" for w cfg where
  served_start: "served w cfg Missing"
| served_step: "served w cfg f \<Longrightarrow> configured g \<Longrightarrow> gw_authenticate w g headers oenv ienv idf st = (st', Inr a) \<Longrightarrow>
     served w cfg (fst (run_command (sha256 w) cfg env cmd (Some (gw_principal a)) ctx f))"

lemma served_reachable: "served w cfg f \<Longrightarrow> \<forall>x. list_all is_hex (sha256 w x) \<Longrightarrow> pam_reachable (sha256 w) cfg f"
  by (induction rule: served.induct) (blast intro: pam_reachable.intros dest: gateway_canonical)+

subsection \<open>Three administrators and a request\<close>

definition admin_entry :: "string \<Rightarrow> jsval" where
  "admin_entry name = JObj [(''apiKey'', JStr (name @ ''-0123456789abcdef'')), (''keyId'', JStr (name @ ''-key'')),
     (''subject'', JStr name), (''tenantId'', JStr ''acme''), (''role'', JStr ''compliance_admin'')]"

definition admin_record :: "string \<Rightarrow> credential" where
  "admin_record name = \<lparr>cr_keyId = name @ ''-key'', cr_subject = name, cr_tenantId = ''acme'', cr_role = ''compliance_admin'',
     cr_status = ''active'', cr_notBefore = None, cr_expiresAt = None, cr_secret = Legacy (name @ ''-0123456789abcdef'')\<rparr>"

definition admin_cfg :: pam_config where
  "admin_cfg = sample_cfg\<lparr>cf_allowApiKey := True\<rparr>"

definition admin_engine :: engine where
  "admin_engine = gate_engine\<lparr>sha256 := digest1\<rparr>"

definition admin_gateway :: gateway where
  "admin_gateway = \<lparr>gw_mode = ApiKeyMode, gw_records = [admin_record ''ann'', admin_record ''bob'', admin_record ''cyd''],
     gw_warningDays = 14, gw_oidc = gate_oidc, gw_identity = None, gw_pam = Some admin_cfg, gw_tenants = []\<rparr>"

definition admin_headers :: "string \<Rightarrow> string \<Rightarrow> jsval" where
  "admin_headers name h = (if h = ''x-api-key'' then JStr (name @ ''-0123456789abcdef'') else JUndef)"

definition admin :: "string \<Rightarrow> principal" where
  "admin name = \<lparr>pr_subject = name, pr_tenantId = ''acme'', pr_role = ''compliance_admin'',
     pr_permissions = the (permissions_for_role ''compliance_admin''), pr_keyId = name @ ''-key'', pr_authMethod = Some ''api_key'',
     pr_amr = [], pr_acr = [], pr_externalSubjectHash = [], pr_credentialStatus = ''active'',
     pr_credentialExpiresAt = None, pr_rotationRequired = False\<rparr>"

lemma admins_configured: "configured admin_gateway"
proof -
  have "normalise_principals Map.empty (\<lambda>s. s) True (JArr [admin_entry ''ann'', admin_entry ''bob'', admin_entry ''cyd''])
    = Inr (gw_records admin_gateway)"
    by code_simp
  then show ?thesis unfolding configured_def by blast
qed

lemma admin_cfg_made:
  "make_pam_config (JObj [(''mode'', JStr ''enforce''), (''eventRetention'', JInt 100), (''breakGlassEnabled'', JBool True),
     (''allowApiKey'', JBool True)]) = Inr admin_cfg"
  by code_simp

lemma admin_authenticates:
  "gw_authenticate admin_engine admin_gateway (admin_headers ''ann'') token_env sample_id_env NoUsers cold_cache
     = (cold_cache, Inr (ByKey (admin ''ann'')))"
  "gw_authenticate admin_engine admin_gateway (admin_headers ''bob'') token_env sample_id_env NoUsers cold_cache
     = (cold_cache, Inr (ByKey (admin ''bob'')))"
  "gw_authenticate admin_engine admin_gateway (admin_headers ''cyd'') token_env sample_id_env NoUsers cold_cache
     = (cold_cache, Inr (ByKey (admin ''cyd'')))"
  by code_simp+

text \<open>An administrator with a key does what the person of \<open>PrivilegedAccess\<close> with a token does there.\<close>

lemma admin_requests:
  "run_command digest1 admin_cfg (sample_env 10) (RequestAccess ask) (Some (admin ''ann'')) JUndef Missing = (Sealed snap1, Inr item1)"
  by code_simp

lemma mutate_same_limits: "pam_mutate H (cfg\<lparr>cf_allowApiKey := b\<rparr>) = pam_mutate H cfg"
proof -
  have "prune (cfg\<lparr>cf_allowApiKey := b\<rparr>) = prune cfg" "trim_events (cfg\<lparr>cf_allowApiKey := b\<rparr>) = trim_events cfg"
    by (intro ext; simp add: prune_def prunable_def trim_events_def)+
  then show ?thesis by (intro ext) (simp only: pam_mutate_def)
qed

lemma admin_approves:
  assumes "name \<noteq> []"
  shows "run_command digest1 admin_cfg env (Approve rid (agree v)) (Some (admin name)) JUndef f
    = run_command digest1 sample_cfg env (Approve rid (agree v)) (Some (person name)) JUndef f"
proof -
  have comment: "text_in 10 1000 (js_get (agree v) ''comment'') = Some ''reviewed it''"
    by (simp add: agree_def) code_simp
  have perm: "''privileged:approve'' \<in> set (the (permissions_for_role ''compliance_admin''))" by code_simp
  have guards: "manage (Some (admin name)) ''privileged:approve'' = Inr (admin name)" "eligible admin_cfg (Some (admin name)) False = Inr (admin name)"
    "manage (Some (person name)) ''privileged:approve'' = Inr (person name)" "eligible sample_cfg (Some (person name)) False = Inr (person name)"
    using assms perm by (simp_all add: manage_def eligible_def admin_def person_def admin_cfg_def sample_cfg_def)
  have op: "approve_op H env (admin name) = approve_op H env (person name)" for H env
    by (intro ext) (simp add: approve_op_def check_tenant_def admin_def person_def)
  show ?thesis
    unfolding approve_runs [OF guards(1,2) comment] approve_runs [OF guards(3,4) comment] op
    by (simp add: admin_cfg_def mutate_same_limits)
qed

lemma admins_served: "served admin_engine admin_cfg (Sealed snap3)"
proof -
  have digest: "sha256 admin_engine = digest1" by (simp add: admin_engine_def)
  have "served admin_engine admin_cfg (Sealed snap1)"
    using served_step [OF served_start admins_configured admin_authenticates(1), of admin_cfg "sample_env 10" "RequestAccess ask" JUndef] admin_requests
    by (simp add: digest)
  then have "served admin_engine admin_cfg (Sealed snap2)"
    using served_step [OF _ admins_configured admin_authenticates(2), of admin_cfg "Sealed snap1" "sample_env 20" "Approve (JStr sample_id) (agree 1)" JUndef] run2
    by (simp add: digest admin_approves del: run_command.simps)
  then show ?thesis
    using served_step [OF _ admins_configured admin_authenticates(3), of admin_cfg "Sealed snap2" "sample_env 30" "Approve (JStr sample_id) (agree 2)" JUndef] run3
    by (simp add: digest admin_approves del: run_command.simps)
qed

subsection \<open>Properties\<close>

text \<open>
  C10. An active grant has the approval of others. Let a store be changed by the principals that
  the gateway authenticates, by API keys of an accepted configuration or by tokens, in any order and
  with any commands, failures and changes of the keys. Then a request in it that is active and not an
  emergency grant was approved by at least two, and the configured number of, pairwise different
  subjects, none of them the requester. Digests are taken to be hexadecimal, as \<open>digest('hex')\<close> gives them.
\<close>

theorem active_grant_has_quorum:
  assumes "make_pam_config options = Inr cfg" and "\<forall>x. list_all is_hex (sha256 w x)" and "served w cfg (Sealed s)"
    and "map_of (ps_requests s) k = Some i" and "pq_status i = ''active''" and "\<not> pq_breakGlass i"
  shows "2 \<le> card (set (map ap_subject (pq_approvals i)) - {pq_subject i})
    \<and> cf_approvalsRequired cfg \<le> card (set (map ap_subject (pq_approvals i)) - {pq_subject i})"
  using reachable_quorum [OF assms(1) served_reachable [OF assms(3,2)] assms(4-6)] .

theorem active_grant_has_quorum_witness:
  "2 \<le> card (set (map ap_subject (pq_approvals item3)) - {pq_subject item3})"
proof -
  have "map_of (ps_requests snap3) sample_id = Some item3" "pq_status item3 = ''active''" "\<not> pq_breakGlass item3"
    by (simp_all add: snap3_def sample_snapshot_def item3_def sample_request_def)
  moreover have "\<forall>x. list_all is_hex (sha256 admin_engine x)"
    by (simp add: admin_engine_def digest1_def is_hex_def)
  ultimately show ?thesis using active_grant_has_quorum [OF admin_cfg_made _ admins_served] by blast
qed

text \<open>
  C3. Whoever uses a protected permission on a token was let in twice. With entitlements and
  privileged access in enforce mode, and a store of requests that only principals with trimmed subjects,
  as the gateway admits, have changed, when the gateway admits a token and then authorises a protected
  permission, the request carried no API key; the store holds an active, unexpired entitlement
  of that subject for exactly that tenant and role; the permission belongs to the role; and there is
  a live request of the same subject and tenant for the permission, approved by the required number
  of others unless it is an emergency grant.
\<close>

theorem protected_use_is_entitled_and_granted:
  assumes "gw_authenticate w g headers oenv ienv f st = (st', Inr (ByToken q p e))"
    and "gw_identity g = Some icfg" and "ic_mode icfg = IdEnforce"
    and "gw_pam g = Some pcfg" and "make_pam_config options = Inr pcfg" and "cf_mode pcfg = Enforce"
    and "pam_reachable (sha256 w) pcfg pf" and "permission \<in> set (cf_protected pcfg)"
    and "gw_authorise w g penv pf (Some (ByToken q p e)) permission = Inr r"
  shows "header_value (headers ''x-api-key'') = []
    \<and> (\<exists>u permissions s k i t. map_of (users_of f) (pr_subject q) = Some u \<and> iu_active u \<and> iu_tenantId u = pr_tenantId q
        \<and> iu_role u = pr_role q \<and> ix_now ienv < iu_reviewBy u
        \<and> permissions_for_role (iu_role u) = Some permissions \<and> permission \<in> set permissions
        \<and> pf = Sealed s \<and> map_of (ps_requests s) k = Some i \<and> pq_subject i = pr_subject q \<and> pq_tenantId i = pr_tenantId q
        \<and> permission \<in> set (pq_permissions i) \<and> pq_status i = ''active'' \<and> pq_activatedAt i = Some t
        \<and> en_now penv < t + (if pq_breakGlass i then 60 else 1440) * 60000 \<and> (pq_breakGlass i \<or> quorum pcfg i))"
proof -
  obtain token where a: "header_value (headers ''x-api-key'') = []"
    "authenticate_token w (gw_oidc g) oenv token st = (st', Inr p)" "admit_token w g headers ienv f p = Inr (ByToken q p e)"
    using gw_authenticate_token [OF assms(1)] by metis
  obtain keyId permissions where q: "q = (principal.truncate p)\<lparr>pr_keyId := keyId, pr_permissions := permissions\<rparr>"
    "gw_enforce w g ienv f p = Inr e" "permissions_for_role (pr_role p) = Some permissions"
    using admit_token_Inr [OF a(3)] by (metis admitted.inject(2))
  obtain u where u: "map_of (users_of f) (pr_subject p) = Some u" "iu_active u" "iu_tenantId u = pr_tenantId p"
    "iu_role u = pr_role p" "ix_now ienv < iu_reviewBy u"
    using gw_enforce_entitled [OF q(2) assms(2,3) token_is_oidc [OF a(2)]] by blast
  have same: "pr_subject q = pr_subject p" "pr_tenantId q = pr_tenantId p" "pr_role q = pr_role p" "pr_permissions q = permissions"
    by (simp_all add: q(1))
  have "permission \<in> set permissions" and "\<exists>x. pam_authorise (sha256 w) pcfg penv pf (Some q) permission = Inr x"
    using gw_authorise_grant [OF assms(9)] assms(4,6) same(4) by simp_all
  then obtain x where "pam_authorise (sha256 w) pcfg penv pf (Some q) permission = Inr x" by blast
  from authorised_grant [OF assms(5,6,7,8) this] obtain s k i t where grant: "pf = Sealed s" "map_of (ps_requests s) k = Some i"
    "pq_subject i = pr_subject q" "pq_tenantId i = pr_tenantId q" "permission \<in> set (pq_permissions i)" "pq_status i = ''active''"
    "pq_activatedAt i = Some t" "en_now penv < t + (if pq_breakGlass i then 60 else 1440) * 60000" "pq_breakGlass i \<or> quorum pcfg i"
    by blast
  have role: "permissions_for_role (iu_role u) = Some permissions"
    using u(4) q(3) by simp
  show ?thesis
    unfolding same
    using a(1) u role \<open>permission \<in> set permissions\<close> grant [unfolded same] by blast
qed

theorem protected_use_is_entitled_and_granted_witness:
  "\<exists>u (i :: pam_request). map_of (users_of gate_store) (pr_subject gate_principal) = Some u \<and> pq_subject i = pr_subject gate_principal \<and> iu_active u"
proof -
  obtain s x where s: "pam_reachable hex_hash sample_cfg (Sealed s)"
    "pam_authorise hex_hash sample_cfg (sample_env 20001) (Sealed s) (Some gate_principal) ''security:read'' = Inr (Granted x)"
    using gate_pam_used by blast
  have perm: "''security:read'' \<in> set (pr_permissions gate_principal)" by code_simp
  let ?a = "ByToken gate_principal gate_token_principal (Some \<lparr>et_status = ''active'', et_user = Some gate_user\<rparr>)"
  have use: "gw_authorise gate_engine sample_gateway (sample_env 20001) (Sealed s) (Some ?a) ''security:read'' = Inr (GwGranted x)"
    using s(2) perm by (simp add: gw_authorise_def adapter_authorise_def sample_gateway_def)
  have reach: "pam_reachable (sha256 gate_engine) sample_cfg (Sealed s)" using s(1) by simp
  have modes: "gw_identity sample_gateway = Some sample_id_config" "ic_mode sample_id_config = IdEnforce"
    "gw_pam sample_gateway = Some sample_cfg" "cf_mode sample_cfg = Enforce" "''security:read'' \<in> set (cf_protected sample_cfg)"
    by (simp_all add: sample_gateway_def sample_id_config_def sample_cfg_def)
  from protected_use_is_entitled_and_granted [OF gate_authenticates modes(1-3) sample_cfg_made modes(4) reach modes(5) use]
  show ?thesis by (elim conjE exE) (intro exI conjI, assumption+)
qed

text \<open>
  C36. A token with a garbled signature is an internal error that no limit counts. When header and
  payload decode and the header names an algorithm, but the third part is not base64url, the
  gateway lets a plain error escape: the answer is 500 and the failure is not charged to the client's
  \<open>authFailure\<close> limit, unlike every other malformed token, which is a counted 401.
\<close>

theorem malformed_signature_escapes_the_limit:
  assumes "gw_mode g \<noteq> ApiKeyMode" and "header_value (headers ''x-api-key'') = []"
    and "gw_bearer (headers ''authorization'') = Inr token" and "js_trim token = token" and "int (length token) \<le> 16384"
    and "split_at (CHR ''.'') token = [head, body, sig]" and "sig \<noteq> []" and "\<not> base64url_text sig"
    and "decode_json_part w head = Inr header" and "decode_json_part w body = Inr payload" and "check_jwt_header header = Inr alg"
  shows "\<exists>e. gw_authenticate w g headers oenv ienv f st = (st, Inl e) \<and> federated_answer e = (500, False)"
proof -
  have parts: "head \<noteq> []" "body \<noteq> []" "token \<noteq> []"
    using assms(6,9,10) by (auto simp: decode_json_part_def decode_base64url_def base64url_text_def ensure_def)
  have "parse_jwt w token = Inl (OidcPlainErr ''invalid base64url'')"
    using assms(4-11) parts by (simp add: parse_jwt_def Let_def decode_base64url_def ensure_def bindR_def)
  then have "authenticate_token w (gw_oidc g) oenv token st = (st, Inl (OidcPlainErr ''invalid base64url''))"
    by (simp add: authenticate_token_def bindS_def liftS_def)
  then have "gw_authenticate w g headers oenv ienv f st = (st, Inl (GwOidc (OidcPlainErr ''invalid base64url'')))"
    using assms(1-3) parts(3) by (simp add: gw_authenticate_def Let_def bindS_def liftS_def ensureS_def gw_by_token_def gw_oidc_error_def)
  then show ?thesis by (simp add: federated_answer_def)
qed

definition garbled_token :: string where
  "garbled_token = ''aGVhZA.Ym9keQ.!''"

theorem malformed_signature_escapes_the_limit_witness:
  "\<exists>e. snd (gw_authenticate gate_engine sample_gateway (token_headers garbled_token) token_env sample_id_env gate_store cold_cache) = Inl e
     \<and> federated_answer e = (500, False)"
proof -
  let ?head = "''aGVhZA''" and ?body = "''Ym9keQ''"
  obtain header payload alg where decoded: "decode_json_part gate_engine ?head = Inr header"
    "decode_json_part gate_engine ?body = Inr payload" "check_jwt_header header = Inr alg"
  proof -
    have "case decode_json_part gate_engine ?head of Inl _ \<Rightarrow> False | Inr h \<Rightarrow> check_jwt_header h = Inr ''RS256''"
      "decode_json_part gate_engine ?body = Inr gate_claims"
      by code_simp+
    then show thesis using that by (auto split: sum.splits)
  qed
  have shape: "header_value (token_headers garbled_token ''x-api-key'') = []"
    "gw_bearer (token_headers garbled_token ''authorization'') = Inr garbled_token" "js_trim garbled_token = garbled_token"
    "int (length garbled_token) \<le> 16384" "split_at (CHR ''.'') garbled_token = [?head, ?body, ''!'']"
    "\<not> base64url_text ''!''" "gw_mode sample_gateway \<noteq> ApiKeyMode"
    by code_simp+
  from malformed_signature_escapes_the_limit [OF shape(7,1-5) _ shape(6) decoded]
  show ?thesis by (metis list.distinct(1) snd_conv)
qed

end
