(* ===== verification/Spec2Isabelle.thy ===== *)
theory Spec2Isabelle
  imports AuditService ExportGuarantees BundleDelivery EvidenceCustody FileMutex RateLimiter LeaseProtocol RecoveryLoss ScanMaintenance ScimGuarantees GatewayTrust
begin

text \<open>
  A verification development for basitclaw, a workforce-audit service: a JavaScript server that keeps
  audit engagements and findings per tenant with a hash-chained governance ledger, encrypted
  snapshots with backups and replicas, a registry of encrypted evidence with a chain of custody,
  just-in-time privileged access, rate limits, and files shared by several processes. All paths
  below are under \<open>src/\<close> of the repository.

  THE PARTS AND THEIR THEORIES

  Common ground. \<open>JsCore\<close> has the JavaScript values, results \<open>'e + 'a\<close> (a thrown error is \<open>Inl\<close>), the
  trimming, coercions and identifier patterns that the code uses everywhere. \<open>JsonText\<close> has
  \<open>JSON.stringify\<close> and the canonical \<open>stableStringify\<close>, with the theorem that a JSON text determines its
  value. \<open>HashChain\<close> is the locale of event logs in which each event carries the digest of its
  predecessor; the ledger, the privileged-access, custody and identity logs interpret it. \<open>Base64\<close> has
  the canonical base64 check of secrets and keys. \<open>Effects\<close> has what can go wrong with a file (a write
  that fails before or after its rename, a lock that is not obtained or lost) and calls that
  change a state and may throw, with rules that compose invariants along such calls.

  Governance and audit. \<open>GovernanceLedger\<close> models services/governanceLedger.js: \<open>ledger_append\<close>,
  \<open>import_tenant\<close>, \<open>replace_tenant\<close>, \<open>rollback_to\<close>, \<open>checkpoint\<close> and \<open>ledger_verify\<close> over one list of events.
  \<open>AuditService\<close> models services/workforceAuditService.js with data/workforceAuditFixtures.js:
  \<open>create_engagement\<close>, \<open>add_fieldwork_placeholder\<close>, \<open>create_finding\<close> and the overview, each mutation
  validated and then committed to memory, ledger and snapshot together (\<open>commit_mutation\<close>).

  Persistence. \<open>SnapshotStore\<close> models persistence/encryptedSnapshotStore.js, \<open>RecoveryPoints\<close> what
  persistence/backupManager.js and resilience/replicaManager.js have in common (the locale
  \<open>recovery_dir\<close>, interpreted in \<open>BackupManager\<close> and \<open>ReplicaManager\<close>). \<open>WorkforceRegistry\<close> models
  services/workforceAuditRegistry.js, which puts services, ledger, store, backups and replicas
  together: every command is a call on \<open>wf_state\<close>. \<open>WorkforceDurability\<close> proves the invariant that memory
  and snapshot agree after every command whatever writes fail, \<open>WorkforceRestore\<close> the theorems on
  restores and isolation, \<open>RecoveryLoss\<close> how a failed backup loses an older one.

  Several processes. \<open>FileMutex\<close> models security/fileMutex.js and \<open>LeaseProtocol\<close>
  coordination/fileLeaseCoordinator.js with \<open>write\<close> of coordination/coordinatedRegistry.js, both as step
  relations in which one step is one file-system call of one of any number of processes, with
  faults, crashes and clock ticks in between. \<open>FencedStore\<close> models coordination/fencedSnapshotStore.js.

  Evidence. \<open>EvidenceRegistry\<close> models evidence/evidenceRegistry.js with evidence/evidenceCrypto.js:
  ingest, new version, hold, release, retention, disposal, reading, purging, reference checks and
  verification; an abstract specification without files and its refinement. \<open>EvidenceCustody\<close> has the
  theorems over all histories of commands.

  External scans. \<open>ScanOutbox\<close> models evidence/externalScanJobOutbox.js: one sealed record per scan
  job in the directory of its state, moved by queueing, claiming, acknowledging, failing and
  completing, with the content sealed for the provider, the providers' signed requests, the replay
  markers, and the repair of what a failed write or move left behind.
  \<open>ScanLifecycle\<close> models evidence/externalScanJobLifecycle.js, the janitor and the managed outbox around
  it. \<open>CallLogic\<close> has the weakest-precondition rules for calls and loops over calls, \<open>ScanJobLife\<close> the
  machine \<open>job_step\<close> whose runs are the commands of the outbox with any failing writes, and the invariant
  \<open>outbox_inv\<close> of its reachable states; \<open>ScanDelivery\<close> and \<open>ScanMaintenance\<close> the theorems over those runs, on
  concrete states of \<open>ScanSample\<close> where they need one.

  Assurance exports. \<open>RecordFiles\<close> has the directories of sealed records, with writes that fail or tear,
  that the next two share. \<open>ExportApproval\<close> models evidence/evidenceAssuranceExportApprovalStore.js: requests
  to disclose evidence, their approval by a quorum, rejection, cancellation, expiry, and the execution
  of an approved export, which gets the export as a function. \<open>ExportLife\<close> has the machine \<open>ap_run\<close> and
  the steps of a request, \<open>ExportGuarantees\<close> the theorems. \<open>BundleStore\<close> models
  evidence/evidenceAssuranceBundleStore.js: bundles sealed for a recipient, which claims and acknowledges
  them by signed requests under a lease. \<open>BundleLife\<close> has the machine \<open>bd_run\<close>, the steps of a bundle and
  what a claim hands out, \<open>BundleDelivery\<close> the theorems.

  Access. \<open>AccessControl\<close> models security/accessControl.js (credentials, roles, authentication of a
  request), \<open>PrivilegedAccess\<close> models security/privilegedAccessRegistry.js (requests, approvals, denial,
  revocation, break-glass and its review, expiry, pruning, authorisation), \<open>RateLimiter\<close> models
  security/rateLimiter.js and security/sharedRateLimiter.js.

  Federated identity. \<open>IdentityRegistry\<close> models security/identityEntitlementRegistry.js and
  security/federatedIdentity.js: who is entitled to which tenant and role, with optimistic versions and
  a hash-chained log in one encrypted file; \<open>IdentityLife\<close> has the machine \<open>id_run\<close>, whose runs are the
  commands of any processes with any outcome of locks and writes, and its invariant. \<open>OidcLogin\<close>
  models security/oidcAuthenticator.js (token decoding, the cached key set, claim checks), \<open>OidcTrust\<close>
  the answers that a run of calls reads and what an accepted token means. \<open>ScimProvisioning\<close> and \<open>ScimHandler\<close> model security/scimAccessController.js
  and security/scimHandler.js, through which an identity provider changes the registry, and
  \<open>ScimGuarantees\<close> what its answers mean. \<open>AuthGateway\<close> models security/authenticationGateway.js with the
  authorisation of security/privilegedAccessAdapter.js and the error answers of federatedServer.js;
  \<open>GatewayTrust\<close> has the theorems that need all of these parts, among them that the gateway admits only
  principals with trimmed subjects, on which the quorum of \<open>PrivilegedAccess\<close> rests.

  HOW STATE AND OPERATIONS CORRESPOND TO THE CODE

  A class or closure is a record with the fields of its object; a method is a definition that gets
  the state and returns it changed, with every throw as a value. Untyped request bodies are \<open>jsval\<close>; a
  dictionary is a function to an option, or an association list where order matters. Instants are
  integers of milliseconds; \<open>dp\<close> is \<open>Date.parse\<close> as the engine gives it. Numbers of the code are
  integers here (the code checks \<open>Number.isInteger\<close> or uses counters that stay far below \<open>2^53\<close>).
  A character is one code unit below 256, as HOL has it.

  WHAT THE MODEL TAKES AS GIVEN

  Digests are parameters (\<open>H\<close>, \<open>D\<close>); the record \<open>engine\<close> has those of the identity theories together
  with \<open>Date.parse\<close>, \<open>JSON.parse\<close>, the URL parser, \<open>decodeURIComponent\<close>, scrypt, and the key and signature
  checks of \<open>node:crypto\<close>. About digests: a theorem that needs collision freedom says so, or ends with "or
  two hashed texts collide". AES-256-GCM is ideal: a sealed text opens exactly with the key and the
  additional data it was sealed with. A clock reading is an argument of each operation; during one
  command of the workforce registry the clock stands still, and a token call compares the cache with the
  reading it starts with. Calls on one authenticator come one after another, so that none waits for the
  fetch of another. The digest that names a tenant's directory is taken to be injective on valid tenant
  identifiers, and \<open>digest('hex')\<close> to be hexadecimal where a theorem says so. Random identifiers are arguments; where
  the code relies on their being new, the theorem has that as a hypothesis. Whether a write, a
  removal or a lock succeeds is decided by the environment, and the theorems hold for every
  decision unless they name one. \<open>FileMutex\<close> and \<open>LeaseProtocol\<close> assume that a process crashes at a file
  system call or between two of them, and that rename, exclusive mkdir and exclusive open are atomic.

  WHAT THE GROUPS OF LEMMAS SHOW

  Type and state invariants are proved for every operation and lifted by rule induction to all
  reachable states (\<open>ledger_reachable\<close>, \<open>audit_reachable\<close>, \<open>ev_reach\<close>, \<open>wf_reachable\<close>,
  \<open>outbox_reachable\<close>) or runs (\<open>id_run\<close>, \<open>oidc_run\<close>, \<open>ap_run\<close>, \<open>bd_run\<close>). Refinements relate the
  evidence registry to its abstract specification, the fenced store to a register, the shared
  limiter to the limiter in memory. Tamper evidence follows from \<open>HashChain\<close> and \<open>JsonText\<close>. The defects
  that modelling showed are theorems too: a release that races with an inspection breaks the mutual
  exclusion of \<open>FileMutex\<close> and gives two calls one token in \<open>LeaseProtocol\<close>; a directory sync that fails
  after the rename of an index deletes content (\<open>EvidenceCustody\<close>); a failed backup loses a recovery
  point (\<open>RecoveryLoss\<close>); reasons near the limit of 500 characters are never replicated
  (\<open>WorkforceRestore\<close>); a signed request is answered twice exactly at the end of its replay window, and
  the janitor removes dead letters by name (\<open>ScanDelivery\<close>, \<open>ScanMaintenance\<close>); a SCIM request without
  a reason is reported as an outage (\<open>ScimGuarantees\<close>), and a token with a garbled signature is an
  internal error that no limit counts (\<open>GatewayTrust\<close>); a principal whose subject carries blanks, which the
  gateway does not admit but the registry accepts, approves its own request (\<open>PrivilegedAccess\<close>); an export whose consumption cannot be written runs
  again, and a torn request blocks its tenant (\<open>ExportGuarantees\<close>); a bundle too large for a claim blocks
  those behind it (\<open>BundleDelivery\<close>).

  NO FUEL

  Every recursive definition is structural or has a termination proof; loops of a process with
  others around it are the step relations, whose theorems of progress bound the number of steps.

  NOT MODELLED

  HTTP servers, handlers and routing other than SCIM; the construction of components from environment variables;
  timers; the scripts. Of the lease coordinator the heartbeat, the inspection report and the no-op
  coordinator. The handlers and attestations of external scans, screening, preservation, time attestations, the registries
  and handlers in front of the stores of assurance exports, security event archive and alert delivery,
  which build on the parts modelled here. The \<open>health()\<close> reports of the assurance stores.
\<close>

end
